(* ===== verification/Prelude.thy ===== *)
theory Prelude
  imports Complex_Main "HOL-Library.Char_ord" "HOL-Library.List_Lexorder" "HOL-Library.Multiset"
begin

text \<open>
  Shared vocabulary of the development: the types the Go sources use everywhere
  (identifiers, instants, error values), the result type of fallible operations and
  the combinator for \<^verbatim>\<open>if err != nil { return err }\<close>, the string
  functions of Go's standard library the program calls, and the list lemmas that
  read SQL statements (\<^verbatim>\<open>UPDATE ... WHERE\<close>,
  \<^verbatim>\<open>RowsAffected\<close>, \<^verbatim>\<open>ORDER BY\<close>).
\<close>

named_theorems store_frame \<open>which tables an operation leaves alone\<close>
named_theorems inv_intros \<open>operations that keep the schema invariant\<close>

section \<open>Identifiers, time, errors\<close>

text \<open>
  A UUID is opaque to the program: only equality is used, so it is a number.
  An instant is the number of nanoseconds since Go's zero \<^verbatim>\<open>time.Time\<close>
  (so \<^verbatim>\<open>IsZero\<close> is equality with 0), a duration a number of nanoseconds.
\<close>

type_synonym uuid = nat
type_synonym time = int
type_synonym duration = int
type_synonym bytes = string

definition second :: duration where "second = 1000000000"
definition minute :: duration where "minute = 60 * second"
definition hour :: duration where "hour = 60 * minute"

lemma durations_pos [simp]: "0 < second" "0 < minute" "0 < hour"
  by (simp_all add: second_def minute_def hour_def)

text \<open>\<^verbatim>\<open>time.Unix(s, 0)\<close>: the Unix epoch is 62135596800 seconds after the zero instant.\<close>

definition unix :: "int \<Rightarrow> time" where
  "unix s = (s + 62135596800) * second"

text \<open>
  Error values: the store's sentinels, a PostgreSQL error with its SQLSTATE, a lost
  database connection, a user-facing validation error, the dispatcher's permanent
  failure, a rejected certificate request, and any other error with its text.
\<close>

datatype err =
    ErrNotFound
  | ErrConflict
  | ErrTokenInvalid
  | PgError string
  | ErrConn
  | ValidationError string
  | PermanentError string
  | ErrBadCSR string
  | ErrText string

text \<open>\<^verbatim>\<open>err.Error()\<close> of the error values.\<close>

fun err_text :: "err \<Rightarrow> string" where
  "err_text ErrNotFound = ''not found''"
| "err_text ErrConflict = ''already exists''"
| "err_text ErrTokenInvalid = ''install token invalid, expired, revoked, or exhausted''"
| "err_text (PgError c) = ''ERROR (SQLSTATE '' @ c @ '')''"
| "err_text ErrConn = ''conn closed''"
| "err_text (ValidationError m) = m"
| "err_text (PermanentError m) = m"
| "err_text (ErrBadCSR m) = ''bad CSR'' @ CHR 0x0A # m"
| "err_text (ErrText m) = m"

type_synonym 'a res = "err + 'a"

definition is_ok :: "'a res \<Rightarrow> bool" where
  "is_ok r = (case r of Inl _ \<Rightarrow> False | Inr _ \<Rightarrow> True)"

lemma is_ok_simps [simp]: "is_ok (Inl e) = False" "is_ok (Inr x) = True"
  by (simp_all add: is_ok_def)

lemma is_okE [elim]:
  assumes "is_ok r" obtains x where "r = Inr x"
  using assms by (cases r) auto

text \<open>\<^verbatim>\<open>x, err := m; if err != nil { return err }; k\<close>, with the state threaded.\<close>

definition andThen :: "'a res \<times> 's \<Rightarrow> ('a \<Rightarrow> 's \<Rightarrow> 'b res \<times> 's) \<Rightarrow> 'b res \<times> 's" where
  "andThen m k = (case m of (Inl e, s) \<Rightarrow> (Inl e, s) | (Inr x, s) \<Rightarrow> k x s)"

lemma andThen_simps [simp]:
  "andThen (Inl e, s) k = (Inl e, s)"
  "andThen (Inr x, s) k = k x s"
  by (simp_all add: andThen_def)

lemma andThen_return [simp]: "snd (andThen m (\<lambda>x. Pair (r x))) = snd m"
  by (cases m; cases "fst m") (auto simp: andThen_def)

lemma andThen_state:
  assumes "P (snd m)" and "\<And>x s. P s \<Longrightarrow> P (snd (k x s))"
  shows "P (snd (andThen m k))"
  using assms by (cases m; cases "fst m") (auto simp: andThen_def)

section \<open>SQL over lists of rows\<close>

text \<open>\<^verbatim>\<open>UPDATE t SET f WHERE P\<close> and the number of rows it affects.\<close>

definition update_where :: "('r \<Rightarrow> bool) \<Rightarrow> ('r \<Rightarrow> 'r) \<Rightarrow> 'r list \<Rightarrow> 'r list" where
  "update_where P f rs = map (\<lambda>r. if P r then f r else r) rs"

definition rows_affected :: "('r \<Rightarrow> bool) \<Rightarrow> 'r list \<Rightarrow> nat" where
  "rows_affected P rs = length (filter P rs)"

lemma length_update_where [simp]: "length (update_where P f rs) = length rs"
  by (simp add: update_where_def)

lemma update_where_Nil [simp]: "update_where P f [] = []"
  by (simp add: update_where_def)

lemma update_where_Cons [simp]:
  "update_where P f (r # rs) = (if P r then f r else r) # update_where P f rs"
  by (simp add: update_where_def)

lemma update_where_none: "\<forall>r \<in> set rs. \<not> P r \<Longrightarrow> update_where P f rs = rs"
  by (induction rs) auto

lemma set_update_where: "set (update_where P f rs) = (\<lambda>r. if P r then f r else r) ` set rs"
  by (simp add: update_where_def)

lemma in_update_where:
  "r' \<in> set (update_where P f rs) \<Longrightarrow>
     (\<exists>r \<in> set rs. P r \<and> r' = f r) \<or> (r' \<in> set rs \<and> \<not> P r')"
  by (auto simp: set_update_where split: if_splits)

lemma map_update_where_inv:
  "(\<And>r. P r \<Longrightarrow> g (f r) = g r) \<Longrightarrow> map g (update_where P f rs) = map g rs"
  by (induction rs) auto

lemma filter_update_where_other:
  "(\<And>r. r \<in> set rs \<Longrightarrow> P r \<Longrightarrow> \<not> Q r \<and> \<not> Q (f r)) \<Longrightarrow> filter Q (update_where P f rs) = filter Q rs"
  by (induction rs) auto

lemma filter_the_row:
  assumes "\<And>x. P x \<Longrightarrow> k x = k r" and "P r"
  shows "distinct (map k rs) \<Longrightarrow> r \<in> set rs \<Longrightarrow> filter P rs = [r]"
proof (induction rs)
  case (Cons x rs)
  show ?case
  proof (cases "k x = k r")
    case True
    then have "k r \<notin> k ` set rs" using Cons.prems(1) by simp
    then have "r = x" and "\<forall>y \<in> set rs. \<not> P y" using Cons.prems(2) assms(1) by (auto simp: image_iff)
    with assms(2) show ?thesis by (simp add: filter_empty_conv)
  next
    case False
    with assms(1) have "\<not> P x" "r \<noteq> x" by blast+
    with Cons show ?thesis by simp
  qed
qed simp

lemma filter_at_most_one:
  assumes "length (filter P rs) \<le> 1" "x \<in> set rs" "P x" "y \<in> set rs" "P y"
  shows "x = y"
proof -
  have "x \<in> set (filter P rs)" "y \<in> set (filter P rs)" using assms by auto
  with assms(1) show ?thesis by (cases "filter P rs") auto
qed

lemma length_filter_map_le:
  assumes "\<And>x. Q (f x) \<Longrightarrow> Q x"
  shows "length (filter Q (map f xs)) \<le> length (filter Q xs)"
proof (induction xs)
  case (Cons x xs)
  with assms [of x] show ?case by (cases "Q (f x)") simp_all
qed simp

lemma rows_affected_0: "rows_affected P rs = 0 \<longleftrightarrow> (\<forall>r \<in> set rs. \<not> P r)"
  by (auto simp: rows_affected_def filter_empty_conv)

text \<open>\<^verbatim>\<open>SELECT ... LIMIT 1\<close> without an order: the first matching row.\<close>

definition find_row :: "('r \<Rightarrow> bool) \<Rightarrow> 'r list \<Rightarrow> 'r option" where
  "find_row P rs = find P rs"

lemma find_row_Some: "find_row P rs = Some r \<Longrightarrow> r \<in> set rs \<and> P r"
  by (auto simp: find_row_def find_Some_iff)

lemma find_row_None: "find_row P rs = None \<longleftrightarrow> (\<forall>r \<in> set rs. \<not> P r)"
  by (auto simp: find_row_def find_None_iff)

lemma find_row_simps [simp]:
  "find_row P [] = None"
  "find_row P (r # rs) = (if P r then Some r else find_row P rs)"
  by (simp_all add: find_row_def)

lemma find_row_unique:
  assumes "distinct (map k rs)" "r \<in> set rs" "k r = i"
  shows "find_row (\<lambda>r. k r = i) rs = Some r"
  using assms by (induction rs) auto

text \<open>\<^verbatim>\<open>RowsAffected() == 0\<close> reported as \<^verbatim>\<open>ErrNotFound\<close> (store/devices.go, oneRow).\<close>

definition oneRow :: "nat res \<Rightarrow> unit res" where
  "oneRow r = (case r of Inl e \<Rightarrow> Inl e | Inr n \<Rightarrow> if n = 0 then Inl ErrNotFound else Inr ())"

text \<open>A unique-constraint violation (SQLSTATE 23505) becomes \<^verbatim>\<open>ErrConflict\<close> (store/store.go, conflict).\<close>

definition conflict :: "'a res \<Rightarrow> 'a res" where
  "conflict r = (case r of Inl e \<Rightarrow> if e = PgError ''23505'' then Inl ErrConflict else Inl e | Inr x \<Rightarrow> Inr x)"

lemma conflict_simps [simp]:
  "conflict (Inr x) = Inr x"
  "conflict (Inl ErrConn) = Inl ErrConn"
  "conflict (Inl (PgError c)) = Inl (if c = ''23505'' then ErrConflict else PgError c)"
  by (simp_all add: conflict_def)

lemma oneRow_simps [simp]:
  "oneRow (Inl e) = Inl e" "oneRow (Inr 0) = Inl ErrNotFound" "oneRow (Inr (Suc n)) = Inr ()"
  by (simp_all add: oneRow_def)

lemma oneRow_ok: "oneRow (Inr n) = Inr () \<longleftrightarrow> 0 < n"
  by (cases n) auto

lemma find_row_update_where:
  assumes "\<And>r. k (f r) = k r"
  shows "find_row (\<lambda>r. k r = i) (update_where P f rs) =
     map_option (\<lambda>r. if P r then f r else r) (find_row (\<lambda>r. k r = i) rs)"
  using assms by (induction rs) auto

lemma find_row_update_where_other:
  assumes "\<And>r. k (f r) = k r" and "\<And>r. k r = i \<Longrightarrow> \<not> P r"
  shows "find_row (\<lambda>r. k r = i) (update_where P f rs) = find_row (\<lambda>r. k r = i) rs"
  using assms by (induction rs) auto

lemma find_row_append:
  "find_row P (xs @ ys) = (case find_row P xs of Some r \<Rightarrow> Some r | None \<Rightarrow> find_row P ys)"
  by (induction xs) auto

text \<open>
  A table that only grows: old rows are kept in place, related to what they were, and
  new rows follow them.
\<close>

definition grows :: "('r \<Rightarrow> 'r \<Rightarrow> bool) \<Rightarrow> 'r list \<Rightarrow> 'r list \<Rightarrow> bool" where
  "grows R xs ys \<longleftrightarrow> (\<exists>ms ex. ys = ms @ ex \<and> list_all2 R xs ms)"

lemma grows_append: "(\<And>x. R x x) \<Longrightarrow> grows R xs (xs @ ex)"
  unfolding grows_def by (rule exI [of _ xs], rule exI [of _ ex]) (simp add: list_all2_refl)

lemma grows_refl: "(\<And>x. R x x) \<Longrightarrow> grows R xs xs"
  using grows_append [of R xs "[]"] by simp

lemma grows_update:
  assumes "\<And>x. R x x" and "\<And>x. P x \<Longrightarrow> R x (f x)"
  shows "grows R xs (update_where P f xs)"
proof -
  have "list_all2 R xs (update_where P f xs)" using assms by (induction xs) auto
  then show ?thesis by (auto simp: grows_def)
qed

lemma grows_trans:
  assumes "\<And>x y z. R x y \<Longrightarrow> R y z \<Longrightarrow> R x z" and "grows R xs ys" and "grows R ys zs"
  shows "grows R xs zs"
proof -
  from assms(2) obtain ms ex where ys: "ys = ms @ ex" "list_all2 R xs ms" by (auto simp: grows_def)
  from assms(3) ys(1) obtain ns ex' where zs: "zs = ns @ ex'" "list_all2 R (ms @ ex) ns" by (auto simp: grows_def)
  then obtain ns1 ns2 where "ns = ns1 @ ns2" "list_all2 R ms ns1" by (auto simp: list_all2_append1)
  with ys zs list_all2_trans [of R R R, OF assms(1)] show ?thesis
    unfolding grows_def by (intro exI [of _ ns1] exI [of _ "ns2 @ ex'"]) auto
qed

lemma grows_find:
  assumes "grows R xs ys" and "\<And>x y. R x y \<Longrightarrow> k y = k x" and "find_row (\<lambda>r. k r = i) xs = Some x"
  shows "\<exists>y. find_row (\<lambda>r. k r = i) ys = Some y \<and> R x y"
proof -
  from assms(1) obtain ms ex where ys: "ys = ms @ ex" "list_all2 R xs ms" by (auto simp: grows_def)
  from ys(2) assms(3) have "\<exists>y. find_row (\<lambda>r. k r = i) ms = Some y \<and> R x y"
    by (induction rule: list_all2_induct) (use assms(2) in \<open>auto split: if_splits\<close>)
  with ys(1) show ?thesis by (auto simp: find_row_append)
qed

section \<open>Strings\<close>

text \<open>
  A Go string is its bytes. The functions of the \<^verbatim>\<open>strings\<close> and
  \<^verbatim>\<open>fmt\<close> packages the program uses; case mapping and white space are the ASCII
  ones.
\<close>

definition CR :: char where "CR = CHR 0x0D"
definition LF :: char where "LF = CHR 0x0A"
definition TAB :: char where "TAB = CHR 0x09"
definition BSL :: char where "BSL = CHR 0x5C"
definition DQ :: char where "DQ = CHR 0x22"

lemmas char_defs = CR_def LF_def TAB_def BSL_def DQ_def

text \<open>\<^verbatim>\<open>%d\<close>.\<close>

definition digit :: "nat \<Rightarrow> char" where
  "digit n = ''0123456789'' ! n"

fun show_nat :: "nat \<Rightarrow> string" where
  "show_nat n = (if n < 10 then [digit n] else show_nat (n div 10) @ [digit (n mod 10)])"

declare show_nat.simps [simp del]

definition show_int :: "int \<Rightarrow> string" where
  "show_int i = (if i < 0 then ''-'' @ show_nat (nat (- i)) else show_nat (nat i))"

text \<open>\<^verbatim>\<open>strings.Join\<close>, and a \<^verbatim>\<open>strings.NewReplacer\<close> whose patterns are single bytes.\<close>

fun join :: "string \<Rightarrow> string list \<Rightarrow> string" where
  "join sep [] = []"
| "join sep [x] = x"
| "join sep (x # y # xs) = x @ sep @ join sep (y # xs)"

definition replacer :: "(char \<times> string) list \<Rightarrow> string \<Rightarrow> string" where
  "replacer tbl s = concat (map (\<lambda>c. case map_of tbl c of Some r \<Rightarrow> r | None \<Rightarrow> [c]) s)"

lemma replacer_simps [simp]:
  "replacer tbl [] = []"
  "replacer tbl (c # s) = (case map_of tbl c of Some r \<Rightarrow> r | None \<Rightarrow> [c]) @ replacer tbl s"
  "replacer tbl (s @ s') = replacer tbl s @ replacer tbl s'"
  by (simp_all add: replacer_def)

text \<open>\<^verbatim>\<open>strings.TrimSpace\<close>, \<^verbatim>\<open>ToLower\<close>, \<^verbatim>\<open>ToUpper\<close>, \<^verbatim>\<open>HasPrefix\<close>, \<^verbatim>\<open>HasSuffix\<close>, \<^verbatim>\<open>Contains\<close>.\<close>

definition is_space :: "char \<Rightarrow> bool" where
  "is_space c \<longleftrightarrow> c \<in> {CHR '' '', TAB, LF, CHR 0x0B, CHR 0x0C, CR}"

definition TrimSpace :: "string \<Rightarrow> string" where
  "TrimSpace s = rev (dropWhile is_space (rev (dropWhile is_space s)))"

definition is_upper :: "char \<Rightarrow> bool" where
  "is_upper c \<longleftrightarrow> CHR ''A'' \<le> c \<and> c \<le> CHR ''Z''"

definition is_lower :: "char \<Rightarrow> bool" where
  "is_lower c \<longleftrightarrow> CHR ''a'' \<le> c \<and> c \<le> CHR ''z''"

definition lower_char :: "char \<Rightarrow> char" where
  "lower_char c = (if is_upper c then char_of (of_char c + 32 :: nat) else c)"

definition upper_char :: "char \<Rightarrow> char" where
  "upper_char c = (if is_lower c then char_of (of_char c - 32 :: nat) else c)"

definition ToLower :: "string \<Rightarrow> string" where "ToLower s = map lower_char s"
definition ToUpper :: "string \<Rightarrow> string" where "ToUpper s = map upper_char s"

definition HasPrefix :: "string \<Rightarrow> string \<Rightarrow> bool" where
  "HasPrefix s p \<longleftrightarrow> take (length p) s = p"

definition HasSuffix :: "string \<Rightarrow> string \<Rightarrow> bool" where
  "HasSuffix s p \<longleftrightarrow> length p \<le> length s \<and> drop (length s - length p) s = p"

fun Contains :: "string \<Rightarrow> string \<Rightarrow> bool" where
  "Contains [] p = (p = [])"
| "Contains (c # s) p = (HasPrefix (c # s) p \<or> Contains s p)"

lemma Contains_single: "Contains s [c] \<longleftrightarrow> c \<in> set s"
  by (induction s) (auto simp: HasPrefix_def)

lemma join_set: "set (join sep xs) \<subseteq> set sep \<union> \<Union> (set ` set xs)"
  by (induction sep xs rule: join.induct) auto

definition is_digit :: "char \<Rightarrow> bool" where
  "is_digit c \<longleftrightarrow> c \<in> set ''0123456789''"

lemma is_digit_digit [simp]: "n < 10 \<Longrightarrow> is_digit (digit n)"
  unfolding digit_def is_digit_def by (rule nth_mem) simp

lemma show_nat_digits: "\<forall>c \<in> set (show_nat n). is_digit c"
proof (induction n rule: show_nat.induct)
  case (1 n)
  then show ?case by (subst show_nat.simps) auto
qed

lemma show_int_chars: "c \<in> set (show_int i) \<Longrightarrow> is_digit c \<or> c = CHR ''-''"
  using show_nat_digits [of "nat i"] show_nat_digits [of "nat (- i)"]
  by (auto simp: show_int_def split: if_splits)

lemma not_digit [simp]:
  "\<not> is_digit CR" "\<not> is_digit LF" "\<not> is_digit BSL" "\<not> is_digit (CHR ''|'')" "\<not> is_digit (CHR ''='')"
  by (simp_all add: is_digit_def char_defs)

text \<open>
  UTF-8 as Go's \<^verbatim>\<open>unicode/utf8\<close> accepts it: the length of the encoded rune a string
  starts with, 0 where the first byte starts no valid encoding (overlong forms,
  surrogates and values above U+10FFFF are invalid).
\<close>

definition byte :: "char \<Rightarrow> nat" where "byte c = of_char c"

definition cont_byte :: "char \<Rightarrow> bool" where "cont_byte c \<longleftrightarrow> 128 \<le> byte c \<and> byte c \<le> 191"

definition second_ok :: "nat \<Rightarrow> char \<Rightarrow> bool" where
  "second_ok b c \<longleftrightarrow>
     (if b = 224 then 160 \<le> byte c \<and> byte c \<le> 191
      else if b = 237 then 128 \<le> byte c \<and> byte c \<le> 159
      else if b = 240 then 144 \<le> byte c \<and> byte c \<le> 191
      else if b = 244 then 128 \<le> byte c \<and> byte c \<le> 143
      else cont_byte c)"

definition rune_need :: "char \<Rightarrow> nat" where
  "rune_need c = (let b = byte c in
     if b < 128 then 1 else if b < 194 then 0 else if b < 224 then 2
     else if b < 240 then 3 else if b < 245 then 4 else 0)"

definition rune_ok :: "string \<Rightarrow> bool" where
  "rune_ok r = (case r of [] \<Rightarrow> False
     | c # cs \<Rightarrow> (cs = [] \<or> second_ok (byte c) (hd cs)) \<and> list_all cont_byte (tl cs))"

definition rune_len :: "string \<Rightarrow> nat" where
  "rune_len s = (if s = [] then 0 else
     let n = rune_need (hd s) in if n \<le> length s \<and> rune_ok (take n s) then n else 0)"

lemma rune_len_le: "rune_len s \<le> length s"
  by (simp add: rune_len_def Let_def)

lemma rune_len_take:
  assumes "rune_len s \<noteq> 0"
  shows "rune_len (take (rune_len s) s @ t) = rune_len s"
proof -
  from assms have s: "s \<noteq> []" "rune_len s = rune_need (hd s)" "rune_need (hd s) \<le> length s"
    "rune_ok (take (rune_need (hd s)) s)"
    by (auto simp: rune_len_def Let_def split: if_splits)
  have "rune_need (hd s) \<noteq> 0" using assms s(2) by simp
  then have "take (rune_need (hd s)) s \<noteq> []" "hd (take (rune_need (hd s)) s) = hd s" using s(1) by auto
  then show ?thesis using s by (subst (1) rune_len_def) (simp add: Let_def)
qed

text \<open>\<^verbatim>\<open>utf8.ValidString\<close> and \<^verbatim>\<open>strings.ToValidUTF8(s, "")\<close>.\<close>

function valid_utf8 :: "string \<Rightarrow> bool" where
  "valid_utf8 s = (if s = [] then True else if rune_len s = 0 then False
     else valid_utf8 (drop (rune_len s) s))"
  by auto
termination by (relation "measure length") auto

declare valid_utf8.simps [simp del]

function ToValidUTF8 :: "string \<Rightarrow> string" where
  "ToValidUTF8 s = (if s = [] then []
     else if rune_len s = 0 then ToValidUTF8 (tl s)
     else take (rune_len s) s @ ToValidUTF8 (drop (rune_len s) s))"
  by auto
termination by (relation "measure length") auto

declare ToValidUTF8.simps [simp del]

lemma ToValidUTF8_valid: "valid_utf8 (ToValidUTF8 s)"
proof (induction s rule: ToValidUTF8.induct)
  case (1 s)
  consider (empty) "s = []" | (bad) "s \<noteq> []" "rune_len s = 0" | (rune) "s \<noteq> []" "rune_len s \<noteq> 0" by blast
  then show ?case
  proof cases
    case empty
    then show ?thesis by (simp add: ToValidUTF8.simps [of "[]"] valid_utf8.simps [of "[]"])
  next
    case bad
    with 1(1) show ?thesis by (simp add: ToValidUTF8.simps [of s])
  next
    case rune
    let ?n = "rune_len s" and ?t = "ToValidUTF8 (drop (rune_len s) s)"
    have out: "ToValidUTF8 s = take ?n s @ ?t" using rune by (simp add: ToValidUTF8.simps [of s])
    have len: "rune_len (take ?n s @ ?t) = ?n" using rune(2) by (rule rune_len_take)
    have "take ?n s @ ?t \<noteq> []" using rune by simp
    then have "valid_utf8 (take ?n s @ ?t) = valid_utf8 (drop ?n (take ?n s @ ?t))"
      using rune by (simp add: valid_utf8.simps [of "take ?n s @ ?t"] len)
    also have "drop ?n (take ?n s @ ?t) = ?t" using rune_len_le [of s] by simp
    finally show ?thesis using 1(2) rune out by simp
  qed
qed

lemma ToValidUTF8_length: "length (ToValidUTF8 s) \<le> length s"
proof (induction s rule: ToValidUTF8.induct)
  case (1 s)
  then show ?case
    using rune_len_le [of s] by (subst ToValidUTF8.simps) auto
qed

lemma ToValidUTF8_set: "set (ToValidUTF8 s) \<subseteq> set s"
proof (induction s rule: ToValidUTF8.induct)
  case (1 s)
  then show ?case
    by (subst ToValidUTF8.simps) (fastforce dest: in_set_dropD in_set_takeD list.set_sel(2) split: if_splits)
qed

section \<open>Tables with a status column\<close>

text \<open>
  Several tables carry a status that may only move along the edges of a small graph:
  commands, rollouts, approval requests. The contract: an operation of the component
  moves the status of an existing row along at most one edge and never removes the
  row. Its consequences for arbitrary sequences of operations are proved here once.
\<close>

locale lifecycle_inv =
  fixes status :: "'d \<Rightarrow> 'k \<Rightarrow> 's option"
    and inv :: "'d \<Rightarrow> bool"
    and ops :: "('d \<Rightarrow> 'd) set"
    and edge :: "'s \<Rightarrow> 's \<Rightarrow> bool"
  assumes op_edge: "f \<in> ops \<Longrightarrow> inv d \<Longrightarrow> status d k = Some s \<Longrightarrow>
      \<exists>s'. status (f d) k = Some s' \<and> (s' = s \<or> edge s s')"
    and op_inv: "f \<in> ops \<Longrightarrow> inv d \<Longrightarrow> inv (f d)"
begin

lemma run_edges:
  "set fs \<subseteq> ops \<Longrightarrow> inv d \<Longrightarrow> status d k = Some s \<Longrightarrow>
     \<exists>s'. status (fold (\<lambda>f. f) fs d) k = Some s' \<and> edge\<^sup>*\<^sup>* s s'"
proof (induction fs arbitrary: d s)
  case Nil
  then show ?case by auto
next
  case (Cons f fs)
  from Cons.prems op_edge [of f d k s] obtain s1
    where s1: "status (f d) k = Some s1" "s1 = s \<or> edge s s1" by auto
  from Cons.prems op_inv have "inv (f d)" by simp
  from Cons.IH [OF _ this s1(1)] Cons.prems(1) obtain s2
    where s2: "status (fold (\<lambda>f. f) fs (f d)) k = Some s2" "edge\<^sup>*\<^sup>* s1 s2" by auto
  from s1(2) s2(2) have "edge\<^sup>*\<^sup>* s s2" by (auto intro: converse_rtranclp_into_rtranclp)
  with s2(1) show ?case by auto
qed

lemma run_inv: "set fs \<subseteq> ops \<Longrightarrow> inv d \<Longrightarrow> inv (fold (\<lambda>f. f) fs d)"
  by (induction fs arbitrary: d) (auto intro: op_inv)

lemma terminal_forever:
  assumes "set fs \<subseteq> ops" "inv d" "status d k = Some s" "\<And>s'. \<not> edge s s'"
  shows "status (fold (\<lambda>f. f) fs d) k = Some s"
proof -
  from run_edges [OF assms(1-3)] obtain s'
    where s': "status (fold (\<lambda>f. f) fs d) k = Some s'" "edge\<^sup>*\<^sup>* s s'" by blast
  from s'(2) assms(4) have "s' = s" by (cases rule: converse_rtranclpE) auto
  with s'(1) show ?thesis by simp
qed

end

text \<open>The common case: the operations respect the edges in every state.\<close>

locale lifecycle =
  fixes status :: "'d \<Rightarrow> 'k \<Rightarrow> 's option"
    and ops :: "('d \<Rightarrow> 'd) set"
    and edge :: "'s \<Rightarrow> 's \<Rightarrow> bool"
  assumes any_edge: "f \<in> ops \<Longrightarrow> status d k = Some s \<Longrightarrow>
    \<exists>s'. status (f d) k = Some s' \<and> (s' = s \<or> edge s s')"

sublocale lifecycle \<subseteq> lifecycle_inv status "\<lambda>_. True" ops edge
  by unfold_locales (auto dest: any_edge)

end
