(* ===== verification/Store_State.thy ===== *)
theory Store_State
  imports Prelude
begin

text \<open>
  The PostgreSQL database behind \<^verbatim>\<open>internal/server/store\<close>: one record per
  table row (the Go struct together with the columns the migrations declare), one
  list of rows per table, and the three things a statement can consult beside the
  tables: the database clock (\<^verbatim>\<open>now()\<close>), the generator behind
  \<^verbatim>\<open>uuid.New()\<close>, and an oracle that says which of the coming statements lose
  their connection. The oracle makes every \<^verbatim>\<open>if err != nil\<close> of the sources a
  reachable branch of the model.

  Columns the migrations restrict with \<^verbatim>\<open>CHECK (x IN (...))\<close> and that the
  program never fills from user input are datatypes; columns that carry user input
  keep their strings.
\<close>

section \<open>Column types\<close>

datatype rollout_state = Active | Paused | Completed | Cancelled

datatype progress_state = PIssued | PUpdated | PFailed | PCancelled

text \<open>\<open>CUnset\<close> is the empty State of a Command value that was never read from the table.\<close>

datatype command_state = CUnset | CPending | CSent | CSucceeded | CFailed | CExpired

datatype approval_status = APending | AApproved | ADenied | AExpired

datatype delivery_state = DPending | DSent | DFailed

text \<open>
  Text in the audit log and in event details. Where the code renders an identifier
  with \<^verbatim>\<open>id.String()\<close> the model keeps the identifier: \<open>IdTxt p i\<close> is the
  prefix \<open>p\<close> followed by the text of \<open>i\<close>.
\<close>

datatype label = Txt string | IdTxt string uuid

text \<open>Values of an event's or audit entry's \<^verbatim>\<open>map[string]any\<close>.\<close>

datatype detail_val = DStr string | DInt int | DBool bool | DRat rat | DId uuid | DStrs "string list"

type_synonym detail = "(string \<times> detail_val) list"

text \<open>notify.Event.\<close>

record event =
  ev_kind :: string
  ev_tenant :: uuid
  ev_title :: string
  ev_body :: string
  ev_detail :: detail
  ev_at :: time

section \<open>Rows\<close>

record tenant_row =
  tn_id :: uuid
  tn_name :: string
  tn_suspended :: bool

record group_row =
  gr_id :: uuid
  gr_tenant :: uuid
  gr_name :: string

record device_row =
  dv_id :: uuid
  dv_tenant :: uuid
  dv_hostname :: string
  dv_machine_guid :: string
  dv_group :: "uuid option"
  dv_cert_serial :: string
  dv_cert_expires_at :: time
  dv_os_build :: string
  dv_agent_version :: string
  dv_ips :: "string list"
  dv_user :: string
  dv_uptime :: int
  dv_last_seen :: "time option"
  dv_clean_shutdown :: bool
  dv_revoked :: bool
  dv_policy_version :: string
  dv_asr_available :: "bool option"
  dv_enrolled_at :: time

text \<open>
  An administrator; the TOTP secret column may be NULL, which the code tells apart from
  an empty secret.
\<close>

record admin_row =
  ad_id :: uuid
  ad_tenant :: uuid
  ad_email :: string
  ad_password_hash :: string
  ad_totp_secret :: "bytes option"
  ad_totp_confirmed :: bool
  ad_role :: string
  ad_disabled :: bool
  ad_provider :: bool

record server_key_row =
  sk_tenant :: uuid
  sk_name :: string
  sk_public :: bytes
  sk_private_enc :: bytes

record session_row =
  se_id :: string
  se_tenant :: uuid
  se_admin :: uuid
  se_csrf :: string
  se_mfa_passed :: bool
  se_expires_at :: time
  se_ip :: string
  se_user_agent :: string

record token_row =
  tk_id :: uuid
  tk_tenant :: uuid
  tk_hash :: bytes
  tk_name :: string
  tk_group :: "uuid option"
  tk_expires_at :: "time option"
  tk_max_uses :: "int option"
  tk_uses :: int
  tk_revoked :: bool

record release_row =
  rl_tenant :: uuid
  rl_version :: string
  rl_sha256 :: bytes
  rl_signature :: bytes
  rl_uploaded_at :: time

record rollout_row =
  ro_id :: uuid
  ro_tenant :: uuid
  ro_version :: string
  ro_groups :: "uuid list"
  ro_batch_size :: int
  ro_max_failures :: int
  ro_state :: rollout_state
  ro_created_by :: label
  ro_created_at :: time
  ro_updated_at :: time
  ro_finished_at :: "time option"

record rollout_device_row =
  rd_rollout :: uuid
  rd_device :: uuid
  rd_command :: uuid
  rd_state :: progress_state
  rd_detail :: string
  rd_issued_at :: time
  rd_resolved_at :: "time option"

record command_row =
  cm_id :: uuid
  cm_tenant :: uuid
  cm_device :: uuid
  cm_type :: string
  cm_payload :: bytes
  cm_issued_at :: time
  cm_expires_at :: time
  cm_state :: command_state
  cm_result :: string
  cm_completed_at :: "time option"

record audit_row =
  au_id :: nat
  au_tenant :: uuid
  au_actor :: label
  au_action :: string
  au_target_type :: string
  au_target_id :: label
  au_detail :: detail
  au_ip :: string
  au_result :: string
  au_created_at :: time

record channel_row =
  ch_id :: uuid
  ch_tenant :: uuid
  ch_kind :: string
  ch_name :: string
  ch_events :: "string list"
  ch_enabled :: bool
  ch_recipients :: "string list"
  ch_url :: string
  ch_secret :: bytes
  ch_created_at :: time
  ch_updated_at :: time

text \<open>
  A delivery. The payload column is jsonb: the model keeps the event its JSON text
  encodes, and None for a JSON text that is not an encoded event.
\<close>

record delivery_row =
  dl_id :: nat
  dl_tenant :: uuid
  dl_channel :: uuid
  dl_event_kind :: string
  dl_payload :: "event option"
  dl_state :: delivery_state
  dl_attempts :: int
  dl_next_attempt_at :: time
  dl_last_error :: string
  dl_sent_at :: "time option"
  dl_created_at :: time

record policy_row =
  po_id :: uuid
  po_tenant :: uuid
  po_name :: string
  po_mode :: string
  po_created_at :: time

record rule_row =
  ru_id :: uuid
  ru_tenant :: uuid
  ru_policy :: uuid
  ru_kind :: string
  ru_value :: string
  ru_publisher :: string
  ru_description :: string

record version_row =
  pv_tenant :: uuid
  pv_policy :: uuid
  pv_version :: string
  pv_mode :: string
  pv_xml :: bytes
  pv_signature :: bytes
  pv_created_at :: time

record assignment_row =
  pa_tenant :: uuid
  pa_group :: uuid
  pa_policy :: uuid

record observation_row =
  ob_tenant :: uuid
  ob_device :: uuid
  ob_sha256 :: string
  ob_path :: string
  ob_signer :: string
  ob_signer_tbs :: string
  ob_signer_verified :: bool
  ob_first_seen :: time
  ob_last_seen :: time
  ob_count :: int
  ob_downloaded :: "bool option"
  ob_download_source :: string

record block_row =
  bl_tenant :: uuid
  bl_device :: uuid
  bl_sha256 :: string
  bl_path :: string
  bl_signer :: string
  bl_signer_tbs :: string
  bl_signer_verified :: bool
  bl_blocked :: bool
  bl_at :: time

record approval_row =
  ar_id :: uuid
  ar_tenant :: uuid
  ar_policy :: uuid
  ar_sha256 :: string
  ar_path :: string
  ar_signer :: string
  ar_signer_tbs :: string
  ar_signer_verified :: bool
  ar_status :: approval_status
  ar_device_count :: int
  ar_event_count :: int
  ar_first_seen :: time
  ar_last_seen :: time
  ar_decided_by :: "uuid option"
  ar_decided_at :: "time option"

record alert_rule_row =
  al_id :: uuid
  al_tenant :: uuid
  al_name :: string
  al_metric :: string
  al_op :: string
  al_threshold :: rat
  al_duration_seconds :: int
  al_enabled :: bool

record alert_row =
  at_id :: nat
  at_tenant :: uuid
  at_device :: uuid
  at_rule :: uuid
  at_metric :: string
  at_message :: string
  at_at :: time
  at_resolved_at :: "time option"

record breach_row =
  br_tenant :: uuid
  br_device :: uuid
  br_rule :: uuid
  br_since :: time

record login_failure_row =
  lf_tenant :: uuid
  lf_key :: string
  lf_at :: time

record controls_row =
  dc_tenant :: uuid
  dc_group :: uuid
  dc_usb :: bool
  dc_network :: bool
  dc_elevation :: bool

record override_row =
  ov_tenant :: uuid
  ov_device :: uuid
  ov_usb :: "bool option"
  ov_network :: "bool option"
  ov_elevation :: "bool option"

record metric_row =
  me_tenant :: uuid
  me_device :: uuid
  me_at :: time
  me_cpu :: rat
  me_mem :: rat
  me_disk :: rat

record device_event_row =
  de_id :: nat
  de_tenant :: uuid
  de_device :: uuid
  de_kind :: string
  de_summary :: string
  de_at :: time

record ringfence_row =
  rf_id :: uuid
  rf_tenant :: uuid
  rf_name :: string
  rf_mode :: string
  rf_created_at :: time

record program_row =
  rp_id :: uuid
  rp_tenant :: uuid
  rp_ringfence :: uuid
  rp_path :: string
  rp_network_blocked :: bool
  rp_note :: string

record protection_row =
  rt_tenant :: uuid
  rt_ringfence :: uuid
  rt_rule :: string
  rt_action :: string

record rf_assignment_row =
  ra_tenant :: uuid
  ra_group :: uuid
  ra_ringfence :: uuid

record ringfence_event_row =
  re_id :: nat
  re_tenant :: uuid
  re_device :: uuid
  re_kind :: string
  re_program :: string
  re_detail :: string
  re_enforced :: bool
  re_at :: time

section \<open>The database\<close>

text \<open>
  A table is the list of its rows in the order they were inserted, which is also the
  order of its \<^verbatim>\<open>created_at\<close> column.
\<close>

record db =
  tenants :: "tenant_row list"
  device_groups :: "group_row list"
  server_keys :: "server_key_row list"
  admins :: "admin_row list"
  sessions :: "session_row list"
  devices :: "device_row list"
  install_tokens :: "token_row list"
  agent_releases :: "release_row list"
  agent_rollouts :: "rollout_row list"
  agent_rollout_devices :: "rollout_device_row list"
  commands :: "command_row list"
  audit_log :: "audit_row list"
  notification_channels :: "channel_row list"
  notification_deliveries :: "delivery_row list"
  policies :: "policy_row list"
  policy_rules :: "rule_row list"
  policy_versions :: "version_row list"
  policy_assignments :: "assignment_row list"
  observations :: "observation_row list"
  block_events :: "block_row list"
  approval_requests :: "approval_row list"
  approval_request_devices :: "(uuid \<times> uuid) list"
  alert_rules :: "alert_rule_row list"
  alerts :: "alert_row list"
  alert_breaches :: "breach_row list"
  login_failures :: "login_failure_row list"
  device_controls :: "controls_row list"
  device_control_overrides :: "override_row list"
  device_metrics :: "metric_row list"
  device_events :: "device_event_row list"
  ringfence_policies :: "ringfence_row list"
  ringfence_programs :: "program_row list"
  ringfence_protections :: "protection_row list"
  ringfence_assignments :: "rf_assignment_row list"
  ringfence_events :: "ringfence_event_row list"
  now_db :: time
  next_uuid :: uuid
  delivery_seq :: nat
  audit_seq :: nat
  alert_seq :: nat
  event_seq :: nat
  ringfence_event_seq :: nat
  faults :: "bool list"

definition empty_db :: db where
  "empty_db = \<lparr>
     tenants = [], device_groups = [], server_keys = [], admins = [], sessions = [], devices = [], install_tokens = [],
     agent_releases = [], agent_rollouts = [], agent_rollout_devices = [],
     commands = [], audit_log = [], notification_channels = [],
     notification_deliveries = [], policies = [], policy_rules = [],
     policy_versions = [], policy_assignments = [], observations = [],
     block_events = [], approval_requests = [], approval_request_devices = [],
     alert_rules = [], alerts = [], alert_breaches = [], login_failures = [],
     device_controls = [], device_control_overrides = [],
     device_metrics = [], device_events = [], ringfence_policies = [], ringfence_programs = [],
     ringfence_protections = [], ringfence_assignments = [], ringfence_events = [],
     now_db = 0, next_uuid = 0, delivery_seq = 0, audit_seq = 0, alert_seq = 0,
     event_seq = 0, ringfence_event_seq = 0, faults = []\<rparr>"

lemma empty_db_fields [simp]:
  "tenants empty_db = []"
  "device_groups empty_db = []"
  "server_keys empty_db = []"
  "admins empty_db = []"
  "sessions empty_db = []"
  "devices empty_db = []"
  "install_tokens empty_db = []"
  "agent_releases empty_db = []"
  "agent_rollouts empty_db = []"
  "agent_rollout_devices empty_db = []"
  "commands empty_db = []"
  "audit_log empty_db = []"
  "notification_channels empty_db = []"
  "notification_deliveries empty_db = []"
  "policies empty_db = []"
  "policy_rules empty_db = []"
  "policy_versions empty_db = []"
  "policy_assignments empty_db = []"
  "observations empty_db = []"
  "block_events empty_db = []"
  "approval_requests empty_db = []"
  "approval_request_devices empty_db = []"
  "alert_rules empty_db = []"
  "alerts empty_db = []"
  "alert_breaches empty_db = []"
  "login_failures empty_db = []"
  "device_controls empty_db = []"
  "device_control_overrides empty_db = []"
  "device_metrics empty_db = []"
  "device_events empty_db = []"
  "ringfence_policies empty_db = []"
  "ringfence_programs empty_db = []"
  "ringfence_protections empty_db = []"
  "ringfence_assignments empty_db = []"
  "ringfence_events empty_db = []"
  "faults empty_db = []"
  by (simp_all add: empty_db_def)

section \<open>Running a statement\<close>

text \<open>
  One round trip to the pool: the oracle decides whether the connection is lost, in
  which case nothing is changed and the caller sees an error. An exhausted oracle
  means no further connection is lost.
\<close>

definition pool :: "(db \<Rightarrow> 'a res \<times> db) \<Rightarrow> db \<Rightarrow> 'a res \<times> db" where
  "pool stmt d = (case faults d of
       [] \<Rightarrow> stmt d
     | lost # rest \<Rightarrow>
         (let d' = d\<lparr>faults := rest\<rparr> in if lost then (Inl ErrConn, d') else stmt d'))"

text \<open>
  A transaction: begin and commit are round trips of their own, and an error anywhere
  rolls the tables back. The oracle and the UUID generator are outside the database,
  so they keep what the body consumed.
\<close>

definition tx :: "(db \<Rightarrow> 'a res \<times> db) \<Rightarrow> db \<Rightarrow> 'a res \<times> db" where
  "tx body d = andThen (pool (\<lambda>d. (Inr (), d)) d) (\<lambda>_ d0.
     (let (r, d1) = andThen (body d0) (\<lambda>x d1. andThen (pool (\<lambda>d. (Inr (), d)) d1) (\<lambda>_ d2. (Inr x, d2)))
      in case r of
           Inl e \<Rightarrow> (Inl e, d0\<lparr>faults := faults d1, next_uuid := next_uuid d1\<rparr>)
         | Inr x \<Rightarrow> (Inr x, d1)))"

text \<open>\<^verbatim>\<open>uuid.New()\<close>: a value never returned before.\<close>

definition new_uuid :: "db \<Rightarrow> uuid \<times> db" where
  "new_uuid d = (next_uuid d, d\<lparr>next_uuid := Suc (next_uuid d)\<rparr>)"

text \<open>
  The oracle is updated first: one normal form for the states that differ in several fields.
\<close>

lemma faults_first:
  fixes d :: db
  shows
    "d\<lparr>tenants := x0, faults := fs\<rparr> = d\<lparr>faults := fs, tenants := x0\<rparr>"
    "d\<lparr>device_groups := x1, faults := fs\<rparr> = d\<lparr>faults := fs, device_groups := x1\<rparr>"
    "d\<lparr>server_keys := y, faults := fs\<rparr> = d\<lparr>faults := fs, server_keys := y\<rparr>"
    "d\<lparr>admins := x2, faults := fs\<rparr> = d\<lparr>faults := fs, admins := x2\<rparr>"
    "d\<lparr>sessions := x3, faults := fs\<rparr> = d\<lparr>faults := fs, sessions := x3\<rparr>"
    "d\<lparr>devices := x4, faults := fs\<rparr> = d\<lparr>faults := fs, devices := x4\<rparr>"
    "d\<lparr>install_tokens := x5, faults := fs\<rparr> = d\<lparr>faults := fs, install_tokens := x5\<rparr>"
    "d\<lparr>agent_releases := x6, faults := fs\<rparr> = d\<lparr>faults := fs, agent_releases := x6\<rparr>"
    "d\<lparr>agent_rollouts := x7, faults := fs\<rparr> = d\<lparr>faults := fs, agent_rollouts := x7\<rparr>"
    "d\<lparr>agent_rollout_devices := x8, faults := fs\<rparr> = d\<lparr>faults := fs, agent_rollout_devices := x8\<rparr>"
    "d\<lparr>commands := x9, faults := fs\<rparr> = d\<lparr>faults := fs, commands := x9\<rparr>"
    "d\<lparr>audit_log := x10, faults := fs\<rparr> = d\<lparr>faults := fs, audit_log := x10\<rparr>"
    "d\<lparr>notification_channels := x11, faults := fs\<rparr> = d\<lparr>faults := fs, notification_channels := x11\<rparr>"
    "d\<lparr>notification_deliveries := x12, faults := fs\<rparr> = d\<lparr>faults := fs, notification_deliveries := x12\<rparr>"
    "d\<lparr>policies := x13, faults := fs\<rparr> = d\<lparr>faults := fs, policies := x13\<rparr>"
    "d\<lparr>policy_rules := x14, faults := fs\<rparr> = d\<lparr>faults := fs, policy_rules := x14\<rparr>"
    "d\<lparr>policy_versions := x15, faults := fs\<rparr> = d\<lparr>faults := fs, policy_versions := x15\<rparr>"
    "d\<lparr>policy_assignments := x16, faults := fs\<rparr> = d\<lparr>faults := fs, policy_assignments := x16\<rparr>"
    "d\<lparr>observations := x17, faults := fs\<rparr> = d\<lparr>faults := fs, observations := x17\<rparr>"
    "d\<lparr>block_events := x18, faults := fs\<rparr> = d\<lparr>faults := fs, block_events := x18\<rparr>"
    "d\<lparr>approval_requests := x19, faults := fs\<rparr> = d\<lparr>faults := fs, approval_requests := x19\<rparr>"
    "d\<lparr>approval_request_devices := x20, faults := fs\<rparr> = d\<lparr>faults := fs, approval_request_devices := x20\<rparr>"
    "d\<lparr>alert_rules := x21, faults := fs\<rparr> = d\<lparr>faults := fs, alert_rules := x21\<rparr>"
    "d\<lparr>alerts := x22, faults := fs\<rparr> = d\<lparr>faults := fs, alerts := x22\<rparr>"
    "d\<lparr>alert_breaches := x23, faults := fs\<rparr> = d\<lparr>faults := fs, alert_breaches := x23\<rparr>"
    "d\<lparr>login_failures := x24, faults := fs\<rparr> = d\<lparr>faults := fs, login_failures := x24\<rparr>"
    "d\<lparr>device_controls := x25, faults := fs\<rparr> = d\<lparr>faults := fs, device_controls := x25\<rparr>"
    "d\<lparr>device_control_overrides := x26, faults := fs\<rparr> = d\<lparr>faults := fs, device_control_overrides := x26\<rparr>"
    "d\<lparr>device_metrics := x27, faults := fs\<rparr> = d\<lparr>faults := fs, device_metrics := x27\<rparr>"
    "d\<lparr>device_events := x28, faults := fs\<rparr> = d\<lparr>faults := fs, device_events := x28\<rparr>"
    "d\<lparr>ringfence_policies := x29, faults := fs\<rparr> = d\<lparr>faults := fs, ringfence_policies := x29\<rparr>"
    "d\<lparr>ringfence_programs := x30, faults := fs\<rparr> = d\<lparr>faults := fs, ringfence_programs := x30\<rparr>"
    "d\<lparr>ringfence_protections := x31, faults := fs\<rparr> = d\<lparr>faults := fs, ringfence_protections := x31\<rparr>"
    "d\<lparr>ringfence_assignments := x32, faults := fs\<rparr> = d\<lparr>faults := fs, ringfence_assignments := x32\<rparr>"
    "d\<lparr>ringfence_events := z, faults := fs\<rparr> = d\<lparr>faults := fs, ringfence_events := z\<rparr>"
    "d\<lparr>now_db := x33, faults := fs\<rparr> = d\<lparr>faults := fs, now_db := x33\<rparr>"
    "d\<lparr>next_uuid := x34, faults := fs\<rparr> = d\<lparr>faults := fs, next_uuid := x34\<rparr>"
    "d\<lparr>delivery_seq := x35, faults := fs\<rparr> = d\<lparr>faults := fs, delivery_seq := x35\<rparr>"
    "d\<lparr>audit_seq := x36, faults := fs\<rparr> = d\<lparr>faults := fs, audit_seq := x36\<rparr>"
    "d\<lparr>alert_seq := x37, faults := fs\<rparr> = d\<lparr>faults := fs, alert_seq := x37\<rparr>"
    "d\<lparr>event_seq := x38, faults := fs\<rparr> = d\<lparr>faults := fs, event_seq := x38\<rparr>"
    "d\<lparr>ringfence_event_seq := x39, faults := fs\<rparr> = d\<lparr>faults := fs, ringfence_event_seq := x39\<rparr>"
  by (cases d; simp)+

lemma pool_no_fault [simp]: "faults d = [] \<Longrightarrow> pool stmt d = stmt d"
  by (simp add: pool_def)

lemma pool_cases:
  obtains (lost) rest where "pool stmt d = (Inl ErrConn, d\<lparr>faults := rest\<rparr>)"
    | (ran) rest where "pool stmt d = stmt (d\<lparr>faults := rest\<rparr>)"
proof (cases "faults d")
  case Nil
  have "d\<lparr>faults := faults d\<rparr> = d" by simp
  with Nil have "pool stmt d = stmt (d\<lparr>faults := faults d\<rparr>)" by (simp only: pool_no_fault)
  then show ?thesis by (rule ran)
next
  case (Cons lost' rest)
  then show ?thesis
    using lost [of rest] ran [of rest] by (cases lost') (simp_all add: pool_def Let_def)
qed

text \<open>
  A lookup of one row, missing rows reported as \<^verbatim>\<open>ErrNotFound\<close>: the connection may be
  lost, the tables stay, and a row that comes back is in the table and matches.
\<close>

definition lookup :: "(db \<Rightarrow> 'r list) \<Rightarrow> ('r \<Rightarrow> bool) \<Rightarrow> ('r \<Rightarrow> 'a) \<Rightarrow> db \<Rightarrow> 'a res \<times> db" where
  "lookup tbl P h d = (case find_row P (tbl d) of None \<Rightarrow> Inl ErrNotFound | Some r \<Rightarrow> Inr (h r), d)"

lemma lookup_cases:
  assumes "\<And>d fs. tbl (d\<lparr>faults := fs\<rparr>) = tbl d"
  obtains (missing) e fs where "pool (lookup tbl P h) d = (Inl e, d\<lparr>faults := fs\<rparr>)"
  | (found) r fs where "pool (lookup tbl P h) d = (Inr (h r), d\<lparr>faults := fs\<rparr>)" "r \<in> set (tbl d)" "P r"
proof (cases "lookup tbl P h" d rule: pool_cases)
  case (lost rest)
  then show thesis by (rule missing)
next
  case (ran rest)
  show thesis
  proof (cases "find_row P (tbl d)")
    case None
    with ran assms show thesis by (intro missing [of ErrNotFound rest]) (simp add: lookup_def)
  next
    case (Some r)
    with ran assms find_row_Some [OF Some] show thesis by (intro found [of r rest]) (simp_all add: lookup_def)
  qed
qed

lemma lookup_ok:
  assumes "pool (lookup tbl P h) d = (Inr x, d')" and "\<And>d fs. tbl (d\<lparr>faults := fs\<rparr>) = tbl d"
  shows "\<exists>r fs. find_row P (tbl d) = Some r \<and> x = h r \<and> d' = d\<lparr>faults := fs\<rparr>"
proof (cases "lookup tbl P h" d rule: pool_cases)
  case (lost rest)
  with assms show ?thesis by simp
next
  case (ran rest)
  with assms show ?thesis by (auto simp: lookup_def split: option.splits)
qed

text \<open>
  A predicate of the tables survives a statement if the statement keeps it, and a
  lost connection or a rollback cannot break it.
\<close>

lemma pool_inv:
  assumes "\<And>d fs. P d \<Longrightarrow> P (d\<lparr>faults := fs\<rparr>)"
    and "\<And>d. P d \<Longrightarrow> P (snd (stmt d))" and "P d"
  shows "P (snd (pool stmt d))"
  by (cases stmt d rule: pool_cases) (simp_all add: assms)

lemma tx_inv:
  assumes "\<And>d fs u. P d \<Longrightarrow> P (d\<lparr>faults := fs, next_uuid := u\<rparr>)"
    and frame: "\<And>d fs. P d \<Longrightarrow> P (d\<lparr>faults := fs\<rparr>)"
    and body: "\<And>d x d'. P d \<Longrightarrow> body d = (Inr x, d') \<Longrightarrow> P d'" and P: "P d"
  shows "P (snd (tx body d))"
proof -
  let ?nop = "\<lambda>d. (Inr (), d)"
  obtain r0 d0 where p0: "pool ?nop d = (r0, d0)" by (cases "pool ?nop d")
  have Pd0: "P d0"
    using pool_inv [of P ?nop d] frame P p0 by simp
  show ?thesis
  proof (cases r0)
    case (Inl e)
    with p0 Pd0 show ?thesis by (simp add: tx_def)
  next
    case (Inr u)
    obtain r1 d1 where b: "body d0 = (r1, d1)" by (cases "body d0")
    show ?thesis
    proof (cases r1)
      case (Inl e)
      with p0 Inr b assms(1) Pd0 show ?thesis by (simp add: tx_def)
    next
      case (Inr x)
      obtain r2 d2 where p2: "pool ?nop d1 = (r2, d2)" by (cases "pool ?nop d1")
      have "P d1" using body Pd0 b Inr by simp
      then have "P d2" using pool_inv [of P ?nop d1] frame p2 by simp
      with p0 \<open>r0 = Inr u\<close> b Inr p2 assms(1) Pd0 show ?thesis
        by (cases r2) (simp_all add: tx_def)
    qed
  qed
qed

lemma tx_no_fault:
  assumes "faults d = []" and "body d = (r, d')" and "faults d' = []"
  shows "tx body d = (case r of Inl e \<Rightarrow> (Inl e, d\<lparr>next_uuid := next_uuid d'\<rparr>) | Inr x \<Rightarrow> (Inr x, d'))"
  using assms by (cases r) (simp_all add: tx_def)

text \<open>A transaction either leaves the tables as they were or is the run of its body.\<close>

lemma pool_nop_cases:
  obtains (lost) fs where "pool (\<lambda>d. (Inr (), d)) d = (Inl ErrConn, d\<lparr>faults := fs\<rparr>)"
    | (ran) fs where "pool (\<lambda>d. (Inr (), d)) d = (Inr (), d\<lparr>faults := fs\<rparr>)"
proof (rule pool_cases [of "\<lambda>d. (Inr (), d)" d])
  fix rest
  show thesis if "pool (\<lambda>d. (Inr (), d)) d = (Inl ErrConn, d\<lparr>faults := rest\<rparr>)"
    using that by (rule lost)
  show thesis if "pool (\<lambda>d. (Inr (), d)) d = (Inr (), d\<lparr>faults := rest\<rparr>)"
    using that by (rule ran)
qed

lemma tx_cases:
  obtains (rollback) e fs u where "tx body d = (Inl e, d\<lparr>faults := fs, next_uuid := u\<rparr>)"
    | (commit) fs x d' fs' where "body (d\<lparr>faults := fs\<rparr>) = (Inr x, d')"
        "tx body d = (Inr x, d'\<lparr>faults := fs'\<rparr>)"
proof (cases d rule: pool_nop_cases)
  case (lost fs)
  then have "tx body d = (Inl ErrConn, d\<lparr>faults := fs\<rparr>)" by (simp add: tx_def)
  then have "tx body d = (Inl ErrConn, d\<lparr>faults := fs, next_uuid := next_uuid d\<rparr>)" by simp
  then show ?thesis by (rule rollback)
next
  case (ran fs)
  obtain r1 d1 where b: "body (d\<lparr>faults := fs\<rparr>) = (r1, d1)" by fastforce
  show ?thesis
  proof (cases r1)
    case (Inl e)
    with ran b have "tx body d = (Inl e, d\<lparr>faults := faults d1, next_uuid := next_uuid d1\<rparr>)"
      by (simp add: tx_def)
    then show ?thesis by (rule rollback)
  next
    case (Inr x)
    show ?thesis
    proof (cases d1 rule: pool_nop_cases)
      case (lost fs')
      with ran b Inr have "tx body d = (Inl ErrConn, d\<lparr>faults := fs', next_uuid := next_uuid d1\<rparr>)"
        by (simp add: tx_def)
      then show ?thesis by (rule rollback)
    next
      case (ran fs')
      with \<open>pool (\<lambda>d. (Inr (), d)) d = (Inr (), d\<lparr>faults := fs\<rparr>)\<close> b Inr
      have "tx body d = (Inr x, d1\<lparr>faults := fs'\<rparr>)" by (simp add: tx_def)
      with b Inr show ?thesis by (intro commit) simp_all
    qed
  qed
qed

text \<open>The audit log only grows (store/audit.go, AppendAudit; a trigger refuses updates and deletes).\<close>

definition AppendAudit ::
  "uuid \<Rightarrow> label \<Rightarrow> string \<Rightarrow> string \<Rightarrow> label \<Rightarrow> detail \<Rightarrow> string \<Rightarrow> string \<Rightarrow> db \<Rightarrow> unit res \<times> db" where
  "AppendAudit tenantID actor action targetType targetID detail ip result = pool (\<lambda>d.
     (Inr (), d\<lparr>audit_seq := Suc (audit_seq d),
        audit_log := audit_log d @ [\<lparr>au_id = Suc (audit_seq d), au_tenant = tenantID, au_actor = actor,
          au_action = action, au_target_type = targetType, au_target_id = targetID,
          au_detail = detail, au_ip = ip, au_result = result, au_created_at = now_db d\<rparr>]\<rparr>))"

text \<open>Everything but the log, its sequence and the oracle is left alone.\<close>

lemma AppendAudit_shape:
  obtains fs n log where
    "snd (AppendAudit t a b c e f g h d) = d\<lparr>faults := fs, audit_seq := n, audit_log := audit_log d @ log\<rparr>"
proof -
  let ?e = "\<lambda>n now. \<lparr>au_id = n, au_tenant = t, au_actor = a, au_action = b, au_target_type = c,
     au_target_id = e, au_detail = f, au_ip = g, au_result = h, au_created_at = now\<rparr>"
  let ?s = "\<lambda>d :: db. (Inr () :: unit res, d\<lparr>audit_seq := Suc (audit_seq d), audit_log := audit_log d @ [?e (Suc (audit_seq d)) (now_db d)]\<rparr>)"
  have A: "AppendAudit t a b c e f g h d = pool ?s d" by (simp add: AppendAudit_def)
  show thesis
  proof (cases ?s d rule: pool_cases)
    case (lost rest)
    with A that [where fs = rest and n = "audit_seq d" and log = "[]"] show ?thesis by simp
  next
    case (ran rest)
    with A that [where fs = rest and n = "Suc (audit_seq d)" and log = "[?e (Suc (audit_seq d)) (now_db d)]"] show ?thesis by simp
  qed
qed

text \<open>Every statement and transaction leaves the fault-free case fault-free.\<close>

lemma AppendAudit_tables [store_frame]:
  "devices (snd (AppendAudit t a b c e f g h d)) = devices d"
  "tenants (snd (AppendAudit t a b c e f g h d)) = tenants d"
  "commands (snd (AppendAudit t a b c e f g h d)) = commands d"
  "agent_rollouts (snd (AppendAudit t a b c e f g h d)) = agent_rollouts d"
  "agent_rollout_devices (snd (AppendAudit t a b c e f g h d)) = agent_rollout_devices d"
  "agent_releases (snd (AppendAudit t a b c e f g h d)) = agent_releases d"
  "notification_channels (snd (AppendAudit t a b c e f g h d)) = notification_channels d"
  "notification_deliveries (snd (AppendAudit t a b c e f g h d)) = notification_deliveries d"
  "delivery_seq (snd (AppendAudit t a b c e f g h d)) = delivery_seq d"
  "policy_rules (snd (AppendAudit t a b c e f g h d)) = policy_rules d"
  "approval_requests (snd (AppendAudit t a b c e f g h d)) = approval_requests d"
  "next_uuid (snd (AppendAudit t a b c e f g h d)) = next_uuid d"
  "now_db (snd (AppendAudit t a b c e f g h d)) = now_db d"
  unfolding AppendAudit_def pool_def by (simp_all add: Let_def split: list.splits)

lemma AppendAudit_no_fault [simp]:
  "faults d = [] \<Longrightarrow> faults (snd (AppendAudit t a b c e f g h d)) = []"
  "faults d = [] \<Longrightarrow> fst (AppendAudit t a b c e f g h d) = Inr ()"
  by (simp_all add: AppendAudit_def)

end
