(* ===== verification/Hub.thy ===== *)
theory Hub
  imports Store_State
begin

text \<open>
  The connection hub (\<^verbatim>\<open>internal/server/hub/hub.go\<close>). A \<^verbatim>\<open>*Conn\<close>
  is compared by pointer in Unregister, so connections live in an explicit store: a
  connection is a number, with its buffered channel and the cause its context was
  cancelled with. The step relation at the end adds the life of the stream handlers
  (\<^verbatim>\<open>agentapi.Connect\<close>): register, loop, unregister, in any interleaving.
\<close>

section \<open>State and operations\<close>

type_synonym conn = nat

datatype cause = ErrReplaced | Cause err

record 'm hub =
  conns :: "uuid \<Rightarrow> conn option"
  chan :: "conn \<Rightarrow> 'm list"
  cancelled :: "conn \<Rightarrow> cause option"
  next_conn :: conn

definition sendBuffer :: nat where "sendBuffer = 64"

definition New :: "'m hub" where
  "New = \<lparr>conns = (\<lambda>_. None), chan = (\<lambda>_. []), cancelled = (\<lambda>_. None), next_conn = 0\<rparr>"

text \<open>context.CancelCauseFunc: only the first cancellation sets the cause.\<close>

definition cancel :: "conn \<Rightarrow> cause \<Rightarrow> 'm hub \<Rightarrow> 'm hub" where
  "cancel c e h = (if cancelled h c = None then h\<lparr>cancelled := (cancelled h)(c := Some e)\<rparr> else h)"

definition Register :: "uuid \<Rightarrow> 'm hub \<Rightarrow> conn \<times> 'm hub" where
  "Register i h =
     (let c = next_conn h;
          old = conns h i;
          h1 = h\<lparr>next_conn := Suc c, chan := (chan h)(c := []), cancelled := (cancelled h)(c := None),
                 conns := (conns h)(i := Some c)\<rparr>;
          h2 = (case old of None \<Rightarrow> h1 | Some o' \<Rightarrow> cancel o' ErrReplaced h1)
      in (c, h2))"

definition Unregister :: "uuid \<Rightarrow> conn \<Rightarrow> 'm hub \<Rightarrow> 'm hub" where
  "Unregister i c h = (if conns h i = Some c then h\<lparr>conns := (conns h)(i := None)\<rparr> else h)"

definition Send :: "uuid \<Rightarrow> 'm \<Rightarrow> 'm hub \<Rightarrow> bool \<times> 'm hub" where
  "Send i m h = (case conns h i of
       None \<Rightarrow> (False, h)
     | Some c \<Rightarrow> if length (chan h c) < sendBuffer
                then (True, h\<lparr>chan := (chan h)(c := chan h c @ [m])\<rparr>) else (False, h))"

definition Disconnect :: "uuid \<Rightarrow> cause \<Rightarrow> 'm hub \<Rightarrow> 'm hub" where
  "Disconnect i e h = (case conns h i of None \<Rightarrow> h | Some c \<Rightarrow> cancel c e h)"

definition Connected :: "uuid \<Rightarrow> 'm hub \<Rightarrow> bool" where
  "Connected i h = (conns h i \<noteq> None)"

text \<open>The stream handler's \<^verbatim>\<open>case m := <-c.Send\<close>: take the oldest buffered message.\<close>

definition Recv :: "conn \<Rightarrow> 'm hub \<Rightarrow> ('m \<times> 'm hub) option" where
  "Recv c h = (case chan h c of [] \<Rightarrow> None | m # ms \<Rightarrow> Some (m, h\<lparr>chan := (chan h)(c := ms)\<rparr>))"

lemmas hub_ops_def = cancel_def Register_def Unregister_def Send_def Disconnect_def Recv_def

lemma cancel_fields [simp]:
  "conns (cancel c e h) = conns h" "chan (cancel c e h) = chan h" "next_conn (cancel c e h) = next_conn h"
  by (simp_all add: cancel_def)

lemma cancelled_cancel:
  "cancelled (cancel c e h) = (if cancelled h c = None then (cancelled h)(c := Some e) else cancelled h)"
  by (simp add: cancel_def)

section \<open>The invariant\<close>

text \<open>
  Registered connections exist, no connection serves two devices, and no buffer
  exceeds its capacity.
\<close>

definition hub_inv :: "'m hub \<Rightarrow> bool" where
  "hub_inv h \<longleftrightarrow>
     (\<forall>i c. conns h i = Some c \<longrightarrow> c < next_conn h) \<and>
     (\<forall>i j c. conns h i = Some c \<longrightarrow> conns h j = Some c \<longrightarrow> i = j) \<and>
     (\<forall>c. length (chan h c) \<le> sendBuffer)"

lemma hub_invD:
  assumes "hub_inv h"
  shows "conns h i = Some c \<Longrightarrow> c < next_conn h"
    and "conns h i = Some c \<Longrightarrow> conns h j = Some c \<Longrightarrow> i = j"
    and "length (chan h c) \<le> sendBuffer"
  using assms by (auto simp: hub_inv_def)

lemma New_inv [inv_intros]: "hub_inv New"
  by (simp add: hub_inv_def New_def)

lemma cancel_inv [inv_intros]: "hub_inv (cancel c e h) = hub_inv h"
  by (simp add: hub_inv_def)

lemma Register_fields:
  "fst (Register i h) = next_conn h"
  "conns (snd (Register i h)) = (conns h)(i := Some (next_conn h))"
  "chan (snd (Register i h)) = (chan h)(next_conn h := [])"
  "next_conn (snd (Register i h)) = Suc (next_conn h)"
  by (auto simp: Register_def Let_def split: option.splits)

lemma Register_inv [inv_intros]:
  assumes "hub_inv h" shows "hub_inv (snd (Register i h))"
  unfolding hub_inv_def
proof (intro conjI allI impI)
  fix j c assume "conns (snd (Register i h)) j = Some c"
  then show "c < next_conn (snd (Register i h))"
    using hub_invD(1) [OF assms, of j c] by (auto simp: Register_fields split: if_splits)
next
  fix j k c assume "conns (snd (Register i h)) j = Some c" "conns (snd (Register i h)) k = Some c"
  then show "j = k"
    using hub_invD(1,2) [OF assms] by (fastforce simp: Register_fields split: if_splits)
next
  fix c show "length (chan (snd (Register i h)) c) \<le> sendBuffer"
    using hub_invD(3) [OF assms, of c] by (simp add: Register_fields)
qed

lemma Unregister_inv [inv_intros]: "hub_inv h \<Longrightarrow> hub_inv (Unregister i c h)"
  by (auto simp: hub_inv_def Unregister_def split: if_splits)

lemma Send_inv [inv_intros]: "hub_inv h \<Longrightarrow> hub_inv (snd (Send i m h))"
  by (auto simp: hub_inv_def Send_def split: option.splits if_splits)

lemma Disconnect_inv [inv_intros]: "hub_inv h \<Longrightarrow> hub_inv (Disconnect i e h)"
  by (auto simp: Disconnect_def cancel_inv split: option.splits)

lemma Recv_inv [inv_intros]: "hub_inv h \<Longrightarrow> Recv c h = Some (m, h') \<Longrightarrow> hub_inv h'"
  by (fastforce simp: hub_inv_def Recv_def split: list.splits dest: spec [of _ c])

section \<open>The hub as a message sink\<close>

text \<open>
  What the command service relies on when it pushes messages: an accepted message is
  queued last for exactly that device, a refused one changes nothing. Everything the
  client concludes about a whole batch of messages follows from these laws.
\<close>

locale message_sink =
  fixes send :: "uuid \<Rightarrow> 'm \<Rightarrow> 'h \<Rightarrow> bool \<times> 'h"
    and queued :: "'h \<Rightarrow> uuid \<Rightarrow> 'm list"
    and invar :: "'h \<Rightarrow> bool"
  assumes send_accepted: "invar h \<Longrightarrow> send i m h = (True, h') \<Longrightarrow> queued h' i = queued h i @ [m]"
    and send_refused: "invar h \<Longrightarrow> send i m h = (False, h') \<Longrightarrow> h' = h"
    and send_other: "invar h \<Longrightarrow> j \<noteq> i \<Longrightarrow> queued (snd (send i m h)) j = queued h j"
    and send_invar: "invar h \<Longrightarrow> invar (snd (send i m h))"
begin

fun send_all :: "uuid \<Rightarrow> 'm list \<Rightarrow> 'h \<Rightarrow> 'm list \<times> 'h" where
  "send_all i [] h = ([], h)"
| "send_all i (m # ms) h =
     (let (ok, h1) = send i m h; (acc, h2) = send_all i ms h1
      in (if ok then m # acc else acc, h2))"

lemma send_all_queued:
  "invar h \<Longrightarrow> send_all i ms h = (acc, h') \<Longrightarrow> queued h' i = queued h i @ acc \<and> invar h'"
proof (induction ms arbitrary: h acc h')
  case Nil
  then show ?case by simp
next
  case (Cons m ms)
  obtain ok h1 where s: "send i m h = (ok, h1)" by (cases "send i m h")
  obtain acc1 h2 where r: "send_all i ms h1 = (acc1, h2)" by (cases "send_all i ms h1")
  from send_invar [OF Cons.prems(1), of i m] s have "invar h1" by simp
  with Cons.IH r have IH: "queued h2 i = queued h1 i @ acc1 \<and> invar h2" by blast
  show ?case
  proof (cases ok)
    case True
    with s send_accepted [OF Cons.prems(1)] have "queued h1 i = queued h i @ [m]" by simp
    with IH Cons.prems(2) s r True show ?thesis by simp
  next
    case False
    with s send_refused [OF Cons.prems(1)] have "h1 = h" by simp
    with IH Cons.prems(2) s r False show ?thesis by simp
  qed
qed

end

definition hub_queued :: "'m hub \<Rightarrow> uuid \<Rightarrow> 'm list" where
  "hub_queued h i = (case conns h i of None \<Rightarrow> [] | Some c \<Rightarrow> chan h c)"

interpretation hub_sink: message_sink Send hub_queued hub_inv
proof
  fix h :: "'m hub" and i m h'
  show "Send i m h = (True, h') \<Longrightarrow> hub_queued h' i = hub_queued h i @ [m]"
    by (auto simp: Send_def hub_queued_def split: option.splits if_splits)
  show "Send i m h = (False, h') \<Longrightarrow> h' = h"
    by (auto simp: Send_def split: option.splits if_splits)
next
  fix h :: "'m hub" and i j :: uuid and m
  assume "hub_inv h" "j \<noteq> i"
  then show "hub_queued (snd (Send i m h)) j = hub_queued h j"
    by (auto simp: Send_def hub_queued_def split: option.splits if_splits dest: hub_invD(2))
next
  fix h :: "'m hub" and i m
  show "hub_inv h \<Longrightarrow> hub_inv (snd (Send i m h))" by (rule Send_inv)
qed

section \<open>Stream handlers over the hub\<close>

text \<open>
  \<^verbatim>\<open>agentapi.Connect\<close> (agent.go): a handler registers its connection, runs its
  loop, and on return executes its deferred calls, Unregister first and then the
  cancellation with a nil cause. The state is the hub and the handlers still open,
  each with the device it serves. Any number of handlers interleave with messages
  sent to devices and with disconnects an administrator causes.
\<close>

type_synonym 'm conn_state = "'m hub \<times> (conn \<Rightarrow> uuid option)"

definition Connect_begin :: "uuid \<Rightarrow> 'm conn_state \<Rightarrow> 'm conn_state" where
  "Connect_begin i st = (let (c, h) = Register i (fst st) in (h, (snd st)(c := Some i)))"

definition Connect_return :: "uuid \<Rightarrow> conn \<Rightarrow> 'm conn_state \<Rightarrow> 'm conn_state" where
  "Connect_return i c st =
     (cancel c (Cause (ErrText ''context canceled'')) (Unregister i c (fst st)), (snd st)(c := None))"

inductive conn_step :: "'m conn_state \<Rightarrow> 'm conn_state \<Rightarrow> bool" where
  begin_stream: "conn_step st (Connect_begin i st)"
| return_stream: "snd st c = Some i \<Longrightarrow> conn_step st (Connect_return i c st)"
| send: "conn_step (h, op) (snd (Send i m h), op)"
| receive: "op c = Some i \<Longrightarrow> Recv c h = Some (m, h') \<Longrightarrow> conn_step (h, op) (h', op)"
| disconnect: "conn_step (h, op) (Disconnect i e h, op)"

inductive conn_reachable :: "'m conn_state \<Rightarrow> bool" where
  start: "conn_reachable (New, \<lambda>_. None)"
| step: "conn_reachable st \<Longrightarrow> conn_step st st' \<Longrightarrow> conn_reachable st'"

text \<open>
  The strengthened invariant: open handlers use existing connections, a handler whose
  context is not cancelled is the registered one of its device, and every registered
  connection belongs to an open handler of that device.
\<close>

definition conn_inv :: "'m conn_state \<Rightarrow> bool" where
  "conn_inv st \<longleftrightarrow> hub_inv (fst st) \<and>
     (\<forall>c i. snd st c = Some i \<longrightarrow> c < next_conn (fst st)) \<and>
     (\<forall>c i. snd st c = Some i \<longrightarrow> cancelled (fst st) c = None \<longrightarrow> conns (fst st) i = Some c) \<and>
     (\<forall>c i. conns (fst st) i = Some c \<longrightarrow> snd st c = Some i)"

lemma conn_invD:
  assumes "conn_inv (h, op)"
  shows "hub_inv h" and "op c = Some i \<Longrightarrow> c < next_conn h"
    and "op c = Some i \<Longrightarrow> cancelled h c = None \<Longrightarrow> conns h i = Some c"
    and "conns h i = Some c \<Longrightarrow> op c = Some i"
  using assms unfolding conn_inv_def fst_conv snd_conv by blast+

lemma conn_invI:
  assumes "hub_inv h" and "\<And>c i. op c = Some i \<Longrightarrow> c < next_conn h"
    and "\<And>c i. op c = Some i \<Longrightarrow> cancelled h c = None \<Longrightarrow> conns h i = Some c"
    and "\<And>c i. conns h i = Some c \<Longrightarrow> op c = Some i"
  shows "conn_inv (h, op)"
  unfolding conn_inv_def fst_conv snd_conv using assms by blast

lemma Register_cancelled:
  assumes "hub_inv h"
  shows "cancelled (snd (Register i h)) c =
     (if c = next_conn h then None
      else if conns h i = Some c \<and> cancelled h c = None then Some ErrReplaced else cancelled h c)"
  using hub_invD(1) [OF assms, of i]
  by (auto simp: Register_def Let_def cancelled_cancel split: option.splits)

lemma Connect_begin_inv:
  assumes inv: "conn_inv (h, op)"
  shows "conn_inv (Connect_begin i (h, op))"
proof -
  note D = conn_invD [OF inv]
  have fresh: "conns h j \<noteq> Some (next_conn h)" for j
    using hub_invD(1) [OF D(1)] by blast
  have fresh': "op (next_conn h) = None"
    using D(2) [of "next_conn h"] by (cases "op (next_conn h)") auto
  have "conn_inv (snd (Register i h), op(next_conn h := Some i))"
  proof (rule conn_invI)
    fix c j assume o: "(op(next_conn h := Some i)) c = Some j"
    show "c < next_conn (snd (Register i h))"
      using o D(2) [of c j] by (cases "c = next_conn h") (simp_all add: Register_fields)
    assume live: "cancelled (snd (Register i h)) c = None"
    show "conns (snd (Register i h)) j = Some c"
    proof (cases "c = next_conn h")
      case True
      with o show ?thesis by (simp add: Register_fields)
    next
      case False
      with o have "op c = Some j" by simp
      moreover from live False have "cancelled h c = None" "conns h i \<noteq> Some c"
        by (auto simp: Register_cancelled [OF D(1)] split: if_splits)
      ultimately show ?thesis using D(3) [of c j] by (auto simp: Register_fields)
    qed
  next
    fix c j assume "conns (snd (Register i h)) j = Some c"
    then show "(op(next_conn h := Some i)) c = Some j"
      using D(4) [of j c] fresh [of j] by (cases "j = i") (auto simp: Register_fields)
  qed (rule Register_inv [OF D(1)])
  then show ?thesis by (simp add: Connect_begin_def split_beta Register_fields(1))
qed

lemma Connect_return_inv:
  assumes inv: "conn_inv (h, op)" and o: "op c = Some i"
  shows "conn_inv (Connect_return i c (h, op))"
  unfolding Connect_return_def fst_conv snd_conv
proof (rule conn_invI)
  note D = conn_invD [OF inv]
  show "hub_inv (cancel c (Cause (ErrText ''context canceled'')) (Unregister i c h))"
    unfolding cancel_inv by (rule Unregister_inv [OF D(1)])
  have un [simp]: "cancelled (Unregister i c h) = cancelled h" "next_conn (Unregister i c h) = next_conn h"
    by (simp_all add: Unregister_def)
  fix c' j
  assume o': "(op(c := None)) c' = Some j"
  then have c': "c' \<noteq> c" "op c' = Some j" by (auto split: if_splits)
  then show "c' < next_conn (cancel c (Cause (ErrText ''context canceled'')) (Unregister i c h))"
    using D(2) by simp
  assume "cancelled (cancel c (Cause (ErrText ''context canceled'')) (Unregister i c h)) c' = None"
  then have "cancelled h c' = None" using c' by (auto simp: cancelled_cancel split: if_splits)
  with D(3) [OF c'(2)] c'(1)
  show "conns (cancel c (Cause (ErrText ''context canceled'')) (Unregister i c h)) j = Some c'"
    by (auto simp: Unregister_def)
next
  note D = conn_invD [OF inv]
  fix c' j
  assume "conns (cancel c (Cause (ErrText ''context canceled'')) (Unregister i c h)) j = Some c'"
  then have "conns h j = Some c'" "conns h i = Some c \<Longrightarrow> j \<noteq> i"
    by (auto simp: Unregister_def split: if_splits)
  with D(4) [of j c'] o show "(op(c := None)) c' = Some j" by (cases "c' = c") auto
qed

lemma conn_inv_same_routes:
  assumes "conn_inv (h, op)" "hub_inv h'" "conns h' = conns h" "next_conn h' = next_conn h"
    and "\<And>c. cancelled h' c = None \<Longrightarrow> cancelled h c = None"
  shows "conn_inv (h', op)"
proof (rule conn_invI)
  note D = conn_invD [OF assms(1)]
  show "hub_inv h'" by (rule assms(2))
  fix c i
  show "op c = Some i \<Longrightarrow> c < next_conn h'" using D(2) assms(4) by simp
  show "op c = Some i \<Longrightarrow> cancelled h' c = None \<Longrightarrow> conns h' i = Some c"
    using D(3) [of c i] assms(3,5) by simp
  show "conns h' i = Some c \<Longrightarrow> op c = Some i" using D(4) [of i c] assms(3) by simp
qed

lemma conn_step_inv: "conn_step st st' \<Longrightarrow> conn_inv st \<Longrightarrow> conn_inv st'"
proof (induction rule: conn_step.induct)
  case (begin_stream st i)
  then show ?case by (cases st) (simp add: Connect_begin_inv)
next
  case (return_stream st c i)
  then show ?case by (cases st) (simp add: Connect_return_inv)
next
  case (send h op i m)
  have "conns (snd (Send i m h)) = conns h" "cancelled (snd (Send i m h)) = cancelled h"
    "next_conn (snd (Send i m h)) = next_conn h"
    by (auto simp: Send_def split: option.splits)
  then show ?case
    by (intro conn_inv_same_routes [OF send Send_inv [OF conn_invD(1) [OF send]]]) simp_all
next
  case (receive op c i h m h')
  then have "conns h' = conns h" "cancelled h' = cancelled h" "next_conn h' = next_conn h"
    by (auto simp: Recv_def split: list.splits)
  with conn_inv_same_routes [OF receive(3) Recv_inv [OF conn_invD(1) [OF receive(3)] receive(2)]]
  show ?case by simp
next
  case (disconnect h op i e)
  have "conns (Disconnect i e h) = conns h" "next_conn (Disconnect i e h) = next_conn h"
    "\<And>c. cancelled (Disconnect i e h) c = None \<Longrightarrow> cancelled h c = None"
    by (auto simp: Disconnect_def cancelled_cancel split: option.splits if_splits)
  then show ?case
    by (rule conn_inv_same_routes [OF disconnect Disconnect_inv [OF conn_invD(1) [OF disconnect]]])
qed

lemma conn_reachable_inv: "conn_reachable st \<Longrightarrow> conn_inv st"
proof (induction rule: conn_reachable.induct)
  case start
  show ?case by (rule conn_invI) (simp_all add: New_inv, simp_all add: New_def)
next
  case (step st st')
  then show ?case by (blast intro: conn_step_inv)
qed


lemma two_streams_reachable:
  "conn_reachable (Connect_begin 7 (Connect_begin 7 (New, \<lambda>_. None)))"
  by (rule conn_reachable.step [OF conn_reachable.step [OF conn_reachable.start]])
     (rule conn_step.begin_stream)+


end
