(* ===== verification/Commands.thy ===== *)
theory Commands
  imports Hub
begin

text \<open>
  Signed commands: the table (\<^verbatim>\<open>store/commands.go\<close>), signing and verification
  (\<^verbatim>\<open>commands/sign.go\<close>), the service that issues, delivers and completes them
  (\<^verbatim>\<open>commands/commands.go\<close>, \<^verbatim>\<open>commands/update.go\<close>) and the agent's executor
  (\<^verbatim>\<open>agent/executor/executor.go\<close>).

  Ed25519 and the protobuf codec are parameters, gathered in one record; what the
  program relies on (a signature made with a key verifies under its public half, a
  marshalled command unmarshals to itself) is a named hypothesis of the theorems that
  use it. Identifiers are compared as values where the code compares their texts; a
  command result whose id is not a UUID carries None.
\<close>

section \<open>Wire types and signing\<close>

datatype command_type =
    UNSPECIFIED | PING | REFRESH_INVENTORY | ROTATE_CERTIFICATE | UNINSTALL | UPDATE_AGENT
  | Unrecognized int

record pb_command =
  pb_id :: uuid
  pb_type :: command_type
  pb_device :: uuid
  pb_issued_at_unix :: int
  pb_expires_at_unix :: int
  pb_payload :: bytes

record signed_command =
  sc_command :: bytes
  sc_signature :: bytes

record command_result =
  cr_id :: "uuid option"
  cr_success :: bool
  cr_message :: string

record ('sk, 'pk) crypto =
  ed_sign :: "'sk \<Rightarrow> bytes \<Rightarrow> bytes"
  ed_verify :: "'pk \<Rightarrow> bytes \<Rightarrow> bytes \<Rightarrow> bool"
  pb_marshal :: "pb_command \<Rightarrow> bytes res"
  pb_unmarshal :: "bytes \<Rightarrow> pb_command res"

text \<open>The hypotheses: what signing and the codec promise for one key pair.\<close>

definition key_pair_ok :: "('sk, 'pk) crypto \<Rightarrow> 'sk \<Rightarrow> 'pk \<Rightarrow> bool" where
  "key_pair_ok cr sk pk \<longleftrightarrow>
     (\<forall>m. ed_verify cr pk m (ed_sign cr sk m)) \<and>
     (\<forall>c b. pb_marshal cr c = Inr b \<longrightarrow> pb_unmarshal cr b = Inr c)"

definition clockSkew :: duration where "clockSkew = 5 * minute"

definition DefaultTTL :: duration where "DefaultTTL = 24 * hour"

definition typeNames :: "(command_type \<times> string) list" where
  "typeNames =
     [(PING, ''ping''), (REFRESH_INVENTORY, ''refresh_inventory''),
      (ROTATE_CERTIFICATE, ''rotate_certificate''), (UNINSTALL, ''uninstall''),
      (UPDATE_AGENT, ''update_agent'')]"

definition TypeName :: "command_type \<Rightarrow> string" where
  "TypeName t = (case map_of typeNames t of Some n \<Rightarrow> n | None \<Rightarrow> '''')"

definition ParseType :: "string \<Rightarrow> command_type res" where
  "ParseType name = (case find (\<lambda>(t, n). n = name) typeNames of
       Some (t, n) \<Rightarrow> Inr t
     | None \<Rightarrow> Inl (ErrText (''unknown command type '' @ name)))"

definition Sign :: "('sk, 'pk) crypto \<Rightarrow> 'sk \<Rightarrow> pb_command \<Rightarrow> signed_command res" where
  "Sign cr key c = (case pb_marshal cr c of
       Inl e \<Rightarrow> Inl e
     | Inr b \<Rightarrow> Inr \<lparr>sc_command = b, sc_signature = ed_sign cr key b\<rparr>)"

definition Verify :: "('sk, 'pk) crypto \<Rightarrow> 'pk \<Rightarrow> signed_command \<Rightarrow> uuid \<Rightarrow> time \<Rightarrow> pb_command res" where
  "Verify cr pub sc deviceID now =
     (if \<not> ed_verify cr pub (sc_command sc) (sc_signature sc) then Inl (ErrText ''bad command signature'')
      else case pb_unmarshal cr (sc_command sc) of
        Inl e \<Rightarrow> Inl e
      | Inr c \<Rightarrow>
          if pb_device c \<noteq> deviceID then Inl (ErrText ''command addressed to another device'')
          else if now > unix (pb_expires_at_unix c) + clockSkew then Inl (ErrText ''command expired'')
          else Inr c)"

lemma ParseType_TypeName:
  "map_of typeNames t \<noteq> None \<Longrightarrow> ParseType (TypeName t) = Inr t"
  by (auto simp: ParseType_def TypeName_def typeNames_def split: if_splits)

section \<open>The commands table\<close>

definition tenant_exists :: "uuid \<Rightarrow> db \<Rightarrow> bool" where
  "tenant_exists t d \<longleftrightarrow> t \<in> tn_id ` set (tenants d)"

definition device_exists :: "uuid \<Rightarrow> db \<Rightarrow> bool" where
  "device_exists i d \<longleftrightarrow> i \<in> dv_id ` set (devices d)"

definition open_command :: "command_row \<Rightarrow> bool" where
  "open_command c \<longleftrightarrow> cm_state c = CPending \<or> cm_state c = CSent"

definition CreateCommand :: "uuid \<Rightarrow> command_row \<Rightarrow> db \<Rightarrow> unit res \<times> db" where
  "CreateCommand tenantID c = pool (\<lambda>d.
     if cm_id c \<in> cm_id ` set (commands d) then (Inl (PgError ''23505''), d)
     else if \<not> tenant_exists tenantID d \<or> \<not> device_exists (cm_device c) d then (Inl (PgError ''23503''), d)
     else (Inr (), d\<lparr>commands := commands d @
            [c\<lparr>cm_tenant := tenantID, cm_state := CPending, cm_result := '''', cm_completed_at := None\<rparr>]\<rparr>))"

definition open_commands :: "uuid \<Rightarrow> uuid \<Rightarrow> time \<Rightarrow> db \<Rightarrow> command_row list" where
  "open_commands tenantID deviceID now d =
     sort_key cm_issued_at (filter (\<lambda>c. cm_tenant c = tenantID \<and> cm_device c = deviceID \<and>
       open_command c \<and> cm_expires_at c > now) (commands d))"

definition OpenCommands :: "uuid \<Rightarrow> uuid \<Rightarrow> time \<Rightarrow> db \<Rightarrow> command_row list res \<times> db" where
  "OpenCommands tenantID deviceID now = pool (\<lambda>d. (Inr (open_commands tenantID deviceID now d), d))"

definition MarkCommandSent :: "uuid \<Rightarrow> uuid \<Rightarrow> db \<Rightarrow> unit res \<times> db" where
  "MarkCommandSent tenantID i = pool (\<lambda>d.
     let P = (\<lambda>c. cm_tenant c = tenantID \<and> cm_id c = i \<and> cm_state c = CPending)
     in (oneRow (Inr (rows_affected P (commands d))),
         d\<lparr>commands := update_where P (\<lambda>c. c\<lparr>cm_state := CSent\<rparr>) (commands d)\<rparr>))"

definition CompleteCommand ::
  "uuid \<Rightarrow> uuid \<Rightarrow> uuid \<Rightarrow> bool \<Rightarrow> string \<Rightarrow> time \<Rightarrow> db \<Rightarrow> unit res \<times> db" where
  "CompleteCommand tenantID deviceID i success result now = pool (\<lambda>d.
     let P = (\<lambda>c. cm_tenant c = tenantID \<and> cm_device c = deviceID \<and> cm_id c = i \<and> open_command c)
     in (oneRow (Inr (rows_affected P (commands d))),
         d\<lparr>commands := update_where P (\<lambda>c. c\<lparr>cm_state := (if success then CSucceeded else CFailed),
             cm_result := result, cm_completed_at := Some now\<rparr>) (commands d)\<rparr>))"

definition ExpireCommands :: "time \<Rightarrow> db \<Rightarrow> nat res \<times> db" where
  "ExpireCommands now = pool (\<lambda>d.
     let P = (\<lambda>c. open_command c \<and> cm_expires_at c \<le> now)
     in (Inr (rows_affected P (commands d)),
         d\<lparr>commands := update_where P (\<lambda>c. c\<lparr>cm_state := CExpired\<rparr>) (commands d)\<rparr>))"

definition ListDeviceCommands :: "uuid \<Rightarrow> uuid \<Rightarrow> nat \<Rightarrow> db \<Rightarrow> command_row list res \<times> db" where
  "ListDeviceCommands tenantID deviceID limit = pool (\<lambda>d.
     (Inr (take limit (sort_key (\<lambda>c. - cm_issued_at c)
        (filter (\<lambda>c. cm_tenant c = tenantID \<and> cm_device c = deviceID) (commands d)))), d))"

section \<open>The service\<close>

text \<open>The server's shared state: the database and the hub of live agent streams.\<close>

record srv =
  s_db :: db
  s_hub :: "signed_command hub"

text \<open>commands.Service: the codec and key material, the per-tenant resolver when set, and the clock.\<close>

record ('sk, 'pk) command_service =
  cs_crypto :: "('sk, 'pk) crypto"
  cs_keys :: 'sk
  cs_key_for :: "(uuid \<Rightarrow> 'sk res) option"
  cs_now :: time

definition command_keys :: "('sk, 'pk) command_service \<Rightarrow> uuid \<Rightarrow> 'sk res" where
  "command_keys svc tenantID = (case cs_key_for svc of Some f \<Rightarrow> f tenantID | None \<Rightarrow> Inr (cs_keys svc))"

text \<open>\<^verbatim>\<open>t.Unix()\<close>: whole seconds, rounded down.\<close>

definition to_unix :: "time \<Rightarrow> int" where
  "to_unix t = t div second - 62135596800"

definition wire_command :: "command_row \<Rightarrow> command_type \<Rightarrow> pb_command" where
  "wire_command c typ = \<lparr>pb_id = cm_id c, pb_type = typ, pb_device = cm_device c,
     pb_issued_at_unix = to_unix (cm_issued_at c), pb_expires_at_unix = to_unix (cm_expires_at c),
     pb_payload = cm_payload c\<rparr>"

definition deliver_command :: "('sk, 'pk) command_service \<Rightarrow> uuid \<Rightarrow> command_row \<Rightarrow> srv \<Rightarrow> srv" where
  "deliver_command svc tenantID c s = (case ParseType (cm_type c) of
       Inl _ \<Rightarrow> s
     | Inr typ \<Rightarrow> (case command_keys svc tenantID of
         Inl _ \<Rightarrow> s
       | Inr k \<Rightarrow> (case Sign (cs_crypto svc) k (wire_command c typ) of
           Inl _ \<Rightarrow> s
         | Inr sc \<Rightarrow>
             (let (ok, h) = Send (cm_device c) sc (s_hub s); s1 = s\<lparr>s_hub := h\<rparr>
              in if \<not> ok then s1
                 else if cm_state c = CUnset \<or> cm_state c = CPending
                 then s1\<lparr>s_db := snd (MarkCommandSent tenantID (cm_id c) (s_db s1))\<rparr>
                 else s1))))"

definition Issue ::
  "('sk, 'pk) command_service \<Rightarrow> uuid \<Rightarrow> uuid \<Rightarrow> command_type \<Rightarrow> bytes \<Rightarrow> label \<Rightarrow> srv \<Rightarrow> uuid res \<times> srv" where
  "Issue svc tenantID deviceID typ payload actor s =
     (let (i, d0) = new_uuid (s_db s);
          c = \<lparr>cm_id = i, cm_tenant = tenantID, cm_device = deviceID, cm_type = TypeName typ,
               cm_payload = payload, cm_issued_at = cs_now svc, cm_expires_at = cs_now svc + DefaultTTL,
               cm_state = CUnset, cm_result = '''', cm_completed_at = None\<rparr>
      in case CreateCommand tenantID c d0 of
           (Inl e, d1) \<Rightarrow> (Inl e, s\<lparr>s_db := d1\<rparr>)
         | (Inr _, d1) \<Rightarrow>
             (let d2 = snd (AppendAudit tenantID actor ''command.issue'' ''device'' (IdTxt '''' deviceID)
                        [(''command_id'', DId i), (''type'', DStr (cm_type c))] '''' ''success'' d1)
              in (Inr i, deliver_command svc tenantID c (s\<lparr>s_db := d2\<rparr>))))"

definition DeliverPending :: "('sk, 'pk) command_service \<Rightarrow> uuid \<Rightarrow> uuid \<Rightarrow> srv \<Rightarrow> unit res \<times> srv" where
  "DeliverPending svc tenantID deviceID s =
     (case OpenCommands tenantID deviceID (cs_now svc) (s_db s) of
        (Inl e, d) \<Rightarrow> (Inl e, s\<lparr>s_db := d\<rparr>)
      | (Inr cs, d) \<Rightarrow> (Inr (), fold (deliver_command svc tenantID) cs (s\<lparr>s_db := d\<rparr>)))"

definition Complete ::
  "('sk, 'pk) command_service \<Rightarrow> uuid \<Rightarrow> uuid \<Rightarrow> command_result \<Rightarrow> db \<Rightarrow> unit res \<times> db" where
  "Complete svc tenantID deviceID r d = (case cr_id r of
       None \<Rightarrow> (Inl (ErrText ''invalid UUID''), d)
     | Some i \<Rightarrow>
         andThen (CompleteCommand tenantID deviceID i (cr_success r) (cr_message r) (cs_now svc) d) (\<lambda>_ d1.
           AppendAudit tenantID (IdTxt ''device:'' deviceID) ''command.result'' ''command'' (IdTxt '''' i)
             [(''message'', DStr (cr_message r))] '''' (if cr_success r then ''success'' else ''failure'') d1))"

definition ExpireStale :: "('sk, 'pk) command_service \<Rightarrow> db \<Rightarrow> nat res \<times> db" where
  "ExpireStale svc = ExpireCommands (cs_now svc)"

section \<open>The agent's executor\<close>

text \<open>
  executor.Actions: four operations on the agent's machine, whose state is a type
  variable; executor.Executor: the results of the commands already run.
\<close>

record 'w actions =
  RefreshInventory :: "'w \<Rightarrow> unit res \<times> 'w"
  RotateCertificate :: "'w \<Rightarrow> unit res \<times> 'w"
  Uninstall :: "'w \<Rightarrow> unit res \<times> 'w"
  UpdateAgent :: "pb_command \<Rightarrow> 'w \<Rightarrow> unit res \<times> 'w"

type_synonym seen = "uuid \<Rightarrow> command_result option"

definition ok_result :: "string \<Rightarrow> command_result" where
  "ok_result msg = \<lparr>cr_id = None, cr_success = True, cr_message = msg\<rparr>"

definition fail_result :: "string \<Rightarrow> command_result" where
  "fail_result msg = \<lparr>cr_id = None, cr_success = False, cr_message = msg\<rparr>"

definition finish_action :: "unit res \<times> 'w \<Rightarrow> command_result \<times> 'w" where
  "finish_action r = (case fst r of
       Inl e \<Rightarrow> (fail_result (err_text e), snd r)
     | Inr _ \<Rightarrow> (ok_result ''done'', snd r))"

definition dispatch :: "'w actions \<Rightarrow> pb_command \<Rightarrow> 'w \<Rightarrow> command_result \<times> 'w" where
  "dispatch acts cmd w = (case pb_type cmd of
       PING \<Rightarrow> (ok_result ''pong'', w)
     | REFRESH_INVENTORY \<Rightarrow> finish_action (RefreshInventory acts w)
     | ROTATE_CERTIFICATE \<Rightarrow> finish_action (RotateCertificate acts w)
     | UNINSTALL \<Rightarrow> finish_action (Uninstall acts w)
     | UPDATE_AGENT \<Rightarrow> finish_action (UpdateAgent acts cmd w)
     | _ \<Rightarrow> (fail_result ''unsupported command'', w))"

definition Run :: "'w actions \<Rightarrow> pb_command \<Rightarrow> seen \<times> 'w \<Rightarrow> command_result \<times> (seen \<times> 'w)" where
  "Run acts cmd sw = (case fst sw (pb_id cmd) of
       Some prev \<Rightarrow> (prev, sw)
     | None \<Rightarrow>
         (let (res, w) = dispatch acts cmd (snd sw); res' = res\<lparr>cr_id := Some (pb_id cmd)\<rparr>
          in (res', ((fst sw)(pb_id cmd := Some res'), w))))"

text \<open>handleCommand (runner.go): commands that fail verification never reach the executor.\<close>

definition handleCommand ::
  "('sk, 'pk) crypto \<Rightarrow> 'pk \<Rightarrow> uuid \<Rightarrow> time \<Rightarrow> 'w actions \<Rightarrow> signed_command \<Rightarrow> seen \<times> 'w \<Rightarrow>
   command_result option \<times> (seen \<times> 'w)" where
  "handleCommand cr pub deviceID now acts sc sw = (case Verify cr pub sc deviceID now of
       Inl _ \<Rightarrow> (None, sw)
     | Inr cmd \<Rightarrow> (let (res, sw') = Run acts cmd sw in (Some res, sw')))"

fun run_commands :: "'w actions \<Rightarrow> pb_command list \<Rightarrow> seen \<times> 'w \<Rightarrow> command_result list \<times> (seen \<times> 'w)" where
  "run_commands acts [] sw = ([], sw)"
| "run_commands acts (c # cs) sw =
     (let (r, sw1) = Run acts c sw; (rs, sw2) = run_commands acts cs sw1 in (r # rs, sw2))"

section \<open>The life of a command\<close>

definition command_edge :: "command_state \<Rightarrow> command_state \<Rightarrow> bool" where
  "command_edge s s' \<longleftrightarrow>
     (s = CPending \<and> s' \<in> {CSent, CSucceeded, CFailed, CExpired}) \<or>
     (s = CSent \<and> s' \<in> {CSucceeded, CFailed, CExpired})"

definition command_status :: "db \<Rightarrow> uuid \<Rightarrow> command_state option" where
  "command_status d i = map_option cm_state (find_row (\<lambda>c. cm_id c = i) (commands d))"

text \<open>Every statement the server runs on the commands table, with any arguments.\<close>

inductive_set command_ops :: "(db \<Rightarrow> db) set" where
  create: "(\<lambda>d. snd (CreateCommand t c d)) \<in> command_ops"
| sent: "(\<lambda>d. snd (MarkCommandSent t i d)) \<in> command_ops"
| complete: "(\<lambda>d. snd (CompleteCommand t v i b m n d)) \<in> command_ops"
| expire: "(\<lambda>d. snd (ExpireCommands n d)) \<in> command_ops"

lemma command_status_faults [simp]: "command_status (d\<lparr>faults := fs\<rparr>) i = command_status d i"
  by (simp add: command_status_def)

lemma command_status_update:
  assumes "\<And>c. cm_id (f c) = cm_id c" and "\<And>c. P c \<Longrightarrow> command_edge (cm_state c) (cm_state (f c))"
    and "command_status d i = Some s"
  shows "\<exists>s'. command_status (d\<lparr>commands := update_where P f (commands d)\<rparr>) i = Some s' \<and>
           (s' = s \<or> command_edge s s')"
proof -
  from assms(3) obtain c where c: "find_row (\<lambda>c. cm_id c = i) (commands d) = Some c" "cm_state c = s"
    by (auto simp: command_status_def)
  then show ?thesis
    using assms(1,2) find_row_update_where [of cm_id f i P "commands d"]
    by (cases "P c") (auto simp: command_status_def)
qed

lemma pool_edge:
  assumes "command_status d i = Some s"
    and "\<And>d. command_status d i = Some s \<Longrightarrow>
      \<exists>s'. command_status (snd (stmt d)) i = Some s' \<and> (s' = s \<or> command_edge s s')"
  shows "\<exists>s'. command_status (snd (pool stmt d)) i = Some s' \<and> (s' = s \<or> command_edge s s')"
  by (cases stmt d rule: pool_cases) (use assms in simp_all)

interpretation command_life: lifecycle command_status command_ops command_edge
proof
  fix f d i s
  assume "f \<in> command_ops" and st: "command_status d i = Some s"
  then show "\<exists>s'. command_status (f d) i = Some s' \<and> (s' = s \<or> command_edge s s')"
  proof cases
    case create
    then show ?thesis
      unfolding CreateCommand_def create
      by (intro pool_edge [OF st]) (auto simp: command_status_def find_row_append split: option.splits)
  next
    case sent
    show ?thesis
      unfolding MarkCommandSent_def sent
      by (rule pool_edge [OF st], simp only: Let_def snd_conv, rule command_status_update)
         (auto simp: command_edge_def)
  next
    case complete
    show ?thesis
      unfolding CompleteCommand_def complete
      by (rule pool_edge [OF st], simp only: Let_def snd_conv, rule command_status_update)
         (auto simp: command_edge_def open_command_def)
  next
    case expire
    show ?thesis
      unfolding ExpireCommands_def expire
      by (rule pool_edge [OF st], simp only: Let_def snd_conv, rule command_status_update)
         (auto simp: command_edge_def open_command_def)
  qed
qed

text \<open>
  C5: A finished command stays finished. Once a command is recorded as succeeded,
  failed or expired, no sequence of store operations on commands, with whatever
  arguments and whatever statements fail, changes its state again: a replayed result,
  a late expiry sweep or a delivery race cannot resurrect or re-decide it.
\<close>

theorem command_terminal_forever:
  assumes "set fs \<subseteq> command_ops" and "command_status d i = Some s"
    and "s \<in> {CSucceeded, CFailed, CExpired}"
  shows "command_status (fold (\<lambda>f. f) fs d) i = Some s"
  using assms(3) by (intro command_life.terminal_forever [OF assms(1) TrueI assms(2)]) (auto simp: command_edge_def)

theorem command_terminal_forever_witness:
  "command_status
     (snd (ExpireCommands 100 (snd (CompleteCommand 1 2 3 False ''late'' 50
        (empty_db\<lparr>commands := [\<lparr>cm_id = 3, cm_tenant = 1, cm_device = 2, cm_type = ''ping'',
           cm_payload = [], cm_issued_at = 0, cm_expires_at = 60, cm_state = CSucceeded,
           cm_result = ''pong'', cm_completed_at = Some 10\<rparr>]\<rparr>))))) 3 = Some CSucceeded"
proof -
  let ?d = "empty_db\<lparr>commands := [\<lparr>cm_id = 3, cm_tenant = 1, cm_device = 2, cm_type = ''ping'',
           cm_payload = [], cm_issued_at = 0, cm_expires_at = 60, cm_state = CSucceeded,
           cm_result = ''pong'', cm_completed_at = Some 10\<rparr>]\<rparr>"
  let ?fs = "[\<lambda>d. snd (CompleteCommand 1 2 3 False ''late'' 50 d), \<lambda>d. snd (ExpireCommands 100 d)]"
  have "set ?fs \<subseteq> command_ops" by (auto intro: command_ops.intros)
  moreover have "command_status ?d 3 = Some CSucceeded" by (simp add: command_status_def)
  ultimately show ?thesis using command_terminal_forever [of ?fs ?d 3 CSucceeded] by simp
qed

section \<open>Commands run at most once\<close>

text \<open>
  The first occurrence of each command id in a sequence: what the executor really runs.
\<close>

fun first_by_id :: "uuid set \<Rightarrow> pb_command list \<Rightarrow> pb_command list" where
  "first_by_id S [] = []"
| "first_by_id S (c # cs) =
     (if pb_id c \<in> S then first_by_id S cs else c # first_by_id (insert (pb_id c) S) cs)"

definition run_once :: "'w actions \<Rightarrow> pb_command list \<Rightarrow> 'w \<Rightarrow> 'w" where
  "run_once acts cs w = fold (\<lambda>c w. snd (dispatch acts c w)) cs w"

lemma Run_simps:
  "fst sw (pb_id c) = Some r \<Longrightarrow> Run acts c sw = (r, sw)"
  "fst sw (pb_id c) = None \<Longrightarrow> snd (snd (Run acts c sw)) = snd (dispatch acts c (snd sw))"
  "fst sw (pb_id c) = None \<Longrightarrow>
     fst (snd (Run acts c sw)) = (fst sw)(pb_id c := Some (fst (Run acts c sw)))"
  by (simp_all add: Run_def split_beta Let_def)

lemma run_commands_world:
  "snd (snd (run_commands acts cs sw)) = run_once acts (first_by_id (dom (fst sw)) cs) (snd sw)"
proof (induction cs arbitrary: sw)
  case Nil
  then show ?case by (simp add: run_once_def)
next
  case (Cons c cs)
  show ?case
  proof (cases "fst sw (pb_id c)")
    case (Some r)
    with Cons show ?thesis by (auto simp: Run_simps(1) split_beta Let_def dom_def)
  next
    case None
    then have "dom (fst (snd (Run acts c sw))) = insert (pb_id c) (dom (fst sw))"
      by (simp add: Run_simps(3))
    with None Cons [of "snd (Run acts c sw)"] show ?thesis
      by (simp add: split_beta Let_def Run_simps(2) run_once_def domIff)
  qed
qed

text \<open>
  At-most-once execution on the agent. However often the server redelivers
  commands (a reconnect re-sends every open command), the machine ends in the state
  reached by performing each command id exactly once, in order of first arrival, and
  a duplicate is answered with the recorded result of the first run.
\<close>

theorem executor_at_most_once:
  "snd (snd (run_commands acts cs (\<lambda>_. None, w))) = run_once acts (first_by_id {} cs) w \<and>
   (\<forall>c. fst (Run acts c (snd (Run acts c (sn, w)))) = fst (Run acts c (sn, w)) \<and>
        snd (Run acts c (snd (Run acts c (sn, w)))) = snd (Run acts c (sn, w)))"
proof (intro conjI allI)
  show "snd (snd (run_commands acts cs (\<lambda>_. None, w))) = run_once acts (first_by_id {} cs) w"
    by (simp add: run_commands_world)
next
  fix c
  have seen: "fst (snd (Run acts c (sn, w))) (pb_id c) = Some (fst (Run acts c (sn, w)))"
    by (cases "sn (pb_id c)") (auto simp: Run_def split_beta Let_def)
  then show "fst (Run acts c (snd (Run acts c (sn, w)))) = fst (Run acts c (sn, w))"
    and "snd (Run acts c (snd (Run acts c (sn, w)))) = snd (Run acts c (sn, w))"
    by (simp_all add: Run_simps(1))
qed

section \<open>From issue to verified execution\<close>

definition signed_for :: "('sk, 'pk) crypto \<Rightarrow> 'pk \<Rightarrow> command_row \<Rightarrow> signed_command \<Rightarrow> bool" where
  "signed_for cr pub c sc \<longleftrightarrow>
     (\<exists>typ. ParseType (cm_type c) = Inr typ \<and>
        (\<forall>now \<le> unix (to_unix (cm_expires_at c)) + clockSkew.
           Verify cr pub sc (cm_device c) now = Inr (wire_command c typ)))"

text \<open>A stored command of a known type that the codec can marshal.\<close>

definition encodable :: "('sk, 'pk) crypto \<Rightarrow> command_row \<Rightarrow> bool" where
  "encodable cr c \<longleftrightarrow> (\<exists>typ b. ParseType (cm_type c) = Inr typ \<and> pb_marshal cr (wire_command c typ) = Inr b)"

lemma Verify_Sign:
  assumes "key_pair_ok cr sk pk" "Sign cr sk c = Inr sc"
    and "now \<le> unix (pb_expires_at_unix c) + clockSkew"
  shows "Verify cr pk sc (pb_device c) now = Inr c"
  using assms by (auto simp: key_pair_ok_def Sign_def Verify_def split: sum.splits)

lemma deliver_command_connected:
  assumes keys: "command_keys svc t = Inr k" "key_pair_ok (cs_crypto svc) k pk"
    and ty: "ParseType (cm_type c) = Inr typ"
    and enc: "pb_marshal (cs_crypto svc) (wire_command c typ) = Inr b"
    and room: "conns (s_hub s) (cm_device c) = Some cn" "length (chan (s_hub s) cn) < sendBuffer"
  obtains sc where "signed_for (cs_crypto svc) pk c sc"
    and "s_hub (deliver_command svc t c s) =
           (s_hub s)\<lparr>chan := (chan (s_hub s))(cn := chan (s_hub s) cn @ [sc])\<rparr>"
    and "s_db (deliver_command svc t c s) =
           (if cm_state c \<in> {CUnset, CPending} then snd (MarkCommandSent t (cm_id c) (s_db s)) else s_db s)"
proof -
  let ?sc = "\<lparr>sc_command = b, sc_signature = ed_sign (cs_crypto svc) k b\<rparr>"
  have sign: "Sign (cs_crypto svc) k (wire_command c typ) = Inr ?sc" using enc by (simp add: Sign_def)
  have "signed_for (cs_crypto svc) pk c ?sc"
    using Verify_Sign [OF keys(2) sign] ty by (auto simp: signed_for_def wire_command_def)
  moreover have "s_hub (deliver_command svc t c s) =
      (s_hub s)\<lparr>chan := (chan (s_hub s))(cn := chan (s_hub s) cn @ [?sc])\<rparr>"
    and "s_db (deliver_command svc t c s) =
      (if cm_state c \<in> {CUnset, CPending} then snd (MarkCommandSent t (cm_id c) (s_db s)) else s_db s)"
    using room by (auto simp: deliver_command_def ty keys(1) sign Send_def Let_def)
  ultimately show thesis by (rule that)
qed

lemma deliver_all_connected:
  assumes keys: "command_keys svc t = Inr k" "key_pair_ok (cs_crypto svc) k pk"
    and known: "\<forall>c \<in> set cs. encodable (cs_crypto svc) c \<and> cm_device c = i"
    and room: "conns (s_hub s) i = Some cn" "length (chan (s_hub s) cn) + length cs \<le> sendBuffer"
  shows "\<exists>ms. chan (s_hub (fold (deliver_command svc t) cs s)) cn = chan (s_hub s) cn @ ms \<and>
           list_all2 (signed_for (cs_crypto svc) pk) cs ms \<and>
           conns (s_hub (fold (deliver_command svc t) cs s)) = conns (s_hub s)"
  using known room
proof (induction cs arbitrary: s)
  case Nil
  then show ?case by simp
next
  case (Cons c cs)
  then obtain tp b where ty: "ParseType (cm_type c) = Inr tp" and dev: "cm_device c = i"
    and b: "pb_marshal (cs_crypto svc) (wire_command c tp) = Inr b"
    by (auto simp: encodable_def)
  have room': "conns (s_hub s) (cm_device c) = Some cn" "length (chan (s_hub s) cn) < sendBuffer"
    using Cons.prems dev by auto
  obtain sc where sc: "signed_for (cs_crypto svc) pk c sc"
    and hub: "s_hub (deliver_command svc t c s) =
      (s_hub s)\<lparr>chan := (chan (s_hub s))(cn := chan (s_hub s) cn @ [sc])\<rparr>"
    by (rule deliver_command_connected [OF keys ty b room']) auto
  let ?s1 = "deliver_command svc t c s"
  have "\<exists>ms. chan (s_hub (fold (deliver_command svc t) cs ?s1)) cn = chan (s_hub ?s1) cn @ ms \<and>
      list_all2 (signed_for (cs_crypto svc) pk) cs ms \<and>
      conns (s_hub (fold (deliver_command svc t) cs ?s1)) = conns (s_hub ?s1)"
    using Cons.prems by (intro Cons.IH) (simp_all add: hub)
  then obtain ms where "chan (s_hub (fold (deliver_command svc t) cs ?s1)) cn = chan (s_hub ?s1) cn @ ms"
    "list_all2 (signed_for (cs_crypto svc) pk) cs ms"
    "conns (s_hub (fold (deliver_command svc t) cs ?s1)) = conns (s_hub ?s1)" by blast
  with sc show ?case by (intro exI [of _ "sc # ms"]) (simp add: hub)
qed

definition command_by_id :: "db \<Rightarrow> uuid \<Rightarrow> command_row option" where
  "command_by_id d i = find_row (\<lambda>c. cm_id c = i) (commands d)"

lemma MarkCommandSent_by_id:
  assumes "faults d = []"
  shows "command_by_id (snd (MarkCommandSent t i d)) j =
     map_option (\<lambda>c. if cm_tenant c = t \<and> cm_id c = i \<and> cm_state c = CPending
                      then c\<lparr>cm_state := CSent\<rparr> else c) (command_by_id d j)"
  using assms unfolding command_by_id_def MarkCommandSent_def
  by (simp add: Let_def find_row_update_where [where k = cm_id])

lemma MarkCommandSent_faults [simp]: "faults d = [] \<Longrightarrow> faults (snd (MarkCommandSent t i d)) = []"
  by (simp add: MarkCommandSent_def Let_def)

lemma deliver_all_marked:
  assumes keys: "command_keys svc t = Inr k" "key_pair_ok (cs_crypto svc) k pk"
    and known: "\<forall>c \<in> set cs. encodable (cs_crypto svc) c \<and> cm_device c = i"
    and room: "conns (s_hub s) i = Some cn" "length (chan (s_hub s) cn) + length cs \<le> sendBuffer"
    and nofault: "faults (s_db s) = []" and dist: "distinct (map cm_id cs)"
    and rows: "\<forall>c \<in> set cs. command_by_id (s_db s) (cm_id c) = Some c \<and> cm_tenant c = t \<and> open_command c"
  shows "(\<forall>j. j \<notin> cm_id ` set cs \<longrightarrow>
            command_by_id (s_db (fold (deliver_command svc t) cs s)) j = command_by_id (s_db s) j) \<and>
         (\<forall>c \<in> set cs. command_by_id (s_db (fold (deliver_command svc t) cs s)) (cm_id c) =
            Some (c\<lparr>cm_state := CSent\<rparr>))"
  using known room nofault dist rows
proof (induction cs arbitrary: s)
  case Nil
  then show ?case by simp
next
  case (Cons c cs)
  then obtain tp b where ty: "ParseType (cm_type c) = Inr tp" and dev: "cm_device c = i"
    and b: "pb_marshal (cs_crypto svc) (wire_command c tp) = Inr b"
    by (auto simp: encodable_def)
  have room': "conns (s_hub s) (cm_device c) = Some cn" "length (chan (s_hub s) cn) < sendBuffer"
    using Cons.prems dev by auto
  let ?s1 = "deliver_command svc t c s"
  obtain sc where hub: "s_hub ?s1 = (s_hub s)\<lparr>chan := (chan (s_hub s))(cn := chan (s_hub s) cn @ [sc])\<rparr>"
    and db: "s_db ?s1 = (if cm_state c \<in> {CUnset, CPending}
      then snd (MarkCommandSent t (cm_id c) (s_db s)) else s_db s)"
    by (rule deliver_command_connected [OF keys ty b room']) auto
  have row: "command_by_id (s_db ?s1) j =
      (if j = cm_id c then Some (c\<lparr>cm_state := CSent\<rparr>) else command_by_id (s_db s) j)" for j
  proof (cases "j = cm_id c")
    case True
    with Cons.prems show ?thesis
      by (auto simp: db MarkCommandSent_by_id open_command_def)
  next
    case False
    have "cm_id c' = j" if "command_by_id (s_db s) j = Some c'" for c'
      using that by (auto simp: command_by_id_def dest: find_row_Some)
    with False Cons.prems show ?thesis
      by (cases "command_by_id (s_db s) j") (simp_all add: db MarkCommandSent_by_id)
  qed
  have nf: "faults (s_db ?s1) = []" using Cons.prems by (simp add: db)
  have IH: "(\<forall>j. j \<notin> cm_id ` set cs \<longrightarrow>
      command_by_id (s_db (fold (deliver_command svc t) cs ?s1)) j = command_by_id (s_db ?s1) j) \<and>
    (\<forall>c \<in> set cs. command_by_id (s_db (fold (deliver_command svc t) cs ?s1)) (cm_id c) =
      Some (c\<lparr>cm_state := CSent\<rparr>))"
  proof (rule Cons.IH)
    show "\<forall>c \<in> set cs. encodable (cs_crypto svc) c \<and> cm_device c = i"
      using Cons.prems(1) by simp
    show "conns (s_hub ?s1) i = Some cn" "length (chan (s_hub ?s1) cn) + length cs \<le> sendBuffer"
      using Cons.prems(2,3) by (simp_all add: hub)
    show "\<forall>c \<in> set cs. command_by_id (s_db ?s1) (cm_id c) = Some c \<and> cm_tenant c = t \<and> open_command c"
    proof
      fix c' assume c': "c' \<in> set cs"
      with Cons.prems(5) have "cm_id c' \<noteq> cm_id c" by (auto simp: image_iff)
      with c' Cons.prems(6) show "command_by_id (s_db ?s1) (cm_id c') = Some c' \<and> cm_tenant c' = t \<and> open_command c'"
        by (simp add: row)
    qed
  qed (use Cons.prems(5) nf in simp_all)
  have new: "command_by_id (s_db ?s1) (cm_id c) = Some (c\<lparr>cm_state := CSent\<rparr>)"
    and old: "\<And>j. j \<noteq> cm_id c \<Longrightarrow> command_by_id (s_db ?s1) j = command_by_id (s_db s) j"
    by (simp_all add: row)
  have notin: "cm_id c \<notin> cm_id ` set cs" using Cons.prems(5) by simp
  show ?case
  proof (intro conjI allI impI ballI)
    fix j assume "j \<notin> cm_id ` set (c # cs)"
    then have "j \<notin> cm_id ` set cs" "j \<noteq> cm_id c" by auto
    with IH old show "command_by_id (s_db (fold (deliver_command svc t) (c # cs) s)) j = command_by_id (s_db s) j"
      by simp
  next
    fix c' assume "c' \<in> set (c # cs)"
    then consider "c' = c" | "c' \<in> set cs" by auto
    then show "command_by_id (s_db (fold (deliver_command svc t) (c # cs) s)) (cm_id c') = Some (c'\<lparr>cm_state := CSent\<rparr>)"
      by cases (use IH new notin in simp_all)
  qed
qed

text \<open>
  C6: Commands survive an offline agent. When a device (re)connects, DeliverPending
  puts every unexpired open command of that device into the fresh stream, in order of
  issue, each as a message the agent's own Verify accepts for this device until the
  command expires, and every one of them is recorded as sent. Assumed of the
  cryptography and codec: signatures verify, marshalling round-trips. The stream
  buffer holds 64 messages, hence the bound on the number of open commands.
\<close>

theorem reconnect_delivers_open_commands:
  fixes svc :: "('sk, 'pk) command_service" and s :: srv
  assumes keys: "command_keys svc t = Inr k" "key_pair_ok (cs_crypto svc) k pk"
    and nofault: "faults (s_db s) = []" and ids: "distinct (map cm_id (commands (s_db s)))"
    and enc: "\<forall>c \<in> set (open_commands t i (cs_now svc) (s_db s)). encodable (cs_crypto svc) c"
    and fits: "length (open_commands t i (cs_now svc) (s_db s)) \<le> sendBuffer"
    and s': "s' = snd (DeliverPending svc t i (s\<lparr>s_hub := snd (Register i (s_hub s))\<rparr>))"
  shows "list_all2 (signed_for (cs_crypto svc) pk)
           (open_commands t i (cs_now svc) (s_db s)) (hub_queued (s_hub s') i) \<and>
         (\<forall>c \<in> set (open_commands t i (cs_now svc) (s_db s)).
            command_status (s_db s') (cm_id c) = Some CSent)"
proof -
  let ?opn = "open_commands t i (cs_now svc) (s_db s)"
  let ?s1 = "s\<lparr>s_hub := snd (Register i (s_hub s))\<rparr>"
  let ?cn = "next_conn (s_hub s)"
  have s'_fold: "s' = fold (deliver_command svc t) ?opn ?s1"
    using nofault by (simp add: s' DeliverPending_def OpenCommands_def)
  have room: "conns (s_hub ?s1) i = Some ?cn" "length (chan (s_hub ?s1) ?cn) + length ?opn \<le> sendBuffer"
    using fits by (simp_all add: Register_fields)
  have known: "\<forall>c \<in> set ?opn. encodable (cs_crypto svc) c \<and> cm_device c = i"
    using enc by (simp add: open_commands_def)
  have dist: "distinct (map cm_id ?opn)"
    using ids by (auto simp: open_commands_def distinct_map intro: inj_on_subset)
  have "\<forall>c \<in> set ?opn. command_by_id (s_db ?s1) (cm_id c) = Some c \<and> cm_tenant c = t \<and> open_command c"
    using ids by (auto simp: open_commands_def command_by_id_def intro: find_row_unique)
  from deliver_all_marked [OF keys known room _ dist this] nofault
  have "\<forall>c \<in> set ?opn. command_status (s_db s') (cm_id c) = Some CSent"
    by (auto simp: s'_fold command_by_id_def command_status_def)
  moreover from deliver_all_connected [OF keys known room] room(1)
  have "list_all2 (signed_for (cs_crypto svc) pk) ?opn (hub_queued (s_hub s') i)"
    by (auto simp: s'_fold Register_fields hub_queued_def)
  ultimately show ?thesis by blast
qed

text \<open>
  A concrete codec for the witness: one command is marshalled to a fixed text and
  every other refused, the signature is the signed text itself.
\<close>

definition demo_command :: command_row where
  "demo_command = \<lparr>cm_id = 3, cm_tenant = 7, cm_device = 2, cm_type = ''ping'', cm_payload = [],
     cm_issued_at = 0, cm_expires_at = 60, cm_state = CPending, cm_result = [], cm_completed_at = None\<rparr>"

definition demo_crypto :: "(unit, unit) crypto" where
  "demo_crypto = \<lparr>ed_sign = (\<lambda>_ m. m), ed_verify = (\<lambda>_ m s. m = s),
     pb_marshal = (\<lambda>c. if c = wire_command demo_command PING then Inr ''ping'' else Inl (ErrText ''bad'')),
     pb_unmarshal = (\<lambda>b. Inr (wire_command demo_command PING))\<rparr>"

definition demo_service :: "(unit, unit) command_service" where
  "demo_service = \<lparr>cs_crypto = demo_crypto, cs_keys = (), cs_key_for = None, cs_now = 10\<rparr>"

definition demo_srv :: srv where
  "demo_srv = \<lparr>s_db = empty_db\<lparr>commands := [demo_command]\<rparr>, s_hub = New\<rparr>"

theorem reconnect_delivers_open_commands_witness:
  "command_status (s_db (snd (DeliverPending demo_service 7 2
     (demo_srv\<lparr>s_hub := snd (Register 2 (s_hub demo_srv))\<rparr>)))) 3 = Some CSent"
proof -
  have opn: "open_commands 7 2 (cs_now demo_service) (s_db demo_srv) = [demo_command]"
    by (simp add: open_commands_def demo_srv_def demo_service_def demo_command_def open_command_def)
  have keys: "command_keys demo_service 7 = Inr ()" "key_pair_ok (cs_crypto demo_service) () ()"
    by (auto simp: command_keys_def demo_service_def key_pair_ok_def demo_crypto_def split: if_splits)
  have nf: "faults (s_db demo_srv) = []" and ids: "distinct (map cm_id (commands (s_db demo_srv)))"
    by (simp_all add: demo_srv_def)
  have "encodable (cs_crypto demo_service) demo_command"
    by (auto simp: encodable_def demo_service_def demo_crypto_def ParseType_def typeNames_def demo_command_def)
  then have "command_status (s_db (snd (DeliverPending demo_service 7 2
      (demo_srv\<lparr>s_hub := snd (Register 2 (s_hub demo_srv))\<rparr>)))) (cm_id demo_command) = Some CSent"
    using reconnect_delivers_open_commands [OF keys, of demo_srv 2, OF nf ids _ _ refl]
    by (simp add: opn sendBuffer_def)
  then show ?thesis by (simp add: demo_command_def)
qed

end
