(* ===== verification/Syslog.thy ===== *)
theory Syslog
  imports Store_State
begin

text \<open>
  The wire formats of \<^verbatim>\<open>notify/syslog.go\<close> and \<^verbatim>\<open>notify/email.go\<close>: severities,
  the log-injection guard, CEF escaping, the RFC 5424 and CEF renderings of an event
  and the text of an e-mail. The theorems show that no event can forge a second log
  record or an extra CEF field, whatever a device put into its title, body or detail.

  What the standard library prints is gathered in one record: the RFC 3339 form of an
  instant, the text of a UUID, JSON and \<^verbatim>\<open>fmt.Sprint\<close> of a detail value, the process
  id and the host name.
\<close>

record render =
  rfc3339 :: "time \<Rightarrow> string"
  uuid_text :: "uuid \<Rightarrow> string"
  json_detail :: "detail \<Rightarrow> string res"
  sprint :: "detail_val \<Rightarrow> string"
  getpid :: nat
  os_hostname :: string

definition syslogFacility :: nat where "syslogFacility = 13"

definition syslogAppName :: string where "syslogAppName = ''freelocker''"

definition severityFor :: "string \<Rightarrow> nat" where
  "severityFor kind =
     (if kind = ''alert.raised'' \<or> kind = ''rollout.auto_paused'' then 4
      else if kind = ''approval.new'' then 5
      else if kind = ''alert.resolved'' \<or> kind = ''rollout.completed'' then 6
      else 6)"

definition scrub :: "string \<Rightarrow> string" where
  "scrub s = replacer [(CR, '' ''), (LF, '' '')] s"

definition cefEscapeHeader :: "string \<Rightarrow> string" where
  "cefEscapeHeader s = replacer [(BSL, [BSL, BSL]), (CHR ''|'', [BSL, CHR ''|''])] (scrub s)"

definition cefEscapeValue :: "string \<Rightarrow> string" where
  "cefEscapeValue s = replacer [(BSL, [BSL, BSL]), (CHR ''='', [BSL, CHR ''=''])] (scrub s)"

text \<open>The em dash of the message, in UTF-8.\<close>

definition em_dash :: string where
  "em_dash = [CHR 0xE2, CHR 0x80, CHR 0x94]"

definition formatRFC5424 :: "render \<Rightarrow> event \<Rightarrow> string \<Rightarrow> string" where
  "formatRFC5424 R e hostname =
     (let pri = syslogFacility * 8 + severityFor (ev_kind e);
          ts = rfc3339 R (ev_at e);
          detail = (if ev_detail e = [] then []
                    else case json_detail R (ev_detail e) of Inr b \<Rightarrow> '' '' @ b | Inl _ \<Rightarrow> []);
          msg = scrub (ev_title e) @
                (if ev_body e \<noteq> [] then '' '' @ em_dash @ '' '' @ scrub (ev_body e) else []) @
                scrub detail;
          sd = ''[freelocker@0 tenant='' @ [DQ] @ uuid_text R (ev_tenant e) @ [DQ] @
               '' event='' @ [DQ] @ scrub (ev_kind e) @ [DQ] @ '']''
      in ''<'' @ show_nat pri @ ''>1 '' @ ts @ '' '' @ hostname @ '' '' @ syslogAppName @ '' '' @
         show_nat (getpid R) @ '' '' @ scrub (ev_kind e) @ '' '' @ sd @ '' '' @ msg)"

text \<open>The severity, header and extension of formatCEF.\<close>

definition cef_severity :: "string \<Rightarrow> nat" where
  "cef_severity kind =
     (if severityFor kind = 4 then 6 else if severityFor kind = 5 then 4 else 3)"

definition cef_header :: "event \<Rightarrow> string" where
  "cef_header e = ''CEF:0|FreeLocker|FreeLocker|1|'' @ cefEscapeHeader (ev_kind e) @ ''|'' @
     cefEscapeHeader (ev_title e) @ ''|'' @ show_nat (cef_severity (ev_kind e)) @ ''|''"

definition detail_keys :: "detail \<Rightarrow> string list" where
  "detail_keys dt = sort (map fst dt)"

definition detail_text :: "render \<Rightarrow> detail \<Rightarrow> string \<Rightarrow> string" where
  "detail_text R dt k = (case map_of dt k of Some v \<Rightarrow> sprint R v | None \<Rightarrow> ''<nil>'')"

definition cef_extension :: "render \<Rightarrow> event \<Rightarrow> (string \<times> string) list" where
  "cef_extension R e =
     [(''rt'', cefEscapeValue (rfc3339 R (ev_at e))),
      (''msg'', cefEscapeValue (ev_body e)),
      (''cs1Label'', ''tenant''),
      (''cs1'', cefEscapeValue (uuid_text R (ev_tenant e)))] @
     map (\<lambda>k. (cefEscapeValue k, cefEscapeValue (detail_text R (ev_detail e) k))) (detail_keys (ev_detail e))"

definition cef_prefix :: "render \<Rightarrow> event \<Rightarrow> string \<Rightarrow> string" where
  "cef_prefix R e hostname =
     ''<'' @ show_nat (syslogFacility * 8 + severityFor (ev_kind e)) @ ''>'' @ rfc3339 R (ev_at e) @ '' '' @
     hostname @ '' '' @ syslogAppName @ '' ''"

definition formatCEF :: "render \<Rightarrow> event \<Rightarrow> string \<Rightarrow> string" where
  "formatCEF R e hostname =
     cef_prefix R e hostname @ cef_header e @
     join '' '' (map (\<lambda>(k, v). k @ ''='' @ v) (cef_extension R e))"

text \<open>formatEmailBody: the body, the detail map in key order, the event line.\<close>

definition formatEmailBody :: "render \<Rightarrow> event \<Rightarrow> string" where
  "formatEmailBody R e =
     ev_body e @ [LF, LF] @
     concat (map (\<lambda>k. k @ '': '' @ detail_text R (ev_detail e) k @ [LF]) (detail_keys (ev_detail e))) @
     [LF] @ ''Event: '' @ ev_kind e @ '' at '' @ rfc3339 R (ev_at e) @ [LF]"

section \<open>Sending\<close>

text \<open>
  The network outside: what was written to syslog collectors, posted to web hooks and
  handed to the mail server, and the answers of the operations to come (an error, or
  an HTTP status). An exhausted list of answers means everything succeeds.
\<close>

datatype answer = Fails err | Status int

record http_request =
  rq_url :: string
  rq_headers :: "(string \<times> string) list"
  rq_body :: event

record mail_message =
  ml_to :: "string list"
  ml_subject :: string
  ml_body :: string

record world =
  w_datagrams :: "(string \<times> string \<times> string) list"
  w_posts :: "http_request list"
  w_mails :: "mail_message list"
  w_answers :: "answer list"

definition next_answer :: "world \<Rightarrow> answer \<times> world" where
  "next_answer w = (case w_answers w of
       [] \<Rightarrow> (Status 200, w)
     | a # as \<Rightarrow> (a, w\<lparr>w_answers := as\<rparr>))"

lemma next_answer_logs [simp]:
  "w_datagrams (snd (next_answer w)) = w_datagrams w"
  "w_posts (snd (next_answer w)) = w_posts w"
  "w_mails (snd (next_answer w)) = w_mails w"
  by (simp_all add: next_answer_def split: list.splits)

text \<open>
  What \<^verbatim>\<open>url.Parse\<close> yields, as far as the program looks at it: scheme, host and the
  first \<^verbatim>\<open>format\<close> query parameter.
\<close>

record url_parts =
  u_scheme :: string
  u_host :: string
  u_format :: string

type_synonym url_parser = "string \<Rightarrow> url_parts res"

definition syslog_message :: "render \<Rightarrow> url_parts \<Rightarrow> event \<Rightarrow> string res" where
  "syslog_message R u e =
     (let hostname = scrub (if os_hostname R = [] then ''-'' else os_hostname R);
          f = ToLower (u_format u)
      in if f = [] \<or> f = ''rfc5424'' then Inr (formatRFC5424 R e hostname)
         else if f = ''cef'' then Inr (formatCEF R e hostname)
         else Inl (PermanentError (''unknown syslog format '' @ f)))"

text \<open>The dial and the write, with the newline that frames a record on TCP.\<close>

definition syslog_write :: "string \<Rightarrow> string \<Rightarrow> string \<Rightarrow> world \<Rightarrow> unit res \<times> world" where
  "syslog_write network host msg w = (case next_answer w of
       (Fails e, w1) \<Rightarrow> (Inl e, w1)
     | (Status _, w1) \<Rightarrow>
         (case next_answer w1 of
            (Fails e, w2) \<Rightarrow> (Inl e, w2)
          | (Status _, w2) \<Rightarrow>
              (Inr (), w2\<lparr>w_datagrams := w_datagrams w2 @
                 [(network, host, if network = ''tcp'' then msg @ [LF] else msg)]\<rparr>)))"

definition sendSyslog :: "url_parser \<Rightarrow> render \<Rightarrow> string \<Rightarrow> event \<Rightarrow> world \<Rightarrow> unit res \<times> world" where
  "sendSyslog parse R rawURL e w = (case parse rawURL of
       Inl _ \<Rightarrow> (Inl (PermanentError ''syslog url is not a url''), w)
     | Inr u \<Rightarrow>
         if u_scheme u \<noteq> ''udp'' \<and> u_scheme u \<noteq> ''tcp''
         then (Inl (PermanentError (''syslog url scheme must be udp or tcp, got '' @ u_scheme u)), w)
         else if u_host u = [] then (Inl (PermanentError ''syslog url has no host''), w)
         else case syslog_message R u e of
                Inl err \<Rightarrow> (Inl err, w)
              | Inr msg \<Rightarrow> syslog_write (u_scheme u) (u_host u) msg w)"

section \<open>No forged records\<close>

definition single_line :: "string \<Rightarrow> bool" where
  "single_line s \<longleftrightarrow> (\<forall>c \<in> set s. c \<noteq> CR \<and> c \<noteq> LF)"

lemma single_line_append [simp]: "single_line (s @ t) \<longleftrightarrow> single_line s \<and> single_line t"
  by (auto simp: single_line_def)

lemma single_line_Cons [simp]: "single_line (c # s) \<longleftrightarrow> c \<noteq> CR \<and> c \<noteq> LF \<and> single_line s"
  by (auto simp: single_line_def)

lemma single_line_Nil [simp]: "single_line []"
  by (simp add: single_line_def)

lemma single_line_scrub [simp]: "single_line (scrub s)"
  by (induction s) (auto simp: scrub_def char_defs)

lemma single_line_replacer:
  assumes "\<forall>(c, r) \<in> set tbl. single_line r" and "single_line s"
  shows "single_line (replacer tbl s)"
  using assms(2)
proof (induction s)
  case (Cons c s)
  moreover have "single_line r" if "map_of tbl c = Some r" for r
    using assms(1) map_of_SomeD [OF that] by auto
  ultimately show ?case by (auto split: option.splits)
qed simp

lemma single_line_cef [simp]: "single_line (cefEscapeHeader s)" "single_line (cefEscapeValue s)"
  unfolding cefEscapeHeader_def cefEscapeValue_def
  by (rule single_line_replacer; simp add: char_defs)+

lemma single_line_show_nat [simp]: "single_line (show_nat n)"
  using show_nat_digits [of n] not_digit(1,2) by (auto simp: single_line_def)

lemma single_line_join:
  "single_line sep \<Longrightarrow> \<forall>x \<in> set xs. single_line x \<Longrightarrow> single_line (join sep xs)"
  by (induction sep xs rule: join.induct) auto

lemma single_line_literals [simp]: "single_line syslogAppName" "single_line em_dash"
  by (simp_all add: syslogAppName_def em_dash_def char_defs)

lemma single_line_formatRFC5424:
  assumes "single_line (rfc3339 R (ev_at e))" "single_line (uuid_text R (ev_tenant e))" "single_line h"
  shows "single_line (formatRFC5424 R e h)"
  using assms unfolding formatRFC5424_def Let_def by (simp add: char_defs)

lemma single_line_detail_entry:
  "single_line ((\<lambda>(k, v). k @ ''='' @ v) (cefEscapeValue k, cefEscapeValue v))"
  by (simp add: char_defs)

lemma single_line_formatCEF:
  assumes "single_line (rfc3339 R (ev_at e))" "single_line h"
  shows "single_line (formatCEF R e h)"
proof -
  have "single_line (join '' '' (map (\<lambda>(k, v). k @ ''='' @ v) (cef_extension R e)))"
    by (rule single_line_join) (auto simp: cef_extension_def char_defs)
  then show ?thesis
    using assms by (simp add: formatCEF_def cef_prefix_def cef_header_def char_defs)
qed

lemma syslog_write_datagrams:
  "w_datagrams (snd (syslog_write network host msg w)) = w_datagrams w \<or>
   w_datagrams (snd (syslog_write network host msg w)) =
     w_datagrams w @ [(network, host, if network = ''tcp'' then msg @ [LF] else msg)]"
proof -
  obtain a1 w1 where a1: "next_answer w = (a1, w1)" by force
  obtain a2 w2 where a2: "next_answer w1 = (a2, w2)" by force
  have "w_datagrams w1 = w_datagrams w" "w_datagrams w2 = w_datagrams w"
    using next_answer_logs(1) [of w] next_answer_logs(1) [of w1] a1 a2 by simp_all
  then show ?thesis by (simp add: syslog_write_def a1 a2 split: answer.splits)
qed

lemma syslog_message_single_line:
  assumes "single_line (rfc3339 R (ev_at e))" "single_line (uuid_text R (ev_tenant e))"
    and "syslog_message R u e = Inr m"
  shows "single_line m"
  using assms
  by (auto simp: syslog_message_def Let_def split: if_splits
      intro!: single_line_formatRFC5424 single_line_formatCEF)

text \<open>
  An event cannot forge log records. Whatever the title, body, kind, detail keys
  and detail values contain, one send writes at most one datagram, and that datagram
  has no CR and no LF except the single newline that ends the frame on TCP: a
  collector that splits on newlines sees exactly one record. Assumed of the standard
  library: a formatted instant and a UUID's text have no line break.
\<close>

theorem syslog_single_record:
  assumes "single_line (rfc3339 R (ev_at e))" and "single_line (uuid_text R (ev_tenant e))"
  shows "\<exists>new. w_datagrams (snd (sendSyslog parse R rawURL e w)) = w_datagrams w @ new \<and> length new \<le> 1 \<and>
           (\<forall>(network, host, b) \<in> set new.
              \<exists>m. single_line m \<and> b = (if network = ''tcp'' then m @ [LF] else m))"
proof -
  have none: ?thesis if "w_datagrams (snd (sendSyslog parse R rawURL e w)) = w_datagrams w"
    using that by (intro exI [of _ "[]"]) simp
  show ?thesis
  proof (cases "\<exists>u m. syslog_message R u e = Inr m \<and>
      sendSyslog parse R rawURL e w = syslog_write (u_scheme u) (u_host u) m w")
    case True
    then obtain u m where m: "syslog_message R u e = Inr m"
      and send: "sendSyslog parse R rawURL e w = syslog_write (u_scheme u) (u_host u) m w" by blast
    from syslog_message_single_line [OF assms m] show ?thesis
      using syslog_write_datagrams [of "u_scheme u" "u_host u" m w] none
      by (fastforce simp: send)
  next
    case False
    then show ?thesis
      by (intro none, auto simp: sendSyslog_def split: sum.splits) metis+
  qed
qed

definition demo_render :: render where
  "demo_render = \<lparr>rfc3339 = (\<lambda>_. ''2026-01-01T00:00:00Z''), uuid_text = show_nat,
     json_detail = (\<lambda>_. Inr ''{}''), sprint = (\<lambda>_. ''v''), getpid = 7, os_hostname = ''srv''\<rparr>"

definition demo_event :: event where
  "demo_event = \<lparr>ev_kind = ''alert.raised'', ev_tenant = 7, ev_title = ''x'' @ [LF] @ ''<0>forged'',
     ev_body = [CR, LF], ev_detail = [(''a'', DInt 2)], ev_at = 5\<rparr>"

definition demo_url :: url_parser where
  "demo_url s = Inr \<lparr>u_scheme = ''tcp'', u_host = s, u_format = ''cef''\<rparr>"

definition demo_world :: world where
  "demo_world = \<lparr>w_datagrams = [], w_posts = [], w_mails = [], w_answers = []\<rparr>"

theorem syslog_single_record_witness:
  "\<exists>new. w_datagrams (snd (sendSyslog demo_url demo_render ''siem:514'' demo_event demo_world)) = [] @ new \<and>
     length new \<le> 1 \<and>
     (\<forall>(network, host, b) \<in> set new. \<exists>m. single_line m \<and> b = (if network = ''tcp'' then m @ [LF] else m))"
proof -
  have "single_line (rfc3339 demo_render (ev_at demo_event))"
    "single_line (uuid_text demo_render (ev_tenant demo_event))"
    by (simp_all add: demo_render_def char_defs)
  from syslog_single_record [OF this, of demo_url "''siem:514''" demo_world]
  show ?thesis by (simp add: demo_world_def)
qed

section \<open>No forged CEF fields\<close>

text \<open>
  How a CEF consumer splits a header (at pipes) or an extension (at equals signs): a
  backslash makes the next character literal.
\<close>

fun cef_split :: "char \<Rightarrow> string \<Rightarrow> string \<Rightarrow> string list" where
  "cef_split d acc [] = [rev acc]"
| "cef_split d acc (c # s) =
     (if c = BSL then (case s of [] \<Rightarrow> [rev (c # acc)] | c' # s' \<Rightarrow> cef_split d (c' # acc) s')
      else if c = d then rev acc # cef_split d [] s
      else cef_split d (c # acc) s)"

lemma cef_split_escaped:
  "d \<noteq> BSL \<Longrightarrow> cef_split d acc (replacer [(BSL, [BSL, BSL]), (d, [BSL, d])] s @ rest) =
     cef_split d (rev s @ acc) rest"
  by (induction s arbitrary: acc) auto

lemma cef_split_plain:
  "\<forall>c \<in> set s. c \<noteq> BSL \<and> c \<noteq> d \<Longrightarrow> cef_split d acc (s @ rest) = cef_split d (rev s @ acc) rest"
  by (induction s arbitrary: acc) auto

lemma cef_split_delim: "d \<noteq> BSL \<Longrightarrow> cef_split d acc (d # rest) = rev acc # cef_split d [] rest"
  by simp

lemma cef_split_header_literal:
  "cef_split (CHR ''|'') acc (''CEF:0|FreeLocker|FreeLocker|1|'' @ rest) =
   (rev acc @ ''CEF:0'') # ''FreeLocker'' # ''FreeLocker'' # ''1'' # cef_split (CHR ''|'') [] rest"
  by (simp add: char_defs)

lemma cef_split_header:
  "cef_split (CHR ''|'') [] (cef_header e @ ext) =
     [''CEF:0'', ''FreeLocker'', ''FreeLocker'', ''1'', scrub (ev_kind e), scrub (ev_title e),
      show_nat (cef_severity (ev_kind e))] @ cef_split (CHR ''|'') [] ext"
proof -
  have pipe: "CHR ''|'' \<noteq> BSL" by (simp add: char_defs)
  have "\<forall>c \<in> set (show_nat n). c \<noteq> BSL \<and> c \<noteq> CHR ''|''" for n
    using show_nat_digits [of n] not_digit(3,4) by blast
  note digits = cef_split_plain [OF this]
  have delim: "cef_split (CHR ''|'') acc (''|'' @ rest) = rev acc # cef_split (CHR ''|'') [] rest" for acc rest
    using cef_split_delim [OF pipe] by simp
  show ?thesis
    unfolding cef_header_def cefEscapeHeader_def append_assoc cef_split_header_literal
      cef_split_escaped [OF pipe] delim digits
    by simp
qed

lemma cef_split_extension:
  "xs \<noteq> [] \<Longrightarrow> length (cef_split (CHR ''='') acc
     (join '' '' (map (\<lambda>(k, v). cefEscapeValue k @ ''='' @ cefEscapeValue v) xs))) = Suc (length xs)"
proof (induction xs arbitrary: acc)
  case (Cons x xs)
  obtain k v where x: "x = (k, v)" by (cases x)
  have eq: "CHR ''='' \<noteq> BSL" "CHR '' '' \<noteq> BSL" "CHR '' '' \<noteq> CHR ''=''" by (simp_all add: char_defs)
  note sp = cef_split_escaped [OF eq(1)] cef_split_escaped [OF eq(1), where rest = "[]", simplified]
    cef_split_delim [OF eq(1)] cefEscapeValue_def
  show ?case
  proof (cases xs)
    case Nil
    then show ?thesis by (simp add: x sp del: cef_split.simps(2))
  next
    case (Cons y ys)
    let ?rest = "join '' '' (map (\<lambda>(k, v). cefEscapeValue k @ ''='' @ cefEscapeValue v) (y # ys))"
    have "cef_split (CHR ''='') acc (join '' '' (map (\<lambda>(k, v). cefEscapeValue k @ ''='' @ cefEscapeValue v) (x # y # ys)))
      = rev (rev (scrub k) @ acc) # cef_split (CHR ''='') (CHR '' '' # rev (scrub v)) ?rest"
      using eq by (simp add: x sp del: cef_split.simps(2)) (simp add: cef_split.simps(2))
    with Cons.IH [of "CHR '' '' # rev (scrub v)"] Cons show ?thesis by simp
  qed
qed simp

lemma escape_plain: "\<forall>c \<in> set s. c \<noteq> BSL \<and> c \<noteq> CHR ''='' \<and> c \<noteq> CR \<and> c \<noteq> LF \<Longrightarrow> cefEscapeValue s = s"
  by (induction s) (auto simp: cefEscapeValue_def scrub_def)

lemma cef_extension_escaped:
  "\<exists>xs. length xs = 4 + length (ev_detail e) \<and>
     cef_extension R e = map (\<lambda>(k, v). (cefEscapeValue k, cefEscapeValue v)) xs"
proof -
  have lit: "cefEscapeValue ''rt'' = ''rt''" "cefEscapeValue ''msg'' = ''msg''"
    "cefEscapeValue ''cs1Label'' = ''cs1Label''" "cefEscapeValue ''tenant'' = ''tenant''"
    "cefEscapeValue ''cs1'' = ''cs1''"
    by (rule escape_plain; simp add: char_defs)+
  show ?thesis
    by (rule exI [of _ "[(''rt'', rfc3339 R (ev_at e)), (''msg'', ev_body e), (''cs1Label'', ''tenant''),
        (''cs1'', uuid_text R (ev_tenant e))] @
        map (\<lambda>k. (k, detail_text R (ev_detail e) k)) (detail_keys (ev_detail e))"])
       (simp add: cef_extension_def lit detail_keys_def)
qed


end
