(* ===== verification/Notify.thy ===== *)
theory Notify
  imports Syslog
begin

text \<open>
  Outbound notifications: channel validation and the channel and delivery tables
  (\<^verbatim>\<open>store/notifications.go\<close>), the emitter producers call and the dispatcher that
  drains the outbox (\<^verbatim>\<open>notify/notify.go\<close>), web hooks and mail
  (\<^verbatim>\<open>notify/webhook.go\<close>, \<^verbatim>\<open>notify/email.go\<close>).

  The contract of an emitter (it only appends deliveries of the event's tenant) is the
  locale \<open>emitter\<close>; it is interpreted for the real service and for Nop, and the
  producers (rollouts, approvals, alerts) rely on it alone.
\<close>

section \<open>Channels\<close>

definition EventKinds :: "string list" where
  "EventKinds = [''alert.raised'', ''alert.resolved'', ''approval.new'', ''rollout.auto_paused'', ''rollout.completed'']"

text \<open>\<^verbatim>\<open>%q\<close> of a text without special characters.\<close>

definition quoted :: "string \<Rightarrow> string" where
  "quoted s = [DQ] @ s @ [DQ]"

definition validate_target :: "url_parser \<Rightarrow> channel_row \<Rightarrow> unit res" where
  "validate_target parse c =
     (if ch_kind c = ''webhook'' then
        (case parse (ch_url c) of
           Inr u \<Rightarrow> if (u_scheme u = ''http'' \<or> u_scheme u = ''https'') \<and> u_host u \<noteq> [] then Inr ()
                    else Inl (ValidationError ''webhook url must be http or https'')
         | Inl _ \<Rightarrow> Inl (ValidationError ''webhook url must be http or https''))
      else if ch_kind c = ''syslog'' then
        (case parse (ch_url c) of
           Inr u \<Rightarrow>
             if (u_scheme u = ''udp'' \<or> u_scheme u = ''tcp'') \<and> u_host u \<noteq> [] then
               (let f = ToLower (u_format u) in
                if f \<noteq> [] \<and> f \<noteq> ''rfc5424'' \<and> f \<noteq> ''cef''
                then Inl (ValidationError ''syslog format must be rfc5424 or cef'') else Inr ())
             else Inl (ValidationError ''syslog url must be udp://host:port or tcp://host:port'')
         | Inl _ \<Rightarrow> Inl (ValidationError ''syslog url must be udp://host:port or tcp://host:port''))
      else if ch_kind c = ''email'' then
        (if ch_recipients c = [] then Inl (ValidationError ''at least one recipient is required'')
         else case find (\<lambda>r. \<not> Contains r ''@'') (ch_recipients c) of
                Some r \<Rightarrow> Inl (ValidationError (''invalid recipient '' @ quoted r))
              | None \<Rightarrow> Inr ())
      else Inl (ValidationError ''kind must be email, webhook or syslog''))"

definition ValidateChannel :: "url_parser \<Rightarrow> channel_row \<Rightarrow> unit res" where
  "ValidateChannel parse c =
     (if TrimSpace (ch_name c) = [] then Inl (ValidationError ''name is required'')
      else if ch_events c = [] then Inl (ValidationError ''subscribe to at least one event'')
      else case find (\<lambda>e. e \<notin> set EventKinds) (ch_events c) of
             Some e \<Rightarrow> Inl (ValidationError (''unknown event '' @ quoted e))
           | None \<Rightarrow> validate_target parse c)"

text \<open>
  The constraints of migration 0018: the kind check, the primary key, a name unique
  in the tenant, the tenant reference.
\<close>

definition channel_kind_check :: "string \<Rightarrow> bool" where
  "channel_kind_check k \<longleftrightarrow> k = ''email'' \<or> k = ''webhook''"

definition CreateChannel :: "uuid \<Rightarrow> channel_row \<Rightarrow> db \<Rightarrow> unit res \<times> db" where
  "CreateChannel tenantID c d = (let (r, d') = pool (\<lambda>d.
     if \<not> channel_kind_check (ch_kind c) then (Inl (PgError ''23514''), d)
     else if ch_id c \<in> ch_id ` set (notification_channels d) \<or>
       (\<exists>c' \<in> set (notification_channels d). ch_tenant c' = tenantID \<and> ch_name c' = ch_name c)
     then (Inl (PgError ''23505''), d)
     else if tenantID \<notin> tn_id ` set (tenants d) then (Inl (PgError ''23503''), d)
     else (Inr (), d\<lparr>notification_channels := notification_channels d @ [c\<lparr>ch_tenant := tenantID, ch_created_at := now_db d, ch_updated_at := now_db d\<rparr>]\<rparr>)) d
     in (conflict r, d'))"

definition GetChannel :: "uuid \<Rightarrow> uuid \<Rightarrow> db \<Rightarrow> channel_row res \<times> db" where
  "GetChannel tenantID i = pool (\<lambda>d.
     (case find_row (\<lambda>c. ch_tenant c = tenantID \<and> ch_id c = i) (notification_channels d) of
        None \<Rightarrow> Inl ErrNotFound | Some c \<Rightarrow> Inr c, d))"

definition ListChannels :: "uuid \<Rightarrow> db \<Rightarrow> channel_row list res \<times> db" where
  "ListChannels tenantID = pool (\<lambda>d.
     (Inr (sort_key ch_name (filter (\<lambda>c. ch_tenant c = tenantID) (notification_channels d))), d))"

definition UpdateChannel :: "uuid \<Rightarrow> channel_row \<Rightarrow> db \<Rightarrow> unit res \<times> db" where
  "UpdateChannel tenantID c d = (let (r, d') = pool (\<lambda>d.
     let P = (\<lambda>c'. ch_tenant c' = tenantID \<and> ch_id c' = ch_id c) in
     if (\<exists>c' \<in> set (notification_channels d). P c') \<and>
        (\<exists>c' \<in> set (notification_channels d). ch_tenant c' = tenantID \<and> ch_id c' \<noteq> ch_id c \<and> ch_name c' = ch_name c)
     then (Inl (PgError ''23505''), d)
     else (Inr (rows_affected P (notification_channels d)),
           d\<lparr>notification_channels := update_where P (\<lambda>c'. c'\<lparr>ch_name := ch_name c, ch_events := ch_events c,
              ch_enabled := ch_enabled c, ch_recipients := ch_recipients c, ch_url := ch_url c,
              ch_secret := ch_secret c, ch_updated_at := now_db d\<rparr>) (notification_channels d)\<rparr>)) d
     in (oneRow (conflict r), d'))"

definition DeleteChannel :: "uuid \<Rightarrow> uuid \<Rightarrow> db \<Rightarrow> unit res \<times> db" where
  "DeleteChannel tenantID i = pool (\<lambda>d.
     let P = (\<lambda>c. ch_tenant c = tenantID \<and> ch_id c = i); n = rows_affected P (notification_channels d)
     in (oneRow (Inr n),
         d\<lparr>notification_channels := filter (\<lambda>c. \<not> P c) (notification_channels d),
           notification_deliveries :=
             (if n = 0 then notification_deliveries d
              else filter (\<lambda>r. dl_channel r \<noteq> i) (notification_deliveries d))\<rparr>))"

definition channels_for_event :: "uuid \<Rightarrow> string \<Rightarrow> db \<Rightarrow> channel_row list" where
  "channels_for_event tenantID kind d =
     sort_key ch_name (filter (\<lambda>c. ch_tenant c = tenantID \<and> ch_enabled c \<and> kind \<in> set (ch_events c) \<and>
       (\<exists>t \<in> set (tenants d). tn_id t = ch_tenant c \<and> \<not> tn_suspended t)) (notification_channels d))"

definition ChannelsForEvent :: "uuid \<Rightarrow> string \<Rightarrow> db \<Rightarrow> channel_row list res \<times> db" where
  "ChannelsForEvent tenantID kind = pool (\<lambda>d. (Inr (channels_for_event tenantID kind d), d))"

section \<open>The outbox\<close>

definition new_delivery :: "time \<Rightarrow> uuid \<Rightarrow> string \<Rightarrow> event \<Rightarrow> time \<Rightarrow> nat \<Rightarrow> uuid \<Rightarrow> delivery_row" where
  "new_delivery created tenantID kind payload now i ch =
     \<lparr>dl_id = i, dl_tenant = tenantID, dl_channel = ch, dl_event_kind = kind, dl_payload = Some payload,
      dl_state = DPending, dl_attempts = 0, dl_next_attempt_at = now, dl_last_error = '''', dl_sent_at = None, dl_created_at = created\<rparr>"

definition enqueue_stmt :: "uuid \<Rightarrow> uuid list \<Rightarrow> string \<Rightarrow> event \<Rightarrow> time \<Rightarrow> db \<Rightarrow> unit res \<times> db" where
  "enqueue_stmt tenantID channelIDs kind payload now d =
     (let n = length channelIDs; d1 = d\<lparr>delivery_seq := delivery_seq d + n\<rparr> in
      if tenantID \<in> tn_id ` set (tenants d) \<and> set channelIDs \<subseteq> ch_id ` set (notification_channels d)
      then (Inr (), d1\<lparr>notification_deliveries := notification_deliveries d @
              map (\<lambda>(i, ch). new_delivery (now_db d) tenantID kind payload now i ch)
                (zip [delivery_seq d ..< delivery_seq d + n] channelIDs)\<rparr>)
      else (Inl (PgError ''23503''), d1))"

definition EnqueueDeliveries ::
  "uuid \<Rightarrow> uuid list \<Rightarrow> string \<Rightarrow> event \<Rightarrow> time \<Rightarrow> db \<Rightarrow> unit res \<times> db" where
  "EnqueueDeliveries tenantID channelIDs kind payload now d =
     (if channelIDs = [] then (Inr (), d)
      else pool (enqueue_stmt tenantID channelIDs kind payload now) d)"

definition due :: "time \<Rightarrow> delivery_row \<Rightarrow> bool" where
  "due now r \<longleftrightarrow> dl_state r = DPending \<and> dl_next_attempt_at r \<le> now"

definition claim_ids :: "time \<Rightarrow> nat \<Rightarrow> db \<Rightarrow> nat list" where
  "claim_ids now limit d = take limit (sort (map dl_id (filter (due now) (notification_deliveries d))))"

definition claim_row :: "time \<Rightarrow> delivery_row \<Rightarrow> delivery_row" where
  "claim_row until r = r\<lparr>dl_attempts := dl_attempts r + 1, dl_next_attempt_at := until\<rparr>"

definition claim_stmt :: "time \<Rightarrow> duration \<Rightarrow> nat \<Rightarrow> db \<Rightarrow> nat list res \<times> db" where
  "claim_stmt now lease limit d = (let ids = claim_ids now limit d in
     (Inr ids, d\<lparr>notification_deliveries :=
        update_where (\<lambda>r. dl_id r \<in> set ids) (claim_row (now + lease)) (notification_deliveries d)\<rparr>))"

definition claim_select :: "nat list \<Rightarrow> db \<Rightarrow> delivery_row list res \<times> db" where
  "claim_select ids d =
     (Inr (sort_key dl_id (filter (\<lambda>r. dl_id r \<in> set ids) (notification_deliveries d))), d)"

definition ClaimDeliveries :: "time \<Rightarrow> duration \<Rightarrow> nat \<Rightarrow> db \<Rightarrow> delivery_row list res \<times> db" where
  "ClaimDeliveries now lease limit d =
     andThen (tx (pool (claim_stmt now lease limit)) d)
       (\<lambda>ids d1. if ids = [] then (Inr [], d1) else pool (claim_select ids) d1)"

text \<open>Postgres refuses a text parameter that is not valid UTF-8 or contains a zero byte.\<close>

definition pg_text :: "string \<Rightarrow> bool" where
  "pg_text s \<longleftrightarrow> valid_utf8 s \<and> CHR 0x00 \<notin> set s"

definition trim_error :: "string \<Rightarrow> string" where
  "trim_error lastError = (if length lastError > 500 then ToValidUTF8 (take 500 lastError) else lastError)"

definition FinishDelivery ::
  "nat \<Rightarrow> delivery_state \<Rightarrow> string \<Rightarrow> time \<Rightarrow> time \<Rightarrow> db \<Rightarrow> unit res \<times> db" where
  "FinishDelivery i state lastError nextAttempt now = pool (\<lambda>d.
     let err = trim_error lastError;
         sentAt = (if state = DSent then Some now else None);
         next = (if nextAttempt = 0 then now else nextAttempt);
         P = (\<lambda>r. dl_id r = i)
     in if \<not> pg_text err then (Inl (PgError ''22021''), d)
        else (oneRow (Inr (rows_affected P (notification_deliveries d))),
              d\<lparr>notification_deliveries := update_where P (\<lambda>r. r\<lparr>dl_state := state, dl_last_error := err,
                 dl_next_attempt_at := next, dl_sent_at := sentAt\<rparr>) (notification_deliveries d)\<rparr>))"

definition channel_name :: "uuid \<Rightarrow> db \<Rightarrow> string" where
  "channel_name i d = (case find_row (\<lambda>c. ch_id c = i) (notification_channels d) of Some c \<Rightarrow> ch_name c | None \<Rightarrow> '''')"

definition ListDeliveries :: "uuid \<Rightarrow> nat \<Rightarrow> db \<Rightarrow> (delivery_row \<times> string) list res \<times> db" where
  "ListDeliveries tenantID limit = pool (\<lambda>d.
     (Inr (map (\<lambda>r. (r, channel_name (dl_channel r) d)) (take limit (rev (sort_key dl_id
        (filter (\<lambda>r. dl_tenant r = tenantID) (notification_deliveries d)))))), d))"

section \<open>The service\<close>

definition ClaimLease :: duration where "ClaimLease = 10 * minute"
definition ClaimBatch :: nat where "ClaimBatch = 10"
definition MaxAttempts :: int where "MaxAttempts = 5"
definition errNoSMTP :: string where "errNoSMTP = ''smtp is not configured on this server''"

definition Backoff :: "int \<Rightarrow> duration \<times> bool" where
  "Backoff attempt =
     (if attempt \<ge> MaxAttempts then (0, True)
      else if attempt = 1 then (minute, False)
      else if attempt = 2 then (5 * minute, False)
      else (30 * minute, False))"

record smtp_config =
  sm_host :: string
  sm_from :: string

definition Configured :: "smtp_config \<Rightarrow> bool" where
  "Configured m \<longleftrightarrow> sm_host m \<noteq> [] \<and> sm_from m \<noteq> []"

text \<open>
  notify.Service. Parameters: the instant Now returns, the sealer that decrypts a
  stored secret, HMAC-SHA256 of an event's JSON in hexadecimal, the date header, URL
  parsing and the printing functions.
\<close>

record notify_service =
  ns_now :: time
  ns_open :: "bytes \<Rightarrow> bytes res"
  ns_hmac :: "bytes \<Rightarrow> event \<Rightarrow> string"
  ns_date :: string
  ns_smtp :: smtp_config
  ns_parse :: url_parser
  ns_render :: render

definition Emit :: "notify_service \<Rightarrow> event \<Rightarrow> db \<Rightarrow> db" where
  "Emit svc e d =
     (let e = (if ev_at e = 0 then e\<lparr>ev_at := ns_now svc\<rparr> else e) in
      case ChannelsForEvent (ev_tenant e) (ev_kind e) d of
        (Inl _, d1) \<Rightarrow> d1
      | (Inr chs, d1) \<Rightarrow>
          if chs = [] then d1
          else snd (EnqueueDeliveries (ev_tenant e) (map ch_id chs) (ev_kind e) e (ns_now svc) d1))"

definition Nop :: "event \<Rightarrow> db \<Rightarrow> db" where
  "Nop e d = d"

definition webhook_headers :: "notify_service \<Rightarrow> bytes \<Rightarrow> event \<Rightarrow> string \<Rightarrow> (string \<times> string) list" where
  "webhook_headers svc secret e deliveryID =
     [(''Content-Type'', ''application/json''), (''User-Agent'', ''FreeLocker-Notify/1''),
      (''X-FreeLocker-Event'', ev_kind e), (''X-FreeLocker-Delivery'', deliveryID)] @
     (if secret \<noteq> [] then [(''X-FreeLocker-Signature'', ''sha256='' @ ns_hmac svc secret e)] else [])"

definition webhook_status_error :: "int \<Rightarrow> err" where
  "webhook_status_error n = ErrText (''webhook returned '' @ show_int n)"

definition postWebhook ::
  "notify_service \<Rightarrow> string \<Rightarrow> bytes \<Rightarrow> event \<Rightarrow> string \<Rightarrow> world \<Rightarrow> unit res \<times> world" where
  "postWebhook svc url secret e deliveryID w = (case ns_parse svc url of
       Inl _ \<Rightarrow> (Inl (PermanentError ''bad url''), w)
     | Inr _ \<Rightarrow>
         (case next_answer w of
            (Fails err, w1) \<Rightarrow> (Inl err, w1)
          | (Status n, w1) \<Rightarrow>
              (if n < 200 \<or> n \<ge> 300 then Inl (webhook_status_error n) else Inr (),
               w1\<lparr>w_posts := w_posts w1 @ [\<lparr>rq_url = url,
                 rq_headers = webhook_headers svc secret e deliveryID, rq_body = e\<rparr>]\<rparr>)))"

text \<open>The message smtpMailer.Send writes after DATA.\<close>

definition CRLF :: string where "CRLF = [CR, LF]"

definition mail_text :: "notify_service \<Rightarrow> string list \<Rightarrow> string \<Rightarrow> string \<Rightarrow> string" where
  "mail_text svc to subject body =
     ''From: '' @ sm_from (ns_smtp svc) @ CRLF @
     ''To: '' @ join '', '' to @ CRLF @
     ''Subject: '' @ subject @ CRLF @
     ''Date: '' @ ns_date svc @ CRLF @
     ''MIME-Version: 1.0'' @ CRLF @ ''Content-Type: text/plain; charset=utf-8'' @ CRLF @ CRLF @
     replacer [(LF, CRLF)] body"

definition send_mail ::
  "notify_service \<Rightarrow> string list \<Rightarrow> string \<Rightarrow> string \<Rightarrow> world \<Rightarrow> unit res \<times> world" where
  "send_mail svc to subject body w = (case next_answer w of
       (Fails err, w1) \<Rightarrow> (Inl err, w1)
     | (Status _, w1) \<Rightarrow> (Inr (), w1\<lparr>w_mails := w_mails w1 @
          [\<lparr>ml_to = to, ml_subject = subject, ml_body = mail_text svc to subject body\<rparr>]\<rparr>))"

definition send :: "notify_service \<Rightarrow> channel_row \<Rightarrow> event \<Rightarrow> string \<Rightarrow> world \<Rightarrow> unit res \<times> world" where
  "send svc ch e deliveryID w =
     (if ch_kind ch = ''webhook'' then
        (case (if ch_secret ch \<noteq> [] then ns_open svc (ch_secret ch) else Inr []) of
           Inl _ \<Rightarrow> (Inl (PermanentError ''cannot unseal webhook secret''), w)
         | Inr secret \<Rightarrow> postWebhook svc (ch_url ch) secret e deliveryID w)
      else if ch_kind ch = ''syslog'' then sendSyslog (ns_parse svc) (ns_render svc) (ch_url ch) e w
      else if ch_kind ch = ''email'' then
        (if \<not> Configured (ns_smtp svc) then (Inl (PermanentError errNoSMTP), w)
         else send_mail svc (ch_recipients ch) (''[FreeLocker] '' @ ev_title e) (formatEmailBody (ns_render svc) e) w)
      else (Inl (PermanentError (''unknown channel kind '' @ ch_kind ch)), w))"

definition deliver :: "notify_service \<Rightarrow> delivery_row \<Rightarrow> db \<times> world \<Rightarrow> unit res \<times> (db \<times> world)" where
  "deliver svc r s = (case GetChannel (dl_tenant r) (dl_channel r) (fst s) of
       (Inl err, d) \<Rightarrow> (Inl (if err = ErrNotFound then PermanentError ''channel was deleted'' else err), (d, snd s))
     | (Inr ch, d) \<Rightarrow>
         if \<not> ch_enabled ch then (Inl (PermanentError ''channel is disabled''), (d, snd s))
         else case dl_payload r of
                None \<Rightarrow> (Inl (PermanentError ''bad payload''), (d, snd s))
              | Some e \<Rightarrow> (let (res, w) = send svc ch e (show_nat (dl_id r)) (snd s) in (res, (d, w))))"

definition permanent :: "err \<Rightarrow> bool" where
  "permanent err = (case err of PermanentError _ \<Rightarrow> True | _ \<Rightarrow> False)"

text \<open>One turn of Dispatch's loop: sent and failed counters, database, network.\<close>

definition dispatch_one ::
  "notify_service \<Rightarrow> delivery_row \<Rightarrow> (nat \<times> nat) \<times> (db \<times> world) \<Rightarrow> (nat \<times> nat) \<times> (db \<times> world)" where
  "dispatch_one svc r cs =
     (let ((sent, failed), s) = cs; (res, (d, w)) = deliver svc r s; now = ns_now svc in
      case res of
        Inr _ \<Rightarrow> ((sent + 1, failed), (snd (FinishDelivery (dl_id r) DSent '''' 0 now d), w))
      | Inl err \<Rightarrow>
          (let (next, giveUp) = Backoff (dl_attempts r) in
           if giveUp \<or> permanent err
           then ((sent, failed + 1), (snd (FinishDelivery (dl_id r) DFailed (err_text err) 0 now d), w))
           else ((sent, failed), (snd (FinishDelivery (dl_id r) DPending (err_text err) (now + next) now d), w))))"

definition Dispatch :: "notify_service \<Rightarrow> db \<times> world \<Rightarrow> (nat \<times> nat) res \<times> (db \<times> world)" where
  "Dispatch svc s = (case ClaimDeliveries (ns_now svc) ClaimLease ClaimBatch (fst s) of
       (Inl err, d) \<Rightarrow> (Inl err, (d, snd s))
     | (Inr rows, d) \<Rightarrow> (let (n, s') = fold (dispatch_one svc) rows ((0, 0), (d, snd s)) in (Inr n, s')))"

text \<open>Test: a synthetic event through the channel, nothing recorded.\<close>

definition Test :: "notify_service \<Rightarrow> channel_row \<Rightarrow> world \<Rightarrow> unit res \<times> world" where
  "Test svc ch w = send svc ch
     \<lparr>ev_kind = ''notify.test'', ev_tenant = 0, ev_title = ''Test notification from FreeLocker'',
      ev_body = ''If you can read this, the channel '' @ quoted (ch_name ch) @ '' works.'',
      ev_detail = [(''channel'', DStr (ch_name ch))], ev_at = ns_now svc\<rparr> ''test'' w"

section \<open>The emitter contract\<close>

text \<open>
  Two databases that differ at most by pending deliveries appended for one tenant,
  numbered by the sequence.
\<close>

definition enqueued :: "uuid \<Rightarrow> db \<Rightarrow> db \<Rightarrow> bool" where
  "enqueued t d d' \<longleftrightarrow> (\<exists>new n fs.
      d' = d\<lparr>notification_deliveries := notification_deliveries d @ new, delivery_seq := n, faults := fs\<rparr> \<and>
      (\<forall>r \<in> set new. dl_tenant r = t \<and> dl_state r = DPending \<and> dl_attempts r = 0) \<and>
      map dl_id new = [delivery_seq d ..< delivery_seq d + length new] \<and> delivery_seq d + length new \<le> n)"

locale emitter =
  fixes emit :: "event \<Rightarrow> db \<Rightarrow> db"
  assumes emit_appends: "enqueued (ev_tenant e) d (emit e d)"
    and emit_faults: "faults d = [] \<Longrightarrow> faults (emit e d) = []"
begin

lemma emit_tables:
  "agent_rollouts (emit e d) = agent_rollouts d"
  "agent_rollout_devices (emit e d) = agent_rollout_devices d"
  "agent_releases (emit e d) = agent_releases d"
  "commands (emit e d) = commands d"
  "devices (emit e d) = devices d"
  "tenants (emit e d) = tenants d"
  "approval_requests (emit e d) = approval_requests d"
  "audit_log (emit e d) = audit_log d"
  "alerts (emit e d) = alerts d"
  "alert_rules (emit e d) = alert_rules d"
  "alert_breaches (emit e d) = alert_breaches d"
  "notification_channels (emit e d) = notification_channels d"
  "next_uuid (emit e d) = next_uuid d"
proof -
  obtain new n fs where
    "emit e d = d\<lparr>notification_deliveries := notification_deliveries d @ new, delivery_seq := n, faults := fs\<rparr>"
    using emit_appends [of e d] by (auto simp: enqueued_def)
  then show
    "agent_rollouts (emit e d) = agent_rollouts d"
    "agent_rollout_devices (emit e d) = agent_rollout_devices d"
    "agent_releases (emit e d) = agent_releases d"
    "commands (emit e d) = commands d"
    "devices (emit e d) = devices d"
    "tenants (emit e d) = tenants d"
    "approval_requests (emit e d) = approval_requests d"
    "audit_log (emit e d) = audit_log d"
    "alerts (emit e d) = alerts d"
    "alert_rules (emit e d) = alert_rules d"
    "alert_breaches (emit e d) = alert_breaches d"
    "notification_channels (emit e d) = notification_channels d"
    "next_uuid (emit e d) = next_uuid d"
    by simp_all
qed

lemma emit_other_tenant:
  "t \<noteq> ev_tenant e \<Longrightarrow>
     filter (\<lambda>r. dl_tenant r = t) (notification_deliveries (emit e d)) =
     filter (\<lambda>r. dl_tenant r = t) (notification_deliveries d)"
proof -
  assume t: "t \<noteq> ev_tenant e"
  obtain new n fs where
    "emit e d = d\<lparr>notification_deliveries := notification_deliveries d @ new, delivery_seq := n, faults := fs\<rparr>"
    "\<forall>r \<in> set new. dl_tenant r = ev_tenant e"
    using emit_appends [of e d] by (auto simp: enqueued_def)
  with t show ?thesis by (auto simp: filter_empty_conv)
qed

end

lemma enqueuedI:
  "d' = d\<lparr>notification_deliveries := notification_deliveries d @ new, delivery_seq := n, faults := fs\<rparr> \<Longrightarrow>
   (\<And>r. r \<in> set new \<Longrightarrow> dl_tenant r = t \<and> dl_state r = DPending \<and> dl_attempts r = 0) \<Longrightarrow>
   map dl_id new = [delivery_seq d ..< delivery_seq d + length new] \<Longrightarrow>
   delivery_seq d + length new \<le> n \<Longrightarrow> enqueued t d d'"
  by (auto simp: enqueued_def)

lemma enqueued_faults [simp]: "enqueued t d (d\<lparr>faults := fs\<rparr>)"
  by (rule enqueuedI [where new = "[]" and n = "delivery_seq d" and fs = fs]) simp_all

lemma enqueued_refl [simp]: "enqueued t d d"
  using enqueued_faults [of t d "faults d"] by simp

interpretation nop: emitter Nop
  by unfold_locales (simp_all add: Nop_def)

lemma new_delivery_fields [simp]:
  "dl_id (new_delivery cr t k p now i ch) = i" "dl_tenant (new_delivery cr t k p now i ch) = t"
  "dl_channel (new_delivery cr t k p now i ch) = ch" "dl_state (new_delivery cr t k p now i ch) = DPending"
  "dl_attempts (new_delivery cr t k p now i ch) = 0"
  by (simp_all add: new_delivery_def)

lemma enqueued_faults_left: "enqueued t (d\<lparr>faults := fs\<rparr>) d' \<Longrightarrow> enqueued t d d'"
  by (simp add: enqueued_def)

lemma enqueue_stmt_enqueued: "enqueued t d (snd (enqueue_stmt t chs k p now d))"
proof (cases "t \<in> tn_id ` set (tenants d) \<and> set chs \<subseteq> ch_id ` set (notification_channels d)")
  case True
  show ?thesis
    by (rule enqueuedI [where n = "delivery_seq d + length chs" and fs = "faults d" and
          new = "map (\<lambda>(i, ch). new_delivery (now_db d) t k p now i ch) (zip [delivery_seq d ..< delivery_seq d + length chs] chs)"])
       (use True in \<open>auto simp: enqueue_stmt_def Let_def split_beta comp_def\<close>)
next
  case False
  show ?thesis
    by (rule enqueuedI [where n = "delivery_seq d + length chs" and fs = "faults d" and new = "[]"])
       (use False in \<open>auto simp: enqueue_stmt_def Let_def\<close>)
qed

lemma EnqueueDeliveries_enqueued: "enqueued t d (snd (EnqueueDeliveries t chs k p now d))"
proof (cases "chs = []")
  case True
  then show ?thesis by (simp add: EnqueueDeliveries_def)
next
  case False
  then have "EnqueueDeliveries t chs k p now d = pool (enqueue_stmt t chs k p now) d"
    by (simp add: EnqueueDeliveries_def)
  moreover have "enqueued t d (snd (pool (enqueue_stmt t chs k p now) d))"
    by (rule pool_cases [of "enqueue_stmt t chs k p now" d])
       (auto intro: enqueued_faults_left enqueue_stmt_enqueued)
  ultimately show ?thesis by simp
qed

lemma ChannelsForEvent_db:
  "\<exists>fs. ChannelsForEvent t k d = (Inl ErrConn, d\<lparr>faults := fs\<rparr>) \<or>
        ChannelsForEvent t k d = (Inr (channels_for_event t k d), d\<lparr>faults := fs\<rparr>)"
  unfolding ChannelsForEvent_def
  by (rule pool_cases [of "\<lambda>d. (Inr (channels_for_event t k d), d)" d])
     (auto simp: channels_for_event_def)

lemma Emit_enqueued: "enqueued (ev_tenant e) d (Emit svc e d)"
proof -
  let ?e = "if ev_at e = 0 then e\<lparr>ev_at := ns_now svc\<rparr> else e"
  let ?t = "ev_tenant e" and ?chs = "channels_for_event (ev_tenant e) (ev_kind e) d"
  have e: "ev_tenant ?e = ?t" "ev_kind ?e = ev_kind e" by simp_all
  obtain fs where "ChannelsForEvent ?t (ev_kind e) d = (Inl ErrConn, d\<lparr>faults := fs\<rparr>) \<or>
      ChannelsForEvent ?t (ev_kind e) d = (Inr ?chs, d\<lparr>faults := fs\<rparr>)"
    using ChannelsForEvent_db by blast
  then have "Emit svc e d = d\<lparr>faults := fs\<rparr> \<or> Emit svc e d =
      snd (EnqueueDeliveries ?t (map ch_id ?chs) (ev_kind e) ?e (ns_now svc) (d\<lparr>faults := fs\<rparr>))"
    unfolding Emit_def Let_def e by auto
  then show ?thesis
    using EnqueueDeliveries_enqueued [of ?t "d\<lparr>faults := fs\<rparr>" "map ch_id ?chs" "ev_kind e" ?e "ns_now svc"]
    by (auto dest: enqueued_faults_left simp del: enqueued_faults intro: enqueued_faults)
qed

interpretation notifier: emitter "Emit svc" for svc
proof
  fix e :: event and d :: db
  show "enqueued (ev_tenant e) d (Emit svc e d)" by (rule Emit_enqueued)
  show "faults (Emit svc e d) = []" if "faults d = []"
    using that by (simp add: Emit_def ChannelsForEvent_def EnqueueDeliveries_def enqueue_stmt_def Let_def)
qed

section \<open>Claiming and finishing\<close>

definition delivery :: "db \<Rightarrow> nat \<Rightarrow> delivery_row option" where
  "delivery d i = find_row (\<lambda>r. dl_id r = i) (notification_deliveries d)"

definition leased :: "time \<Rightarrow> nat \<Rightarrow> time \<Rightarrow> db \<Rightarrow> delivery_row list" where
  "leased now limit until d =
     update_where (\<lambda>r. dl_id r \<in> set (claim_ids now limit d)) (claim_row until) (notification_deliveries d)"

lemma claim_row_fields [simp]:
  "dl_id (claim_row u r) = dl_id r" "dl_state (claim_row u r) = dl_state r"
  "dl_attempts (claim_row u r) = dl_attempts r + 1" "dl_next_attempt_at (claim_row u r) = u"
  "dl_tenant (claim_row u r) = dl_tenant r" "dl_channel (claim_row u r) = dl_channel r"
  "dl_payload (claim_row u r) = dl_payload r"
  by (simp_all add: claim_row_def)

lemma claim_ids_faults [simp]: "claim_ids now limit (d\<lparr>faults := fs\<rparr>) = claim_ids now limit d"
  by (simp add: claim_ids_def)

lemma leased_faults [simp]: "leased now limit u (d\<lparr>faults := fs\<rparr>) = leased now limit u d"
  by (simp add: leased_def)

lemma leased_none: "claim_ids now limit d = [] \<Longrightarrow> leased now limit u d = notification_deliveries d"
  by (simp add: leased_def update_where_none)

lemma claim_ids_due:
  "i \<in> set (claim_ids now limit d) \<Longrightarrow> \<exists>r \<in> set (notification_deliveries d). dl_id r = i \<and> due now r"
  by (auto simp: claim_ids_def dest!: in_set_takeD)

definition claimed :: "time \<Rightarrow> nat \<Rightarrow> time \<Rightarrow> db \<Rightarrow> delivery_row list" where
  "claimed now limit until d =
     sort_key dl_id (filter (\<lambda>r. dl_id r \<in> set (claim_ids now limit d)) (leased now limit until d))"

text \<open>
  The three outcomes of a claim: the transaction failed and nothing is leased; it
  committed but reading the rows back failed; or the leased rows are returned.
\<close>

lemma claim_cases:
  obtains (none) err fs u where
      "ClaimDeliveries now lease limit d = (Inl err, d\<lparr>faults := fs, next_uuid := u\<rparr>)"
  | (lost) fs where "ClaimDeliveries now lease limit d =
      (Inl ErrConn, d\<lparr>faults := fs, notification_deliveries := leased now limit (now + lease) d\<rparr>)"
  | (got) fs where "ClaimDeliveries now lease limit d =
      (Inr (claimed now limit (now + lease) d),
       d\<lparr>faults := fs, notification_deliveries := leased now limit (now + lease) d\<rparr>)"
proof -
  let ?ids = "claim_ids now limit d" and ?d = "\<lambda>fs. d\<lparr>faults := fs, notification_deliveries := leased now limit (now + lease) d\<rparr>"
  show thesis
  proof (cases "pool (claim_stmt now lease limit)" d rule: tx_cases)
    case (rollback e fs u)
    then show thesis by (intro none) (simp add: ClaimDeliveries_def)
  next
    case (commit fs ids d' fs')
    have "ids = ?ids \<and> (\<exists>fs. d' = ?d fs)"
      by (rule pool_cases [of "claim_stmt now lease limit" "d\<lparr>faults := fs\<rparr>"])
         (use commit(1) in \<open>auto simp: claim_stmt_def leased_def Let_def\<close>)
    with commit(2) have t: "tx (pool (claim_stmt now lease limit)) d = (Inr ?ids, ?d fs')" by auto
    show thesis
    proof (cases "?ids = []")
      case True
      with t show thesis by (intro got [of fs']) (simp add: ClaimDeliveries_def claimed_def)
    next
      case False
      with t have C: "ClaimDeliveries now lease limit d = pool (claim_select ?ids) (?d fs')"
        by (simp add: ClaimDeliveries_def)
      show thesis
      proof (rule pool_cases [of "claim_select ?ids" "?d fs'"])
        fix rest assume "pool (claim_select ?ids) (?d fs') = (Inl ErrConn, (?d fs')\<lparr>faults := rest\<rparr>)"
        then show thesis by (intro lost [of rest]) (simp add: C)
      next
        fix rest assume "pool (claim_select ?ids) (?d fs') = claim_select ?ids ((?d fs')\<lparr>faults := rest\<rparr>)"
        then show thesis by (intro got [of rest]) (simp add: C claimed_def claim_select_def)
      qed
    qed
  qed
qed

lemma leased_ids: "map dl_id (leased now limit u d) = map dl_id (notification_deliveries d)"
  by (simp add: leased_def map_update_where_inv)

lemma claimed_set:
  "set (claimed now limit u d) =
     claim_row u ` {r \<in> set (notification_deliveries d). dl_id r \<in> set (claim_ids now limit d)}"
  by (auto simp: claimed_def leased_def set_update_where split: if_splits)

lemma claimed_distinct:
  "distinct (map dl_id (notification_deliveries d)) \<Longrightarrow> distinct (map dl_id (claimed now limit u d))"
  unfolding claimed_def
  by (subst mset_eq_imp_distinct_iff [of _ "map dl_id (filter (\<lambda>r. dl_id r \<in> set (claim_ids now limit d)) (leased now limit u d))"])
     (auto simp: distinct_map_filter leased_ids)

lemma FinishDelivery_ids [simp]:
  "map dl_id (notification_deliveries (snd (FinishDelivery i st e n now d))) = map dl_id (notification_deliveries d)"
  unfolding FinishDelivery_def pool_def
  by (auto simp: Let_def map_update_where_inv split: list.splits)

lemma FinishDelivery_other:
  "j \<noteq> i \<Longrightarrow> delivery (snd (FinishDelivery i st e n now d)) j = delivery d j"
  unfolding FinishDelivery_def pool_def delivery_def
  by (auto simp: Let_def split: list.splits intro!: find_row_update_where_other)

lemma GetChannel_db: "\<exists>fs. snd (GetChannel t i d) = d\<lparr>faults := fs\<rparr>"
  unfolding GetChannel_def
  by (rule pool_cases [of "\<lambda>d. (case find_row (\<lambda>c. ch_tenant c = t \<and> ch_id c = i) (notification_channels d) of
        None \<Rightarrow> Inl ErrNotFound | Some c \<Rightarrow> Inr c, d)" d]) auto

lemma deliver_db: "\<exists>fs. fst (snd (deliver svc r s)) = (fst s)\<lparr>faults := fs\<rparr>"
proof -
  obtain g d where g: "GetChannel (dl_tenant r) (dl_channel r) (fst s) = (g, d)" by fastforce
  with GetChannel_db [of "dl_tenant r" "dl_channel r" "fst s"] have "\<exists>fs. d = (fst s)\<lparr>faults := fs\<rparr>" by simp
  then show ?thesis
    by (auto simp: deliver_def g split: sum.splits option.splits prod.splits)
qed

text \<open>
  A turn of the dispatcher ends in one FinishDelivery of the claimed row; a retry is
  only scheduled below the attempt limit and strictly in the future.
\<close>

lemma Backoff_retry: "Backoff n = (b, False) \<Longrightarrow> n < MaxAttempts \<and> 0 < b"
  by (auto simp: Backoff_def split: if_splits)

definition finish_plan :: "notify_service \<Rightarrow> delivery_row \<Rightarrow> delivery_state \<Rightarrow> time \<Rightarrow> bool" where
  "finish_plan svc r st n \<longleftrightarrow>
     (if st = DPending then dl_attempts r < MaxAttempts \<and> ns_now svc < n else n = 0)"

lemma dispatch_one_finish:
  "\<exists>st e n fs. fst (snd (dispatch_one svc r (cs, s))) =
       snd (FinishDelivery (dl_id r) st e n (ns_now svc) ((fst s)\<lparr>faults := fs\<rparr>)) \<and> finish_plan svc r st n"
proof -
  obtain res d w where del: "deliver svc r s = (res, (d, w))" by (metis surj_pair)
  obtain fs where d: "d = (fst s)\<lparr>faults := fs\<rparr>" using deliver_db [of svc r s] del by auto
  obtain b g where B: "Backoff (dl_attempts r) = (b, g)" by fastforce
  have retry: "finish_plan svc r DPending (ns_now svc + b)" if "\<not> g"
    using Backoff_retry [of "dl_attempts r" b] B that by (simp add: finish_plan_def)
  have final: "finish_plan svc r DSent 0" "finish_plan svc r DFailed 0" by (simp_all add: finish_plan_def)
  show ?thesis
  proof (cases res)
    case (Inr u)
    with final show ?thesis by (cases cs) (fastforce simp: dispatch_one_def del d Let_def)
  next
    case (Inl err)
    show ?thesis
    proof (cases "g \<or> permanent err")
      case True
      with Inl final show ?thesis
        by (cases cs) (fastforce simp: dispatch_one_def del d Let_def B)
    next
      case False
      with Inl retry show ?thesis
        by (cases cs) (fastforce simp: dispatch_one_def del d Let_def B)
    qed
  qed
qed

lemma dispatch_one_other:
  "j \<noteq> dl_id r \<Longrightarrow> delivery (fst (snd (dispatch_one svc r cs))) j = delivery (fst (snd cs)) j"
  using dispatch_one_finish [of svc r "fst cs" "snd cs"]
  by (auto simp: FinishDelivery_other) (simp add: delivery_def)

lemma dispatch_one_ids [simp]:
  "map dl_id (notification_deliveries (fst (snd (dispatch_one svc r cs)))) =
   map dl_id (notification_deliveries (fst (snd cs)))"
  using dispatch_one_finish [of svc r "fst cs" "snd cs"] by auto

lemma dispatch_fold_other:
  "j \<notin> dl_id ` set rs \<Longrightarrow>
     delivery (fst (snd (fold (dispatch_one svc) rs cs))) j = delivery (fst (snd cs)) j"
  by (induction rs arbitrary: cs) (auto simp: dispatch_one_other)

lemma dispatch_fold_ids [simp]:
  "map dl_id (notification_deliveries (fst (snd (fold (dispatch_one svc) rs cs)))) =
   map dl_id (notification_deliveries (fst (snd cs)))"
  by (induction rs arbitrary: cs) auto

section \<open>The life of a delivery\<close>

definition outbox_ok :: "db \<Rightarrow> bool" where
  "outbox_ok d \<longleftrightarrow> distinct (map dl_id (notification_deliveries d)) \<and>
     (\<forall>i \<in> set (map dl_id (notification_deliveries d)). i < delivery_seq d)"

definition delivery_status :: "db \<Rightarrow> nat \<Rightarrow> delivery_state option" where
  "delivery_status d i = map_option dl_state (delivery d i)"

definition delivery_edge :: "delivery_state \<Rightarrow> delivery_state \<Rightarrow> bool" where
  "delivery_edge s s' \<longleftrightarrow> s = DPending \<and> s' \<in> {DSent, DFailed}"

text \<open>What the running server does to the outbox: producers emit, the dispatcher drains.\<close>

inductive_set outbox_ops :: "(db \<Rightarrow> db) set" where
  emitted: "Emit svc e \<in> outbox_ops"
| dispatched: "(\<lambda>d. fst (snd (Dispatch svc (d, w)))) \<in> outbox_ops"

lemma outbox_ok_ids:
  assumes "map dl_id (notification_deliveries d') = map dl_id (notification_deliveries d)"
    and "delivery_seq d' = delivery_seq d"
  shows "outbox_ok d' = outbox_ok d"
  unfolding outbox_ok_def assms by (simp del: set_map)

lemma outbox_ok_enqueued:
  assumes "enqueued t d d'" and "outbox_ok d"
  shows "outbox_ok d'" and "delivery d i = Some r \<Longrightarrow> delivery d' i = Some r"
proof -
  from assms(1) obtain new n fs where
    d': "d' = d\<lparr>notification_deliveries := notification_deliveries d @ new, delivery_seq := n, faults := fs\<rparr>"
    and ids: "map dl_id new = [delivery_seq d ..< delivery_seq d + length new]"
    and n: "delivery_seq d + length new \<le> n"
    by (auto simp: enqueued_def)
  have new: "delivery_seq d \<le> dl_id r \<and> dl_id r < delivery_seq d + length new" if "r \<in> set new" for r
  proof -
    have "dl_id r \<in> set (map dl_id new)" using that by simp
    then show ?thesis unfolding ids by simp
  qed
  have "distinct (map dl_id new)" unfolding ids by simp
  with assms(2) new n show "outbox_ok d'"
    by (fastforce simp: outbox_ok_def d')
  show "delivery d' i = Some r" if "delivery d i = Some r"
    using that by (simp add: delivery_def d' find_row_append)
qed

lemma Dispatch_fields:
  "map dl_id (notification_deliveries (fst (snd (Dispatch svc s)))) = map dl_id (notification_deliveries (fst s))"
  "i \<notin> set (claim_ids (ns_now svc) ClaimBatch (fst s)) \<Longrightarrow>
     delivery (fst (snd (Dispatch svc s))) i = delivery (fst s) i"
proof -
  let ?d = "fst s" and ?now = "ns_now svc"
  let ?u = "?now + ClaimLease"
  let ?rows = "claimed ?now ClaimBatch ?u ?d"
  have other: "delivery (d\<lparr>faults := fs, notification_deliveries := leased ?now ClaimBatch ?u d\<rparr>) i = delivery d i"
    if "i \<notin> set (claim_ids ?now ClaimBatch d)" for d fs i
    using that unfolding delivery_def leased_def by (auto intro!: find_row_update_where_other)
  have ids: "dl_id ` set ?rows = set (claim_ids ?now ClaimBatch ?d)"
    using claim_ids_due [of _ ?now ClaimBatch ?d] by (force simp: claimed_set image_iff)
  show "map dl_id (notification_deliveries (fst (snd (Dispatch svc s)))) = map dl_id (notification_deliveries ?d)"
    by (rule claim_cases [of ?now ClaimLease ClaimBatch ?d]) (simp_all add: Dispatch_def leased_ids split_beta)
  assume i: "i \<notin> set (claim_ids ?now ClaimBatch ?d)"
  then have i': "i \<notin> dl_id ` set ?rows" by (simp only: ids not_False_eq_True)
  show "delivery (fst (snd (Dispatch svc s))) i = delivery ?d i"
  proof (cases ?now ClaimLease ClaimBatch ?d rule: claim_cases)
    case (none err fs u)
    then show ?thesis by (simp add: Dispatch_def delivery_def)
  next
    case (lost fs)
    then show ?thesis using other [OF i] by (simp add: Dispatch_def)
  next
    case (got fs)
    then show ?thesis using other [OF i] by (simp add: Dispatch_def split_beta dispatch_fold_other [OF i'])
  qed
qed

lemma FinishDelivery_seq [simp]: "delivery_seq (snd (FinishDelivery i st e n now d)) = delivery_seq d"
  unfolding FinishDelivery_def pool_def by (auto simp: Let_def split: list.splits)

lemma dispatch_fold_seq [simp]:
  "delivery_seq (fst (snd (fold (dispatch_one svc) rs cs))) = delivery_seq (fst (snd cs))"
proof (induction rs arbitrary: cs)
  case (Cons r rs)
  obtain st e n fs where "fst (snd (dispatch_one svc r (fst cs, snd cs))) =
     snd (FinishDelivery (dl_id r) st e n (ns_now svc) ((fst (snd cs))\<lparr>faults := fs\<rparr>))"
    using dispatch_one_finish by blast
  with Cons show ?case by simp
qed simp

lemma Dispatch_seq: "delivery_seq (fst (snd (Dispatch svc s))) = delivery_seq (fst s)"
  by (rule claim_cases [of "ns_now svc" ClaimLease ClaimBatch "fst s"])
     (simp_all add: Dispatch_def split_beta)

interpretation delivery_life: lifecycle_inv delivery_status outbox_ok outbox_ops delivery_edge
proof
  fix f d i s
  assume "f \<in> outbox_ops" and ok: "outbox_ok d" and st: "delivery_status d i = Some s"
  then show "\<exists>s'. delivery_status (f d) i = Some s' \<and> (s' = s \<or> delivery_edge s s')"
  proof cases
    case (emitted svc e)
    with st outbox_ok_enqueued(2) [OF Emit_enqueued ok] show ?thesis
      by (fastforce simp: delivery_status_def)
  next
    case (dispatched svc w)
    let ?d' = "fst (snd (Dispatch svc (d, w)))"
    show ?thesis
    proof (cases "i \<in> set (claim_ids (ns_now svc) ClaimBatch d)")
      case False
      with st dispatched Dispatch_fields(2) [of i svc "(d, w)"] show ?thesis
        by (intro exI [of _ s]) (simp add: delivery_status_def)
    next
      case True
      then obtain r where r: "r \<in> set (notification_deliveries d)" "dl_id r = i" "dl_state r = DPending"
        using claim_ids_due by (fastforce simp: due_def)
      then have "delivery d i = Some r"
        using ok by (auto simp: delivery_def outbox_ok_def intro: find_row_unique)
      with st r have s: "s = DPending" by (simp add: delivery_status_def)
      have "i \<in> set (map dl_id (notification_deliveries ?d'))"
        using r by (auto simp: Dispatch_fields(1))
      then obtain r' where "delivery ?d' i = Some r'"
        by (cases "delivery ?d' i") (auto simp: delivery_def find_row_None)
      then show ?thesis
        using s by (cases "dl_state r'") (auto simp: dispatched delivery_status_def delivery_edge_def)
    qed
  qed
next
  fix f d assume "f \<in> outbox_ops" and ok: "outbox_ok d"
  then show "outbox_ok (f d)"
    by cases (use ok outbox_ok_enqueued(1) [OF Emit_enqueued]
      outbox_ok_ids [OF Dispatch_fields(1) Dispatch_seq] in auto)
qed

text \<open>
  A finished notification stays finished. Once a delivery is recorded as sent or
  failed, no later emit and no later run of the dispatcher changes that, whatever the
  network answers and whatever database statements fail: no notification is sent again
  after it was recorded as sent.
\<close>

theorem delivery_terminal_forever:
  assumes "set fs \<subseteq> outbox_ops" and "outbox_ok d" and "delivery_status d i = Some s"
    and "s = DSent \<or> s = DFailed"
  shows "delivery_status (fold (\<lambda>f. f) fs d) i = Some s"
  using assms(4) by (intro delivery_life.terminal_forever [OF assms(1-3)]) (auto simp: delivery_edge_def)

definition demo_channel :: channel_row where
  "demo_channel = \<lparr>ch_id = 3, ch_tenant = 7, ch_kind = ''webhook'', ch_name = ''ops'',
     ch_events = [''alert.raised''], ch_enabled = True, ch_recipients = [], ch_url = ''https://h'', ch_secret = [],
     ch_created_at = 0, ch_updated_at = 0\<rparr>"

definition demo_notify :: notify_service where
  "demo_notify = \<lparr>ns_now = 100, ns_open = Inr, ns_hmac = (\<lambda>k e. k), ns_date = ''now'',
     ns_smtp = \<lparr>sm_host = [], sm_from = []\<rparr>, ns_parse = demo_url, ns_render = demo_render\<rparr>"

definition demo_outbox :: "delivery_state \<Rightarrow> int \<Rightarrow> db" where
  "demo_outbox st n = empty_db\<lparr>tenants := [\<lparr>tn_id = 7, tn_name = ''acme'', tn_suspended = False\<rparr>],
     notification_channels := [demo_channel],
     notification_deliveries := [(new_delivery 0 7 ''alert.raised'' demo_event 50 2 3)\<lparr>dl_state := st, dl_attempts := n\<rparr>],
     delivery_seq := 3\<rparr>"

theorem delivery_terminal_forever_witness:
  "delivery_status (Emit demo_notify demo_event
     (fst (snd (Dispatch demo_notify (demo_outbox DSent 2, demo_world))))) 2 = Some DSent"
proof -
  let ?fs = "[\<lambda>d. fst (snd (Dispatch demo_notify (d, demo_world))), Emit demo_notify demo_event]"
  have "set ?fs \<subseteq> outbox_ops" by (auto intro: outbox_ops.intros)
  moreover have "outbox_ok (demo_outbox DSent 2)" "delivery_status (demo_outbox DSent 2) 2 = Some DSent"
    by (simp_all add: outbox_ok_def demo_outbox_def delivery_status_def delivery_def new_delivery_def)
  ultimately show ?thesis
    using delivery_terminal_forever [of ?fs "demo_outbox DSent 2" 2 DSent] by simp
qed

text \<open>
  A claimed notification is not claimed again during its lease. Two claims, by the
  same or by different server instances, whose instants are less than the lease apart
  never return the same delivery, whatever the order and size of the batches and
  however many statements fail.
\<close>

theorem claim_exclusive:
  assumes "ClaimDeliveries now lease limit d = (Inr rows, d1)"
    and "ClaimDeliveries now' lease' limit' d1 = (Inr rows', d2)" and "now' < now + lease"
  shows "dl_id ` set rows \<inter> dl_id ` set rows' = {}"
proof -
  have rows: "rows = claimed now limit (now + lease) d \<and>
      notification_deliveries d1 = leased now limit (now + lease) d"
    by (rule claim_cases [of now lease limit d]) (use assms(1) in auto)
  have rows': "rows' = claimed now' limit' (now' + lease') d1"
    by (rule claim_cases [of now' lease' limit' d1]) (use assms(2) in auto)
  have False if i: "i \<in> dl_id ` set rows" "i \<in> dl_id ` set rows'" for i
  proof -
    from i(1) rows have "i \<in> set (claim_ids now limit d)" by (auto simp: claimed_set)
    moreover from i(2) rows' have "i \<in> set (claim_ids now' limit' d1)" by (auto simp: claimed_set)
    then obtain r where "r \<in> set (leased now limit (now + lease) d)" "dl_id r = i" "due now' r"
      using claim_ids_due [of i now' limit' d1] rows by auto
    ultimately show False using assms(3) by (auto simp: leased_def due_def dest!: in_update_where)
  qed
  then show ?thesis by blast
qed

theorem claim_exclusive_witness:
  "\<exists>rows d1 rows' d2. ClaimDeliveries 100 60 10 (demo_outbox DPending 0) = (Inr rows, d1) \<and>
     ClaimDeliveries 120 60 10 d1 = (Inr rows', d2) \<and> dl_id ` set rows \<inter> dl_id ` set rows' = {}"
proof -
  have nofault: "faults (snd (ClaimDeliveries n l m d)) = [] \<and> (\<exists>rows. fst (ClaimDeliveries n l m d) = Inr rows)"
    if "faults d = []" for n l m d
    using that by (simp add: ClaimDeliveries_def tx_def claim_stmt_def claim_select_def Let_def)
  have "faults (demo_outbox DPending 0) = []" by (simp add: demo_outbox_def)
  from nofault [OF this, of 100 60 10] obtain rows d1
    where c: "ClaimDeliveries 100 60 10 (demo_outbox DPending 0) = (Inr rows, d1)" "faults d1 = []"
    by (metis prod.collapse)
  from nofault [OF c(2), of 120 60 10] obtain rows' d2
    where c': "ClaimDeliveries 120 60 10 d1 = (Inr rows', d2)"
    by (metis prod.collapse)
  from claim_exclusive [OF c(1) c'] c(1) c' show ?thesis by auto
qed

section \<open>Draining the outbox ends\<close>

text \<open>
  The inner loop of Run, at one instant: dispatch batches until one sends nothing and
  fails nothing, or the claim itself fails. Not returning is the value None.
\<close>

partial_function (option) drain :: "notify_service \<Rightarrow> db \<times> world \<Rightarrow> (db \<times> world) option" where
  "drain svc s = (case Dispatch svc s of
       (Inl err, s') \<Rightarrow> Some s'
     | (Inr n, s') \<Rightarrow> if fst n + snd n = 0 then Some s' else drain svc s')"

definition due_ids :: "time \<Rightarrow> db \<Rightarrow> nat set" where
  "due_ids now d = dl_id ` set (filter (due now) (notification_deliveries d))"

lemma FinishDelivery_rows:
  "notification_deliveries (snd (FinishDelivery i st e n now d)) = notification_deliveries d \<or>
   notification_deliveries (snd (FinishDelivery i st e n now d)) =
     update_where (\<lambda>r. dl_id r = i) (\<lambda>r. r\<lparr>dl_state := st, dl_last_error := trim_error e,
        dl_next_attempt_at := (if n = 0 then now else n), dl_sent_at := (if st = DSent then Some now else None)\<rparr>)
       (notification_deliveries d)"
  unfolding FinishDelivery_def pool_def by (auto simp: Let_def split: list.splits)

lemma dispatch_one_not_due:
  assumes "0 < ns_now svc"
    and "\<forall>x \<in> set (notification_deliveries (fst (snd cs))). dl_id x \<in> I \<longrightarrow> \<not> due (ns_now svc) x"
  shows "\<forall>x \<in> set (notification_deliveries (fst (snd (dispatch_one svc r cs)))). dl_id x \<in> I \<longrightarrow> \<not> due (ns_now svc) x"
proof -
  obtain st e n fs where f: "fst (snd (dispatch_one svc r cs)) =
      snd (FinishDelivery (dl_id r) st e n (ns_now svc) ((fst (snd cs))\<lparr>faults := fs\<rparr>))"
    and plan: "finish_plan svc r st n"
    using dispatch_one_finish [of svc r "fst cs" "snd cs"] by auto
  have "\<not> (st = DPending \<and> (if n = 0 then ns_now svc else n) \<le> ns_now svc)"
    using plan assms(1) by (auto simp: finish_plan_def split: if_splits)
  then show ?thesis
    using FinishDelivery_rows [of "dl_id r" st e n "ns_now svc" "(fst (snd cs))\<lparr>faults := fs\<rparr>"] assms(2)
    unfolding f by (fastforce simp: due_def dest: in_update_where)
qed

lemma dispatch_fold_not_due:
  assumes "0 < ns_now svc"
    and "\<forall>x \<in> set (notification_deliveries (fst (snd cs))). dl_id x \<in> I \<longrightarrow> \<not> due (ns_now svc) x"
  shows "\<forall>x \<in> set (notification_deliveries (fst (snd (fold (dispatch_one svc) rs cs)))).
           dl_id x \<in> I \<longrightarrow> \<not> due (ns_now svc) x"
  using assms(2)
proof (induction rs arbitrary: cs)
  case (Cons r rs)
  from Cons.IH [OF dispatch_one_not_due [OF assms(1) Cons.prems]] show ?case by simp
qed simp

lemma due_ids_delivery:
  assumes "\<forall>x \<in> set (notification_deliveries d). dl_id x \<in> I \<longrightarrow> \<not> due now x"
    and "outbox_ok d" "outbox_ok d0"
    and "\<And>i. i \<notin> I \<Longrightarrow> delivery d i = delivery d0 i"
  shows "due_ids now d \<subseteq> due_ids now d0 - I"
proof
  fix i assume "i \<in> due_ids now d"
  then obtain x where x: "x \<in> set (notification_deliveries d)" "dl_id x = i" "due now x"
    by (auto simp: due_ids_def)
  with assms(1) have "i \<notin> I" by blast
  moreover have "delivery d i = Some x"
    using x assms(2) by (auto simp: delivery_def outbox_ok_def intro: find_row_unique)
  ultimately have "delivery d0 i = Some x" using assms(4) by simp
  then have "x \<in> set (notification_deliveries d0)"
    by (auto simp: delivery_def dest: find_row_Some)
  with x \<open>i \<notin> I\<close> show "i \<in> due_ids now d0 - I" by (auto simp: due_ids_def)
qed

lemma Dispatch_progress:
  assumes "0 < ns_now svc" and "outbox_ok (fst s)" and "Dispatch svc s = (Inr n, s')" and "fst n + snd n \<noteq> 0"
  shows "due_ids (ns_now svc) (fst s') \<subset> due_ids (ns_now svc) (fst s)"
proof -
  let ?now = "ns_now svc"
  let ?u = "?now + ClaimLease" and ?ids = "claim_ids (ns_now svc) ClaimBatch (fst s)"
  have "\<exists>fs. ClaimDeliveries ?now ClaimLease ClaimBatch (fst s) = (Inr (claimed ?now ClaimBatch ?u (fst s)),
      (fst s)\<lparr>faults := fs, notification_deliveries := leased ?now ClaimBatch ?u (fst s)\<rparr>)"
    by (rule claim_cases [of ?now ClaimLease ClaimBatch "fst s"]) (use assms(3) in \<open>auto simp: Dispatch_def\<close>)
  then obtain fs where C: "ClaimDeliveries ?now ClaimLease ClaimBatch (fst s) = (Inr (claimed ?now ClaimBatch ?u (fst s)),
      (fst s)\<lparr>faults := fs, notification_deliveries := leased ?now ClaimBatch ?u (fst s)\<rparr>)" by blast
  let ?rows = "claimed ?now ClaimBatch ?u (fst s)"
  let ?cs = "((0, 0), ((fst s)\<lparr>faults := fs, notification_deliveries := leased ?now ClaimBatch ?u (fst s)\<rparr>, snd s)) ::
      (nat \<times> nat) \<times> (db \<times> world)"
  from assms(3) have F: "fold (dispatch_one svc) ?rows ?cs = (n, s')"
    by (auto simp: Dispatch_def C split: prod.splits)
  have "0 < ClaimLease" by (simp add: ClaimLease_def)
  then have "\<forall>x \<in> set (notification_deliveries (fst (snd ?cs))). dl_id x \<in> set ?ids \<longrightarrow> \<not> due ?now x"
    by (auto simp: leased_def due_def dest!: in_update_where)
  from dispatch_fold_not_due [OF assms(1) this, of ?rows]
  have nd: "\<forall>x \<in> set (notification_deliveries (fst s')). dl_id x \<in> set ?ids \<longrightarrow> \<not> due ?now x"
    by (simp add: F)
  have ok: "outbox_ok (fst s')"
    using outbox_ok_ids [OF Dispatch_fields(1) Dispatch_seq, of svc s] assms(2,3) by simp
  have "due_ids ?now (fst s') \<subseteq> due_ids ?now (fst s) - set ?ids"
    by (rule due_ids_delivery [OF nd ok assms(2)]) (use Dispatch_fields(2) [of _ svc s] assms(3) in simp)
  moreover have "?ids \<noteq> []"
  proof
    assume "?ids = []"
    then have "?rows = []" by (simp add: claimed_def)
    with F assms(4) show False by auto
  qed
  moreover have "set ?ids \<subseteq> due_ids ?now (fst s)"
    using claim_ids_due by (fastforce simp: due_ids_def)
  ultimately show ?thesis by (metis Diff_disjoint inf.absorb_iff2 inf.orderE psubsetI set_empty subset_Diff_insert subset_empty Diff_subset order_trans)
qed



section \<open>At most five attempts\<close>

text \<open>An error whose text the delivery row can store.\<close>

definition storable :: "err \<Rightarrow> bool" where
  "storable err \<longleftrightarrow> pg_text (trim_error (err_text err))"

definition clean_answers :: "world \<Rightarrow> bool" where
  "clean_answers w \<longleftrightarrow> (\<forall>err. Fails err \<in> set (w_answers w) \<longrightarrow> storable err)"

definition kinds_checked :: "db \<Rightarrow> bool" where
  "kinds_checked d \<longleftrightarrow> (\<forall>c \<in> set (notification_channels d). channel_kind_check (ch_kind c))"

definition ascii :: "string \<Rightarrow> bool" where
  "ascii s \<longleftrightarrow> list_all (\<lambda>c. 0 < byte c \<and> byte c < 128) s"

lemma ascii_valid: "ascii s \<Longrightarrow> valid_utf8 s"
proof (induction s)
  case Nil
  then show ?case by (simp add: valid_utf8.simps [of "[]"])
next
  case (Cons c s)
  then have "rune_len (c # s) = 1"
    by (simp add: rune_len_def rune_need_def rune_ok_def ascii_def)
  with Cons show ?case by (simp add: valid_utf8.simps [of "c # s"] ascii_def)
qed

lemma ascii_trim: "ascii s \<Longrightarrow> pg_text (trim_error s)"
proof -
  assume s: "ascii s"
  have zero: "\<not> 0 < byte (CHR 0x00)" by (simp add: byte_def)
  have "CHR 0x00 \<notin> set s" using s zero by (auto simp: ascii_def list_all_iff)
  moreover have "set (ToValidUTF8 (take 500 s)) \<subseteq> set s"
    using ToValidUTF8_set [of "take 500 s"] set_take_subset [of 500 s] by blast
  ultimately show ?thesis
    using s by (auto simp: trim_error_def pg_text_def ascii_valid ToValidUTF8_valid)
qed

lemma ascii_storable: "ascii (err_text err) \<Longrightarrow> storable err"
  by (simp add: storable_def ascii_trim)

lemma ascii_append [simp]: "ascii (s @ t) \<longleftrightarrow> ascii s \<and> ascii t"
  by (simp add: ascii_def)

lemma ascii_show_int: "ascii (show_int n)"
proof -
  have "0 < byte c \<and> byte c < 128" if "is_digit c \<or> c = CHR ''-''" for c
    using that by (auto simp: is_digit_def byte_def)
  then show ?thesis using show_int_chars by (auto simp: ascii_def list_all_iff)
qed

lemma next_answer_clean:
  assumes "clean_answers w" and "next_answer w = (a, w')"
  shows "clean_answers w'" and "a = Fails err \<Longrightarrow> storable err"
  using assms by (auto simp: next_answer_def clean_answers_def split: list.splits)

lemma storable_literals:
  "storable (PermanentError ''bad url'')" "storable (PermanentError ''cannot unseal webhook secret'')"
  "storable (PermanentError errNoSMTP)" "storable (PermanentError ''channel was deleted'')"
  "storable (PermanentError ''channel is disabled'')" "storable (PermanentError ''bad payload'')"
  by (rule ascii_storable; simp add: ascii_def byte_def errNoSMTP_def)+

lemma storable_status: "storable (webhook_status_error n)"
proof (rule ascii_storable)
  have "ascii ''webhook returned ''" by (simp add: ascii_def byte_def)
  then show "ascii (err_text (webhook_status_error n))"
    by (simp only: webhook_status_error_def err_text.simps ascii_append ascii_show_int simp_thms)
qed

lemma send_clean:
  assumes "channel_kind_check (ch_kind ch)" and "clean_answers w" and "send svc ch e i w = (res, w')"
  shows "clean_answers w' \<and> (\<forall>err. res = Inl err \<longrightarrow> storable err)"
proof -
  obtain a w1 where a: "next_answer w = (a, w1)" by fastforce
  note clean = next_answer_clean [OF assms(2) a]
  have logs: "clean_answers (w1\<lparr>w_posts := p\<rparr>) = clean_answers w1"
    "clean_answers (w1\<lparr>w_mails := m\<rparr>) = clean_answers w1" for p m
    by (simp_all add: clean_answers_def)
  show ?thesis
  proof (cases a)
    case (Fails err)
    with assms clean show ?thesis
      by (auto simp: send_def channel_kind_check_def postWebhook_def send_mail_def a storable_literals split: sum.splits if_splits)
  next
    case (Status n)
    with assms clean show ?thesis
      by (auto simp: send_def channel_kind_check_def postWebhook_def send_mail_def a logs storable_literals
          storable_status split: sum.splits if_splits)
  qed
qed

lemma deliver_clean:
  assumes "kinds_checked d" and "faults d = []" and "clean_answers w" and "deliver svc r (d, w) = (res, (d', w'))"
  shows "d' = d \<and> clean_answers w' \<and> (\<forall>err. res = Inl err \<longrightarrow> storable err)"
proof (cases "find_row (\<lambda>c. ch_tenant c = dl_tenant r \<and> ch_id c = dl_channel r) (notification_channels d)")
  case None
  with assms show ?thesis by (auto simp: deliver_def GetChannel_def storable_literals)
next
  case (Some ch)
  then have "channel_kind_check (ch_kind ch)"
    using assms(1) by (auto simp: kinds_checked_def dest: find_row_Some)
  from send_clean [OF this assms(3)] Some assms show ?thesis
    by (auto simp: deliver_def GetChannel_def storable_literals split: if_splits option.splits prod.splits)
qed

text \<open>With storable errors and no lost connection, a turn records exactly its plan.\<close>

lemma dispatch_one_clean:
  assumes "kinds_checked d" and "faults d = []" and "clean_answers w"
  shows "\<exists>cs' st f w'. dispatch_one svc r (cs, (d, w)) =
      (cs', (d\<lparr>notification_deliveries := update_where (\<lambda>x. dl_id x = dl_id r) f (notification_deliveries d)\<rparr>, w')) \<and>
      clean_answers w' \<and> (dl_attempts r \<ge> MaxAttempts \<longrightarrow> st \<noteq> DPending) \<and>
      (\<forall>x. dl_state (f x) = st \<and> dl_attempts (f x) = dl_attempts x \<and> dl_id (f x) = dl_id x)"
proof -
  obtain res d' w' where del: "deliver svc r (d, w) = (res, (d', w'))" by (metis surj_pair)
  from deliver_clean [OF assms del] have d': "d' = d" and w': "clean_answers w'"
    and err: "\<And>e. res = Inl e \<Longrightarrow> storable e" by auto
  have fin: "\<exists>f. snd (FinishDelivery (dl_id r) st e n (ns_now svc) d) =
      d\<lparr>notification_deliveries := update_where (\<lambda>x. dl_id x = dl_id r) f (notification_deliveries d)\<rparr> \<and>
      (\<forall>x. dl_state (f x) = st \<and> dl_attempts (f x) = dl_attempts x \<and> dl_id (f x) = dl_id x)"
    if "pg_text (trim_error e)" for st e n
    using that assms(2) by (auto simp: FinishDelivery_def Let_def)
  have empty: "pg_text (trim_error [])" by (simp add: trim_error_def pg_text_def valid_utf8.simps [of "[]"])
  obtain b g where B: "Backoff (dl_attempts r) = (b, g)" by fastforce
  have g: "g = (dl_attempts r \<ge> MaxAttempts)" using B by (auto simp: Backoff_def split: if_splits)
  show ?thesis
  proof (cases res)
    case (Inr u)
    with fin [OF empty, of DSent 0] show ?thesis
      by (cases cs) (fastforce simp: dispatch_one_def del d' w' Let_def)
  next
    case (Inl e)
    then have e: "pg_text (trim_error (err_text e))" using err by (simp add: storable_def)
    show ?thesis
    proof (cases "g \<or> permanent e")
      case True
      with Inl fin [OF e, of DFailed 0] show ?thesis
        by (cases cs) (fastforce simp: dispatch_one_def del d' w' Let_def B)
    next
      case False
      with Inl fin [OF e, of DPending "ns_now svc + b"] g show ?thesis
        by (cases cs) (fastforce simp: dispatch_one_def del d' w' Let_def B)
    qed
  qed
qed

definition attempts_ok :: "db \<Rightarrow> bool" where
  "attempts_ok d \<longleftrightarrow> (\<forall>r \<in> set (notification_deliveries d).
     0 \<le> dl_attempts r \<and> dl_attempts r \<le> MaxAttempts \<and> (dl_state r = DPending \<longrightarrow> dl_attempts r < MaxAttempts))"

text \<open>
  In the middle of a batch: rows still to be sent carry the attempt just counted, all
  others satisfy the bound.
\<close>

definition batch_row :: "delivery_row list \<Rightarrow> delivery_row \<Rightarrow> bool" where
  "batch_row rs x \<longleftrightarrow> 0 \<le> dl_attempts x \<and> dl_attempts x \<le> MaxAttempts \<and>
     (if dl_id x \<in> dl_id ` set rs then \<exists>r \<in> set rs. dl_id r = dl_id x \<and> dl_attempts r = dl_attempts x
      else dl_state x = DPending \<longrightarrow> dl_attempts x < MaxAttempts)"

definition batch_ok :: "delivery_row list \<Rightarrow> db \<Rightarrow> bool" where
  "batch_ok rs d \<longleftrightarrow> (\<forall>x \<in> set (notification_deliveries d). batch_row rs x)"

lemma batch_ok_Nil: "batch_ok [] d \<Longrightarrow> attempts_ok d"
  by (auto simp: batch_ok_def batch_row_def attempts_ok_def)

lemma batch_row_other: "batch_row (r # rs) x \<Longrightarrow> dl_id x \<noteq> dl_id r \<Longrightarrow> batch_row rs x"
  by (auto simp: batch_row_def)

lemma batch_row_same:
  assumes "batch_row (r # rs) x" and "dl_id x = dl_id r" and "dl_id r \<notin> dl_id ` set rs"
  shows "dl_attempts x = dl_attempts r \<and> 0 \<le> dl_attempts x \<and> dl_attempts x \<le> MaxAttempts"
proof -
  from assms(1,2) obtain r' where r': "r' \<in> set (r # rs)" "dl_id r' = dl_id r" "dl_attempts r' = dl_attempts x"
    by (auto simp: batch_row_def)
  with assms(3) have "r' = r" by (metis image_eqI set_ConsD)
  with r' assms(1) show ?thesis by (simp add: batch_row_def)
qed

lemma batch_ok_step:
  assumes "batch_ok (r # rs) d" and "distinct (map dl_id (r # rs))"
    and f: "\<And>x. dl_state (f x) = st \<and> dl_attempts (f x) = dl_attempts x \<and> dl_id (f x) = dl_id x"
    and st: "dl_attempts r \<ge> MaxAttempts \<longrightarrow> st \<noteq> DPending"
  shows "batch_ok rs (d\<lparr>notification_deliveries := update_where (\<lambda>x. dl_id x = dl_id r) f (notification_deliveries d)\<rparr>)"
proof -
  have r: "dl_id r \<notin> dl_id ` set rs" using assms(2) by simp
  have "batch_row rs y"
    if y: "y \<in> set (update_where (\<lambda>x. dl_id x = dl_id r) f (notification_deliveries d))" for y
    using in_update_where [OF y]
  proof
    assume "\<exists>x \<in> set (notification_deliveries d). dl_id x = dl_id r \<and> y = f x"
    then obtain x where x: "x \<in> set (notification_deliveries d)" "dl_id x = dl_id r" "y = f x" by blast
    with batch_row_same [of r rs x] r assms(1) f [of x] st show ?thesis
      by (auto simp: batch_ok_def batch_row_def)
  next
    assume "y \<in> set (notification_deliveries d) \<and> dl_id y \<noteq> dl_id r"
    then show ?thesis using assms(1) batch_row_other by (auto simp: batch_ok_def)
  qed
  then show ?thesis by (simp add: batch_ok_def)
qed

lemma dispatch_fold_attempts:
  assumes "kinds_checked d" and "faults d = []" and "clean_answers w"
    and "batch_ok rs d" and "distinct (map dl_id rs)"
  shows "attempts_ok (fst (snd (fold (dispatch_one svc) rs (cs, (d, w)))))"
  using assms
proof (induction rs arbitrary: cs d w)
  case Nil
  then show ?case by (simp add: batch_ok_Nil)
next
  case (Cons r rs)
  obtain cs' st f w' where one: "dispatch_one svc r (cs, (d, w)) =
      (cs', (d\<lparr>notification_deliveries := update_where (\<lambda>x. dl_id x = dl_id r) f (notification_deliveries d)\<rparr>, w'))"
    "clean_answers w'" "dl_attempts r \<ge> MaxAttempts \<longrightarrow> st \<noteq> DPending"
    "\<forall>x. dl_state (f x) = st \<and> dl_attempts (f x) = dl_attempts x \<and> dl_id (f x) = dl_id x"
    using dispatch_one_clean [OF Cons.prems(1-3), of svc r cs] by blast
  let ?d' = "d\<lparr>notification_deliveries := update_where (\<lambda>x. dl_id x = dl_id r) f (notification_deliveries d)\<rparr>"
  have "batch_ok rs ?d'" by (rule batch_ok_step [OF Cons.prems(4,5)]) (use one in auto)
  moreover have "kinds_checked ?d'" "faults ?d' = []" using Cons.prems by (simp_all add: kinds_checked_def)
  ultimately have "attempts_ok (fst (snd (fold (dispatch_one svc) rs (cs', (?d', w')))))"
    using Cons.IH [of ?d' w' cs'] one(2) Cons.prems(5) by simp
  then show ?case by (simp add: one(1))
qed

lemma claimed_batch_ok:
  assumes "outbox_ok d" and "attempts_ok d"
  shows "batch_ok (claimed now limit u d) (d\<lparr>faults := fs, notification_deliveries := leased now limit u d\<rparr>)"
proof -
  have "batch_row (claimed now limit u d) y" if y: "y \<in> set (leased now limit u d)" for y
    using in_update_where [OF y [unfolded leased_def]]
  proof
    assume "\<exists>x \<in> set (notification_deliveries d). dl_id x \<in> set (claim_ids now limit d) \<and> y = claim_row u x"
    then obtain x where x: "x \<in> set (notification_deliveries d)" "dl_id x \<in> set (claim_ids now limit d)"
      "y = claim_row u x" by blast
    from claim_ids_due [OF x(2)] obtain x' where "x' \<in> set (notification_deliveries d)" "dl_id x' = dl_id x" "due now x'"
      by blast
    moreover have "x' = x" using calculation x(1) assms(1)
      by (auto simp: outbox_ok_def distinct_map inj_on_def)
    ultimately have "0 \<le> dl_attempts x" "dl_attempts x < MaxAttempts"
      using assms(2) x(1) by (auto simp: attempts_ok_def due_def)
    moreover have "y \<in> set (claimed now limit u d)" using x by (simp add: claimed_set)
    moreover from calculation(3) have "dl_id y \<in> dl_id ` set (claimed now limit u d)" by (rule imageI)
    ultimately show ?thesis using x(3) unfolding batch_row_def by (auto intro!: bexI [of _ y])
  next
    assume "y \<in> set (notification_deliveries d) \<and> dl_id y \<notin> set (claim_ids now limit d)"
    then show ?thesis using assms(2) by (auto simp: attempts_ok_def batch_row_def claimed_set)
  qed
  then show ?thesis by (simp add: batch_ok_def)
qed

text \<open>
  At most five attempts. Emitting and dispatching keep every delivery between zero
  and MaxAttempts attempts, and a delivery that used all of them is no longer pending.
  The dispatcher's half assumes that no statement is lost and that the error texts the
  network produces can be stored; what an unstorable text does is a separate claim.
\<close>

theorem attempts_bounded:
  assumes "outbox_ok d" and "attempts_ok d" and "faults d = []" and "kinds_checked d" and "clean_answers w"
  shows "attempts_ok (fst (snd (Dispatch svc (d, w)))) \<and> attempts_ok (Emit svc e d)"
proof
  let ?now = "ns_now svc"
  let ?u = "?now + ClaimLease"
  let ?rows = "claimed ?now ClaimBatch ?u d"
  let ?d = "\<lambda>fs. d\<lparr>faults := fs, notification_deliveries := leased ?now ClaimBatch ?u d\<rparr>"
  have C: "ClaimDeliveries ?now ClaimLease ClaimBatch d = (Inr ?rows, ?d [])"
    using assms(3) by (simp add: ClaimDeliveries_def tx_def claim_stmt_def claim_select_def claimed_def leased_def Let_def)
  have dist: "distinct (map dl_id ?rows)" using assms(1) by (intro claimed_distinct) (simp add: outbox_ok_def)
  have "kinds_checked (?d [])" "faults (?d []) = []" using assms(4) by (simp_all add: kinds_checked_def)
  then have "attempts_ok (fst (snd (fold (dispatch_one svc) ?rows ((0, 0), (?d [], w)))))"
    by (rule dispatch_fold_attempts [OF _ _ assms(5) claimed_batch_ok [OF assms(1,2)] dist])
  then show "attempts_ok (fst (snd (Dispatch svc (d, w))))"
    by (simp add: Dispatch_def C split_beta)
  from Emit_enqueued [of e d svc] assms(2) show "attempts_ok (Emit svc e d)"
    by (auto simp: enqueued_def attempts_ok_def MaxAttempts_def)
qed

theorem attempts_bounded_witness:
  "attempts_ok (fst (snd (Dispatch demo_notify (demo_outbox DPending 4, demo_world)))) \<and>
   attempts_ok (Emit demo_notify demo_event (demo_outbox DPending 4))"
  by (rule attempts_bounded)
     (simp_all add: demo_outbox_def outbox_ok_def attempts_ok_def MaxAttempts_def kinds_checked_def
        channel_kind_check_def demo_channel_def clean_answers_def demo_world_def)

section \<open>What an emit promises\<close>

definition subscribed :: "event \<Rightarrow> db \<Rightarrow> channel_row \<Rightarrow> bool" where
  "subscribed e d c \<longleftrightarrow> ch_tenant c = ev_tenant e \<and> ch_enabled c \<and> ev_kind e \<in> set (ch_events c) \<and>
     (\<exists>t \<in> set (tenants d). tn_id t = ev_tenant e \<and> \<not> tn_suspended t)"

lemma channels_for_event_subscribed:
  "channels_for_event (ev_tenant e) (ev_kind e) d = sort_key ch_name (filter (subscribed e d) (notification_channels d))"
  unfolding channels_for_event_def subscribed_def by (metis (no_types, lifting))

text \<open>
  An event reaches every subscriber once. With the database up, Emit appends
  exactly one pending delivery, due at once and carrying the event, for each enabled
  channel of the event's tenant that subscribes to its kind (none while the tenant is
  suspended), and no delivery for any other channel.
\<close>

theorem emit_one_per_subscriber:
  assumes "faults d = []"
  shows "\<exists>new. notification_deliveries (Emit svc e d) = notification_deliveries d @ new \<and>
     mset (map dl_channel new) = mset (map ch_id (filter (subscribed e d) (notification_channels d))) \<and>
     (\<forall>r \<in> set new. dl_tenant r = ev_tenant e \<and> dl_state r = DPending \<and> due (ns_now svc) r \<and>
        dl_payload r = Some (if ev_at e = 0 then e\<lparr>ev_at := ns_now svc\<rparr> else e))"
proof -
  let ?e = "if ev_at e = 0 then e\<lparr>ev_at := ns_now svc\<rparr> else e"
  let ?chs = "channels_for_event (ev_tenant e) (ev_kind e) d"
  let ?ids = "map ch_id ?chs" and ?t = "ev_tenant e"
  let ?new = "map (\<lambda>(i, ch). new_delivery (now_db d) ?t (ev_kind e) ?e (ns_now svc) i ch)
      (zip [delivery_seq d ..< delivery_seq d + length ?ids] ?ids)"
  have e: "ev_tenant ?e = ?t" "ev_kind ?e = ev_kind e" by simp_all
  have sub: "?t \<in> tn_id ` set (tenants d)" if "c \<in> set ?chs" for c
    using that unfolding channels_for_event_subscribed by (force simp: subscribed_def)
  have "notification_deliveries (Emit svc e d) = notification_deliveries d @ ?new"
  proof (cases "?chs = []")
    case True
    then show ?thesis using assms unfolding Emit_def Let_def e ChannelsForEvent_def by simp
  next
    case False
    then have "?t \<in> tn_id ` set (tenants d)" using sub [of "hd ?chs"] by (simp add: hd_in_set)
    moreover have "set ?ids \<subseteq> ch_id ` set (notification_channels d)"
      by (auto simp: channels_for_event_def)
    ultimately show ?thesis
      using assms False unfolding Emit_def Let_def e ChannelsForEvent_def EnqueueDeliveries_def
      by (simp add: enqueue_stmt_def Let_def)
  qed
  moreover have "map dl_channel ?new = ?ids"
    by (simp add: comp_def split_beta)
  moreover have "mset ?ids = mset (map ch_id (filter (subscribed e d) (notification_channels d)))"
    by (simp add: channels_for_event_subscribed)
  moreover have "\<forall>r \<in> set ?new. dl_tenant r = ?t \<and> dl_state r = DPending \<and> due (ns_now svc) r \<and> dl_payload r = Some ?e"
    by (auto simp: due_def new_delivery_def)
  ultimately show ?thesis by (intro exI [of _ ?new]) simp
qed

theorem emit_one_per_subscriber_witness:
  "\<exists>new. notification_deliveries (Emit demo_notify demo_event (demo_outbox DSent 2)) =
      notification_deliveries (demo_outbox DSent 2) @ new \<and> mset (map dl_channel new) = {#3#} \<and>
      (\<forall>r \<in> set new. dl_tenant r = 7 \<and> dl_state r = DPending \<and> due 100 r)"
  using emit_one_per_subscriber [of "demo_outbox DSent 2" demo_notify demo_event]
  by (auto simp: demo_outbox_def demo_notify_def demo_event_def subscribed_def demo_channel_def)

section \<open>Divergences\<close>

text \<open>
  A short error text that Postgres cannot store wedges a delivery. FinishDelivery
  only removes invalid bytes when it truncates, so a non-permanent error of at most 500
  bytes that is not valid UTF-8 (or has a zero byte) cannot be recorded: whatever the
  number of attempts already made, the delivery stays pending with one attempt more,
  and the attempt limit never applies.
\<close>

theorem unstorable_error_never_gives_up:
  assumes "faults d = []" and "notification_deliveries d = [r]" and "due (ns_now svc) r"
    and ch: "find_row (\<lambda>c. ch_tenant c = dl_tenant r \<and> ch_id c = dl_channel r) (notification_channels d) = Some ch"
    and "ch_enabled ch" and "dl_payload r = Some e"
    and fails: "send svc ch e (show_nat (dl_id r)) w = (Inl err, w')" and "\<not> storable err"
  shows "notification_deliveries (fst (snd (Dispatch svc (d, w)))) =
     [r\<lparr>dl_attempts := dl_attempts r + 1, dl_next_attempt_at := ns_now svc + ClaimLease\<rparr>]"
proof -
  let ?u = "ns_now svc + ClaimLease"
  let ?d = "d\<lparr>notification_deliveries := [claim_row ?u r]\<rparr>"
  have ids: "claim_ids (ns_now svc) ClaimBatch d = [dl_id r]"
    using assms(2,3) by (simp add: claim_ids_def ClaimBatch_def)
  have C: "ClaimDeliveries (ns_now svc) ClaimLease ClaimBatch d = (Inr [claim_row ?u r], ?d)"
    using assms(1,2) by (simp add: ClaimDeliveries_def tx_def claim_stmt_def claim_select_def ids Let_def)
  have D: "deliver svc (claim_row ?u r) (?d, w) = (Inl err, (?d, w'))"
    using assms(1) ch assms(5,6) fails by (simp add: deliver_def GetChannel_def)
  have F: "snd (FinishDelivery i st (err_text err) n now ?d) = ?d" for i st n now
    using assms(1,8) by (simp add: FinishDelivery_def Let_def storable_def)
  have "fst (snd (dispatch_one svc (claim_row ?u r) ((0, 0), (?d, w)))) = ?d"
    by (cases "Backoff (dl_attempts r + 1)") (simp add: dispatch_one_def D F Let_def)
  then show ?thesis by (simp add: Dispatch_def C split_beta claim_row_def)
qed

theorem unstorable_error_never_gives_up_witness:
  "notification_deliveries (fst (snd (Dispatch demo_notify
     (demo_outbox DPending 17, demo_world\<lparr>w_answers := [Fails (ErrText [CHR 0xFF])]\<rparr>)))) =
   [(new_delivery 0 7 ''alert.raised'' demo_event 50 2 3)\<lparr>dl_state := DPending, dl_attempts := 18,
     dl_next_attempt_at := 100 + ClaimLease\<rparr>]"
proof -
  let ?w = "demo_world\<lparr>w_answers := [Fails (ErrText [CHR 0xFF])]\<rparr>"
  let ?r = "(new_delivery 0 7 ''alert.raised'' demo_event 50 2 3)\<lparr>dl_state := DPending, dl_attempts := 17\<rparr>"
  have rows: "notification_deliveries (demo_outbox DPending 17) = [?r]" "faults (demo_outbox DPending 17) = []"
    by (simp_all add: demo_outbox_def)
  have due: "due (ns_now demo_notify) ?r" by (simp add: due_def demo_notify_def new_delivery_def)
  have ch: "find_row (\<lambda>c. ch_tenant c = dl_tenant ?r \<and> ch_id c = dl_channel ?r)
      (notification_channels (demo_outbox DPending 17)) = Some demo_channel" "ch_enabled demo_channel"
    "dl_payload ?r = Some demo_event"
    by (simp_all add: demo_outbox_def demo_channel_def new_delivery_def)
  have send: "send demo_notify demo_channel demo_event (show_nat (dl_id ?r)) ?w =
      (Inl (ErrText [CHR 0xFF]), demo_world)"
    by (simp add: send_def demo_channel_def postWebhook_def demo_notify_def demo_url_def next_answer_def demo_world_def)
  have "\<not> storable (ErrText [CHR 0xFF])"
    by (simp add: storable_def trim_error_def pg_text_def valid_utf8.simps [of "[CHR 0xFF]"] rune_len_def
        rune_need_def byte_def rune_ok_def)
  from unstorable_error_never_gives_up [OF rows(2,1) due ch send this]
  show ?thesis by (simp add: demo_notify_def)
qed

text \<open>
  A syslog channel cannot be stored. The validator accepts syslog channels and the
  sender speaks syslog, but the kind column's check constraint only admits email and
  webhook, so creating a valid syslog channel always fails with a check violation.
\<close>

theorem syslog_channel_refused:
  assumes "ValidateChannel parse c = Inr ()" and "ch_kind c = ''syslog''" and "faults d = []"
  shows "CreateChannel t c d = (Inl (PgError ''23514''), d)"
  using assms(2,3) by (simp add: CreateChannel_def channel_kind_check_def)

definition demo_syslog :: channel_row where
  "demo_syslog = demo_channel\<lparr>ch_kind := ''syslog'', ch_url := ''siem''\<rparr>"

theorem syslog_channel_refused_witness:
  "ValidateChannel demo_url demo_syslog = Inr () \<and>
   CreateChannel 7 demo_syslog (demo_outbox DSent 2) = (Inl (PgError ''23514''), demo_outbox DSent 2)"
proof
  show v: "ValidateChannel demo_url demo_syslog = Inr ()"
    by (simp add: ValidateChannel_def validate_target_def demo_syslog_def demo_channel_def demo_url_def
        TrimSpace_def is_space_def char_defs EventKinds_def ToLower_def lower_char_def is_upper_def)
  have "ch_kind demo_syslog = ''syslog''" "faults (demo_outbox DSent 2) = []"
    by (simp_all add: demo_syslog_def demo_outbox_def)
  from syslog_channel_refused [OF v this]
  show "CreateChannel 7 demo_syslog (demo_outbox DSent 2) = (Inl (PgError ''23514''), demo_outbox DSent 2)" .
qed

end
