(* ===== verification/Http.thy ===== *)
theory Http
  imports Store_State
begin

text \<open>
  What every handler of \<^verbatim>\<open>internal/server/httpapi\<close> shares: the response (a status
  code and a body), the caller's identity, the mapping of store errors to responses, the
  audit helper and the clamped query parameter.
\<close>

text \<open>
  Bodies: an error, the identifier of a new row, a JSON value, in which identifiers
  and times stand for their text, plain text, or a file with the name it is to be saved under
  and the bytes that reach the client.
\<close>

datatype json =
    JNull
  | JBool bool
  | JInt int
  | JRat rat
  | JStr string
  | JId uuid
  | JTime time
  | JArr "json list"
  | JObj "(string \<times> json) list"

datatype reply_body = NoBody | ErrBody string | IdBody uuid | JsonBody json | TextBody string | FileBody string string

record response =
  rsp_code :: int
  rsp_body :: reply_body

text \<open>
  The authenticated caller: administrator, session and tenant, together with the client
  address of the request.
\<close>

record principal =
  pr_admin :: admin_row
  pr_session :: session_row
  pr_tenant :: uuid
  pr_ip :: string

definition pr_email :: "principal \<Rightarrow> string" where
  "pr_email p = ad_email (pr_admin p)"

definition writeErr :: "int \<Rightarrow> string \<Rightarrow> response" where
  "writeErr code msg = \<lparr>rsp_code = code, rsp_body = ErrBody msg\<rparr>"

definition reply_id :: "int \<Rightarrow> uuid \<Rightarrow> response" where
  "reply_id code i = \<lparr>rsp_code = code, rsp_body = IdBody i\<rparr>"

definition writeJSON :: "int \<Rightarrow> json \<Rightarrow> response" where
  "writeJSON code j = \<lparr>rsp_code = code, rsp_body = JsonBody j\<rparr>"

definition JOpt :: "('a \<Rightarrow> json) \<Rightarrow> 'a option \<Rightarrow> json" where
  "JOpt f v = (case v of None \<Rightarrow> JNull | Some x \<Rightarrow> f x)"

definition storeErr :: "err \<Rightarrow> response" where
  "storeErr e =
     (if e = ErrNotFound then writeErr 404 ''not found''
      else if e = ErrConflict then writeErr 409 ''already exists''
      else writeErr 500 ''internal error'')"

text \<open>A handler that only reads: a query of the caller's tenant, rendered or reported as an error.\<close>

definition respond :: "('a \<Rightarrow> json) \<Rightarrow> 'a res \<times> db \<Rightarrow> response \<times> db" where
  "respond f r = (case fst r of Inl e \<Rightarrow> storeErr e | Inr x \<Rightarrow> writeJSON 200 (f x), snd r)"

definition noContent :: response where
  "noContent = \<lparr>rsp_code = 204, rsp_body = NoBody\<rparr>"

lemma refusals [simp]: "writeErr c m \<noteq> noContent" "storeErr e \<noteq> noContent"
  by (simp_all add: writeErr_def storeErr_def noContent_def)

definition admin_actor :: "principal \<Rightarrow> label" where
  "admin_actor p = Txt (''admin:'' @ pr_email p)"

definition audit :: "principal \<Rightarrow> string \<Rightarrow> string \<Rightarrow> label \<Rightarrow> detail \<Rightarrow> string \<Rightarrow> db \<Rightarrow> db" where
  "audit p action targetType targetID detail result d =
     snd (AppendAudit (pr_tenant p) (admin_actor p) action targetType targetID detail (pr_ip p) result d)"

text \<open>An optional positive integer, clamped; None is a missing or unparsable parameter.\<close>

definition queryInt :: "int option \<Rightarrow> int \<Rightarrow> int \<Rightarrow> int" where
  "queryInt v def mx = (case v of None \<Rightarrow> def | Some n \<Rightarrow> if n < 1 then def else min n mx)"

lemma audit_tables [store_frame]:
  "devices (audit p a b c e g d) = devices d"
  "tenants (audit p a b c e g d) = tenants d"
  "commands (audit p a b c e g d) = commands d"
  "agent_rollouts (audit p a b c e g d) = agent_rollouts d"
  "agent_rollout_devices (audit p a b c e g d) = agent_rollout_devices d"
  "agent_releases (audit p a b c e g d) = agent_releases d"
  "policy_rules (audit p a b c e g d) = policy_rules d"
  "approval_requests (audit p a b c e g d) = approval_requests d"
  by (simp_all add: audit_def store_frame)

lemma audit_shape:
  obtains fs n log where
    "audit p a b c e g d = d\<lparr>faults := fs, audit_seq := n, audit_log := audit_log d @ log\<rparr>"
  unfolding audit_def by (rule AppendAudit_shape)

lemma audit_no_fault [simp]: "faults d = [] \<Longrightarrow> faults (audit p a b c e g d) = []"
  by (simp add: audit_def)

text \<open>A sample caller for the witnesses.\<close>

definition demo_admin :: principal where
  "demo_admin = \<lparr>pr_admin = \<lparr>ad_id = 11, ad_tenant = 7, ad_email = ''a@x'', ad_password_hash = ''h'',
      ad_totp_secret = None, ad_totp_confirmed = False, ad_role = ''owner'', ad_disabled = False, ad_provider = False\<rparr>,
    pr_session = \<lparr>se_id = ''s'', se_tenant = 7, se_admin = 11, se_csrf = ''c'', se_mfa_passed = True,
      se_expires_at = 0, se_ip = '''', se_user_agent = ''''\<rparr>, pr_tenant = 7, pr_ip = ''''\<rparr>"

lemma storeErr_not_ok: "rsp_code (storeErr e) \<in> {404, 409, 500}"
  by (simp add: storeErr_def writeErr_def)

end
