(* ===== verification/Rollout.thy ===== *)
theory Rollout
  imports Commands Notify Http
begin

text \<open>
  Staged agent updates: the rollout tables (\<^verbatim>\<open>store/rollouts.go\<close>,
  \<^verbatim>\<open>store/releases.go\<close>), the ticker that resolves, pauses, issues and completes
  (\<^verbatim>\<open>rollout/rollout.go\<close>) and the administrator's handlers
  (\<^verbatim>\<open>httpapi/rollouts.go\<close>).

  Parameters: the notifier (any \<open>emitter\<close>), the presence test, the URL and JSON
  encoders. Numbers that Go keeps in \<^verbatim>\<open>int\<close> are integers: the columns are 32 bit and
  the counters are bounded by the number of devices.
\<close>

section \<open>Releases\<close>

definition PutRelease :: "uuid \<Rightarrow> release_row \<Rightarrow> db \<Rightarrow> unit res \<times> db" where
  "PutRelease tenantID r = pool (\<lambda>d.
     let P = (\<lambda>x. rl_tenant x = tenantID \<and> rl_version x = rl_version r) in
     if \<not> tenant_exists tenantID d then (Inl (PgError ''23503''), d)
     else if \<exists>x \<in> set (agent_releases d). P x
     then (Inr (), d\<lparr>agent_releases := update_where P (\<lambda>x. x\<lparr>rl_sha256 := rl_sha256 r,
            rl_signature := rl_signature r, rl_uploaded_at := now_db d\<rparr>) (agent_releases d)\<rparr>)
     else (Inr (), d\<lparr>agent_releases := agent_releases d @ [r\<lparr>rl_tenant := tenantID, rl_uploaded_at := now_db d\<rparr>]\<rparr>))"

definition GetRelease :: "uuid \<Rightarrow> string \<Rightarrow> db \<Rightarrow> release_row res \<times> db" where
  "GetRelease tenantID version = pool (\<lambda>d.
     (case find_row (\<lambda>x. rl_tenant x = tenantID \<and> rl_version x = version) (agent_releases d) of
        None \<Rightarrow> Inl ErrNotFound | Some r \<Rightarrow> Inr r, d))"

definition releases_by_age :: "uuid \<Rightarrow> db \<Rightarrow> release_row list" where
  "releases_by_age tenantID d =
     sort_key (\<lambda>x. - rl_uploaded_at x) (filter (\<lambda>x. rl_tenant x = tenantID) (agent_releases d))"

definition LatestRelease :: "uuid \<Rightarrow> db \<Rightarrow> release_row res \<times> db" where
  "LatestRelease tenantID = pool (\<lambda>d.
     (case releases_by_age tenantID d of [] \<Rightarrow> Inl ErrNotFound | r # _ \<Rightarrow> Inr r, d))"

definition ListReleases :: "uuid \<Rightarrow> db \<Rightarrow> release_row list res \<times> db" where
  "ListReleases tenantID = pool (\<lambda>d. (Inr (releases_by_age tenantID d), d))"

section \<open>The rollout tables\<close>

definition open_state :: "rollout_state \<Rightarrow> bool" where
  "open_state s \<longleftrightarrow> s = Active \<or> s = Paused"

definition open_rollouts :: "uuid \<Rightarrow> db \<Rightarrow> rollout_row list" where
  "open_rollouts t d = filter (\<lambda>r. ro_tenant r = t \<and> open_state (ro_state r)) (agent_rollouts d)"

text \<open>
  The guarded INSERT: no row when the version is no release of the tenant; a unique
  violation on the primary key or on the partial index of open rollouts.
\<close>

definition insert_stmt :: "uuid \<Rightarrow> rollout_row \<Rightarrow> db \<Rightarrow> nat res \<times> db" where
  "insert_stmt tenantID r d =
     (if \<not> (\<exists>x \<in> set (agent_releases d). rl_tenant x = tenantID \<and> rl_version x = ro_version r) then (Inr 0, d)
      else if ro_id r \<in> ro_id ` set (agent_rollouts d) \<or> (open_state (ro_state r) \<and> open_rollouts tenantID d \<noteq> [])
      then (Inl (PgError ''23505''), d)
      else if \<not> tenant_exists tenantID d then (Inl (PgError ''23503''), d)
      else (Inr 1, d\<lparr>agent_rollouts := agent_rollouts d @
              [r\<lparr>ro_tenant := tenantID, ro_created_at := now_db d, ro_updated_at := now_db d, ro_finished_at := None\<rparr>]\<rparr>))"

definition insertRollout :: "uuid \<Rightarrow> rollout_row \<Rightarrow> db \<Rightarrow> unit res \<times> db" where
  "insertRollout tenantID r d = (let (n, d') = pool (insert_stmt tenantID r) d in (oneRow (conflict n), d'))"

definition CreateRollout :: "uuid \<Rightarrow> rollout_row \<Rightarrow> db \<Rightarrow> unit res \<times> db" where
  "CreateRollout = insertRollout"

definition the_rollout :: "uuid \<Rightarrow> uuid \<Rightarrow> db \<Rightarrow> rollout_row option" where
  "the_rollout t i d = find_row (\<lambda>r. ro_tenant r = t \<and> ro_id r = i) (agent_rollouts d)"

definition GetRollout :: "uuid \<Rightarrow> uuid \<Rightarrow> db \<Rightarrow> rollout_row res \<times> db" where
  "GetRollout tenantID i = pool (\<lambda>d.
     (case the_rollout tenantID i d of None \<Rightarrow> Inl ErrNotFound | Some r \<Rightarrow> Inr r, d))"

definition cancel_stmt :: "uuid \<Rightarrow> uuid \<Rightarrow> time \<Rightarrow> db \<Rightarrow> unit res \<times> db" where
  "cancel_stmt tenantID oldID now d = (Inr (), d\<lparr>agent_rollouts :=
     update_where (\<lambda>r. ro_tenant r = tenantID \<and> ro_id r = oldID)
       (\<lambda>r. r\<lparr>ro_state := Cancelled, ro_updated_at := now, ro_finished_at := Some now\<rparr>) (agent_rollouts d)\<rparr>)"

definition replace_body :: "uuid \<Rightarrow> uuid \<Rightarrow> rollout_row \<Rightarrow> time \<Rightarrow> db \<Rightarrow> unit res \<times> db" where
  "replace_body tenantID oldID next now d =
     andThen (GetRollout tenantID oldID d) (\<lambda>old d1.
       andThen (if open_state (ro_state old) then pool (cancel_stmt tenantID oldID now) d1 else (Inr (), d1)) (\<lambda>_ d2.
         insertRollout tenantID next d2))"

definition ReplaceRollout :: "uuid \<Rightarrow> uuid \<Rightarrow> rollout_row \<Rightarrow> time \<Rightarrow> db \<Rightarrow> unit res \<times> db" where
  "ReplaceRollout tenantID oldID next now = tx (replace_body tenantID oldID next now)"

definition ListRollouts :: "uuid \<Rightarrow> nat \<Rightarrow> db \<Rightarrow> rollout_row list res \<times> db" where
  "ListRollouts tenantID limit = pool (\<lambda>d.
     (Inr (take limit (sort_key (\<lambda>r. - ro_created_at r)
        (filter (\<lambda>r. ro_tenant r = tenantID) (agent_rollouts d)))), d))"

definition set_state_stmt ::
  "uuid \<Rightarrow> uuid \<Rightarrow> rollout_state list \<Rightarrow> rollout_state \<Rightarrow> time \<Rightarrow> db \<Rightarrow> nat res \<times> db" where
  "set_state_stmt tenantID i from to now d =
     (let P = (\<lambda>r. ro_tenant r = tenantID \<and> ro_id r = i \<and> ro_state r \<in> set from);
          terminal = (to = Completed \<or> to = Cancelled)
      in if open_state to \<and> (\<exists>r \<in> set (agent_rollouts d). P r) \<and>
            (\<exists>r \<in> set (agent_rollouts d). ro_tenant r = tenantID \<and> ro_id r \<noteq> i \<and> open_state (ro_state r))
         then (Inl (PgError ''23505''), d)
         else (Inr (rows_affected P (agent_rollouts d)),
           d\<lparr>agent_rollouts := update_where P (\<lambda>r. r\<lparr>ro_state := to, ro_updated_at := now,
              ro_finished_at := (if terminal then Some now else ro_finished_at r)\<rparr>) (agent_rollouts d)\<rparr>))"

definition SetRolloutState ::
  "uuid \<Rightarrow> uuid \<Rightarrow> rollout_state list \<Rightarrow> rollout_state \<Rightarrow> time \<Rightarrow> db \<Rightarrow> unit res \<times> db" where
  "SetRolloutState tenantID i from to now d =
     andThen (pool (set_state_stmt tenantID i from to now) d) (\<lambda>n d1.
       if n = 1 then (Inr (), d1)
       else andThen (GetRollout tenantID i d1) (\<lambda>_ d2. (Inl ErrConflict, d2)))"

definition active_rollouts :: "db \<Rightarrow> rollout_row list" where
  "active_rollouts d = sort_key ro_created_at
     (filter (\<lambda>r. ro_state r = Active \<and> (\<exists>t \<in> set (tenants d). tn_id t = ro_tenant r \<and> \<not> tn_suspended t))
       (agent_rollouts d))"

definition OpenRollouts :: "db \<Rightarrow> rollout_row list res \<times> db" where
  "OpenRollouts = pool (\<lambda>d. (Inr (active_rollouts d), d))"

section \<open>Devices of a rollout\<close>

definition in_groups :: "rollout_row \<Rightarrow> device_row \<Rightarrow> bool" where
  "in_groups r v \<longleftrightarrow> ro_groups r = [] \<or> (\<exists>g \<in> set (ro_groups r). dv_group v = Some g)"

definition targeted :: "rollout_row \<Rightarrow> device_row \<Rightarrow> bool" where
  "targeted r v \<longleftrightarrow> dv_tenant v = ro_tenant r \<and> \<not> dv_revoked v \<and> in_groups r v"

definition touched :: "rollout_row \<Rightarrow> device_row \<Rightarrow> db \<Rightarrow> bool" where
  "touched r v d \<longleftrightarrow> (\<exists>x \<in> set (agent_rollout_devices d). rd_rollout x = ro_id r \<and> rd_device x = dv_id v)"

definition rollout_candidates :: "uuid \<Rightarrow> uuid \<Rightarrow> db \<Rightarrow> device_row list" where
  "rollout_candidates tenantID i d = (case the_rollout tenantID i d of
       None \<Rightarrow> []
     | Some r \<Rightarrow> sort_key dv_hostname (sort_key dv_id
         (filter (\<lambda>v. targeted r v \<and> dv_agent_version v \<noteq> ro_version r \<and> \<not> touched r v d) (devices d))))"

definition RolloutCandidates :: "uuid \<Rightarrow> uuid \<Rightarrow> db \<Rightarrow> device_row list res \<times> db" where
  "RolloutCandidates tenantID i = pool (\<lambda>d. (Inr (rollout_candidates tenantID i d), d))"

definition add_device_stmt :: "uuid \<Rightarrow> uuid \<Rightarrow> uuid \<Rightarrow> time \<Rightarrow> db \<Rightarrow> unit res \<times> db" where
  "add_device_stmt rolloutID deviceID commandID now d =
     (if \<exists>x \<in> set (agent_rollout_devices d). rd_rollout x = rolloutID \<and> rd_device x = deviceID
      then (Inl (PgError ''23505''), d)
      else if rolloutID \<notin> ro_id ` set (agent_rollouts d) \<or> \<not> device_exists deviceID d
      then (Inl (PgError ''23503''), d)
      else (Inr (), d\<lparr>agent_rollout_devices := agent_rollout_devices d @
             [\<lparr>rd_rollout = rolloutID, rd_device = deviceID, rd_command = commandID, rd_state = PIssued,
               rd_detail = '''', rd_issued_at = now, rd_resolved_at = None\<rparr>]\<rparr>))"

definition AddRolloutDevice :: "uuid \<Rightarrow> uuid \<Rightarrow> uuid \<Rightarrow> time \<Rightarrow> db \<Rightarrow> unit res \<times> db" where
  "AddRolloutDevice rolloutID deviceID commandID now d =
     (let (n, d') = pool (add_device_stmt rolloutID deviceID commandID now) d in (conflict n, d'))"

definition ListRolloutDevices :: "uuid \<Rightarrow> uuid \<Rightarrow> db \<Rightarrow> (rollout_device_row \<times> string) list res \<times> db" where
  "ListRolloutDevices tenantID i = pool (\<lambda>d.
     (Inr (case the_rollout tenantID i d of
        None \<Rightarrow> []
      | Some _ \<Rightarrow> sort_key (\<lambda>(x, h). rd_issued_at x) (sort_key snd
          (concat (map (\<lambda>x. case find_row (\<lambda>v. dv_id v = rd_device x) (devices d) of
               None \<Rightarrow> [] | Some v \<Rightarrow> [(x, dv_hostname v)])
             (filter (\<lambda>x. rd_rollout x = i) (agent_rollout_devices d)))))), d))"

text \<open>The CASE expressions of ResolveRolloutDevices; None is SQL NULL, the row stays issued.\<close>

definition command_state_text :: "command_state \<Rightarrow> string" where
  "command_state_text s = (case s of CUnset \<Rightarrow> '''' | CPending \<Rightarrow> ''pending'' | CSent \<Rightarrow> ''sent''
     | CSucceeded \<Rightarrow> ''succeeded'' | CFailed \<Rightarrow> ''failed'' | CExpired \<Rightarrow> ''expired'')"

definition resolution ::
  "rollout_row \<Rightarrow> device_row \<Rightarrow> command_row \<Rightarrow> time \<Rightarrow> (progress_state \<times> string) option" where
  "resolution r v c cutoff =
     (if dv_revoked v then Some (PCancelled, ''device revoked'')
      else if dv_agent_version v = ro_version r then Some (PUpdated, '''')
      else if cm_state c = CFailed \<or> cm_state c = CExpired
      then Some (PFailed, command_state_text (cm_state c) @ '': '' @ cm_result c)
      else if cm_state c = CSucceeded \<and> (case cm_completed_at c of Some t \<Rightarrow> t \<le> cutoff | None \<Rightarrow> False)
      then Some (PFailed, ''agent did not report '' @ ro_version r @ '' after the update command succeeded'')
      else None)"

text \<open>The joins: the rollout in the tenant, the device and the command of a progress row.\<close>

definition resolve_row :: "uuid \<Rightarrow> uuid \<Rightarrow> time \<Rightarrow> db \<Rightarrow> rollout_device_row \<Rightarrow> (progress_state \<times> string) option" where
  "resolve_row tenantID i cutoff d x =
     (if rd_rollout x = i \<and> rd_state x = PIssued then
        (case (the_rollout tenantID i d, find_row (\<lambda>v. dv_id v = rd_device x) (devices d),
               find_row (\<lambda>c. cm_id c = rd_command x) (commands d)) of
           (Some r, Some v, Some c) \<Rightarrow> resolution r v c cutoff
         | _ \<Rightarrow> None)
      else None)"

definition apply_resolution :: "time \<Rightarrow> (progress_state \<times> string) option \<Rightarrow> rollout_device_row \<Rightarrow> rollout_device_row" where
  "apply_resolution now res x = (case res of
       None \<Rightarrow> x
     | Some (st, detail) \<Rightarrow> x\<lparr>rd_state := st, rd_detail := detail, rd_resolved_at := Some now\<rparr>)"

definition resolved_as :: "progress_state \<Rightarrow> (progress_state \<times> string) option \<Rightarrow> bool" where
  "resolved_as st res \<longleftrightarrow> (case res of Some (s, _) \<Rightarrow> s = st | None \<Rightarrow> False)"

definition ResolveRolloutDevices ::
  "uuid \<Rightarrow> uuid \<Rightarrow> time \<Rightarrow> duration \<Rightarrow> db \<Rightarrow> (nat \<times> nat) res \<times> db" where
  "ResolveRolloutDevices tenantID i now confirmTimeout = pool (\<lambda>d.
     let res = resolve_row tenantID i (now - confirmTimeout) d; rows = agent_rollout_devices d
     in (Inr (rows_affected (\<lambda>x. resolved_as PUpdated (res x)) rows,
              rows_affected (\<lambda>x. resolved_as PFailed (res x)) rows),
         d\<lparr>agent_rollout_devices := map (\<lambda>x. apply_resolution now (res x) x) rows\<rparr>))"

record rollout_summary =
  su_targeted :: int
  su_current :: int
  su_issued :: int
  su_updated :: int
  su_failed :: int
  su_remaining :: int

definition progress_count :: "rollout_row \<Rightarrow> progress_state \<Rightarrow> db \<Rightarrow> int" where
  "progress_count r st d = int (length (filter (\<lambda>x. rd_rollout x = ro_id r \<and> rd_state x = st \<and>
     (\<exists>v \<in> set (devices d). dv_id v = rd_device x \<and> \<not> dv_revoked v)) (agent_rollout_devices d)))"

definition summary_of :: "rollout_row \<Rightarrow> db \<Rightarrow> rollout_summary" where
  "summary_of r d =
     (let tgt = filter (targeted r) (devices d); untouched = filter (\<lambda>v. \<not> touched r v d) tgt in
      \<lparr>su_targeted = int (length tgt),
       su_current = int (length (filter (\<lambda>v. dv_agent_version v = ro_version r) untouched)),
       su_issued = progress_count r PIssued d, su_updated = progress_count r PUpdated d,
       su_failed = progress_count r PFailed d,
       su_remaining = int (length (filter (\<lambda>v. dv_agent_version v \<noteq> ro_version r) untouched))\<rparr>)"

definition RolloutSummaries :: "uuid \<Rightarrow> uuid list \<Rightarrow> db \<Rightarrow> (uuid \<Rightarrow> rollout_summary option) res \<times> db" where
  "RolloutSummaries tenantID ids = pool (\<lambda>d.
     (Inr (\<lambda>i. if i \<in> set ids then map_option (\<lambda>r. summary_of r d) (the_rollout tenantID i d) else None), d))"

definition RolloutSummary :: "uuid \<Rightarrow> uuid \<Rightarrow> db \<Rightarrow> rollout_summary res \<times> db" where
  "RolloutSummary tenantID i d =
     andThen (RolloutSummaries tenantID [i] d) (\<lambda>all d1.
       (case all i of None \<Rightarrow> Inl ErrNotFound | Some s \<Rightarrow> Inr s, d1))"

section \<open>The service\<close>

record update_payload =
  up_version :: string
  up_url :: string
  up_sha256 :: bytes
  up_signature :: bytes

record ('sk, 'pk) rollout_service =
  rs_commands :: "('sk, 'pk) command_service"
  rs_online :: "(signed_command hub \<Rightarrow> uuid \<Rightarrow> bool) option"
  rs_release_url :: "uuid \<Rightarrow> string \<Rightarrow> string"
  rs_marshal_update :: "update_payload \<Rightarrow> bytes"
  rs_now :: time
  rs_confirm_timeout :: duration
  rs_notify :: "(event \<Rightarrow> db \<Rightarrow> db) option"

definition DefaultConfirmTimeout :: duration where "DefaultConfirmTimeout = 10 * minute"

definition timeout :: "('sk, 'pk) rollout_service \<Rightarrow> duration" where
  "timeout svc = (if rs_confirm_timeout svc > 0 then rs_confirm_timeout svc else DefaultConfirmTimeout)"

definition emit_event :: "('sk, 'pk) rollout_service \<Rightarrow> event \<Rightarrow> db \<Rightarrow> db" where
  "emit_event svc e d = (case rs_notify svc of None \<Rightarrow> d | Some em \<Rightarrow> em e d)"

definition IssueUpdate ::
  "('sk, 'pk) rollout_service \<Rightarrow> uuid \<Rightarrow> uuid \<Rightarrow> update_payload \<Rightarrow> label \<Rightarrow> srv \<Rightarrow> uuid res \<times> srv" where
  "IssueUpdate svc tenantID deviceID p actor s =
     Issue (rs_commands svc) tenantID deviceID UPDATE_AGENT (rs_marshal_update svc p) actor s"

definition auto_paused_event :: "('sk, 'pk) rollout_service \<Rightarrow> uuid \<Rightarrow> rollout_row \<Rightarrow> rollout_summary \<Rightarrow> event" where
  "auto_paused_event svc tenantID r smry =
     \<lparr>ev_kind = ''rollout.auto_paused'', ev_tenant = tenantID,
      ev_title = ''Rollout of '' @ ro_version r @ '' auto-paused after '' @ show_int (su_failed smry) @ '' failures'',
      ev_body = ''The rollout of agent '' @ ro_version r @ '' was paused automatically: '' @ show_int (su_failed smry) @
        '' devices failed to update (threshold '' @ show_int (ro_max_failures r) @
        ''). Review the failures in the console, then resume or roll back.'',
      ev_detail = [(''rollout_id'', DId (ro_id r)), (''version'', DStr (ro_version r)),
        (''failed'', DInt (su_failed smry)), (''max_failures'', DInt (ro_max_failures r))],
      ev_at = rs_now svc\<rparr>"

definition completed_event :: "('sk, 'pk) rollout_service \<Rightarrow> uuid \<Rightarrow> rollout_row \<Rightarrow> rollout_summary \<Rightarrow> event" where
  "completed_event svc tenantID r smry =
     \<lparr>ev_kind = ''rollout.completed'', ev_tenant = tenantID,
      ev_title = ''Rollout of '' @ ro_version r @ '' completed'',
      ev_body = ''Agent '' @ ro_version r @ '' reached every targeted device: '' @ show_int (su_updated smry) @
        '' updated, '' @ show_int (su_failed smry) @ '' failed.'',
      ev_detail = [(''rollout_id'', DId (ro_id r)), (''version'', DStr (ro_version r)),
        (''updated'', DInt (su_updated smry)), (''failed'', DInt (su_failed smry))],
      ev_at = rs_now svc\<rparr>"

text \<open>
  The batch loop: devices that are offline, or whose command or progress row fails, use
  no slot. The summary is decremented and incremented as the code does.
\<close>

fun issue_batch ::
  "('sk, 'pk) rollout_service \<Rightarrow> uuid \<Rightarrow> rollout_row \<Rightarrow> update_payload \<Rightarrow> device_row list \<Rightarrow> int \<Rightarrow>
   rollout_summary \<Rightarrow> srv \<Rightarrow> rollout_summary \<times> srv" where
  "issue_batch svc tenantID r p [] slots smry s = (smry, s)"
| "issue_batch svc tenantID r p (c # cs) slots smry s =
     (if slots = 0 then (smry, s)
      else if (case rs_online svc of Some f \<Rightarrow> \<not> f (s_hub s) (dv_id c) | None \<Rightarrow> False)
      then issue_batch svc tenantID r p cs slots smry s
      else case IssueUpdate svc tenantID (dv_id c) p (IdTxt ''rollout:'' (ro_id r)) s of
          (Inl e, s1) \<Rightarrow> issue_batch svc tenantID r p cs slots smry s1
        | (Inr cmdID, s1) \<Rightarrow>
            (case AddRolloutDevice (ro_id r) (dv_id c) cmdID (rs_now svc) (s_db s1) of
               (Inl e, d2) \<Rightarrow> issue_batch svc tenantID r p cs slots smry (s1\<lparr>s_db := d2\<rparr>)
             | (Inr _, d2) \<Rightarrow>
                 issue_batch svc tenantID r p cs (slots - 1)
                   (smry\<lparr>su_issued := su_issued smry + 1, su_remaining := su_remaining smry - 1\<rparr>) (s1\<lparr>s_db := d2\<rparr>)))"

definition on_db :: "(db \<Rightarrow> 'a res \<times> db) \<Rightarrow> srv \<Rightarrow> 'a res \<times> srv" where
  "on_db f s = (let (r, d) = f (s_db s) in (r, s\<lparr>s_db := d\<rparr>))"

lemma on_db_snd [simp]: "snd (on_db f s) = s\<lparr>s_db := snd (f (s_db s))\<rparr>"
  by (simp add: on_db_def split_beta)

text \<open>Step 2: pause, write the audit entry (whose failure is only logged), notify.\<close>

definition auto_pause ::
  "('sk, 'pk) rollout_service \<Rightarrow> uuid \<Rightarrow> rollout_row \<Rightarrow> rollout_summary \<Rightarrow> db \<Rightarrow> unit res \<times> db" where
  "auto_pause svc tenantID r smry d =
     andThen (SetRolloutState tenantID (ro_id r) [Active] Paused (rs_now svc) d) (\<lambda>_ d1.
       (let d2 = snd (AppendAudit tenantID (Txt ''system'') ''rollout.auto_pause'' ''rollout'' (IdTxt '''' (ro_id r))
                  [(''version'', DStr (ro_version r)), (''failed'', DInt (su_failed smry)),
                   (''max_failures'', DInt (ro_max_failures r))] '''' ''success'' d1)
        in (Inr (), emit_event svc (auto_paused_event svc tenantID r smry) d2)))"

text \<open>Step 3: issue the next batch when slots are free.\<close>

definition issue_step ::
  "('sk, 'pk) rollout_service \<Rightarrow> uuid \<Rightarrow> rollout_row \<Rightarrow> rollout_summary \<Rightarrow> srv \<Rightarrow> rollout_summary res \<times> srv" where
  "issue_step svc tenantID r smry s =
     (let slots = ro_batch_size r - su_issued smry in
      if slots > 0 then
        andThen (on_db (GetRelease tenantID (ro_version r)) s) (\<lambda>rel s1.
          let p = \<lparr>up_version = rl_version rel, up_url = rs_release_url svc tenantID (rl_version rel),
                   up_sha256 = rl_sha256 rel, up_signature = rl_signature rel\<rparr>
          in andThen (on_db (RolloutCandidates tenantID (ro_id r)) s1) (\<lambda>cands s2.
               let (smry', s3) = issue_batch svc tenantID r p cands slots smry s2 in (Inr smry', s3)))
      else (Inr smry, s))"

text \<open>Step 4: complete when nothing is in flight and nothing is left.\<close>

definition complete_step ::
  "('sk, 'pk) rollout_service \<Rightarrow> uuid \<Rightarrow> rollout_row \<Rightarrow> rollout_summary \<Rightarrow> db \<Rightarrow> unit res \<times> db" where
  "complete_step svc tenantID r smry d =
     (if su_issued smry = 0 \<and> su_remaining smry = 0 then
        andThen (SetRolloutState tenantID (ro_id r) [Active] Completed (rs_now svc) d) (\<lambda>_ d1.
          (Inr (), emit_event svc (completed_event svc tenantID r smry) d1))
      else (Inr (), d))"

definition Reconcile :: "('sk, 'pk) rollout_service \<Rightarrow> uuid \<Rightarrow> rollout_row \<Rightarrow> srv \<Rightarrow> unit res \<times> srv" where
  "Reconcile svc tenantID r s =
     (if ro_state r \<noteq> Active then (Inr (), s)
      else andThen (on_db (ResolveRolloutDevices tenantID (ro_id r) (rs_now svc) (timeout svc)) s) (\<lambda>counts s1.
        andThen (on_db (RolloutSummary tenantID (ro_id r)) s1) (\<lambda>smry s2.
          if ro_max_failures r > 0 \<and> snd counts > 0 \<and> su_failed smry \<ge> ro_max_failures r
          then on_db (auto_pause svc tenantID r smry) s2
          else andThen (issue_step svc tenantID r smry s2) (\<lambda>smry' s3.
                 on_db (complete_step svc tenantID r smry') s3))))"

definition Tick :: "('sk, 'pk) rollout_service \<Rightarrow> srv \<Rightarrow> unit res \<times> srv" where
  "Tick svc s = (case on_db OpenRollouts s of
       (Inl e, s1) \<Rightarrow> (Inl e, s1)
     | (Inr rs, s1) \<Rightarrow> (Inr (), fold (\<lambda>r s. snd (Reconcile svc (ro_tenant r) r s)) rs s1))"

section \<open>The administrator's handlers\<close>

definition defaultRolloutBatch :: int where "defaultRolloutBatch = 10"
definition defaultRolloutMaxFailures :: int where "defaultRolloutMaxFailures = 3"

text \<open>A create request; a group id that does not parse is None.\<close>

record rollout_req =
  rq_version :: string
  rq_group_ids :: "uuid option list"
  rq_batch_size :: "int option"
  rq_max_failures :: "int option"

definition newRollout :: "rollout_req \<Rightarrow> label \<Rightarrow> uuid \<Rightarrow> string + rollout_row" where
  "newRollout req actor i =
     (let batch = (case rq_batch_size req of Some n \<Rightarrow> n | None \<Rightarrow> defaultRolloutBatch);
          maxf = (case rq_max_failures req of Some n \<Rightarrow> n | None \<Rightarrow> defaultRolloutMaxFailures)
      in if rq_version req = [] then Inl ''version is required''
         else if batch < 1 then Inl ''batch_size must be at least 1''
         else if maxf < 0 then Inl ''max_failures must be 0 or more''
         else if None \<in> set (rq_group_ids req) then Inl ''bad group id''
         else Inr \<lparr>ro_id = i, ro_tenant = 0, ro_version = rq_version req,
                ro_groups = map the (rq_group_ids req), ro_batch_size = batch, ro_max_failures = maxf,
                ro_state = Active, ro_created_by = actor, ro_created_at = 0, ro_updated_at = 0, ro_finished_at = None\<rparr>)"

definition createRollout :: "principal \<Rightarrow> rollout_req \<Rightarrow> db \<Rightarrow> response \<times> db" where
  "createRollout p req d =
     (let (i, d0) = new_uuid d in
      case newRollout req (admin_actor p) i of
        Inl msg \<Rightarrow> (writeErr 400 msg, d0)
      | Inr ro \<Rightarrow>
          (case CreateRollout (pr_tenant p) ro d0 of
             (Inl e, d1) \<Rightarrow> (storeErr e, d1)
           | (Inr _, d1) \<Rightarrow>
               (reply_id 201 i,
                audit p ''rollout.create'' ''rollout'' (IdTxt '''' i)
                  [(''version'', DStr (ro_version ro)), (''batch_size'', DInt (ro_batch_size ro)),
                   (''max_failures'', DInt (ro_max_failures ro))] ''success'' d1)))"

definition rollout_state_text :: "rollout_state \<Rightarrow> string" where
  "rollout_state_text s = (case s of Active \<Rightarrow> ''active'' | Paused \<Rightarrow> ''paused''
     | Completed \<Rightarrow> ''completed'' | Cancelled \<Rightarrow> ''cancelled'')"

definition transitionRollout ::
  "string \<Rightarrow> rollout_state list \<Rightarrow> rollout_state \<Rightarrow> principal \<Rightarrow> uuid \<Rightarrow> time \<Rightarrow> db \<Rightarrow> response \<times> db" where
  "transitionRollout action from to p i now d =
     (case SetRolloutState (pr_tenant p) i from to now d of
        (Inl e, d1) \<Rightarrow>
          (if e = ErrConflict
           then writeErr 409 (''rollout is not '' @ rollout_state_text (hd from) @ '' (or another allowed state)'')
           else storeErr e, d1)
      | (Inr _, d1) \<Rightarrow>
          (noContent, audit p (''rollout.'' @ action) ''rollout'' (IdTxt '''' i)
             [(''state'', DStr (rollout_state_text to))] ''success'' d1))"

text \<open>The three transitions routes.go registers.\<close>

definition pauseRollout :: "principal \<Rightarrow> uuid \<Rightarrow> time \<Rightarrow> db \<Rightarrow> response \<times> db" where
  "pauseRollout = transitionRollout ''pause'' [Active] Paused"

definition resumeRollout :: "principal \<Rightarrow> uuid \<Rightarrow> time \<Rightarrow> db \<Rightarrow> response \<times> db" where
  "resumeRollout = transitionRollout ''resume'' [Paused] Active"

definition cancelRollout :: "principal \<Rightarrow> uuid \<Rightarrow> time \<Rightarrow> db \<Rightarrow> response \<times> db" where
  "cancelRollout = transitionRollout ''cancel'' [Active, Paused] Cancelled"

definition rollbackRollout :: "principal \<Rightarrow> uuid \<Rightarrow> string \<Rightarrow> time \<Rightarrow> db \<Rightarrow> response \<times> db" where
  "rollbackRollout p i version now d =
     (case GetRollout (pr_tenant p) i d of
        (Inl e, d1) \<Rightarrow> (storeErr e, d1)
      | (Inr old, d1) \<Rightarrow>
          if version = [] \<or> version = ro_version old then (writeErr 400 ''rollback needs a different version'', d1)
          else (let (j, d2) = new_uuid d1;
                    nr = \<lparr>ro_id = j, ro_tenant = 0, ro_version = version, ro_groups = ro_groups old,
                      ro_batch_size = ro_batch_size old, ro_max_failures = ro_max_failures old, ro_state = Active,
                      ro_created_by = admin_actor p, ro_created_at = 0, ro_updated_at = 0, ro_finished_at = None\<rparr>
                in case ReplaceRollout (pr_tenant p) i nr now d2 of
                     (Inl e, d3) \<Rightarrow> (storeErr e, d3)
                   | (Inr _, d3) \<Rightarrow>
                       (reply_id 201 j, audit p ''rollout.rollback'' ''rollout'' (IdTxt '''' i)
                          [(''from_version'', DStr (ro_version old)), (''to_version'', DStr version),
                           (''new_rollout_id'', DId j)] ''success'' d3)))"

text \<open>The read handlers list rollouts with their summaries and one rollout in detail.\<close>

definition listRollouts :: "principal \<Rightarrow> int option \<Rightarrow> db \<Rightarrow> (rollout_row \<times> rollout_summary option) list res \<times> db" where
  "listRollouts p limit d =
     andThen (ListRollouts (pr_tenant p) (nat (queryInt limit 50 200)) d) (\<lambda>rs d1.
       andThen (RolloutSummaries (pr_tenant p) (map ro_id rs) d1) (\<lambda>smap d2.
         (Inr (map (\<lambda>r. (r, smap (ro_id r))) rs), d2)))"

definition getRollout ::
  "principal \<Rightarrow> uuid \<Rightarrow> db \<Rightarrow> (rollout_row \<times> rollout_summary \<times> (rollout_device_row \<times> string) list) res \<times> db" where
  "getRollout p i d =
     andThen (GetRollout (pr_tenant p) i d) (\<lambda>ro d1.
       andThen (RolloutSummary (pr_tenant p) i d1) (\<lambda>smry d2.
         andThen (ListRolloutDevices (pr_tenant p) i d2) (\<lambda>devs d3. (Inr (ro, smry, devs), d3))))"

section \<open>What each step leaves alone\<close>

text \<open>Two databases that agree on the tables rollouts read and write.\<close>

definition same_fleet :: "db \<Rightarrow> db \<Rightarrow> bool" where
  "same_fleet d d' \<longleftrightarrow> agent_rollouts d' = agent_rollouts d \<and>
     agent_rollout_devices d' = agent_rollout_devices d \<and> devices d' = devices d \<and>
     tenants d' = tenants d \<and> agent_releases d' = agent_releases d"

lemma same_fleet_refl [simp]: "same_fleet d d"
  by (simp add: same_fleet_def)

lemma same_fleet_trans: "same_fleet d d' \<Longrightarrow> same_fleet d' d'' \<Longrightarrow> same_fleet d d''"
  by (simp add: same_fleet_def)

lemma same_fleet_faults: "same_fleet (d\<lparr>faults := fs\<rparr>) d' \<longleftrightarrow> same_fleet d d'"
  by (simp add: same_fleet_def)

lemma same_fleet_fault [simp]: "same_fleet d (d\<lparr>faults := fs\<rparr>)"
  by (simp add: same_fleet_def)

lemma same_fleet_pool:
  assumes "\<And>d. same_fleet d (snd (stmt d))"
  shows "same_fleet d (snd (pool stmt d))"
proof (cases stmt d rule: pool_cases)
  case (ran rest)
  with assms [of "d\<lparr>faults := rest\<rparr>"] show ?thesis by (simp add: same_fleet_faults)
qed simp

lemma same_fleet_AppendAudit [simp]: "same_fleet d (snd (AppendAudit t a b c e f g h d))"
  by (simp add: same_fleet_def store_frame)

lemma same_fleet_queries [simp]:
  "same_fleet d (snd (GetRelease t v d))"
  "same_fleet d (snd (GetRollout t i d))"
  "same_fleet d (snd (RolloutCandidates t i d))"
  "same_fleet d (snd (OpenRollouts d))"
  "same_fleet d (snd (RolloutSummaries t is d))"
  unfolding GetRelease_def GetRollout_def RolloutCandidates_def OpenRollouts_def RolloutSummaries_def
  by (rule same_fleet_pool; simp)+

lemma RolloutSummary_db: "snd (RolloutSummary t i d) = snd (RolloutSummaries t [i] d)"
  by (cases "RolloutSummaries t [i] d"; cases "fst (RolloutSummaries t [i] d)")
     (auto simp: RolloutSummary_def andThen_def)

lemma same_fleet_RolloutSummary [simp]: "same_fleet d (snd (RolloutSummary t i d))"
  by (simp add: RolloutSummary_db)

lemma same_fleet_commands [simp]:
  "same_fleet d (snd (CreateCommand t c d))"
  "same_fleet d (snd (MarkCommandSent t i d))"
  unfolding CreateCommand_def MarkCommandSent_def
  by (rule same_fleet_pool; simp add: same_fleet_def Let_def)+

lemma same_fleet_deliver [simp]: "same_fleet (s_db s) (s_db (deliver_command svc t c s))"
  by (simp add: deliver_command_def Let_def split_beta split: sum.splits)

lemma same_fleet_Issue [simp]: "same_fleet (s_db s) (s_db (snd (Issue svc t i ty p a s)))"
proof -
  let ?d0 = "(s_db s)\<lparr>next_uuid := Suc (next_uuid (s_db s))\<rparr>"
  let ?c = "\<lparr>cm_id = next_uuid (s_db s), cm_tenant = t, cm_device = i, cm_type = TypeName ty,
     cm_payload = p, cm_issued_at = cs_now svc, cm_expires_at = cs_now svc + DefaultTTL,
     cm_state = CUnset, cm_result = '''', cm_completed_at = None\<rparr>"
  obtain r d1 where c: "CreateCommand t ?c ?d0 = (r, d1)" by fastforce
  have "same_fleet ?d0 d1" using same_fleet_commands(1) [of ?d0 t ?c] c by simp
  then have d1: "same_fleet (s_db s) d1" by (simp add: same_fleet_def)
  have "same_fleet d1 (s_db (deliver_command svc t ?c (s\<lparr>s_db := snd (AppendAudit t a b x y z u v d1)\<rparr>)))" for b x y z u v
    using same_fleet_deliver [of "s\<lparr>s_db := snd (AppendAudit t a b x y z u v d1)\<rparr>" svc t ?c]
    by (auto intro: same_fleet_trans [OF same_fleet_AppendAudit])
  with d1 show ?thesis
    by (cases r) (auto simp: Issue_def new_uuid_def Let_def c intro: same_fleet_trans)
qed

lemma same_fleet_emit_event:
  assumes "\<And>em. rs_notify svc = Some em \<Longrightarrow> emitter em"
  shows "same_fleet d (emit_event svc e d)"
proof (cases "rs_notify svc")
  case (Some em)
  then have em: "emitter em" by (rule assms)
  show ?thesis
    using Some emitter.emit_tables [OF em] by (simp add: emit_event_def same_fleet_def)
qed (simp add: emit_event_def)

section \<open>The life of a rollout\<close>

definition rollout_edge :: "rollout_state \<Rightarrow> rollout_state \<Rightarrow> bool" where
  "rollout_edge s s' \<longleftrightarrow>
     (s = Active \<and> s' \<in> {Paused, Completed, Cancelled}) \<or> (s = Paused \<and> s' \<in> {Active, Cancelled})"

definition row_status :: "rollout_row list \<Rightarrow> uuid \<Rightarrow> rollout_state option" where
  "row_status rs i = map_option ro_state (find_row (\<lambda>r. ro_id r = i) rs)"

definition rows_ok :: "rollout_row list \<Rightarrow> bool" where
  "rows_ok rs \<longleftrightarrow> distinct (map ro_id rs) \<and>
     (\<forall>t. length (filter (\<lambda>r. ro_tenant r = t \<and> open_state (ro_state r)) rs) \<le> 1)"

text \<open>A change of the table: it keeps the invariant and moves every row along edges only.\<close>

definition rows_step :: "rollout_row list \<Rightarrow> rollout_row list \<Rightarrow> bool" where
  "rows_step rs rs' \<longleftrightarrow> (rows_ok rs \<longrightarrow> rows_ok rs') \<and>
     (\<forall>i s. row_status rs i = Some s \<longrightarrow> (\<exists>s'. row_status rs' i = Some s' \<and> rollout_edge\<^sup>*\<^sup>* s s'))"

lemma rows_step_refl [simp]: "rows_step rs rs"
  by (auto simp: rows_step_def)

lemma rows_step_trans: "rows_step rs rs' \<Longrightarrow> rows_step rs' rs'' \<Longrightarrow> rows_step rs rs''"
  unfolding rows_step_def by (meson rtranclp_trans)

lemma length_filter_le_1:
  "distinct (map k rs) \<Longrightarrow> (\<And>r. r \<in> set rs \<Longrightarrow> Q r \<Longrightarrow> k r = i) \<Longrightarrow> length (filter Q rs) \<le> 1"
proof (induction rs)
  case (Cons r rs)
  show ?case
  proof (cases "Q r")
    case True
    then have "k r = i" using Cons.prems(2) by simp
    with Cons.prems have "filter Q rs = []" by (fastforce simp: filter_empty_conv image_iff)
    then show ?thesis by simp
  next
    case False
    then show ?thesis using Cons by simp
  qed
qed simp

lemma length_filter_update_le:
  "(\<And>r. P r \<Longrightarrow> Q (f r) \<Longrightarrow> Q r) \<Longrightarrow> length (filter Q (update_where P f rs)) \<le> length (filter Q rs)"
  by (induction rs) auto

lemma rows_step_update:
  assumes f: "\<And>r. ro_id (f r) = ro_id r \<and> ro_tenant (f r) = ro_tenant r \<and> ro_state (f r) = to"
    and P: "\<And>r. P r \<Longrightarrow> ro_tenant r = t \<and> ro_id r = i \<and> rollout_edge\<^sup>*\<^sup>* (ro_state r) to"
    and alone: "open_state to \<Longrightarrow> (\<forall>r \<in> set rs. \<not> P r) \<or>
      (\<forall>r \<in> set rs. ro_tenant r = t \<longrightarrow> open_state (ro_state r) \<longrightarrow> ro_id r = i)"
  shows "rows_step rs (update_where P f rs)"
  unfolding rows_step_def
proof (intro conjI impI allI)
  assume ok: "rows_ok rs"
  let ?Q = "\<lambda>t r. ro_tenant r = t \<and> open_state (ro_state r)"
  have dist: "distinct (map ro_id (update_where P f rs))"
    using ok f by (simp add: rows_ok_def map_update_where_inv)
  have "length (filter (?Q u) (update_where P f rs)) \<le> 1" for u
  proof (cases "open_state to \<and> u = t \<and> (\<exists>r \<in> set rs. P r)")
    case True
    with alone have "\<forall>r \<in> set rs. ro_tenant r = t \<longrightarrow> open_state (ro_state r) \<longrightarrow> ro_id r = i" by blast
    with True f P show ?thesis
      by (intro length_filter_le_1 [OF dist, of _ i]) (auto dest!: in_update_where)
  next
    case False
    then have "length (filter (?Q u) (update_where P f rs)) \<le> length (filter (?Q u) rs)"
      using f P by (cases "\<exists>r \<in> set rs. P r") (auto intro!: length_filter_update_le simp: update_where_none)
    with ok show ?thesis using order_trans unfolding rows_ok_def by blast
  qed
  with dist show "rows_ok (update_where P f rs)" by (simp add: rows_ok_def)
next
  fix j s assume "row_status rs j = Some s"
  then obtain r where r: "find_row (\<lambda>r. ro_id r = j) rs = Some r" "ro_state r = s" by (auto simp: row_status_def)
  then have "row_status (update_where P f rs) j = Some (if P r then to else s)"
    using f find_row_update_where [of ro_id f j P rs] by (simp add: row_status_def)
  with P [of r] r show "\<exists>s'. row_status (update_where P f rs) j = Some s' \<and> rollout_edge\<^sup>*\<^sup>* s s'" by auto
qed

lemma rows_step_append:
  assumes "ro_id r \<notin> ro_id ` set rs"
    and "open_state (ro_state r) \<Longrightarrow> filter (\<lambda>x. ro_tenant x = ro_tenant r \<and> open_state (ro_state x)) rs = []"
  shows "rows_step rs (rs @ [r])"
  using assms by (auto simp: rows_step_def rows_ok_def row_status_def find_row_append)

lemma rollout_edges:
  "rollout_edge\<^sup>*\<^sup>* Active Paused" "rollout_edge\<^sup>*\<^sup>* Active Completed" "rollout_edge\<^sup>*\<^sup>* Active Cancelled"
  "rollout_edge\<^sup>*\<^sup>* Paused Active" "rollout_edge\<^sup>*\<^sup>* Paused Cancelled"
  by (simp_all add: rollout_edge_def r_into_rtranclp)

lemma pool_rows_step:
  assumes "\<And>d. rows_step (agent_rollouts d) (agent_rollouts (snd (stmt d)))"
  shows "rows_step (agent_rollouts d) (agent_rollouts (snd (pool stmt d)))"
proof (cases stmt d rule: pool_cases)
  case (ran rest)
  with assms [of "d\<lparr>faults := rest\<rparr>"] show ?thesis by simp
qed simp

lemma same_fleet_rows_step: "same_fleet d d' \<Longrightarrow> rows_step (agent_rollouts d) (agent_rollouts d')"
  by (simp add: same_fleet_def)

lemma set_state_rows_step:
  assumes "\<forall>s \<in> set from. rollout_edge\<^sup>*\<^sup>* s to"
  shows "rows_step (agent_rollouts d) (agent_rollouts (snd (set_state_stmt t i from to now d)))"
  unfolding set_state_stmt_def Let_def
  using assms by (auto intro!: rows_step_update [where t = t and i = i and to = to])

lemma andThen_rows_step:
  assumes "rows_step rs (agent_rollouts (snd m))"
    and "\<And>x d. m = (Inr x, d) \<Longrightarrow> rows_step (agent_rollouts d) (agent_rollouts (snd (k x d)))"
  shows "rows_step rs (agent_rollouts (snd (andThen m k)))"
  using assms by (cases m; cases "fst m") (auto simp: andThen_def intro: rows_step_trans)

lemma SetRolloutState_rows_step:
  assumes "\<forall>s \<in> set from. rollout_edge\<^sup>*\<^sup>* s to"
  shows "rows_step (agent_rollouts d) (agent_rollouts (snd (SetRolloutState t i from to now d)))"
  unfolding SetRolloutState_def
  by (rule andThen_rows_step [OF pool_rows_step [OF set_state_rows_step [OF assms]]])
     (auto intro!: same_fleet_rows_step)

lemma insert_rows_step: "rows_step (agent_rollouts d) (agent_rollouts (snd (insert_stmt t r d)))"
  by (auto simp: insert_stmt_def open_rollouts_def intro!: rows_step_append)

lemma insertRollout_rows_step: "rows_step (agent_rollouts d) (agent_rollouts (snd (insertRollout t r d)))"
  using pool_rows_step [of "insert_stmt t r", OF insert_rows_step, of d] by (simp add: insertRollout_def split_beta)

lemma cancel_stmt_frame [simp]:
  "agent_releases (snd (cancel_stmt t i now d)) = agent_releases d"
  by (simp add: cancel_stmt_def)

lemma cancel_rows_step:
  assumes "\<And>r. r \<in> set (agent_rollouts d) \<Longrightarrow> ro_tenant r = t \<Longrightarrow> ro_id r = i \<Longrightarrow> open_state (ro_state r)"
  shows "rows_step (agent_rollouts d) (agent_rollouts (snd (cancel_stmt t i now d)))"
proof -
  let ?P = "\<lambda>r. ro_tenant r = t \<and> ro_id r = i" and ?P' = "\<lambda>r. ro_tenant r = t \<and> ro_id r = i \<and> open_state (ro_state r)"
  let ?f = "\<lambda>r. r\<lparr>ro_state := Cancelled, ro_updated_at := now, ro_finished_at := Some now\<rparr>"
  have "update_where ?P ?f (agent_rollouts d) = update_where ?P' ?f (agent_rollouts d)"
    using assms unfolding update_where_def by (intro map_cong) auto
  moreover have "rows_step (agent_rollouts d) (update_where ?P' ?f (agent_rollouts d))"
    by (rule rows_step_update [where to = Cancelled and t = t and i = i])
       (auto simp: open_state_def rollout_edges)
  ultimately show ?thesis by (simp add: cancel_stmt_def)
qed

lemma the_rollout_only:
  "rows_ok (agent_rollouts d) \<Longrightarrow> the_rollout t i d = Some r \<Longrightarrow> x \<in> set (agent_rollouts d) \<Longrightarrow>
     ro_tenant x = t \<Longrightarrow> ro_id x = i \<Longrightarrow> x = r"
  by (auto simp: the_rollout_def rows_ok_def distinct_map inj_on_def dest!: find_row_Some)

text \<open>The row-wise invariant of the whole table, as far as a transaction needs it.\<close>

lemma GetRollout_ok: "GetRollout t i d = (Inr r, d') \<Longrightarrow> the_rollout t i d = Some r \<and> same_fleet d d'"
  using same_fleet_queries(2) [of d t i]
  by (cases "\<lambda>d. (case the_rollout t i d of None \<Rightarrow> Inl ErrNotFound | Some r \<Rightarrow> Inr r, d)" d rule: pool_cases)
     (auto simp: GetRollout_def the_rollout_def split: option.splits)

lemma replace_body_rows:
  assumes "rows_ok (agent_rollouts d)" and "replace_body t i nr now d = (Inr u, d')"
  shows "rows_step (agent_rollouts d) (agent_rollouts d')"
proof -
  obtain old d1 where g: "GetRollout t i d = (Inr old, d1)"
    using assms(2) by (cases "GetRollout t i d"; cases "fst (GetRollout t i d)") (auto simp: replace_body_def)
  have old: "the_rollout t i d = Some old" and d1: "same_fleet d d1" using GetRollout_ok [OF g] by auto
  let ?m = "if open_state (ro_state old) then pool (cancel_stmt t i now) d1 else (Inr (), d1)"
  obtain v d2 where m: "?m = (Inr v, d2)"
    using assms(2) g by (cases ?m; cases "fst ?m") (auto simp: replace_body_def)
  have ins: "insertRollout t nr d2 = (Inr u, d')"
    using assms(2) g m by (simp add: replace_body_def split: if_splits)
  have rows1: "agent_rollouts d1 = agent_rollouts d" using d1 by (simp add: same_fleet_def)
  have open_rows: "open_state (ro_state x)" if "open_state (ro_state old)" "x \<in> set (agent_rollouts d)" "ro_tenant x = t" "ro_id x = i" for x
    using that the_rollout_only [OF assms(1) old, of x] by simp
  have "rows_step (agent_rollouts d1) (agent_rollouts d2)"
  proof (cases "open_state (ro_state old)")
    case True
    then have p: "pool (cancel_stmt t i now) d1 = (Inr v, d2)" using m by simp
    show ?thesis
    proof (cases "cancel_stmt t i now" d1 rule: pool_cases)
      case (lost rest)
      with p show ?thesis by simp
    next
      case (ran rest)
      have "rows_step (agent_rollouts (d1\<lparr>faults := rest\<rparr>)) (agent_rollouts (snd (cancel_stmt t i now (d1\<lparr>faults := rest\<rparr>))))"
        by (rule cancel_rows_step) (use open_rows True rows1 in auto)
      with p ran show ?thesis by simp
    qed
  qed (use m in simp)
  moreover have "rows_step (agent_rollouts d2) (agent_rollouts d')"
    using insertRollout_rows_step [of d2 t nr] ins by simp
  ultimately show ?thesis using rows1 rows_step_trans by simp
qed

lemma ReplaceRollout_rows:
  assumes "rows_ok (agent_rollouts d)"
  shows "rows_step (agent_rollouts d) (agent_rollouts (snd (ReplaceRollout t i nr now d)))"
  unfolding ReplaceRollout_def
proof (cases "replace_body t i nr now" d rule: tx_cases)
  case (rollback e fs u)
  then show "rows_step (agent_rollouts d) (agent_rollouts (snd (tx (replace_body t i nr now) d)))" by simp
next
  case (commit fs x d' fs')
  with replace_body_rows [of "d\<lparr>faults := fs\<rparr>" t i nr now x d'] assms
  show "rows_step (agent_rollouts d) (agent_rollouts (snd (tx (replace_body t i nr now) d)))" by simp
qed

lemma audit_rows [simp]: "agent_rollouts (audit p a b c e g d) = agent_rollouts d"
  by (simp add: store_frame)

lemma handlers_rows_step:
  "rows_step (agent_rollouts d) (agent_rollouts (snd (createRollout p req d)))"
  "rows_step (agent_rollouts d) (agent_rollouts (snd (pauseRollout p i now d)))"
  "rows_step (agent_rollouts d) (agent_rollouts (snd (resumeRollout p i now d)))"
  "rows_step (agent_rollouts d) (agent_rollouts (snd (cancelRollout p i now d)))"
proof -
  let ?d = "d\<lparr>next_uuid := Suc (next_uuid d)\<rparr>"
  show "rows_step (agent_rollouts d) (agent_rollouts (snd (createRollout p req d)))"
    using insertRollout_rows_step [of ?d]
    by (auto simp: createRollout_def new_uuid_def CreateRollout_def Let_def split_beta split: sum.splits)
  have tr: "rows_step (agent_rollouts d) (agent_rollouts (snd (transitionRollout a fr to p i now d)))"
    if "\<forall>s \<in> set fr. rollout_edge\<^sup>*\<^sup>* s to" for a fr to
    using SetRolloutState_rows_step [OF that, of d "pr_tenant p" i now]
    by (auto simp: transitionRollout_def split_beta split: sum.splits prod.splits)
  show "rows_step (agent_rollouts d) (agent_rollouts (snd (pauseRollout p i now d)))"
    "rows_step (agent_rollouts d) (agent_rollouts (snd (resumeRollout p i now d)))"
    "rows_step (agent_rollouts d) (agent_rollouts (snd (cancelRollout p i now d)))"
    unfolding pauseRollout_def resumeRollout_def cancelRollout_def by (rule tr; simp add: rollout_edges)+
qed

lemma rollback_rows:
  assumes "rows_ok (agent_rollouts d)"
  shows "rows_step (agent_rollouts d) (agent_rollouts (snd (rollbackRollout p i v now d)))"
proof (cases "GetRollout (pr_tenant p) i d")
  case (Pair g d1)
  then have "same_fleet d d1" using same_fleet_queries(2) [of d "pr_tenant p" i] by simp
  then have "agent_rollouts (d1\<lparr>next_uuid := u\<rparr>) = agent_rollouts d" for u by (simp add: same_fleet_def)
  then have "rows_step (agent_rollouts d) (agent_rollouts (snd (ReplaceRollout (pr_tenant p) i nr now (d1\<lparr>next_uuid := u\<rparr>))))"
    for nr u
    using ReplaceRollout_rows [of "d1\<lparr>next_uuid := u\<rparr>"] assms by metis
  then show ?thesis
    using \<open>same_fleet d d1\<close> same_fleet_rows_step
    by (auto simp: rollbackRollout_def Pair new_uuid_def Let_def split_beta split: sum.splits prod.splits)
qed

text \<open>The services of the development: the notifier, when there is one, is an emitter.\<close>

definition good_service :: "('sk, 'pk) rollout_service \<Rightarrow> bool" where
  "good_service svc \<longleftrightarrow> (\<forall>em. rs_notify svc = Some em \<longrightarrow> emitter em)"

lemma same_fleet_emit [simp]: "good_service svc \<Longrightarrow> same_fleet d (emit_event svc e d)"
  by (rule same_fleet_emit_event) (simp add: good_service_def)

lemma ResolveRolloutDevices_frame:
  "agent_rollouts (snd (ResolveRolloutDevices t i now to d)) = agent_rollouts d"
  "devices (snd (ResolveRolloutDevices t i now to d)) = devices d"
  "commands (snd (ResolveRolloutDevices t i now to d)) = commands d"
  "agent_releases (snd (ResolveRolloutDevices t i now to d)) = agent_releases d"
  unfolding ResolveRolloutDevices_def pool_def by (simp_all add: Let_def split: list.splits)

lemma AddRolloutDevice_frame [simp]:
  "agent_rollouts (snd (AddRolloutDevice i v c now d)) = agent_rollouts d"
  "devices (snd (AddRolloutDevice i v c now d)) = devices d"
  "commands (snd (AddRolloutDevice i v c now d)) = commands d"
  "agent_releases (snd (AddRolloutDevice i v c now d)) = agent_releases d"
  unfolding AddRolloutDevice_def pool_def add_device_stmt_def by (simp_all add: Let_def split: list.splits)

lemma issue_batch_frame:
  "agent_rollouts (s_db (snd (issue_batch svc t r p cs n sm s))) = agent_rollouts (s_db s) \<and>
   devices (s_db (snd (issue_batch svc t r p cs n sm s))) = devices (s_db s)"
proof (induction svc t r p cs n sm s rule: issue_batch.induct)
  case (2 svc t r p c cs n sm s)
  let ?iss = "IssueUpdate svc t (dv_id c) p (IdTxt ''rollout:'' (ro_id r)) s"
  have iss: "same_fleet (s_db s) (s_db (snd ?iss))" by (simp add: IssueUpdate_def)
  obtain i s1 where is1: "?iss = (i, s1)" by fastforce
  have s1: "agent_rollouts (s_db s1) = agent_rollouts (s_db s)" "devices (s_db s1) = devices (s_db s)"
    using iss is1 by (simp_all add: same_fleet_def)
  show ?case
  proof (cases "n = 0 \<or> (case rs_online svc of Some f \<Rightarrow> \<not> f (s_hub s) (dv_id c) | None \<Rightarrow> False)")
    case True
    then show ?thesis using 2(1) by (auto simp: split_beta)
  next
    case False
    show ?thesis
    proof (cases i)
      case (Inl e)
      with False 2(2) is1 s1 show ?thesis by simp
    next
      case (Inr cmd)
      obtain a d2 where a: "AddRolloutDevice (ro_id r) (dv_id c) cmd (rs_now svc) (s_db s1) = (a, d2)" by fastforce
      have d2: "agent_rollouts d2 = agent_rollouts (s_db s)" "devices d2 = devices (s_db s)"
        using AddRolloutDevice_frame(1,2) [of "ro_id r" "dv_id c" cmd "rs_now svc" "s_db s1"] a s1 by simp_all
      from False Inr is1 a d2 2(3) 2(4) show ?thesis by (cases a) simp_all
    qed
  qed
qed simp

lemma issue_step_rows:
  "agent_rollouts (s_db (snd (issue_step svc t r sm s))) = agent_rollouts (s_db s)"
  "devices (s_db (snd (issue_step svc t r sm s))) = devices (s_db s)"
proof -
  obtain g d1 where g: "GetRelease t (ro_version r) (s_db s) = (g, d1)" by fastforce
  obtain c d2 where c: "RolloutCandidates t (ro_id r) d1 = (c, d2)" by fastforce
  have f: "same_fleet (s_db s) d1" "same_fleet d1 d2"
    using same_fleet_queries(1) [of "s_db s" t "ro_version r"] same_fleet_queries(3) [of d1 t "ro_id r"] g c by simp_all
  then show
    "agent_rollouts (s_db (snd (issue_step svc t r sm s))) = agent_rollouts (s_db s)"
    "devices (s_db (snd (issue_step svc t r sm s))) = devices (s_db s)"
    by (cases g; cases c; simp add: issue_step_def on_db_def g c Let_def split_beta issue_batch_frame same_fleet_def)+
qed

lemma Reconcile_rows_step:
  assumes "good_service svc"
  shows "rows_step (agent_rollouts (s_db s)) (agent_rollouts (s_db (snd (Reconcile svc t r s))))"
proof -
  obtain c d1 where c: "ResolveRolloutDevices t (ro_id r) (rs_now svc) (timeout svc) (s_db s) = (c, d1)" by fastforce
  obtain u d2 where u: "RolloutSummary t (ro_id r) d1 = (u, d2)" by fastforce
  have d1: "agent_rollouts d1 = agent_rollouts (s_db s)"
    using ResolveRolloutDevices_frame(1) [of t "ro_id r" "rs_now svc" "timeout svc" "s_db s"] c by simp
  have d2: "agent_rollouts d2 = agent_rollouts (s_db s)"
    using same_fleet_RolloutSummary [of d1 t "ro_id r"] u d1 by (simp add: same_fleet_def)
  have emit: "rows_step (agent_rollouts d) (agent_rollouts (emit_event svc e (snd (AppendAudit a1 a2 a3 a4 a5 a6 a7 a8 d))))"
    "rows_step (agent_rollouts d) (agent_rollouts (emit_event svc e d))" for d e a1 a2 a3 a4 a5 a6 a7 a8
    using same_fleet_emit [OF assms] same_fleet_AppendAudit by (metis same_fleet_rows_step same_fleet_trans)+
  have pause: "rows_step (agent_rollouts d) (agent_rollouts (snd (auto_pause svc t r sm d)))" for d sm
    unfolding auto_pause_def
    by (rule andThen_rows_step [OF SetRolloutState_rows_step]) (simp_all add: rollout_edges emit Let_def)
  have comp: "rows_step (agent_rollouts d) (agent_rollouts (snd (complete_step svc t r sm d)))" for d sm
    unfolding complete_step_def
    by (auto intro!: andThen_rows_step [OF SetRolloutState_rows_step] simp: rollout_edges emit)
  have rest: "rows_step (agent_rollouts d) (agent_rollouts (s_db (snd (andThen (issue_step svc t r sm s')
      (\<lambda>sm' s3. on_db (complete_step svc t r sm') s3)))))" if "s_db s' = d" for d sm s'
  proof (cases "issue_step svc t r sm s'")
    case (Pair x s3)
    then have "agent_rollouts (s_db s3) = agent_rollouts d"
      using issue_step_rows(1) [of svc t r sm s'] that by simp
    then show ?thesis using comp [of "s_db s3"] by (cases x) (auto simp: Pair on_db_def split_beta)
  qed
  have r1: "on_db (ResolveRolloutDevices t (ro_id r) (rs_now svc) (timeout svc)) s = (c, s\<lparr>s_db := d1\<rparr>)"
    and r2: "on_db (RolloutSummary t (ro_id r)) (s\<lparr>s_db := d1\<rparr>) = (u, s\<lparr>s_db := d2\<rparr>)"
    by (simp_all add: on_db_def c u)
  show ?thesis
    using pause [of d2] rest [of "s\<lparr>s_db := d2\<rparr>" d2] d1 d2
    by (cases c; cases u) (auto simp: Reconcile_def r1 r2)
qed

lemma Tick_rows_step:
  assumes "good_service svc"
  shows "rows_step (agent_rollouts (s_db s)) (agent_rollouts (s_db (snd (Tick svc s))))"
proof -
  have fold: "rows_step (agent_rollouts (s_db s)) (agent_rollouts (s_db (fold (\<lambda>r s. snd (Reconcile svc (ro_tenant r) r s)) rs s)))"
    for rs s
  proof (induction rs arbitrary: s)
    case (Cons r rs)
    then show ?case using Reconcile_rows_step [OF assms] rows_step_trans by fastforce
  qed simp
  obtain o1 d1 where o1: "OpenRollouts (s_db s) = (o1, d1)" by fastforce
  then have "agent_rollouts d1 = agent_rollouts (s_db s)"
    using same_fleet_queries(4) [of "s_db s"] by (simp add: same_fleet_def)
  then show ?thesis
    using fold [of "s\<lparr>s_db := d1\<rparr>"] by (cases o1) (auto simp: Tick_def on_db_def o1)
qed

definition rollout_status :: "srv \<Rightarrow> uuid \<Rightarrow> rollout_state option" where
  "rollout_status s i = row_status (agent_rollouts (s_db s)) i"

definition rollouts_ok :: "srv \<Rightarrow> bool" where
  "rollouts_ok s \<longleftrightarrow> rows_ok (agent_rollouts (s_db s))"

text \<open>
  Everything that happens to a running server: administrators' requests, ticks of the
  rollout service at any instant, and any operation of another component, which does
  not write the rollout table.
\<close>

inductive_set rollout_ops :: "('sk, 'pk) rollout_service set \<Rightarrow> (srv \<Rightarrow> srv) set" for S where
  create: "(\<lambda>s. s\<lparr>s_db := snd (createRollout p req (s_db s))\<rparr>) \<in> rollout_ops S"
| pause: "(\<lambda>s. s\<lparr>s_db := snd (pauseRollout p i now (s_db s))\<rparr>) \<in> rollout_ops S"
| resume: "(\<lambda>s. s\<lparr>s_db := snd (resumeRollout p i now (s_db s))\<rparr>) \<in> rollout_ops S"
| cancel: "(\<lambda>s. s\<lparr>s_db := snd (cancelRollout p i now (s_db s))\<rparr>) \<in> rollout_ops S"
| rollback: "(\<lambda>s. s\<lparr>s_db := snd (rollbackRollout p i v now (s_db s))\<rparr>) \<in> rollout_ops S"
| tick: "svc \<in> S \<Longrightarrow> good_service svc \<Longrightarrow> (\<lambda>s. snd (Tick svc s)) \<in> rollout_ops S"
| other: "(\<And>s. agent_rollouts (s_db (f s)) = agent_rollouts (s_db s)) \<Longrightarrow> f \<in> rollout_ops S"

lemma rollout_op_step:
  assumes "f \<in> rollout_ops S" and "rollouts_ok s"
  shows "rows_step (agent_rollouts (s_db s)) (agent_rollouts (s_db (f s)))"
  using assms(1)
proof cases
  case (rollback p i v now)
  with rollback_rows assms(2) show ?thesis by (simp add: rollouts_ok_def)
next
  case (tick svc)
  with Tick_rows_step show ?thesis by simp
qed (simp_all add: handlers_rows_step)

interpretation rollout_life: lifecycle_inv rollout_status rollouts_ok "rollout_ops S" "rollout_edge\<^sup>+\<^sup>+" for S
proof
  fix f s i st
  assume "f \<in> rollout_ops S" "rollouts_ok s" "rollout_status s i = Some st"
  with rollout_op_step [of f S s] show "\<exists>s'. rollout_status (f s) i = Some s' \<and> (s' = st \<or> rollout_edge\<^sup>+\<^sup>+ st s')"
    by (fastforce simp: rows_step_def rollout_status_def dest: rtranclpD)
next
  fix f s assume "f \<in> rollout_ops S" "rollouts_ok s"
  with rollout_op_step [of f S s] show "rollouts_ok (f s)"
    by (simp add: rows_step_def rollouts_ok_def)
qed

text \<open>
  C1: At most one open rollout per tenant. In any history of administrators' requests,
  ticks and operations of other components, started from a table in which rollout ids
  are unique and no tenant has two active or paused rollouts, that remains so, whatever
  the interleaving and whichever database statements fail.
\<close>

theorem one_open_rollout_per_tenant:
  assumes "set fs \<subseteq> rollout_ops S" and "rollouts_ok s"
  shows "length (open_rollouts t (s_db (fold (\<lambda>f. f) fs s))) \<le> 1"
  using rollout_life.run_inv [OF assms] by (simp add: rollouts_ok_def rows_ok_def open_rollouts_def)

text \<open>
  A finished rollout stays finished. A completed or cancelled rollout keeps that
  state in every such history: no pause, resume, rollback or stale tick revives it.
\<close>

theorem finished_rollout_stays_finished:
  assumes "set fs \<subseteq> rollout_ops S" and "rollouts_ok s" and "rollout_status s i = Some st"
    and "\<not> open_state st"
  shows "rollout_status (fold (\<lambda>f. f) fs s) i = Some st"
proof (rule rollout_life.terminal_forever [OF assms(1-3)])
  show "\<not> rollout_edge\<^sup>+\<^sup>+ st s'" for s'
  proof
    assume "rollout_edge\<^sup>+\<^sup>+ st s'"
    then obtain x where "rollout_edge st x" by (blast dest: tranclpD)
    with assms(4) show False by (simp add: rollout_edge_def open_state_def)
  qed
qed

definition demo_rollout :: rollout_row where
  "demo_rollout = \<lparr>ro_id = 3, ro_tenant = 7, ro_version = ''2.0'', ro_groups = [], ro_batch_size = 2,
     ro_max_failures = 2, ro_state = Active, ro_created_by = Txt ''admin:a'', ro_created_at = 0,
     ro_updated_at = 0, ro_finished_at = None\<rparr>"

definition demo_device :: "uuid \<Rightarrow> device_row" where
  "demo_device i = \<lparr>dv_id = i, dv_tenant = 7, dv_hostname = ''pc'', dv_machine_guid = '''', dv_group = Some 9,
     dv_cert_serial = '''', dv_cert_expires_at = 0, dv_os_build = '''', dv_agent_version = ''1.0'', dv_ips = [],
     dv_user = '''', dv_uptime = 0, dv_last_seen = None, dv_clean_shutdown = False, dv_revoked = False,
     dv_policy_version = '''', dv_asr_available = None, dv_enrolled_at = 0\<rparr>"

definition demo_release :: release_row where
  "demo_release = \<lparr>rl_tenant = 7, rl_version = ''2.0'', rl_sha256 = [], rl_signature = [], rl_uploaded_at = 0\<rparr>"

definition demo_fleet :: srv where
  "demo_fleet = \<lparr>s_db = empty_db\<lparr>tenants := [\<lparr>tn_id = 7, tn_name = ''acme'', tn_suspended = False\<rparr>],
     devices := [demo_device 4, demo_device 5], agent_releases := [demo_release],
     agent_rollouts := [demo_rollout], next_uuid := 20\<rparr>, s_hub = New\<rparr>"

definition demo_rollouts :: "(unit, unit) rollout_service" where
  "demo_rollouts = \<lparr>rs_commands = demo_service, rs_online = None, rs_release_url = (\<lambda>t v. v),
     rs_marshal_update = up_version, rs_now = 1000, rs_confirm_timeout = 0, rs_notify = Some (Emit demo_notify)\<rparr>"

lemma demo_rollouts_good: "good_service demo_rollouts"
  by (simp add: good_service_def demo_rollouts_def notifier.emitter_axioms)

lemma demo_fleet_ok: "rollouts_ok demo_fleet"
  by (simp add: rollouts_ok_def rows_ok_def demo_fleet_def)

theorem one_open_rollout_per_tenant_witness:
  "length (open_rollouts 7 (s_db (snd (Tick demo_rollouts
     (demo_fleet\<lparr>s_db := snd (pauseRollout demo_admin 3 5 (s_db demo_fleet))\<rparr>))))) \<le> 1"
proof -
  let ?fs = "[\<lambda>s. s\<lparr>s_db := snd (pauseRollout demo_admin 3 5 (s_db s))\<rparr>, \<lambda>s. snd (Tick demo_rollouts s)]"
  have "set ?fs \<subseteq> rollout_ops {demo_rollouts}"
    by (auto intro: rollout_ops.intros demo_rollouts_good)
  from one_open_rollout_per_tenant [OF this demo_fleet_ok, of 7] show ?thesis by simp
qed

theorem finished_rollout_stays_finished_witness:
  "rollout_status (snd (Tick demo_rollouts (demo_fleet\<lparr>s_db := (s_db demo_fleet)\<lparr>agent_rollouts :=
     [demo_rollout\<lparr>ro_state := Cancelled\<rparr>]\<rparr>\<rparr>))) 3 = Some Cancelled"
proof -
  let ?s = "demo_fleet\<lparr>s_db := (s_db demo_fleet)\<lparr>agent_rollouts := [demo_rollout\<lparr>ro_state := Cancelled\<rparr>]\<rparr>\<rparr>"
  have "set [\<lambda>s. snd (Tick demo_rollouts s)] \<subseteq> rollout_ops {demo_rollouts}"
    by (auto intro: rollout_ops.intros demo_rollouts_good)
  moreover have "rollouts_ok ?s" "rollout_status ?s 3 = Some Cancelled" "\<not> open_state Cancelled"
    by (simp_all add: rollouts_ok_def rows_ok_def rollout_status_def row_status_def open_state_def demo_rollout_def)
  ultimately show ?thesis
    using finished_rollout_stays_finished [of "[\<lambda>s. snd (Tick demo_rollouts s)]" _ ?s 3 Cancelled] by simp
qed

lemma pool_result:
  assumes "pool stmt d = (Inr x, d')"
  shows "\<exists>fs. stmt (d\<lparr>faults := fs\<rparr>) = (Inr x, d')"
  using assms by (cases stmt d rule: pool_cases) auto

lemma insertRollout_ok:
  assumes "insertRollout t r d = (Inr u, d')"
  shows "agent_rollouts d' = agent_rollouts d @ [r\<lparr>ro_tenant := t, ro_created_at := now_db d, ro_updated_at := now_db d, ro_finished_at := None\<rparr>] \<and>
     ro_id r \<notin> ro_id ` set (agent_rollouts d) \<and> (open_state (ro_state r) \<longrightarrow> open_rollouts t d = []) \<and>
     (\<exists>x \<in> set (agent_releases d). rl_tenant x = t \<and> rl_version x = ro_version r)"
proof -
  obtain n where n: "pool (insert_stmt t r) d = (n, d')" "oneRow (conflict n) = Inr u"
    using assms by (cases "pool (insert_stmt t r) d") (auto simp: insertRollout_def)
  then obtain k where k: "n = Inr k" "k \<noteq> 0" by (cases n) (auto simp: conflict_def oneRow_def split: if_splits)
  from pool_result [of "insert_stmt t r" d k d'] n(1) k
  obtain fs where "insert_stmt t r (d\<lparr>faults := fs\<rparr>) = (Inr k, d')" by auto
  with \<open>k \<noteq> 0\<close> show ?thesis by (auto simp: insert_stmt_def open_rollouts_def split: if_splits)
qed

text \<open>After the cancelling half of a rollback, no row of that id is open.\<close>

lemma replace_body_ok:
  assumes "rows_ok (agent_rollouts d)" and "replace_body t i nr now d = (Inr u, d')"
  obtains d2 where "insertRollout t nr d2 = (Inr u, d')"
    "\<exists>r \<in> set (agent_rollouts d2). ro_tenant r = t \<and> ro_id r = i"
    "\<forall>r \<in> set (agent_rollouts d2). ro_tenant r = t \<longrightarrow> ro_id r = i \<longrightarrow> \<not> open_state (ro_state r)"
proof -
  obtain old d1 where g: "GetRollout t i d = (Inr old, d1)"
    using assms(2) by (cases "GetRollout t i d"; cases "fst (GetRollout t i d)") (auto simp: replace_body_def)
  have old: "the_rollout t i d = Some old" and d1: "agent_rollouts d1 = agent_rollouts d"
    using GetRollout_ok [OF g] by (auto simp: same_fleet_def)
  have in_old: "old \<in> set (agent_rollouts d)" "ro_tenant old = t" "ro_id old = i"
    using old by (auto simp: the_rollout_def dest: find_row_Some)
  let ?m = "if open_state (ro_state old) then pool (cancel_stmt t i now) d1 else (Inr (), d1)"
  obtain v d2 where m: "?m = (Inr v, d2)"
    using assms(2) g by (cases ?m; cases "fst ?m") (auto simp: replace_body_def)
  have ins: "insertRollout t nr d2 = (Inr u, d')"
    using assms(2) g m by (simp add: replace_body_def split: if_splits)
  show thesis
  proof (cases "open_state (ro_state old)")
    case True
    then obtain fs where "cancel_stmt t i now (d1\<lparr>faults := fs\<rparr>) = (Inr v, d2)"
      using m pool_result by fastforce
    then have "agent_rollouts d2 = update_where (\<lambda>r. ro_tenant r = t \<and> ro_id r = i)
       (\<lambda>r. r\<lparr>ro_state := Cancelled, ro_updated_at := now, ro_finished_at := Some now\<rparr>) (agent_rollouts d)"
      using d1 by (auto simp: cancel_stmt_def)
    note rows = this
    show thesis
    proof (rule that [OF ins])
      let ?old = "old\<lparr>ro_state := Cancelled, ro_updated_at := now, ro_finished_at := Some now\<rparr>"
      have "?old \<in> set (agent_rollouts d2)" using in_old by (force simp: rows set_update_where)
      then show "\<exists>r \<in> set (agent_rollouts d2). ro_tenant r = t \<and> ro_id r = i"
        by (rule rev_bexI) (use in_old in simp)
      show "\<forall>r \<in> set (agent_rollouts d2). ro_tenant r = t \<longrightarrow> ro_id r = i \<longrightarrow> \<not> open_state (ro_state r)"
      proof (intro ballI impI)
        fix r assume r: "r \<in> set (agent_rollouts d2)" "ro_tenant r = t" "ro_id r = i"
        from in_update_where [OF r(1) [unfolded rows]] r(2,3) show "\<not> open_state (ro_state r)"
          by (elim disjE bexE) (simp_all add: open_state_def)
      qed
    qed
  next
    case False
    then have "d2 = d1" using m by simp
    then have rows: "agent_rollouts d2 = agent_rollouts d" using d1 by simp
    show thesis
    proof (rule that [OF ins])
      from in_old show "\<exists>r \<in> set (agent_rollouts d2). ro_tenant r = t \<and> ro_id r = i"
        by (intro bexI [of _ old]) (simp_all add: rows)
      show "\<forall>r \<in> set (agent_rollouts d2). ro_tenant r = t \<longrightarrow> ro_id r = i \<longrightarrow> \<not> open_state (ro_state r)"
        using the_rollout_only [OF assms(1) old] False unfolding rows by blast
    qed
  qed
qed

text \<open>
  C7: A rollback is atomic. When ReplaceRollout reports an error, no rollout changed at
  all: the old one was not cancelled. When it succeeds, the old rollout is no longer
  open and the new one is the tenant's only open rollout. Statements may be lost at any
  point, the commit included.
\<close>

theorem rollback_atomic:
  assumes "rows_ok (agent_rollouts d)" and "ro_state nr = Active" and "ReplaceRollout t i nr now d = (res, d')"
  shows "case res of
      Inl e \<Rightarrow> agent_rollouts d' = agent_rollouts d
    | Inr _ \<Rightarrow> map ro_id (open_rollouts t d') = [ro_id nr] \<and>
        (\<forall>r \<in> set (agent_rollouts d'). ro_tenant r = t \<longrightarrow> ro_id r = i \<longrightarrow> \<not> open_state (ro_state r))"
proof (cases "replace_body t i nr now" d rule: tx_cases)
  case (rollback e fs u)
  with assms(3) show ?thesis by (auto simp: ReplaceRollout_def)
next
  case (commit fs x d1 fs')
  have res: "res = Inr x" and rows: "agent_rollouts d' = agent_rollouts d1"
    using assms(3) commit(2) by (auto simp: ReplaceRollout_def)
  have "rows_ok (agent_rollouts (d\<lparr>faults := fs\<rparr>))" using assms(1) by simp
  from replace_body_ok [OF this commit(1)] obtain d2 where ins: "insertRollout t nr d2 = (Inr x, d1)"
    and old: "\<exists>r \<in> set (agent_rollouts d2). ro_tenant r = t \<and> ro_id r = i"
      "\<forall>r \<in> set (agent_rollouts d2). ro_tenant r = t \<longrightarrow> ro_id r = i \<longrightarrow> \<not> open_state (ro_state r)"
    by blast
  from insertRollout_ok [OF ins] assms(2) rows old show ?thesis
    by (auto simp: res open_rollouts_def open_state_def)
qed

theorem rollback_atomic_witness:
  "\<exists>d'. ReplaceRollout 7 3 (demo_rollout\<lparr>ro_id := 8\<rparr>) 50 (s_db demo_fleet) = (Inr (), d') \<and>
     map ro_id (open_rollouts 7 d') = [8]"
proof -
  have "fst (ReplaceRollout 7 3 (demo_rollout\<lparr>ro_id := 8\<rparr>) 50 (s_db demo_fleet)) = Inr ()"
    by (simp add: ReplaceRollout_def tx_def replace_body_def GetRollout_def the_rollout_def demo_fleet_def
        demo_rollout_def demo_release_def cancel_stmt_def insertRollout_def insert_stmt_def open_rollouts_def
        open_state_def tenant_exists_def)
  then obtain d' where R: "ReplaceRollout 7 3 (demo_rollout\<lparr>ro_id := 8\<rparr>) 50 (s_db demo_fleet) = (Inr (), d')"
    by (metis prod.collapse)
  moreover have "rows_ok (agent_rollouts (s_db demo_fleet))" using demo_fleet_ok by (simp add: rollouts_ok_def)
  ultimately show ?thesis
    using rollback_atomic [of "s_db demo_fleet" "demo_rollout\<lparr>ro_id := 8\<rparr>" 7 3 50 "Inr ()" d']
    by (simp add: demo_rollout_def)
qed

section \<open>Batches\<close>

definition in_flight :: "uuid \<Rightarrow> db \<Rightarrow> int" where
  "in_flight i d = int (length (filter (\<lambda>x. rd_rollout x = i \<and> rd_state x = PIssued \<and>
     (\<exists>v \<in> set (devices d). dv_id v = rd_device x \<and> \<not> dv_revoked v)) (agent_rollout_devices d)))"

lemma progress_count_in_flight: "progress_count r PIssued d = in_flight (ro_id r) d"
  by (simp add: progress_count_def in_flight_def)

lemma in_flight_same: "same_fleet d d' \<Longrightarrow> in_flight i d' = in_flight i d"
  by (simp add: same_fleet_def in_flight_def)

lemma AddRolloutDevice_cases:
  obtains (added) x where "fst (AddRolloutDevice i v c now d) = Inr ()"
      "agent_rollout_devices (snd (AddRolloutDevice i v c now d)) = agent_rollout_devices d @ [x]"
      "rd_rollout x = i" "rd_device x = v"
  | (failed) e where "fst (AddRolloutDevice i v c now d) = Inl e"
      "agent_rollout_devices (snd (AddRolloutDevice i v c now d)) = agent_rollout_devices d"
proof -
  have stmt: "(\<exists>e. fst (add_device_stmt i v c now d) = Inl e \<and> snd (add_device_stmt i v c now d) = d) \<or>
      (\<exists>x. add_device_stmt i v c now d = (Inr (), d\<lparr>agent_rollout_devices := agent_rollout_devices d @ [x]\<rparr>) \<and>
        rd_rollout x = i \<and> rd_device x = v)" for d
    by (auto simp: add_device_stmt_def)
  show thesis
  proof (cases "add_device_stmt i v c now" d rule: pool_cases)
    case (lost rest)
    show thesis by (rule failed [of ErrConn]) (simp_all add: AddRolloutDevice_def lost)
  next
    case (ran rest)
    from stmt [of "d\<lparr>faults := rest\<rparr>"] show thesis
    proof (elim disjE exE conjE)
      fix e assume "fst (add_device_stmt i v c now (d\<lparr>faults := rest\<rparr>)) = Inl e"
        "snd (add_device_stmt i v c now (d\<lparr>faults := rest\<rparr>)) = d\<lparr>faults := rest\<rparr>"
      then show thesis
        by (intro failed [of "if e = PgError ''23505'' then ErrConflict else e"])
           (simp_all add: AddRolloutDevice_def ran split_beta conflict_def)
    next
      fix x assume "add_device_stmt i v c now (d\<lparr>faults := rest\<rparr>) =
          (Inr (), d\<lparr>faults := rest, agent_rollout_devices := agent_rollout_devices (d\<lparr>faults := rest\<rparr>) @ [x]\<rparr>)"
        "rd_rollout x = i" "rd_device x = v"
      then show thesis by (intro added [of x]) (simp_all add: AddRolloutDevice_def ran)
    qed
  qed
qed

lemma in_flight_append:
  "devices d' = devices d \<Longrightarrow> agent_rollout_devices d' = agent_rollout_devices d @ [x] \<Longrightarrow>
     in_flight i d' \<le> in_flight i d + 1"
  by (simp add: in_flight_def)

lemma in_flight_cong:
  "devices d' = devices d \<Longrightarrow> agent_rollout_devices d' = agent_rollout_devices d \<Longrightarrow> in_flight i d' = in_flight i d"
  by (simp add: in_flight_def)

text \<open>The counters of the batch loop agree with the table, and the loop adds at most its slots.\<close>

definition batch_counts ::
  "uuid \<Rightarrow> int \<Rightarrow> rollout_summary \<Rightarrow> db \<Rightarrow> rollout_summary \<Rightarrow> db \<Rightarrow> bool" where
  "batch_counts i n sm d sm' d' \<longleftrightarrow>
     su_issued sm \<le> su_issued sm' \<and> su_issued sm' \<le> su_issued sm + n \<and>
     su_remaining sm' + su_issued sm' = su_remaining sm + su_issued sm \<and>
     su_updated sm' = su_updated sm \<and> su_failed sm' = su_failed sm \<and>
     in_flight i d' \<le> in_flight i d + (su_issued sm' - su_issued sm) \<and>
     (su_issued sm' = su_issued sm \<longrightarrow> agent_rollout_devices d' = agent_rollout_devices d)"

lemma issue_batch_counts:
  "0 \<le> n \<Longrightarrow> issue_batch svc t r p cs n sm s = (sm', s') \<Longrightarrow>
     batch_counts (ro_id r) n sm (s_db s) sm' (s_db s')"
proof (induction svc t r p cs n sm s arbitrary: sm' s' rule: issue_batch.induct)
  case (1 svc t r p n sm s)
  then show ?case by (simp add: batch_counts_def)
next
  case (2 svc t r p c cs n sm s)
  let ?iss = "IssueUpdate svc t (dv_id c) p (IdTxt ''rollout:'' (ro_id r)) s"
  let ?off = "case rs_online svc of Some f \<Rightarrow> \<not> f (s_hub s) (dv_id c) | None \<Rightarrow> False"
  obtain i s1 where is1: "?iss = (i, s1)" by fastforce
  have "same_fleet (s_db s) (s_db (snd ?iss))" by (simp add: IssueUpdate_def)
  then have s1: "same_fleet (s_db s) (s_db s1)" by (simp add: is1)
  show ?case
  proof (cases "n = 0 \<or> ?off")
    case True
    show ?thesis
    proof (cases "n = 0")
      case True
      with 2(6) show ?thesis by (auto simp: batch_counts_def)
    next
      case False
      with True 2(1,5,6) show ?thesis by simp
    qed
  next
    case False
    show ?thesis
    proof (cases i)
      case (Inl e)
      with False 2(2,5,6) is1 have "batch_counts (ro_id r) n sm (s_db s1) sm' (s_db s')" by simp
      with s1 show ?thesis by (simp add: batch_counts_def in_flight_same) (simp add: same_fleet_def)
    next
      case (Inr cmd)
      let ?add = "AddRolloutDevice (ro_id r) (dv_id c) cmd (rs_now svc) (s_db s1)"
      obtain a d2 where a: "?add = (a, d2)" by fastforce
      have dev: "devices d2 = devices (s_db s)"
        using AddRolloutDevice_frame(2) [of "ro_id r" "dv_id c" cmd "rs_now svc" "s_db s1"] a s1
        by (simp add: same_fleet_def)
      have rd: "agent_rollout_devices (s_db s1) = agent_rollout_devices (s_db s)"
        using s1 by (simp add: same_fleet_def)
      show ?thesis
      proof (cases rule: AddRolloutDevice_cases [of "ro_id r" "dv_id c" cmd "rs_now svc" "s_db s1"])
        case (added x)
        let ?sm = "sm\<lparr>su_issued := su_issued sm + 1, su_remaining := su_remaining sm - 1\<rparr>"
        have "batch_counts (ro_id r) (n - 1) ?sm d2 sm' (s_db s')"
          using False 2(4,5,6) is1 Inr a added(1) by simp
        moreover have "in_flight (ro_id r) d2 \<le> in_flight (ro_id r) (s_db s) + 1"
          using added(2) a rd by (intro in_flight_append [OF dev]) simp
        ultimately show ?thesis by (auto simp: batch_counts_def)
      next
        case (failed e)
        then have "batch_counts (ro_id r) n sm d2 sm' (s_db s')"
          using False 2(3,5,6) is1 Inr a by simp
        moreover have "agent_rollout_devices d2 = agent_rollout_devices (s_db s)"
          using failed(2) a rd by simp
        ultimately show ?thesis using in_flight_cong [OF dev] by (simp add: batch_counts_def)
      qed
    qed
  qed
qed

section \<open>One pass over a rollout\<close>

text \<open>Two databases that agree on devices and progress rows.\<close>

definition same_progress :: "db \<Rightarrow> db \<Rightarrow> bool" where
  "same_progress d d' \<longleftrightarrow> agent_rollout_devices d' = agent_rollout_devices d \<and> devices d' = devices d"

lemma same_progress_refl [simp]: "same_progress d d"
  by (simp add: same_progress_def)

lemma same_progress_trans: "same_progress d d' \<Longrightarrow> same_progress d' d'' \<Longrightarrow> same_progress d d''"
  by (simp add: same_progress_def)

lemma same_fleet_progress: "same_fleet d d' \<Longrightarrow> same_progress d d'"
  by (simp add: same_progress_def same_fleet_def)

lemma in_flight_progress: "same_progress d d' \<Longrightarrow> in_flight i d' = in_flight i d"
  by (simp add: same_progress_def in_flight_def)

lemma SetRolloutState_progress: "same_progress d (snd (SetRolloutState t i fr to now d))"
proof -
  have stmt: "same_progress d (snd (set_state_stmt t i fr to now d))" for d
    by (simp add: set_state_stmt_def same_progress_def Let_def)
  have p: "same_progress d (snd (pool (set_state_stmt t i fr to now) d))"
    by (rule pool_cases [of "set_state_stmt t i fr to now" d])
       (use stmt in \<open>auto simp: same_progress_def\<close>)
  obtain x d1 where x: "pool (set_state_stmt t i fr to now) d = (x, d1)" by fastforce
  with p have d1: "same_progress d d1" by simp
  have g: "same_progress d1 (snd (GetRollout t i d1))" by (rule same_fleet_progress) simp
  from d1 same_progress_trans [OF d1 g] show ?thesis
    by (cases x) (auto simp: SetRolloutState_def x)
qed

lemma andThen_progress:
  assumes "same_progress d (snd m)" and "\<And>x d1. m = (Inr x, d1) \<Longrightarrow> same_progress d1 (snd (k x d1))"
  shows "same_progress d (snd (andThen m k))"
  using assms by (cases m; cases "fst m") (auto simp: andThen_def intro: same_progress_trans)

lemma finish_progress:
  assumes "good_service svc"
  shows "same_progress d (snd (auto_pause svc t r sm d))" "same_progress d (snd (complete_step svc t r sm d))"
proof -
  have emit: "same_progress d (emit_event svc e (snd (AppendAudit a1 a2 a3 a4 a5 a6 a7 a8 d)))"
    "same_progress d (emit_event svc e d)" for d e a1 a2 a3 a4 a5 a6 a7 a8
    using same_fleet_emit [OF assms] same_fleet_AppendAudit by (metis same_fleet_progress same_fleet_trans)+
  show "same_progress d (snd (auto_pause svc t r sm d))"
    unfolding auto_pause_def by (rule andThen_progress [OF SetRolloutState_progress]) (simp add: emit Let_def)
  show "same_progress d (snd (complete_step svc t r sm d))"
    unfolding complete_step_def by (auto intro!: andThen_progress SetRolloutState_progress emit)
qed

text \<open>The outcomes of a pass: it stopped early, it paused the rollout, or it went on to issue.\<close>

lemma Reconcile_outcome:
  assumes "ro_state r = Active"
    and res: "ResolveRolloutDevices t (ro_id r) (rs_now svc) (timeout svc) (s_db s) = (c, d1)"
  obtains (early) e where "c = Inl e \<or> fst (RolloutSummary t (ro_id r) d1) = Inl e"
      "same_fleet d1 (s_db (snd (Reconcile svc t r s)))"
  | (pause) u nf sm d2 where "c = Inr (u, nf)" "RolloutSummary t (ro_id r) d1 = (Inr sm, d2)"
      "ro_max_failures r > 0" "nf > 0" "su_failed sm \<ge> ro_max_failures r"
      "snd (Reconcile svc t r s) = s\<lparr>s_db := snd (auto_pause svc t r sm d2)\<rparr>"
  | (issue) u nf sm d2 where "c = Inr (u, nf)" "RolloutSummary t (ro_id r) d1 = (Inr sm, d2)"
      "\<not> (ro_max_failures r > 0 \<and> nf > 0 \<and> su_failed sm \<ge> ro_max_failures r)"
      "snd (Reconcile svc t r s) = snd (andThen (issue_step svc t r sm (s\<lparr>s_db := d2\<rparr>))
         (\<lambda>sm' s3. on_db (complete_step svc t r sm') s3))"
proof -
  have r1: "on_db (ResolveRolloutDevices t (ro_id r) (rs_now svc) (timeout svc)) s = (c, s\<lparr>s_db := d1\<rparr>)"
    by (simp add: on_db_def res)
  obtain u d2 where u: "RolloutSummary t (ro_id r) d1 = (u, d2)" by fastforce
  then have r2: "on_db (RolloutSummary t (ro_id r)) (s\<lparr>s_db := d1\<rparr>) = (u, s\<lparr>s_db := d2\<rparr>)"
    by (simp add: on_db_def)
  have d2: "same_fleet d1 d2" using same_fleet_RolloutSummary [of d1 t "ro_id r"] u by simp
  show thesis
  proof (cases c)
    case (Inl e)
    then show thesis using assms(1) by (intro early [of e]) (simp_all add: Reconcile_def r1)
  next
    case (Inr x)
    obtain nu nf where x: "x = (nu, nf)" by (cases x)
    show thesis
    proof (cases u)
      case (Inl e)
      then show thesis using assms(1) Inr d2 by (intro early [of e]) (simp_all add: Reconcile_def r1 r2 u)
    next
      case (Inr sm)
      show thesis
      proof (cases "ro_max_failures r > 0 \<and> nf > 0 \<and> su_failed sm \<ge> ro_max_failures r")
        case True
        then show thesis using assms(1) \<open>c = Inr x\<close> x Inr u
          by (intro pause [of nu nf sm d2]) (simp_all add: Reconcile_def r1 r2)
      next
        case False
        then show thesis using assms(1) \<open>c = Inr x\<close> x Inr u
          by (intro issue [of nu nf sm d2]) (auto simp: Reconcile_def r1 r2)
      qed
    qed
  qed
qed

text \<open>What issuing does: it gives up before any device, or runs the batch and may complete.\<close>

lemma issue_outcome:
  obtains (stop) s3 where "same_fleet (s_db s2) (s_db s3)"
      "snd (andThen (issue_step svc t r sm s2) (\<lambda>sm' s3. on_db (complete_step svc t r sm') s3)) = s3"
  | (run) sm' s3 where "batch_counts (ro_id r) (max 0 (ro_batch_size r - su_issued sm)) sm (s_db s2) sm' (s_db s3)"
      "agent_rollouts (s_db s3) = agent_rollouts (s_db s2)" "devices (s_db s3) = devices (s_db s2)"
      "snd (andThen (issue_step svc t r sm s2) (\<lambda>sm' s3. on_db (complete_step svc t r sm') s3)) =
         s3\<lparr>s_db := snd (complete_step svc t r sm' (s_db s3))\<rparr>"
proof (cases "ro_batch_size r - su_issued sm > 0")
  case False
  then have "issue_step svc t r sm s2 = (Inr sm, s2)" by (simp add: issue_step_def)
  then show thesis using False by (intro run [of sm s2]) (simp_all add: batch_counts_def)
next
  case True
  obtain g d1 where g: "GetRelease t (ro_version r) (s_db s2) = (g, d1)" by fastforce
  obtain c d2 where c: "RolloutCandidates t (ro_id r) d1 = (c, d2)" by fastforce
  have "same_fleet (s_db s2) d1" "same_fleet d1 d2"
    using same_fleet_queries(1) [of "s_db s2" t "ro_version r"] same_fleet_queries(3) [of d1 t "ro_id r"] g c by simp_all
  then have f: "same_fleet (s_db s2) d1" "same_fleet (s_db s2) d2" by (auto intro: same_fleet_trans)
  show thesis
  proof (cases "\<exists>rel cands. g = Inr rel \<and> c = Inr cands")
    case False
    then have "snd (andThen (issue_step svc t r sm s2) k) = s2\<lparr>s_db := d1\<rparr> \<or>
        snd (andThen (issue_step svc t r sm s2) k) = s2\<lparr>s_db := d2\<rparr>" for k :: "rollout_summary \<Rightarrow> srv \<Rightarrow> unit res \<times> srv"
      using True by (cases g; cases c) (simp_all add: issue_step_def on_db_def g c Let_def)
    then show thesis using f by (metis stop srv.select_convs(1) srv.surjective srv.update_convs(1))
  next
    case issued: True
    then obtain rel cands where rc: "g = Inr rel" "c = Inr cands" by blast
    let ?p = "\<lparr>up_version = rl_version rel, up_url = rs_release_url svc t (rl_version rel),
        up_sha256 = rl_sha256 rel, up_signature = rl_signature rel\<rparr>"
    obtain sm' s3 where b: "issue_batch svc t r ?p cands (ro_batch_size r - su_issued sm) sm (s2\<lparr>s_db := d2\<rparr>) = (sm', s3)"
      by fastforce
    have step: "issue_step svc t r sm s2 = (Inr sm', s3)"
      using True rc b by (simp add: issue_step_def on_db_def g c Let_def)
    have "batch_counts (ro_id r) (ro_batch_size r - su_issued sm) sm d2 sm' (s_db s3)"
      using issue_batch_counts [OF _ b] True by simp
    moreover have "agent_rollouts (s_db s3) = agent_rollouts d2" "devices (s_db s3) = devices d2"
      using issue_batch_frame [of svc t r ?p cands "ro_batch_size r - su_issued sm" sm "s2\<lparr>s_db := d2\<rparr>"] b by simp_all
    ultimately show thesis
      using f(2) True in_flight_same [OF f(2)]
      by (intro run [of sm' s3]) (simp_all add: step batch_counts_def same_fleet_def)
  qed
qed

text \<open>Resolving only takes rows out of flight, and keeps the set of touched devices.\<close>

lemma resolve_never_issues: "resolve_row t i cutoff d x \<noteq> Some (PIssued, m)"
  by (auto simp: resolve_row_def resolution_def split: option.splits if_splits)

definition resolved :: "uuid \<Rightarrow> uuid \<Rightarrow> time \<Rightarrow> time \<Rightarrow> db \<Rightarrow> rollout_device_row list" where
  "resolved t i now cutoff d =
     map (\<lambda>x. apply_resolution now (resolve_row t i cutoff d x) x) (agent_rollout_devices d)"

lemma resolve_row_faults [simp]: "resolve_row t i cutoff (d\<lparr>faults := fs\<rparr>) x = resolve_row t i cutoff d x"
  by (simp add: resolve_row_def the_rollout_def)

lemma resolved_faults [simp]: "resolved t i now cutoff (d\<lparr>faults := fs\<rparr>) = resolved t i now cutoff d"
  by (simp add: resolved_def)

lemma Resolve_cases:
  obtains (lost) fs where "ResolveRolloutDevices t i now to d = (Inl ErrConn, d\<lparr>faults := fs\<rparr>)"
  | (ran) fs where "ResolveRolloutDevices t i now to d =
      (Inr (rows_affected (\<lambda>x. resolved_as PUpdated (resolve_row t i (now - to) d x)) (agent_rollout_devices d),
            rows_affected (\<lambda>x. resolved_as PFailed (resolve_row t i (now - to) d x)) (agent_rollout_devices d)),
       d\<lparr>faults := fs, agent_rollout_devices := resolved t i now (now - to) d\<rparr>)"
proof -
  let ?stmt = "\<lambda>d. let res = resolve_row t i (now - to) d; rows = agent_rollout_devices d
     in (Inr (rows_affected (\<lambda>x. resolved_as PUpdated (res x)) rows,
              rows_affected (\<lambda>x. resolved_as PFailed (res x)) rows) :: (nat \<times> nat) res,
         d\<lparr>agent_rollout_devices := map (\<lambda>x. apply_resolution now (res x) x) rows\<rparr>)"
  show thesis
  proof (cases ?stmt d rule: pool_cases)
    case (lost rest)
    show thesis by (rule that(1) [of rest]) (simp only: ResolveRolloutDevices_def lost)
  next
    case (ran rest)
    show thesis
      by (rule that(2) [of rest]) (simp only: ResolveRolloutDevices_def ran, simp add: Let_def resolved_def)
  qed
qed

lemma in_flight_resolved:
  assumes "agent_rollout_devices d' = resolved t i now cutoff d" "devices d' = devices d"
  shows "in_flight j d' \<le> in_flight j d"
  unfolding in_flight_def assms resolved_def of_nat_le_iff
  by (rule length_filter_map_le)
     (auto simp: apply_resolution_def resolve_never_issues split: option.splits prod.splits)

lemma in_flight_Resolve: "in_flight j (snd (ResolveRolloutDevices t i now to d)) \<le> in_flight j d"
proof (cases t i now to d rule: Resolve_cases)
  case (lost fs)
  then show ?thesis by (simp add: in_flight_def)
next
  case (ran fs)
  then show ?thesis by (intro in_flight_resolved [of _ t i now "now - to"]) simp_all
qed

lemma RolloutSummary_ok:
  assumes "RolloutSummary t i d = (Inr sm, d')"
  obtains r where "the_rollout t i d = Some r" "sm = summary_of r d"
proof -
  have faults: "map_option (\<lambda>r. summary_of r (d\<lparr>faults := fs\<rparr>)) (the_rollout t i (d\<lparr>faults := fs\<rparr>)) =
      map_option (\<lambda>r. summary_of r d) (the_rollout t i d)" for fs
    by (simp add: the_rollout_def summary_of_def progress_count_def touched_def)
  obtain x d1 where x: "RolloutSummaries t [i] d = (x, d1)" by fastforce
  obtain f where f: "RolloutSummaries t [i] d = (Inr f, d1)" "f i = Some sm"
  proof (cases x)
    case (Inr f)
    with x assms show thesis by (intro that [of f]) (auto simp: RolloutSummary_def split: option.splits)
  qed (use x assms in \<open>simp add: RolloutSummary_def\<close>)
  from pool_result [OF f(1) [unfolded RolloutSummaries_def]] f(2)
  have "map_option (\<lambda>r. summary_of r d) (the_rollout t i d) = Some sm"
    by (elim exE) (use faults in auto)
  then show thesis using that by auto
qed

lemma summary_issued: "the_rollout t i d = Some r \<Longrightarrow> su_issued (summary_of r d) = in_flight i d"
  by (auto simp: summary_of_def Let_def progress_count_in_flight the_rollout_def dest: find_row_Some)



section \<open>Pausing and completing\<close>

lemma rollout_status_of:
  "rollouts_ok s \<Longrightarrow> the_rollout t i (s_db s) = Some r \<Longrightarrow> rollout_status s i = Some (ro_state r)"
proof -
  assume "rollouts_ok s" "the_rollout t i (s_db s) = Some r"
  then have "find_row (\<lambda>r. ro_id r = i) (agent_rollouts (s_db s)) = Some r"
    by (auto simp: the_rollout_def rollouts_ok_def rows_ok_def dest!: find_row_Some intro: find_row_unique)
  then show ?thesis by (simp add: rollout_status_def row_status_def)
qed

lemma SetRolloutState_rows:
  "agent_rollouts (snd (SetRolloutState t i fr to now d)) = agent_rollouts d \<or>
   agent_rollouts (snd (SetRolloutState t i fr to now d)) =
     update_where (\<lambda>r. ro_tenant r = t \<and> ro_id r = i \<and> ro_state r \<in> set fr)
       (\<lambda>r. r\<lparr>ro_state := to, ro_updated_at := now,
          ro_finished_at := (if to = Completed \<or> to = Cancelled then Some now else ro_finished_at r)\<rparr>) (agent_rollouts d)"
proof -
  obtain x d1 where x: "pool (set_state_stmt t i fr to now) d = (x, d1)" by fastforce
  have "agent_rollouts (snd (SetRolloutState t i fr to now d)) = agent_rollouts d1"
    using same_fleet_queries(2) [of d1 t i] by (cases x) (auto simp: SetRolloutState_def x same_fleet_def)
  moreover have "agent_rollouts d1 = agent_rollouts d \<or> agent_rollouts d1 =
     update_where (\<lambda>r. ro_tenant r = t \<and> ro_id r = i \<and> ro_state r \<in> set fr)
       (\<lambda>r. r\<lparr>ro_state := to, ro_updated_at := now,
          ro_finished_at := (if to = Completed \<or> to = Cancelled then Some now else ro_finished_at r)\<rparr>) (agent_rollouts d)"
    by (rule pool_cases [of "set_state_stmt t i fr to now" d])
       (use x in \<open>auto simp: set_state_stmt_def Let_def split: if_splits\<close>)
  ultimately show ?thesis by simp
qed

lemma SetRolloutState_status:
  "row_status (agent_rollouts d) i = Some st \<Longrightarrow>
     row_status (agent_rollouts (snd (SetRolloutState t j fr to now d))) i \<in> {Some st, Some to}"
  using SetRolloutState_rows [of t j fr to now d]
  by (auto simp: row_status_def find_row_update_where [where k = ro_id])

lemma SetRolloutState_moves:
  assumes "faults d = []" and ok: "rows_ok (agent_rollouts d)" and r: "the_rollout t i d = Some r"
    and "ro_state r \<in> set fr" and "open_state (ro_state r)"
  shows "fst (SetRolloutState t i fr to now d) = Inr () \<and> faults (snd (SetRolloutState t i fr to now d)) = [] \<and>
     row_status (agent_rollouts (snd (SetRolloutState t i fr to now d))) i = Some to"
proof -
  let ?P = "\<lambda>x. ro_tenant x = t \<and> ro_id x = i \<and> ro_state x \<in> set fr"
  have mem: "r \<in> set (agent_rollouts d)" "ro_tenant r = t" "ro_id r = i"
    using r by (auto simp: the_rollout_def dest: find_row_Some)
  have dist: "distinct (map ro_id (agent_rollouts d))" using ok by (simp add: rows_ok_def)
  have n: "rows_affected ?P (agent_rollouts d) = 1"
    using filter_the_row [of ?P ro_id r, OF _ _ dist mem(1)] mem assms(4) by (simp add: rows_affected_def)
  have "length (filter (\<lambda>x. ro_tenant x = t \<and> open_state (ro_state x)) (agent_rollouts d)) \<le> 1"
    using ok by (simp add: rows_ok_def)
  then have alone: "x = r" if "x \<in> set (agent_rollouts d)" "ro_tenant x = t" "open_state (ro_state x)" for x
    by (rule filter_at_most_one) (use that mem assms(5) in simp_all)
  then have guard: "\<not> (\<exists>x \<in> set (agent_rollouts d). ro_tenant x = t \<and> ro_id x \<noteq> i \<and> open_state (ro_state x))"
    using mem by blast
  have "find_row (\<lambda>x. ro_id x = i) (agent_rollouts d) = Some r" using dist mem by (intro find_row_unique) auto
  then show ?thesis
    using assms(1,4) n guard mem
    by (simp add: SetRolloutState_def set_state_stmt_def Let_def row_status_def find_row_update_where [where k = ro_id])
qed

lemma emit_rows: "good_service svc \<Longrightarrow> agent_rollouts (emit_event svc e d) = agent_rollouts d"
  using same_fleet_emit by (auto simp: same_fleet_def)

lemma complete_step_status:
  assumes "good_service svc" and "row_status (agent_rollouts d) i = Some Active"
  shows "row_status (agent_rollouts (snd (complete_step svc t r sm d))) i \<in>
     (if su_issued sm = 0 \<and> su_remaining sm = 0 then {Some Active, Some Completed} else {Some Active})"
proof -
  obtain x d1 where x: "SetRolloutState t (ro_id r) [Active] Completed (rs_now svc) d = (x, d1)" by fastforce
  then have "row_status (agent_rollouts d1) i \<in> {Some Active, Some Completed}"
    using SetRolloutState_status [OF assms(2), of t "ro_id r" "[Active]" Completed "rs_now svc"] by simp
  then show ?thesis
    using assms by (cases x) (auto simp: complete_step_def x emit_rows)
qed

lemma auto_pause_status:
  assumes "good_service svc" and "row_status (agent_rollouts d) i = Some Active"
  shows "row_status (agent_rollouts (snd (auto_pause svc t r sm d))) i \<in> {Some Active, Some Paused}"
proof -
  obtain x d1 where x: "SetRolloutState t (ro_id r) [Active] Paused (rs_now svc) d = (x, d1)" by fastforce
  then have "row_status (agent_rollouts d1) i \<in> {Some Active, Some Paused}"
    using SetRolloutState_status [OF assms(2), of t "ro_id r" "[Active]" Paused "rs_now svc"] by simp
  then show ?thesis
    using assms by (cases x) (auto simp: auto_pause_def x emit_rows store_frame)
qed

lemma the_rollout_rows: "agent_rollouts d' = agent_rollouts d \<Longrightarrow> the_rollout t i d' = the_rollout t i d"
  by (simp add: the_rollout_def)

text \<open>
  C3: Auto-pause happens exactly on a fresh failure that reaches the threshold. With the
  database up, one pass over an active rollout pauses it if and only if failures are
  limited, this very pass resolved some device as failed, and the non-revoked failed
  devices have reached the limit. In particular a rollout resumed after an auto-pause
  keeps running until something new fails: resuming is not a dead end.
\<close>

theorem auto_pause_exactly:
  assumes good: "good_service svc" and nofault: "faults (s_db s) = []" and ok: "rollouts_ok s"
    and r: "the_rollout t (ro_id r) (s_db s) = Some r" and act: "ro_state r = Active"
    and d1: "d1 = snd (ResolveRolloutDevices t (ro_id r) (rs_now svc) (timeout svc) (s_db s))"
  shows "rollout_status (snd (Reconcile svc t r s)) (ro_id r) = Some Paused \<longleftrightarrow>
     0 < ro_max_failures r \<and> ro_max_failures r \<le> progress_count r PFailed d1 \<and>
     (\<exists>x \<in> set (agent_rollout_devices (s_db s)).
        resolved_as PFailed (resolve_row t (ro_id r) (rs_now svc - timeout svc) (s_db s) x))"
proof -
  let ?i = "ro_id r" and ?s' = "snd (Reconcile svc t r s)"
  let ?new = "\<lambda>x. resolved_as PFailed (resolve_row t (ro_id r) (rs_now svc - timeout svc) (s_db s) x)"
  obtain u where res: "ResolveRolloutDevices t ?i (rs_now svc) (timeout svc) (s_db s) =
      (Inr (u, rows_affected ?new (agent_rollout_devices (s_db s))), d1)" and nf1: "faults d1 = []"
    using nofault by (auto simp: d1 ResolveRolloutDevices_def Let_def)
  have rows1: "agent_rollouts d1 = agent_rollouts (s_db s)" by (simp add: d1 ResolveRolloutDevices_frame)
  have r1: "the_rollout t ?i d1 = Some r" using r the_rollout_rows [OF rows1] by simp
  have sum1: "RolloutSummary t ?i d1 = (Inr (summary_of r d1), d1)"
    using nf1 r1 by (simp add: RolloutSummary_def RolloutSummaries_def)
  have st: "row_status (agent_rollouts (s_db s)) ?i = Some Active"
    using rollout_status_of [OF ok r] act by (simp add: rollout_status_def)
  have failed: "su_failed (summary_of r d1) = progress_count r PFailed d1" by (simp add: summary_of_def Let_def)
  have some: "(\<exists>x \<in> set (agent_rollout_devices (s_db s)). ?new x) \<longleftrightarrow> rows_affected ?new (agent_rollout_devices (s_db s)) > 0"
    using rows_affected_0 [of ?new "agent_rollout_devices (s_db s)"] by auto
  from act res show ?thesis
  proof (cases rule: Reconcile_outcome)
    case (early e)
    with res sum1 show ?thesis by simp
  next
    case (pause u' nf sm d2)
    then have eqs: "d2 = d1" "sm = summary_of r d1" "nf = rows_affected ?new (agent_rollout_devices (s_db s))"
      using sum1 by auto
    from SetRolloutState_moves [OF nf1 _ r1, of "[Active]" Paused "rs_now svc"] ok rows1 act
    have "row_status (agent_rollouts (snd (auto_pause svc t r sm d1))) ?i = Some Paused"
      by (cases "SetRolloutState t ?i [Active] Paused (rs_now svc) d1")
         (auto simp: auto_pause_def emit_rows [OF good] store_frame rollouts_ok_def open_state_def)
    then show ?thesis using pause eqs failed some by (simp add: rollout_status_def)
  next
    case (issue u' nf sm d2)
    then have eqs: "d2 = d1" "sm = summary_of r d1" "nf = rows_affected ?new (agent_rollout_devices (s_db s))"
      using sum1 by auto
    have "rollout_status ?s' ?i \<noteq> Some Paused"
    proof (cases rule: issue_outcome [of "s\<lparr>s_db := d2\<rparr>" svc t r sm])
      case (stop s3)
      then show ?thesis using st rows1 eqs by (simp add: issue(4) rollout_status_def same_fleet_def)
    next
      case (run sm' s3)
      then have "row_status (agent_rollouts (s_db s3)) ?i = Some Active" using st rows1 eqs by simp
      from complete_step_status [OF good this, of t r sm'] show ?thesis
        by (auto simp: issue(4) run(4) rollout_status_def split: if_splits)
    qed
    then show ?thesis using issue(3) eqs failed some by auto
  qed
qed

text \<open>Two devices in flight whose update commands failed: enough to pause the example rollout.\<close>

definition demo_failed_command :: "uuid \<Rightarrow> uuid \<Rightarrow> command_row" where
  "demo_failed_command i v = \<lparr>cm_id = i, cm_tenant = 7, cm_device = v, cm_type = ''update_agent'', cm_payload = [],
     cm_issued_at = 0, cm_expires_at = 60, cm_state = CFailed, cm_result = ''boom'', cm_completed_at = Some 10\<rparr>"

definition demo_progress :: "uuid \<Rightarrow> uuid \<Rightarrow> rollout_device_row" where
  "demo_progress v c = \<lparr>rd_rollout = 3, rd_device = v, rd_command = c, rd_state = PIssued, rd_detail = [],
     rd_issued_at = 0, rd_resolved_at = None\<rparr>"

definition demo_failing :: srv where
  "demo_failing = demo_fleet\<lparr>s_db := (s_db demo_fleet)\<lparr>commands := [demo_failed_command 14 4, demo_failed_command 15 5],
     agent_rollout_devices := [demo_progress 4 14, demo_progress 5 15]\<rparr>\<rparr>"

lemmas demo_failing_defs = demo_failing_def demo_fleet_def demo_rollout_def demo_progress_def
  demo_failed_command_def demo_device_def

theorem auto_pause_exactly_witness:
  "rollout_status (snd (Reconcile demo_rollouts 7 demo_rollout demo_failing)) 3 = Some Paused"
proof -
  let ?d = "s_db demo_failing"
  let ?d1 = "snd (ResolveRolloutDevices 7 (ro_id demo_rollout) (rs_now demo_rollouts) (timeout demo_rollouts) ?d)"
  have row: "the_rollout 7 (ro_id demo_rollout) ?d = Some demo_rollout" "ro_state demo_rollout = Active" "faults ?d = []"
    by (simp_all add: the_rollout_def demo_failing_defs)
  have ok: "rollouts_ok demo_failing" by (simp add: rollouts_ok_def rows_ok_def demo_failing_defs)
  have res: "resolve_row 7 (ro_id demo_rollout) c ?d x = Some (PFailed, ''failed: boom'')"
    if "x = demo_progress 4 14 \<or> x = demo_progress 5 15" for x c
    using that by (auto simp: resolve_row_def the_rollout_def resolution_def command_state_text_def demo_failing_defs)
  have rows: "agent_rollout_devices ?d = [demo_progress 4 14, demo_progress 5 15]" by (simp add: demo_failing_def)
  have "agent_rollout_devices ?d1 = map (\<lambda>x. x\<lparr>rd_state := PFailed, rd_detail := ''failed: boom'', rd_resolved_at := Some 1000\<rparr>)
      [demo_progress 4 14, demo_progress 5 15]"
    by (simp add: ResolveRolloutDevices_def row(3) Let_def rows res apply_resolution_def demo_rollouts_def)
  moreover have "devices ?d1 = [demo_device 4, demo_device 5]"
    by (simp add: ResolveRolloutDevices_frame demo_failing_def demo_fleet_def)
  ultimately have "progress_count demo_rollout PFailed ?d1 = 2"
    by (simp add: progress_count_def demo_progress_def demo_device_def demo_rollout_def)
  moreover have "0 < ro_max_failures demo_rollout" "ro_max_failures demo_rollout = 2" by (simp_all add: demo_rollout_def)
  moreover have "\<exists>x \<in> set (agent_rollout_devices ?d). resolved_as PFailed
      (resolve_row 7 (ro_id demo_rollout) (rs_now demo_rollouts - timeout demo_rollouts) ?d x)"
    by (auto simp: rows res resolved_as_def)
  ultimately have "rollout_status (snd (Reconcile demo_rollouts 7 demo_rollout demo_failing)) (ro_id demo_rollout) = Some Paused"
    using auto_pause_exactly [OF demo_rollouts_good row(3) ok row(1,2) refl] by simp
  then show ?thesis by (simp add: demo_rollout_def)
qed

lemma summary_counts:
  "0 \<le> su_issued (summary_of r d)"
  "su_issued (summary_of r d) = 0 \<Longrightarrow> su_remaining (summary_of r d) = 0 \<Longrightarrow> v \<in> set (devices d) \<Longrightarrow> targeted r v \<Longrightarrow>
     dv_agent_version v = ro_version r \<or>
     (\<exists>x \<in> set (agent_rollout_devices d). rd_rollout x = ro_id r \<and> rd_device x = dv_id v \<and> rd_state x \<noteq> PIssued)"
  by (auto simp: summary_of_def Let_def progress_count_def filter_empty_conv touched_def targeted_def)

text \<open>
  A rollout is only completed when every device is dealt with. If a pass over an
  active rollout leaves it completed, then every targeted device (of the tenant, not
  revoked, in the groups) reports the rollout's version or has a progress row that is no
  longer in flight. Statements may fail anywhere in the pass.
\<close>

theorem completed_means_done:
  assumes good: "good_service svc" and ok: "rollouts_ok s"
    and r: "the_rollout t (ro_id r) (s_db s) = Some r" and act: "ro_state r = Active"
    and s': "s' = snd (Reconcile svc t r s)" and comp: "rollout_status s' (ro_id r) = Some Completed"
    and v: "v \<in> set (devices (s_db s'))" "targeted r v"
  shows "dv_agent_version v = ro_version r \<or>
     (\<exists>x \<in> set (agent_rollout_devices (s_db s')).
        rd_rollout x = ro_id r \<and> rd_device x = dv_id v \<and> rd_state x \<noteq> PIssued)"
proof -
  let ?i = "ro_id r"
  obtain c d1 where c: "ResolveRolloutDevices t ?i (rs_now svc) (timeout svc) (s_db s) = (c, d1)" by fastforce
  have rows1: "agent_rollouts d1 = agent_rollouts (s_db s)"
    using ResolveRolloutDevices_frame(1) [of t ?i "rs_now svc" "timeout svc" "s_db s"] c by simp
  have st: "row_status (agent_rollouts d1) ?i = Some Active"
    using rollout_status_of [OF ok r] act rows1 by (simp add: rollout_status_def)
  have comp': "row_status (agent_rollouts (s_db s')) ?i = Some Completed" using comp by (simp add: rollout_status_def)
  from act c show ?thesis
  proof (cases rule: Reconcile_outcome)
    case (early e)
    then show ?thesis using st comp' s' by (simp add: same_fleet_def)
  next
    case (pause u nf sm d2)
    have "agent_rollouts d2 = agent_rollouts d1"
      using same_fleet_RolloutSummary [of d1 t ?i] pause(2) by (simp add: same_fleet_def)
    with auto_pause_status [OF good, of d2 ?i t r sm] st comp' show ?thesis by (simp add: s' pause(6))
  next
    case (issue u nf sm d2)
    have d2: "same_fleet d1 d2" using same_fleet_RolloutSummary [of d1 t ?i] issue(2) by simp
    obtain r' where r': "the_rollout t ?i d1 = Some r'" "sm = summary_of r' d1" using RolloutSummary_ok [OF issue(2)] by blast
    then have sm: "sm = summary_of r d1" using r the_rollout_rows [OF rows1] by simp
    have st2: "row_status (agent_rollouts d2) ?i = Some Active" using st d2 by (simp add: same_fleet_def)
    show ?thesis
    proof (cases rule: issue_outcome [of "s\<lparr>s_db := d2\<rparr>" svc t r sm])
      case (stop s3)
      then show ?thesis using st2 comp' by (simp add: s' issue(4) same_fleet_def)
    next
      case (run sm' s3)
      have st3: "row_status (agent_rollouts (s_db s3)) ?i = Some Active" using st2 run(2) by simp
      have zero: "su_issued sm' = 0" "su_remaining sm' = 0"
        using complete_step_status [OF good st3, of t r sm'] comp'
        by (auto simp: s' issue(4) run(4) split: if_splits)
      with run(1) sm summary_counts(1) [of r d1] have "su_issued sm = 0" "su_remaining sm = 0"
        "agent_rollout_devices (s_db s3) = agent_rollout_devices d2"
        by (auto simp: batch_counts_def)
      moreover have "same_progress (s_db s3) (s_db s')"
        using finish_progress(2) [OF good, of "s_db s3" t r sm'] by (simp add: s' issue(4) run(4))
      ultimately have "agent_rollout_devices (s_db s') = agent_rollout_devices d1" "devices (s_db s') = devices d1"
        using d2 run(3) by (simp_all add: same_progress_def same_fleet_def)
      with summary_counts(2) [of r d1 v] \<open>su_issued sm = 0\<close> \<open>su_remaining sm = 0\<close> sm v show ?thesis by simp
    qed
  qed
qed

definition demo_done :: srv where
  "demo_done = demo_fleet\<lparr>s_db := (s_db demo_fleet)\<lparr>devices := [(demo_device 4)\<lparr>dv_agent_version := ''2.0''\<rparr>]\<rparr>\<rparr>"

definition demo_quiet :: "(unit, unit) rollout_service" where
  "demo_quiet = demo_rollouts\<lparr>rs_notify := None\<rparr>"

theorem completed_means_done_witness:
  "rollout_status (snd (Reconcile demo_quiet 7 demo_rollout demo_done)) 3 = Some Completed \<and>
   (dv_agent_version ((demo_device 4)\<lparr>dv_agent_version := ''2.0''\<rparr>) = ro_version demo_rollout \<or>
    (\<exists>x \<in> set (agent_rollout_devices (s_db (snd (Reconcile demo_quiet 7 demo_rollout demo_done)))).
        rd_rollout x = ro_id demo_rollout \<and> rd_device x = 4 \<and> rd_state x \<noteq> PIssued))"
proof -
  let ?s' = "snd (Reconcile demo_quiet 7 demo_rollout demo_done)" and ?v = "(demo_device 4)\<lparr>dv_agent_version := ''2.0''\<rparr>"
  have good: "good_service demo_quiet" by (simp add: good_service_def demo_quiet_def)
  have row: "the_rollout 7 (ro_id demo_rollout) (s_db demo_done) = Some demo_rollout" "ro_state demo_rollout = Active"
    by (simp_all add: the_rollout_def demo_done_def demo_fleet_def demo_rollout_def)
  have ok: "rollouts_ok demo_done" by (simp add: rollouts_ok_def rows_ok_def demo_done_def demo_fleet_def)
  have s': "rollout_status ?s' (ro_id demo_rollout) = Some Completed \<and> devices (s_db ?s') = [?v]"
    by (simp add: Reconcile_def on_db_def ResolveRolloutDevices_def RolloutSummary_def RolloutSummaries_def summary_of_def
        Let_def progress_count_def targeted_def in_groups_def touched_def issue_step_def GetRelease_def
        RolloutCandidates_def rollout_candidates_def complete_step_def SetRolloutState_def set_state_stmt_def
        emit_event_def rollout_status_def row_status_def open_state_def rows_affected_def the_rollout_def
        demo_quiet_def demo_rollouts_def demo_done_def demo_fleet_def demo_rollout_def demo_device_def demo_release_def)
  have v: "?v \<in> set (devices (s_db ?s'))" "targeted demo_rollout ?v"
    using s' by (simp_all add: targeted_def in_groups_def demo_device_def demo_rollout_def)
  from completed_means_done [OF good ok row refl _ v] s' show ?thesis by (simp add: demo_device_def demo_rollout_def)
qed

section \<open>Who receives an update\<close>

text \<open>
  Every command is an old one or an update for a device that the rollout targets, that
  is not on the version and that the rollout has not touched.
\<close>

definition only_targets :: "uuid \<Rightarrow> rollout_row \<Rightarrow> db \<Rightarrow> db \<Rightarrow> bool" where
  "only_targets t r d0 d \<longleftrightarrow> (\<forall>c \<in> set (commands d). cm_id c \<in> cm_id ` set (commands d0) \<or>
     (cm_tenant c = t \<and> cm_type c = ''update_agent'' \<and>
      (\<exists>v \<in> set (devices d0). dv_id v = cm_device c \<and> targeted r v \<and> dv_agent_version v \<noteq> ro_version r \<and>
         \<not> touched r v d0)))"

lemma only_targets_commands: "commands d' = commands d \<Longrightarrow> only_targets t r d0 d' = only_targets t r d0 d"
  by (simp add: only_targets_def)

lemma only_targets_update:
  assumes "\<And>c. cm_id (f c) = cm_id c \<and> cm_tenant (f c) = cm_tenant c \<and> cm_type (f c) = cm_type c \<and> cm_device (f c) = cm_device c"
    and "only_targets t r d0 d"
  shows "only_targets t r d0 (d\<lparr>commands := update_where P f (commands d)\<rparr>)"
  using assms(2) unfolding only_targets_def
  by (simp add: set_update_where) (use assms(1) in auto)

lemma MarkCommandSent_targets: "only_targets t r d0 d \<Longrightarrow> only_targets t r d0 (snd (MarkCommandSent u i d))"
  unfolding MarkCommandSent_def
proof (rule pool_inv [where P = "only_targets t r d0"])
  show "only_targets t r d0 (d\<lparr>faults := fs\<rparr>)" if "only_targets t r d0 d" for d fs
    using that by (simp add: only_targets_def)
  show "only_targets t r d0 (snd (let P = \<lambda>c. cm_tenant c = u \<and> cm_id c = i \<and> cm_state c = CPending
       in (oneRow (Inr (rows_affected P (commands d))),
           d\<lparr>commands := update_where P (\<lambda>c. c\<lparr>cm_state := CSent\<rparr>) (commands d)\<rparr>)))" if "only_targets t r d0 d" for d
    using that by (simp add: Let_def only_targets_update)
qed

lemma deliver_targets: "only_targets t r d0 (s_db s) \<Longrightarrow> only_targets t r d0 (s_db (deliver_command svc u c s))"
  by (auto simp: deliver_command_def Let_def split_beta MarkCommandSent_targets split: sum.splits)

lemma Issue_targets:
  assumes "only_targets t r d0 (s_db s)" and "v \<in> set (devices d0)" "targeted r v"
    "dv_agent_version v \<noteq> ro_version r" "\<not> touched r v d0"
  shows "only_targets t r d0 (s_db (snd (Issue svc t (dv_id v) UPDATE_AGENT p a s)))"
proof -
  let ?d0 = "(s_db s)\<lparr>next_uuid := Suc (next_uuid (s_db s))\<rparr>"
  let ?c = "\<lparr>cm_id = next_uuid (s_db s), cm_tenant = t, cm_device = dv_id v, cm_type = TypeName UPDATE_AGENT,
     cm_payload = p, cm_issued_at = cs_now svc, cm_expires_at = cs_now svc + DefaultTTL,
     cm_state = CUnset, cm_result = '''', cm_completed_at = None\<rparr>"
  obtain x d1 where x: "CreateCommand t ?c ?d0 = (x, d1)" by fastforce
  have ty: "TypeName UPDATE_AGENT = ''update_agent''" by (simp add: TypeName_def typeNames_def)
  have "only_targets t r d0 (snd (CreateCommand t ?c ?d0))"
    unfolding CreateCommand_def
    by (rule pool_inv [where P = "only_targets t r d0"])
       (use assms ty in \<open>auto simp: only_targets_def\<close>)
  then have d1: "only_targets t r d0 d1" by (simp add: x)
  then have "only_targets t r d0 (s_db (s\<lparr>s_db := snd (AppendAudit a1 a2 a3 a4 a5 a6 a7 a8 d1)\<rparr>))" for a1 a2 a3 a4 a5 a6 a7 a8
    using only_targets_commands [of "snd (AppendAudit a1 a2 a3 a4 a5 a6 a7 a8 d1)" d1 t r d0]
    by (simp add: AppendAudit_tables(3))
  with d1 show ?thesis
    by (cases x) (simp_all add: Issue_def new_uuid_def Let_def x deliver_targets)
qed

lemma issue_batch_targets:
  assumes "\<forall>v \<in> set cs. v \<in> set (devices d0) \<and> targeted r v \<and> dv_agent_version v \<noteq> ro_version r \<and> \<not> touched r v d0"
    and "only_targets t r d0 (s_db s)"
  shows "only_targets t r d0 (s_db (snd (issue_batch svc t r p cs n sm s)))"
  using assms
proof (induction cs arbitrary: n sm s)
  case (Cons c cs)
  let ?iss = "IssueUpdate svc t (dv_id c) p (IdTxt ''rollout:'' (ro_id r)) s"
  obtain i s1 where is1: "?iss = (i, s1)" by fastforce
  have "only_targets t r d0 (s_db (snd ?iss))"
    unfolding IssueUpdate_def by (rule Issue_targets) (use Cons.prems in auto)
  then have s1: "only_targets t r d0 (s_db s1)" by (simp add: is1)
  have d2: "only_targets t r d0 (snd (AddRolloutDevice j v k now (s_db s1)))" for j v k now
    using s1 only_targets_commands [of "snd (AddRolloutDevice j v k now (s_db s1))" "s_db s1"] by simp
  have IH: "only_targets t r d0 (s_db s') \<Longrightarrow> only_targets t r d0 (s_db (snd (issue_batch svc t r p cs n sm s')))" for n sm s'
    using Cons.IH Cons.prems(1) by simp
  show ?case
  proof (cases i)
    case (Inl e)
    with Cons.prems(2) s1 is1 show ?thesis by (auto intro: IH)
  next
    case (Inr k)
    obtain a d2 where a: "AddRolloutDevice (ro_id r) (dv_id c) k (rs_now svc) (s_db s1) = (a, d2)" by fastforce
    then have "only_targets t r d0 (s_db (s1\<lparr>s_db := d2\<rparr>))"
      using d2 [of "ro_id r" "dv_id c" k "rs_now svc"] by simp
    with Cons.prems(2) is1 Inr a show ?thesis by (cases a) (auto intro: IH)
  qed
qed simp

text \<open>Tables a step that issues nothing leaves alone: the commands.\<close>

lemma pool_commands:
  assumes "\<And>d. commands (snd (stmt d)) = commands d"
  shows "commands (snd (pool stmt d)) = commands d"
  by (rule pool_cases [of stmt d]) (use assms in auto)

lemma query_commands [simp]:
  "commands (snd (GetRelease t v d)) = commands d"
  "commands (snd (GetRollout t i d)) = commands d"
  "commands (snd (RolloutCandidates t i d)) = commands d"
  "commands (snd (RolloutSummaries t is d)) = commands d"
  "commands (snd (RolloutSummary t i d)) = commands d"
  unfolding RolloutSummary_db GetRelease_def GetRollout_def RolloutCandidates_def RolloutSummaries_def
  by (rule pool_commands; simp)+

lemma SetRolloutState_commands [simp]: "commands (snd (SetRolloutState t i fr to now d)) = commands d"
proof -
  obtain x d1 where x: "pool (set_state_stmt t i fr to now) d = (x, d1)" by fastforce
  have "commands (snd (pool (set_state_stmt t i fr to now) d)) = commands d"
    by (rule pool_commands) (simp add: set_state_stmt_def Let_def)
  then show ?thesis by (cases x) (auto simp: SetRolloutState_def x)
qed

lemma emit_commands: "good_service svc \<Longrightarrow> commands (emit_event svc e d) = commands d"
  by (cases "rs_notify svc") (auto simp: emit_event_def good_service_def emitter.emit_tables(4))

lemma andThen_commands:
  assumes "commands (snd m) = c" and "\<And>x d. commands d = c \<Longrightarrow> commands (snd (k x d)) = c"
  shows "commands (snd (andThen m k)) = c"
  using assms by (cases m; cases "fst m") (auto simp: andThen_def)

lemma finish_commands:
  assumes "good_service svc"
  shows "commands (snd (auto_pause svc t r sm d)) = commands d" "commands (snd (complete_step svc t r sm d)) = commands d"
  unfolding auto_pause_def complete_step_def
  by (auto intro!: andThen_commands simp: emit_commands [OF assms] store_frame Let_def)

lemma touched_resolved:
  "agent_rollout_devices d' = resolved t i now cutoff d \<Longrightarrow> touched r v d' = touched r v d"
proof -
  assume d': "agent_rollout_devices d' = resolved t i now cutoff d"
  have "rd_rollout (apply_resolution now res x) = rd_rollout x \<and> rd_device (apply_resolution now res x) = rd_device x" for res x
    by (auto simp: apply_resolution_def split: option.splits prod.splits)
  then show ?thesis by (auto simp: touched_def d' resolved_def)
qed

lemma touched_Resolve: "touched r v (snd (ResolveRolloutDevices t i now to d)) = touched r v d"
proof (cases t i now to d rule: Resolve_cases)
  case (lost fs)
  then show ?thesis by (simp add: touched_def)
next
  case (ran fs)
  then show ?thesis by (simp add: touched_resolved [of _ t i now "now - to" d])
qed

lemma issue_step_targets:
  assumes "the_rollout t (ro_id r) (s_db s2) = Some r" and "only_targets t r d0 (s_db s2)"
    and "devices (s_db s2) = devices d0" and "\<And>v. touched r v (s_db s2) = touched r v d0"
  shows "only_targets t r d0 (s_db (snd (issue_step svc t r sm s2)))"
proof -
  obtain g d1 where g: "GetRelease t (ro_version r) (s_db s2) = (g, d1)" by fastforce
  obtain c d2 where c: "RolloutCandidates t (ro_id r) d1 = (c, d2)" by fastforce
  have f: "same_fleet (s_db s2) d1" and f2: "same_fleet d1 d2"
    using same_fleet_queries(1) [of "s_db s2" t "ro_version r"] same_fleet_queries(3) [of d1 t "ro_id r"] g c by simp_all
  have cmd: "only_targets t r d0 d1" "only_targets t r d0 d2"
    using assms(2) query_commands(1) [of t "ro_version r" "s_db s2"] query_commands(3) [of t "ro_id r" d1] g c
    by (simp_all add: only_targets_def)
  have cands: "\<forall>v \<in> set cs. v \<in> set (devices d0) \<and> targeted r v \<and> dv_agent_version v \<noteq> ro_version r \<and> \<not> touched r v d0"
    if cs: "c = Inr cs" for cs
  proof -
    obtain fs where "cs = rollout_candidates t (ro_id r) (d1\<lparr>faults := fs\<rparr>)"
      using pool_result [of "\<lambda>d. (Inr (rollout_candidates t (ro_id r) d), d)" d1 cs d2] c cs
      by (auto simp: RolloutCandidates_def)
    moreover have "the_rollout t (ro_id r) (d1\<lparr>faults := fs\<rparr>) = Some r"
      using assms(1) f by (simp add: the_rollout_def same_fleet_def)
    ultimately show ?thesis
      using f assms(3,4) by (auto simp: rollout_candidates_def same_fleet_def touched_def)
  qed
  show ?thesis
    using assms(2) cmd cands
    by (cases g; cases c)
       (auto simp: issue_step_def on_db_def g c Let_def split_beta intro!: issue_batch_targets)
qed

text \<open>
  Updates only go where the rollout aims. After a pass over a rollout, every command
  in the database either existed before or is an agent update of this tenant for a device
  of this tenant that is not revoked, lies in the rollout's groups, runs another version
  and had no progress row in this rollout: no device is updated twice, and no device of
  another tenant or group is touched.
\<close>

theorem updates_only_for_targets:
  assumes good: "good_service svc" and r: "the_rollout t (ro_id r) (s_db s) = Some r"
  shows "only_targets t r (s_db s) (s_db (snd (Reconcile svc t r s)))"
proof (cases "ro_state r = Active")
  case False
  then show ?thesis by (simp add: Reconcile_def only_targets_def)
next
  case True
  let ?i = "ro_id r" and ?d0 = "s_db s"
  obtain c d1 where c: "ResolveRolloutDevices t ?i (rs_now svc) (timeout svc) ?d0 = (c, d1)" by fastforce
  have d1: "agent_rollouts d1 = agent_rollouts ?d0" "devices d1 = devices ?d0" "commands d1 = commands ?d0"
    "touched r v d1 = touched r v ?d0" for v
    using ResolveRolloutDevices_frame(1-3) [of t ?i "rs_now svc" "timeout svc" ?d0]
      touched_Resolve [of r v t ?i "rs_now svc" "timeout svc" ?d0] c by simp_all
  have t1: "only_targets t r ?d0 d1" using d1 by (simp add: only_targets_def)
  obtain u d2 where u: "RolloutSummary t ?i d1 = (u, d2)" by fastforce
  have d2: "same_fleet d1 d2" "commands d2 = commands d1"
    using same_fleet_RolloutSummary [of d1 t ?i] query_commands(5) [of t ?i d1] u by simp_all
  have t2: "only_targets t r ?d0 d2" using t1 d2(2) by (simp add: only_targets_def)
  have iss: "only_targets t r ?d0 (s_db (snd (issue_step svc t r sm (s\<lparr>s_db := d2\<rparr>))))" for sm
    by (rule issue_step_targets) (use r t2 d1 d2(1) in \<open>simp_all add: the_rollout_def same_fleet_def touched_def\<close>)
  have fin: "only_targets t r ?d0 (s_db (snd (andThen (issue_step svc t r sm (s\<lparr>s_db := d2\<rparr>))
      (\<lambda>sm' s3. on_db (complete_step svc t r sm') s3))))" for sm
    using iss [of sm]
    by (cases "issue_step svc t r sm (s\<lparr>s_db := d2\<rparr>)"; cases "fst (issue_step svc t r sm (s\<lparr>s_db := d2\<rparr>))")
       (auto simp: only_targets_def finish_commands(2) [OF good])
  have r1: "on_db (ResolveRolloutDevices t ?i (rs_now svc) (timeout svc)) s = (c, s\<lparr>s_db := d1\<rparr>)"
    and r2: "on_db (RolloutSummary t ?i) (s\<lparr>s_db := d1\<rparr>) = (u, s\<lparr>s_db := d2\<rparr>)"
    by (simp_all add: on_db_def c u)
  have p: "only_targets t r ?d0 (snd (auto_pause svc t r sm d2))" for sm
    using t2 by (simp add: only_targets_def finish_commands(1) [OF good])
  show ?thesis
    using True t1 t2 fin p by (cases c; cases u) (auto simp: Reconcile_def r1 r2)
qed

theorem updates_only_for_targets_witness:
  "only_targets 7 demo_rollout (s_db demo_fleet) (s_db (snd (Reconcile demo_rollouts 7 demo_rollout demo_fleet)))"
  by (rule updates_only_for_targets [OF demo_rollouts_good])
     (simp add: the_rollout_def demo_fleet_def demo_rollout_def)

text \<open>
  A created rollout is well-formed. When the create handler answers 201, exactly one
  rollout was added to the caller's tenant: active, for an uploaded release of that
  tenant, with a batch size of at least one and a non-negative failure limit. On every
  other answer the table is unchanged.
\<close>

theorem created_rollout_valid:
  assumes "createRollout p req d = (rsp, d')"
  shows "if rsp_code rsp = 201 then
      \<exists>r. agent_rollouts d' = agent_rollouts d @ [r] \<and> ro_tenant r = pr_tenant p \<and> ro_state r = Active \<and>
        1 \<le> ro_batch_size r \<and> 0 \<le> ro_max_failures r \<and> rsp_body rsp = IdBody (ro_id r) \<and>
        (\<exists>x \<in> set (agent_releases d). rl_tenant x = pr_tenant p \<and> rl_version x = ro_version r)
    else agent_rollouts d' = agent_rollouts d"
proof -
  let ?i = "next_uuid d" and ?d0 = "d\<lparr>next_uuid := Suc (next_uuid d)\<rparr>"
  show ?thesis
  proof (cases "newRollout req (admin_actor p) ?i")
    case (Inl msg)
    with assms show ?thesis by (auto simp: createRollout_def new_uuid_def writeErr_def)
  next
    case (Inr ro)
    then have ro: "ro_id ro = ?i" "ro_state ro = Active" "1 \<le> ro_batch_size ro" "0 \<le> ro_max_failures ro"
      by (auto simp: newRollout_def Let_def split: if_splits)
    obtain x d1 where x: "insertRollout (pr_tenant p) ro ?d0 = (x, d1)" by fastforce
    show ?thesis
    proof (cases x)
      case (Inl e)
      have "agent_rollouts d1 = agent_rollouts d"
        using x Inl by (auto simp: insertRollout_def insert_stmt_def pool_def conflict_def oneRow_def Let_def
            split: list.splits if_splits sum.splits)
      moreover have "rsp = storeErr e" "d' = d1"
        using assms Inr x Inl by (auto simp: createRollout_def new_uuid_def CreateRollout_def)
      ultimately show ?thesis using storeErr_not_ok [of e] by auto
    next
      case ok: (Inr u)
      from insertRollout_ok [of "pr_tenant p" ro ?d0 u d1] x ok ro assms Inr show ?thesis
        by (auto simp: createRollout_def new_uuid_def CreateRollout_def reply_id_def store_frame)
    qed
  qed
qed

definition demo_req :: rollout_req where
  "demo_req = \<lparr>rq_version = ''2.0'', rq_group_ids = [Some 9], rq_batch_size = Some 4, rq_max_failures = None\<rparr>"

theorem created_rollout_valid_witness:
  "\<exists>r. agent_rollouts (snd (createRollout demo_admin demo_req
      ((s_db demo_fleet)\<lparr>agent_rollouts := []\<rparr>))) = [] @ [r] \<and> ro_tenant r = 7 \<and> 1 \<le> ro_batch_size r"
proof -
  let ?d = "(s_db demo_fleet)\<lparr>agent_rollouts := []\<rparr>"
  obtain rsp d' where c: "createRollout demo_admin demo_req ?d = (rsp, d')" by fastforce
  then have "rsp_code rsp = 201"
    by (auto simp: createRollout_def new_uuid_def newRollout_def demo_req_def CreateRollout_def insertRollout_def
        insert_stmt_def demo_fleet_def demo_admin_def demo_release_def open_rollouts_def tenant_exists_def
        reply_id_def Let_def defaultRolloutMaxFailures_def)
  with created_rollout_valid [OF c] c show ?thesis by (auto simp: demo_admin_def)
qed

text \<open>
  The progress counts need not add up to the targeted devices. A device that was
  issued an update and then moved out of the rollout's groups still counts as issued,
  but no longer as targeted.
\<close>

theorem summary_counts_exceed_targeted:
  "\<exists>r d. su_targeted (summary_of r d) < su_current (summary_of r d) + su_issued (summary_of r d) +
     su_updated (summary_of r d) + su_failed (summary_of r d) + su_remaining (summary_of r d)"
proof -
  let ?r = "demo_rollout\<lparr>ro_groups := [6]\<rparr>" and ?d = "empty_db\<lparr>devices := [demo_device 4], agent_rollout_devices := [demo_progress 4 14]\<rparr>"
  have "su_targeted (summary_of ?r ?d) < su_current (summary_of ?r ?d) + su_issued (summary_of ?r ?d) +
     su_updated (summary_of ?r ?d) + su_failed (summary_of ?r ?d) + su_remaining (summary_of ?r ?d)"
    by (simp add: summary_of_def Let_def progress_count_def targeted_def in_groups_def touched_def
        demo_rollout_def demo_device_def demo_progress_def)
  then show ?thesis by blast
qed

end
