(* ===== verification/Devices.thy ===== *)
theory Devices
  imports Commands Http
begin

text \<open>
  Devices, device groups and install tokens: the store (\<^verbatim>\<open>store/devices.go\<close>,
  \<^verbatim>\<open>store/tokens.go\<close>), the token text (\<^verbatim>\<open>tokens/tokens.go\<close>) and the console
  handlers (\<^verbatim>\<open>httpapi/tokens.go\<close>, \<^verbatim>\<open>httpapi/devices.go\<close>).
\<close>

section \<open>Install tokens as text\<close>

text \<open>\<^verbatim>\<open>base64.RawURLEncoding\<close> over the bytes of a string.\<close>

definition b64_alphabet :: string where
  "b64_alphabet = ''ABCDEFGHIJKLMNOPQRSTUVWXYZabcdefghijklmnopqrstuvwxyz0123456789-_''"

definition b64 :: "nat \<Rightarrow> char" where
  "b64 n = b64_alphabet ! (n mod 64)"

fun RawURLEncoding :: "bytes \<Rightarrow> string" where
  "RawURLEncoding [] = []"
| "RawURLEncoding [a] = [b64 (byte a div 4), b64 (byte a mod 4 * 16)]"
| "RawURLEncoding [a, b] =
     [b64 (byte a div 4), b64 (byte a mod 4 * 16 + byte b div 16), b64 (byte b mod 16 * 4)]"
| "RawURLEncoding (a # b # c # s) =
     b64 (byte a div 4) # b64 (byte a mod 4 * 16 + byte b div 16) #
     b64 (byte b mod 16 * 4 + byte c div 64) # b64 (byte c mod 64) # RawURLEncoding s"

text \<open>\<^verbatim>\<open>strings.Split\<close> at a single byte.\<close>

fun Split :: "char \<Rightarrow> string \<Rightarrow> string list" where
  "Split c [] = [[]]"
| "Split c (x # s) = (if x = c then [] # Split c s else (case Split c s of [] \<Rightarrow> [[x]] | p # ps \<Rightarrow> (x # p) # ps))"

text \<open>
  The 32 random bytes and SHA-256 are arguments. The text of a token is its secret and
  the pin of the tenant's CA.
\<close>

definition Hash :: "(bytes \<Rightarrow> bytes) \<Rightarrow> string \<Rightarrow> bytes" where
  "Hash sha256 secret = sha256 secret"

definition Generate :: "(bytes \<Rightarrow> bytes) \<Rightarrow> bytes \<Rightarrow> string \<Rightarrow> string \<times> bytes" where
  "Generate sha256 random caPin =
     (let secret = RawURLEncoding random in (secret @ ''.'' @ caPin, Hash sha256 secret))"

definition Parse :: "string \<Rightarrow> (string \<times> string) res" where
  "Parse full = (case Split (CHR ''.'') full of
       [secret, pin] \<Rightarrow> if secret = [] \<or> pin = [] then Inl (ErrText ''malformed install token'') else Inr (secret, pin)
     | _ \<Rightarrow> Inl (ErrText ''malformed install token''))"

section \<open>Groups and tokens in the store\<close>

definition group_in :: "uuid \<Rightarrow> uuid \<Rightarrow> db \<Rightarrow> bool" where
  "group_in tenantID g d \<longleftrightarrow> (\<exists>r \<in> set (device_groups d). gr_tenant r = tenantID \<and> gr_id r = g)"

definition group_exists :: "uuid \<Rightarrow> db \<Rightarrow> bool" where
  "group_exists g d \<longleftrightarrow> g \<in> gr_id ` set (device_groups d)"

definition create_group_stmt :: "uuid \<Rightarrow> uuid \<Rightarrow> string \<Rightarrow> db \<Rightarrow> unit res \<times> db" where
  "create_group_stmt i tenantID name d =
     (if i \<in> gr_id ` set (device_groups d) \<or>
         (\<exists>g \<in> set (device_groups d). gr_tenant g = tenantID \<and> gr_name g = name)
      then (Inl (PgError ''23505''), d)
      else if \<not> tenant_exists tenantID d then (Inl (PgError ''23503''), d)
      else (Inr (), d\<lparr>device_groups := device_groups d @ [\<lparr>gr_id = i, gr_tenant = tenantID, gr_name = name\<rparr>]\<rparr>))"

definition CreateDeviceGroup :: "uuid \<Rightarrow> string \<Rightarrow> db \<Rightarrow> uuid res \<times> db" where
  "CreateDeviceGroup tenantID name d =
     (let (i, d0) = new_uuid d; (r, d1) = pool (create_group_stmt i tenantID name) d0
      in (case conflict r of Inl e \<Rightarrow> Inl e | Inr _ \<Rightarrow> Inr i, d1))"

definition rename_group_stmt :: "uuid \<Rightarrow> uuid \<Rightarrow> string \<Rightarrow> db \<Rightarrow> nat res \<times> db" where
  "rename_group_stmt tenantID i name d =
     (let P = (\<lambda>g. gr_tenant g = tenantID \<and> gr_id g = i) in
      if (\<exists>g \<in> set (device_groups d). P g) \<and>
         (\<exists>g \<in> set (device_groups d). gr_tenant g = tenantID \<and> gr_id g \<noteq> i \<and> gr_name g = name)
      then (Inl (PgError ''23505''), d)
      else (Inr (rows_affected P (device_groups d)),
            d\<lparr>device_groups := update_where P (\<lambda>g. g\<lparr>gr_name := name\<rparr>) (device_groups d)\<rparr>))"

definition RenameDeviceGroup :: "uuid \<Rightarrow> uuid \<Rightarrow> string \<Rightarrow> db \<Rightarrow> unit res \<times> db" where
  "RenameDeviceGroup tenantID i name d =
     (let (r, d') = pool (rename_group_stmt tenantID i name) d in (oneRow (conflict r), d'))"

text \<open>
  Deleting a group: devices and tokens of the tenant are ungrouped first; the DELETE
  is refused while any row still refers to the group, and takes the group's policy
  assignment, controls and ringfence assignment with it.
\<close>

definition ungroup_devices_stmt :: "uuid \<Rightarrow> uuid \<Rightarrow> db \<Rightarrow> unit res \<times> db" where
  "ungroup_devices_stmt tenantID i d =
     (Inr (), d\<lparr>devices := update_where (\<lambda>v. dv_tenant v = tenantID \<and> dv_group v = Some i)
        (\<lambda>v. v\<lparr>dv_group := None\<rparr>) (devices d)\<rparr>)"

definition ungroup_tokens_stmt :: "uuid \<Rightarrow> uuid \<Rightarrow> db \<Rightarrow> unit res \<times> db" where
  "ungroup_tokens_stmt tenantID i d =
     (Inr (), d\<lparr>install_tokens := update_where (\<lambda>k. tk_tenant k = tenantID \<and> tk_group k = Some i)
        (\<lambda>k. k\<lparr>tk_group := None\<rparr>) (install_tokens d)\<rparr>)"

definition delete_group_stmt :: "uuid \<Rightarrow> uuid \<Rightarrow> db \<Rightarrow> unit res \<times> db" where
  "delete_group_stmt tenantID i d =
     (if \<not> group_in tenantID i d then (Inl ErrNotFound, d)
      else if (\<exists>v \<in> set (devices d). dv_group v = Some i) \<or> (\<exists>k \<in> set (install_tokens d). tk_group k = Some i)
      then (Inl (PgError ''23503''), d)
      else (Inr (), d\<lparr>device_groups := filter (\<lambda>g. gr_id g \<noteq> i) (device_groups d),
              policy_assignments := filter (\<lambda>a. pa_group a \<noteq> i) (policy_assignments d),
              device_controls := filter (\<lambda>c. dc_group c \<noteq> i) (device_controls d),
              ringfence_assignments := filter (\<lambda>a. ra_group a \<noteq> i) (ringfence_assignments d)\<rparr>))"

definition delete_group_body :: "uuid \<Rightarrow> uuid \<Rightarrow> db \<Rightarrow> unit res \<times> db" where
  "delete_group_body tenantID i d =
     andThen (pool (ungroup_devices_stmt tenantID i) d) (\<lambda>_ d1.
     andThen (pool (ungroup_tokens_stmt tenantID i) d1) (\<lambda>_ d2.
     pool (delete_group_stmt tenantID i) d2))"

definition DeleteDeviceGroup :: "uuid \<Rightarrow> uuid \<Rightarrow> db \<Rightarrow> unit res \<times> db" where
  "DeleteDeviceGroup tenantID i = tx (delete_group_body tenantID i)"

definition ListDeviceGroups :: "uuid \<Rightarrow> db \<Rightarrow> group_row list res \<times> db" where
  "ListDeviceGroups tenantID = pool (\<lambda>d.
     (Inr (sort_key gr_name (filter (\<lambda>g. gr_tenant g = tenantID) (device_groups d))), d))"

text \<open>max_uses is a 32-bit column: the driver refuses to encode a larger number.\<close>

definition int4 :: "int \<Rightarrow> bool" where
  "int4 n \<longleftrightarrow> - (2 ^ 31) \<le> n \<and> n < 2 ^ 31"

definition create_token_stmt :: "uuid \<Rightarrow> uuid \<Rightarrow> token_row \<Rightarrow> bytes \<Rightarrow> db \<Rightarrow> unit res \<times> db" where
  "create_token_stmt i tenantID t hash d =
     (if i \<in> tk_id ` set (install_tokens d) \<or> hash \<in> tk_hash ` set (install_tokens d)
      then (Inl (PgError ''23505''), d)
      else if (case tk_max_uses t of Some m \<Rightarrow> \<not> int4 m | None \<Rightarrow> False)
      then (Inl (ErrText ''greater than maximum value for int4''), d)
      else if \<not> tenant_exists tenantID d \<or> (case tk_group t of Some g \<Rightarrow> \<not> group_exists g d | None \<Rightarrow> False)
      then (Inl (PgError ''23503''), d)
      else (Inr (), d\<lparr>install_tokens := install_tokens d @
             [t\<lparr>tk_id := i, tk_tenant := tenantID, tk_hash := hash, tk_uses := 0, tk_revoked := False\<rparr>]\<rparr>))"

definition CreateInstallToken :: "uuid \<Rightarrow> token_row \<Rightarrow> bytes \<Rightarrow> db \<Rightarrow> uuid res \<times> db" where
  "CreateInstallToken tenantID t hash d =
     (let (i, d0) = new_uuid d; (r, d1) = pool (create_token_stmt i tenantID t hash) d0
      in (case r of Inl e \<Rightarrow> Inl e | Inr _ \<Rightarrow> Inr i, d1))"

definition ListInstallTokens :: "uuid \<Rightarrow> db \<Rightarrow> token_row list res \<times> db" where
  "ListInstallTokens tenantID = pool (\<lambda>d.
     (Inr (rev (filter (\<lambda>k. tk_tenant k = tenantID) (install_tokens d))), d))"

definition revoke_token_stmt :: "uuid \<Rightarrow> uuid \<Rightarrow> db \<Rightarrow> unit res \<times> db" where
  "revoke_token_stmt tenantID i d =
     (let P = (\<lambda>k. tk_tenant k = tenantID \<and> tk_id k = i)
      in (oneRow (Inr (rows_affected P (install_tokens d))),
          d\<lparr>install_tokens := update_where P (\<lambda>k. k\<lparr>tk_revoked := True\<rparr>) (install_tokens d)\<rparr>))"

definition RevokeInstallToken :: "uuid \<Rightarrow> uuid \<Rightarrow> db \<Rightarrow> unit res \<times> db" where
  "RevokeInstallToken tenantID i = pool (revoke_token_stmt tenantID i)"

section \<open>Devices in the store\<close>

definition OnlineWindow :: duration where "OnlineWindow = 90 * second"

definition Status :: "device_row \<Rightarrow> time \<Rightarrow> string" where
  "Status v now =
     (if dv_revoked v then ''revoked''
      else case dv_last_seen v of
        None \<Rightarrow> ''never_seen''
      | Some t \<Rightarrow>
          if now - t \<le> OnlineWindow then ''online''
          else if dv_clean_shutdown v then ''offline'' else ''unexpected_offline'')"

record new_device =
  nd_id :: uuid
  nd_hostname :: string
  nd_machine_guid :: string
  nd_os_build :: string
  nd_cert_serial :: string
  nd_cert_expires_at :: time

record inventory =
  iv_hostname :: string
  iv_os_build :: string
  iv_ips :: "string list"
  iv_user :: string
  iv_agent_version :: string
  iv_uptime :: int

text \<open>The row an enrollment inserts: the build's fields, the token's tenant and group, column defaults.\<close>

definition enrolled_row :: "time \<Rightarrow> new_device \<Rightarrow> uuid \<Rightarrow> uuid option \<Rightarrow> device_row" where
  "enrolled_row now n tenantID groupID =
     \<lparr>dv_id = nd_id n, dv_tenant = tenantID, dv_hostname = nd_hostname n, dv_machine_guid = nd_machine_guid n,
      dv_group = groupID, dv_cert_serial = nd_cert_serial n, dv_cert_expires_at = nd_cert_expires_at n,
      dv_os_build = nd_os_build n, dv_agent_version = '''', dv_ips = [], dv_user = '''', dv_uptime = 0,
      dv_last_seen = None, dv_clean_shutdown = False, dv_revoked = False, dv_policy_version = '''',
      dv_asr_available = None, dv_enrolled_at = now\<rparr>"

definition token_valid :: "time \<Rightarrow> bool \<Rightarrow> token_row \<Rightarrow> bool" where
  "token_valid now suspended k \<longleftrightarrow>
     \<not> (suspended \<or> tk_revoked k \<or>
        (case tk_expires_at k of Some e \<Rightarrow> \<not> now < e | None \<Rightarrow> False) \<or>
        (case tk_max_uses k of Some m \<Rightarrow> tk_uses k \<ge> m | None \<Rightarrow> False))"

definition select_token_stmt :: "bytes \<Rightarrow> db \<Rightarrow> (token_row \<times> bool) res \<times> db" where
  "select_token_stmt tokenHash d = (case find_row (\<lambda>k. tk_hash k = tokenHash) (install_tokens d) of
       None \<Rightarrow> (Inl ErrTokenInvalid, d)
     | Some k \<Rightarrow> (case find_row (\<lambda>t. tn_id t = tk_tenant k) (tenants d) of
         None \<Rightarrow> (Inl ErrTokenInvalid, d)
       | Some t \<Rightarrow> (Inr (k, tn_suspended t), d)))"

definition insert_device_stmt :: "new_device \<Rightarrow> uuid \<Rightarrow> uuid option \<Rightarrow> db \<Rightarrow> unit res \<times> db" where
  "insert_device_stmt n tenantID groupID d =
     (if nd_id n \<in> dv_id ` set (devices d) then (Inl (PgError ''23505''), d)
      else if \<not> tenant_exists tenantID d \<or> (case groupID of Some g \<Rightarrow> \<not> group_exists g d | None \<Rightarrow> False)
      then (Inl (PgError ''23503''), d)
      else (Inr (), d\<lparr>devices := devices d @ [enrolled_row (now_db d) n tenantID groupID]\<rparr>))"

definition use_token_stmt :: "uuid \<Rightarrow> db \<Rightarrow> unit res \<times> db" where
  "use_token_stmt i d =
     (Inr (), d\<lparr>install_tokens := update_where (\<lambda>k. tk_id k = i) (\<lambda>k. k\<lparr>tk_uses := tk_uses k + 1\<rparr>) (install_tokens d)\<rparr>)"

definition enroll_with :: "time \<Rightarrow> (uuid \<Rightarrow> new_device res) \<Rightarrow> token_row \<times> bool \<Rightarrow> db \<Rightarrow> uuid res \<times> db" where
  "enroll_with now build ks d =
     (let (k, suspended) = ks in
      if \<not> token_valid now suspended k then (Inl ErrTokenInvalid, d)
      else case build (tk_tenant k) of
        Inl e \<Rightarrow> (Inl e, d)
      | Inr n \<Rightarrow>
          andThen (pool (insert_device_stmt n (tk_tenant k) (tk_group k)) d) (\<lambda>_ d1.
          andThen (pool (use_token_stmt (tk_id k)) d1) (\<lambda>_ d2. (Inr (tk_tenant k), d2))))"

definition enroll_body :: "bytes \<Rightarrow> time \<Rightarrow> (uuid \<Rightarrow> new_device res) \<Rightarrow> db \<Rightarrow> uuid res \<times> db" where
  "enroll_body tokenHash now build d =
     andThen (pool (select_token_stmt tokenHash) d) (enroll_with now build)"

definition EnrollDevice :: "bytes \<Rightarrow> time \<Rightarrow> (uuid \<Rightarrow> new_device res) \<Rightarrow> db \<Rightarrow> uuid res \<times> db" where
  "EnrollDevice tokenHash now build = tx (enroll_body tokenHash now build)"

definition GetDevice :: "uuid \<Rightarrow> uuid \<Rightarrow> db \<Rightarrow> device_row res \<times> db" where
  "GetDevice tenantID i = pool (\<lambda>d.
     (case find_row (\<lambda>v. dv_tenant v = tenantID \<and> dv_id v = i) (devices d) of
        None \<Rightarrow> Inl ErrNotFound | Some v \<Rightarrow> Inr v, d))"

definition ListDevices :: "uuid \<Rightarrow> db \<Rightarrow> device_row list res \<times> db" where
  "ListDevices tenantID = pool (\<lambda>d.
     (Inr (sort_key dv_hostname (filter (\<lambda>v. dv_tenant v = tenantID) (devices d))), d))"

text \<open>The updates of one device of a tenant share their shape.\<close>

definition update_device_stmt :: "uuid \<Rightarrow> uuid \<Rightarrow> (device_row \<Rightarrow> device_row) \<Rightarrow> db \<Rightarrow> unit res \<times> db" where
  "update_device_stmt tenantID i f d =
     (let P = (\<lambda>v. dv_tenant v = tenantID \<and> dv_id v = i)
      in (oneRow (Inr (rows_affected P (devices d))), d\<lparr>devices := update_where P f (devices d)\<rparr>))"

definition set_group_stmt :: "uuid \<Rightarrow> uuid \<Rightarrow> uuid option \<Rightarrow> db \<Rightarrow> unit res \<times> db" where
  "set_group_stmt tenantID i groupID d =
     (if (case groupID of None \<Rightarrow> True | Some g \<Rightarrow> group_in tenantID g d)
      then update_device_stmt tenantID i (\<lambda>v. v\<lparr>dv_group := groupID\<rparr>) d
      else (oneRow (Inr 0), d))"

definition SetDeviceGroup :: "uuid \<Rightarrow> uuid \<Rightarrow> uuid option \<Rightarrow> db \<Rightarrow> unit res \<times> db" where
  "SetDeviceGroup tenantID i groupID = pool (set_group_stmt tenantID i groupID)"

definition DeviceAuthState :: "uuid \<Rightarrow> db \<Rightarrow> (uuid \<times> string \<times> bool) res \<times> db" where
  "DeviceAuthState i = pool (\<lambda>d.
     (case find_row (\<lambda>v. dv_id v = i) (devices d) of
        None \<Rightarrow> Inl ErrNotFound
      | Some v \<Rightarrow> Inr (dv_tenant v, dv_cert_serial v, dv_revoked v), d))"

definition RecordHeartbeat :: "uuid \<Rightarrow> uuid \<Rightarrow> inventory \<Rightarrow> time \<Rightarrow> db \<Rightarrow> unit res \<times> db" where
  "RecordHeartbeat tenantID i invt now = pool (update_device_stmt tenantID i
     (\<lambda>v. v\<lparr>dv_hostname := iv_hostname invt, dv_os_build := iv_os_build invt, dv_ips := iv_ips invt,
            dv_user := iv_user invt, dv_agent_version := iv_agent_version invt, dv_uptime := iv_uptime invt,
            dv_last_seen := Some now, dv_clean_shutdown := False\<rparr>))"

definition MarkCleanShutdown :: "uuid \<Rightarrow> uuid \<Rightarrow> db \<Rightarrow> unit res \<times> db" where
  "MarkCleanShutdown tenantID i = pool (update_device_stmt tenantID i (\<lambda>v. v\<lparr>dv_clean_shutdown := True\<rparr>))"

definition RevokeDevice :: "uuid \<Rightarrow> uuid \<Rightarrow> db \<Rightarrow> unit res \<times> db" where
  "RevokeDevice tenantID i = pool (update_device_stmt tenantID i (\<lambda>v. v\<lparr>dv_revoked := True\<rparr>))"

definition UpdateDeviceCert :: "uuid \<Rightarrow> uuid \<Rightarrow> string \<Rightarrow> time \<Rightarrow> db \<Rightarrow> unit res \<times> db" where
  "UpdateDeviceCert tenantID i serial expiresAt = pool (update_device_stmt tenantID i
     (\<lambda>v. v\<lparr>dv_cert_serial := serial, dv_cert_expires_at := expiresAt\<rparr>))"

definition SetDeviceASRAvailable :: "uuid \<Rightarrow> uuid \<Rightarrow> bool \<Rightarrow> db \<Rightarrow> unit res \<times> db" where
  "SetDeviceASRAvailable tenantID i available = pool (update_device_stmt tenantID i
     (\<lambda>v. v\<lparr>dv_asr_available := Some available\<rparr>))"

definition SetDevicePolicyVersion :: "uuid \<Rightarrow> uuid \<Rightarrow> string \<Rightarrow> db \<Rightarrow> unit res \<times> db" where
  "SetDevicePolicyVersion tenantID i pv = pool (update_device_stmt tenantID i
     (\<lambda>v. v\<lparr>dv_policy_version := pv\<rparr>))"

section \<open>Console handlers\<close>

text \<open>
  A 64-bit product wraps around: \<^verbatim>\<open>time.Duration(h) * time.Hour\<close>.
\<close>

definition wrap64 :: "int \<Rightarrow> int" where
  "wrap64 n = (n + 2 ^ 63) mod 2 ^ 64 - 2 ^ 63"

record token_req =
  tq_name :: string
  tq_group :: "uuid option"
  tq_expires_in_hours :: "int option"
  tq_max_uses :: "int option"

text \<open>Store error, or the audited success of a handler without a body.\<close>

definition finish :: "principal \<Rightarrow> string \<Rightarrow> string \<Rightarrow> uuid \<Rightarrow> detail \<Rightarrow> unit res \<times> db \<Rightarrow> response \<times> db" where
  "finish p action targetType i detail r = (case r of
       (Inl e, d) \<Rightarrow> (storeErr e, d)
     | (Inr _, d) \<Rightarrow> (noContent, audit p action targetType (IdTxt '''' i) detail ''success'' d))"

definition createGroup :: "principal \<Rightarrow> string \<Rightarrow> db \<Rightarrow> response \<times> db" where
  "createGroup p reqName d = (let name = TrimSpace reqName in
     if name = [] then (writeErr 400 ''name is required'', d)
     else case CreateDeviceGroup (pr_tenant p) name d of
            (Inl e, d1) \<Rightarrow> (storeErr e, d1)
          | (Inr i, d1) \<Rightarrow> (reply_id 201 i,
              audit p ''group.create'' ''group'' (IdTxt '''' i) [(''name'', DStr name)] ''success'' d1))"

definition renameGroup :: "principal \<Rightarrow> uuid \<Rightarrow> string \<Rightarrow> db \<Rightarrow> response \<times> db" where
  "renameGroup p i reqName d = (let name = TrimSpace reqName in
     if name = [] then (writeErr 400 ''name is required'', d)
     else finish p ''group.rename'' ''group'' i [(''name'', DStr name)] (RenameDeviceGroup (pr_tenant p) i name d))"

definition deleteGroup :: "principal \<Rightarrow> uuid \<Rightarrow> db \<Rightarrow> response \<times> db" where
  "deleteGroup p i d = finish p ''group.delete'' ''group'' i [] (DeleteDeviceGroup (pr_tenant p) i d)"

definition setDeviceGroup :: "principal \<Rightarrow> uuid \<Rightarrow> uuid option \<Rightarrow> db \<Rightarrow> response \<times> db" where
  "setDeviceGroup p i groupID d = finish p ''device.group'' ''device'' i
     [(''group_id'', case groupID of Some g \<Rightarrow> DId g | None \<Rightarrow> DStr ''null'')] (SetDeviceGroup (pr_tenant p) i groupID d)"

definition groupExists :: "principal \<Rightarrow> uuid \<Rightarrow> db \<Rightarrow> bool \<times> db" where
  "groupExists p i d = (case ListDeviceGroups (pr_tenant p) d of
       (Inl _, d1) \<Rightarrow> (False, d1)
     | (Inr gs, d1) \<Rightarrow> (\<exists>g \<in> set gs. gr_id g = i, d1))"

text \<open>
  createToken. The pin of the tenant's CA (or the failure to resolve its keys), the
  random bytes and SHA-256 are arguments.
\<close>

definition createToken ::
  "(uuid \<Rightarrow> string res) \<Rightarrow> (bytes \<Rightarrow> bytes) \<Rightarrow> bytes \<Rightarrow> time \<Rightarrow> principal \<Rightarrow> token_req \<Rightarrow> db \<Rightarrow>
   response \<times> string \<times> db" where
  "createToken pin sha256 random now p q d =
     (let name = TrimSpace (tq_name q) in
      if name = [] \<or> (case tq_expires_in_hours q of Some h \<Rightarrow> h < 1 | None \<Rightarrow> False) \<or>
         (case tq_max_uses q of Some m \<Rightarrow> m < 1 | None \<Rightarrow> False)
      then (writeErr 400 ''name is required; expires_in_hours and max_uses must be positive when set'', '''', d)
      else
        let (known, d1) = (case tq_group q of None \<Rightarrow> (True, d) | Some g \<Rightarrow> groupExists p g d) in
        if \<not> known then (writeErr 400 ''unknown group_id'', '''', d1)
        else case pin (pr_tenant p) of
          Inl _ \<Rightarrow> (writeErr 500 ''could not resolve tenant key'', '''', d1)
        | Inr caPin \<Rightarrow>
            (let (full, hash) = Generate sha256 random caPin;
                 t = \<lparr>tk_id = 0, tk_tenant = 0, tk_hash = [], tk_name = name, tk_group = tq_group q,
                      tk_expires_at = map_option (\<lambda>h. now + wrap64 (h * hour)) (tq_expires_in_hours q),
                      tk_max_uses = tq_max_uses q, tk_uses = 0, tk_revoked = False\<rparr>
             in case CreateInstallToken (pr_tenant p) t hash d1 of
                  (Inl e, d2) \<Rightarrow> (storeErr e, '''', d2)
                | (Inr i, d2) \<Rightarrow> (reply_id 201 i, full,
                    audit p ''token.create'' ''token'' (IdTxt '''' i) [(''name'', DStr name)] ''success'' d2)))"

definition revokeToken :: "principal \<Rightarrow> uuid \<Rightarrow> db \<Rightarrow> response \<times> db" where
  "revokeToken p i d = finish p ''token.revoke'' ''token'' i [] (RevokeInstallToken (pr_tenant p) i d)"

text \<open>RevokedError, and revokeDevice: the row first, then the live stream.\<close>

definition RevokedError :: cause where
  "RevokedError = Cause (ErrText ''device revoked'')"

definition revokeDevice :: "principal \<Rightarrow> uuid \<Rightarrow> srv \<Rightarrow> response \<times> srv" where
  "revokeDevice p i s = (case RevokeDevice (pr_tenant p) i (s_db s) of
       (Inl e, d) \<Rightarrow> (storeErr e, s\<lparr>s_db := d\<rparr>)
     | (Inr _, d) \<Rightarrow> (noContent, s\<lparr>s_db := audit p ''device.revoke'' ''device'' (IdTxt '''' i) [] ''success'' d,
          s_hub := Disconnect i RevokedError (s_hub s)\<rparr>))"

section \<open>Tokens survive printing and parsing\<close>

lemma b64_no_dot: "b64 n \<noteq> CHR ''.''"
proof -
  have "b64 n \<in> set b64_alphabet"
    unfolding b64_def by (rule nth_mem) (simp add: b64_alphabet_def)
  moreover have "CHR ''.'' \<notin> set b64_alphabet" by (simp add: b64_alphabet_def)
  ultimately show ?thesis by metis
qed

lemma RawURLEncoding_no_dot: "CHR ''.'' \<notin> set (RawURLEncoding s)"
  by (induction s rule: RawURLEncoding.induct) (auto simp: b64_no_dot b64_no_dot [symmetric])

lemma RawURLEncoding_empty [simp]: "RawURLEncoding s = [] \<longleftrightarrow> s = []"
  by (cases s rule: RawURLEncoding.cases) auto

lemma Split_none: "c \<notin> set s \<Longrightarrow> Split c s = [s]"
  by (induction s) auto

lemma Split_once: "c \<notin> set a \<Longrightarrow> Split c (a @ c # b) = a # Split c b"
  by (induction a) auto

lemma Split_length: "length (Split c s) = Suc (count_list s c)"
  by (induction s) (auto split: list.splits)

text \<open>
  Install tokens round-trip. The token text handed to an administrator parses back
  into exactly the secret whose hash is stored and the pin of the CA, for every CA pin
  that is not empty and contains no dot; any text with a number of dots other than one
  is rejected.
\<close>

theorem token_roundtrip:
  assumes "random \<noteq> []" and "pin \<noteq> []" and "CHR ''.'' \<notin> set pin"
  shows "\<exists>secret. Parse (fst (Generate sha256 random pin)) = Inr (secret, pin) \<and>
           snd (Generate sha256 random pin) = Hash sha256 secret \<and>
           (\<forall>s. count_list s (CHR ''.'') \<noteq> 1 \<longrightarrow> \<not> is_ok (Parse s))"
proof (intro exI conjI allI impI)
  show "Parse (fst (Generate sha256 random pin)) = Inr (RawURLEncoding random, pin)"
    using assms by (simp add: Parse_def Generate_def Let_def Split_once Split_none RawURLEncoding_no_dot)
  show "snd (Generate sha256 random pin) = Hash sha256 (RawURLEncoding random)"
    by (simp add: Generate_def Let_def)
  fix s assume "count_list s (CHR ''.'') \<noteq> 1"
  then have "length (Split (CHR ''.'') s) \<noteq> 2" by (simp add: Split_length)
  then show "\<not> is_ok (Parse s)" by (auto simp: Parse_def split: list.splits)
qed

theorem token_roundtrip_witness:
  "Parse (fst (Generate (\<lambda>s. s) ''key'' ''ab12'')) = Inr (''a2V5'', ''ab12'')"
proof -
  have "CHR ''.'' \<notin> set ''ab12''" by simp
  with token_roundtrip [of "''key''" "''ab12''" "\<lambda>s. s"]
  obtain secret where "Parse (fst (Generate (\<lambda>s. s) ''key'' ''ab12'')) = Inr (secret, ''ab12'')"
    "snd (Generate (\<lambda>s. s) ''key'' ''ab12'') = Hash (\<lambda>s. s) secret" by auto
  moreover have "snd (Generate (\<lambda>s. s) ''key'' ''ab12'') = ''a2V5''"
    by (simp add: Generate_def Hash_def b64_def b64_alphabet_def byte_def)
  ultimately show ?thesis by (simp add: Hash_def)
qed

section \<open>One enrollment\<close>

lemma select_token_stmt_cases:
  obtains "select_token_stmt h d = (Inl ErrTokenInvalid, d)"
  | k t where "select_token_stmt h d = (Inr (k, tn_suspended t), d)"
      "find_row (\<lambda>k. tk_hash k = h) (install_tokens d) = Some k"
      "t \<in> set (tenants d)" "tn_id t = tk_tenant k"
proof (cases "find_row (\<lambda>k. tk_hash k = h) (install_tokens d)")
  case None
  then show thesis by (intro that(1)) (simp add: select_token_stmt_def)
next
  case (Some k)
  show thesis
  proof (cases "find_row (\<lambda>t. tn_id t = tk_tenant k) (tenants d)")
    case None
    with Some show thesis by (intro that(1)) (simp add: select_token_stmt_def)
  next
    case (Some t)
    with \<open>find_row (\<lambda>k. tk_hash k = h) (install_tokens d) = Some k\<close> find_row_Some [OF Some] show thesis
      by (intro that(2) [of k t]) (simp_all add: select_token_stmt_def)
  qed
qed

lemma insert_device_stmt_ok:
  "insert_device_stmt n t g d = (Inr x, d') \<Longrightarrow>
     nd_id n \<notin> dv_id ` set (devices d) \<and> tenant_exists t d \<and>
     d' = d\<lparr>devices := devices d @ [enrolled_row (now_db d) n t g]\<rparr>"
  by (auto simp: insert_device_stmt_def split: if_splits)

text \<open>What a successful enrollment has checked and changed.\<close>

definition enrollment :: "bytes \<Rightarrow> time \<Rightarrow> (uuid \<Rightarrow> new_device res) \<Rightarrow> db \<Rightarrow> token_row \<Rightarrow> new_device \<Rightarrow> db \<Rightarrow> bool" where
  "enrollment h now build d k n d' \<longleftrightarrow>
     find_row (\<lambda>k. tk_hash k = h) (install_tokens d) = Some k \<and>
     (\<exists>t \<in> set (tenants d). tn_id t = tk_tenant k \<and> token_valid now (tn_suspended t) k) \<and>
     build (tk_tenant k) = Inr n \<and> nd_id n \<notin> dv_id ` set (devices d) \<and>
     (\<exists>fs. d' = d\<lparr>faults := fs,
        devices := devices d @ [enrolled_row (now_db d) n (tk_tenant k) (tk_group k)],
        install_tokens := update_where (\<lambda>x. tk_id x = tk_id k) (\<lambda>x. x\<lparr>tk_uses := tk_uses x + 1\<rparr>) (install_tokens d)\<rparr>)"

lemma pool_ok:
  assumes "pool stmt d = (Inr x, d')"
  obtains fs where "stmt (d\<lparr>faults := fs\<rparr>) = (Inr x, d')"
proof (cases stmt d rule: pool_cases)
  case (lost rest)
  with assms show thesis by simp
next
  case (ran rest)
  with assms show thesis by (intro that [of rest]) simp
qed

lemma andThen_ok:
  assumes "andThen m k = (Inr y, s')"
  obtains x s where "m = (Inr x, s)" "k x s = (Inr y, s')"
  using assms by (cases m; cases "fst m") (auto simp: andThen_def)

lemma enroll_with_ok:
  assumes "enroll_with now build (k, sus) d = (Inr t, d')"
  obtains n fs where "t = tk_tenant k" "token_valid now sus k" "build (tk_tenant k) = Inr n"
    "nd_id n \<notin> dv_id ` set (devices d)"
    "d' = d\<lparr>faults := fs, devices := devices d @ [enrolled_row (now_db d) n (tk_tenant k) (tk_group k)],
       install_tokens := update_where (\<lambda>x. tk_id x = tk_id k) (\<lambda>x. x\<lparr>tk_uses := tk_uses x + 1\<rparr>) (install_tokens d)\<rparr>"
proof -
  from assms obtain n where v: "token_valid now sus k" and n: "build (tk_tenant k) = Inr n"
    and tl: "andThen (pool (insert_device_stmt n (tk_tenant k) (tk_group k)) d) (\<lambda>_ d1.
           andThen (pool (use_token_stmt (tk_id k)) d1) (\<lambda>_ d2. (Inr (tk_tenant k), d2))) = (Inr t, d')"
    by (auto simp: enroll_with_def split: if_splits sum.splits)
  from tl obtain u d1 where ins: "pool (insert_device_stmt n (tk_tenant k) (tk_group k)) d = (Inr u, d1)"
    and tl2: "andThen (pool (use_token_stmt (tk_id k)) d1) (\<lambda>_ d2. (Inr (tk_tenant k), d2)) = (Inr t, d')"
    by (rule andThen_ok)
  from ins obtain fs where "insert_device_stmt n (tk_tenant k) (tk_group k) (d\<lparr>faults := fs\<rparr>) = (Inr u, d1)"
    by (rule pool_ok)
  then have fresh: "nd_id n \<notin> dv_id ` set (devices d)"
    and d1: "d1 = d\<lparr>faults := fs, devices := devices d @ [enrolled_row (now_db d) n (tk_tenant k) (tk_group k)]\<rparr>"
    by (auto dest!: insert_device_stmt_ok)
  from tl2 obtain w d2 where use: "pool (use_token_stmt (tk_id k)) d1 = (Inr w, d2)"
    and t: "(Inr (tk_tenant k) :: uuid res, d2) = (Inr t, d')"
    by (rule andThen_ok)
  from use obtain fs2 where "use_token_stmt (tk_id k) (d1\<lparr>faults := fs2\<rparr>) = (Inr w, d2)" by (rule pool_ok)
  with t v n fresh d1 show thesis by (intro that [of n fs2]) (simp_all add: use_token_stmt_def faults_first)
qed

lemma enroll_body_ok:
  assumes "enroll_body h now build d = (Inr t, d')"
  obtains k n where "t = tk_tenant k" "enrollment h now build d k n d'"
proof -
  from assms obtain ks d1 where sel: "pool (select_token_stmt h) d = (Inr ks, d1)"
    and en: "enroll_with now build ks d1 = (Inr t, d')"
    unfolding enroll_body_def by (rule andThen_ok)
  from sel obtain fs where "select_token_stmt h (d\<lparr>faults := fs\<rparr>) = (Inr ks, d1)" by (rule pool_ok)
  then obtain k tn where ks: "ks = (k, tn_suspended tn)" and d1: "d1 = d\<lparr>faults := fs\<rparr>"
    and k: "find_row (\<lambda>k. tk_hash k = h) (install_tokens d) = Some k"
    and tn: "tn \<in> set (tenants d)" "tn_id tn = tk_tenant k"
    by (cases h "d\<lparr>faults := fs\<rparr>" rule: select_token_stmt_cases) auto
  from en ks obtain n fs2 where "t = tk_tenant k" "token_valid now (tn_suspended tn) k"
    "build (tk_tenant k) = Inr n" "nd_id n \<notin> dv_id ` set (devices d1)"
    "d' = d1\<lparr>faults := fs2, devices := devices d1 @ [enrolled_row (now_db d1) n (tk_tenant k) (tk_group k)],
       install_tokens := update_where (\<lambda>x. tk_id x = tk_id k) (\<lambda>x. x\<lparr>tk_uses := tk_uses x + 1\<rparr>) (install_tokens d1)\<rparr>"
    by (auto elim!: enroll_with_ok)
  with d1 k tn have "enrollment h now build d k n d'" by (auto simp: enrollment_def)
  with \<open>t = tk_tenant k\<close> show thesis by (rule that)
qed

lemma EnrollDevice_cases:
  obtains (refused) e fs u where "EnrollDevice h now build d = (Inl e, d\<lparr>faults := fs, next_uuid := u\<rparr>)"
  | (enrolled) k n d' where "EnrollDevice h now build d = (Inr (tk_tenant k), d')" "enrollment h now build d k n d'"
proof (cases "enroll_body h now build" d rule: tx_cases)
  case (rollback e fs u)
  then show thesis by (intro refused) (simp add: EnrollDevice_def)
next
  case (commit fs t d' fs')
  from commit(1) obtain k n where t: "t = tk_tenant k" and en: "enrollment h now build (d\<lparr>faults := fs\<rparr>) k n d'"
    by (rule enroll_body_ok)
  from en have "enrollment h now build d k n (d'\<lparr>faults := fs'\<rparr>)"
    by (auto simp: enrollment_def faults_first)
  with commit(2) t show thesis by (intro enrolled) (simp_all add: EnrollDevice_def)
qed

text \<open>
  Enrollment is all or nothing. Whatever statements fail, an enrollment either
  reports an error and leaves every table as it was (no device row, no token use
  consumed), or it found the token by its hash, the token was valid (its tenant not
  suspended, itself not revoked, not expired, not exhausted), and exactly one new,
  unrevoked device was added, in the token's tenant and group, with exactly one more
  use of that token.
\<close>

theorem enroll_all_or_nothing:
  "case EnrollDevice h now build d of
     (Inl e, d') \<Rightarrow> \<exists>fs u. d' = d\<lparr>faults := fs, next_uuid := u\<rparr>
   | (Inr t, d') \<Rightarrow> \<exists>k n tn. k \<in> set (install_tokens d) \<and> tk_hash k = h \<and> tk_tenant k = t \<and>
       tn \<in> set (tenants d) \<and> tn_id tn = t \<and> \<not> tn_suspended tn \<and> \<not> tk_revoked k \<and>
       (case tk_expires_at k of None \<Rightarrow> True | Some e \<Rightarrow> now < e) \<and> (case tk_max_uses k of None \<Rightarrow> True | Some m \<Rightarrow> tk_uses k < m) \<and>
       build t = Inr n \<and> devices d' = devices d @ [enrolled_row (now_db d) n t (tk_group k)] \<and>
       install_tokens d' = update_where (\<lambda>x. tk_id x = tk_id k) (\<lambda>x. x\<lparr>tk_uses := tk_uses x + 1\<rparr>) (install_tokens d)"
proof (cases h now build d rule: EnrollDevice_cases)
  case (refused e fs u)
  then show ?thesis by auto
next
  case (enrolled k n d')
  from enrolled(2) obtain tn fs where
    k: "find_row (\<lambda>k. tk_hash k = h) (install_tokens d) = Some k" and
    tn: "tn \<in> set (tenants d)" "tn_id tn = tk_tenant k" "token_valid now (tn_suspended tn) k" and
    n: "build (tk_tenant k) = Inr n" and
    d': "d' = d\<lparr>faults := fs, devices := devices d @ [enrolled_row (now_db d) n (tk_tenant k) (tk_group k)],
       install_tokens := update_where (\<lambda>x. tk_id x = tk_id k) (\<lambda>x. x\<lparr>tk_uses := tk_uses x + 1\<rparr>) (install_tokens d)\<rparr>"
    by (auto simp: enrollment_def)
  have "\<not> tn_suspended tn" "\<not> tk_revoked k" "case tk_expires_at k of None \<Rightarrow> True | Some e \<Rightarrow> now < e"
    "case tk_max_uses k of None \<Rightarrow> True | Some m \<Rightarrow> tk_uses k < m"
    using tn(3) by (auto simp: token_valid_def split: option.splits)
  with find_row_Some [OF k] tn n d' show ?thesis
    unfolding enrolled(1) prod.case sum.case by (intro exI [of _ k] exI [of _ n] exI [of _ tn]) simp
qed

section \<open>Groups stay inside their tenant\<close>

definition grouped :: "group_row list \<Rightarrow> uuid \<Rightarrow> uuid option \<Rightarrow> bool" where
  "grouped gs t g \<longleftrightarrow> (case g of None \<Rightarrow> True | Some i \<Rightarrow> \<exists>r \<in> set gs. gr_tenant r = t \<and> gr_id r = i)"

text \<open>
  The invariant of the three tables: keys are unique, a token or device in a group is
  in a group of its own tenant, and no token is used beyond its maximum.
\<close>

definition fleet_ok :: "group_row list \<Rightarrow> token_row list \<Rightarrow> device_row list \<Rightarrow> bool" where
  "fleet_ok gs ks vs \<longleftrightarrow>
     distinct (map gr_id gs) \<and> distinct (map tk_id ks) \<and> distinct (map tk_hash ks) \<and>
     (\<forall>k \<in> set ks. grouped gs (tk_tenant k) (tk_group k)) \<and>
     (\<forall>k \<in> set ks. \<forall>m. tk_max_uses k = Some m \<longrightarrow> tk_uses k \<le> m) \<and>
     (\<forall>v \<in> set vs. grouped gs (dv_tenant v) (dv_group v))"

definition fleet_inv :: "db \<Rightarrow> bool" where
  "fleet_inv d \<longleftrightarrow> fleet_ok (device_groups d) (install_tokens d) (devices d)"

lemma grouped_None [simp]: "grouped gs t None"
  by (simp add: grouped_def)

lemma grouped_mono: "grouped gs t g \<Longrightarrow> set gs \<subseteq> set gs' \<Longrightarrow> grouped gs' t g"
  by (auto simp: grouped_def split: option.splits)

lemma fleet_inv_frame [simp]:
  "fleet_inv (d\<lparr>faults := fs\<rparr>) = fleet_inv d" "fleet_inv (d\<lparr>next_uuid := u\<rparr>) = fleet_inv d"
  by (simp_all add: fleet_inv_def)

lemma fleet_inv_audit [simp]: "fleet_inv (audit p a b c e g d) = fleet_inv d"
  by (rule audit_shape [of p a b c e g d]) (simp add: fleet_inv_def)

lemma fleet_pool: "(\<And>d. fleet_inv d \<Longrightarrow> fleet_inv (snd (stmt d))) \<Longrightarrow> fleet_inv d \<Longrightarrow> fleet_inv (snd (pool stmt d))"
  by (rule pool_inv [where P = fleet_inv]) simp_all

text \<open>Updates that leave the tenant, group and use columns alone, statement by statement.\<close>

lemma update_device_inv:
  assumes "\<And>v. dv_tenant (f v) = dv_tenant v \<and> dv_group (f v) = dv_group v" and "fleet_inv d"
  shows "fleet_inv (snd (update_device_stmt t i f d))"
  using assms by (auto simp: update_device_stmt_def fleet_inv_def fleet_ok_def Let_def dest!: in_update_where)

lemma set_group_inv: "fleet_inv d \<Longrightarrow> fleet_inv (snd (set_group_stmt t i g d))"
  by (auto simp: set_group_stmt_def update_device_stmt_def fleet_inv_def fleet_ok_def Let_def grouped_def group_in_def
      dest!: in_update_where split: option.splits)

lemma create_group_inv: "fleet_inv d \<Longrightarrow> fleet_inv (snd (create_group_stmt i t n d))"
  by (auto simp: create_group_stmt_def fleet_inv_def fleet_ok_def elim!: grouped_mono)

lemma grouped_update:
  assumes "\<And>g. gr_tenant (f g) = gr_tenant g \<and> gr_id (f g) = gr_id g"
  shows "grouped (update_where P f gs) t g = grouped gs t g"
  using assms by (induction gs) (auto simp: grouped_def split: option.splits)

lemma rename_group_inv: "fleet_inv d \<Longrightarrow> fleet_inv (snd (rename_group_stmt t i n d))"
  by (simp add: rename_group_stmt_def fleet_inv_def fleet_ok_def Let_def grouped_update map_update_where_inv)

lemma ungroup_devices_inv: "fleet_inv d \<Longrightarrow> fleet_inv (snd (ungroup_devices_stmt t i d))"
  by (auto simp: ungroup_devices_stmt_def fleet_inv_def fleet_ok_def dest!: in_update_where)

lemma ungroup_tokens_inv: "fleet_inv d \<Longrightarrow> fleet_inv (snd (ungroup_tokens_stmt t i d))"
  by (auto simp: ungroup_tokens_stmt_def fleet_inv_def fleet_ok_def map_update_where_inv dest!: in_update_where)

lemma grouped_filter:
  "grouped gs t g \<Longrightarrow> g \<noteq> Some i \<Longrightarrow> grouped (filter (\<lambda>r. gr_id r \<noteq> i) gs) t g"
  by (auto simp: grouped_def split: option.splits)

lemma delete_group_inv: "fleet_inv d \<Longrightarrow> fleet_inv (snd (delete_group_stmt t i d))"
  by (auto simp: delete_group_stmt_def fleet_inv_def fleet_ok_def distinct_map_filter intro!: grouped_filter)

lemma revoke_token_inv: "fleet_inv d \<Longrightarrow> fleet_inv (snd (revoke_token_stmt t i d))"
  by (auto simp: revoke_token_stmt_def fleet_inv_def fleet_ok_def Let_def map_update_where_inv dest!: in_update_where)

lemma create_token_inv:
  "fleet_inv d \<Longrightarrow> grouped (device_groups d) t (tk_group k) \<Longrightarrow>
   (\<And>m. tk_max_uses k = Some m \<Longrightarrow> 0 \<le> m) \<Longrightarrow> fleet_inv (snd (create_token_stmt i t k h d))"
  by (auto simp: create_token_stmt_def fleet_inv_def fleet_ok_def)

lemma enrolled_row_fields [simp]:
  "dv_id (enrolled_row now n t g) = nd_id n" "dv_tenant (enrolled_row now n t g) = t"
  "dv_group (enrolled_row now n t g) = g" "dv_revoked (enrolled_row now n t g) = False"
  by (simp_all add: enrolled_row_def)

lemma use_token_ok:
  assumes "fleet_ok gs ks vs" "k \<in> set ks" "\<forall>m. tk_max_uses k = Some m \<longrightarrow> tk_uses k < m"
  shows "fleet_ok gs (update_where (\<lambda>x. tk_id x = tk_id k) (\<lambda>x. x\<lparr>tk_uses := tk_uses x + 1\<rparr>) ks)
    (vs @ [enrolled_row now n (tk_tenant k) (tk_group k)])"
proof -
  have "x = k" if "x \<in> set ks" "tk_id x = tk_id k" for x
    using assms(1,2) that by (auto simp: fleet_ok_def distinct_map dest: inj_onD)
  with assms show ?thesis
    by (fastforce simp: fleet_ok_def map_update_where_inv dest!: in_update_where)
qed

lemma enrollment_inv:
  assumes "fleet_inv d" "enrollment h now build d k n d'"
  shows "fleet_inv d'"
proof -
  from assms(2) have k: "k \<in> set (install_tokens d)" "\<forall>m. tk_max_uses k = Some m \<longrightarrow> tk_uses k < m"
    by (auto simp: enrollment_def token_valid_def dest: find_row_Some split: option.splits)
  from use_token_ok [OF _ this, of "device_groups d" "devices d" "now_db d" n] assms show ?thesis
    by (auto simp: enrollment_def fleet_inv_def)
qed

end
