(* ===== verification/Accounts.thy ===== *)
theory Accounts
  imports Devices
begin

text \<open>
  Tenants, their keys, administrators and sessions in the store
  (\<^verbatim>\<open>store/tenants.go\<close>, \<^verbatim>\<open>store/admins.go\<close>), the creation of a tenant with its
  certificate authority and signing keys (\<^verbatim>\<open>bootstrap/bootstrap.go\<close>), the first-run
  setup and the provider's tenant creation (\<^verbatim>\<open>app/app.go\<close>), and the cache of tenant
  keys (\<^verbatim>\<open>keyset/keyset.go\<close>).

  Key generation, the sealer, certificate parsing and bcrypt are parameters.
\<close>

section \<open>Tenants\<close>

definition insert_tenant_stmt :: "uuid \<Rightarrow> string \<Rightarrow> db \<Rightarrow> unit res \<times> db" where
  "insert_tenant_stmt i name d =
     (if i \<in> tn_id ` set (tenants d) then (Inl (PgError ''23505''), d)
      else (Inr (), d\<lparr>tenants := tenants d @ [\<lparr>tn_id = i, tn_name = name, tn_suspended = False\<rparr>]\<rparr>))"

definition CreateTenant :: "string \<Rightarrow> db \<Rightarrow> uuid res \<times> db" where
  "CreateTenant name d =
     (let (i, d0) = new_uuid d; (r, d1) = pool (insert_tenant_stmt i name) d0
      in (case r of Inl e \<Rightarrow> Inl e | Inr _ \<Rightarrow> Inr i, d1))"

definition ListTenantDetails :: "db \<Rightarrow> tenant_row list res \<times> db" where
  "ListTenantDetails = pool (\<lambda>d. (Inr (tenants d), d))"

definition RenameTenant :: "uuid \<Rightarrow> string \<Rightarrow> db \<Rightarrow> unit res \<times> db" where
  "RenameTenant i name = pool (\<lambda>d.
     let P = (\<lambda>t. tn_id t = i)
     in (oneRow (Inr (rows_affected P (tenants d))),
         d\<lparr>tenants := update_where P (\<lambda>t. t\<lparr>tn_name := name\<rparr>) (tenants d)\<rparr>))"

definition suspend_stmt :: "uuid \<Rightarrow> bool \<Rightarrow> db \<Rightarrow> unit res \<times> db" where
  "suspend_stmt i suspended d =
     (let P = (\<lambda>t. tn_id t = i)
      in (oneRow (Inr (rows_affected P (tenants d))),
          d\<lparr>tenants := update_where P (\<lambda>t. t\<lparr>tn_suspended := suspended\<rparr>) (tenants d)\<rparr>))"

definition drop_tenant_sessions_stmt :: "uuid \<Rightarrow> db \<Rightarrow> unit res \<times> db" where
  "drop_tenant_sessions_stmt i d = (Inr (), d\<lparr>sessions := filter (\<lambda>s. se_tenant s \<noteq> i) (sessions d)\<rparr>)"

definition suspend_body :: "uuid \<Rightarrow> bool \<Rightarrow> db \<Rightarrow> unit res \<times> db" where
  "suspend_body i suspended d =
     andThen (pool (suspend_stmt i suspended) d)
       (\<lambda>_ d1. if suspended then pool (drop_tenant_sessions_stmt i) d1 else (Inr (), d1))"

definition SetTenantSuspended :: "uuid \<Rightarrow> bool \<Rightarrow> db \<Rightarrow> unit res \<times> db" where
  "SetTenantSuspended i suspended = tx (suspend_body i suspended)"

definition TenantSuspended :: "uuid \<Rightarrow> db \<Rightarrow> bool res \<times> db" where
  "TenantSuspended i = pool (\<lambda>d.
     (case find_row (\<lambda>t. tn_id t = i) (tenants d) of None \<Rightarrow> Inl ErrNotFound | Some t \<Rightarrow> Inr (tn_suspended t), d))"

definition ListTenants :: "db \<Rightarrow> uuid list res \<times> db" where
  "ListTenants = pool (\<lambda>d. (Inr (map tn_id (tenants d)), d))"

definition FirstTenant :: "db \<Rightarrow> uuid res \<times> db" where
  "FirstTenant = pool (\<lambda>d. (case tenants d of [] \<Rightarrow> Inl ErrNotFound | t # _ \<Rightarrow> Inr (tn_id t), d))"

definition put_key_stmt :: "uuid \<Rightarrow> string \<Rightarrow> bytes \<Rightarrow> bytes \<Rightarrow> db \<Rightarrow> unit res \<times> db" where
  "put_key_stmt tenantID name publicDER privateEnc d =
     (if \<exists>k \<in> set (server_keys d). sk_tenant k = tenantID \<and> sk_name k = name then (Inl (PgError ''23505''), d)
      else if \<not> tenant_exists tenantID d then (Inl (PgError ''23503''), d)
      else (Inr (), d\<lparr>server_keys := server_keys d @
             [\<lparr>sk_tenant = tenantID, sk_name = name, sk_public = publicDER, sk_private_enc = privateEnc\<rparr>]\<rparr>))"

definition PutServerKey :: "uuid \<Rightarrow> string \<Rightarrow> bytes \<Rightarrow> bytes \<Rightarrow> db \<Rightarrow> unit res \<times> db" where
  "PutServerKey tenantID name publicDER privateEnc = pool (put_key_stmt tenantID name publicDER privateEnc)"

definition GetServerKey :: "uuid \<Rightarrow> string \<Rightarrow> db \<Rightarrow> (bytes \<times> bytes) res \<times> db" where
  "GetServerKey tenantID name = pool (\<lambda>d.
     (case find_row (\<lambda>k. sk_tenant k = tenantID \<and> sk_name k = name) (server_keys d) of
        None \<Rightarrow> Inl ErrNotFound | Some k \<Rightarrow> Inr (sk_public k, sk_private_enc k), d))"

section \<open>Administrators and sessions\<close>

definition Roles :: "string list" where
  "Roles = [''owner'', ''admin'', ''readonly'']"

definition insert_admin_stmt :: "uuid \<Rightarrow> uuid \<Rightarrow> admin_row \<Rightarrow> db \<Rightarrow> unit res \<times> db" where
  "insert_admin_stmt i tenantID a d =
     (let email = ToLower (ad_email a) in
      if ad_role a \<notin> set Roles then (Inl (PgError ''23514''), d)
      else if i \<in> ad_id ` set (admins d) \<or> email \<in> ad_email ` set (admins d) then (Inl (PgError ''23505''), d)
      else if \<not> tenant_exists tenantID d then (Inl (PgError ''23503''), d)
      else (Inr (), d\<lparr>admins := admins d @
             [\<lparr>ad_id = i, ad_tenant = tenantID, ad_email = email, ad_password_hash = ad_password_hash a,
               ad_totp_secret = None, ad_totp_confirmed = False, ad_role = ad_role a, ad_disabled = False,
               ad_provider = ad_provider a\<rparr>]\<rparr>))"

definition CreateAdmin :: "uuid \<Rightarrow> admin_row \<Rightarrow> db \<Rightarrow> uuid res \<times> db" where
  "CreateAdmin tenantID a d =
     (let (i, d0) = new_uuid d; (r, d1) = pool (insert_admin_stmt i tenantID a) d0
      in (case conflict r of Inl e \<Rightarrow> Inl e | Inr _ \<Rightarrow> Inr i, d1))"

definition select_admin :: "(admin_row \<Rightarrow> bool) \<Rightarrow> db \<Rightarrow> admin_row res \<times> db" where
  "select_admin P d = (case find_row P (admins d) of None \<Rightarrow> Inl ErrNotFound | Some a \<Rightarrow> Inr a, d)"

definition GetAdmin :: "uuid \<Rightarrow> uuid \<Rightarrow> db \<Rightarrow> admin_row res \<times> db" where
  "GetAdmin tenantID i = pool (select_admin (\<lambda>a. ad_tenant a = tenantID \<and> ad_id a = i))"

definition GetAdminByEmail :: "uuid \<Rightarrow> string \<Rightarrow> db \<Rightarrow> admin_row res \<times> db" where
  "GetAdminByEmail tenantID email = pool (select_admin (\<lambda>a. ad_tenant a = tenantID \<and> ad_email a = ToLower email))"

definition GetAdminByEmailGlobal :: "string \<Rightarrow> db \<Rightarrow> admin_row res \<times> db" where
  "GetAdminByEmailGlobal email = pool (select_admin (\<lambda>a. ad_email a = ToLower email))"

definition ListAdmins :: "uuid \<Rightarrow> db \<Rightarrow> admin_row list res \<times> db" where
  "ListAdmins tenantID = pool (\<lambda>d. (Inr (sort_key ad_email (filter (\<lambda>a. ad_tenant a = tenantID) (admins d))), d))"

definition update_admin_stmt :: "uuid \<Rightarrow> uuid \<Rightarrow> (admin_row \<Rightarrow> admin_row) \<Rightarrow> db \<Rightarrow> unit res \<times> db" where
  "update_admin_stmt tenantID i f d =
     (let P = (\<lambda>a. ad_tenant a = tenantID \<and> ad_id a = i)
      in (oneRow (Inr (rows_affected P (admins d))), d\<lparr>admins := update_where P f (admins d)\<rparr>))"

definition SetAdminTOTP :: "uuid \<Rightarrow> uuid \<Rightarrow> bytes \<Rightarrow> bool \<Rightarrow> db \<Rightarrow> unit res \<times> db" where
  "SetAdminTOTP tenantID i secretEnc confirmed = pool (update_admin_stmt tenantID i
     (\<lambda>a. a\<lparr>ad_totp_secret := Some secretEnc, ad_totp_confirmed := confirmed\<rparr>))"

definition SetAdminDisabled :: "uuid \<Rightarrow> uuid \<Rightarrow> bool \<Rightarrow> db \<Rightarrow> unit res \<times> db" where
  "SetAdminDisabled tenantID i disabled = pool (update_admin_stmt tenantID i (\<lambda>a. a\<lparr>ad_disabled := disabled\<rparr>))"

definition set_role_stmt :: "uuid \<Rightarrow> uuid \<Rightarrow> string \<Rightarrow> db \<Rightarrow> unit res \<times> db" where
  "set_role_stmt tenantID i role d =
     (if role \<notin> set Roles \<and> (\<exists>a \<in> set (admins d). ad_tenant a = tenantID \<and> ad_id a = i)
      then (Inl (PgError ''23514''), d)
      else update_admin_stmt tenantID i (\<lambda>a. a\<lparr>ad_role := role\<rparr>) d)"

definition SetAdminRole :: "uuid \<Rightarrow> uuid \<Rightarrow> string \<Rightarrow> db \<Rightarrow> unit res \<times> db" where
  "SetAdminRole tenantID i role = pool (set_role_stmt tenantID i role)"

definition insert_session_stmt :: "session_row \<Rightarrow> db \<Rightarrow> unit res \<times> db" where
  "insert_session_stmt s d =
     (if se_id s \<in> se_id ` set (sessions d) then (Inl (PgError ''23505''), d)
      else if \<not> tenant_exists (se_tenant s) d \<or> se_admin s \<notin> ad_id ` set (admins d) then (Inl (PgError ''23503''), d)
      else (Inr (), d\<lparr>sessions := sessions d @ [s]\<rparr>))"

definition CreateSession :: "session_row \<Rightarrow> db \<Rightarrow> unit res \<times> db" where
  "CreateSession s = pool (insert_session_stmt s)"

definition GetSession :: "string \<Rightarrow> time \<Rightarrow> db \<Rightarrow> session_row res \<times> db" where
  "GetSession i now = pool (\<lambda>d.
     (case find_row (\<lambda>s. se_id s = i \<and> se_expires_at s > now) (sessions d) of
        None \<Rightarrow> Inl ErrNotFound | Some s \<Rightarrow> Inr s, d))"

definition mark_mfa_stmt :: "string \<Rightarrow> db \<Rightarrow> unit res \<times> db" where
  "mark_mfa_stmt i d =
     (let P = (\<lambda>s. se_id s = i)
      in (oneRow (Inr (rows_affected P (sessions d))),
          d\<lparr>sessions := update_where P (\<lambda>s. s\<lparr>se_mfa_passed := True\<rparr>) (sessions d)\<rparr>))"

definition MarkSessionMFA :: "string \<Rightarrow> db \<Rightarrow> unit res \<times> db" where
  "MarkSessionMFA i = pool (mark_mfa_stmt i)"

definition DeleteSession :: "string \<Rightarrow> db \<Rightarrow> unit res \<times> db" where
  "DeleteSession i = pool (\<lambda>d. (Inr (), d\<lparr>sessions := filter (\<lambda>s. se_id s \<noteq> i) (sessions d)\<rparr>))"

definition DeleteAdminSessions :: "uuid \<Rightarrow> uuid \<Rightarrow> db \<Rightarrow> unit res \<times> db" where
  "DeleteAdminSessions tenantID adminID = pool (\<lambda>d.
     (Inr (), d\<lparr>sessions := filter (\<lambda>s. \<not> (se_tenant s = tenantID \<and> se_admin s = adminID)) (sessions d)\<rparr>))"

section \<open>Provisioning a tenant\<close>

text \<open>
  What provisioning is given: the sealer for server keys (None when the master secret is
  too short), the certificate authority it makes for a tenant name (certificate and
  private key), the two signing key pairs, and how a stored authority is read back.
\<close>

record 'ca key_env =
  ke_sealer :: "((bytes \<Rightarrow> bytes) \<times> (bytes \<Rightarrow> bytes res)) res"
  ke_new_ca :: "string \<Rightarrow> (bytes \<times> bytes) res"
  ke_generate :: "string \<Rightarrow> (bytes \<times> bytes) res"
  ke_load_ca :: "bytes \<Rightarrow> bytes \<Rightarrow> 'ca res"
  ke_uninstall :: "bytes res"

record 'ca tenant_keys =
  kt_tenant :: uuid
  kt_ca :: 'ca
  kt_command :: bytes
  kt_update :: bytes
  kt_uninstall :: bytes

definition keyCA :: string where "keyCA = ''ca''"
definition keyCommand :: string where "keyCommand = ''command-signing''"
definition keyUpdate :: string where "keyUpdate = ''update-signing''"

definition put_signing_key ::
  "'ca key_env \<Rightarrow> (bytes \<Rightarrow> bytes) \<Rightarrow> uuid \<Rightarrow> string \<Rightarrow> db \<Rightarrow> unit res \<times> db" where
  "put_signing_key env seal tenant name d = (case ke_generate env name of
       Inl e \<Rightarrow> (Inl e, d)
     | Inr (pub, priv) \<Rightarrow> PutServerKey tenant name pub (seal priv) d)"

definition ProvisionTenant :: "'ca key_env \<Rightarrow> string \<Rightarrow> db \<Rightarrow> uuid res \<times> db" where
  "ProvisionTenant env tenantName d = (case ke_sealer env of
       Inl e \<Rightarrow> (Inl e, d)
     | Inr (seal, _) \<Rightarrow>
         andThen (CreateTenant tenantName d) (\<lambda>tenant d1.
           case ke_new_ca env (tenantName @ '' FreeLocker CA'') of
             Inl e \<Rightarrow> (Inl e, d1)
           | Inr (cert, caKey) \<Rightarrow>
               andThen (PutServerKey tenant keyCA cert (seal caKey) d1) (\<lambda>_ d2.
               andThen (put_signing_key env seal tenant keyCommand d2) (\<lambda>_ d3.
               andThen (put_signing_key env seal tenant keyUpdate d3) (\<lambda>_ d4. (Inr tenant, d4))))))"

definition ErrAlreadyInitialized :: err where
  "ErrAlreadyInitialized = ErrText ''server already initialized''"

definition Init :: "'ca key_env \<Rightarrow> string \<Rightarrow> db \<Rightarrow> uuid res \<times> db" where
  "Init env tenantName d = (case FirstTenant d of
       (Inr _, d1) \<Rightarrow> (Inl ErrAlreadyInitialized, d1)
     | (Inl e, d1) \<Rightarrow> if e \<noteq> ErrNotFound then (Inl e, d1) else ProvisionTenant env tenantName d1)"

definition open_key :: "(bytes \<Rightarrow> bytes res) \<Rightarrow> uuid \<Rightarrow> string \<Rightarrow> db \<Rightarrow> (bytes \<times> bytes) res \<times> db" where
  "open_key unseal tenant name d = (case GetServerKey tenant name d of
       (Inl e, d1) \<Rightarrow> (Inl (ErrText (''load key '' @ name @ '': '' @ err_text e)), d1)
     | (Inr (pub, sealed), d1) \<Rightarrow> (case unseal sealed of
         Inl e \<Rightarrow> (Inl (ErrText (''decrypt key '' @ name @ '' (wrong master secret?): '' @ err_text e)), d1)
       | Inr priv \<Rightarrow> (Inr (pub, priv), d1)))"

definition LoadForTenant :: "'ca key_env \<Rightarrow> uuid \<Rightarrow> db \<Rightarrow> 'ca tenant_keys res \<times> db" where
  "LoadForTenant env tenant d = (case ke_sealer env of
       Inl e \<Rightarrow> (Inl e, d)
     | Inr (_, unseal) \<Rightarrow>
         andThen (open_key unseal tenant keyCA d) (\<lambda>(certDER, caKey) d1.
         case ke_load_ca env certDER caKey of
           Inl e \<Rightarrow> (Inl e, d1)
         | Inr authority \<Rightarrow>
             andThen (open_key unseal tenant keyCommand d1) (\<lambda>(_, cmdKey) d2.
             andThen (open_key unseal tenant keyUpdate d2) (\<lambda>(_, updKey) d3.
             case ke_uninstall env of
               Inl e \<Rightarrow> (Inl e, d3)
             | Inr uk \<Rightarrow> (Inr \<lparr>kt_tenant = tenant, kt_ca = authority, kt_command = cmdKey,
                                kt_update = updKey, kt_uninstall = uk\<rparr>, d3)))))"

definition Load :: "'ca key_env \<Rightarrow> db \<Rightarrow> 'ca tenant_keys res \<times> db" where
  "Load env d = (case FirstTenant d of
       (Inl e, d1) \<Rightarrow> (Inl (ErrText (''load tenant: '' @ err_text e)), d1)
     | (Inr t, d1) \<Rightarrow> LoadForTenant env t d1)"

text \<open>keyset.Provider.For: the cache in front of LoadForTenant.\<close>

type_synonym 'ca key_cache = "uuid \<Rightarrow> 'ca tenant_keys option"

definition For :: "'ca key_env \<Rightarrow> uuid \<Rightarrow> 'ca key_cache \<times> db \<Rightarrow> 'ca tenant_keys res \<times> ('ca key_cache \<times> db)" where
  "For env tenantID s = (case fst s tenantID of
       Some k \<Rightarrow> (Inr k, s)
     | None \<Rightarrow> (case LoadForTenant env tenantID (snd s) of
         (Inl e, d) \<Rightarrow> (Inl e, (fst s, d))
       | (Inr k, d) \<Rightarrow> (Inr k, ((fst s)(tenantID := Some k), d))))"

section \<open>First-run setup and the provider's tenant creation\<close>

definition MinPasswordLen :: nat where "MinPasswordLen = 12"

text \<open>HashPassword; bcrypt itself (which refuses passwords over 72 bytes) is an argument.\<close>

definition HashPassword :: "(string \<Rightarrow> string res) \<Rightarrow> string \<Rightarrow> string res" where
  "HashPassword bcrypt pw =
     (if length pw < MinPasswordLen
      then Inl (ErrText (''password must be at least '' @ show_nat MinPasswordLen @ '' characters''))
      else bcrypt pw)"

definition new_admin :: "string \<Rightarrow> string \<Rightarrow> string \<Rightarrow> bool \<Rightarrow> admin_row" where
  "new_admin email hash role provider =
     \<lparr>ad_id = 0, ad_tenant = 0, ad_email = email, ad_password_hash = hash, ad_totp_secret = None,
      ad_totp_confirmed = False, ad_role = role, ad_disabled = False, ad_provider = provider\<rparr>"

definition app_Initialize ::
  "'ca key_env \<Rightarrow> (string \<Rightarrow> string res) \<Rightarrow> string \<Rightarrow> string \<Rightarrow> string \<Rightarrow> db \<Rightarrow> 'ca tenant_keys res \<times> db" where
  "app_Initialize env bcrypt org email password d =
     (if TrimSpace org = [] \<or> \<not> Contains email ''@''
      then (Inl (ErrText ''organization name and a valid email are required''), d)
      else case HashPassword bcrypt password of
        Inl e \<Rightarrow> (Inl e, d)
      | Inr hash \<Rightarrow>
          andThen (Init env org d) (\<lambda>_ d1.
          andThen (Load env d1) (\<lambda>k d2.
          andThen (CreateAdmin (kt_tenant k) (new_admin email hash ''owner'' True) d2) (\<lambda>_ d3.
            (Inr k, snd (AppendAudit (kt_tenant k) (Txt ''system'') ''setup.complete'' '''' (Txt '''')
               [(''org'', DStr org), (''owner'', DStr email)] '''' ''success'' d3))))))"

definition app_ProvisionTenant ::
  "'ca key_env \<Rightarrow> (string \<Rightarrow> string res) \<Rightarrow> string \<Rightarrow> string \<Rightarrow> string \<Rightarrow> db \<Rightarrow> uuid res \<times> db" where
  "app_ProvisionTenant env bcrypt org ownerEmail ownerPassword d =
     (if TrimSpace org = [] \<or> \<not> Contains ownerEmail ''@''
      then (Inl (ErrText ''organization name and a valid owner email are required''), d)
      else case HashPassword bcrypt ownerPassword of
        Inl e \<Rightarrow> (Inl e, d)
      | Inr hash \<Rightarrow>
          andThen (ProvisionTenant env org d) (\<lambda>tid d1.
          andThen (CreateAdmin tid (new_admin ownerEmail hash ''owner'' False) d1) (\<lambda>_ d2. (Inr tid, d2))))"

definition app_CreateAdmin :: "(string \<Rightarrow> string res) \<Rightarrow> string \<Rightarrow> string \<Rightarrow> string \<Rightarrow> db \<Rightarrow> unit res \<times> db" where
  "app_CreateAdmin bcrypt email password role d =
     (if role \<notin> set Roles then (Inl (ErrText ''role must be one of [owner admin readonly]''), d)
      else case HashPassword bcrypt password of
        Inl e \<Rightarrow> (Inl e, d)
      | Inr hash \<Rightarrow> (case FirstTenant d of
          (Inl e, d1) \<Rightarrow> (Inl (ErrText (''server not initialized: '' @ err_text e)), d1)
        | (Inr tenant, d1) \<Rightarrow>
            andThen (CreateAdmin tenant (new_admin email hash role False) d1) (\<lambda>i d2.
              AppendAudit tenant (Txt ''system'') ''admin.create'' ''admin'' (IdTxt '''' i)
                [(''email'', DStr email), (''role'', DStr role), (''via'', DStr ''cli'')] '''' ''success'' d2)))"

section \<open>What provisioning stores can be loaded\<close>

text \<open>The rows ProvisionTenant leaves behind when nothing fails.\<close>

definition provisioned :: "(bytes \<Rightarrow> bytes) \<Rightarrow> uuid \<Rightarrow> bytes \<times> bytes \<Rightarrow> bytes \<times> bytes \<Rightarrow> bytes \<times> bytes \<Rightarrow> server_key_row list" where
  "provisioned seal t ca cmd upd =
     [\<lparr>sk_tenant = t, sk_name = keyCA, sk_public = fst ca, sk_private_enc = seal (snd ca)\<rparr>,
      \<lparr>sk_tenant = t, sk_name = keyCommand, sk_public = fst cmd, sk_private_enc = seal (snd cmd)\<rparr>,
      \<lparr>sk_tenant = t, sk_name = keyUpdate, sk_public = fst upd, sk_private_enc = seal (snd upd)\<rparr>]"

lemma find_row_app_none:
  "(\<And>k. k \<in> set ks \<Longrightarrow> \<not> P k) \<Longrightarrow> find_row P (ks @ ks') = find_row P ks'"
  by (induction ks) auto

lemma ProvisionTenant_ok:
  assumes "faults d = []" "ke_sealer env = Inr (seal, unseal)"
    "ke_new_ca env (name @ '' FreeLocker CA'') = Inr ca" "ke_generate env keyCommand = Inr cmd"
    "ke_generate env keyUpdate = Inr upd"
    "next_uuid d \<notin> tn_id ` set (tenants d)" "\<forall>k \<in> set (server_keys d). sk_tenant k \<noteq> next_uuid d"
  shows "ProvisionTenant env name d = (Inr (next_uuid d),
    d\<lparr>next_uuid := Suc (next_uuid d),
      tenants := tenants d @ [\<lparr>tn_id = next_uuid d, tn_name = name, tn_suspended = False\<rparr>],
      server_keys := server_keys d @ provisioned seal (next_uuid d) ca cmd upd\<rparr>)"
  using assms
  by (cases ca; cases cmd; cases upd)
     (auto simp: ProvisionTenant_def CreateTenant_def new_uuid_def insert_tenant_stmt_def PutServerKey_def
       put_key_stmt_def put_signing_key_def tenant_exists_def provisioned_def keyCA_def keyCommand_def keyUpdate_def)

text \<open>
  A provisioned tenant can be loaded again. When the database answers, the sealer
  opens what it sealed, and a stored authority can be read back, provisioning a tenant
  succeeds and loading its keys returns the very authority and signing keys that were
  generated for it, without touching any other tenant's keys.
\<close>

theorem provision_then_load:
  assumes "faults d = []" and "ke_sealer env = Inr (seal, unseal)" and "\<And>x. unseal (seal x) = Inr x"
    and "ke_new_ca env (name @ '' FreeLocker CA'') = Inr (cert, caKey)" and "ke_load_ca env cert caKey = Inr authority"
    and "ke_generate env keyCommand = Inr (cpub, cpriv)" and "ke_generate env keyUpdate = Inr (upub, upriv)"
    and "ke_uninstall env = Inr uk"
    and "next_uuid d \<notin> tn_id ` set (tenants d)" and "\<forall>k \<in> set (server_keys d). sk_tenant k \<noteq> next_uuid d"
  shows "\<exists>t d'. ProvisionTenant env name d = (Inr t, d') \<and>
    LoadForTenant env t d' = (Inr \<lparr>kt_tenant = t, kt_ca = authority, kt_command = cpriv, kt_update = upriv,
       kt_uninstall = uk\<rparr>, d') \<and>
    filter (\<lambda>k. sk_tenant k \<noteq> t) (server_keys d') = server_keys d"
proof -
  let ?t = "next_uuid d" and ?ks = "provisioned seal (next_uuid d) (cert, caKey) (cpub, cpriv) (upub, upriv)"
  obtain d' where P: "ProvisionTenant env name d = (Inr ?t, d')" and ks: "server_keys d' = server_keys d @ ?ks"
    and f: "faults d' = []"
    using ProvisionTenant_ok [OF assms(1,2,4,6,7,9,10)] assms(1) by simp
  have find: "find_row (\<lambda>k. sk_tenant k = ?t \<and> sk_name k = n) (server_keys d') =
      find_row (\<lambda>k. sk_tenant k = ?t \<and> sk_name k = n) ?ks" for n
    unfolding ks using assms(10) by (intro find_row_app_none) auto
  have "open_key unseal ?t keyCA d' = (Inr (cert, caKey), d')"
    "open_key unseal ?t keyCommand d' = (Inr (cpub, cpriv), d')"
    "open_key unseal ?t keyUpdate d' = (Inr (upub, upriv), d')"
    by (simp_all add: open_key_def GetServerKey_def f find assms(3) provisioned_def keyCA_def keyCommand_def keyUpdate_def)
  then have "LoadForTenant env ?t d' = (Inr \<lparr>kt_tenant = ?t, kt_ca = authority, kt_command = cpriv,
       kt_update = upriv, kt_uninstall = uk\<rparr>, d')"
    using assms(2,5,8) by (simp add: LoadForTenant_def)
  moreover have "filter (\<lambda>k. sk_tenant k \<noteq> ?t) (server_keys d') = server_keys d"
    using assms(10) by (simp add: ks provisioned_def filter_id_conv)
  ultimately show ?thesis using P by blast
qed

definition demo_keys :: "bytes key_env" where
  "demo_keys = \<lparr>ke_sealer = Inr (\<lambda>x. CHR ''#'' # x, \<lambda>x. Inr (tl x)), ke_new_ca = (\<lambda>n. Inr (n, ''k'')),
     ke_generate = (\<lambda>n. Inr (n, CHR ''p'' # n)), ke_load_ca = (\<lambda>c k. Inr c), ke_uninstall = Inr ''u''\<rparr>"

theorem provision_then_load_witness:
  "\<exists>t d'. ProvisionTenant demo_keys ''acme'' empty_db = (Inr t, d') \<and>
    LoadForTenant demo_keys t d' = (Inr \<lparr>kt_tenant = t, kt_ca = ''acme FreeLocker CA'',
       kt_command = ''pcommand-signing'', kt_update = ''pupdate-signing'', kt_uninstall = ''u''\<rparr>, d') \<and>
    filter (\<lambda>k. sk_tenant k \<noteq> t) (server_keys d') = server_keys empty_db"
  by (rule provision_then_load [where seal = "\<lambda>x. CHR ''#'' # x" and unseal = "\<lambda>x. Inr (tl x)" and caKey = "''k''"
        and cpub = "''command-signing''" and upub = "''update-signing''"])
     (simp_all add: demo_keys_def keyCommand_def keyUpdate_def)

section \<open>A half-provisioned server\<close>

text \<open>
  A failed first-run setup cannot be repeated. Provisioning is not one transaction:
  when the database connection is lost right after the tenant row is written, setup
  fails, and from then on, with a healthy database, setup refuses to run again because
  the server is "already initialized" while its keys can never be loaded. This holds
  for every key material.
\<close>

theorem setup_wedged_by_lost_connection:
  assumes "ke_sealer env = Inr (seal, unseal)" and "ke_new_ca env (name @ '' FreeLocker CA'') = Inr (cert, caKey)"
  shows "\<exists>d'. Init env name (empty_db\<lparr>faults := [False, False, True]\<rparr>) = (Inl ErrConn, d') \<and> faults d' = [] \<and>
    Init env' name' d' = (Inl ErrAlreadyInitialized, d') \<and> (\<exists>e. Load env d' = (Inl e, d'))"
proof -
  let ?d = "empty_db\<lparr>faults := [], next_uuid := Suc (next_uuid empty_db),
    tenants := [\<lparr>tn_id = next_uuid empty_db, tn_name = name, tn_suspended = False\<rparr>]\<rparr>"
  have "Init env name (empty_db\<lparr>faults := [False, False, True]\<rparr>) = (Inl ErrConn, ?d)"
    using assms by (simp add: Init_def FirstTenant_def ProvisionTenant_def CreateTenant_def new_uuid_def
      insert_tenant_stmt_def PutServerKey_def pool_def Let_def faults_first)
  moreover have "Init env' name' ?d = (Inl ErrAlreadyInitialized, ?d)"
    by (simp add: Init_def FirstTenant_def)
  moreover have "\<exists>e. Load env ?d = (Inl e, ?d)"
    using assms by (simp add: Load_def FirstTenant_def LoadForTenant_def open_key_def GetServerKey_def)
  ultimately show ?thesis by (intro exI [of _ ?d]) simp
qed

theorem setup_wedged_by_lost_connection_witness:
  "\<exists>d'. Init demo_keys ''acme'' (empty_db\<lparr>faults := [False, False, True]\<rparr>) = (Inl ErrConn, d') \<and> faults d' = [] \<and>
    Init demo_keys ''acme'' d' = (Inl ErrAlreadyInitialized, d') \<and> (\<exists>e. Load demo_keys d' = (Inl e, d'))"
  by (rule setup_wedged_by_lost_connection) (simp_all add: demo_keys_def)

end
