(* ===== verification/Auth.thy ===== *)
theory Auth
  imports Accounts
begin

text \<open>
  Console authentication: roles and passwords (\<^verbatim>\<open>auth/password.go\<close>), cookie sessions
  (\<^verbatim>\<open>auth/sessions.go\<close>), the failure counter behind the login limit
  (\<^verbatim>\<open>store/ratelimit.go\<close>, \<^verbatim>\<open>httpapi/limiter.go\<close>), the middlewares and the login,
  MFA, administrator and provider handlers (\<^verbatim>\<open>httpapi/authn.go\<close>,
  \<^verbatim>\<open>httpapi/admins.go\<close>, \<^verbatim>\<open>httpapi/provider.go\<close>).

  bcrypt, TOTP, the sealer and the hash of a session token are parameters, gathered in
  one record; random tokens are arguments of the operations that draw them.
\<close>

section \<open>Roles\<close>

definition roleRank :: "string \<Rightarrow> nat option" where
  "roleRank role = map_of [(''readonly'', 1), (''admin'', 2), (''owner'', 3)] role"

definition Allows :: "string \<Rightarrow> string \<Rightarrow> bool" where
  "Allows role required = (case roleRank role of None \<Rightarrow> False
     | Some r \<Rightarrow> r \<ge> (case roleRank required of Some q \<Rightarrow> q | None \<Rightarrow> 0))"

section \<open>Parameters and requests\<close>

record auth_env =
  ae_now :: time
  ae_token_hash :: "string \<Rightarrow> string"
  ae_check_password :: "string \<Rightarrow> string \<Rightarrow> bool"
  ae_bcrypt :: "string \<Rightarrow> string res"
  ae_seal :: "bytes \<Rightarrow> bytes"
  ae_unseal :: "bytes \<Rightarrow> bytes res"
  ae_totp :: "string \<Rightarrow> string \<Rightarrow> time \<Rightarrow> bool"
  ae_default_tenant :: uuid

record http_req =
  hr_cookie :: "string option"
  hr_get :: bool
  hr_csrf :: string
  hr_ip :: string
  hr_user_agent :: string

section \<open>The failure counter\<close>

definition RecordLoginFailure :: "uuid \<Rightarrow> string \<Rightarrow> time \<Rightarrow> db \<Rightarrow> unit res \<times> db" where
  "RecordLoginFailure tenantID key failedAt = pool (\<lambda>d.
     if \<not> tenant_exists tenantID d then (Inl (PgError ''23503''), d)
     else (Inr (), d\<lparr>login_failures := login_failures d @ [\<lparr>lf_tenant = tenantID, lf_key = key, lf_at = failedAt\<rparr>]\<rparr>))"

definition failure_count :: "uuid \<Rightarrow> string \<Rightarrow> time \<Rightarrow> db \<Rightarrow> nat" where
  "failure_count tenantID key since d =
     length (filter (\<lambda>f. lf_tenant f = tenantID \<and> lf_key f = key \<and> lf_at f \<ge> since) (login_failures d))"

definition CountLoginFailures :: "uuid \<Rightarrow> string \<Rightarrow> time \<Rightarrow> db \<Rightarrow> nat res \<times> db" where
  "CountLoginFailures tenantID key since = pool (\<lambda>d. (Inr (failure_count tenantID key since d), d))"

definition ClearLoginFailures :: "uuid \<Rightarrow> string \<Rightarrow> db \<Rightarrow> unit res \<times> db" where
  "ClearLoginFailures tenantID key = pool (\<lambda>d.
     (Inr (), d\<lparr>login_failures := filter (\<lambda>f. \<not> (lf_tenant f = tenantID \<and> lf_key f = key)) (login_failures d)\<rparr>))"

definition PruneLoginFailures :: "time \<Rightarrow> db \<Rightarrow> nat res \<times> db" where
  "PruneLoginFailures before = pool (\<lambda>d.
     (Inr (rows_affected (\<lambda>f. lf_at f < before) (login_failures d)),
      d\<lparr>login_failures := filter (\<lambda>f. \<not> lf_at f < before) (login_failures d)\<rparr>))"

definition maxFailures :: nat where "maxFailures = 5"
definition failWindow :: duration where "failWindow = 15 * minute"

definition allow :: "uuid \<Rightarrow> string \<Rightarrow> time \<Rightarrow> db \<Rightarrow> bool \<times> db" where
  "allow tenantID key now d = (case CountLoginFailures tenantID key (now - failWindow) d of
       (Inl _, d1) \<Rightarrow> (True, d1)
     | (Inr n, d1) \<Rightarrow> (n < maxFailures, d1))"

definition limiter_fail :: "uuid \<Rightarrow> string \<Rightarrow> time \<Rightarrow> db \<Rightarrow> db" where
  "limiter_fail tenantID key now d = snd (RecordLoginFailure tenantID key now d)"

definition limiter_reset :: "uuid \<Rightarrow> string \<Rightarrow> db \<Rightarrow> db" where
  "limiter_reset tenantID key d = snd (ClearLoginFailures tenantID key d)"

section \<open>Sessions\<close>

definition SessionTTL :: duration where "SessionTTL = 12 * hour"

definition Create_session ::
  "auth_env \<Rightarrow> http_req \<Rightarrow> string \<Rightarrow> string \<Rightarrow> uuid \<Rightarrow> uuid \<Rightarrow> db \<Rightarrow> session_row res \<times> db" where
  "Create_session env req tok csrf tenantID adminID d =
     (let sess = \<lparr>se_id = ae_token_hash env tok, se_tenant = tenantID, se_admin = adminID, se_csrf = csrf,
          se_mfa_passed = False, se_expires_at = ae_now env + SessionTTL, se_ip = hr_ip req,
          se_user_agent = hr_user_agent req\<rparr>
      in andThen (CreateSession sess d) (\<lambda>_ d1. (Inr sess, d1)))"

definition Load_session :: "auth_env \<Rightarrow> http_req \<Rightarrow> db \<Rightarrow> session_row res \<times> db" where
  "Load_session env req d = (case hr_cookie req of
       None \<Rightarrow> (Inl ErrNotFound, d)
     | Some c \<Rightarrow> if c = [] then (Inl ErrNotFound, d) else GetSession (ae_token_hash env c) (ae_now env) d)"

definition Destroy_session :: "auth_env \<Rightarrow> http_req \<Rightarrow> db \<Rightarrow> db" where
  "Destroy_session env req d = (case hr_cookie req of
       None \<Rightarrow> d | Some c \<Rightarrow> snd (DeleteSession (ae_token_hash env c) d))"

section \<open>Middlewares\<close>

definition tenantSuspended :: "uuid \<Rightarrow> db \<Rightarrow> bool \<times> db" where
  "tenantSuspended tenantID d = (case TenantSuspended tenantID d of
       (Inl _, d1) \<Rightarrow> (True, d1) | (Inr sus, d1) \<Rightarrow> (sus, d1))"

definition notLoggedIn :: response where "notLoggedIn = writeErr 401 ''not logged in''"

text \<open>withSession: the response it writes instead of calling the handler, or the principal.\<close>

definition withSession :: "auth_env \<Rightarrow> bool \<Rightarrow> http_req \<Rightarrow> db \<Rightarrow> (response + principal) \<times> db" where
  "withSession env requireMFA req d = (case Load_session env req d of
       (Inl _, d1) \<Rightarrow> (Inl notLoggedIn, d1)
     | (Inr sess, d1) \<Rightarrow> (case GetAdmin (se_tenant sess) (se_admin sess) d1 of
         (Inl _, d2) \<Rightarrow> (Inl notLoggedIn, d2)
       | (Inr admin, d2) \<Rightarrow>
           if ad_disabled admin then (Inl notLoggedIn, d2)
           else let (sus, d3) = tenantSuspended (se_tenant sess) d2 in
             if sus then (Inl notLoggedIn, d3)
             else if \<not> hr_get req \<and> hr_csrf req \<noteq> se_csrf sess then (Inl (writeErr 403 ''bad CSRF token''), d3)
             else if requireMFA \<and> \<not> se_mfa_passed sess then (Inl (writeErr 403 ''mfa_required''), d3)
             else (Inr \<lparr>pr_admin = admin, pr_session = sess, pr_tenant = se_tenant sess, pr_ip = hr_ip req\<rparr>, d3)))"

definition requireRole :: "string \<Rightarrow> principal \<Rightarrow> response + principal" where
  "requireRole role p = (if Allows (ad_role (pr_admin p)) role then Inr p
     else Inl (writeErr 403 (''requires role '' @ role)))"

definition requireProvider :: "principal \<Rightarrow> response + principal" where
  "requireProvider p = (if ad_provider (pr_admin p) then Inr p else Inl (writeErr 403 ''requires provider''))"

text \<open>A route behind both middlewares: the session, the role check, then the handler.\<close>

definition routed ::
  "auth_env \<Rightarrow> (principal \<Rightarrow> response + principal) \<Rightarrow> (principal \<Rightarrow> db \<Rightarrow> response \<times> db) \<Rightarrow> http_req \<Rightarrow> db \<Rightarrow> response \<times> db" where
  "routed env gate handler req d = (case withSession env True req d of
       (Inl r, d1) \<Rightarrow> (r, d1)
     | (Inr p, d1) \<Rightarrow> (case gate p of Inl r \<Rightarrow> (r, d1) | Inr p' \<Rightarrow> handler p' d1))"

section \<open>Login and MFA\<close>

definition login_key :: "http_req \<Rightarrow> string \<Rightarrow> string" where
  "login_key req email = hr_ip req @ ''|'' @ email"

text \<open>The principal a failed login is audited under: only the tenant and e-mail are set.\<close>

definition failed_principal :: "uuid \<Rightarrow> string \<Rightarrow> string \<Rightarrow> principal" where
  "failed_principal tenant email ip =
     \<lparr>pr_admin = new_admin email '''' '''' False, pr_session = \<lparr>se_id = '''', se_tenant = 0, se_admin = 0,
        se_csrf = '''', se_mfa_passed = False, se_expires_at = 0, se_ip = '''', se_user_agent = ''''\<rparr>,
      pr_tenant = tenant, pr_ip = ip\<rparr>"

definition CheckPasswordOrDummy :: "auth_env \<Rightarrow> string option \<Rightarrow> string \<Rightarrow> bool" where
  "CheckPasswordOrDummy env hash pw = (case hash of None \<Rightarrow> False | Some h \<Rightarrow> ae_check_password env h pw)"

definition too_many :: response where
  "too_many = writeErr 429 ''too many failed attempts; try again later''"

definition login_hash :: "admin_row res \<Rightarrow> uuid \<Rightarrow> db \<Rightarrow> string option \<times> db" where
  "login_hash found tenant d = (case found of
       Inl _ \<Rightarrow> (None, d)
     | Inr a \<Rightarrow> if ad_disabled a then (None, d)
         else let (sus, d') = tenantSuspended tenant d in (if sus then None else Some (ad_password_hash a), d'))"

definition login ::
  "auth_env \<Rightarrow> http_req \<Rightarrow> string \<Rightarrow> string \<Rightarrow> string \<Rightarrow> string \<Rightarrow> db \<Rightarrow> response \<times> db" where
  "login env req tok csrf reqEmail password d =
     (let email = ToLower (TrimSpace reqEmail); now = ae_now env;
          (found, d1) = GetAdminByEmailGlobal email d;
          tenant = (case found of Inr a \<Rightarrow> ad_tenant a | Inl _ \<Rightarrow> ae_default_tenant env);
          key = login_key req email;
          (ok, d2) = allow tenant key now d1
      in if \<not> ok then (too_many, d2)
         else
           let (hash, d3) = login_hash found tenant d2
           in if \<not> CheckPasswordOrDummy env hash password
              then (writeErr 401 ''invalid email or password'',
                    audit (failed_principal tenant email (hr_ip req)) ''admin.login'' ''admin'' (Txt '''')
                      [(''stage'', DStr ''password'')] ''failure'' (limiter_fail tenant key now d3))
              else
                let d4 = limiter_reset tenant key d3;
                    adminID = (case found of Inr a \<Rightarrow> ad_id a | Inl _ \<Rightarrow> 0)
                in case Create_session env req tok csrf tenant adminID d4 of
                     (Inl _, d5) \<Rightarrow> (writeErr 500 ''could not create session'', d5)
                   | (Inr _, d5) \<Rightarrow> (\<lparr>rsp_code = 200, rsp_body = NoBody\<rparr>, d5))"

definition logout :: "auth_env \<Rightarrow> http_req \<Rightarrow> db \<Rightarrow> response \<times> db" where
  "logout env req d = (noContent, Destroy_session env req d)"

definition mfaSetup :: "auth_env \<Rightarrow> string res \<Rightarrow> principal \<Rightarrow> db \<Rightarrow> response \<times> db" where
  "mfaSetup env generated p d =
     (if ad_totp_confirmed (pr_admin p) then (writeErr 409 ''MFA already enrolled'', d)
      else case generated of
        Inl _ \<Rightarrow> (writeErr 500 ''could not create TOTP secret'', d)
      | Inr secret \<Rightarrow> (case SetAdminTOTP (pr_tenant p) (ad_id (pr_admin p)) (ae_seal env secret) False d of
          (Inl _, d1) \<Rightarrow> (writeErr 500 ''could not store TOTP secret'', d1)
        | (Inr _, d1) \<Rightarrow> (\<lparr>rsp_code = 200, rsp_body = NoBody\<rparr>, d1)))"

definition mfaVerify :: "auth_env \<Rightarrow> string \<Rightarrow> principal \<Rightarrow> db \<Rightarrow> response \<times> db" where
  "mfaVerify env code p d = (case ad_totp_secret (pr_admin p) of
       None \<Rightarrow> (writeErr 400 ''MFA not set up; call /api/mfa/setup first'', d)
     | Some enc \<Rightarrow>
         (let key = ''mfa|'' @ se_id (pr_session p); now = ae_now env; (ok, d1) = allow (pr_tenant p) key now d
          in if \<not> ok then (too_many, d1)
             else if (case ae_unseal env enc of Inl _ \<Rightarrow> True | Inr secret \<Rightarrow> \<not> ae_totp env secret (TrimSpace code) now)
             then (writeErr 401 ''invalid code'',
                   audit p ''admin.login'' ''admin'' (IdTxt '''' (ad_id (pr_admin p))) [(''stage'', DStr ''mfa'')] ''failure''
                     (limiter_fail (pr_tenant p) key now d1))
             else
               let d2 = limiter_reset (pr_tenant p) key d1;
                   (r, d3) = (if ad_totp_confirmed (pr_admin p) then (Inr (), d2)
                              else SetAdminTOTP (pr_tenant p) (ad_id (pr_admin p)) enc True d2)
               in case r of
                    Inl _ \<Rightarrow> (writeErr 500 ''could not confirm MFA'', d3)
                  | Inr _ \<Rightarrow> (case MarkSessionMFA (se_id (pr_session p)) d3 of
                      (Inl _, d4) \<Rightarrow> (writeErr 500 ''could not update session'', d4)
                    | (Inr _, d4) \<Rightarrow> (noContent, audit p ''admin.login'' ''admin''
                        (IdTxt '''' (ad_id (pr_admin p))) [] ''success'' d4))))"

section \<open>Administrators\<close>

definition createAdmin :: "auth_env \<Rightarrow> string \<Rightarrow> string \<Rightarrow> string \<Rightarrow> principal \<Rightarrow> db \<Rightarrow> response \<times> db" where
  "createAdmin env reqEmail password role p d =
     (let email = ToLower (TrimSpace reqEmail) in
      if \<not> Contains email ''@'' \<or> role \<notin> set Roles
      then (writeErr 400 ''a valid email and role (owner, admin, readonly) are required'', d)
      else case HashPassword (ae_bcrypt env) password of
        Inl e \<Rightarrow> (writeErr 400 (err_text e), d)
      | Inr hash \<Rightarrow> (case CreateAdmin (pr_tenant p) (new_admin email hash role False) d of
          (Inl e, d1) \<Rightarrow> (storeErr e, d1)
        | (Inr i, d1) \<Rightarrow> (reply_id 201 i, audit p ''admin.create'' ''admin'' (IdTxt '''' i)
            [(''email'', DStr email), (''role'', DStr role)] ''success'' d1)))"

definition disableAdmin :: "uuid \<Rightarrow> principal \<Rightarrow> db \<Rightarrow> response \<times> db" where
  "disableAdmin i p d =
     (if i = ad_id (pr_admin p) then (writeErr 400 ''cannot disable yourself'', d)
      else case SetAdminDisabled (pr_tenant p) i True d of
        (Inl e, d1) \<Rightarrow> (storeErr e, d1)
      | (Inr _, d1) \<Rightarrow> finish p ''admin.disable'' ''admin'' i [] (DeleteAdminSessions (pr_tenant p) i d1))"

definition enableAdmin :: "uuid \<Rightarrow> principal \<Rightarrow> db \<Rightarrow> response \<times> db" where
  "enableAdmin i p d = finish p ''admin.enable'' ''admin'' i [] (SetAdminDisabled (pr_tenant p) i False d)"

definition setAdminRole :: "uuid \<Rightarrow> string \<Rightarrow> principal \<Rightarrow> db \<Rightarrow> response \<times> db" where
  "setAdminRole i role p d =
     (if i = ad_id (pr_admin p) then (writeErr 400 ''cannot change your own role'', d)
      else if role \<notin> set Roles then (writeErr 400 ''role must be owner, admin, or readonly'', d)
      else finish p ''admin.role'' ''admin'' i [(''role'', DStr role)] (SetAdminRole (pr_tenant p) i role d))"

section \<open>The provider's handlers\<close>

definition rename_step :: "uuid \<Rightarrow> string option \<Rightarrow> principal \<Rightarrow> db \<Rightarrow> unit res \<times> db" where
  "rename_step i name p d = (case name of
       None \<Rightarrow> (Inr (), d)
     | Some n \<Rightarrow> andThen (RenameTenant i (TrimSpace n) d) (\<lambda>_ d1.
         (Inr (), audit p ''provider.tenant.rename'' ''tenant'' (IdTxt '''' i) [(''name'', DStr (TrimSpace n))] ''success'' d1)))"

definition suspend_step :: "uuid \<Rightarrow> bool option \<Rightarrow> principal \<Rightarrow> db \<Rightarrow> unit res \<times> db" where
  "suspend_step i suspended p d = (case suspended of
       None \<Rightarrow> (Inr (), d)
     | Some s \<Rightarrow> andThen (SetTenantSuspended i s d) (\<lambda>_ d1.
         (Inr (), audit p (if s then ''provider.tenant.suspend'' else ''provider.tenant.unsuspend'') ''tenant''
            (IdTxt '''' i) [] ''success'' d1)))"

definition updateProviderTenant :: "uuid \<Rightarrow> string option \<Rightarrow> bool option \<Rightarrow> principal \<Rightarrow> db \<Rightarrow> response \<times> db" where
  "updateProviderTenant i name suspended p d =
     (if (case name of Some n \<Rightarrow> TrimSpace n = [] | None \<Rightarrow> False) then (writeErr 400 ''name cannot be blank'', d)
      else if suspended = Some True \<and> i = pr_tenant p
      then (writeErr 400 ''cannot suspend the provider's own tenant'', d)
      else case andThen (rename_step i name p d) (\<lambda>_. suspend_step i suspended p) of
        (Inl e, d1) \<Rightarrow> (storeErr e, d1)
      | (Inr _, d1) \<Rightarrow> (noContent, d1))"

definition createProviderTenant ::
  "'ca key_env \<Rightarrow> auth_env \<Rightarrow> string \<Rightarrow> string \<Rightarrow> string \<Rightarrow> principal \<Rightarrow> db \<Rightarrow> response \<times> db" where
  "createProviderTenant kenv env reqOrg reqEmail password p d =
     (let org = TrimSpace reqOrg; email = ToLower (TrimSpace reqEmail);
          detail = [(''org'', DStr org), (''owner'', DStr email)] in
      if org = [] \<or> \<not> Contains email ''@'' \<or> length password < MinPasswordLen
      then (writeErr 400 ''org_name, a valid owner_email, and a password of at least 12 characters are required'', d)
      else case app_ProvisionTenant kenv (ae_bcrypt env) org email password d of
        (Inl e, d1) \<Rightarrow> (storeErr e, audit p ''provider.tenant.create'' ''tenant'' (Txt '''') detail ''failure'' d1)
      | (Inr tid, d1) \<Rightarrow> (reply_id 201 tid,
          audit p ''provider.tenant.create'' ''tenant'' (IdTxt '''' tid) detail ''success'' d1))"

section \<open>Only authentic requests reach a handler\<close>

text \<open>What the middleware checked: the session, its administrator and tenant, and the CSRF token.\<close>

definition authentic :: "auth_env \<Rightarrow> http_req \<Rightarrow> db \<Rightarrow> principal \<Rightarrow> bool" where
  "authentic env req d p \<longleftrightarrow>
     (\<exists>c. hr_cookie req = Some c \<and> se_id (pr_session p) = ae_token_hash env c) \<and>
     pr_session p \<in> set (sessions d) \<and> ae_now env < se_expires_at (pr_session p) \<and>
     pr_admin p \<in> set (admins d) \<and> ad_id (pr_admin p) = se_admin (pr_session p) \<and>
     ad_tenant (pr_admin p) = pr_tenant p \<and> se_tenant (pr_session p) = pr_tenant p \<and>
     \<not> ad_disabled (pr_admin p) \<and>
     (\<exists>t \<in> set (tenants d). tn_id t = pr_tenant p \<and> \<not> tn_suspended t) \<and>
     (hr_get req \<or> hr_csrf req = se_csrf (pr_session p))"

lemma Load_session_cases:
  obtains e fs where "Load_session env req d = (Inl e, d\<lparr>faults := fs\<rparr>)"
  | s fs c where "Load_session env req d = (Inr s, d\<lparr>faults := fs\<rparr>)" "hr_cookie req = Some c"
      "se_id s = ae_token_hash env c" "s \<in> set (sessions d)" "ae_now env < se_expires_at s"
proof (cases "hr_cookie req = None \<or> hr_cookie req = Some []")
  case True
  then have "Load_session env req d = (Inl ErrNotFound, d\<lparr>faults := faults d\<rparr>)"
    by (auto simp: Load_session_def)
  then show thesis by (rule that(1))
next
  case False
  then obtain c where c: "hr_cookie req = Some c" "c \<noteq> []" by auto
  let ?P = "\<lambda>s. se_id s = ae_token_hash env c \<and> se_expires_at s > ae_now env"
  have L: "Load_session env req d = pool (lookup sessions ?P (\<lambda>x. x)) d"
    using c by (simp add: Load_session_def GetSession_def lookup_def [abs_def])
  have fr: "sessions (d\<lparr>faults := fs\<rparr>) = sessions d" for d :: db and fs by simp
  show thesis
  proof (cases rule: lookup_cases [OF fr, where P = ?P and h = "\<lambda>x. x" and d = d])
    case (1 e fs)
    with L show thesis by (intro that(1)) simp
  next
    case (2 s fs)
    with L c show thesis by (intro that(2) [of s fs c]) simp_all
  qed
qed

lemma GetAdmin_cases:
  obtains e fs where "GetAdmin t i d = (Inl e, d\<lparr>faults := fs\<rparr>)"
  | a fs where "GetAdmin t i d = (Inr a, d\<lparr>faults := fs\<rparr>)" "a \<in> set (admins d)" "ad_tenant a = t" "ad_id a = i"
proof -
  let ?P = "\<lambda>a. ad_tenant a = t \<and> ad_id a = i"
  have G: "GetAdmin t i d = pool (lookup admins ?P (\<lambda>x. x)) d"
    by (simp add: GetAdmin_def select_admin_def [abs_def] lookup_def [abs_def])
  have fr: "admins (d\<lparr>faults := fs\<rparr>) = admins d" for d :: db and fs by simp
  show thesis
  proof (cases rule: lookup_cases [OF fr, where P = ?P and h = "\<lambda>x. x" and d = d])
    case (1 e fs)
    with G show thesis by (intro that(1)) simp
  next
    case (2 a fs)
    with G show thesis by (intro that(2) [of a fs]) simp_all
  qed
qed

lemma tenantSuspended_cases:
  obtains fs where "tenantSuspended t d = (True, d\<lparr>faults := fs\<rparr>)"
  | x fs where "tenantSuspended t d = (False, d\<lparr>faults := fs\<rparr>)" "x \<in> set (tenants d)" "tn_id x = t" "\<not> tn_suspended x"
proof -
  have T: "TenantSuspended t d = pool (lookup tenants (\<lambda>x. tn_id x = t) tn_suspended) d"
    by (simp add: TenantSuspended_def lookup_def [abs_def])
  have fr: "tenants (d\<lparr>faults := fs\<rparr>) = tenants d" for d :: db and fs by simp
  show thesis
  proof (cases rule: lookup_cases [OF fr, where P = "\<lambda>x. tn_id x = t" and h = tn_suspended and d = d])
    case (1 e fs)
    with T show thesis by (intro that(1) [of fs]) (simp add: tenantSuspended_def)
  next
    case (2 x fs)
    with T show thesis
      by (cases "tn_suspended x") (auto simp: tenantSuspended_def intro: that(1) [of fs] that(2) [of fs x])
  qed
qed

text \<open>The middleware rejects with 401 or 403 and leaves the tables alone, or the request is authentic.\<close>

lemma withSession_cases:
  obtains (rejected) r fs where "withSession env mfa req d = (Inl r, d\<lparr>faults := fs\<rparr>)" "rsp_code r \<in> {401, 403}"
  | (accepted) p fs where "withSession env mfa req d = (Inr p, d\<lparr>faults := fs\<rparr>)" "authentic env req d p"
      "mfa \<Longrightarrow> se_mfa_passed (pr_session p)"
proof (cases env req d rule: Load_session_cases)
  case (1 e fs)
  then show thesis by (intro rejected [of notLoggedIn fs]) (simp_all add: withSession_def notLoggedIn_def writeErr_def)
next
  case (2 s fs c)
  show thesis
  proof (cases "se_tenant s" "se_admin s" "d\<lparr>faults := fs\<rparr>" rule: GetAdmin_cases)
    case (1 e fs1)
    with 2 show thesis
      by (intro rejected [of notLoggedIn fs1]) (simp_all add: withSession_def notLoggedIn_def writeErr_def)
  next
    case a: (2 a fs1)
    show thesis
    proof (cases "ad_disabled a")
      case True
      with 2 a show thesis
        by (intro rejected [of notLoggedIn fs1]) (simp_all add: withSession_def notLoggedIn_def writeErr_def)
    next
      case False
      show thesis
      proof (cases "se_tenant s" "d\<lparr>faults := fs1\<rparr>" rule: tenantSuspended_cases)
        case (1 fs2)
        with 2 a False show thesis
          by (intro rejected [of notLoggedIn fs2]) (simp_all add: withSession_def notLoggedIn_def writeErr_def)
      next
        case t: (2 x fs2)
        let ?p = "\<lparr>pr_admin = a, pr_session = s, pr_tenant = se_tenant s, pr_ip = hr_ip req\<rparr>"
        have W: "withSession env mfa req d =
          (if \<not> hr_get req \<and> hr_csrf req \<noteq> se_csrf s then Inl (writeErr 403 ''bad CSRF token'')
           else if mfa \<and> \<not> se_mfa_passed s then Inl (writeErr 403 ''mfa_required'') else Inr ?p, d\<lparr>faults := fs2\<rparr>)"
          using 2 a False t by (simp add: withSession_def)
        show thesis
        proof (cases "(\<not> hr_get req \<and> hr_csrf req \<noteq> se_csrf s) \<or> (mfa \<and> \<not> se_mfa_passed s)")
          case True
          with W show thesis
            by (intro rejected [of "if \<not> hr_get req \<and> hr_csrf req \<noteq> se_csrf s then writeErr 403 ''bad CSRF token''
                 else writeErr 403 ''mfa_required''" fs2]) (auto simp: writeErr_def)
        next
          case ok: False
          then have "authentic env req d ?p" using 2 a t False by (auto simp: authentic_def)
          with W ok show thesis by (intro accepted [of ?p fs2]) auto
        qed
      qed
    qed
  qed
qed

lemma routed_cases:
  obtains (rejected) r fs where "routed env (requireRole role) h req d = (r, d\<lparr>faults := fs\<rparr>)" "rsp_code r \<in> {401, 403}"
  | (handled) p fs where "routed env (requireRole role) h req d = h p (d\<lparr>faults := fs\<rparr>)" "authentic env req d p"
      "se_mfa_passed (pr_session p)" "Allows (ad_role (pr_admin p)) role"
proof (cases env True req d rule: withSession_cases)
  case (rejected r fs)
  then show thesis by (intro that(1) [of r fs]) (simp_all add: routed_def)
next
  case (accepted p fs)
  then show thesis
    by (cases "Allows (ad_role (pr_admin p)) role")
       (auto simp: routed_def requireRole_def writeErr_def intro: that)
qed

text \<open>
  Role-gated routes are safe. Whatever queries fail, a console route behind the
  session and role middlewares either answers 401 or 403 without changing any table, or
  runs its handler for a caller whose session exists, is unexpired and has passed MFA,
  whose administrator exists, is not disabled and holds at least the required role,
  whose tenant is not suspended, and, for anything but GET, who sent the session's CSRF
  token.
\<close>

theorem role_gate_safe:
  "(\<exists>r fs. routed env (requireRole role) h req d = (r, d\<lparr>faults := fs\<rparr>) \<and> rsp_code r \<in> {401, 403}) \<or>
   (\<exists>p fs. routed env (requireRole role) h req d = h p (d\<lparr>faults := fs\<rparr>) \<and> authentic env req d p \<and>
      se_mfa_passed (pr_session p) \<and> Allows (ad_role (pr_admin p)) role)"
  by (cases env role h req d rule: routed_cases) blast+

section \<open>A tenant keeps an active owner\<close>

definition active_owner :: "uuid \<Rightarrow> db \<Rightarrow> bool" where
  "active_owner t d \<longleftrightarrow> (\<exists>a \<in> set (admins d). ad_tenant a = t \<and> ad_role a = ''owner'' \<and> \<not> ad_disabled a)"

text \<open>The administrator-management requests, each served from session check to handler.\<close>

inductive_set admin_requests :: "(db \<Rightarrow> db) set" where
  role: "(\<lambda>d. snd (routed env (requireRole ''owner'') (setAdminRole i r) req d)) \<in> admin_requests"
| disable: "(\<lambda>d. snd (routed env (requireRole ''owner'') (disableAdmin i) req d)) \<in> admin_requests"
| enable: "(\<lambda>d. snd (routed env (requireRole ''owner'') (enableAdmin i) req d)) \<in> admin_requests"
| create: "(\<lambda>d. snd (routed env (requireRole ''owner'') (createAdmin env e pw r) req d)) \<in> admin_requests"

lemma Allows_owner: "Allows r ''owner'' \<longleftrightarrow> r = ''owner''"
  by (auto simp: Allows_def roleRank_def split: if_splits)

lemma audit_admins [simp]: "admins (audit p a b c e g d) = admins d"
  by (rule audit_shape [of p a b c e g d]) simp

lemma finish_admins: "admins (snd (finish p a b i e r)) = admins (snd r)"
  by (cases r; cases "fst r") (auto simp: finish_def)

lemma update_admin_admins:
  "admins (snd (pool (update_admin_stmt t i f) d)) = admins d \<or>
   admins (snd (pool (update_admin_stmt t i f) d)) = update_where (\<lambda>a. ad_tenant a = t \<and> ad_id a = i) f (admins d)"
  by (cases "update_admin_stmt t i f" d rule: pool_cases) (simp_all add: update_admin_stmt_def Let_def)

lemma SetAdminRole_admins:
  "admins (snd (SetAdminRole t i r d)) = admins d \<or>
   admins (snd (SetAdminRole t i r d)) = update_where (\<lambda>a. ad_tenant a = t \<and> ad_id a = i) (\<lambda>a. a\<lparr>ad_role := r\<rparr>) (admins d)"
  by (cases "set_role_stmt t i r" d rule: pool_cases)
     (simp_all add: SetAdminRole_def set_role_stmt_def update_admin_stmt_def Let_def)

lemma DeleteAdminSessions_admins [simp]: "admins (snd (DeleteAdminSessions t i d)) = admins d"
  by (cases "\<lambda>d :: db. (Inr () :: unit res, d\<lparr>sessions := filter (\<lambda>s. \<not> (se_tenant s = t \<and> se_admin s = i)) (sessions d)\<rparr>)"
      d rule: pool_cases) (simp_all add: DeleteAdminSessions_def)

lemma insert_admin_admins: "set (admins d) \<subseteq> set (admins (snd (insert_admin_stmt i t a d)))"
  by (auto simp: insert_admin_stmt_def Let_def)

lemma CreateAdmin_admins: "set (admins d) \<subseteq> set (admins (snd (CreateAdmin t a d)))"
proof (cases "insert_admin_stmt (next_uuid d) t a" "d\<lparr>next_uuid := Suc (next_uuid d)\<rparr>" rule: pool_cases)
  case (lost rest)
  then show ?thesis by (simp add: CreateAdmin_def new_uuid_def split_beta)
next
  case (ran rest)
  with insert_admin_admins [of "d\<lparr>next_uuid := Suc (next_uuid d), faults := rest\<rparr>"] show ?thesis
    by (simp add: CreateAdmin_def new_uuid_def split_beta)
qed

text \<open>An update of another administrator leaves a given active owner of the tenant alone.\<close>

lemma other_owner_stays:
  assumes "a \<in> set (admins d)" "ad_tenant a = t" "ad_role a = ''owner''" "\<not> ad_disabled a" "t = t' \<longrightarrow> ad_id a \<noteq> i"
    "as = admins d \<or> as = update_where (\<lambda>a. ad_tenant a = t' \<and> ad_id a = i) f (admins d)"
  shows "\<exists>a \<in> set as. ad_tenant a = t \<and> ad_role a = ''owner'' \<and> \<not> ad_disabled a"
proof -
  have "a \<in> set as" using assms by (auto simp: set_update_where image_iff)
  with assms show ?thesis by blast
qed

lemma handler_keeps_owner:
  assumes "authentic env req d p" "ad_role (pr_admin p) = ''owner''" "active_owner t d" "i \<noteq> ad_id (pr_admin p)"
    "as = admins d \<or> as = update_where (\<lambda>a. ad_tenant a = pr_tenant p \<and> ad_id a = i) f (admins d)"
  shows "\<exists>a \<in> set as. ad_tenant a = t \<and> ad_role a = ''owner'' \<and> \<not> ad_disabled a"
proof (cases "t = pr_tenant p")
  case True
  with assms show ?thesis
    by (intro other_owner_stays [of "pr_admin p" d t "pr_tenant p" i as f]) (auto simp: authentic_def)
next
  case False
  from assms(3) obtain a where "a \<in> set (admins d)" "ad_tenant a = t" "ad_role a = ''owner''" "\<not> ad_disabled a"
    by (auto simp: active_owner_def)
  with False assms(5) show ?thesis by (intro other_owner_stays [of a d t "pr_tenant p" i as f]) auto
qed

lemma disableAdmin_admins:
  assumes "i \<noteq> ad_id (pr_admin p)"
  shows "admins (snd (disableAdmin i p d)) = admins (snd (SetAdminDisabled (pr_tenant p) i True d))"
  using assms by (cases "SetAdminDisabled (pr_tenant p) i True d"; cases "fst (SetAdminDisabled (pr_tenant p) i True d)")
    (auto simp: disableAdmin_def finish_admins)

lemma createAdmin_admins: "set (admins d) \<subseteq> set (admins (snd (createAdmin env e pw r p d)))"
proof (cases "HashPassword (ae_bcrypt env) pw")
  case (Inr hash)
  let ?c = "CreateAdmin (pr_tenant p) (new_admin (ToLower (TrimSpace e)) hash r False) d"
  have "admins (snd (createAdmin env e pw r p d)) \<in> {admins d, admins (snd ?c)}"
    using Inr by (cases ?c; cases "fst ?c") (auto simp: createAdmin_def Let_def)
  then show ?thesis
    using CreateAdmin_admins [of d "pr_tenant p" "new_admin (ToLower (TrimSpace e)) hash r False"] by auto
qed (simp add: createAdmin_def Let_def)

lemma admin_request_keeps_owner:
  assumes "f \<in> admin_requests" "active_owner t d"
  shows "active_owner t (f d)"
  using assms(1)
proof cases
  case (role env i r req)
  show ?thesis
  proof (cases env "''owner''" "setAdminRole i r" req d rule: routed_cases)
    case (rejected x fs)
    with role assms(2) show ?thesis by (simp add: active_owner_def)
  next
    case (handled p fs)
    show ?thesis
    proof (cases "i \<noteq> ad_id (pr_admin p) \<and> r \<in> set Roles")
      case True
      with role handled handler_keeps_owner [OF handled(2) _ assms(2), of i _ "\<lambda>a. a\<lparr>ad_role := r\<rparr>"]
        SetAdminRole_admins [of "pr_tenant p" i r "d\<lparr>faults := fs\<rparr>"]
      show ?thesis by (simp add: Allows_owner setAdminRole_def finish_admins active_owner_def)
    qed (use role handled assms(2) in \<open>auto simp: setAdminRole_def active_owner_def\<close>)
  qed
next
  case (disable env i req)
  show ?thesis
  proof (cases env "''owner''" "disableAdmin i" req d rule: routed_cases)
    case (rejected x fs)
    with disable assms(2) show ?thesis by (simp add: active_owner_def)
  next
    case (handled p fs)
    show ?thesis
    proof (cases "i \<noteq> ad_id (pr_admin p)")
      case True
      with disable handled handler_keeps_owner [OF handled(2) _ assms(2), of i _ "\<lambda>a. a\<lparr>ad_disabled := True\<rparr>"]
        update_admin_admins [of "pr_tenant p" i "\<lambda>a. a\<lparr>ad_disabled := True\<rparr>" "d\<lparr>faults := fs\<rparr>"]
      show ?thesis by (simp add: Allows_owner disableAdmin_admins SetAdminDisabled_def active_owner_def)
    qed (use disable handled assms(2) in \<open>auto simp: disableAdmin_def active_owner_def\<close>)
  qed
next
  case (enable env i req)
  show ?thesis
  proof (cases env "''owner''" "enableAdmin i" req d rule: routed_cases)
    case (rejected x fs)
    with enable assms(2) show ?thesis by (simp add: active_owner_def)
  next
    case (handled p fs)
    from assms(2) obtain a where a: "a \<in> set (admins d)" "ad_tenant a = t" "ad_role a = ''owner''" "\<not> ad_disabled a"
      by (auto simp: active_owner_def)
    let ?f = "\<lambda>a. a\<lparr>ad_disabled := False\<rparr>"
    have "?f a = a" using a(4) by simp
    with a have "\<exists>b \<in> set (update_where P ?f (admins d)). b = a" for P
      by (auto simp: set_update_where image_iff intro!: bexI [of _ a])
    with a enable handled update_admin_admins [of "pr_tenant p" i ?f "d\<lparr>faults := fs\<rparr>"]
    show ?thesis by (auto simp: enableAdmin_def finish_admins SetAdminDisabled_def active_owner_def)
  qed
next
  case (create env e pw r req)
  show ?thesis
  proof (cases env "''owner''" "createAdmin env e pw r" req d rule: routed_cases)
    case (rejected x fs)
    with create assms(2) show ?thesis by (simp add: active_owner_def)
  next
    case (handled p fs)
    with create assms(2) createAdmin_admins [of "d\<lparr>faults := fs\<rparr>" env e pw r p] show ?thesis
      by (fastforce simp: active_owner_def)
  qed
qed

text \<open>
  C12: Served one after another, administrator-management requests never leave a tenant
  without an active owner: a tenant that has one keeps one, whoever sends the requests,
  with whatever targets and roles, and whatever statements fail.
\<close>

theorem owner_remains:
  assumes "set fs \<subseteq> admin_requests" and "active_owner t d"
  shows "active_owner t (fold (\<lambda>f. f) fs d)"
  using assms by (induction fs arbitrary: d) (auto intro: admin_request_keeps_owner)

text \<open>Two owners of one tenant, both logged in.\<close>

definition demo_owner :: "uuid \<Rightarrow> string \<Rightarrow> admin_row" where
  "demo_owner i email = \<lparr>ad_id = i, ad_tenant = 7, ad_email = email, ad_password_hash = ''h'',
     ad_totp_secret = Some ''t'', ad_totp_confirmed = True, ad_role = ''owner'', ad_disabled = False, ad_provider = False\<rparr>"

definition demo_session :: "uuid \<Rightarrow> string \<Rightarrow> session_row" where
  "demo_session i tok = \<lparr>se_id = tok, se_tenant = 7, se_admin = i, se_csrf = ''x'', se_mfa_passed = True,
     se_expires_at = 100, se_ip = '''', se_user_agent = ''''\<rparr>"

definition demo_auth :: auth_env where
  "demo_auth = \<lparr>ae_now = 10, ae_token_hash = (\<lambda>s. s), ae_check_password = (\<lambda>h pw. pw = ''right''), ae_bcrypt = Inr,
     ae_seal = (\<lambda>s. s), ae_unseal = Inr, ae_totp = (\<lambda>s c t. False), ae_default_tenant = 7\<rparr>"

definition demo_request :: "string \<Rightarrow> http_req" where
  "demo_request tok = \<lparr>hr_cookie = Some tok, hr_get = False, hr_csrf = ''x'', hr_ip = ''1'', hr_user_agent = ''''\<rparr>"

definition two_owners :: db where
  "two_owners = empty_db\<lparr>tenants := [\<lparr>tn_id = 7, tn_name = ''acme'', tn_suspended = False\<rparr>],
     admins := [demo_owner 3 ''a@x'', demo_owner 4 ''b@x''],
     sessions := [demo_session 3 ''s3'', demo_session 4 ''s4'']\<rparr>"

definition demo_principal :: "uuid \<Rightarrow> string \<Rightarrow> string \<Rightarrow> principal" where
  "demo_principal i email tok =
     \<lparr>pr_admin = demo_owner i email, pr_session = demo_session i tok, pr_tenant = 7, pr_ip = ''1''\<rparr>"

lemmas demo_auth_defs = demo_auth_def demo_request_def two_owners_def demo_owner_def demo_session_def demo_principal_def
lemmas session_defs = withSession_def Load_session_def GetSession_def GetAdmin_def select_admin_def
  tenantSuspended_def TenantSuspended_def

theorem owner_remains_witness:
  "active_owner 7 (snd (routed demo_auth (requireRole ''owner'') (setAdminRole 4 ''readonly'') (demo_request ''s3'') two_owners))"
  using owner_remains [of "[\<lambda>d. snd (routed demo_auth (requireRole ''owner'') (setAdminRole 4 ''readonly'') (demo_request ''s3'') d)]"
      7 two_owners]
  by (auto simp: active_owner_def two_owners_def demo_owner_def intro: admin_requests.role)

text \<open>
  Served concurrently, two requests can leave a tenant without any active owner,
  although the code relies on an active owner always remaining: two owners pass the
  middlewares, then each one's handler demotes the other.
\<close>

theorem concurrent_demotion_leaves_no_owner:
  "\<exists>d env reqA reqB pA pB.
     active_owner 7 d \<and>
     withSession env True reqA d = (Inr pA, d) \<and> requireRole ''owner'' pA = Inr pA \<and>
     withSession env True reqB d = (Inr pB, d) \<and> requireRole ''owner'' pB = Inr pB \<and>
     (let (rA, dA) = setAdminRole 4 ''readonly'' pA d; (rB, dB) = setAdminRole 3 ''readonly'' pB dA
      in rA = noContent \<and> rB = noContent \<and> \<not> active_owner 7 dB)"
proof (intro exI conjI)
  show "active_owner 7 two_owners" by (simp add: active_owner_def two_owners_def demo_owner_def)
  show "withSession demo_auth True (demo_request ''s3'') two_owners = (Inr (demo_principal 3 ''a@x'' ''s3''), two_owners)"
    "withSession demo_auth True (demo_request ''s4'') two_owners = (Inr (demo_principal 4 ''b@x'' ''s4''), two_owners)"
    by (simp_all add: session_defs demo_auth_defs)
  show "requireRole ''owner'' (demo_principal 3 ''a@x'' ''s3'') = Inr (demo_principal 3 ''a@x'' ''s3'')"
    "requireRole ''owner'' (demo_principal 4 ''b@x'' ''s4'') = Inr (demo_principal 4 ''b@x'' ''s4'')"
    by (simp_all add: requireRole_def Allows_owner demo_principal_def demo_owner_def)
  show "let (rA, dA) = setAdminRole 4 ''readonly'' (demo_principal 3 ''a@x'' ''s3'') two_owners;
          (rB, dB) = setAdminRole 3 ''readonly'' (demo_principal 4 ''b@x'' ''s4'') dA
        in rA = noContent \<and> rB = noContent \<and> \<not> active_owner 7 dB"
    by (simp add: setAdminRole_def finish_def SetAdminRole_def set_role_stmt_def update_admin_stmt_def Roles_def
        rows_affected_def demo_auth_defs active_owner_def audit_def AppendAudit_def Let_def)
qed

section \<open>The login limit\<close>

text \<open>A history of login attempts for one e-mail address from one client address, with their answers.\<close>

fun login_run :: "auth_env \<Rightarrow> http_req \<Rightarrow> string \<Rightarrow> (time \<times> string) list \<Rightarrow> db \<Rightarrow> (time \<times> int) list \<times> db" where
  "login_run env req email [] d = ([], d)"
| "login_run env req email ((now, pw) # xs) d =
     (let (r, d1) = login (env\<lparr>ae_now := now\<rparr>) req ''tok'' ''csrf'' email pw d;
          (rs, d2) = login_run env req email xs d1
      in ((now, rsp_code r) # rs, d2))"

definition checked_in :: "time \<Rightarrow> (time \<times> int) list \<Rightarrow> nat" where
  "checked_in t rs = length (filter (\<lambda>(now, code). code = 401 \<and> t - failWindow \<le> now \<and> now \<le> t) rs)"

text \<open>Where the failures of an e-mail address are counted, and when they happened.\<close>

definition login_tenant :: "auth_env \<Rightarrow> string \<Rightarrow> db \<Rightarrow> uuid" where
  "login_tenant env email d = (case find_row (\<lambda>a. ad_email a = ToLower email) (admins d) of
       Some a \<Rightarrow> ad_tenant a | None \<Rightarrow> ae_default_tenant env)"

definition failure_times :: "uuid \<Rightarrow> string \<Rightarrow> db \<Rightarrow> time list" where
  "failure_times t key d = map lf_at (filter (\<lambda>f. lf_tenant f = t \<and> lf_key f = key) (login_failures d))"

lemma failure_count_times:
  "failure_count t key since d = length (filter (\<lambda>x. x \<ge> since) (failure_times t key d))"
  by (simp add: failure_count_def failure_times_def filter_map comp_def conj_assoc)

lemma audit_login [simp]:
  "tenants (audit p a b c e g d) = tenants d" "login_failures (audit p a b c e g d) = login_failures d"
  by (rule audit_shape [of p a b c e g d], simp)+

lemma no_fault_reads:
  assumes "faults d = []"
  shows "tenantSuspended t d = (fst (tenantSuspended t d), d)"
    "allow t key now d = (failure_count t key (now - failWindow) d < maxFailures, d)"
    "GetAdminByEmailGlobal e d = (case find_row (\<lambda>a. ad_email a = ToLower e) (admins d) of
       None \<Rightarrow> Inl ErrNotFound | Some a \<Rightarrow> Inr a, d)"
  using assms
  by (auto simp: tenantSuspended_def TenantSuspended_def allow_def CountLoginFailures_def GetAdminByEmailGlobal_def
      select_admin_def split: option.splits)

text \<open>One failing attempt: refused when the window is full, otherwise checked and recorded.\<close>

lemma failed_login_step:
  assumes f: "faults d = []" and wrong: "\<And>a. a \<in> set (admins d) \<Longrightarrow> \<not> ae_check_password env (ad_password_hash a) pw"
    and T: "T = login_tenant env (ToLower (TrimSpace e)) d" and ex: "tenant_exists T d"
    and K: "K = login_key req (ToLower (TrimSpace e))"
    and n: "n = length (filter (\<lambda>x. x \<ge> ae_now env - failWindow) (failure_times T K d))"
  shows "if n < maxFailures
    then (\<exists>d'. login env req tok csrf e pw d = (writeErr 401 ''invalid email or password'', d') \<and> faults d' = [] \<and>
      admins d' = admins d \<and> tenants d' = tenants d \<and> failure_times T K d' = failure_times T K d @ [ae_now env])
    else login env req tok csrf e pw d = (too_many, d)"
proof -
  let ?m = "ToLower (TrimSpace e)"
  let ?r = "find_row (\<lambda>a. ad_email a = ToLower ?m) (admins d)"
  define found :: "admin_row res" where "found = (case ?r of None \<Rightarrow> Inl ErrNotFound | Some a \<Rightarrow> Inr a)"
  define hash where "hash = (case found of Inl _ \<Rightarrow> None | Inr a \<Rightarrow> if ad_disabled a then None
     else if fst (tenantSuspended T d) then None else Some (ad_password_hash a))"
  have tenant: "(case found of Inr a \<Rightarrow> ad_tenant a | Inl _ \<Rightarrow> ae_default_tenant env) = T"
    by (simp add: found_def T login_tenant_def split: option.splits)
  have "\<not> CheckPasswordOrDummy env hash pw"
    using wrong by (auto simp: CheckPasswordOrDummy_def hash_def found_def split: option.splits sum.splits dest: find_row_Some)
  moreover have "login_hash found T d = (hash, d)"
    using no_fault_reads(1) [OF f, of T] by (auto simp: login_hash_def hash_def split: sum.splits prod.splits)
  moreover have "n = failure_count T K (ae_now env - failWindow) d" by (simp add: n failure_count_times)
  ultimately have L: "login env req tok csrf e pw d = (if \<not> n < maxFailures then (too_many, d)
      else (writeErr 401 ''invalid email or password'',
            audit (failed_principal T ?m (hr_ip req)) ''admin.login'' ''admin'' (Txt '''')
              [(''stage'', DStr ''password'')] ''failure'' (limiter_fail T K (ae_now env) d)))"
    using no_fault_reads(2,3) [OF f] tenant
    unfolding login_def Let_def K [symmetric] found_def [symmetric] by (simp add: found_def [symmetric])
  have R: "limiter_fail T K (ae_now env) d =
      d\<lparr>login_failures := login_failures d @ [\<lparr>lf_tenant = T, lf_key = K, lf_at = ae_now env\<rparr>]\<rparr>"
    using f ex by (simp add: limiter_fail_def RecordLoginFailure_def)
  show ?thesis
    using L f by (simp add: R failure_times_def)
qed

definition window_ok :: "time list \<Rightarrow> bool" where
  "window_ok ts \<longleftrightarrow> (\<forall>t. length (filter (\<lambda>x. t - failWindow \<le> x \<and> x \<le> t) ts) \<le> maxFailures)"

lemma window_ok_snoc:
  assumes "window_ok ts" "length (filter (\<lambda>x. x \<ge> now - failWindow) ts) < maxFailures"
  shows "window_ok (ts @ [now])"
  unfolding window_ok_def
proof
  fix t
  show "length (filter (\<lambda>x. t - failWindow \<le> x \<and> x \<le> t) (ts @ [now])) \<le> maxFailures"
  proof (cases "now \<le> t")
    case True
    then have "length (filter (\<lambda>x. t - failWindow \<le> x \<and> x \<le> t) ts) \<le> length (filter (\<lambda>x. x \<ge> now - failWindow) ts)"
      by (induction ts) auto
    with assms(2) show ?thesis by simp
  next
    case False
    with assms(1) show ?thesis by (simp add: window_ok_def)
  qed
qed

lemma login_run_window:
  assumes "faults d = []" "\<forall>a \<in> set (admins d). \<forall>(now, pw) \<in> set xs. \<not> ae_check_password env (ad_password_hash a) pw"
    "T = login_tenant env (ToLower (TrimSpace e)) d" "tenant_exists T d" "K = login_key req (ToLower (TrimSpace e))"
    "window_ok (failure_times T K d)"
  shows "window_ok (failure_times T K d @ map fst (filter (\<lambda>(now, code). code = 401) (fst (login_run env req e xs d))))"
  using assms
proof (induction xs arbitrary: d)
  case (Cons x xs)
  obtain now pw where x: "x = (now, pw)" by fastforce
  let ?env = "env\<lparr>ae_now := now\<rparr>"
  let ?n = "length (filter (\<lambda>x. x \<ge> now - failWindow) (failure_times T K d))"
  have T: "T = login_tenant ?env (ToLower (TrimSpace e)) d" using Cons.prems(3) by (simp add: login_tenant_def split: option.splits)
  have step: "if ?n < maxFailures
    then (\<exists>d'. login ?env req ''tok'' ''csrf'' e pw d = (writeErr 401 ''invalid email or password'', d') \<and> faults d' = [] \<and>
      admins d' = admins d \<and> tenants d' = tenants d \<and> failure_times T K d' = failure_times T K d @ [now])
    else login ?env req ''tok'' ''csrf'' e pw d = (too_many, d)"
    using failed_login_step [OF Cons.prems(1) _ T Cons.prems(4,5), of pw ?n "''tok''" "''csrf''"] Cons.prems(2) x
    by (simp cong: if_cong)
  show ?case
  proof (cases "?n < maxFailures")
    case True
    with step obtain d' where d': "login ?env req ''tok'' ''csrf'' e pw d = (writeErr 401 ''invalid email or password'', d')"
      "faults d' = []" "admins d' = admins d" "tenants d' = tenants d" "failure_times T K d' = failure_times T K d @ [now]"
      by auto
    have "window_ok (failure_times T K d')" using window_ok_snoc [OF Cons.prems(6) True] d'(5) by simp
    moreover have "T = login_tenant env (ToLower (TrimSpace e)) d'" "tenant_exists T d'"
      using Cons.prems(3,4) d'(3,4) by (simp_all add: login_tenant_def tenant_exists_def)
    ultimately have "window_ok (failure_times T K d' @
        map fst (filter (\<lambda>(now, code). code = 401) (fst (login_run env req e xs d'))))"
      using Cons.prems(2,5) d'(2,3) by (intro Cons.IH) auto
    with d' x show ?thesis by (simp add: case_prod_beta' Let_def writeErr_def)
  next
    case False
    with step x Cons show ?thesis by (simp add: case_prod_beta' Let_def too_many_def writeErr_def)
  qed
qed simp

text \<open>
  C13: The login limit holds. Over any sequence of failing login attempts for one e-mail
  address from one client address (no failures recorded yet, the database answering, the
  requests served one after another), at most five passwords are checked in any window
  of fifteen minutes, whether or not the address belongs to an administrator; every
  further attempt is answered without looking at the password.
\<close>

theorem login_attempts_limited:
  assumes "faults d = []" and "\<forall>a \<in> set (admins d). \<forall>(now, pw) \<in> set xs. \<not> ae_check_password env (ad_password_hash a) pw"
    and "tenant_exists (login_tenant env (ToLower (TrimSpace e)) d) d"
    and "\<forall>f \<in> set (login_failures d). lf_key f \<noteq> login_key req (ToLower (TrimSpace e))"
  shows "checked_in t (fst (login_run env req e xs d)) \<le> maxFailures"
proof -
  let ?T = "login_tenant env (ToLower (TrimSpace e)) d" and ?K = "login_key req (ToLower (TrimSpace e))"
  let ?rs = "fst (login_run env req e xs d)"
  have none: "failure_times ?T ?K d = []" using assms(4) by (auto simp: failure_times_def filter_empty_conv)
  then have "window_ok (map fst (filter (\<lambda>(now, code). code = 401) ?rs))"
    using login_run_window [OF assms(1,2) refl assms(3) refl, of req] by (simp add: window_ok_def)
  moreover have "checked_in t ?rs =
      length (filter (\<lambda>x. t - failWindow \<le> x \<and> x \<le> t) (map fst (filter (\<lambda>(now, code). code = 401) ?rs)))"
    by (simp add: checked_in_def filter_map comp_def case_prod_beta')
  ultimately show ?thesis by (simp add: window_ok_def)
qed

theorem login_attempts_limited_witness:
  "checked_in 30 (fst (login_run demo_auth (demo_request ''s3'') ''a@x'' (map (\<lambda>n. (n, ''guess'')) [10 .. 30]) two_owners)) \<le> maxFailures"
proof (rule login_attempts_limited)
  show "faults two_owners = []" by (simp add: two_owners_def)
  show "\<forall>a \<in> set (admins two_owners). \<forall>(now, pw) \<in> set (map (\<lambda>n. (n, ''guess'')) [10 .. 30]).
      \<not> ae_check_password demo_auth (ad_password_hash a) pw" by (auto simp: demo_auth_def)
  have low: "ToLower (ToLower (TrimSpace ''a@x'')) = ''a@x''"
    by (simp add: ToLower_def TrimSpace_def lower_char_def is_upper_def is_space_def char_defs)
  show "tenant_exists (login_tenant demo_auth (ToLower (TrimSpace ''a@x'')) two_owners) two_owners"
    unfolding login_tenant_def low by (simp add: two_owners_def demo_owner_def tenant_exists_def)
  show "\<forall>f \<in> set (login_failures two_owners). lf_key f \<noteq> login_key (demo_request ''s3'') (ToLower (TrimSpace ''a@x''))"
    by (simp add: two_owners_def)
qed

section \<open>The MFA limit is per session\<close>

text \<open>
  An attacker who knows an administrator's password but not the TOTP secret: log in (a
  new session each time), try five wrong codes in it, repeat. Every request is sent at
  the same instant. The answers to the guesses are collected.
\<close>

definition attack_token :: "nat \<Rightarrow> string" where
  "attack_token k = replicate k (CHR ''x'')"

definition guess :: "nat \<Rightarrow> db \<Rightarrow> response \<times> db" where
  "guess k d = (case withSession demo_auth False (demo_request (attack_token k)) d of
       (Inl r, d1) \<Rightarrow> (r, d1) | (Inr p, d1) \<Rightarrow> mfaVerify demo_auth ''000000'' p d1)"

fun guesses :: "nat \<Rightarrow> nat \<Rightarrow> db \<Rightarrow> int list \<times> db" where
  "guesses 0 k d = ([], d)"
| "guesses (Suc i) k d = (let (r, d1) = guess k d; (rs, d2) = guesses i k d1 in (rsp_code r # rs, d2))"

fun mfa_attack :: "nat \<Rightarrow> db \<Rightarrow> int list \<times> db" where
  "mfa_attack 0 d = ([], d)"
| "mfa_attack (Suc k) d =
     (let d1 = snd (login demo_auth (demo_request '''') (attack_token (Suc k)) ''x'' ''a@x'' ''right'' d);
          (rs, d2) = guesses maxFailures (Suc k) d1;
          (rest, d3) = mfa_attack k d2
      in (rs @ rest, d3))"

definition one_owner :: db where
  "one_owner = two_owners\<lparr>admins := [demo_owner 3 ''a@x''], sessions := []\<rparr>"

definition attack_session :: "nat \<Rightarrow> session_row" where
  "attack_session k = \<lparr>se_id = attack_token k, se_tenant = 7, se_admin = 3, se_csrf = ''x'', se_mfa_passed = False,
     se_expires_at = 10 + SessionTTL, se_ip = ''1'', se_user_agent = ''''\<rparr>"

definition attack_failure :: "nat \<Rightarrow> login_failure_row" where
  "attack_failure k = \<lparr>lf_tenant = 7, lf_key = ''mfa|'' @ attack_token k, lf_at = 10\<rparr>"

text \<open>The states between two requests: older sessions and failures belong to longer tokens.\<close>

definition attack_base :: "db \<Rightarrow> bool" where
  "attack_base d \<longleftrightarrow> faults d = [] \<and> tenants d = tenants one_owner \<and> admins d = [demo_owner 3 ''a@x'']"

definition attack_old :: "nat \<Rightarrow> session_row list \<Rightarrow> login_failure_row list \<Rightarrow> bool" where
  "attack_old k ss fs \<longleftrightarrow> (\<forall>s \<in> set ss. \<exists>m > k. s = attack_session m) \<and> (\<forall>f \<in> set fs. \<exists>m > k. f = attack_failure m)"

lemma attack_token_inject [simp]: "attack_token k = attack_token m \<longleftrightarrow> k = m"
  by (simp add: attack_token_def)

lemma attack_other_key [simp]: "lf_key (attack_failure m) \<noteq> ''1|a@x''"
  by (simp add: attack_failure_def)

lemma attack_old_filters:
  assumes "attack_old k ss fs"
  shows "filter (\<lambda>f. \<not> (lf_tenant f = 7 \<and> lf_key f = ''1|a@x'')) fs = fs"
    "filter (\<lambda>f. lf_tenant f = 7 \<and> lf_key f = ''1|a@x'' \<and> since \<le> lf_at f) fs = []"
    "filter (\<lambda>f. lf_tenant f = 7 \<and> lf_key f = ''mfa|'' @ attack_token k \<and> since \<le> lf_at f) fs = []"
    "find_row (\<lambda>s. se_id s = attack_token k \<and> 10 < se_expires_at s) (ss @ [attack_session k]) = Some (attack_session k)"
    "attack_token k \<notin> se_id ` set ss"
proof -
  have f: "\<exists>m > k. f = attack_failure m" if "f \<in> set fs" for f using assms that by (simp add: attack_old_def)
  have s: "\<exists>m > k. s = attack_session m" if "s \<in> set ss" for s using assms that by (simp add: attack_old_def)
  show "filter (\<lambda>f. \<not> (lf_tenant f = 7 \<and> lf_key f = ''1|a@x'')) fs = fs"
    using f by (fastforce simp: filter_id_conv)
  show "filter (\<lambda>f. lf_tenant f = 7 \<and> lf_key f = ''1|a@x'' \<and> since \<le> lf_at f) fs = []"
    using f by (fastforce simp: filter_empty_conv)
  show "filter (\<lambda>f. lf_tenant f = 7 \<and> lf_key f = ''mfa|'' @ attack_token k \<and> since \<le> lf_at f) fs = []"
    using f by (fastforce simp: filter_empty_conv attack_failure_def)
  show "attack_token k \<notin> se_id ` set ss" using s by (fastforce simp: attack_session_def)
  then show "find_row (\<lambda>s. se_id s = attack_token k \<and> 10 < se_expires_at s) (ss @ [attack_session k]) = Some (attack_session k)"
    by (subst find_row_app_none) (auto simp: attack_session_def SessionTTL_def add_pos_pos image_iff)
qed

lemma lower_email: "ToLower (TrimSpace ''a@x'') = ''a@x''" "ToLower ''a@x'' = ''a@x''"
  by (simp_all add: ToLower_def TrimSpace_def lower_char_def is_upper_def is_space_def char_defs)

lemma attack_login:
  assumes "attack_base d" "attack_old k ss fs" "sessions d = ss" "login_failures d = fs"
  shows "\<exists>d1. login demo_auth (demo_request '''') (attack_token k) ''x'' ''a@x'' ''right'' d = (\<lparr>rsp_code = 200, rsp_body = NoBody\<rparr>, d1) \<and>
     attack_base d1 \<and> sessions d1 = ss @ [attack_session k] \<and> login_failures d1 = fs"
  using assms attack_old_filters [OF assms(2)]
  by (simp add: login_def lower_email no_fault_reads attack_base_def demo_owner_def one_owner_def two_owners_def
      failure_count_def login_key_def demo_request_def demo_auth_def login_hash_def tenantSuspended_def TenantSuspended_def
      CheckPasswordOrDummy_def limiter_reset_def ClearLoginFailures_def Create_session_def CreateSession_def
      insert_session_stmt_def tenant_exists_def attack_session_def maxFailures_def Let_def)

lemma attack_guess:
  assumes "attack_base d" "attack_old k ss fs" "sessions d = ss @ [attack_session k]"
    "login_failures d = fs @ replicate i (attack_failure k)" "i < maxFailures" "0 < k"
  shows "\<exists>d1 b. guess k d = (\<lparr>rsp_code = 401, rsp_body = b\<rparr>, d1) \<and> attack_base d1 \<and> sessions d1 = sessions d \<and>
     login_failures d1 = fs @ replicate (Suc i) (attack_failure k)"
proof -
  let ?p = "\<lparr>pr_admin = demo_owner 3 ''a@x'', pr_session = attack_session k, pr_tenant = 7, pr_ip = ''1''\<rparr>"
  have ne: "attack_token k \<noteq> []" using assms(6) by (simp add: attack_token_def)
  have W: "withSession demo_auth False (demo_request (attack_token k)) d = (Inr ?p, d)"
    using assms ne attack_old_filters(4) [OF assms(2)]
    by (simp add: session_defs demo_auth_def demo_request_def attack_base_def one_owner_def two_owners_def
        demo_owner_def attack_session_def)
  have "filter (\<lambda>f. lf_tenant f = 7 \<and> lf_key f = ''mfa|'' @ attack_token k \<and> 10 - failWindow \<le> lf_at f)
      (login_failures d) = replicate i (attack_failure k)"
    using assms(4) attack_old_filters(3) [OF assms(2)]
    by (simp add: attack_failure_def failWindow_def minute_def second_def filter_replicate)
  then have A: "allow 7 (''mfa|'' @ attack_token k) 10 d = (True, d)"
    using assms(1,5) by (simp add: no_fault_reads attack_base_def failure_count_def)
  show ?thesis
    using assms W A
    by (simp add: guess_def mfaVerify_def demo_owner_def demo_auth_def attack_session_def limiter_fail_def
        RecordLoginFailure_def attack_base_def tenant_exists_def one_owner_def two_owners_def attack_failure_def
        writeErr_def audit_def AppendAudit_def replicate_append_same Let_def)
qed

lemma attack_guesses:
  assumes "attack_old k ss fs" "0 < k"
  shows "attack_base d \<Longrightarrow> sessions d = ss @ [attack_session k] \<Longrightarrow> login_failures d = fs @ replicate i (attack_failure k) \<Longrightarrow>
    i + j \<le> maxFailures \<Longrightarrow>
    \<exists>d1. guesses j k d = (replicate j 401, d1) \<and> attack_base d1 \<and> sessions d1 = ss @ [attack_session k] \<and>
      login_failures d1 = fs @ replicate (i + j) (attack_failure k)"
proof (induction j arbitrary: i d)
  case (Suc j)
  then have "i < maxFailures" by simp
  from attack_guess [OF Suc.prems(1) assms(1) Suc.prems(2,3) this assms(2)] obtain d1 b where
    d1: "guess k d = (\<lparr>rsp_code = 401, rsp_body = b\<rparr>, d1)" "attack_base d1" "sessions d1 = sessions d"
      "login_failures d1 = fs @ replicate (Suc i) (attack_failure k)" by blast
  from Suc.IH [OF d1(2) _ d1(4)] Suc.prems(2,4) d1(3) obtain d2 where
    "guesses j k d1 = (replicate j 401, d2)" "attack_base d2" "sessions d2 = ss @ [attack_session k]"
    "login_failures d2 = fs @ replicate (Suc i + j) (attack_failure k)" by auto
  with d1(1) show ?case by (intro exI [of _ d2]) simp
qed simp

lemma attack_rounds:
  "attack_base d \<Longrightarrow> attack_old k (sessions d) (login_failures d) \<Longrightarrow>
     fst (mfa_attack k d) = replicate (maxFailures * k) 401"
proof (induction k arbitrary: d)
  case (Suc k)
  obtain d1 where d1: "snd (login demo_auth (demo_request '''') (attack_token (Suc k)) ''x'' ''a@x'' ''right'' d) = d1"
    "attack_base d1" "sessions d1 = sessions d @ [attack_session (Suc k)]" "login_failures d1 = login_failures d"
    using attack_login [OF Suc.prems(1,2) refl refl] by auto
  from attack_guesses [OF Suc.prems(2) zero_less_Suc d1(2,3), of 0 maxFailures] d1(4) obtain d2 where
    d2: "guesses maxFailures (Suc k) d1 = (replicate maxFailures 401, d2)" "attack_base d2"
      "sessions d2 = sessions d @ [attack_session (Suc k)]"
      "login_failures d2 = login_failures d @ replicate maxFailures (attack_failure (Suc k))" by auto
  have "attack_old k (sessions d2) (login_failures d2)"
    using Suc.prems(2) d2(3,4) by (fastforce simp: attack_old_def dest: Suc_lessD)
  with Suc.IH [OF d2(2)] d1(1) d2(1) show ?case by (simp add: split_beta Let_def replicate_add)
qed simp

text \<open>
  C14: MFA guesses are not limited per account. The failure counter for TOTP codes is
  keyed by the session, and a correct password always opens a new session, so somebody
  who knows the password can have any number of codes checked at one instant: for every
  \<open>k\<close>, the attack above gets \<open>5 k\<close> codes evaluated (answer 401) and is never told 429.
\<close>

theorem mfa_guesses_unlimited:
  "\<exists>d. attack_base d \<and> (\<forall>k. fst (mfa_attack k d) = replicate (maxFailures * k) 401)"
proof (intro exI conjI allI)
  show base: "attack_base one_owner" by (simp add: attack_base_def one_owner_def two_owners_def)
  fix k show "fst (mfa_attack k one_owner) = replicate (maxFailures * k) 401"
    by (rule attack_rounds [OF base]) (simp add: attack_old_def one_owner_def two_owners_def)
qed

end
