(* ===== verification/Enrollment.thy ===== *)
theory Enrollment
  imports Accounts
begin

text \<open>
  The agent-facing side of device identity: the Enroll call
  (\<^verbatim>\<open>agentapi/enroll.go\<close>), the interceptor that authenticates every other call
  (\<^verbatim>\<open>agentapi/auth.go\<close>), the messages on the Connect stream and certificate renewal
  (\<^verbatim>\<open>agentapi/agent.go\<close>), and the choice of server certificate and client CA pool per
  tenant (\<^verbatim>\<open>agentapi/tenanttls.go\<close>).

  Certificate signing, UUID parsing of a common name and X.509 verification are
  parameters; \<open>VerifiedChains\<close> is an argument, so what the TLS layer proved about the
  client certificate is explicit.
\<close>

section \<open>gRPC results\<close>

datatype grpc_code = InvalidArgument | PermissionDenied | Unauthenticated | Internal | Aborted | Unavailable

type_synonym 'a rpc = "(grpc_code \<times> string) + 'a"

section \<open>Enroll\<close>

record device_ca =
  ca_raw :: bytes
  ca_sign_device :: "bytes \<Rightarrow> uuid \<Rightarrow> time \<Rightarrow> (bytes \<times> string \<times> time) res"
  ca_command_pub :: bytes
  ca_update_pub :: bytes
  ca_uninstall_hash :: "uuid \<Rightarrow> bytes"

text \<open>Deps: the keys of the single tenant, the per-tenant resolver when set, the clock, SHA-256.\<close>

record deps =
  dp_keys :: device_ca
  dp_key_for :: "(uuid \<Rightarrow> device_ca res) option"
  dp_now :: time
  dp_sha256 :: "bytes \<Rightarrow> bytes"

definition deps_keys :: "deps \<Rightarrow> uuid \<Rightarrow> device_ca res" where
  "deps_keys dp tenantID = (case dp_key_for dp of Some f \<Rightarrow> f tenantID | None \<Rightarrow> Inr (dp_keys dp))"

record enroll_req =
  eq_token_secret :: string
  eq_csr :: bytes
  eq_hostname :: string
  eq_machine_guid :: string
  eq_os_build :: string

record enroll_resp =
  er_device :: uuid
  er_cert :: bytes
  er_ca :: bytes
  er_command_pub :: bytes
  er_update_pub :: bytes
  er_uninstall :: bytes

definition build_device :: "deps \<Rightarrow> enroll_req \<Rightarrow> uuid \<Rightarrow> uuid \<Rightarrow> new_device res" where
  "build_device dp req deviceID tid = (case deps_keys dp tid of
       Inl e \<Rightarrow> Inl e
     | Inr k \<Rightarrow> (case ca_sign_device k (eq_csr req) deviceID (dp_now dp) of
         Inl e \<Rightarrow> Inl (ErrBadCSR (err_text e))
       | Inr (der, serial, notAfter) \<Rightarrow> Inr \<lparr>nd_id = deviceID, nd_hostname = eq_hostname req,
           nd_machine_guid = eq_machine_guid req, nd_os_build = eq_os_build req,
           nd_cert_serial = serial, nd_cert_expires_at = notAfter\<rparr>))"

text \<open>The response is taken from the keys the build closure resolved for the token's tenant.\<close>

definition enroll_response :: "deps \<Rightarrow> enroll_req \<Rightarrow> uuid \<Rightarrow> uuid \<Rightarrow> enroll_resp rpc" where
  "enroll_response dp req deviceID tid = (case deps_keys dp tid of
       Inl _ \<Rightarrow> Inl (Internal, ''enrollment failed'')
     | Inr k \<Rightarrow> (case ca_sign_device k (eq_csr req) deviceID (dp_now dp) of
         Inl _ \<Rightarrow> Inl (Internal, ''enrollment failed'')
       | Inr (der, _, _) \<Rightarrow> Inr \<lparr>er_device = deviceID, er_cert = der, er_ca = ca_raw k,
           er_command_pub = ca_command_pub k, er_update_pub = ca_update_pub k, er_uninstall = ca_uninstall_hash k deviceID\<rparr>))"

definition Enroll :: "deps \<Rightarrow> enroll_req \<Rightarrow> db \<Rightarrow> enroll_resp rpc \<times> db" where
  "Enroll dp req d =
     (if eq_token_secret req = [] \<or> eq_csr req = [] \<or> eq_hostname req = []
      then (Inl (InvalidArgument, ''token_secret, csr_der and hardware.hostname are required''), d)
      else
        let (deviceID, d0) = new_uuid d in
        case EnrollDevice (Hash (dp_sha256 dp) (eq_token_secret req)) (dp_now dp) (build_device dp req deviceID) d0 of
          (Inl e, d1) \<Rightarrow>
            (Inl (if e = ErrTokenInvalid then (PermissionDenied, err_text ErrTokenInvalid)
                  else (case e of ErrBadCSR m \<Rightarrow> (InvalidArgument, err_text e) | _ \<Rightarrow> (Internal, ''enrollment failed''))), d1)
        | (Inr tenantID, d1) \<Rightarrow>
            (enroll_response dp req deviceID tenantID,
             snd (AppendAudit tenantID (IdTxt ''device:'' deviceID) ''device.enroll'' ''device'' (IdTxt '''' deviceID)
               [(''hostname'', DStr (eq_hostname req))] '''' ''success'' d1)))"

section \<open>Authentication\<close>

text \<open>The leaf of the verified client chain: the parsed common name and the serial number in base 16.\<close>

record leaf_cert =
  lc_common_name :: "uuid option"
  lc_serial :: string

record device_id =
  di_id :: uuid
  di_tenant :: uuid

definition check_device :: "leaf_cert \<Rightarrow> uuid \<Rightarrow> uuid \<times> string \<times> bool \<Rightarrow> db \<Rightarrow> device_id rpc \<times> db" where
  "check_device leaf i st d =
     (let (tenantID, serial, revoked) = st in
      if revoked then (Inl (Unauthenticated, ''device revoked''), d)
      else if serial \<noteq> lc_serial leaf then (Inl (Unauthenticated, ''certificate superseded''), d)
      else (case TenantSuspended tenantID d of
        (Inl _, d1) \<Rightarrow> (Inl (Internal, ''auth lookup failed''), d1)
      | (Inr suspended, d1) \<Rightarrow>
          if suspended then (Inl (PermissionDenied, ''tenant suspended''), d1)
          else (Inr \<lparr>di_id = i, di_tenant = tenantID\<rparr>, d1)))"

definition authenticate :: "leaf_cert option \<Rightarrow> db \<Rightarrow> device_id rpc \<times> db" where
  "authenticate peer d = (case peer of
       None \<Rightarrow> (Inl (Unauthenticated, ''client certificate required''), d)
     | Some leaf \<Rightarrow> (case lc_common_name leaf of
         None \<Rightarrow> (Inl (Unauthenticated, ''certificate is not a device certificate''), d)
       | Some i \<Rightarrow> (case DeviceAuthState i d of
           (Inl e, d1) \<Rightarrow> (Inl (if e = ErrNotFound then (Unauthenticated, ''unknown device'')
                               else (Internal, ''auth lookup failed'')), d1)
         | (Inr st, d1) \<Rightarrow> check_device leaf i st d1)))"

definition agentServicePrefix :: string where "agentServicePrefix = ''/freelocker.v1.Agent/''"

text \<open>The interceptors: only calls of the Agent service need a device.\<close>

definition unaryAuth :: "string \<Rightarrow> leaf_cert option \<Rightarrow> (device_id option \<Rightarrow> db \<Rightarrow> 'a rpc \<times> db) \<Rightarrow> db \<Rightarrow> 'a rpc \<times> db" where
  "unaryAuth fullMethod peer h d =
     (if \<not> HasPrefix fullMethod agentServicePrefix then h None d
      else case authenticate peer d of
        (Inl e, d1) \<Rightarrow> (Inl e, d1)
      | (Inr dev, d1) \<Rightarrow> h (Some dev) d1)"

section \<open>Messages on the stream and renewal\<close>

datatype agent_message = Heartbeat inventory string | CommandResult command_result | Goodbye

definition handle :: "('sk, 'pk) command_service option \<Rightarrow> time \<Rightarrow> device_id \<Rightarrow> agent_message \<Rightarrow> db \<Rightarrow> db" where
  "handle cmds now dev m d = (case m of
       Heartbeat invt policyVersion \<Rightarrow>
         (let d1 = snd (RecordHeartbeat (di_tenant dev) (di_id dev) invt now d)
          in if policyVersion = [] then d1
             else snd (SetDevicePolicyVersion (di_tenant dev) (di_id dev) policyVersion d1))
     | CommandResult r \<Rightarrow> (case cmds of
         None \<Rightarrow> d | Some svc \<Rightarrow> snd (Complete svc (di_tenant dev) (di_id dev) r d))
     | Goodbye \<Rightarrow> snd (MarkCleanShutdown (di_tenant dev) (di_id dev) d))"

definition RenewCertificate :: "deps \<Rightarrow> device_id \<Rightarrow> bytes \<Rightarrow> db \<Rightarrow> bytes rpc \<times> db" where
  "RenewCertificate dp dev csr d = (case deps_keys dp (di_tenant dev) of
       Inl _ \<Rightarrow> (Inl (Internal, ''resolve tenant keys''), d)
     | Inr k \<Rightarrow> (case ca_sign_device k csr (di_id dev) (dp_now dp) of
         Inl e \<Rightarrow> (Inl (InvalidArgument, err_text e), d)
       | Inr (der, serial, notAfter) \<Rightarrow>
           (case UpdateDeviceCert (di_tenant dev) (di_id dev) serial notAfter d of
              (Inl _, d1) \<Rightarrow> (Inl (Internal, ''store certificate''), d1)
            | (Inr _, d1) \<Rightarrow> (Inr der,
                snd (AppendAudit (di_tenant dev) (IdTxt ''device:'' (di_id dev)) ''device.cert_renew'' ''device''
                  (IdTxt '''' (di_id dev)) [(''serial'', DStr serial)] '''' ''success'' d1)))))"

section \<open>TLS per tenant\<close>

text \<open>
  TenantTLS: when the tenants were last read, the tenant of each pin, the default tenant,
  the server certificates issued so far and the pool of client CAs, next to the key cache
  and the database. The pin of a CA and the issuing of a server certificate are arguments.
\<close>

record ('ca, 'cert) tls_state =
  tl_refreshed_at :: time
  tl_pins :: "string \<Rightarrow> uuid option"
  tl_default :: uuid
  tl_certs :: "uuid \<Rightarrow> 'cert option"
  tl_pool :: "'ca list"
  tl_cache :: "'ca key_cache"
  tl_db :: db

record ('ca, 'cert) tls_env =
  te_keys :: "'ca key_env"
  te_pin :: "'ca \<Rightarrow> string"
  te_issue :: "'ca \<Rightarrow> string list \<Rightarrow> 'cert res"
  te_hostnames :: "string list"
  te_now :: time

definition tls_ttl :: duration where "tls_ttl = 30 * second"

text \<open>The loop over the tenants: pins and pool so far, keys from the cache.\<close>

fun load_tenants ::
  "('ca, 'cert) tls_env \<Rightarrow> uuid list \<Rightarrow> (string \<Rightarrow> uuid option) \<times> 'ca list \<Rightarrow> 'ca key_cache \<times> db \<Rightarrow>
   ((string \<Rightarrow> uuid option) \<times> 'ca list) res \<times> ('ca key_cache \<times> db)" where
  "load_tenants env [] acc s = (Inr acc, s)"
| "load_tenants env (t # ts) acc s = (case For (te_keys env) t s of
       (Inl e, s1) \<Rightarrow> (Inl e, s1)
     | (Inr k, s1) \<Rightarrow> load_tenants env ts ((fst acc)(te_pin env (kt_ca k) := Some t), snd acc @ [kt_ca k]) s1)"

definition refresh :: "('ca, 'cert) tls_env \<Rightarrow> ('ca, 'cert) tls_state \<Rightarrow> unit res \<times> ('ca, 'cert) tls_state" where
  "refresh env s =
     (if te_now env - tl_refreshed_at s < tls_ttl \<and> tl_pins s \<noteq> Map.empty then (Inr (), s)
      else case ListTenants (tl_db s) of
        (Inl e, d1) \<Rightarrow> (Inl e, s\<lparr>tl_db := d1\<rparr>)
      | (Inr ts, d1) \<Rightarrow> (case load_tenants env ts (Map.empty, []) (tl_cache s, d1) of
          (Inl e, (c, d2)) \<Rightarrow> (Inl e, s\<lparr>tl_cache := c, tl_db := d2\<rparr>)
        | (Inr (pins, cas), (c, d2)) \<Rightarrow>
            (Inr (), s\<lparr>tl_pins := pins, tl_pool := cas, tl_default := (case ts of [] \<Rightarrow> 0 | t # _ \<Rightarrow> t),
               tl_refreshed_at := te_now env, tl_cache := c, tl_db := d2\<rparr>)))"

definition clientCAPool :: "('ca, 'cert) tls_env \<Rightarrow> ('ca, 'cert) tls_state \<Rightarrow> 'ca list res \<times> ('ca, 'cert) tls_state" where
  "clientCAPool env s = andThen (refresh env s) (\<lambda>_ s1. (Inr (tl_pool s1), s1))"

definition getCertificate :: "('ca, 'cert) tls_env \<Rightarrow> string \<Rightarrow> ('ca, 'cert) tls_state \<Rightarrow> 'cert res \<times> ('ca, 'cert) tls_state" where
  "getCertificate env serverName s =
     andThen (refresh env s) (\<lambda>_ s1.
       let tid = (case tl_pins s1 serverName of Some t \<Rightarrow> t | None \<Rightarrow> tl_default s1) in
       case tl_certs s1 tid of
         Some cert \<Rightarrow> (Inr cert, s1)
       | None \<Rightarrow> (case For (te_keys env) tid (tl_cache s1, tl_db s1) of
           (Inl e, (c, d)) \<Rightarrow> (Inl e, s1\<lparr>tl_cache := c, tl_db := d\<rparr>)
         | (Inr k, (c, d)) \<Rightarrow>
             (case te_issue env (kt_ca k) (te_hostnames env @ [te_pin env (kt_ca k)]) of
                Inl e \<Rightarrow> (Inl e, s1\<lparr>tl_cache := c, tl_db := d\<rparr>)
              | Inr cert \<Rightarrow> (Inr cert, s1\<lparr>tl_cache := c, tl_db := d, tl_certs := (tl_certs s1)(tid := Some cert)\<rparr>))))"

section \<open>Histories of the fleet\<close>

text \<open>What any operation may do to one token and to one device.\<close>

definition token_step :: "token_row \<Rightarrow> token_row \<Rightarrow> bool" where
  "token_step k k' \<longleftrightarrow> tk_hash k' = tk_hash k \<and> tk_max_uses k' = tk_max_uses k \<and> tk_uses k \<le> tk_uses k'"

definition device_step :: "device_row \<Rightarrow> device_row \<Rightarrow> bool" where
  "device_step v v' \<longleftrightarrow> dv_id v' = dv_id v \<and> dv_tenant v' = dv_tenant v \<and> (dv_revoked v \<longrightarrow> dv_revoked v')"

definition fleet_step :: "db \<Rightarrow> db \<Rightarrow> bool" where
  "fleet_step d d' \<longleftrightarrow> (fleet_inv d \<longrightarrow> fleet_inv d') \<and>
     grows token_step (install_tokens d) (install_tokens d') \<and> grows device_step (devices d) (devices d')"

lemma step_refl [simp]: "token_step k k" "device_step v v"
  by (simp_all add: token_step_def device_step_def)

lemma step_trans:
  "token_step x y \<Longrightarrow> token_step y z \<Longrightarrow> token_step x z"
  "device_step a b \<Longrightarrow> device_step b c \<Longrightarrow> device_step a c"
  by (auto simp: token_step_def device_step_def)

lemma fleet_step_refl [simp]: "fleet_step d d"
  by (simp add: fleet_step_def grows_refl)

lemma grows_steps_trans:
  "grows token_step ks ks1 \<Longrightarrow> grows token_step ks1 ks2 \<Longrightarrow> grows token_step ks ks2"
  "grows device_step vs vs1 \<Longrightarrow> grows device_step vs1 vs2 \<Longrightarrow> grows device_step vs vs2"
  by (rule grows_trans; blast intro: step_trans)+

lemma fleet_step_trans: "fleet_step d d1 \<Longrightarrow> fleet_step d1 d2 \<Longrightarrow> fleet_step d d2"
  unfolding fleet_step_def by (blast intro: grows_steps_trans)

lemma fleet_step_frame [simp]:
  "fleet_step (d\<lparr>faults := fs\<rparr>) d' = fleet_step d d'" "fleet_step d (d'\<lparr>faults := fs\<rparr>) = fleet_step d d'"
  "fleet_step (d\<lparr>next_uuid := u\<rparr>) d' = fleet_step d d'" "fleet_step d (d'\<lparr>next_uuid := u\<rparr>) = fleet_step d d'"
  "fleet_step d (d'\<lparr>tenants := ts\<rparr>) = fleet_step d d'" "fleet_step d (d'\<lparr>sessions := ss\<rparr>) = fleet_step d d'"
  by (simp_all add: fleet_step_def fleet_inv_def)

lemma fleet_step_audit [simp]: "fleet_step d (audit p a b c e g d') = fleet_step d d'"
  by (rule audit_shape [of p a b c e g d']) (simp add: fleet_step_def fleet_inv_def)

lemma fleet_step_pool:
  assumes "\<And>d. fleet_step d (snd (stmt d))"
  shows "fleet_step d (snd (pool stmt d))"
proof (cases stmt d rule: pool_cases)
  case (ran rest)
  with assms [of "d\<lparr>faults := rest\<rparr>"] show ?thesis by simp
qed simp

lemma fleet_step_finish: "fleet_step d (snd r) \<Longrightarrow> fleet_step d (snd (finish p a b i e r))"
  by (cases r; cases "fst r") (simp_all add: finish_def)

text \<open>Statement by statement.\<close>

lemma device_update_step:
  assumes "\<And>v. dv_tenant (f v) = dv_tenant v \<and> dv_group (f v) = dv_group v \<and> device_step v (f v)"
  shows "fleet_step d (snd (update_device_stmt t i f d))"
  using assms update_device_inv [of f d t i]
  by (simp add: fleet_step_def grows_refl update_device_stmt_def Let_def grows_update)

lemma group_stmts_step:
  "fleet_step d (snd (create_group_stmt i t n d))" "fleet_step d (snd (rename_group_stmt t i n d))"
  "fleet_step d (snd (delete_group_stmt t i d))" "fleet_step d (snd (ungroup_devices_stmt t i d))"
  "fleet_step d (snd (ungroup_tokens_stmt t i d))" "fleet_step d (snd (set_group_stmt t i g d))"
proof -
  show "fleet_step d (snd (create_group_stmt i t n d))"
    using create_group_inv [of d i t n] by (simp add: fleet_step_def create_group_stmt_def grows_refl)
  show "fleet_step d (snd (rename_group_stmt t i n d))"
    using rename_group_inv [of d t i n] by (simp add: fleet_step_def rename_group_stmt_def Let_def grows_refl)
  show "fleet_step d (snd (delete_group_stmt t i d))"
    using delete_group_inv [of d t i] by (simp add: fleet_step_def delete_group_stmt_def grows_refl)
  show "fleet_step d (snd (ungroup_devices_stmt t i d))"
    using ungroup_devices_inv [of d t i]
    by (simp add: fleet_step_def ungroup_devices_stmt_def grows_refl grows_update device_step_def)
  show "fleet_step d (snd (ungroup_tokens_stmt t i d))"
    using ungroup_tokens_inv [of d t i]
    by (simp add: fleet_step_def ungroup_tokens_stmt_def grows_refl grows_update token_step_def)
  show "fleet_step d (snd (set_group_stmt t i g d))"
    using set_group_inv [of d t i g]
    by (simp add: fleet_step_def set_group_stmt_def update_device_stmt_def Let_def grows_refl grows_update device_step_def)
qed

lemma revoke_token_step: "fleet_step d (snd (revoke_token_stmt t i d))"
  using revoke_token_inv [of d t i]
  by (simp add: fleet_step_def revoke_token_stmt_def Let_def grows_refl grows_update token_step_def)

lemma create_token_step:
  assumes "grouped (device_groups d) t (tk_group k)" "\<And>m. tk_max_uses k = Some m \<Longrightarrow> 0 \<le> m"
  shows "fleet_step d (snd (create_token_stmt i t k h d))"
  using create_token_inv [OF _ assms, of i h]
  by (simp add: fleet_step_def create_token_stmt_def grows_refl grows_append)

lemma enroll_step: "fleet_step d (snd (EnrollDevice h now build d))"
proof (cases h now build d rule: EnrollDevice_cases)
  case (refused e fs u)
  then show ?thesis by simp
next
  case (enrolled k n d')
  from enrolled(2) enrollment_inv [OF _ enrolled(2)] show ?thesis
    unfolding enrolled(1)
    by (auto simp: fleet_step_def enrollment_def grows_append intro!: grows_update simp: token_step_def)
qed

lemma DeleteDeviceGroup_step: "fleet_step d (snd (DeleteDeviceGroup t i d))"
proof (cases "delete_group_body t i" d rule: tx_cases)
  case (rollback e fs u)
  then show ?thesis by (simp add: DeleteDeviceGroup_def)
next
  case (commit fs x d' fs')
  have "fleet_step d1 (snd (delete_group_body t i d1))" for d1
    unfolding delete_group_body_def
    by (intro andThen_state [where P = "fleet_step d1"] fleet_step_pool)
       (blast intro: fleet_step_trans fleet_step_pool group_stmts_step)+
  from this [of "d\<lparr>faults := fs\<rparr>"] commit show ?thesis by (simp add: DeleteDeviceGroup_def)
qed

text \<open>
  Every operation on groups, tokens and devices: console requests, enrollments, agent
  messages, renewals, revocations, and the suspension of tenants.
\<close>

inductive_set fleet_ops :: "(db \<Rightarrow> db) set" where
  create_group: "(\<lambda>d. snd (createGroup p n d)) \<in> fleet_ops"
| rename_group: "(\<lambda>d. snd (renameGroup p i n d)) \<in> fleet_ops"
| delete_group: "(\<lambda>d. snd (deleteGroup p i d)) \<in> fleet_ops"
| set_group: "(\<lambda>d. snd (setDeviceGroup p i g d)) \<in> fleet_ops"
| create_token: "(\<lambda>d. snd (snd (createToken pin sha rnd now p q d))) \<in> fleet_ops"
| revoke_token: "(\<lambda>d. snd (revokeToken p i d)) \<in> fleet_ops"
| enroll: "(\<lambda>d. snd (EnrollDevice h now build d)) \<in> fleet_ops"
| heartbeat: "(\<lambda>d. snd (RecordHeartbeat t i invt now d)) \<in> fleet_ops"
| shutdown: "(\<lambda>d. snd (MarkCleanShutdown t i d)) \<in> fleet_ops"
| revoke: "(\<lambda>d. snd (RevokeDevice t i d)) \<in> fleet_ops"
| renew: "(\<lambda>d. snd (UpdateDeviceCert t i serial e d)) \<in> fleet_ops"
| asr: "(\<lambda>d. snd (SetDeviceASRAvailable t i b d)) \<in> fleet_ops"
| policy: "(\<lambda>d. snd (SetDevicePolicyVersion t i v d)) \<in> fleet_ops"
| suspend: "(\<lambda>d. snd (SetTenantSuspended i s d)) \<in> fleet_ops"

lemma CreateDeviceGroup_step: "fleet_step d (snd (CreateDeviceGroup t n d))"
  using fleet_step_pool [of "create_group_stmt (next_uuid d) t n" "d\<lparr>next_uuid := Suc (next_uuid d)\<rparr>"]
  by (simp add: CreateDeviceGroup_def new_uuid_def split_beta group_stmts_step)

lemma groupExists_grouped:
  assumes "groupExists p g d = (True, d1)"
  shows "grouped (device_groups d1) (pr_tenant p) (Some g) \<and> (\<exists>fs. d1 = d\<lparr>faults := fs\<rparr>)"
proof -
  let ?l = "\<lambda>d :: db. (Inr (sort_key gr_name (filter (\<lambda>g. gr_tenant g = pr_tenant p) (device_groups d))) :: group_row list res, d)"
  have L: "ListDeviceGroups (pr_tenant p) d = pool ?l d" by (simp add: ListDeviceGroups_def)
  show ?thesis
  proof (cases ?l d rule: pool_cases)
    case (lost rest)
    with L assms show ?thesis by (simp add: groupExists_def)
  next
    case (ran rest)
    with L assms show ?thesis by (auto simp: groupExists_def grouped_def)
  qed
qed

lemma groupExists_frame: "\<exists>fs. snd (groupExists p g d) = d\<lparr>faults := fs\<rparr>"
proof -
  let ?l = "\<lambda>d :: db. (Inr (sort_key gr_name (filter (\<lambda>g. gr_tenant g = pr_tenant p) (device_groups d))) :: group_row list res, d)"
  show ?thesis by (cases ?l d rule: pool_cases) (auto simp: groupExists_def ListDeviceGroups_def)
qed

lemma CreateInstallToken_step:
  assumes "grouped (device_groups d) t (tk_group k)" "\<And>m. tk_max_uses k = Some m \<Longrightarrow> 0 \<le> m"
  shows "fleet_step d (snd (CreateInstallToken t k h d))"
proof (cases "create_token_stmt (next_uuid d) t k h" "d\<lparr>next_uuid := Suc (next_uuid d)\<rparr>" rule: pool_cases)
  case (lost rest)
  then show ?thesis by (simp add: CreateInstallToken_def new_uuid_def split_beta)
next
  case (ran rest)
  with create_token_step [of "d\<lparr>next_uuid := Suc (next_uuid d), faults := rest\<rparr>" t k "next_uuid d" h] assms
  show ?thesis by (simp add: CreateInstallToken_def new_uuid_def split_beta)
qed

lemma createToken_step: "fleet_step d (snd (snd (createToken pin sha rnd now p q d)))"
proof -
  let ?g = "case tq_group q of None \<Rightarrow> (True, d) | Some g \<Rightarrow> groupExists p g d"
  obtain known d1 where g: "?g = (known, d1)" by fastforce
  obtain fs where d1: "d1 = d\<lparr>faults := fs\<rparr>"
  proof (cases "tq_group q")
    case None
    with g that [of "faults d"] show thesis by simp
  next
    case (Some x)
    with g that groupExists_frame [of p x d] show thesis by auto
  qed
  have grp: "known \<Longrightarrow> grouped (device_groups d1) (pr_tenant p) (tq_group q)"
    using g groupExists_grouped [of p _ d d1] by (auto split: option.splits)
  show ?thesis
  proof (cases "TrimSpace (tq_name q) = [] \<or> (case tq_expires_in_hours q of Some h \<Rightarrow> h < 1 | None \<Rightarrow> False) \<or>
         (case tq_max_uses q of Some m \<Rightarrow> m < 1 | None \<Rightarrow> False) \<or> \<not> known")
    case True
    with g d1 show ?thesis by (auto simp: createToken_def Let_def)
  next
    case False
    let ?k = "\<lparr>tk_id = 0, tk_tenant = 0, tk_hash = [], tk_name = TrimSpace (tq_name q), tk_group = tq_group q,
       tk_expires_at = map_option (\<lambda>h. now + wrap64 (h * hour)) (tq_expires_in_hours q),
       tk_max_uses = tq_max_uses q, tk_uses = 0, tk_revoked = False\<rparr>"
    have "fleet_step d1 (snd (CreateInstallToken (pr_tenant p) ?k h d1))" for h
      using False grp by (intro CreateInstallToken_step) (auto split: option.splits)
    with False g d1 show ?thesis
      by (auto simp: createToken_def Let_def split: sum.splits prod.splits) (metis snd_conv)+
  qed
qed

lemma suspend_body_step: "fleet_step d (snd (suspend_body i s d))"
  unfolding suspend_body_def
proof (rule andThen_state [where P = "fleet_step d"])
  show "fleet_step d (snd (pool (suspend_stmt i s) d))"
    by (rule fleet_step_pool) (simp add: suspend_stmt_def Let_def)
  fix x d1
  assume d1: "fleet_step d d1"
  have "fleet_step d1 (snd (pool (drop_tenant_sessions_stmt i) d1))"
    by (rule fleet_step_pool) (simp add: drop_tenant_sessions_stmt_def)
  with d1 show "fleet_step d (snd (if s then pool (drop_tenant_sessions_stmt i) d1 else (Inr (), d1)))"
    by (auto intro: fleet_step_trans)
qed

lemma SetTenantSuspended_step: "fleet_step d (snd (SetTenantSuspended i s d))"
  unfolding SetTenantSuspended_def
proof (cases "suspend_body i s" d rule: tx_cases)
  case (rollback e fs u)
  then show "fleet_step d (snd (tx (suspend_body i s) d))" by simp
next
  case (commit fs x d' fs')
  with suspend_body_step [of "d\<lparr>faults := fs\<rparr>" i s] show "fleet_step d (snd (tx (suspend_body i s) d))" by simp
qed

lemma fleet_op_step:
  assumes "f \<in> fleet_ops"
  shows "fleet_step d (f d)"
  using assms
proof cases
  case (create_group p n)
  then show ?thesis
    using CreateDeviceGroup_step [of d "pr_tenant p" "TrimSpace n"]
    by (auto simp: createGroup_def Let_def split: sum.splits prod.splits)
next
  case (rename_group p i n)
  have "fleet_step d (snd (RenameDeviceGroup (pr_tenant p) i m d))" for m
    using fleet_step_pool [of "rename_group_stmt (pr_tenant p) i m" d]
    by (simp add: RenameDeviceGroup_def split_beta group_stmts_step)
  with rename_group show ?thesis by (auto simp: renameGroup_def Let_def intro!: fleet_step_finish)
next
  case (create_token pin sha rnd now p q)
  then show ?thesis by (simp add: createToken_step)
next
  case (enroll h now build)
  then show ?thesis by (simp add: enroll_step)
next
  case (delete_group p i)
  then show ?thesis by (simp add: deleteGroup_def fleet_step_finish DeleteDeviceGroup_step)
next
  case (suspend i s)
  then show ?thesis by (simp add: SetTenantSuspended_step)
next
  case (set_group p i g)
  then show ?thesis
    unfolding setDeviceGroup_def SetDeviceGroup_def by (simp add: fleet_step_finish fleet_step_pool group_stmts_step)
next
  case (revoke_token p i)
  then show ?thesis
    unfolding revokeToken_def RevokeInstallToken_def by (simp add: fleet_step_finish fleet_step_pool revoke_token_step)
qed (simp_all add: RecordHeartbeat_def MarkCleanShutdown_def RevokeDevice_def UpdateDeviceCert_def
      SetDeviceASRAvailable_def SetDevicePolicyVersion_def device_step_def fleet_step_pool device_update_step)

lemma fleet_run: "set fs \<subseteq> fleet_ops \<Longrightarrow> fleet_step d (fold (\<lambda>f. f) fs d)"
  by (induction fs arbitrary: d) (auto intro: fleet_step_trans fleet_op_step)


text \<open>A tenant with one group, a token for two devices in that group, and one device.\<close>

definition demo_token :: token_row where
  "demo_token = \<lparr>tk_id = 21, tk_tenant = 7, tk_hash = ''secret'', tk_name = ''t'', tk_group = Some 5,
     tk_expires_at = None, tk_max_uses = Some 2, tk_uses = 0, tk_revoked = False\<rparr>"

definition demo_new :: "uuid \<Rightarrow> new_device" where
  "demo_new i = \<lparr>nd_id = i, nd_hostname = ''pc'', nd_machine_guid = '''', nd_os_build = '''', nd_cert_serial = ''1f'',
     nd_cert_expires_at = 0\<rparr>"

definition demo_site :: db where
  "demo_site = empty_db\<lparr>tenants := [\<lparr>tn_id = 7, tn_name = ''acme'', tn_suspended = False\<rparr>],
     device_groups := [\<lparr>gr_id = 5, gr_tenant = 7, gr_name = ''g''\<rparr>], install_tokens := [demo_token],
     devices := [enrolled_row 0 (demo_new 4) 7 (Some 5)]\<rparr>"

lemma demo_site_inv: "fleet_inv demo_site"
  by (simp add: fleet_inv_def fleet_ok_def demo_site_def demo_token_def grouped_def)


section \<open>The budget of a token\<close>

text \<open>A history: enrollment attempts, and anything else that can happen in between.\<close>

datatype fleet_event = Attempt bytes time "uuid \<Rightarrow> new_device res" | Other "db \<Rightarrow> db"

fun enrolled_with :: "bytes \<Rightarrow> fleet_event list \<Rightarrow> db \<Rightarrow> nat" where
  "enrolled_with h [] d = 0"
| "enrolled_with h (Attempt h' now build # es) d =
     (let (r, d1) = EnrollDevice h' now build d
      in (if h' = h \<and> is_ok r then 1 else 0) + enrolled_with h es d1)"
| "enrolled_with h (Other f # es) d = enrolled_with h es (f d)"

lemma find_token_step:
  assumes "fleet_step d d'" "find_row (\<lambda>k. tk_hash k = h) (install_tokens d) = Some k"
  shows "\<exists>k'. find_row (\<lambda>k. tk_hash k = h) (install_tokens d') = Some k' \<and> token_step k k'"
  using assms by (intro grows_find [where R = token_step]) (auto simp: fleet_step_def token_step_def)

lemma attempt_uses:
  assumes "fleet_inv d" "find_row (\<lambda>k. tk_hash k = h) (install_tokens d) = Some k"
  shows "\<exists>k'. find_row (\<lambda>k. tk_hash k = h) (install_tokens (snd (EnrollDevice h now build d))) = Some k' \<and>
    tk_max_uses k' = tk_max_uses k \<and>
    tk_uses k' = tk_uses k + (if is_ok (fst (EnrollDevice h now build d)) then 1 else 0)"
proof (cases h now build d rule: EnrollDevice_cases)
  case (refused e fs u)
  with assms(2) show ?thesis by simp
next
  case (enrolled k0 n d')
  from enrolled(2) assms(2) have "k0 = k" by (simp add: enrollment_def)
  with enrolled find_row_update_where [of tk_hash "\<lambda>x. x\<lparr>tk_uses := tk_uses x + 1\<rparr>" h "\<lambda>x. tk_id x = tk_id k" "install_tokens d"]
    assms(2) show ?thesis by (auto simp: enrollment_def)
qed

text \<open>
  A token enrolls at most as many devices as it allows. In any history of
  enrollment attempts and other operations, in any order, at most \<open>max_uses - uses\<close>
  attempts with the token succeed.
\<close>

theorem token_budget:
  assumes "fleet_inv d" and "find_row (\<lambda>k. tk_hash k = h) (install_tokens d) = Some k" and "tk_max_uses k = Some m"
    and "\<forall>f. Other f \<in> set es \<longrightarrow> f \<in> fleet_ops"
  shows "int (enrolled_with h es d) \<le> m - tk_uses k"
  using assms
proof (induction h es d arbitrary: k rule: enrolled_with.induct)
  case (1 h d)
  then show ?case using find_row_Some [OF 1(2)] by (auto simp: fleet_inv_def fleet_ok_def)
next
  case (2 h h' now build es d)
  let ?d = "snd (EnrollDevice h' now build d)"
  have step: "fleet_step d ?d" by (rule enroll_step)
  with 2(2) have inv: "fleet_inv ?d" by (simp add: fleet_step_def)
  show ?case
  proof (cases "h' = h")
    case True
    with attempt_uses [OF 2(2,3)] obtain k' where
      k': "find_row (\<lambda>k. tk_hash k = h) (install_tokens ?d) = Some k'" "tk_max_uses k' = Some m"
      "tk_uses k' = tk_uses k + (if is_ok (fst (EnrollDevice h now build d)) then 1 else 0)" using 2(4) by auto
    from 2(1) [OF refl prod.collapse inv k'(1,2)] 2(5)
    have "int (enrolled_with h es ?d) \<le> m - tk_uses k'" by simp
    with True k'(3) show ?thesis by (cases "is_ok (fst (EnrollDevice h now build d))") (simp_all add: split_beta Let_def)
  next
    case False
    from find_token_step [OF step 2(3)] obtain k' where
      k': "find_row (\<lambda>k. tk_hash k = h) (install_tokens ?d) = Some k'" "token_step k k'" by blast
    with 2(4) have "tk_max_uses k' = Some m" by (simp add: token_step_def)
    from 2(1) [OF refl prod.collapse inv k'(1) this] 2(5) False k'(2) show ?thesis
      by (simp add: split_beta Let_def token_step_def)
  qed
next
  case (3 h f es d)
  then have step: "fleet_step d (f d)" by (intro fleet_op_step) simp
  with 3(2) have inv: "fleet_inv (f d)" by (simp add: fleet_step_def)
  from find_token_step [OF step 3(3)] obtain k' where
    k': "find_row (\<lambda>k. tk_hash k = h) (install_tokens (f d)) = Some k'" "token_step k k'" by blast
  with 3(4) have "tk_max_uses k' = Some m" by (simp add: token_step_def)
  from 3(1) [OF inv k'(1) this] 3(5) k'(2) show ?case by (simp add: token_step_def)
qed

theorem token_budget_witness:
  "int (enrolled_with ''secret'' (Other (\<lambda>d. snd (RevokeDevice 7 4 d)) #
     map (\<lambda>i. Attempt ''secret'' 0 (\<lambda>t. Inr (demo_new i))) [8, 9, 10]) demo_site) \<le> 2 - 0"
proof -
  have "find_row (\<lambda>k. tk_hash k = ''secret'') (install_tokens demo_site) = Some demo_token"
    "tk_max_uses demo_token = Some 2" "tk_uses demo_token = 0" by (simp_all add: demo_site_def demo_token_def)
  with token_budget [OF demo_site_inv, of "''secret''" demo_token 2
      "Other (\<lambda>d. snd (RevokeDevice 7 4 d)) # map (\<lambda>i. Attempt ''secret'' 0 (\<lambda>t. Inr (demo_new i))) [8, 9, 10]"]
    fleet_ops.revoke [of 7 4] show ?thesis by auto
qed

section \<open>A revoked device stays out\<close>

lemma TenantSuspended_ok:
  assumes "TenantSuspended t d = (Inr sus, d')"
  shows "\<exists>x \<in> set (tenants d). tn_id x = t \<and> tn_suspended x = sus"
proof -
  have "pool (lookup tenants (\<lambda>x. tn_id x = t) tn_suspended) d = (Inr sus, d')"
    using assms by (simp add: TenantSuspended_def lookup_def [abs_def])
  from lookup_ok [OF this] show ?thesis by (auto dest: find_row_Some)
qed

lemma check_device_ok:
  assumes "check_device leaf i st d = (Inr dev, d')"
  shows "\<not> snd (snd st) \<and> fst (snd st) = lc_serial leaf \<and> dev = \<lparr>di_id = i, di_tenant = fst st\<rparr> \<and>
    (\<exists>t \<in> set (tenants d). tn_id t = fst st \<and> \<not> tn_suspended t)"
proof -
  obtain tid serial revoked where st: "st = (tid, serial, revoked)" by (cases st) auto
  with assms have ok: "\<not> revoked" "serial = lc_serial leaf" by (auto simp: check_device_def split: if_splits)
  obtain r d1 where t: "TenantSuspended tid d = (r, d1)" by fastforce
  with assms st ok have "r = Inr False" "dev = \<lparr>di_id = i, di_tenant = tid\<rparr>"
    by (auto simp: check_device_def split: sum.splits if_splits)
  with TenantSuspended_ok [of tid d False d1] t st ok show ?thesis by simp
qed

lemma authenticate_ok:
  assumes "authenticate peer d = (Inr dev, d')"
  obtains leaf v where "peer = Some leaf" "lc_common_name leaf = Some (di_id dev)"
    "find_row (\<lambda>v. dv_id v = di_id dev) (devices d) = Some v" "\<not> dv_revoked v" "dv_cert_serial v = lc_serial leaf"
    "dv_tenant v = di_tenant dev" "\<exists>t \<in> set (tenants d). tn_id t = di_tenant dev \<and> \<not> tn_suspended t"
proof -
  let ?h = "\<lambda>v. (dv_tenant v, dv_cert_serial v, dv_revoked v)"
  from assms obtain leaf i where p: "peer = Some leaf" "lc_common_name leaf = Some i"
    by (auto simp: authenticate_def split: option.splits)
  obtain r d1 where s: "DeviceAuthState i d = (r, d1)" by fastforce
  with assms p obtain st where st: "r = Inr st" "check_device leaf i st d1 = (Inr dev, d')"
    by (auto simp: authenticate_def split: sum.splits)
  have "pool (lookup devices (\<lambda>v. dv_id v = i) ?h) d = (Inr st, d1)"
    using s st by (simp add: DeviceAuthState_def lookup_def [abs_def])
  from lookup_ok [OF this] obtain v fs where "find_row (\<lambda>v. dv_id v = i) (devices d) = Some v" "st = ?h v"
    "d1 = d\<lparr>faults := fs\<rparr>" by auto
  with check_device_ok [OF st(2)] p show thesis by (intro that [of leaf v]) auto
qed

lemma RevokeDevice_ok:
  assumes "RevokeDevice t i d = (Inr x, d')"
  shows "\<exists>fs. d' = d\<lparr>faults := fs, devices := update_where (\<lambda>v. dv_tenant v = t \<and> dv_id v = i) (\<lambda>v. v\<lparr>dv_revoked := True\<rparr>) (devices d)\<rparr> \<and>
    (\<exists>v \<in> set (devices d). dv_tenant v = t \<and> dv_id v = i)"
proof -
  from assms obtain fs where "update_device_stmt t i (\<lambda>v. v\<lparr>dv_revoked := True\<rparr>) (d\<lparr>faults := fs\<rparr>) = (Inr x, d')"
    unfolding RevokeDevice_def by (rule pool_ok)
  moreover from this have "rows_affected (\<lambda>v. dv_tenant v = t \<and> dv_id v = i) (devices d) \<noteq> 0"
    by (auto simp: update_device_stmt_def Let_def oneRow_def split: if_splits)
  ultimately show ?thesis
    by (auto simp: update_device_stmt_def Let_def rows_affected_0)
qed

text \<open>
  C11: Revocation is final. Once a revocation has succeeded (device identifiers being
  unique), the device never authenticates again, whatever certificate it presents and
  whatever happens to the fleet afterwards: renewals, heartbeats, group moves, new
  enrollments, suspensions.
\<close>

theorem revoked_never_authenticates:
  assumes "distinct (map dv_id (devices d))" and "RevokeDevice t i d = (Inr x, d1)" and "set fs \<subseteq> fleet_ops"
    and "authenticate peer (fold (\<lambda>f. f) fs d1) = (Inr dev, d2)"
  shows "di_id dev \<noteq> i"
proof
  assume i: "di_id dev = i"
  from RevokeDevice_ok [OF assms(2)] obtain v fs' where v: "v \<in> set (devices d)" "dv_tenant v = t" "dv_id v = i"
    and d1: "devices d1 = update_where (\<lambda>v. dv_tenant v = t \<and> dv_id v = i) (\<lambda>v. v\<lparr>dv_revoked := True\<rparr>) (devices d)" by auto
  have "find_row (\<lambda>v. dv_id v = i) (devices d) = Some v" using find_row_unique [OF assms(1) v(1,3)] .
  then have "find_row (\<lambda>v. dv_id v = i) (devices d1) = Some (v\<lparr>dv_revoked := True\<rparr>)"
    using v d1 find_row_update_where [of dv_id "\<lambda>v. v\<lparr>dv_revoked := True\<rparr>" i "\<lambda>v. dv_tenant v = t \<and> dv_id v = i" "devices d"] by simp
  moreover have "grows device_step (devices d1) (devices (fold (\<lambda>f. f) fs d1))"
    using fleet_run [OF assms(3), of d1] by (simp add: fleet_step_def)
  ultimately obtain w where "find_row (\<lambda>v. dv_id v = i) (devices (fold (\<lambda>f. f) fs d1)) = Some w"
    "device_step (v\<lparr>dv_revoked := True\<rparr>) w"
    using grows_find [of device_step "devices d1" "devices (fold (\<lambda>f. f) fs d1)" dv_id i "v\<lparr>dv_revoked := True\<rparr>"]
    by (auto simp: device_step_def)
  moreover obtain w' where "find_row (\<lambda>v. dv_id v = i) (devices (fold (\<lambda>f. f) fs d1)) = Some w'" "\<not> dv_revoked w'"
    using assms(4) i by (auto elim: authenticate_ok)
  ultimately show False by (simp add: device_step_def)
qed

theorem revoked_never_authenticates_witness:
  "\<exists>x d1. RevokeDevice 7 4 demo_site = (Inr x, d1) \<and>
     (\<forall>dev d2. authenticate (Some \<lparr>lc_common_name = Some 4, lc_serial = ''2a''\<rparr>) (snd (UpdateDeviceCert 7 4 ''2a'' 9 d1)) \<noteq> (Inr dev, d2))"
proof -
  let ?leaf = "\<lparr>lc_common_name = Some 4, lc_serial = ''2a''\<rparr> :: leaf_cert"
  let ?fs = "[\<lambda>d. snd (UpdateDeviceCert 7 4 ''2a'' 9 d)]"
  obtain d1 where d1: "RevokeDevice 7 4 demo_site = (Inr (), d1)"
    by (simp add: RevokeDevice_def update_device_stmt_def rows_affected_def demo_site_def enrolled_row_def demo_new_def)
  have ids: "distinct (map dv_id (devices demo_site))" by (simp add: demo_site_def)
  have ops: "set ?fs \<subseteq> fleet_ops" using fleet_ops.renew [of 7 4 "''2a''" 9] by simp
  have "authenticate (Some ?leaf) (snd (UpdateDeviceCert 7 4 ''2a'' 9 d1)) \<noteq> (Inr dev, d2)" for dev d2
  proof
    assume a: "authenticate (Some ?leaf) (snd (UpdateDeviceCert 7 4 ''2a'' 9 d1)) = (Inr dev, d2)"
    then have "authenticate (Some ?leaf) (fold (\<lambda>f. f) ?fs d1) = (Inr dev, d2)" by simp
    from revoked_never_authenticates [OF ids d1 ops this] have "di_id dev \<noteq> 4" .
    with a show False by (auto elim!: authenticate_ok)
  qed
  with d1 show ?thesis by blast
qed

end
