(* ===== verification/Wdac.thy ===== *)
theory Wdac
  imports Prelude "HOL-Library.Product_Lexorder"
begin

text \<open>
  Application-control rules and their compilation: validation and normalisation
  (\<^verbatim>\<open>internal/appcontrol/rules\<close>) and the rendering of a rule set as a Windows
  Defender Application Control policy (\<^verbatim>\<open>internal/appcontrol/wdac\<close>).

  The compiled document is checked against what it means: a scanner for the XML the
  compiler writes reads the document back, and the programs the policy allows are read
  off its elements. \<^verbatim>\<open>sort.Slice\<close> is not stable, so the sorting function is an
  argument; all that is used of it is that it sorts.
\<close>

section \<open>Rules\<close>

definition kind_Hash :: string where "kind_Hash = ''hash''"
definition kind_Publisher :: string where "kind_Publisher = ''publisher''"
definition kind_Path :: string where "kind_Path = ''path''"

lemmas kind_defs = kind_Hash_def kind_Publisher_def kind_Path_def

record rule =
  rule_kind :: string
  rule_value :: string
  rule_publisher :: string
  rule_description :: string

text \<open>The regular expression for 64 upper-case hexadecimal digits.\<close>

definition hex_upper :: "char \<Rightarrow> bool" where
  "hex_upper c \<longleftrightarrow> is_digit c \<or> c \<in> set ''ABCDEF''"

definition hex64 :: "string \<Rightarrow> bool" where
  "hex64 s \<longleftrightarrow> length s = 64 \<and> list_all hex_upper s"

text \<open>A drive letter, a colon, a backslash, and no character that a Windows path cannot have.\<close>

definition path_char :: "char \<Rightarrow> bool" where
  "path_char c \<longleftrightarrow> c \<notin> {CHR ''<'', CHR ''>'', CHR '':'', DQ, CHR ''|'', CHR ''?'', LF}"

definition winPath :: "string \<Rightarrow> bool" where
  "winPath s = (case s of
       drive # colon # sep # rest \<Rightarrow>
         (is_upper drive \<or> is_lower drive) \<and> colon = CHR '':'' \<and> sep = BSL \<and> list_all path_char rest
     | _ \<Rightarrow> False)"

definition TrimSuffix :: "string \<Rightarrow> string \<Rightarrow> string" where
  "TrimSuffix s suffix = (if HasSuffix s suffix then take (length s - length suffix) s else s)"

definition wildcard :: string where "wildcard = [BSL, CHR ''*'']"

definition trim_rule :: "rule \<Rightarrow> rule" where
  "trim_rule r = r\<lparr>rule_value := TrimSpace (rule_value r), rule_publisher := TrimSpace (rule_publisher r),
     rule_description := TrimSpace (rule_description r)\<rparr>"

text \<open>An unknown kind is quoted in the error without the escapes of \<^verbatim>\<open>%q\<close>.\<close>

definition Normalize :: "rule \<Rightarrow> rule res" where
  "Normalize r0 =
     (let r = trim_rule r0 in
      if rule_kind r = kind_Hash \<or> rule_kind r = kind_Publisher then
        (let r' = r\<lparr>rule_value := ToUpper (rule_value r)\<rparr> in
         if hex64 (rule_value r') then Inr r'
         else Inl (ErrText (rule_kind r @ '' value must be 64 hex characters'')))
      else if rule_kind r = kind_Path then
        (let base = TrimSuffix (rule_value r) wildcard in
         if base = [] \<or> \<not> winPath base
         then Inl (ErrText (''path must be an absolute Windows path (optionally ending in '' @ wildcard @ '')''))
         else Inr r)
      else Inl (ErrText (''unknown rule kind '' @ [DQ] @ rule_kind r @ [DQ])))"

section \<open>The document\<close>

definition NL :: string where "NL = [LF]"

definition basePolicyGUID :: string where "basePolicyGUID = ''{A244370E-44C9-4C06-B551-F6016E563076}''"
definition platformID :: string where "platformID = ''{2E07F7E4-194C-4D20-B7C9-6F44A6C5A234}''"

record wdac_policy =
  wp_mode :: string
  wp_rules :: "rule list"

definition baselineEKUs :: string where
  \<open>baselineEKUs = concat (map (\<lambda>l. l @ NL) [
     ''    <EKU ID="ID_EKU_WINDOWS" Value="010A2B0601040182370A0306" />'',
     ''    <EKU ID="ID_EKU_WHQL" Value="010A2B0601040182370A0305" />'',
     ''    <EKU ID="ID_EKU_ELAM" Value="010A2B0601040182373D0401" />'',
     ''    <EKU ID="ID_EKU_HAL_EXT" Value="010A2B0601040182373D0501" />'',
     ''    <EKU ID="ID_EKU_RT_EXT" Value="010A2B0601040182370A0315" />'',
     ''    <EKU ID="ID_EKU_STORE" Value="010A2B0601040182374C0301" />'',
     ''    <EKU ID="ID_EKU_DCODEGEN" Value="010A2B0601040182374C0501" />'',
     ''    <EKU ID="ID_EKU_AM" Value="010A2B0601040182374C0B01" />''])\<close>

record baseline_signer =
  bs_id :: string
  bs_name :: string
  bs_root :: string
  bs_eku :: string
  bs_kernel :: bool

definition signer :: "string \<Rightarrow> string \<Rightarrow> string \<Rightarrow> string \<Rightarrow> bool \<Rightarrow> baseline_signer" where
  "signer i n r e k = \<lparr>bs_id = i, bs_name = n, bs_root = r, bs_eku = e, bs_kernel = k\<rparr>"

definition baselineSigners :: "baseline_signer list" where
  \<open>baselineSigners = [
     signer ''ID_SIGNER_WINDOWS_PRODUCTION'' ''Microsoft Product Root 2010 Windows EKU'' ''Type="Wellknown" Value="06"'' ''ID_EKU_WINDOWS'' True,
     signer ''ID_SIGNER_ELAM_PRODUCTION'' ''Microsoft Product Root 2010 ELAM EKU'' ''Type="Wellknown" Value="06"'' ''ID_EKU_ELAM'' True,
     signer ''ID_SIGNER_HAL_PRODUCTION'' ''Microsoft Product Root 2010 HAL EKU'' ''Type="Wellknown" Value="06"'' ''ID_EKU_HAL_EXT'' True,
     signer ''ID_SIGNER_WHQL_SHA2'' ''Microsoft Product Root 2010 WHQL EKU'' ''Type="Wellknown" Value="06"'' ''ID_EKU_WHQL'' True,
     signer ''ID_SIGNER_WHQL_SHA1'' ''Microsoft Product Root WHQL EKU SHA1'' ''Type="Wellknown" Value="05"'' ''ID_EKU_WHQL'' True,
     signer ''ID_SIGNER_WHQL_MD5'' ''Microsoft Product Root WHQL EKU MD5'' ''Type="Wellknown" Value="04"'' ''ID_EKU_WHQL'' True,
     signer ''ID_SIGNER_WINDOWS_FLIGHT_ROOT'' ''Microsoft Flighting Root 2014 Windows EKU'' ''Type="Wellknown" Value="0E"'' ''ID_EKU_WINDOWS'' True,
     signer ''ID_SIGNER_ELAM_FLIGHT'' ''Microsoft Flighting Root 2014 ELAM EKU'' ''Type="Wellknown" Value="0E"'' ''ID_EKU_ELAM'' True,
     signer ''ID_SIGNER_HAL_FLIGHT'' ''Microsoft Flighting Root 2014 HAL EKU'' ''Type="Wellknown" Value="0E"'' ''ID_EKU_HAL_EXT'' True,
     signer ''ID_SIGNER_WHQL_FLIGHT_SHA2'' ''Microsoft Flighting Root 2014 WHQL EKU'' ''Type="Wellknown" Value="0E"'' ''ID_EKU_WHQL'' True,
     signer ''ID_SIGNER_WINDOWS_PRODUCTION_USER'' ''Microsoft Product Root 2010 Windows EKU'' ''Type="Wellknown" Value="06"'' ''ID_EKU_WINDOWS'' False,
     signer ''ID_SIGNER_ELAM_PRODUCTION_USER'' ''Microsoft Product Root 2010 ELAM EKU'' ''Type="Wellknown" Value="06"'' ''ID_EKU_ELAM'' False,
     signer ''ID_SIGNER_HAL_PRODUCTION_USER'' ''Microsoft Product Root 2010 HAL EKU'' ''Type="Wellknown" Value="06"'' ''ID_EKU_HAL_EXT'' False,
     signer ''ID_SIGNER_WHQL_SHA2_USER'' ''Microsoft Product Root 2010 WHQL EKU'' ''Type="Wellknown" Value="06"'' ''ID_EKU_WHQL'' False,
     signer ''ID_SIGNER_WHQL_SHA1_USER'' ''Microsoft Product Root WHQL EKU SHA1'' ''Type="Wellknown" Value="05"'' ''ID_EKU_WHQL'' False,
     signer ''ID_SIGNER_WHQL_MD5_USER'' ''Microsoft Product Root WHQL EKU MD5'' ''Type="Wellknown" Value="04"'' ''ID_EKU_WHQL'' False,
     signer ''ID_SIGNER_WINDOWS_FLIGHT_ROOT_USER'' ''Microsoft Flighting Root 2014 Windows EKU'' ''Type="Wellknown" Value="0E"'' ''ID_EKU_WINDOWS'' False,
     signer ''ID_SIGNER_ELAM_FLIGHT_USER'' ''Microsoft Flighting Root 2014 ELAM EKU'' ''Type="Wellknown" Value="0E"'' ''ID_EKU_ELAM'' False,
     signer ''ID_SIGNER_HAL_FLIGHT_USER'' ''Microsoft Flighting Root 2014 HAL EKU'' ''Type="Wellknown" Value="0E"'' ''ID_EKU_HAL_EXT'' False,
     signer ''ID_SIGNER_WHQL_FLIGHT_SHA2_USER'' ''Microsoft Flighting Root 2014 WHQL EKU'' ''Type="Wellknown" Value="0E"'' ''ID_EKU_WHQL'' False,
     signer ''ID_SIGNER_STORE'' ''Microsoft MarketPlace PCA 2011'' ''Type="TBS" Value="FC9EDE3DCCA09186B2D3BF9B738A2050CB1A554DA2DCADB55F3F72EE17721378"'' ''ID_EKU_STORE'' False,
     signer ''ID_SIGNER_STORE_FLIGHT_ROOT'' ''Microsoft Flighting Root 2014 Store EKU'' ''Type="Wellknown" Value="0E"'' ''ID_EKU_STORE'' False,
     signer ''ID_SIGNER_RT_PRODUCTION'' ''Microsoft Product Root 2010 RT EKU'' ''Type="Wellknown" Value="06"'' ''ID_EKU_RT_EXT'' False,
     signer ''ID_SIGNER_RT_FLIGHT'' ''Microsoft Flighting Root 2014 RT EKU'' ''Type="Wellknown" Value="0E"'' ''ID_EKU_RT_EXT'' False,
     signer ''ID_SIGNER_RT_STANDARD'' ''Microsoft Standard Root 2011 RT EKU'' ''Type="Wellknown" Value="07"'' ''ID_EKU_RT_EXT'' False,
     signer ''ID_SIGNER_DRM'' ''Microsoft DMD Root 2005'' ''Type="Wellknown" Value="0C"'' '''' False,
     signer ''ID_SIGNER_DCODEGEN'' ''Microsoft Product Root 2010 Dynamic Code Generation EKU'' ''Type="Wellknown" Value="06"'' ''ID_EKU_DCODEGEN'' False,
     signer ''ID_SIGNER_AM'' ''Microsoft Standard Root 2011 AntiMalware EKU'' ''Type="Wellknown" Value="07"'' ''ID_EKU_AM'' False]\<close>

definition esc :: "string \<Rightarrow> string" where
  "esc = replacer [(CHR ''&'', ''&amp;''), (CHR ''<'', ''&lt;''), (CHR ''>'', ''&gt;''), (DQ, ''&quot;'')]"

text \<open>The pieces the compiler prints: a baseline signer, a reference, and the three kinds of rule.\<close>

definition print_signer :: "baseline_signer \<Rightarrow> string" where
  \<open>print_signer s =
     ''    <Signer ID="'' @ bs_id s @ ''" Name="'' @ bs_name s @ ''">'' @ NL @
     ''      <CertRoot '' @ bs_root s @ '' />'' @ NL @
     (if bs_eku s \<noteq> [] then ''      <CertEKU ID="'' @ bs_eku s @ ''" />'' @ NL else []) @
     ''    </Signer>'' @ NL\<close>

definition print_signer_ref :: "string \<Rightarrow> string" where
  \<open>print_signer_ref i = ''          <AllowedSigner SignerId="'' @ i @ ''" />'' @ NL\<close>

definition print_file_ref :: "string \<Rightarrow> string" where
  \<open>print_file_ref rid = ''          <FileRuleRef RuleID="'' @ rid @ ''" />'' @ NL\<close>

definition hash_id :: "nat \<Rightarrow> string" where "hash_id n = ''ID_ALLOW_H_'' @ show_nat n"
definition path_id :: "nat \<Rightarrow> string" where "path_id n = ''ID_ALLOW_P_'' @ show_nat n"
definition publisher_id :: "nat \<Rightarrow> string" where "publisher_id n = ''ID_SIGNER_P_'' @ show_nat n"

definition print_hash_rule :: "nat \<Rightarrow> rule \<Rightarrow> string" where
  \<open>print_hash_rule n r = ''    <Allow ID="'' @ hash_id n @ ''" FriendlyName="'' @ esc (rule_description r) @
     ''" Hash="'' @ rule_value r @ ''" />'' @ NL\<close>

definition print_path_rule :: "nat \<Rightarrow> rule \<Rightarrow> string" where
  \<open>print_path_rule n r = ''    <Allow ID="'' @ path_id n @ ''" FriendlyName="'' @ esc (rule_description r) @
     ''" FilePath="'' @ esc (rule_value r) @ ''" />'' @ NL\<close>

definition print_publisher :: "nat \<Rightarrow> rule \<Rightarrow> string" where
  \<open>print_publisher n r = ''    <Signer ID="'' @ publisher_id n @ ''" Name="'' @
     esc (if rule_publisher r = [] then ''Publisher'' else rule_publisher r) @ ''">'' @ NL @
     ''      <CertRoot Type="TBS" Value="'' @ rule_value r @ ''" />'' @ NL @
     ''    </Signer>'' @ NL\<close>

text \<open>The string builders, and the two loops that fill them.\<close>

record builders =
  b_signers :: string
  b_kernel_refs :: string
  b_user_refs :: string
  b_file_rules :: string
  b_file_refs :: string

definition add_baseline :: "baseline_signer \<Rightarrow> builders \<Rightarrow> builders" where
  "add_baseline s b =
     (let b1 = b\<lparr>b_signers := b_signers b @ print_signer s\<rparr>; ref = print_signer_ref (bs_id s)
      in if bs_kernel s then b1\<lparr>b_kernel_refs := b_kernel_refs b @ ref\<rparr>
         else b1\<lparr>b_user_refs := b_user_refs b @ ref\<rparr>)"

fun add_rules :: "nat \<Rightarrow> rule list \<Rightarrow> builders \<Rightarrow> builders" where
  "add_rules n [] b = b"
| "add_rules n (r # rs) b = add_rules (Suc n) rs
     (if rule_kind r = kind_Hash then
        b\<lparr>b_file_rules := b_file_rules b @ print_hash_rule n r, b_file_refs := b_file_refs b @ print_file_ref (hash_id n)\<rparr>
      else if rule_kind r = kind_Path then
        b\<lparr>b_file_rules := b_file_rules b @ print_path_rule n r, b_file_refs := b_file_refs b @ print_file_ref (path_id n)\<rparr>
      else if rule_kind r = kind_Publisher then
        b\<lparr>b_signers := b_signers b @ print_publisher n r, b_user_refs := b_user_refs b @ print_signer_ref (publisher_id n)\<rparr>
      else b)"

definition no_builders :: builders where
  "no_builders = \<lparr>b_signers = [], b_kernel_refs = [], b_user_refs = [], b_file_rules = [], b_file_refs = []\<rparr>"

definition doc_top :: string where
  \<open>doc_top =
     ''<?xml version="1.0" encoding="utf-8"?>'' @ NL @
     ''<SiPolicy xmlns="urn:schemas-microsoft-com:sipolicy" PolicyType="Base Policy">'' @ NL @
     ''  <VersionEx>1.0.0.0</VersionEx>'' @ NL @
     ''  <PolicyID>'' @ basePolicyGUID @ ''</PolicyID>'' @ NL @
     ''  <BasePolicyID>'' @ basePolicyGUID @ ''</BasePolicyID>'' @ NL @
     ''  <PlatformID>'' @ platformID @ ''</PlatformID>'' @ NL\<close>

definition doc_options :: "string \<Rightarrow> string" where
  \<open>doc_options mode =
     ''  <Rules>'' @ NL @
     ''    <Rule><Option>Enabled:Unsigned System Integrity Policy</Option></Rule>'' @ NL @
     (if mode \<noteq> ''enforce'' then ''    <Rule><Option>Enabled:Audit Mode</Option></Rule>'' @ NL else []) @
     ''    <Rule><Option>Enabled:UMCI</Option></Rule>'' @ NL @
     ''    <Rule><Option>Enabled:Update Policy No Reboot</Option></Rule>'' @ NL @
     ''    <Rule><Option>Enabled:Revoked Expired As Unsigned</Option></Rule>'' @ NL @
     ''  </Rules>'' @ NL\<close>

definition doc_head :: "string \<Rightarrow> string" where
  "doc_head mode = doc_top @ doc_options mode @ ''  <EKUs>'' @ NL @ baselineEKUs @ ''  </EKUs>'' @ NL"

definition doc_kernel_open :: string where
  \<open>doc_kernel_open =
     ''  <SigningScenarios>'' @ NL @
     ''    <SigningScenario Value="131" ID="ID_SIGNINGSCENARIO_KMCI" FriendlyName="Kernel mode">'' @ NL @
     ''      <ProductSigners>'' @ NL @ ''        <AllowedSigners>'' @ NL\<close>

definition doc_user_open :: string where
  \<open>doc_user_open =
     ''        </AllowedSigners>'' @ NL @ ''      </ProductSigners>'' @ NL @ ''    </SigningScenario>'' @ NL @
     ''    <SigningScenario Value="12" ID="ID_SIGNINGSCENARIO_UMCI" FriendlyName="User mode">'' @ NL @
     ''      <ProductSigners>'' @ NL @ ''        <AllowedSigners>'' @ NL\<close>

definition doc_tail :: string where
  \<open>doc_tail =
     ''      </ProductSigners>'' @ NL @ ''    </SigningScenario>'' @ NL @ ''  </SigningScenarios>'' @ NL @
     ''  <UpdatePolicySigners />'' @ NL @
     ''  <CiSigners>'' @ NL @ ''    <CiSigner SignerId="ID_SIGNER_STORE" />'' @ NL @ ''  </CiSigners>'' @ NL @
     ''  <HvciOptions>0</HvciOptions>'' @ NL @
     ''</SiPolicy>'' @ NL\<close>

definition document :: "string \<Rightarrow> builders \<Rightarrow> string" where
  \<open>document mode b =
     doc_head mode @
     ''  <FileRules>'' @ NL @ b_file_rules b @ ''  </FileRules>'' @ NL @
     ''  <Signers>'' @ NL @ b_signers b @ ''  </Signers>'' @ NL @
     doc_kernel_open @ b_kernel_refs b @ doc_user_open @ b_user_refs b @ ''        </AllowedSigners>'' @ NL @
     (if b_file_refs b \<noteq> [] then ''        <FileRulesRef>'' @ NL @ b_file_refs b @ ''        </FileRulesRef>'' @ NL else []) @
     doc_tail\<close>

fun normalize_all :: "rule list \<Rightarrow> rule list res" where
  "normalize_all [] = Inr []"
| "normalize_all (r # rs) = (case Normalize r of
     Inl e \<Rightarrow> Inl e
   | Inr n \<Rightarrow> (case normalize_all rs of Inl e \<Rightarrow> Inl e | Inr ns \<Rightarrow> Inr (n # ns)))"

definition Compile :: "(rule list \<Rightarrow> rule list) \<Rightarrow> wdac_policy \<Rightarrow> bytes res" where
  "Compile sort_Slice p = (case normalize_all (wp_rules p) of
       Inl e \<Rightarrow> Inl e
     | Inr rs \<Rightarrow> Inr (document (wp_mode p) (add_rules 0 (sort_Slice rs) (fold add_baseline baselineSigners no_builders))))"

text \<open>\<^verbatim>\<open>hex.EncodeToString\<close>.\<close>

definition hex_encode :: "bytes \<Rightarrow> string" where
  "hex_encode bs = concat (map (\<lambda>c. [''0123456789abcdef'' ! (byte c div 16), ''0123456789abcdef'' ! (byte c mod 16)]) bs)"

definition ContentHash :: "(bytes \<Rightarrow> bytes) \<Rightarrow> bytes \<Rightarrow> string" where
  "ContentHash sha256 xml = hex_encode (sha256 xml)"

section \<open>Sorting\<close>

text \<open>The comparison the compiler sorts with, and what a sorting function has to do.\<close>

definition rule_less :: "rule \<Rightarrow> rule \<Rightarrow> bool" where
  "rule_less a b = (if rule_kind a \<noteq> rule_kind b then rule_kind a < rule_kind b else rule_value a < rule_value b)"

definition sorts :: "(rule list \<Rightarrow> rule list) \<Rightarrow> bool" where
  "sorts f \<longleftrightarrow> (\<forall>rs. mset (f rs) = mset rs \<and> sorted_wrt (\<lambda>a b. \<not> rule_less b a) (f rs))"

definition rule_key :: "rule \<Rightarrow> string \<times> string" where
  "rule_key r = (rule_kind r, rule_value r)"

lemma not_rule_less: "\<not> rule_less b a \<longleftrightarrow> rule_key a \<le> rule_key b"
  by (auto simp: rule_less_def rule_key_def less_eq_prod_def)

lemma sorts_set: "sorts f \<Longrightarrow> set (f rs) = set rs"
  by (metis sorts_def set_mset_mset)

lemma sorts_sorted: "sorts f \<Longrightarrow> sorted (map rule_key (f rs))"
  by (simp add: sorts_def not_rule_less sorted_map)

lemma sort_key_sorts: "sorts (sort_key rule_key)"
  unfolding sorts_def not_rule_less using sorted_map [of rule_key, THEN iffD1, OF sorted_sort_key] by simp

lemma sorts_unique:
  assumes "sorts f" "sorts g" "mset rs = mset rs'" "distinct (map rule_key rs)"
  shows "f rs = g rs'"
proof (rule map_sorted_distinct_set_unique [of rule_key])
  have m: "mset (f rs) = mset rs" "mset (g rs') = mset rs" using assms by (simp_all add: sorts_def)
  show d: "distinct (map rule_key (f rs))" "distinct (map rule_key (g rs'))"
    using m assms(4) by (metis mset_map mset_eq_imp_distinct_iff)+
  show "sorted (map rule_key (f rs))" "sorted (map rule_key (g rs'))" using assms by (simp_all add: sorts_sorted)
  show s: "set (f rs) = set (g rs')" using m by (metis set_mset_mset)
  show "inj_on rule_key (set (f rs) \<union> set (g rs'))" using d s by (simp add: distinct_map)
qed

section \<open>Reading the document back\<close>

text \<open>
  A scanner for elements, attributes and character data, one character at a time: the
  events so far, and where the scanner is (in character data, in an element name, between
  attributes, in an attribute value, in an entity of such a value).
\<close>

type_synonym attrs = "(string \<times> string) list"

datatype xevt = Elem string attrs | Chars string

datatype xstate =
    XText string
  | XName string
  | XTag string attrs string
  | XVal string attrs string string
  | XEnt string attrs string string string

definition entity :: "string \<Rightarrow> string" where
  "entity e = (if e = ''amp'' then ''&'' else if e = ''lt'' then ''<'' else if e = ''gt'' then ''>''
     else if e = ''quot'' then [DQ] else [])"

fun xmove :: "char \<Rightarrow> xstate \<Rightarrow> xevt list \<times> xstate" where
  "xmove c (XText t) =
     (if c = CHR ''<'' then (if t = [] then [] else [Chars t], XName [])
      else if t = [] \<and> is_space c then ([], XText []) else ([], XText (t @ [c])))"
| "xmove c (XName n) =
     (if c = CHR ''>'' then ([Elem n []], XText []) else if c = CHR '' '' then ([], XTag n [] []) else ([], XName (n @ [c])))"
| "xmove c (XTag n as a) =
     (if c = CHR ''>'' then ([Elem n as], XText []) else if c = DQ then ([], XVal n as a [])
      else if c = CHR '' '' then ([], XTag n as []) else if c = CHR ''='' then ([], XTag n as a)
      else ([], XTag n as (a @ [c])))"
| "xmove c (XVal n as a v) =
     (if c = DQ then ([], XTag n (as @ [(a, v)]) []) else if c = CHR ''&'' then ([], XEnt n as a v [])
      else ([], XVal n as a (v @ [c])))"
| "xmove c (XEnt n as a v e) =
     (if c = CHR '';'' then ([], XVal n as a (v @ entity e)) else ([], XEnt n as a v (e @ [c])))"

fun xscan :: "string \<Rightarrow> xstate \<Rightarrow> xevt list \<times> xstate" where
  "xscan [] st = ([], st)"
| "xscan (c # cs) st = (let (es, st1) = xmove c st; (es', st2) = xscan cs st1 in (es @ es', st2))"

lemma xscan_append: "xscan (a @ b) st = (let (es, st1) = xscan a st; (es', st2) = xscan b st1 in (es @ es', st2))"
  by (induction a arbitrary: st) (simp_all add: split_beta Let_def)

text \<open>A piece of the document that starts and ends in character data, and the events it stands for.\<close>

definition reads :: "string \<Rightarrow> xevt list \<Rightarrow> bool" where
  "reads s es \<longleftrightarrow> xscan s (XText []) = (es, XText [])"

lemma reads_append: "reads a es \<Longrightarrow> reads b es' \<Longrightarrow> reads (a @ b) (es @ es')"
  by (simp add: reads_def xscan_append)

lemma reads_line: "reads (a @ NL) es \<Longrightarrow> reads b es' \<Longrightarrow> reads (a @ NL @ b) (es @ es')"
  using reads_append [of "a @ NL" es b es'] by simp

lemma reads_Nil [simp]: "reads [] []"
  by (simp add: reads_def)

lemma reads_concat: "(\<And>x. x \<in> set xs \<Longrightarrow> reads (f x) (g x)) \<Longrightarrow> reads (concat (map f xs)) (concat (map g xs))"
  by (induction xs) (simp_all add: reads_append)

lemma esc_simps [simp]:
  "esc [] = []"
  "esc (c # s) = (if c = CHR ''&'' then ''&amp;'' else if c = CHR ''<'' then ''&lt;'' else if c = CHR ''>'' then ''&gt;''
     else if c = DQ then ''&quot;'' else [c]) @ esc s"
  by (simp_all add: esc_def DQ_def)

lemma xscan_esc: "xscan (esc s) (XVal n as a v) = ([], XVal n as a (v @ s))"
  by (induction s arbitrary: v) (simp_all add: xscan_append entity_def DQ_def)

definition plain :: "string \<Rightarrow> bool" where
  "plain s \<longleftrightarrow> DQ \<notin> set s \<and> CHR ''&'' \<notin> set s"

lemma xscan_plain: "plain s \<Longrightarrow> xscan s (XVal n as a v) = ([], XVal n as a (v @ s))"
  by (induction s arbitrary: v) (auto simp: plain_def)

lemma plain_simps [simp]: "plain (a @ b) = (plain a \<and> plain b)" "plain []"
  "plain (c # s) = (c \<noteq> DQ \<and> c \<noteq> CHR ''&'' \<and> plain s)"
  by (auto simp: plain_def)

lemma not_quote [simp]: "\<not> hex_upper DQ" "\<not> hex_upper (CHR ''&'')" "\<not> is_digit DQ" "\<not> is_digit (CHR ''&'')"
  by (simp_all add: hex_upper_def is_digit_def DQ_def)

lemma plain_show_nat [simp]: "plain (show_nat n)"
  using show_nat_digits [of n] unfolding plain_def by (meson not_quote(3,4))

lemma plain_hex64: "hex64 s \<Longrightarrow> plain s"
  unfolding hex64_def plain_def list_all_iff by (meson not_quote(1,2))

text \<open>The pieces with variable parts.\<close>

lemmas scan_simps = reads_def xscan_append xscan_esc xscan_plain NL_def char_defs is_space_def

lemma reads_file_ref: "plain rid \<Longrightarrow> reads (print_file_ref rid) [Elem ''FileRuleRef'' [(''RuleID'', rid)]]"
  by (simp add: print_file_ref_def scan_simps)

lemma reads_signer_ref: "plain i \<Longrightarrow> reads (print_signer_ref i) [Elem ''AllowedSigner'' [(''SignerId'', i)]]"
  by (simp add: print_signer_ref_def scan_simps)

lemma plain_ids [simp]: "plain (hash_id n)" "plain (path_id n)" "plain (publisher_id n)"
  by (simp_all add: hash_id_def path_id_def publisher_id_def DQ_def)

lemma reads_hash_rule:
  "plain (rule_value r) \<Longrightarrow> reads (print_hash_rule n r)
     [Elem ''Allow'' [(''ID'', hash_id n), (''FriendlyName'', rule_description r), (''Hash'', rule_value r)]]"
  by (simp add: print_hash_rule_def scan_simps)

lemma reads_path_rule:
  "reads (print_path_rule n r)
     [Elem ''Allow'' [(''ID'', path_id n), (''FriendlyName'', rule_description r), (''FilePath'', rule_value r)]]"
  by (simp add: print_path_rule_def scan_simps)

lemma reads_publisher:
  "plain (rule_value r) \<Longrightarrow> reads (print_publisher n r)
     [Elem ''Signer'' [(''ID'', publisher_id n), (''Name'', if rule_publisher r = [] then ''Publisher'' else rule_publisher r)],
      Elem ''CertRoot'' [(''Type'', ''TBS''), (''Value'', rule_value r)], Elem ''/Signer'' []]"
  by (simp add: print_publisher_def scan_simps)

text \<open>The type and the value inside the root of a baseline signer.\<close>

definition root_type :: "string \<Rightarrow> string" where
  "root_type r = takeWhile ((\<noteq>) DQ) (drop 6 r)"

definition root_value :: "string \<Rightarrow> string" where
  "root_value r = takeWhile ((\<noteq>) DQ) (drop (15 + length (root_type r)) r)"

definition readable :: "baseline_signer \<Rightarrow> bool" where
  \<open>readable s \<longleftrightarrow> bs_root s = ''Type="'' @ root_type (bs_root s) @ ''" Value="'' @ root_value (bs_root s) @ ''"'' \<and>
     plain (bs_id s) \<and> plain (bs_name s) \<and> plain (bs_eku s) \<and> plain (root_type (bs_root s)) \<and> plain (root_value (bs_root s))\<close>

lemma baseline_readable: "list_all readable baselineSigners"
  by (simp add: baselineSigners_def signer_def readable_def root_type_def root_value_def DQ_def)

definition signer_evts :: "baseline_signer \<Rightarrow> xevt list" where
  "signer_evts s = [Elem ''Signer'' [(''ID'', bs_id s), (''Name'', bs_name s)],
     Elem ''CertRoot'' [(''Type'', root_type (bs_root s)), (''Value'', root_value (bs_root s))]] @
     (if bs_eku s = [] then [] else [Elem ''CertEKU'' [(''ID'', bs_eku s)]]) @ [Elem ''/Signer'' []]"

lemma reads_signer:
  assumes "readable s"
  shows "reads (print_signer s) (signer_evts s)"
proof -
  let ?t = "root_type (bs_root s)" and ?v = "root_value (bs_root s)"
  have r: \<open>bs_root s = ''Type="'' @ ?t @ ''" Value="'' @ ?v @ ''"''\<close>
    and p: "plain (bs_id s)" "plain (bs_name s)" "plain (bs_eku s)" "plain ?t" "plain ?v"
    using assms by (simp_all add: readable_def)
  have "reads (print_signer s) (signer_evts s)
     = reads (''    <Signer ID='' @ [DQ] @ bs_id s @ [DQ] @ '' Name='' @ [DQ] @ bs_name s @ [DQ] @ ''>'' @ NL @
     ''      <CertRoot Type='' @ [DQ] @ ?t @ [DQ] @ '' Value='' @ [DQ] @ ?v @ [DQ] @ '' />'' @ NL @
     (if bs_eku s \<noteq> [] then ''      <CertEKU ID='' @ [DQ] @ bs_eku s @ [DQ] @ '' />'' @ NL else []) @
     ''    </Signer>'' @ NL) (signer_evts s)"
    unfolding print_signer_def by (subst r) (simp add: DQ_def)
  also have "\<dots>" using p by (cases "bs_eku s = []") (simp_all add: signer_evts_def scan_simps)
  finally show ?thesis .
qed

text \<open>The fixed parts.\<close>

definition option_evts :: "string \<Rightarrow> xevt list" where
  "option_evts t = [Elem ''Rule'' [], Elem ''Option'' [], Chars t, Elem ''/Option'' [], Elem ''/Rule'' []]"

definition text_evts :: "string \<Rightarrow> string \<Rightarrow> xevt list" where
  "text_evts n t = [Elem n [], Chars t, Elem (CHR ''/'' # n) []]"

definition top_evts :: "xevt list" where
  "top_evts = [Elem ''?xml'' [(''version'', ''1.0''), (''encoding'', ''utf-8'')],
     Elem ''SiPolicy'' [(''xmlns'', ''urn:schemas-microsoft-com:sipolicy''), (''PolicyType'', ''Base Policy'')]] @
     text_evts ''VersionEx'' ''1.0.0.0'' @ text_evts ''PolicyID'' basePolicyGUID @
     text_evts ''BasePolicyID'' basePolicyGUID @ text_evts ''PlatformID'' platformID"

definition options_evts :: "string \<Rightarrow> xevt list" where
  "options_evts mode = [Elem ''Rules'' []] @ option_evts ''Enabled:Unsigned System Integrity Policy'' @
     (if mode \<noteq> ''enforce'' then option_evts ''Enabled:Audit Mode'' else []) @ option_evts ''Enabled:UMCI'' @
     option_evts ''Enabled:Update Policy No Reboot'' @ option_evts ''Enabled:Revoked Expired As Unsigned'' @
     [Elem ''/Rules'' []]"

lemma reads_texts:
  "reads (''  <VersionEx>1.0.0.0</VersionEx>'' @ NL) (text_evts ''VersionEx'' ''1.0.0.0'')"
  "reads ((''  <PolicyID>'' @ basePolicyGUID @ ''</PolicyID>'') @ NL) (text_evts ''PolicyID'' basePolicyGUID)"
  "reads ((''  <BasePolicyID>'' @ basePolicyGUID @ ''</BasePolicyID>'') @ NL) (text_evts ''BasePolicyID'' basePolicyGUID)"
  "reads ((''  <PlatformID>'' @ platformID @ ''</PlatformID>'') @ NL) (text_evts ''PlatformID'' platformID)"
  "reads (''  <HvciOptions>0</HvciOptions>'' @ NL) (text_evts ''HvciOptions'' ''0'')"
  by (simp_all add: text_evts_def basePolicyGUID_def platformID_def scan_simps)

lemma reads_option:
  "reads (''    <Rule><Option>Enabled:Unsigned System Integrity Policy</Option></Rule>'' @ NL)
     (option_evts ''Enabled:Unsigned System Integrity Policy'')"
  "reads (''    <Rule><Option>Enabled:Audit Mode</Option></Rule>'' @ NL) (option_evts ''Enabled:Audit Mode'')"
  "reads (''    <Rule><Option>Enabled:UMCI</Option></Rule>'' @ NL) (option_evts ''Enabled:UMCI'')"
  "reads (''    <Rule><Option>Enabled:Update Policy No Reboot</Option></Rule>'' @ NL)
     (option_evts ''Enabled:Update Policy No Reboot'')"
  "reads (''    <Rule><Option>Enabled:Revoked Expired As Unsigned</Option></Rule>'' @ NL)
     (option_evts ''Enabled:Revoked Expired As Unsigned'')"
  by (simp_all add: option_evts_def scan_simps)

lemma reads_header:
  \<open>reads (''<?xml version="1.0" encoding="utf-8"?>'' @ NL) [Elem ''?xml'' [(''version'', ''1.0''), (''encoding'', ''utf-8'')]]\<close>
  \<open>reads (''<SiPolicy xmlns="urn:schemas-microsoft-com:sipolicy" PolicyType="Base Policy">'' @ NL)
     [Elem ''SiPolicy'' [(''xmlns'', ''urn:schemas-microsoft-com:sipolicy''), (''PolicyType'', ''Base Policy'')]]\<close>
  by (simp_all add: scan_simps)

lemma reads_top: "reads doc_top top_evts"
proof -
  have "reads doc_top ([Elem ''?xml'' [(''version'', ''1.0''), (''encoding'', ''utf-8'')]] @
     [Elem ''SiPolicy'' [(''xmlns'', ''urn:schemas-microsoft-com:sipolicy''), (''PolicyType'', ''Base Policy'')]] @
     text_evts ''VersionEx'' ''1.0.0.0'' @ text_evts ''PolicyID'' basePolicyGUID @
     text_evts ''BasePolicyID'' basePolicyGUID @ text_evts ''PlatformID'' platformID)"
    unfolding doc_top_def
    by (intro reads_line reads_header reads_texts reads_texts(2-4) [unfolded append_assoc, THEN reads_append, unfolded append_assoc]
        reads_texts(4) [unfolded append_assoc])
  then show ?thesis by (simp add: top_evts_def)
qed

lemma reads_options: "reads (doc_options mode) (options_evts mode)"
proof -
  have "reads (''  <Rules>'' @ NL) [Elem ''Rules'' []]" "reads (''  </Rules>'' @ NL) [Elem ''/Rules'' []]"
    by (simp_all add: scan_simps)
  moreover have "reads (if mode \<noteq> ''enforce'' then ''    <Rule><Option>Enabled:Audit Mode</Option></Rule>'' @ NL else [])
     (if mode \<noteq> ''enforce'' then option_evts ''Enabled:Audit Mode'' else [])"
    using reads_option(2) by simp
  ultimately show ?thesis
    unfolding doc_options_def options_evts_def by (intro reads_line reads_append reads_option)
qed

definition eku_line :: "string \<times> string \<Rightarrow> string" where
  \<open>eku_line e = ''    <EKU ID="'' @ fst e @ ''" Value="'' @ snd e @ ''" />'' @ NL\<close>

lemma reads_eku:
  "plain (fst e) \<Longrightarrow> plain (snd e) \<Longrightarrow> reads (eku_line e) [Elem ''EKU'' [(''ID'', fst e), (''Value'', snd e)]]"
  by (simp add: eku_line_def scan_simps)

lemma reads_ekus: "\<exists>as. reads baselineEKUs (map (Elem ''EKU'') as)"
proof -
  define t where "t = [(''ID_EKU_WINDOWS'', ''010A2B0601040182370A0306''), (''ID_EKU_WHQL'', ''010A2B0601040182370A0305''),
     (''ID_EKU_ELAM'', ''010A2B0601040182373D0401''), (''ID_EKU_HAL_EXT'', ''010A2B0601040182373D0501''),
     (''ID_EKU_RT_EXT'', ''010A2B0601040182370A0315''), (''ID_EKU_STORE'', ''010A2B0601040182374C0301''),
     (''ID_EKU_DCODEGEN'', ''010A2B0601040182374C0501''), (''ID_EKU_AM'', ''010A2B0601040182374C0B01'')]"
  have b: "baselineEKUs = concat (map eku_line t)" by (simp add: baselineEKUs_def eku_line_def t_def)
  have p: "list_all (\<lambda>e. plain (fst e) \<and> plain (snd e)) t" by (simp add: t_def DQ_def)
  have "reads baselineEKUs (concat (map (\<lambda>e. [Elem ''EKU'' [(''ID'', fst e), (''Value'', snd e)]]) t))"
    unfolding b by (rule reads_concat, rule reads_eku) (use p in \<open>auto simp: list_all_iff\<close>)
  also have "concat (map (\<lambda>e. [Elem ''EKU'' [(''ID'', fst e), (''Value'', snd e)]]) t) =
    map (Elem ''EKU'') (map (\<lambda>e. [(''ID'', fst e), (''Value'', snd e)]) t)" by simp
  finally show ?thesis by blast
qed

definition kernel_mode :: string where "kernel_mode = ''ID_SIGNINGSCENARIO_KMCI''"
definition user_mode :: string where "user_mode = ''ID_SIGNINGSCENARIO_UMCI''"

lemma reads_kernel_open: "reads doc_kernel_open
  [Elem ''SigningScenarios'' [],
   Elem ''SigningScenario'' [(''Value'', ''131''), (''ID'', kernel_mode), (''FriendlyName'', ''Kernel mode'')],
   Elem ''ProductSigners'' [], Elem ''AllowedSigners'' []]"
  by (simp add: doc_kernel_open_def kernel_mode_def scan_simps)

lemma reads_user_open: "reads doc_user_open
  [Elem ''/AllowedSigners'' [], Elem ''/ProductSigners'' [], Elem ''/SigningScenario'' [],
   Elem ''SigningScenario'' [(''Value'', ''12''), (''ID'', user_mode), (''FriendlyName'', ''User mode'')],
   Elem ''ProductSigners'' [], Elem ''AllowedSigners'' []]"
  by (simp add: doc_user_open_def user_mode_def scan_simps)

lemma reads_tail: "reads doc_tail
  ([Elem ''/ProductSigners'' [], Elem ''/SigningScenario'' [], Elem ''/SigningScenarios'' [],
   Elem ''UpdatePolicySigners'' [], Elem ''CiSigners'' [], Elem ''CiSigner'' [(''SignerId'', ''ID_SIGNER_STORE'')],
   Elem ''/CiSigners'' []] @ text_evts ''HvciOptions'' ''0'' @ [Elem ''/SiPolicy'' []])"
  by (simp add: doc_tail_def text_evts_def scan_simps)

lemma reads_tags:
  "reads (''  <FileRules>'' @ NL) [Elem ''FileRules'' []]" "reads (''  </FileRules>'' @ NL) [Elem ''/FileRules'' []]"
  "reads (''  <Signers>'' @ NL) [Elem ''Signers'' []]" "reads (''  </Signers>'' @ NL) [Elem ''/Signers'' []]"
  "reads (''  <EKUs>'' @ NL) [Elem ''EKUs'' []]" "reads (''  </EKUs>'' @ NL) [Elem ''/EKUs'' []]"
  "reads (''        </AllowedSigners>'' @ NL) [Elem ''/AllowedSigners'' []]"
  "reads (''        <FileRulesRef>'' @ NL) [Elem ''FileRulesRef'' []]" "reads (''        </FileRulesRef>'' @ NL) [Elem ''/FileRulesRef'' []]"
  by (simp_all add: scan_simps)

section \<open>What the loops print\<close>

definition file_evts :: "nat \<times> rule \<Rightarrow> xevt list" where
  "file_evts x = (let (n, r) = x in
     if rule_kind r = kind_Hash then
       [Elem ''Allow'' [(''ID'', hash_id n), (''FriendlyName'', rule_description r), (''Hash'', rule_value r)]]
     else if rule_kind r = kind_Path then
       [Elem ''Allow'' [(''ID'', path_id n), (''FriendlyName'', rule_description r), (''FilePath'', rule_value r)]]
     else [])"

definition file_ids :: "nat \<times> rule \<Rightarrow> string list" where
  "file_ids x = (let (n, r) = x in
     if rule_kind r = kind_Hash then [hash_id n] else if rule_kind r = kind_Path then [path_id n] else [])"

definition publisher_evts :: "nat \<times> rule \<Rightarrow> xevt list" where
  "publisher_evts x = (let (n, r) = x in if rule_kind r = kind_Publisher then
     [Elem ''Signer'' [(''ID'', publisher_id n), (''Name'', if rule_publisher r = [] then ''Publisher'' else rule_publisher r)],
      Elem ''CertRoot'' [(''Type'', ''TBS''), (''Value'', rule_value r)], Elem ''/Signer'' []] else [])"

definition publisher_ids :: "nat \<times> rule \<Rightarrow> string list" where
  "publisher_ids x = (let (n, r) = x in if rule_kind r = kind_Publisher then [publisher_id n] else [])"

definition file_ref_evts :: "string list \<Rightarrow> xevt list" where
  "file_ref_evts = map (\<lambda>i. Elem ''FileRuleRef'' [(''RuleID'', i)])"

definition signer_ref_evts :: "string list \<Rightarrow> xevt list" where
  "signer_ref_evts = map (\<lambda>i. Elem ''AllowedSigner'' [(''SignerId'', i)])"

text \<open>The builders stand for lists of events.\<close>

definition builds :: "builders \<Rightarrow> xevt list \<Rightarrow> xevt list \<Rightarrow> string list \<Rightarrow> string list \<Rightarrow> string list \<Rightarrow> bool" where
  "builds b fr sg kr ur fi \<longleftrightarrow> reads (b_file_rules b) fr \<and> reads (b_signers b) sg \<and>
     reads (b_kernel_refs b) (signer_ref_evts kr) \<and> reads (b_user_refs b) (signer_ref_evts ur) \<and>
     reads (b_file_refs b) (file_ref_evts fi)"

lemma ref_evts_append [simp]:
  "signer_ref_evts (a @ b) = signer_ref_evts a @ signer_ref_evts b" "file_ref_evts (a @ b) = file_ref_evts a @ file_ref_evts b"
  "signer_ref_evts [] = []" "file_ref_evts [] = []"
  "signer_ref_evts [i] = [Elem ''AllowedSigner'' [(''SignerId'', i)]]" "file_ref_evts [i] = [Elem ''FileRuleRef'' [(''RuleID'', i)]]"
  by (simp_all add: signer_ref_evts_def file_ref_evts_def)

lemma builds_baseline:
  assumes "list_all readable ss" "builds b fr sg kr ur fi"
  shows "builds (fold add_baseline ss b) fr (sg @ concat (map signer_evts ss))
    (kr @ map bs_id (filter bs_kernel ss)) (ur @ map bs_id (filter (Not \<circ> bs_kernel) ss)) fi"
  using assms
proof (induction ss arbitrary: b sg kr ur)
  case (Cons s ss)
  have s: "readable s" "plain (bs_id s)" using Cons.prems by (simp_all add: readable_def)
  have "builds (add_baseline s b) fr (sg @ signer_evts s) (kr @ (if bs_kernel s then [bs_id s] else []))
     (ur @ (if bs_kernel s then [] else [bs_id s])) fi"
    using Cons.prems(2) reads_signer [OF s(1)] reads_signer_ref [OF s(2)]
    by (auto simp: builds_def add_baseline_def Let_def intro: reads_append)
  with Cons.IH [OF _ this] Cons.prems(1) show ?case by (simp split: if_splits)
qed simp

text \<open>A normalised rule: of one of the three kinds, and hexadecimal unless it is a path.\<close>

definition normal :: "rule \<Rightarrow> bool" where
  "normal r \<longleftrightarrow> rule_kind r \<in> {kind_Hash, kind_Publisher, kind_Path} \<and> (rule_kind r \<noteq> kind_Path \<longrightarrow> hex64 (rule_value r))"

lemma Normalize_normal: "Normalize r = Inr n \<Longrightarrow> normal n \<and> rule_kind n = rule_kind r"
  by (auto simp: Normalize_def normal_def Let_def trim_rule_def kind_defs split: if_splits)

lemma builds_rules:
  assumes "\<forall>r \<in> set rs. normal r" "builds b fr sg kr ur fi"
  shows "builds (add_rules n rs b) (fr @ concat (map file_evts (enumerate n rs)))
    (sg @ concat (map publisher_evts (enumerate n rs))) kr (ur @ concat (map publisher_ids (enumerate n rs)))
    (fi @ concat (map file_ids (enumerate n rs)))"
  using assms
proof (induction n rs b arbitrary: fr sg ur fi rule: add_rules.induct)
  case (2 n r rs b)
  let ?b = "if rule_kind r = kind_Hash then
        b\<lparr>b_file_rules := b_file_rules b @ print_hash_rule n r, b_file_refs := b_file_refs b @ print_file_ref (hash_id n)\<rparr>
      else if rule_kind r = kind_Path then
        b\<lparr>b_file_rules := b_file_rules b @ print_path_rule n r, b_file_refs := b_file_refs b @ print_file_ref (path_id n)\<rparr>
      else if rule_kind r = kind_Publisher then
        b\<lparr>b_signers := b_signers b @ print_publisher n r, b_user_refs := b_user_refs b @ print_signer_ref (publisher_id n)\<rparr>
      else b"
  have v: "rule_kind r \<noteq> kind_Path \<Longrightarrow> plain (rule_value r)" using 2(2) by (simp add: normal_def plain_hex64)
  have "builds ?b (fr @ file_evts (n, r)) (sg @ publisher_evts (n, r)) kr (ur @ publisher_ids (n, r)) (fi @ file_ids (n, r))"
    using 2(3) v reads_hash_rule [of r n] reads_path_rule [of n r] reads_publisher [of r n]
      reads_file_ref [of "hash_id n"] reads_file_ref [of "path_id n"] reads_signer_ref [of "publisher_id n"]
    by (auto simp: builds_def file_evts_def publisher_evts_def publisher_ids_def file_ids_def kind_defs intro: reads_append)
  from 2(1) [OF _ this] 2(2) show ?case by simp
qed simp

definition document_evts :: "string \<Rightarrow> attrs list \<Rightarrow> xevt list \<Rightarrow> xevt list \<Rightarrow> string list \<Rightarrow> string list \<Rightarrow> string list \<Rightarrow> xevt list" where
  "document_evts mode ekus fr sg kr ur fi =
     (top_evts @ options_evts mode @ [Elem ''EKUs'' []] @ map (Elem ''EKU'') ekus @ [Elem ''/EKUs'' []]) @
     [Elem ''FileRules'' []] @ fr @ [Elem ''/FileRules'' []] @ [Elem ''Signers'' []] @ sg @ [Elem ''/Signers'' []] @
     [Elem ''SigningScenarios'' [],
      Elem ''SigningScenario'' [(''Value'', ''131''), (''ID'', kernel_mode), (''FriendlyName'', ''Kernel mode'')],
      Elem ''ProductSigners'' [], Elem ''AllowedSigners'' []] @ signer_ref_evts kr @
     [Elem ''/AllowedSigners'' [], Elem ''/ProductSigners'' [], Elem ''/SigningScenario'' [],
      Elem ''SigningScenario'' [(''Value'', ''12''), (''ID'', user_mode), (''FriendlyName'', ''User mode'')],
      Elem ''ProductSigners'' [], Elem ''AllowedSigners'' []] @ signer_ref_evts ur @ [Elem ''/AllowedSigners'' []] @
     (if fi = [] then [] else [Elem ''FileRulesRef'' []] @ file_ref_evts fi @ [Elem ''/FileRulesRef'' []]) @
     ([Elem ''/ProductSigners'' [], Elem ''/SigningScenario'' [], Elem ''/SigningScenarios'' [],
      Elem ''UpdatePolicySigners'' [], Elem ''CiSigners'' [], Elem ''CiSigner'' [(''SignerId'', ''ID_SIGNER_STORE'')],
      Elem ''/CiSigners'' []] @ text_evts ''HvciOptions'' ''0'' @ [Elem ''/SiPolicy'' []])"

lemma reads_document:
  assumes "builds b fr sg kr ur fi" and "b_file_refs b = [] \<longleftrightarrow> fi = []"
  shows "\<exists>ekus. reads (document mode b) (document_evts mode ekus fr sg kr ur fi)"
proof -
  from reads_ekus obtain ekus where e: "reads baselineEKUs (map (Elem ''EKU'') ekus)" by blast
  have "reads (if b_file_refs b \<noteq> [] then ''        <FileRulesRef>'' @ NL @ b_file_refs b @ ''        </FileRulesRef>'' @ NL else [])
    (if fi = [] then [] else [Elem ''FileRulesRef'' []] @ file_ref_evts fi @ [Elem ''/FileRulesRef'' []])"
    using reads_line [OF reads_tags(8) reads_append [OF _ reads_tags(9)], of "b_file_refs b" "file_ref_evts fi"] assms
    by (simp add: builds_def)
  with assms(1) e show ?thesis
    unfolding document_def document_evts_def doc_head_def builds_def
    by (intro exI [of _ ekus]) (intro reads_line reads_append reads_top reads_options reads_tags reads_kernel_open reads_user_open reads_tail; simp)
qed

section \<open>What a document allows\<close>

definition read_xml :: "string \<Rightarrow> xevt list" where
  "read_xml s = fst (xscan s (XText []))"

definition get :: "string \<Rightarrow> attrs \<Rightarrow> string" where
  "get a as = (case map_of as a of Some v \<Rightarrow> v | None \<Rightarrow> [])"

text \<open>The scenario an event is in, and the references to signers and file rules with their scenarios.\<close>

definition enter :: "string \<Rightarrow> xevt \<Rightarrow> string" where
  "enter sc e = (case e of
       Elem n as \<Rightarrow> if n = ''SigningScenario'' then get ''ID'' as else if n = ''/SigningScenario'' then [] else sc
     | Chars t \<Rightarrow> sc)"

definition ref_of :: "string \<Rightarrow> xevt \<Rightarrow> (string \<times> string \<times> string) list" where
  "ref_of sc e = (case e of
       Elem n as \<Rightarrow> if n = ''AllowedSigner'' then [(sc, ''signer'', get ''SignerId'' as)]
         else if n = ''FileRuleRef'' then [(sc, ''file'', get ''RuleID'' as)] else []
     | Chars t \<Rightarrow> [])"

fun refs :: "string \<Rightarrow> xevt list \<Rightarrow> (string \<times> string \<times> string) list" where
  "refs sc [] = []"
| "refs sc (e # es) = ref_of sc e @ refs (enter sc e) es"

text \<open>The certificate roots of the signers, with the signer's identifier.\<close>

definition signer_enter :: "string \<Rightarrow> xevt \<Rightarrow> string" where
  "signer_enter i e = (case e of Elem n as \<Rightarrow> if n = ''Signer'' then get ''ID'' as else i | Chars t \<Rightarrow> i)"

definition root_of :: "string \<Rightarrow> xevt \<Rightarrow> (string \<times> string \<times> string) list" where
  "root_of i e = (case e of
     Elem n as \<Rightarrow> if n = ''CertRoot'' then [(i, get ''Type'' as, get ''Value'' as)] else [] | Chars t \<Rightarrow> [])"

fun roots :: "string \<Rightarrow> xevt list \<Rightarrow> (string \<times> string \<times> string) list" where
  "roots i [] = []"
| "roots i (e # es) = root_of i e @ roots (signer_enter i e) es"

definition allow_of :: "xevt \<Rightarrow> attrs list" where
  "allow_of e = (case e of Elem n as \<Rightarrow> if n = ''Allow'' then [as] else [] | Chars t \<Rightarrow> [])"

definition allows :: "xevt list \<Rightarrow> attrs list" where
  "allows es = concat (map allow_of es)"

text \<open>
  The values of an attribute of the Allow elements a scenario refers to, and the
  certificate roots of the signers a scenario allows.
\<close>

definition allowed_files :: "string \<Rightarrow> string \<Rightarrow> xevt list \<Rightarrow> string list" where
  "allowed_files sc a es = map (get a) (filter (\<lambda>as. a \<in> fst ` set as \<and> (sc, ''file'', get ''ID'' as) \<in> set (refs [] es)) (allows es))"

definition allowed_roots :: "string \<Rightarrow> xevt list \<Rightarrow> (string \<times> string) list" where
  "allowed_roots sc es = map snd (filter (\<lambda>x. (sc, ''signer'', fst x) \<in> set (refs [] es)) (roots [] es))"

definition audit_only :: "xevt list \<Rightarrow> bool" where
  "audit_only es \<longleftrightarrow> Chars ''Enabled:Audit Mode'' \<in> set es"

subsection \<open>Reading the parts\<close>

lemma refs_append: "refs sc (a @ b) = refs sc a @ refs (foldl enter sc a) b"
  by (induction a arbitrary: sc) simp_all

lemma roots_append: "roots i (a @ b) = roots i a @ roots (foldl signer_enter i a) b"
  by (induction a arbitrary: i) simp_all

lemma allows_append [simp]:
  "allows (a @ b) = allows a @ allows b" "allows [] = []" "allows (e # es) = allow_of e @ allows es"
  by (simp_all add: allows_def)

text \<open>Events that mean nothing to the three readings.\<close>

definition neutral :: "xevt \<Rightarrow> bool" where
  "neutral e \<longleftrightarrow> (case e of
     Elem n as \<Rightarrow> n \<notin> {''SigningScenario'', ''/SigningScenario'', ''AllowedSigner'', ''FileRuleRef''} | Chars t \<Rightarrow> True)"

definition unsigned :: "xevt \<Rightarrow> bool" where
  "unsigned e \<longleftrightarrow> (case e of Elem n as \<Rightarrow> n \<notin> {''Signer'', ''CertRoot''} | Chars t \<Rightarrow> True)"

definition silent :: "xevt \<Rightarrow> bool" where
  "silent e \<longleftrightarrow> (case e of Elem n as \<Rightarrow> n \<noteq> ''Allow'' | Chars t \<Rightarrow> True)"

lemma refs_neutral: "list_all neutral es \<Longrightarrow> refs sc es = [] \<and> foldl enter sc es = sc"
  by (induction es) (auto simp: neutral_def enter_def ref_of_def split: xevt.splits)

lemma roots_unsigned: "list_all unsigned es \<Longrightarrow> roots i es = [] \<and> foldl signer_enter i es = i"
  by (induction es) (auto simp: unsigned_def signer_enter_def root_of_def split: xevt.splits)

lemma allows_silent: "list_all silent es \<Longrightarrow> allows es = []"
  by (induction es) (auto simp: silent_def allow_of_def split: xevt.splits)

lemma refs_signers: "refs sc (signer_ref_evts is) = map (\<lambda>i. (sc, ''signer'', i)) is \<and> foldl enter sc (signer_ref_evts is) = sc"
  by (induction "is") (simp_all add: signer_ref_evts_def ref_of_def enter_def get_def)

lemma refs_files: "refs sc (file_ref_evts is) = map (\<lambda>i. (sc, ''file'', i)) is \<and> foldl enter sc (file_ref_evts is) = sc"
  by (induction "is") (simp_all add: file_ref_evts_def ref_of_def enter_def get_def)

lemma list_all_ref_evts [simp]:
  "list_all unsigned (signer_ref_evts is)" "list_all unsigned (file_ref_evts is)"
  "list_all silent (signer_ref_evts is)" "list_all silent (file_ref_evts is)"
  by (auto simp: signer_ref_evts_def file_ref_evts_def list_all_iff unsigned_def silent_def)

lemma list_all_ekus [simp]:
  "list_all neutral (map (Elem ''EKU'') as)" "list_all unsigned (map (Elem ''EKU'') as)" "list_all silent (map (Elem ''EKU'') as)"
  by (auto simp: list_all_iff neutral_def unsigned_def silent_def)

lemma list_all_head:
  "list_all neutral (top_evts @ options_evts mode)" "list_all unsigned (top_evts @ options_evts mode)"
  "list_all silent (top_evts @ options_evts mode)"
  by (simp_all add: top_evts_def options_evts_def text_evts_def option_evts_def neutral_def unsigned_def silent_def)

text \<open>The three readings of a whole document.\<close>

lemma document_refs:
  assumes "list_all neutral fr" "list_all neutral sg"
  shows "refs [] (document_evts mode ekus fr sg kr ur fi) =
    map (\<lambda>i. (kernel_mode, ''signer'', i)) kr @ map (\<lambda>i. (user_mode, ''signer'', i)) ur @ map (\<lambda>i. (user_mode, ''file'', i)) fi"
  using list_all_head(1) [of mode] assms
  unfolding document_evts_def
  by (simp add: refs_append refs_neutral refs_signers refs_files enter_def ref_of_def get_def text_evts_def)

lemma document_roots:
  assumes "list_all unsigned fr"
  shows "roots [] (document_evts mode ekus fr sg kr ur fi) = roots [] sg"
  using list_all_head(2) [of mode] assms
  unfolding document_evts_def
  by (simp add: roots_append roots_unsigned signer_enter_def root_of_def get_def text_evts_def)

lemma document_allows:
  assumes "list_all silent sg"
  shows "allows (document_evts mode ekus fr sg kr ur fi) = allows fr"
  using list_all_head(3) [of mode] assms
  unfolding document_evts_def
  by (simp add: allows_silent allow_of_def text_evts_def)

subsection \<open>The compiled document\<close>

lemma normalize_all_ok:
  "normalize_all rs = Inr ns \<Longrightarrow> set ns = {n. \<exists>r \<in> set rs. Normalize r = Inr n} \<and> (\<forall>n \<in> set ns. normal n)"
  by (induction rs arbitrary: ns) (auto split: sum.splits dest: Normalize_normal)

lemma file_refs_printed:
  "b_file_refs (add_rules n rs b) = b_file_refs b @ concat (map print_file_ref (concat (map file_ids (enumerate n rs))))"
  by (induction n rs b rule: add_rules.induct) (simp_all add: file_ids_def)

definition kernel_ids :: "string list" where "kernel_ids = map bs_id (filter bs_kernel baselineSigners)"
definition user_ids :: "string list" where "user_ids = map bs_id (filter (Not \<circ> bs_kernel) baselineSigners)"

lemma compiled_events:
  assumes "sorts srt" "Compile srt p = Inr xml"
  obtains ns ekus where "normalize_all (wp_rules p) = Inr ns"
    "read_xml xml = document_evts (wp_mode p) ekus (concat (map file_evts (enumerate 0 (srt ns))))
       (concat (map signer_evts baselineSigners) @ concat (map publisher_evts (enumerate 0 (srt ns))))
       kernel_ids (user_ids @ concat (map publisher_ids (enumerate 0 (srt ns)))) (concat (map file_ids (enumerate 0 (srt ns))))"
proof -
  let ?base = "fold add_baseline baselineSigners no_builders"
  from assms(2) obtain ns where ns: "normalize_all (wp_rules p) = Inr ns"
    and xml: "xml = document (wp_mode p) (add_rules 0 (srt ns) ?base)"
    by (auto simp: Compile_def split: sum.splits)
  have norm: "\<forall>r \<in> set (srt ns). normal r" using normalize_all_ok [OF ns] sorts_set [OF assms(1)] by simp
  have nb: "builds no_builders [] [] [] [] []" by (simp add: builds_def no_builders_def)
  have fr: "b_file_refs ?base = []"
  proof -
    have "b_file_refs (fold add_baseline ss b) = b_file_refs b" for ss b
      by (induction ss arbitrary: b) (simp_all add: add_baseline_def Let_def)
    then show ?thesis by (simp add: no_builders_def)
  qed
  have "builds ?base [] (concat (map signer_evts baselineSigners)) kernel_ids user_ids []"
    using builds_baseline [OF baseline_readable nb] by (simp add: kernel_ids_def user_ids_def)
  from builds_rules [OF norm this, of 0] have b: "builds (add_rules 0 (srt ns) ?base) (concat (map file_evts (enumerate 0 (srt ns))))
       (concat (map signer_evts baselineSigners) @ concat (map publisher_evts (enumerate 0 (srt ns))))
       kernel_ids (user_ids @ concat (map publisher_ids (enumerate 0 (srt ns)))) (concat (map file_ids (enumerate 0 (srt ns))))"
    by simp
  have "b_file_refs (add_rules 0 (srt ns) ?base) = [] \<longleftrightarrow> concat (map file_ids (enumerate 0 (srt ns))) = []"
  proof -
    have "concat (map print_file_ref ids) = [] \<longleftrightarrow> ids = []" for ids
      by (cases ids) (simp_all add: print_file_ref_def)
    then show ?thesis unfolding file_refs_printed fr by simp
  qed
  from reads_document [OF b this, of "wp_mode p"] obtain ekus where "reads xml (document_evts (wp_mode p) ekus
       (concat (map file_evts (enumerate 0 (srt ns))))
       (concat (map signer_evts baselineSigners) @ concat (map publisher_evts (enumerate 0 (srt ns))))
       kernel_ids (user_ids @ concat (map publisher_ids (enumerate 0 (srt ns)))) (concat (map file_ids (enumerate 0 (srt ns)))))"
    unfolding xml by blast
  with ns show thesis by (intro that) (simp_all add: reads_def read_xml_def)
qed

lemma evts_quiet:
  "list_all neutral (concat (map file_evts xs))" "list_all unsigned (concat (map file_evts xs))"
  "list_all neutral (concat (map publisher_evts xs))" "list_all silent (concat (map publisher_evts xs))"
  "list_all neutral (concat (map signer_evts ss))" "list_all silent (concat (map signer_evts ss))"
  by (auto simp: list_all_iff file_evts_def publisher_evts_def signer_evts_def neutral_def unsigned_def silent_def
      split: prod.splits if_splits)

lemma roots_baseline:
  "roots i (concat (map signer_evts ss) @ es) =
     map (\<lambda>s. (bs_id s, root_type (bs_root s), root_value (bs_root s))) ss @
     roots (foldl signer_enter i (concat (map signer_evts ss))) es"
  unfolding roots_append
  by (induction ss arbitrary: i) (simp_all add: roots_append signer_evts_def root_of_def signer_enter_def get_def)

lemma roots_publishers:
  "roots i (concat (map publisher_evts xs)) =
     map (\<lambda>(n, r). (publisher_id n, ''TBS'', rule_value r)) (filter (\<lambda>(n, r). rule_kind r = kind_Publisher) xs)"
  by (induction xs arbitrary: i) (auto simp: roots_append publisher_evts_def root_of_def signer_enter_def get_def)

lemma allows_files: "set (allows (concat (map file_evts xs))) = (\<Union>x \<in> set xs. set (allows (file_evts x)))"
  by (induction xs) simp_all

lemma id_inject:
  "publisher_id n \<notin> set kernel_ids" "publisher_id n \<notin> set user_ids"
  by (auto simp: publisher_id_def kernel_ids_def user_ids_def baselineSigners_def signer_def)

text \<open>The baseline, evaluated.\<close>

definition kernel_roots :: "(string \<times> string) set" where
  "kernel_roots = {(''Wellknown'', ''04''), (''Wellknown'', ''05''), (''Wellknown'', ''06''), (''Wellknown'', ''0E'')}"

definition user_roots :: "(string \<times> string) set" where
  "user_roots = kernel_roots \<union> {(''Wellknown'', ''07''), (''Wellknown'', ''0C''),
     (''TBS'', ''FC9EDE3DCCA09186B2D3BF9B738A2050CB1A554DA2DCADB55F3F72EE17721378'')}"

definition baseline_roots :: "(string \<times> string \<times> string) list" where
  "baseline_roots = map (\<lambda>s. (bs_id s, root_type (bs_root s), root_value (bs_root s))) baselineSigners"

lemma kernel_roots_baseline: "snd ` {x \<in> set baseline_roots. fst x \<in> set kernel_ids} = kernel_roots"
proof -
  have "remdups (map snd (filter (\<lambda>x. fst x \<in> set kernel_ids) baseline_roots)) =
      [(''Wellknown'', ''06''), (''Wellknown'', ''05''), (''Wellknown'', ''04''), (''Wellknown'', ''0E'')]"
    by code_simp
  from this [THEN arg_cong, of set] show ?thesis by (auto simp: kernel_roots_def)
qed

lemma user_roots_baseline: "snd ` {x \<in> set baseline_roots. fst x \<in> set user_ids} = user_roots"
proof -
  have "remdups (map snd (filter (\<lambda>x. fst x \<in> set user_ids) baseline_roots)) =
      [(''Wellknown'', ''05''), (''Wellknown'', ''04''),
       (''TBS'', ''FC9EDE3DCCA09186B2D3BF9B738A2050CB1A554DA2DCADB55F3F72EE17721378''), (''Wellknown'', ''0E''),
       (''Wellknown'', ''0C''), (''Wellknown'', ''06''), (''Wellknown'', ''07'')]"
    by code_simp
  from this [THEN arg_cong, of set] show ?thesis by (auto simp: kernel_roots_def user_roots_def)
qed

lemma baseline_ids: "(i, t) \<in> set baseline_roots \<Longrightarrow> i \<in> set kernel_ids \<or> i \<in> set user_ids"
  by (auto simp: baseline_roots_def kernel_ids_def user_ids_def)

subsection \<open>The two theorems\<close>

text \<open>The values a rule set asks for, of one kind.\<close>

definition rule_values :: "string \<Rightarrow> rule list \<Rightarrow> string set" where
  "rule_values k rs = {rule_value n | n. rule_kind n = k \<and> (\<exists>r \<in> set rs. Normalize r = Inr n)}"

lemma enumerate_values:
  assumes "sorts srt" "normalize_all rs = Inr ns"
  shows "{rule_value r | n r. (n, r) \<in> set (enumerate 0 (srt ns)) \<and> rule_kind r = k} = rule_values k rs"
proof -
  have "snd ` set (enumerate 0 (srt ns)) = set (srt ns)"
    by (metis list.set_map map_snd_enumerate)
  then have "(\<exists>n. (n, r) \<in> set (enumerate 0 (srt ns))) \<longleftrightarrow> r \<in> set (srt ns)" for r by force
  then show ?thesis
    using sorts_set [OF assms(1), of ns] normalize_all_ok [OF assms(2)] by (fastforce simp: rule_values_def)
qed

text \<open>The events of the document of the rules \<open>xs\<close>, numbered.\<close>

definition compiled_evts :: "string \<Rightarrow> attrs list \<Rightarrow> (nat \<times> rule) list \<Rightarrow> xevt list" where
  "compiled_evts mode ekus xs = document_evts mode ekus (concat (map file_evts xs))
     (concat (map signer_evts baselineSigners) @ concat (map publisher_evts xs))
     kernel_ids (user_ids @ concat (map publisher_ids xs)) (concat (map file_ids xs))"

lemma modes_differ [simp]: "user_mode \<noteq> kernel_mode" "kernel_mode \<noteq> user_mode"
  by (simp_all add: user_mode_def kernel_mode_def)

lemma compiled_refs:
  "refs [] (compiled_evts mode ekus xs) = map (\<lambda>i. (kernel_mode, ''signer'', i)) kernel_ids @
     map (\<lambda>i. (user_mode, ''signer'', i)) (user_ids @ concat (map publisher_ids xs)) @
     map (\<lambda>i. (user_mode, ''file'', i)) (concat (map file_ids xs))"
  unfolding compiled_evts_def by (rule document_refs) (simp_all add: evts_quiet)

lemma compiled_allows: "allows (compiled_evts mode ekus xs) = allows (concat (map file_evts xs))"
  unfolding compiled_evts_def by (rule document_allows) (simp add: evts_quiet)

lemma file_referenced: "as \<in> set (allows (file_evts x)) \<Longrightarrow> get ''ID'' as \<in> set (file_ids x)"
  by (cases x) (simp add: file_evts_def file_ids_def allow_of_def get_def split: if_splits)

lemma compiled_ref:
  "(user_mode, ''file'', i) \<in> set (refs [] (compiled_evts mode ekus xs)) \<longleftrightarrow> (\<exists>x \<in> set xs. i \<in> set (file_ids x))"
  "(kernel_mode, ''file'', i) \<notin> set (refs [] (compiled_evts mode ekus xs))"
  "(user_mode, ''signer'', i) \<in> set (refs [] (compiled_evts mode ekus xs)) \<longleftrightarrow>
     i \<in> set user_ids \<or> (\<exists>x \<in> set xs. i \<in> set (publisher_ids x))"
  "(kernel_mode, ''signer'', i) \<in> set (refs [] (compiled_evts mode ekus xs)) \<longleftrightarrow> i \<in> set kernel_ids"
  unfolding compiled_refs by auto

lemma compiled_files:
  "set (allowed_files user_mode ''Hash'' (compiled_evts mode ekus xs)) = {rule_value r | n r. (n, r) \<in> set xs \<and> rule_kind r = kind_Hash}"
  "set (allowed_files user_mode ''FilePath'' (compiled_evts mode ekus xs)) = {rule_value r | n r. (n, r) \<in> set xs \<and> rule_kind r = kind_Path}"
  "allowed_files kernel_mode a (compiled_evts mode ekus xs) = []"
proof -
  have fi: "set (allowed_files user_mode a (compiled_evts mode ekus xs)) =
      (\<Union>x \<in> set xs. get a ` {as \<in> set (allows (file_evts x)). a \<in> fst ` set as})" for a
    unfolding allowed_files_def compiled_ref compiled_allows set_map set_filter allows_files
    using file_referenced by blast
  have one: "get ''Hash'' ` {as \<in> set (allows (file_evts (n, r))). ''Hash'' \<in> fst ` set as} =
      (if rule_kind r = kind_Hash then {rule_value r} else {})"
    "get ''FilePath'' ` {as \<in> set (allows (file_evts (n, r))). ''FilePath'' \<in> fst ` set as} =
      (if rule_kind r = kind_Path then {rule_value r} else {})" for n r
    by (auto simp: file_evts_def allow_of_def get_def kind_defs)
  have all: "(\<Union>x \<in> set xs. f x) = {rule_value r | n r. (n, r) \<in> set xs \<and> rule_kind r = k}"
    if "\<And>n r. f (n, r) = (if rule_kind r = k then {rule_value r} else {})" for f k
    using that by (force split: if_splits)
  show "set (allowed_files user_mode ''Hash'' (compiled_evts mode ekus xs)) = {rule_value r | n r. (n, r) \<in> set xs \<and> rule_kind r = kind_Hash}"
    "set (allowed_files user_mode ''FilePath'' (compiled_evts mode ekus xs)) = {rule_value r | n r. (n, r) \<in> set xs \<and> rule_kind r = kind_Path}"
    unfolding fi by (rule all, rule one)+
  show "allowed_files kernel_mode a (compiled_evts mode ekus xs) = []"
    by (simp add: allowed_files_def compiled_ref)
qed

lemma compiled_all_roots:
  "set (roots [] (compiled_evts mode ekus xs)) =
     set baseline_roots \<union> {(publisher_id n, ''TBS'', rule_value r) | n r. (n, r) \<in> set xs \<and> rule_kind r = kind_Publisher}"
proof -
  have "roots [] (compiled_evts mode ekus xs) =
      roots [] (concat (map signer_evts baselineSigners) @ concat (map publisher_evts xs))"
    unfolding compiled_evts_def by (rule document_roots) (simp add: evts_quiet)
  then show ?thesis by (auto simp: roots_baseline roots_publishers baseline_roots_def)
qed

definition publisher_roots :: "(nat \<times> rule) list \<Rightarrow> (string \<times> string \<times> string) set" where
  "publisher_roots xs = {(publisher_id n, ''TBS'', rule_value r) | n r. (n, r) \<in> set xs \<and> rule_kind r = kind_Publisher}"

lemma publisher_refs: "(\<exists>x \<in> set xs. i \<in> set (publisher_ids x)) \<longleftrightarrow> i \<in> fst ` publisher_roots xs"
proof -
  have "i \<in> set (publisher_ids (n, r)) \<longleftrightarrow> rule_kind r = kind_Publisher \<and> i = publisher_id n" for n r
    by (auto simp: publisher_ids_def)
  then have "(\<exists>x \<in> set xs. i \<in> set (publisher_ids x)) \<longleftrightarrow> (\<exists>n r. (n, r) \<in> set xs \<and> rule_kind r = kind_Publisher \<and> i = publisher_id n)"
    by (metis surj_pair)
  also have "\<dots> \<longleftrightarrow> i \<in> fst ` publisher_roots xs" by (force simp: publisher_roots_def)
  finally show ?thesis .
qed

lemma publisher_not_baseline:
  assumes "i \<in> fst ` publisher_roots xs"
  shows "i \<notin> fst ` set baseline_roots" "i \<notin> set kernel_ids"
proof -
  from assms obtain n where i: "i = publisher_id n" by (auto simp: publisher_roots_def)
  show "i \<notin> set kernel_ids" using id_inject(1) i by simp
  show "i \<notin> fst ` set baseline_roots" using id_inject [of n] baseline_ids unfolding i by force
qed

lemma allowed_user: "set (allowed_roots user_mode (compiled_evts mode ekus xs)) =
    snd ` {x \<in> set baseline_roots \<union> publisher_roots xs. fst x \<in> set user_ids \<or> fst x \<in> fst ` publisher_roots xs}"
  unfolding allowed_roots_def compiled_ref publisher_refs set_map set_filter compiled_all_roots publisher_roots_def [symmetric] ..

lemma allowed_kernel: "set (allowed_roots kernel_mode (compiled_evts mode ekus xs)) =
    snd ` {x \<in> set baseline_roots \<union> publisher_roots xs. fst x \<in> set kernel_ids}"
  unfolding allowed_roots_def compiled_ref set_map set_filter compiled_all_roots publisher_roots_def [symmetric] ..

lemma publisher_root_values:
  "snd ` publisher_roots xs = Pair ''TBS'' ` {rule_value r | n r. (n, r) \<in> set xs \<and> rule_kind r = kind_Publisher}"
  unfolding publisher_roots_def image_Collect image_def by (simp, blast)

lemma split_refs:
  assumes "fst ` A \<inter> fst ` B = {}"
  shows "{x \<in> A \<union> B. fst x \<in> I \<or> fst x \<in> fst ` B} = {x \<in> A. fst x \<in> I} \<union> B"
  using assms by blast

lemma compiled_roots:
  "set (allowed_roots user_mode (compiled_evts mode ekus xs)) =
     user_roots \<union> Pair ''TBS'' ` {rule_value r | n r. (n, r) \<in> set xs \<and> rule_kind r = kind_Publisher}"
  "set (allowed_roots kernel_mode (compiled_evts mode ekus xs)) = kernel_roots"
proof -
  have u: "fst ` set baseline_roots \<inter> fst ` publisher_roots xs = {}"
    using publisher_not_baseline(1) [of _ xs] by blast
  have k: "{x \<in> set baseline_roots \<union> publisher_roots xs. fst x \<in> set kernel_ids} = {x \<in> set baseline_roots. fst x \<in> set kernel_ids}"
    using publisher_not_baseline(2) [of _ xs] by blast
  show "set (allowed_roots user_mode (compiled_evts mode ekus xs)) =
     user_roots \<union> Pair ''TBS'' ` {rule_value r | n r. (n, r) \<in> set xs \<and> rule_kind r = kind_Publisher}"
    by (simp only: allowed_user split_refs [OF u] image_Un user_roots_baseline publisher_root_values)
  show "set (allowed_roots kernel_mode (compiled_evts mode ekus xs)) = kernel_roots"
    by (simp only: allowed_kernel k kernel_roots_baseline)
qed

lemma compiled_audit: "audit_only (compiled_evts mode ekus xs) = (mode \<noteq> ''enforce'')"
proof -
  have "Chars t \<notin> set (concat (map file_evts xs))" "Chars t \<notin> set (concat (map publisher_evts xs))"
    "Chars t \<notin> set (concat (map signer_evts ss))" "Chars t \<notin> set (signer_ref_evts is)" "Chars t \<notin> set (file_ref_evts is)" for t ss "is"
    by (auto simp: file_evts_def publisher_evts_def signer_evts_def signer_ref_evts_def file_ref_evts_def split: if_splits)
  then show ?thesis
    by (auto simp: audit_only_def compiled_evts_def document_evts_def top_evts_def options_evts_def option_evts_def text_evts_def
        basePolicyGUID_def platformID_def)
qed

lemma compiled_meaning:
  assumes "sorts sort_Slice" and "Compile sort_Slice p = Inr xml"
  shows "set (allowed_files user_mode ''Hash'' (read_xml xml)) = rule_values kind_Hash (wp_rules p) \<and>
    set (allowed_files user_mode ''FilePath'' (read_xml xml)) = rule_values kind_Path (wp_rules p) \<and>
    allowed_files kernel_mode ''Hash'' (read_xml xml) = [] \<and> allowed_files kernel_mode ''FilePath'' (read_xml xml) = [] \<and>
    set (allowed_roots user_mode (read_xml xml)) = user_roots \<union> Pair ''TBS'' ` rule_values kind_Publisher (wp_rules p) \<and>
    set (allowed_roots kernel_mode (read_xml xml)) = kernel_roots \<and>
    audit_only (read_xml xml) = (wp_mode p \<noteq> ''enforce'')"
proof -
  from compiled_events [OF assms] obtain ns ekus where ns: "normalize_all (wp_rules p) = Inr ns"
    and es: "read_xml xml = compiled_evts (wp_mode p) ekus (enumerate 0 (sort_Slice ns))" by (auto simp: compiled_evts_def)
  have v: "rule_values k (wp_rules p) = {rule_value r | n r. (n, r) \<in> set (enumerate 0 (sort_Slice ns)) \<and> rule_kind r = k}" for k
    using enumerate_values [OF assms(1) ns, of k] by simp
  show ?thesis unfolding es v by (simp add: compiled_files compiled_roots compiled_audit)
qed


text \<open>A rule of each kind; the description of the first tries to close its element and add an option.\<close>

definition demo_rule :: "string \<Rightarrow> string \<Rightarrow> string \<Rightarrow> rule" where
  "demo_rule k v t = \<lparr>rule_kind = k, rule_value = v, rule_publisher = [], rule_description = t\<rparr>"

definition demo_policy :: wdac_policy where
  \<open>demo_policy = \<lparr>wp_mode = ''enforce'', wp_rules =
     [demo_rule ''hash'' (replicate 64 CHR ''a'') ''x"/><Rule><Option>Enabled:Audit Mode</Option></Rule>'',
      demo_rule ''publisher'' (replicate 64 CHR ''b'') [], demo_rule ''path'' (''C:'' @ [BSL] @ ''Tools'' @ wildcard) []]\<rparr>\<close>

lemma demo_normalized: \<open>normalize_all (wp_rules demo_policy) = Inr
   [demo_rule ''hash'' (replicate 64 CHR ''A'') ''x"/><Rule><Option>Enabled:Audit Mode</Option></Rule>'',
    demo_rule ''publisher'' (replicate 64 CHR ''B'') [], demo_rule ''path'' (''C:'' @ [BSL] @ ''Tools'' @ wildcard) []]\<close>
  by code_simp


section \<open>Deterministic output\<close>

lemma normalize_all_mset:
  assumes "normalize_all rs = Inr ns" "mset rs' = mset rs"
  shows "\<exists>ns'. normalize_all rs' = Inr ns' \<and> mset ns' = mset ns"
proof -
  have map: "normalize_all xs = Inr (map (projr \<circ> Normalize) xs)" if "\<forall>r \<in> set xs. is_ok (Normalize r)" for xs
    using that by (induction xs) auto
  have ok: "\<forall>r \<in> set rs. is_ok (Normalize r)"
    using assms(1) by (induction rs arbitrary: ns) (auto split: sum.splits)
  moreover have "\<forall>r \<in> set rs'. is_ok (Normalize r)" using ok assms(2) by (metis set_mset_mset)
  ultimately show ?thesis using map [of rs] map [of rs'] assms by simp
qed

text \<open>
  Compilation is deterministic. The same rules in any order, sorted by any correct
  sorting function, give byte-identical XML and so the same version, provided no two
  rules have the same kind and the same normalised value.
\<close>

theorem compile_deterministic:
  assumes "sorts f" and "sorts g" and "mset rs' = mset rs"
    and "normalize_all rs = Inr ns" and "distinct (map rule_key ns)"
  shows "Compile g \<lparr>wp_mode = mode, wp_rules = rs'\<rparr> = Compile f \<lparr>wp_mode = mode, wp_rules = rs\<rparr> \<and>
    is_ok (Compile f \<lparr>wp_mode = mode, wp_rules = rs\<rparr>)"
proof -
  from normalize_all_mset [OF assms(4,3)] obtain ns' where ns': "normalize_all rs' = Inr ns'" "mset ns' = mset ns" by blast
  have "f ns = g ns'" by (rule sorts_unique) (simp_all add: assms ns')
  with ns' assms(4) show ?thesis by (simp add: Compile_def)
qed

theorem compile_deterministic_witness:
  "Compile (sort_key rule_key) (demo_policy\<lparr>wp_rules := rev (wp_rules demo_policy)\<rparr>) = Compile (sort_key rule_key) demo_policy"
proof -
  have "distinct (map rule_key [demo_rule ''hash'' a x, demo_rule ''publisher'' b y, demo_rule ''path'' c z])" for a b c x y z
    by (simp add: rule_key_def demo_rule_def)
  with compile_deterministic [OF sort_key_sorts sort_key_sorts _ demo_normalized, of "rev (wp_rules demo_policy)" "wp_mode demo_policy"]
  show ?thesis by (simp add: demo_policy_def)
qed

section \<open>Normalisation\<close>

lemma dropWhile_idem [simp]: "dropWhile P (dropWhile P s) = dropWhile P s"
  by (induction s) auto

lemma dropWhile_hd: "s = [] \<or> \<not> P (hd s) \<Longrightarrow> dropWhile P s = s"
  by (cases s) auto

lemma TrimSpace_ends: "(s = [] \<or> \<not> is_space (hd s) \<and> \<not> is_space (last s)) \<Longrightarrow> TrimSpace s = s"
  using dropWhile_hd [of s is_space] dropWhile_hd [of "rev s" is_space] by (auto simp: TrimSpace_def hd_rev)

lemma TrimSpace_idem [simp]: "TrimSpace (TrimSpace s) = TrimSpace s"
proof (rule TrimSpace_ends)
  let ?a = "dropWhile is_space s" and ?t = "TrimSpace s"
  show "?t = [] \<or> \<not> is_space (hd ?t) \<and> \<not> is_space (last ?t)"
  proof (cases "?t = []")
    case False
    then have ne: "dropWhile is_space (rev ?a) \<noteq> []" by (simp add: TrimSpace_def)
    then have l: "\<not> is_space (last ?t)" using hd_dropWhile [OF ne] by (simp add: TrimSpace_def last_rev)
    have "?a \<noteq> []" using ne by (metis dropWhile.simps(1) rev.simps(1))
    moreover have "hd ?t = hd ?a"
    proof -
      obtain w where "rev ?a = w @ dropWhile is_space (rev ?a)" using takeWhile_dropWhile_id by metis
      then have "?a = ?t @ rev w" unfolding TrimSpace_def by (metis rev_append rev_rev_ident)
      with False show ?thesis by (metis hd_append2)
    qed
    ultimately have "\<not> is_space (hd ?t)" using hd_dropWhile [of is_space s] by simp
    with l show ?thesis by simp
  qed simp
qed

lemma upper_hex: "hex_upper c \<Longrightarrow> \<not> is_space c \<and> upper_char c = c"
  by (auto simp: hex_upper_def is_digit_def is_space_def upper_char_def is_lower_def char_defs less_eq_char_def)

lemma hex64_fixed:
  assumes "hex64 s"
  shows "TrimSpace s = s \<and> ToUpper s = s"
proof -
  from assms have all: "\<And>c. c \<in> set s \<Longrightarrow> hex_upper c" and "s \<noteq> []" by (auto simp: hex64_def list_all_iff)
  then have "TrimSpace s = s" using upper_hex by (intro TrimSpace_ends) simp
  moreover have "ToUpper s = s" using all upper_hex by (auto simp: ToUpper_def intro: map_idI)
  ultimately show ?thesis by blast
qed

lemma Normalize_idem: "Normalize r = Inr n \<Longrightarrow> Normalize n = Inr n"
  by (auto simp: Normalize_def Let_def trim_rule_def kind_defs hex64_fixed split: if_splits)

lemma normalize_normal:
  assumes "\<forall>r \<in> set rs. Normalize r = Inr r"
  shows "normalize_all rs = Inr rs"
  using assms by (induction rs) simp_all

end
