(* ===== verification/Policies.thy ===== *)
theory Policies
  imports Devices Wdac
begin

text \<open>
  Application-control policies on the server: the tables (\<^verbatim>\<open>store/policies.go\<close>), the
  service that compiles and signs them and resolves the policy of a device
  (\<^verbatim>\<open>policysvc/policysvc.go\<close>), and the console handlers (\<^verbatim>\<open>httpapi/policies.go\<close>).
  Ed25519, SHA-256, the per-tenant keys and the sorting function are parameters.
\<close>

section \<open>The tables\<close>

definition policy_in :: "uuid \<Rightarrow> uuid \<Rightarrow> db \<Rightarrow> bool" where
  "policy_in tenantID i d \<longleftrightarrow> (\<exists>p \<in> set (policies d). po_tenant p = tenantID \<and> po_id p = i)"

definition policy_exists :: "uuid \<Rightarrow> db \<Rightarrow> bool" where
  "policy_exists i d \<longleftrightarrow> i \<in> po_id ` set (policies d)"

definition valid_mode :: "string \<Rightarrow> bool" where
  "valid_mode m \<longleftrightarrow> m = ''audit'' \<or> m = ''enforce''"

definition insert_policy_stmt :: "uuid \<Rightarrow> uuid \<Rightarrow> string \<Rightarrow> string \<Rightarrow> db \<Rightarrow> unit res \<times> db" where
  "insert_policy_stmt i tenantID name mode d =
     (if \<not> valid_mode mode then (Inl (PgError ''23514''), d)
      else if policy_exists i d \<or> (\<exists>p \<in> set (policies d). po_tenant p = tenantID \<and> po_name p = name)
      then (Inl (PgError ''23505''), d)
      else if \<not> tenant_exists tenantID d then (Inl (PgError ''23503''), d)
      else (Inr (), d\<lparr>policies := policies d @ [\<lparr>po_id = i, po_tenant = tenantID, po_name = name, po_mode = mode,
              po_created_at = now_db d\<rparr>]\<rparr>))"

definition CreatePolicy :: "uuid \<Rightarrow> string \<Rightarrow> string \<Rightarrow> db \<Rightarrow> uuid res \<times> db" where
  "CreatePolicy tenantID name mode d =
     (let m = (if mode = [] then ''audit'' else mode); (i, d0) = new_uuid d;
          (r, d1) = pool (insert_policy_stmt i tenantID name m) d0
      in (case conflict r of Inl e \<Rightarrow> Inl e | Inr _ \<Rightarrow> Inr i, d1))"

definition ListPolicies :: "uuid \<Rightarrow> db \<Rightarrow> policy_row list res \<times> db" where
  "ListPolicies tenantID = pool (\<lambda>d. (Inr (sort_key po_name (filter (\<lambda>p. po_tenant p = tenantID) (policies d))), d))"

definition GetPolicy :: "uuid \<Rightarrow> uuid \<Rightarrow> db \<Rightarrow> policy_row res \<times> db" where
  "GetPolicy tenantID i = pool (lookup policies (\<lambda>p. po_tenant p = tenantID \<and> po_id p = i) (\<lambda>p. p))"

definition set_mode_stmt :: "uuid \<Rightarrow> uuid \<Rightarrow> string \<Rightarrow> db \<Rightarrow> unit res \<times> db" where
  "set_mode_stmt tenantID i mode d =
     (let P = (\<lambda>p. po_tenant p = tenantID \<and> po_id p = i) in
      if policy_in tenantID i d \<and> \<not> valid_mode mode then (Inl (PgError ''23514''), d)
      else (oneRow (Inr (rows_affected P (policies d))),
            d\<lparr>policies := update_where P (\<lambda>p. p\<lparr>po_mode := mode\<rparr>) (policies d)\<rparr>))"

definition SetPolicyMode :: "uuid \<Rightarrow> uuid \<Rightarrow> string \<Rightarrow> db \<Rightarrow> unit res \<times> db" where
  "SetPolicyMode tenantID i mode = pool (set_mode_stmt tenantID i mode)"

text \<open>Deleting a policy takes its rules, versions, assignments and approval requests with it.\<close>

definition cascade_policy :: "uuid \<Rightarrow> db \<Rightarrow> db" where
  "cascade_policy i d =
     (let gone = ar_id ` {r \<in> set (approval_requests d). ar_policy r = i} in
      d\<lparr>policies := filter (\<lambda>p. po_id p \<noteq> i) (policies d),
        policy_rules := filter (\<lambda>r. ru_policy r \<noteq> i) (policy_rules d),
        policy_versions := filter (\<lambda>v. pv_policy v \<noteq> i) (policy_versions d),
        policy_assignments := filter (\<lambda>a. pa_policy a \<noteq> i) (policy_assignments d),
        approval_requests := filter (\<lambda>r. ar_policy r \<noteq> i) (approval_requests d),
        approval_request_devices := filter (\<lambda>x. fst x \<notin> gone) (approval_request_devices d)\<rparr>)"

definition delete_policy_stmt :: "uuid \<Rightarrow> uuid \<Rightarrow> db \<Rightarrow> unit res \<times> db" where
  "delete_policy_stmt tenantID i d =
     (if policy_in tenantID i d then (Inr (), cascade_policy i d) else (Inl ErrNotFound, d))"

definition DeletePolicy :: "uuid \<Rightarrow> uuid \<Rightarrow> db \<Rightarrow> unit res \<times> db" where
  "DeletePolicy tenantID i = pool (delete_policy_stmt tenantID i)"

text \<open>
  AddRule. The statement checks that the policy exists, not that it belongs to the
  tenant. The administrator in added_by is the caller's own row and is not kept.
\<close>

definition valid_kind :: "string \<Rightarrow> bool" where
  "valid_kind k \<longleftrightarrow> k \<in> {kind_Hash, kind_Publisher, kind_Path}"

definition insert_rule_stmt :: "uuid \<Rightarrow> uuid \<Rightarrow> uuid \<Rightarrow> rule \<Rightarrow> db \<Rightarrow> unit res \<times> db" where
  "insert_rule_stmt i tenantID policyID r d =
     (if \<not> valid_kind (rule_kind r) then (Inl (PgError ''23514''), d)
      else if i \<in> ru_id ` set (policy_rules d) \<or>
        (\<exists>x \<in> set (policy_rules d). ru_policy x = policyID \<and> ru_kind x = rule_kind r \<and> ru_value x = rule_value r)
      then (Inl (PgError ''23505''), d)
      else if \<not> tenant_exists tenantID d \<or> \<not> policy_exists policyID d then (Inl (PgError ''23503''), d)
      else (Inr (), d\<lparr>policy_rules := policy_rules d @ [\<lparr>ru_id = i, ru_tenant = tenantID, ru_policy = policyID,
              ru_kind = rule_kind r, ru_value = rule_value r, ru_publisher = rule_publisher r,
              ru_description = rule_description r\<rparr>]\<rparr>))"

definition AddRule :: "uuid \<Rightarrow> uuid \<Rightarrow> rule \<Rightarrow> db \<Rightarrow> uuid res \<times> db" where
  "AddRule tenantID policyID r d =
     (let (i, d0) = new_uuid d; (res, d1) = pool (insert_rule_stmt i tenantID policyID r) d0
      in (case conflict res of Inl e \<Rightarrow> Inl e | Inr _ \<Rightarrow> Inr i, d1))"

definition rules_of :: "uuid \<Rightarrow> uuid \<Rightarrow> db \<Rightarrow> rule_row list" where
  "rules_of tenantID policyID d =
     sort_key (\<lambda>r. (ru_kind r, ru_value r)) (filter (\<lambda>r. ru_tenant r = tenantID \<and> ru_policy r = policyID) (policy_rules d))"

definition ListRules :: "uuid \<Rightarrow> uuid \<Rightarrow> db \<Rightarrow> rule_row list res \<times> db" where
  "ListRules tenantID policyID = pool (\<lambda>d. (Inr (rules_of tenantID policyID d), d))"

definition delete_rule_stmt :: "uuid \<Rightarrow> uuid \<Rightarrow> uuid \<Rightarrow> db \<Rightarrow> unit res \<times> db" where
  "delete_rule_stmt tenantID policyID ruleID d =
     (let P = (\<lambda>r. ru_tenant r = tenantID \<and> ru_policy r = policyID \<and> ru_id r = ruleID) in
      (oneRow (Inr (rows_affected P (policy_rules d))), d\<lparr>policy_rules := filter (\<lambda>r. \<not> P r) (policy_rules d)\<rparr>))"

definition DeleteRule :: "uuid \<Rightarrow> uuid \<Rightarrow> uuid \<Rightarrow> db \<Rightarrow> unit res \<times> db" where
  "DeleteRule tenantID policyID ruleID = pool (delete_rule_stmt tenantID policyID ruleID)"

text \<open>PutPolicyVersion: an upsert on (policy, version) that keeps the row's tenant.\<close>

definition upsert_version :: "time \<Rightarrow> version_row \<Rightarrow> version_row list \<Rightarrow> version_row list" where
  "upsert_version now v vs =
     (let P = (\<lambda>x. pv_policy x = pv_policy v \<and> pv_version x = pv_version v) in
      if (\<exists>x \<in> set vs. P x)
      then update_where P (\<lambda>x. x\<lparr>pv_mode := pv_mode v, pv_xml := pv_xml v, pv_signature := pv_signature v, pv_created_at := now\<rparr>) vs
      else vs @ [v\<lparr>pv_created_at := now\<rparr>])"

definition put_version_stmt :: "version_row \<Rightarrow> db \<Rightarrow> unit res \<times> db" where
  "put_version_stmt v d =
     (if \<not> tenant_exists (pv_tenant v) d \<or> \<not> policy_exists (pv_policy v) d then (Inl (PgError ''23503''), d)
      else (Inr (), d\<lparr>policy_versions := upsert_version (now_db d) v (policy_versions d)\<rparr>))"

definition PutPolicyVersion :: "version_row \<Rightarrow> db \<Rightarrow> unit res \<times> db" where
  "PutPolicyVersion v = pool (put_version_stmt v)"

definition newest :: "version_row list \<Rightarrow> version_row res" where
  "newest vs = (case sort_key (\<lambda>v. - pv_created_at v) vs of [] \<Rightarrow> Inl ErrNotFound | v # _ \<Rightarrow> Inr v)"

definition LatestPolicyVersion :: "uuid \<Rightarrow> uuid \<Rightarrow> db \<Rightarrow> version_row res \<times> db" where
  "LatestPolicyVersion tenantID policyID = pool (\<lambda>d.
     (newest (filter (\<lambda>v. pv_tenant v = tenantID \<and> pv_policy v = policyID) (policy_versions d)), d))"

text \<open>AssignPolicy: guarded insert, and an update only of the tenant's own assignment.\<close>

definition assign_policy_stmt :: "uuid \<Rightarrow> uuid \<Rightarrow> uuid \<Rightarrow> db \<Rightarrow> nat res \<times> db" where
  "assign_policy_stmt tenantID groupID policyID d =
     (if \<not> (group_in tenantID groupID d \<and> policy_in tenantID policyID d) then (Inr 0, d)
      else if (\<exists>a \<in> set (policy_assignments d). pa_group a = groupID) then
        (let P = (\<lambda>a. pa_group a = groupID \<and> pa_tenant a = tenantID)
         in (Inr (rows_affected P (policy_assignments d)),
             d\<lparr>policy_assignments := update_where P (\<lambda>a. a\<lparr>pa_policy := policyID\<rparr>) (policy_assignments d)\<rparr>))
      else (Inr 1, d\<lparr>policy_assignments := policy_assignments d @
              [\<lparr>pa_tenant = tenantID, pa_group = groupID, pa_policy = policyID\<rparr>]\<rparr>))"

definition AssignPolicy :: "uuid \<Rightarrow> uuid \<Rightarrow> uuid \<Rightarrow> db \<Rightarrow> unit res \<times> db" where
  "AssignPolicy tenantID groupID policyID d =
     (case pool (assign_policy_stmt tenantID groupID policyID) d of
        (Inl e, d1) \<Rightarrow> (Inl e, d1)
      | (Inr n, d1) \<Rightarrow> (if n = 0 then Inl ErrNotFound else Inr (), d1))"

definition effective_versions :: "uuid \<Rightarrow> uuid \<Rightarrow> db \<Rightarrow> version_row list" where
  "effective_versions tenantID deviceID d =
     (case find_row (\<lambda>v. dv_tenant v = tenantID \<and> dv_id v = deviceID) (devices d) of
        None \<Rightarrow> []
      | Some v \<Rightarrow> filter (\<lambda>pv. pv_tenant pv = dv_tenant v \<and> (\<exists>a \<in> set (policy_assignments d).
            dv_group v = Some (pa_group a) \<and> pa_tenant a = dv_tenant v \<and> pv_policy pv = pa_policy a)) (policy_versions d))"

definition EffectivePolicyForDevice :: "uuid \<Rightarrow> uuid \<Rightarrow> db \<Rightarrow> version_row res \<times> db" where
  "EffectivePolicyForDevice tenantID deviceID = pool (\<lambda>d. (newest (effective_versions tenantID deviceID d), d))"

section \<open>The policy service\<close>

record 'k policy_service =
  ps_keys :: 'k
  ps_key_for :: "(uuid \<Rightarrow> 'k res) option"
  ps_sign :: "'k \<Rightarrow> bytes \<Rightarrow> bytes"
  ps_sha256 :: "bytes \<Rightarrow> bytes"
  ps_sort :: "rule list \<Rightarrow> rule list"

definition service_keys :: "'k policy_service \<Rightarrow> uuid \<Rightarrow> 'k res" where
  "service_keys s tenantID = (case ps_key_for s of Some f \<Rightarrow> f tenantID | None \<Rightarrow> Inr (ps_keys s))"

definition to_rule :: "rule_row \<Rightarrow> rule" where
  "to_rule r = \<lparr>rule_kind = ru_kind r, rule_value = ru_value r, rule_publisher = ru_publisher r, rule_description = ru_description r\<rparr>"

text \<open>The compiled and signed version of a policy's mode and rules.\<close>

definition signed_version :: "'k policy_service \<Rightarrow> uuid \<Rightarrow> policy_row \<Rightarrow> rule_row list \<Rightarrow> version_row res" where
  "signed_version s tenantID p stored =
     (case Compile (ps_sort s) \<lparr>wp_mode = po_mode p, wp_rules = map to_rule stored\<rparr> of
        Inl e \<Rightarrow> Inl (ErrText (''compile policy: '' @ err_text e))
      | Inr xml \<Rightarrow> (let version = ContentHash (ps_sha256 s) xml in
          case service_keys s tenantID of
            Inl e \<Rightarrow> Inl e
          | Inr k \<Rightarrow> Inr \<lparr>pv_tenant = tenantID, pv_policy = po_id p, pv_version = version, pv_mode = po_mode p,
              pv_xml = xml, pv_signature = ps_sign s k version, pv_created_at = 0\<rparr>))"

definition Recompile :: "'k policy_service \<Rightarrow> uuid \<Rightarrow> uuid \<Rightarrow> db \<Rightarrow> string res \<times> db" where
  "Recompile s tenantID policyID d =
     andThen (GetPolicy tenantID policyID d) (\<lambda>p d1.
     andThen (ListRules tenantID policyID d1) (\<lambda>stored d2.
       case signed_version s tenantID p stored of
         Inl e \<Rightarrow> (Inl e, d2)
       | Inr v \<Rightarrow> andThen (PutPolicyVersion v d2) (\<lambda>_ d3. (Inr (pv_version v), d3))))"

fun recompile_each :: "'k policy_service \<Rightarrow> uuid \<Rightarrow> policy_row list \<Rightarrow> nat \<times> err option \<Rightarrow> db \<Rightarrow> (nat \<times> err option) \<times> db" where
  "recompile_each s tenantID [] acc d = (acc, d)"
| "recompile_each s tenantID (p # ps) (n, firstErr) d =
     (case Recompile s tenantID (po_id p) d of
        (Inl e, d1) \<Rightarrow> recompile_each s tenantID ps
          (n, case firstErr of None \<Rightarrow> Some (ErrText (''recompile policy '' @ po_name p @ '': '' @ err_text e)) | Some e' \<Rightarrow> Some e') d1
      | (Inr _, d1) \<Rightarrow> recompile_each s tenantID ps (Suc n, firstErr) d1)"

definition RecompileAll :: "'k policy_service \<Rightarrow> uuid \<Rightarrow> db \<Rightarrow> (nat \<times> err option) \<times> db" where
  "RecompileAll s tenantID d = (case ListPolicies tenantID d of
       (Inl e, d1) \<Rightarrow> ((0, Some e), d1)
     | (Inr ps, d1) \<Rightarrow> recompile_each s tenantID ps (0, None) d1)"

record effective =
  ef_version :: string
  ef_mode :: string
  ef_xml :: bytes
  ef_signature :: bytes

definition denyAll :: "'k policy_service \<Rightarrow> uuid \<Rightarrow> effective res" where
  "denyAll s tenantID = (case Compile (ps_sort s) \<lparr>wp_mode = ''audit'', wp_rules = []\<rparr> of
       Inl e \<Rightarrow> Inl e
     | Inr xml \<Rightarrow> (let version = ContentHash (ps_sha256 s) xml in
         case service_keys s tenantID of
           Inl e \<Rightarrow> Inl e
         | Inr k \<Rightarrow> Inr \<lparr>ef_version = version, ef_mode = ''audit'', ef_xml = xml, ef_signature = ps_sign s k version\<rparr>))"

definition Effective :: "'k policy_service \<Rightarrow> uuid \<Rightarrow> uuid \<Rightarrow> db \<Rightarrow> effective res \<times> db" where
  "Effective s tenantID deviceID d = (case EffectivePolicyForDevice tenantID deviceID d of
       (Inl e, d1) \<Rightarrow> (if e = ErrNotFound then denyAll s tenantID else Inl e, d1)
     | (Inr v, d1) \<Rightarrow> (Inr \<lparr>ef_version = pv_version v, ef_mode = pv_mode v, ef_xml = pv_xml v, ef_signature = pv_signature v\<rparr>, d1))"

section \<open>Console handlers\<close>

definition createPolicy :: "'k policy_service \<Rightarrow> principal \<Rightarrow> string \<Rightarrow> string \<Rightarrow> db \<Rightarrow> response \<times> db" where
  "createPolicy s p reqName mode d = (let name = TrimSpace reqName in
     if name = [] then (writeErr 400 ''name is required'', d)
     else if mode \<noteq> [] \<and> mode \<noteq> ''audit'' \<and> mode \<noteq> ''enforce'' then (writeErr 400 ''mode must be audit or enforce'', d)
     else case CreatePolicy (pr_tenant p) name mode d of
         (Inl e, d1) \<Rightarrow> (storeErr e, d1)
       | (Inr i, d1) \<Rightarrow> (reply_id 201 i, audit p ''policy.create'' ''policy'' (IdTxt '''' i) [(''name'', DStr name)] ''success''
           (snd (Recompile s (pr_tenant p) i d1))))"

definition setPolicyMode :: "'k policy_service \<Rightarrow> principal \<Rightarrow> uuid \<Rightarrow> string \<Rightarrow> db \<Rightarrow> response \<times> db" where
  "setPolicyMode s p i mode d =
     (if mode \<noteq> ''audit'' \<and> mode \<noteq> ''enforce'' then (writeErr 400 ''mode must be audit or enforce'', d)
      else case SetPolicyMode (pr_tenant p) i mode d of
          (Inl e, d1) \<Rightarrow> (storeErr e, d1)
        | (Inr _, d1) \<Rightarrow> (noContent, audit p ''policy.set_mode'' ''policy'' (IdTxt '''' i) [(''mode'', DStr mode)] ''success''
            (snd (Recompile s (pr_tenant p) i d1))))"

definition deletePolicy :: "principal \<Rightarrow> uuid \<Rightarrow> db \<Rightarrow> response \<times> db" where
  "deletePolicy p i d = finish p ''policy.delete'' ''policy'' i [] (DeletePolicy (pr_tenant p) i d)"

definition rule_version :: "uuid \<Rightarrow> string \<Rightarrow> response" where
  "rule_version i version = writeJSON 201 (JObj [(''id'', JId i), (''version'', JStr version)])"

definition addRule :: "'k policy_service \<Rightarrow> principal \<Rightarrow> uuid \<Rightarrow> rule \<Rightarrow> db \<Rightarrow> response \<times> db" where
  "addRule s p i req d = (case Normalize req of
       Inl e \<Rightarrow> (writeErr 400 (err_text e), d)
     | Inr n \<Rightarrow> (case AddRule (pr_tenant p) i n d of
         (Inl e, d1) \<Rightarrow> (storeErr e, d1)
       | (Inr rid, d1) \<Rightarrow> (case Recompile s (pr_tenant p) i d1 of
           (Inl e, d2) \<Rightarrow> (storeErr e, d2)
         | (Inr version, d2) \<Rightarrow> (rule_version rid version,
             audit p ''policy.add_rule'' ''policy'' (IdTxt '''' i)
               [(''kind'', DStr (rule_kind n)), (''value'', DStr (rule_value n))] ''success'' d2))))"

definition deleteRule :: "'k policy_service \<Rightarrow> principal \<Rightarrow> uuid \<Rightarrow> uuid \<Rightarrow> db \<Rightarrow> response \<times> db" where
  "deleteRule s p i ruleID d = (case DeleteRule (pr_tenant p) i ruleID d of
       (Inl e, d1) \<Rightarrow> (storeErr e, d1)
     | (Inr _, d1) \<Rightarrow> (noContent, audit p ''policy.delete_rule'' ''policy'' (IdTxt '''' i) [(''rule_id'', DId ruleID)] ''success''
         (snd (Recompile s (pr_tenant p) i d1))))"

definition assignPolicy :: "principal \<Rightarrow> uuid \<Rightarrow> uuid \<Rightarrow> db \<Rightarrow> response \<times> db" where
  "assignPolicy p i gid d = finish p ''policy.assign'' ''policy'' i [(''group_id'', DId gid)] (AssignPolicy (pr_tenant p) gid i d)"

definition recompilePolicy :: "'k policy_service \<Rightarrow> principal \<Rightarrow> uuid \<Rightarrow> db \<Rightarrow> response \<times> db" where
  "recompilePolicy s p i d = respond (\<lambda>version. JObj [(''version'', JStr version)]) (Recompile s (pr_tenant p) i d)"

definition addPolicyRule :: "'k policy_service \<Rightarrow> principal \<Rightarrow> uuid \<Rightarrow> rule \<Rightarrow> db \<Rightarrow> string res \<times> db" where
  "addPolicyRule s p policyID r d = (case AddRule (pr_tenant p) policyID r d of
       (Inl e, d1) \<Rightarrow> (if e \<noteq> ErrConflict then (Inl e, d1) else Recompile s (pr_tenant p) policyID d1)
     | (Inr _, d1) \<Rightarrow> Recompile s (pr_tenant p) policyID d1)"

section \<open>Policies, versions and assignments stay inside their tenant\<close>

definition has_policy :: "policy_row list \<Rightarrow> uuid \<Rightarrow> uuid \<Rightarrow> bool" where
  "has_policy ps t i \<longleftrightarrow> (\<exists>p \<in> set ps. po_tenant p = t \<and> po_id p = i)"

definition policy_ok :: "group_row list \<Rightarrow> policy_row list \<Rightarrow> version_row list \<Rightarrow> assignment_row list \<Rightarrow> bool" where
  "policy_ok gs ps vs as \<longleftrightarrow> distinct (map po_id ps) \<and> (\<forall>p \<in> set ps. valid_mode (po_mode p)) \<and>
     (\<forall>v \<in> set vs. has_policy ps (pv_tenant v) (pv_policy v)) \<and> distinct (map (\<lambda>v. (pv_policy v, pv_version v)) vs) \<and>
     (\<forall>a \<in> set as. grouped gs (pa_tenant a) (Some (pa_group a)) \<and> has_policy ps (pa_tenant a) (pa_policy a)) \<and>
     distinct (map pa_group as)"

definition policy_inv :: "db \<Rightarrow> bool" where
  "policy_inv d \<longleftrightarrow> policy_ok (device_groups d) (policies d) (policy_versions d) (policy_assignments d)"

lemma has_policy_map: "has_policy ps t i \<longleftrightarrow> (t, i) \<in> set (map (\<lambda>p. (po_tenant p, po_id p)) ps)"
  by (force simp: has_policy_def)

lemma policy_in_has: "policy_in t i d = has_policy (policies d) t i"
  by (simp add: policy_in_def has_policy_def)

lemma policy_inv_frame [simp]:
  "policy_inv (d\<lparr>faults := fs\<rparr>) = policy_inv d" "policy_inv (d\<lparr>next_uuid := u\<rparr>) = policy_inv d"
  "policy_inv (d\<lparr>policy_rules := rs\<rparr>) = policy_inv d" "policy_inv (d\<lparr>devices := vs\<rparr>) = policy_inv d"
  "policy_inv (d\<lparr>install_tokens := ts\<rparr>) = policy_inv d" "policy_inv (d\<lparr>approval_requests := qs\<rparr>) = policy_inv d"
  by (simp_all add: policy_inv_def)

lemma policy_inv_audit [simp]: "policy_inv (audit p a b c e g d) = policy_inv d"
  by (rule audit_shape [of p a b c e g d]) (simp add: policy_inv_def)

lemma policy_inv_pool: "(\<And>d. policy_inv d \<Longrightarrow> policy_inv (snd (stmt d))) \<Longrightarrow> policy_inv d \<Longrightarrow> policy_inv (snd (pool stmt d))"
  by (rule pool_inv) simp_all

lemma upsert_row:
  "x \<in> set (upsert_version now v vs) \<Longrightarrow>
     x = v\<lparr>pv_created_at := now\<rparr> \<or> (\<exists>y \<in> set vs. pv_policy x = pv_policy y \<and> pv_tenant x = pv_tenant y)"
  by (fastforce simp: upsert_version_def Let_def set_update_where split: if_splits)

lemma upsert_ok:
  assumes "policy_ok gs ps vs as" "has_policy ps (pv_tenant v) (pv_policy v)"
  shows "policy_ok gs ps (upsert_version now v vs) as"
proof -
  have "\<forall>x \<in> set (upsert_version now v vs). has_policy ps (pv_tenant x) (pv_policy x)"
    using upsert_row [of _ now v vs] assms by (fastforce simp: policy_ok_def)
  moreover have "distinct (map (\<lambda>x. (pv_policy x, pv_version x)) (upsert_version now v vs))"
    using assms(1) by (auto simp: upsert_version_def Let_def policy_ok_def map_update_where_inv)
  ultimately show ?thesis using assms(1) by (simp add: policy_ok_def)
qed

lemma insert_policy_inv: "policy_inv d \<Longrightarrow> policy_inv (snd (insert_policy_stmt i t n m d))"
  by (auto simp: insert_policy_stmt_def policy_inv_def policy_ok_def policy_exists_def has_policy_def)

lemma set_mode_inv:
  assumes "policy_inv d"
  shows "policy_inv (snd (set_mode_stmt t i m d))"
proof (cases "policy_in t i d \<and> \<not> valid_mode m")
  case False
  let ?ps = "update_where (\<lambda>p. po_tenant p = t \<and> po_id p = i) (\<lambda>p. p\<lparr>po_mode := m\<rparr>) (policies d)"
  have "has_policy ?ps t' i' = has_policy (policies d) t' i'" for t' i'
    by (subst (1 2) has_policy_map) (simp add: map_update_where_inv)
  moreover have "\<forall>p \<in> set ?ps. valid_mode (po_mode p)"
    using assms False by (auto simp: set_update_where policy_inv_def policy_ok_def policy_in_def)
  moreover have "map po_id ?ps = map po_id (policies d)" by (rule map_update_where_inv) simp
  ultimately show ?thesis
    using assms False by (simp add: set_mode_stmt_def Let_def policy_inv_def policy_ok_def)
qed (use assms in \<open>simp add: set_mode_stmt_def\<close>)

lemma has_policy_filter: "i' \<noteq> i \<Longrightarrow> has_policy (filter (\<lambda>p. po_id p \<noteq> i) ps) t i' = has_policy ps t i'"
  by (auto simp: has_policy_def)

lemma delete_policy_inv: "policy_inv d \<Longrightarrow> policy_inv (snd (delete_policy_stmt t i d))"
  by (auto simp: delete_policy_stmt_def cascade_policy_def Let_def policy_inv_def policy_ok_def has_policy_filter distinct_map_filter)

lemma assign_policy_inv:
  assumes "policy_inv d"
  shows "policy_inv (snd (assign_policy_stmt t g i d))"
proof -
  let ?P = "\<lambda>a. pa_group a = g \<and> pa_tenant a = t"
  have gm: "group_in t g d \<Longrightarrow> grouped (device_groups d) t (Some g)"
    by (auto simp: group_in_def grouped_def)
  have "map pa_group (update_where ?P (\<lambda>a. a\<lparr>pa_policy := i\<rparr>) (policy_assignments d)) = map pa_group (policy_assignments d)"
    by (rule map_update_where_inv) simp
  with assms gm show ?thesis
    by (auto simp: assign_policy_stmt_def Let_def policy_inv_def policy_ok_def policy_in_has set_update_where split: if_splits)
qed

text \<open>The service and the handlers.\<close>

lemma GetPolicy_cases:
  obtains (missing) e fs where "GetPolicy t i d = (Inl e, d\<lparr>faults := fs\<rparr>)"
  | (found) p fs where "GetPolicy t i d = (Inr p, d\<lparr>faults := fs\<rparr>)" "p \<in> set (policies d)" "po_tenant p = t" "po_id p = i"
proof -
  have fr: "\<And>d fs. policies (d\<lparr>faults := fs\<rparr>) = policies d" by simp
  show thesis
  proof (cases rule: lookup_cases [OF fr, where P = "\<lambda>p. po_tenant p = t \<and> po_id p = i" and h = "\<lambda>p. p" and d = d])
    case (1 e fs)
    show thesis by (rule missing [of e fs]) (simp only: GetPolicy_def 1)
  next
    case (2 r fs)
    from 2(3) have "po_tenant r = t" "po_id r = i" by simp_all
    with 2(2) show thesis by (intro found [of r fs]) (simp_all only: GetPolicy_def 2(1))
  qed
qed

lemma ListRules_cases:
  obtains (lost) fs where "ListRules t i d = (Inl ErrConn, d\<lparr>faults := fs\<rparr>)"
  | (ran) fs where "ListRules t i d = (Inr (rules_of t i d), d\<lparr>faults := fs\<rparr>)"
proof -
  let ?l = "\<lambda>d :: db. (Inr (rules_of t i d) :: rule_row list res, d)"
  show thesis
  proof (cases ?l d rule: pool_cases)
    case (lost rest)
    with that(1) show thesis by (simp add: ListRules_def)
  next
    case (ran rest)
    with that(2) show thesis by (simp add: ListRules_def rules_of_def)
  qed
qed

lemma PutPolicyVersion_cases:
  obtains (refused) e fs where "PutPolicyVersion v d = (Inl e, d\<lparr>faults := fs\<rparr>)"
  | (stored) fs where "PutPolicyVersion v d =
      (Inr (), d\<lparr>faults := fs, policy_versions := upsert_version (now_db d) v (policy_versions d)\<rparr>)"
      "tenant_exists (pv_tenant v) d" "policy_exists (pv_policy v) d"
proof (cases "put_version_stmt v" d rule: pool_cases)
  case (lost rest)
  with that(1) show thesis by (simp add: PutPolicyVersion_def)
next
  case (ran rest)
  have fr: "tenant_exists (pv_tenant v) (d\<lparr>faults := rest\<rparr>) = tenant_exists (pv_tenant v) d"
    "policy_exists (pv_policy v) (d\<lparr>faults := rest\<rparr>) = policy_exists (pv_policy v) d"
    by (simp_all add: tenant_exists_def policy_exists_def)
  show thesis
  proof (cases "tenant_exists (pv_tenant v) d \<and> policy_exists (pv_policy v) d")
    case True
    with ran fr show thesis by (intro stored [of rest]) (simp_all add: PutPolicyVersion_def put_version_stmt_def)
  next
    case False
    with ran fr show thesis by (intro refused [of "PgError ''23503''" rest]) (simp add: PutPolicyVersion_def put_version_stmt_def)
  qed
qed

text \<open>
  A recompilation either fails and leaves every table alone, or reads the policy and its
  rules and stores their signed version.
\<close>

lemma Recompile_cases:
  obtains (failed) e fs where "Recompile s t i d = (Inl e, d\<lparr>faults := fs\<rparr>)"
  | (published) p v fs where "Recompile s t i d =
      (Inr (pv_version v), d\<lparr>faults := fs, policy_versions := upsert_version (now_db d) v (policy_versions d)\<rparr>)"
      "p \<in> set (policies d)" "po_tenant p = t" "po_id p = i" "signed_version s t p (rules_of t i d) = Inr v"
proof (cases t i d rule: GetPolicy_cases)
  case (missing e fs)
  with that(1) show thesis by (simp add: Recompile_def)
next
  case g: (found p fs)
  have rl: "rules_of t i (d\<lparr>faults := fs\<rparr>) = rules_of t i d" for fs by (simp add: rules_of_def)
  show thesis
  proof (cases t i "d\<lparr>faults := fs\<rparr>" rule: ListRules_cases)
    case (lost fs2)
    with g that(1) show thesis by (simp add: Recompile_def)
  next
    case l: (ran fs2)
    show thesis
    proof (cases "signed_version s t p (rules_of t i d)")
      case (Inl e)
      with g l rl that(1) show thesis by (simp add: Recompile_def)
    next
      case (Inr v)
      show thesis
      proof (cases v "d\<lparr>faults := fs2\<rparr>" rule: PutPolicyVersion_cases)
        case (refused e fs3)
        with g l rl Inr that(1) show thesis by (simp add: Recompile_def)
      next
        case (stored fs3)
        with g l rl Inr that(2) [of v fs3 p] show thesis by (simp add: Recompile_def)
      qed
    qed
  qed
qed

lemma signed_version_ok:
  assumes "signed_version s t p rs = Inr v"
  obtains xml k where "Compile (ps_sort s) \<lparr>wp_mode = po_mode p, wp_rules = map to_rule rs\<rparr> = Inr xml" "service_keys s t = Inr k"
    "v = \<lparr>pv_tenant = t, pv_policy = po_id p, pv_version = ContentHash (ps_sha256 s) xml, pv_mode = po_mode p,
       pv_xml = xml, pv_signature = ps_sign s k (ContentHash (ps_sha256 s) xml), pv_created_at = 0\<rparr>"
  using assms by (auto simp: signed_version_def Let_def split: sum.splits)

lemma Recompile_inv:
  assumes "policy_inv d"
  shows "policy_inv (snd (Recompile s t i d))"
proof (cases s t i d rule: Recompile_cases)
  case (published p v fs)
  then have "has_policy (policies d) (pv_tenant v) (pv_policy v)"
    by (auto simp: has_policy_def elim!: signed_version_ok)
  with assms published(1) show ?thesis by (simp add: policy_inv_def upsert_ok)
qed (use assms in simp)

lemma store_ops_inv:
  assumes "policy_inv d"
  shows "policy_inv (snd (CreatePolicy t n m d))" "policy_inv (snd (SetPolicyMode t i m d))" "policy_inv (snd (DeletePolicy t i d))"
    "policy_inv (snd (AddRule t i r d))" "policy_inv (snd (DeleteRule t i j d))" "policy_inv (snd (AssignPolicy t g i d))"
proof -
  have rules: "policy_inv d \<Longrightarrow> policy_inv (snd (insert_rule_stmt j t i r d))" "policy_inv d \<Longrightarrow> policy_inv (snd (delete_rule_stmt t i j d))" for d j
    by (simp_all add: insert_rule_stmt_def delete_rule_stmt_def Let_def)
  show "policy_inv (snd (CreatePolicy t n m d))" "policy_inv (snd (AddRule t i r d))"
    using assms by (auto simp: CreatePolicy_def AddRule_def new_uuid_def Let_def split_beta intro!: policy_inv_pool insert_policy_inv rules)
  show "policy_inv (snd (SetPolicyMode t i m d))" "policy_inv (snd (DeletePolicy t i d))" "policy_inv (snd (DeleteRule t i j d))"
    using assms by (auto simp: SetPolicyMode_def DeletePolicy_def DeleteRule_def intro!: policy_inv_pool set_mode_inv delete_policy_inv rules)
  have "policy_inv (snd (pool (assign_policy_stmt t g i) d))" using assms by (intro policy_inv_pool assign_policy_inv)
  then show "policy_inv (snd (AssignPolicy t g i d))"
    by (cases "pool (assign_policy_stmt t g i) d") (auto simp: AssignPolicy_def split: sum.splits)
qed

lemma group_stmts_inv:
  assumes "policy_inv d"
  shows "policy_inv (snd (create_group_stmt i t n d))" "policy_inv (snd (rename_group_stmt t i n d))"
    "policy_inv (snd (ungroup_devices_stmt t i d))" "policy_inv (snd (ungroup_tokens_stmt t i d))" "policy_inv (snd (delete_group_stmt t i d))"
proof -
  show "policy_inv (snd (create_group_stmt i t n d))"
    using assms by (auto simp: create_group_stmt_def policy_inv_def policy_ok_def grouped_def)
  show "policy_inv (snd (rename_group_stmt t i n d))"
    using assms by (simp add: rename_group_stmt_def Let_def policy_inv_def policy_ok_def grouped_update)
  show "policy_inv (snd (ungroup_devices_stmt t i d))" "policy_inv (snd (ungroup_tokens_stmt t i d))"
    using assms by (simp_all add: ungroup_devices_stmt_def ungroup_tokens_stmt_def)
  have "grouped (filter (\<lambda>g. gr_id g \<noteq> i) gs) t' (Some g) = grouped gs t' (Some g)" if "g \<noteq> i" for gs t' g
    using that by (auto simp: grouped_def)
  then show "policy_inv (snd (delete_group_stmt t i d))"
    using assms by (auto simp: delete_group_stmt_def policy_inv_def policy_ok_def distinct_map_filter)
qed

lemma group_ops_inv:
  assumes "policy_inv d"
  shows "policy_inv (snd (CreateDeviceGroup t n d))" "policy_inv (snd (RenameDeviceGroup t i n d))" "policy_inv (snd (DeleteDeviceGroup t i d))"
proof -
  show "policy_inv (snd (CreateDeviceGroup t n d))" "policy_inv (snd (RenameDeviceGroup t i n d))"
    using assms by (auto simp: CreateDeviceGroup_def RenameDeviceGroup_def new_uuid_def Let_def split_beta
        intro!: policy_inv_pool group_stmts_inv)
  have body: "policy_inv d \<Longrightarrow> policy_inv (snd (delete_group_body t i d))" for d
    unfolding delete_group_body_def
    by (intro andThen_state [where P = policy_inv] policy_inv_pool group_stmts_inv)
  show "policy_inv (snd (DeleteDeviceGroup t i d))"
    unfolding DeleteDeviceGroup_def
  proof (rule tx_inv)
    show "policy_inv d'" if "policy_inv d" "delete_group_body t i d = (Inr x, d')" for d x d'
      using body [of d] that by simp
  qed (use assms in simp_all)
qed

lemma finish_inv: "policy_inv (snd r) \<Longrightarrow> policy_inv (snd (finish p a b i e r))"
  by (cases r; cases "fst r") (simp_all add: finish_def)

lemma addPolicyRule_inv: "policy_inv d \<Longrightarrow> policy_inv (snd (addPolicyRule s p i r d))"
  using store_ops_inv(4) [of d "pr_tenant p" i r] Recompile_inv
  by (cases "AddRule (pr_tenant p) i r d") (auto simp: addPolicyRule_def split: sum.splits)

text \<open>Every console request on policies and groups.\<close>

inductive_set policy_ops :: "'k policy_service \<Rightarrow> (db \<Rightarrow> db) set" for s where
  create: "(\<lambda>d. snd (createPolicy s p n m d)) \<in> policy_ops s"
| mode: "(\<lambda>d. snd (setPolicyMode s p i m d)) \<in> policy_ops s"
| delete: "(\<lambda>d. snd (deletePolicy p i d)) \<in> policy_ops s"
| add_rule: "(\<lambda>d. snd (addRule s p i r d)) \<in> policy_ops s"
| add_policy_rule: "(\<lambda>d. snd (addPolicyRule s p i r d)) \<in> policy_ops s"
| delete_rule: "(\<lambda>d. snd (deleteRule s p i j d)) \<in> policy_ops s"
| assign: "(\<lambda>d. snd (assignPolicy p i g d)) \<in> policy_ops s"
| recompile: "(\<lambda>d. snd (recompilePolicy s p i d)) \<in> policy_ops s"
| recompile_all: "(\<lambda>d. snd (RecompileAll s t d)) \<in> policy_ops s"
| create_group: "(\<lambda>d. snd (createGroup p n d)) \<in> policy_ops s"
| rename_group: "(\<lambda>d. snd (renameGroup p i n d)) \<in> policy_ops s"
| delete_group: "(\<lambda>d. snd (deleteGroup p i d)) \<in> policy_ops s"

lemma recompile_each_inv: "policy_inv d \<Longrightarrow> policy_inv (snd (recompile_each s t ps acc d))"
proof (induction s t ps acc d rule: recompile_each.induct)
  case (2 s t p ps n firstErr d)
  obtain r d1 where r: "Recompile s t (po_id p) d = (r, d1)" by fastforce
  with 2(3) Recompile_inv [of d s t "po_id p"] have "policy_inv d1" by simp
  with 2(1,2) r show ?case by (cases r) auto
qed simp

lemma policy_op_inv:
  assumes "f \<in> policy_ops s" "policy_inv d"
  shows "policy_inv (f d)"
  using assms(1)
proof cases
  case (create p n m)
  obtain r d1 where c: "CreatePolicy (pr_tenant p) (TrimSpace n) m d = (r, d1)" by fastforce
  with store_ops_inv(1) [OF assms(2), of "pr_tenant p" "TrimSpace n" m] have "policy_inv d1" by simp
  with create c assms(2) show ?thesis by (cases r) (auto simp: createPolicy_def Let_def Recompile_inv)
next
  case (mode p i m)
  obtain r d1 where c: "SetPolicyMode (pr_tenant p) i m d = (r, d1)" by fastforce
  with store_ops_inv(2) [OF assms(2), of "pr_tenant p" i m] have "policy_inv d1" by simp
  with mode c assms(2) show ?thesis by (cases r) (auto simp: setPolicyMode_def Recompile_inv)
next
  case (add_rule p i r)
  show ?thesis
  proof (cases "Normalize r")
    case (Inr n)
    obtain q d1 where c: "AddRule (pr_tenant p) i n d = (q, d1)" by fastforce
    with store_ops_inv(4) [OF assms(2), of "pr_tenant p" i n] have "policy_inv d1" by simp
    then have "policy_inv (snd (Recompile s (pr_tenant p) i d1))" by (rule Recompile_inv)
    with add_rule c Inr \<open>policy_inv d1\<close> show ?thesis
      by (cases q; cases "Recompile s (pr_tenant p) i d1") (auto simp: addRule_def split: sum.splits)
  qed (use add_rule assms(2) in \<open>simp add: addRule_def\<close>)
next
  case (delete_rule p i j)
  obtain r d1 where c: "DeleteRule (pr_tenant p) i j d = (r, d1)" by fastforce
  with store_ops_inv(5) [OF assms(2), of "pr_tenant p" i j] have "policy_inv d1" by simp
  with delete_rule c show ?thesis by (cases r) (auto simp: deleteRule_def Recompile_inv)
next
  case (recompile_all t)
  have "policy_inv (snd (ListPolicies t d))"
    unfolding ListPolicies_def using assms(2) by (intro policy_inv_pool) simp_all
  then show ?thesis unfolding recompile_all RecompileAll_def
    by (cases "ListPolicies t d") (auto simp: recompile_each_inv split: sum.splits)
next
  case (create_group p n)
  obtain r d1 where c: "CreateDeviceGroup (pr_tenant p) (TrimSpace n) d = (r, d1)" by fastforce
  with group_ops_inv(1) [OF assms(2), of "pr_tenant p" "TrimSpace n"] have "policy_inv d1" by simp
  with create_group c assms(2) show ?thesis by (cases r) (auto simp: createGroup_def Let_def)
next
  case (rename_group p i n)
  then show ?thesis using assms(2) by (simp add: renameGroup_def Let_def finish_inv group_ops_inv)
qed (simp_all add: deletePolicy_def assignPolicy_def recompilePolicy_def respond_def deleteGroup_def finish_inv
      store_ops_inv group_ops_inv Recompile_inv addPolicyRule_inv assms(2))

lemma policy_run: "set fs \<subseteq> policy_ops s \<Longrightarrow> policy_inv d \<Longrightarrow> policy_inv (fold (\<lambda>f. f) fs d)"
  by (induction fs arbitrary: d) (auto intro: policy_op_inv)

lemma effective_versions_row: "v \<in> set (effective_versions t i d) \<Longrightarrow> pv_tenant v = t \<and> v \<in> set (policy_versions d)"
  by (cases "find_row (\<lambda>v. dv_tenant v = t \<and> dv_id v = i) (devices d)")
    (auto simp: effective_versions_def dest: find_row_Some)

text \<open>
  Policies never leak between tenants. Through any sequence of console requests of
  any tenants on policies and groups, whatever arguments they carry and whatever
  statements fail, every assignment joins a group and a policy of one and the same
  tenant, a group has at most one policy, and every version a device can be given was
  compiled from a policy of the device's own tenant.
\<close>

theorem assignments_stay_in_tenant:
  assumes "set fs \<subseteq> policy_ops s" and "policy_inv d"
  shows "(\<forall>a \<in> set (policy_assignments (fold (\<lambda>f. f) fs d)).
            group_in (pa_tenant a) (pa_group a) (fold (\<lambda>f. f) fs d) \<and> policy_in (pa_tenant a) (pa_policy a) (fold (\<lambda>f. f) fs d)) \<and>
    distinct (map pa_group (policy_assignments (fold (\<lambda>f. f) fs d))) \<and>
    (\<forall>v \<in> set (effective_versions t i (fold (\<lambda>f. f) fs d)). pv_tenant v = t \<and> policy_in t (pv_policy v) (fold (\<lambda>f. f) fs d))"
  using policy_run [OF assms]
  by (auto simp: policy_inv_def policy_ok_def policy_in_has group_in_def grouped_def dest!: effective_versions_row)

text \<open>Two tenants; tenant 7 has a group, a policy and a device, tenant 8 a policy.\<close>

definition demo_fleet :: db where
  "demo_fleet = empty_db\<lparr>next_uuid := 50,
     tenants := [\<lparr>tn_id = 7, tn_name = ''a'', tn_suspended = False\<rparr>, \<lparr>tn_id = 8, tn_name = ''b'', tn_suspended = False\<rparr>],
     device_groups := [\<lparr>gr_id = 5, gr_tenant = 7, gr_name = ''g''\<rparr>],
     devices := [enrolled_row 0 \<lparr>nd_id = 4, nd_hostname = ''pc'', nd_machine_guid = [], nd_os_build = [], nd_cert_serial = [],
        nd_cert_expires_at = 0\<rparr> 7 (Some 5)],
     policies := [\<lparr>po_id = 20, po_tenant = 7, po_name = ''p'', po_mode = ''enforce'', po_created_at = 0\<rparr>,
        \<lparr>po_id = 21, po_tenant = 8, po_name = ''q'', po_mode = ''audit'', po_created_at = 0\<rparr>]\<rparr>"

lemma demo_fleet_inv: "policy_inv demo_fleet"
  by (simp add: policy_inv_def policy_ok_def demo_fleet_def valid_mode_def)

theorem assignments_stay_in_tenant_witness:
  "map pa_policy (policy_assignments (snd (assignPolicy demo_admin 20 5 (snd (assignPolicy demo_admin 21 5 demo_fleet))))) = [20] \<and>
   policy_in 7 20 (snd (assignPolicy demo_admin 20 5 (snd (assignPolicy demo_admin 21 5 demo_fleet))))"
proof -
  let ?fs = "[\<lambda>d. snd (assignPolicy demo_admin 21 5 d), \<lambda>d. snd (assignPolicy demo_admin 20 5 d)]"
  let ?d = "snd (assignPolicy demo_admin 20 5 (snd (assignPolicy demo_admin 21 5 demo_fleet)))"
  have as: "policy_assignments ?d = [\<lparr>pa_tenant = 7, pa_group = 5, pa_policy = 20\<rparr>]"
    by (simp add: assignPolicy_def AssignPolicy_def assign_policy_stmt_def demo_fleet_def group_in_def policy_in_def
        finish_def demo_admin_def audit_def AppendAudit_def)
  have "set ?fs \<subseteq> policy_ops undefined" by (simp add: policy_ops.assign)
  from assignments_stay_in_tenant [OF this demo_fleet_inv] as show ?thesis by simp
qed

section \<open>Devices get the current rules\<close>

lemma newest_strict:
  assumes "w \<in> set vs" "\<And>x. x \<in> set vs \<Longrightarrow> x \<noteq> w \<Longrightarrow> pv_created_at x < pv_created_at w"
  shows "newest vs = Inr w"
proof (cases "sort_key (\<lambda>v. - pv_created_at v) vs")
  case Nil
  with assms(1) show ?thesis by (metis emptyE list.set(1) set_sort)
next
  case (Cons y ys)
  have "sorted (map (\<lambda>v. - pv_created_at v) (y # ys))" using Cons by (metis sorted_sort_key)
  moreover have "w = y \<or> w \<in> set ys" "y \<in> set vs" using assms(1) Cons by (metis set_sort set_ConsD, metis set_sort list.set_intros(1))
  ultimately have "pv_created_at w \<le> pv_created_at y" by auto
  with assms(2) [of y] \<open>y \<in> set vs\<close> have "y = w" by fastforce
  with Cons show ?thesis by (simp add: newest_def)
qed

lemma upsert_new:
  assumes "policy_ok gs ps vs as" "has_policy ps (pv_tenant v) (pv_policy v)"
  shows "v\<lparr>pv_created_at := now\<rparr> \<in> set (upsert_version now v vs)"
    "x \<in> set (upsert_version now v vs) \<Longrightarrow> x = v\<lparr>pv_created_at := now\<rparr> \<or> x \<in> set vs"
proof -
  have same: "x\<lparr>pv_mode := pv_mode v, pv_xml := pv_xml v, pv_signature := pv_signature v, pv_created_at := now\<rparr> = v\<lparr>pv_created_at := now\<rparr>"
    if "x \<in> set vs" "pv_policy x = pv_policy v" "pv_version x = pv_version v" for x
  proof -
    have "has_policy ps (pv_tenant x) (pv_policy v)" using assms(1) that by (metis policy_ok_def)
    moreover have "distinct (map po_id ps)" using assms(1) by (simp add: policy_ok_def)
    ultimately have "pv_tenant x = pv_tenant v"
      using assms(2) by (auto simp: has_policy_def distinct_map inj_on_def)
    with that show ?thesis by simp
  qed
  then show "v\<lparr>pv_created_at := now\<rparr> \<in> set (upsert_version now v vs)"
    by (force simp: upsert_version_def Let_def set_update_where)
  show "x = v\<lparr>pv_created_at := now\<rparr> \<or> x \<in> set vs" if "x \<in> set (upsert_version now v vs)"
    using that same by (auto simp: upsert_version_def Let_def set_update_where split: if_splits)
qed

text \<open>What a device of an assigned group is given after a recompilation.\<close>

lemma recompile_gives_version:
  assumes "policy_inv d" and "Recompile s t i d = (Inr version, d')"
    and "\<forall>x \<in> set (policy_versions d). pv_policy x = i \<longrightarrow> pv_created_at x < now_db d"
    and "find_row (\<lambda>v. dv_tenant v = t \<and> dv_id v = dev) (devices d) = Some v" and "dv_group v = Some g"
    and "\<lparr>pa_tenant = t, pa_group = g, pa_policy = i\<rparr> \<in> set (policy_assignments d)"
  shows "\<exists>p xml k. p \<in> set (policies d) \<and> po_tenant p = t \<and> po_id p = i \<and>
    Compile (ps_sort s) \<lparr>wp_mode = po_mode p, wp_rules = map to_rule (rules_of t i d)\<rparr> = Inr xml \<and>
    version = ContentHash (ps_sha256 s) xml \<and> service_keys s t = Inr k \<and>
    Effective s t dev (d'\<lparr>faults := []\<rparr>) = (Inr \<lparr>ef_version = version, ef_mode = po_mode p, ef_xml = xml,
      ef_signature = ps_sign s k version\<rparr>, d'\<lparr>faults := []\<rparr>)"
proof (cases s t i d rule: Recompile_cases)
  case (failed e fs)
  with assms(2) show ?thesis by simp
next
  case (published p w fs)
  from published(5) obtain xml k where x: "Compile (ps_sort s) \<lparr>wp_mode = po_mode p, wp_rules = map to_rule (rules_of t i d)\<rparr> = Inr xml"
    "service_keys s t = Inr k"
    "w = \<lparr>pv_tenant = t, pv_policy = po_id p, pv_version = ContentHash (ps_sha256 s) xml, pv_mode = po_mode p,
       pv_xml = xml, pv_signature = ps_sign s k (ContentHash (ps_sha256 s) xml), pv_created_at = 0\<rparr>" by (rule signed_version_ok)
  let ?w = "w\<lparr>pv_created_at := now_db d\<rparr>" and ?vs = "upsert_version (now_db d) w (policy_versions d)"
  have d': "d' = d\<lparr>faults := fs, policy_versions := ?vs\<rparr>" "version = pv_version w" using assms(2) published(1) by simp_all
  have hp: "has_policy (policies d) (pv_tenant w) (pv_policy w)" using x published(2-4) by (auto simp: has_policy_def)
  have ok: "policy_ok (device_groups d) (policies d) (policy_versions d) (policy_assignments d)" using assms(1) by (simp add: policy_inv_def)
  have tenant: "dv_tenant v = t" using find_row_Some [OF assms(4)] by simp
  have uniq: "pa_policy a = i" if "a \<in> set (policy_assignments d)" "pa_group a = g" for a
  proof -
    have "inj_on pa_group (set (policy_assignments d))" using ok by (simp add: policy_ok_def distinct_map)
    from inj_onD [OF this _ that(1) assms(6)] that(2) show ?thesis by simp
  qed
  have eff: "effective_versions t dev d' = filter (\<lambda>pv. pv_tenant pv = t \<and> pv_policy pv = i) ?vs"
  proof -
    have "(\<exists>a \<in> set (policy_assignments d). g = pa_group a \<and> pa_tenant a = t \<and> j = pa_policy a) \<longleftrightarrow> j = i" for j
      using uniq assms(6) by (auto intro: bexI [OF _ assms(6)])
    then show ?thesis using assms(4,5) tenant by (simp add: effective_versions_def d')
  qed
  have "newest (effective_versions t dev d') = Inr ?w"
  proof (rule newest_strict)
    show "?w \<in> set (effective_versions t dev d')" using upsert_new(1) [OF ok hp] published(4) x(3) by (simp add: eff)
    show "pv_created_at y < pv_created_at ?w" if "y \<in> set (effective_versions t dev d')" "y \<noteq> ?w" for y
      using that upsert_new(2) [OF ok hp, of y] assms(3) by (auto simp: eff)
  qed
  moreover have "effective_versions t dev (d'\<lparr>faults := []\<rparr>) = effective_versions t dev d'"
    by (simp add: effective_versions_def split: option.split)
  ultimately show ?thesis using x published d'(2)
    by (intro exI [of _ p] exI [of _ xml] exI [of _ k]) (simp add: Effective_def EffectivePolicyForDevice_def)
qed

text \<open>
  Devices get the current rules. After a recompilation that reports success, every
  device in a group the policy is assigned to is given, if the database answers, exactly
  the compilation of the policy's rules and mode as they were when it ran: the XML, its
  content hash as version, and a signature of that version under the tenant's key. (The
  database clock has advanced since the policy's earlier versions were stored.)
\<close>

theorem recompile_reaches_devices:
  assumes "policy_inv d" and "Recompile s t i d = (Inr version, d')"
    and "\<forall>x \<in> set (policy_versions d). pv_policy x = i \<longrightarrow> pv_created_at x < now_db d"
    and "find_row (\<lambda>v. dv_tenant v = t \<and> dv_id v = dev) (devices d) = Some v" and "dv_group v = Some g"
    and "\<lparr>pa_tenant = t, pa_group = g, pa_policy = i\<rparr> \<in> set (policy_assignments d)"
  shows "\<exists>p xml k. p \<in> set (policies d) \<and> po_tenant p = t \<and> po_id p = i \<and>
    Compile (ps_sort s) \<lparr>wp_mode = po_mode p, wp_rules = map to_rule (rules_of t i d)\<rparr> = Inr xml \<and>
    version = ContentHash (ps_sha256 s) xml \<and> service_keys s t = Inr k \<and>
    Effective s t dev (d'\<lparr>faults := []\<rparr>) = (Inr \<lparr>ef_version = version, ef_mode = po_mode p, ef_xml = xml,
      ef_signature = ps_sign s k version\<rparr>, d'\<lparr>faults := []\<rparr>)"
  using assms by (rule recompile_gives_version)

definition demo_policies :: "string policy_service" where
  "demo_policies = \<lparr>ps_keys = ''k'', ps_key_for = None, ps_sign = (\<lambda>k m. k @ m), ps_sha256 = (\<lambda>x. x), ps_sort = sort_key rule_key\<rparr>"

definition demo_assigned :: db where
  "demo_assigned = demo_fleet\<lparr>now_db := 100, policy_assignments := [\<lparr>pa_tenant = 7, pa_group = 5, pa_policy = 20\<rparr>]\<rparr>"

lemma demo_assigned_inv: "policy_inv demo_assigned"
  by (simp add: policy_inv_def policy_ok_def demo_assigned_def demo_fleet_def valid_mode_def grouped_def has_policy_def)

lemma demo_signed:
  assumes "normalize_all (map to_rule rs) = Inr ns"
  obtains v where "signed_version demo_policies t p rs = Inr v" "pv_tenant v = t" "pv_policy v = po_id p"
  using assms by (auto simp: signed_version_def Compile_def service_keys_def demo_policies_def Let_def)

theorem recompile_reaches_devices_witness:
  "\<exists>version d' xml. Recompile demo_policies 7 20 demo_assigned = (Inr version, d') \<and>
     Compile (sort_key rule_key) \<lparr>wp_mode = ''enforce'', wp_rules = []\<rparr> = Inr xml \<and>
     Effective demo_policies 7 4 (d'\<lparr>faults := []\<rparr>) = (Inr \<lparr>ef_version = version, ef_mode = ''enforce'', ef_xml = xml,
       ef_signature = ''k'' @ version\<rparr>, d'\<lparr>faults := []\<rparr>)"
proof -
  have rs: "rules_of 7 20 demo_assigned = []" by (simp add: rules_of_def demo_assigned_def demo_fleet_def)
  let ?p = "\<lparr>po_id = 20, po_tenant = 7, po_name = ''p'', po_mode = ''enforce'', po_created_at = 0\<rparr> :: policy_row"
  obtain v where v: "signed_version demo_policies 7 ?p [] = Inr v" "pv_tenant v = 7" "pv_policy v = 20"
    using demo_signed [of "[]" "[]" 7 ?p] by auto
  obtain version d' where r: "Recompile demo_policies 7 20 demo_assigned = (Inr version, d')"
    using v by (simp add: Recompile_def GetPolicy_def lookup_def ListRules_def rules_of_def PutPolicyVersion_def put_version_stmt_def
        demo_assigned_def demo_fleet_def tenant_exists_def policy_exists_def)
  have *: "\<forall>x \<in> set (policy_versions demo_assigned). pv_policy x = 20 \<longrightarrow> pv_created_at x < now_db demo_assigned"
    "find_row (\<lambda>v. dv_tenant v = 7 \<and> dv_id v = 4) (devices demo_assigned) = Some (enrolled_row 0 \<lparr>nd_id = 4, nd_hostname = ''pc'',
       nd_machine_guid = [], nd_os_build = [], nd_cert_serial = [], nd_cert_expires_at = 0\<rparr> 7 (Some 5))"
    "\<lparr>pa_tenant = 7, pa_group = 5, pa_policy = 20\<rparr> \<in> set (policy_assignments demo_assigned)"
    "\<And>p. p \<in> set (policies demo_assigned) \<Longrightarrow> po_id p = 20 \<Longrightarrow> po_mode p = ''enforce''"
    by (auto simp: demo_assigned_def demo_fleet_def enrolled_row_def)
  have "dv_group (enrolled_row 0 \<lparr>nd_id = 4, nd_hostname = ''pc'',
       nd_machine_guid = [], nd_os_build = [], nd_cert_serial = [], nd_cert_expires_at = 0\<rparr> 7 (Some 5)) = Some 5"
    by (simp add: enrolled_row_def)
  from recompile_reaches_devices [OF demo_assigned_inv r *(1,2) this *(3)] *(4) r show ?thesis
    by (auto simp: rs demo_policies_def service_keys_def)
qed

section \<open>Rules of other tenants\<close>

lemma Recompile_no_fault:
  "faults d = [] \<Longrightarrow> fst (Recompile s t i d) = (case find_row (\<lambda>p. po_tenant p = t \<and> po_id p = i) (policies d) of
      None \<Rightarrow> Inl ErrNotFound
    | Some p \<Rightarrow> (case signed_version s t p (rules_of t i d) of
        Inl e \<Rightarrow> Inl e
      | Inr v \<Rightarrow> if \<not> tenant_exists (pv_tenant v) d \<or> \<not> policy_exists (pv_policy v) d then Inl (PgError ''23503'') else Inr (pv_version v)))"
  by (simp add: Recompile_def GetPolicy_def lookup_def ListRules_def PutPolicyVersion_def put_version_stmt_def
      split: option.splits sum.splits)

lemma rules_of_other:
  "ru_tenant r \<noteq> t \<Longrightarrow> rules_of t i (d\<lparr>policy_rules := policy_rules d @ [r]\<rparr>) = rules_of t i d"
  by (simp add: rules_of_def)

text \<open>
  One tenant can stop another from allowing a program. Naming a policy of another
  tenant in an add-rule request answers 404, yet the rule is stored. From then on the
  policy's own tenant is refused the same rule with 409, and approving it reports success
  while the policy's rules, and so its compiled version, still lack it.
\<close>

theorem foreign_rule_blocks_tenant:
  assumes "faults d = []" and "pr_tenant p \<noteq> pr_tenant q" and "tenant_exists (pr_tenant p) d"
    and "policy_in (pr_tenant q) i d" and "distinct (map po_id (policies d))" and "Normalize r = Inr n"
    and "\<forall>x \<in> set (policy_rules d). ru_id x \<noteq> next_uuid d \<and> \<not> (ru_policy x = i \<and> ru_kind x = rule_kind n \<and> ru_value x = rule_value n)"
  shows "let (answer, d1) = addRule s p i r d; (answer', d2) = addRule s q i r d1; (version, d3) = addPolicyRule s q i n d1 in
     rsp_code answer = 404 \<and> rsp_code answer' = 409 \<and> rules_of (pr_tenant q) i d2 = rules_of (pr_tenant q) i d \<and>
     rules_of (pr_tenant q) i d3 = rules_of (pr_tenant q) i d \<and> fst (addPolicyRule s q i n d1) = fst (Recompile s (pr_tenant q) i d)"
proof -
  define e where "e = \<lparr>ru_id = next_uuid d, ru_tenant = pr_tenant p, ru_policy = i, ru_kind = rule_kind n, ru_value = rule_value n,
     ru_publisher = rule_publisher n, ru_description = rule_description n\<rparr>"
  let ?d1 = "d\<lparr>next_uuid := Suc (next_uuid d), policy_rules := policy_rules d @ [e]\<rparr>"
  let ?d2 = "?d1\<lparr>next_uuid := Suc (Suc (next_uuid d))\<rparr>"
  have kind: "valid_kind (rule_kind n)" using Normalize_normal [OF assms(6)] by (auto simp: normal_def valid_kind_def)
  have exi: "policy_exists i d" using assms(4) by (auto simp: policy_exists_def policy_in_def)
  have own: "find_row (\<lambda>x. po_tenant x = pr_tenant p \<and> po_id x = i) (policies d) = None"
    using assms(2,4,5) by (auto simp: find_row_None policy_in_def distinct_map inj_on_def)
  have new: "next_uuid d \<notin> ru_id ` set (policy_rules d)"
    "\<not> (\<exists>x \<in> set (policy_rules d). ru_policy x = i \<and> ru_kind x = rule_kind n \<and> ru_value x = rule_value n)"
    using assms(7) by auto
  have "AddRule (pr_tenant p) i n d = (Inr (next_uuid d), ?d1)"
    using assms(1,3) new kind exi
    by (simp add: AddRule_def new_uuid_def insert_rule_stmt_def e_def tenant_exists_def policy_exists_def)
  moreover have "Recompile s (pr_tenant p) i ?d1 = (Inl ErrNotFound, ?d1)"
    using own assms(1) by (simp add: Recompile_def GetPolicy_def lookup_def)
  ultimately have a: "addRule s p i r d = (storeErr ErrNotFound, ?d1)" by (simp add: addRule_def assms(6))
  have c: "AddRule (pr_tenant q) i n ?d1 = (Inl ErrConflict, ?d2)"
    using assms(1) kind by (simp add: AddRule_def new_uuid_def insert_rule_stmt_def e_def)
  then have b: "addRule s q i r ?d1 = (storeErr ErrConflict, ?d2)" by (simp add: addRule_def assms(6))
  have rl: "rules_of (pr_tenant q) i ?d2 = rules_of (pr_tenant q) i d" using assms(2) by (simp add: rules_of_def e_def)
  have "rules_of (pr_tenant q) i (snd (Recompile s (pr_tenant q) i ?d2)) = rules_of (pr_tenant q) i ?d2"
    by (cases s "pr_tenant q" i ?d2 rule: Recompile_cases) (simp_all add: rules_of_def)
  moreover have "fst (Recompile s (pr_tenant q) i ?d2) = fst (Recompile s (pr_tenant q) i d)"
    using assms(1) rl by (simp add: Recompile_no_fault tenant_exists_def policy_exists_def split: option.split sum.split)
  ultimately show ?thesis
    using rl by (simp add: a b c addPolicyRule_def split_beta storeErr_def writeErr_def)
qed

definition other_admin :: principal where
  "other_admin = demo_admin\<lparr>pr_tenant := 8\<rparr>"

theorem foreign_rule_blocks_tenant_witness:
  "let (answer, d1) = addRule demo_policies other_admin 20 (demo_rule ''path'' (''C:'' @ [BSL, CHR ''a'']) []) demo_assigned;
       (answer', d2) = addRule demo_policies demo_admin 20 (demo_rule ''path'' (''C:'' @ [BSL, CHR ''a'']) []) d1
   in rsp_code answer = 404 \<and> rsp_code answer' = 409 \<and> rules_of 7 20 d2 = []"
proof -
  let ?r = "demo_rule ''path'' (''C:'' @ [BSL, CHR ''a'']) []"
  have n: "Normalize ?r = Inr ?r" by code_simp
  have h: "faults demo_assigned = []" "tenant_exists 8 demo_assigned" "policy_in 7 20 demo_assigned"
    "distinct (map po_id (policies demo_assigned))" "policy_rules demo_assigned = []" "pr_tenant demo_admin = 7" "pr_tenant other_admin = 8"
    by (simp_all add: demo_assigned_def demo_fleet_def tenant_exists_def policy_in_def demo_admin_def other_admin_def)
  from foreign_rule_blocks_tenant [of demo_assigned other_admin demo_admin 20 ?r ?r demo_policies] n h show ?thesis
    by (simp add: split_beta Let_def rules_of_def)
qed

section \<open>A deletion that is reported but not published\<close>

text \<open>A policy with one allow rule, compiled and given to the device.\<close>

definition demo_row :: rule_row where
  "demo_row = \<lparr>ru_id = 30, ru_tenant = 7, ru_policy = 20, ru_kind = ''path'', ru_value = ''C:'' @ [BSL, CHR ''a''],
     ru_publisher = [], ru_description = []\<rparr>"

text \<open>
  Deleting an allow rule can be reported as done while devices go on allowing the
  program: the handler ignores the outcome of the recompilation. There is a state in
  which one lost connection lets the request answer 204, leaves the policy with no rule,
  and leaves every device of its groups with the version compiled from the deleted rule,
  until something else recompiles the policy.
\<close>

theorem deleted_rule_still_allowed:
  "\<exists>d xml version.
     rules_of 7 20 d = [demo_row] \<and>
     Compile (ps_sort demo_policies) \<lparr>wp_mode = ''enforce'', wp_rules = [to_rule demo_row]\<rparr> = Inr xml \<and>
     (let (answer, d') = deleteRule demo_policies demo_admin 20 30 (d\<lparr>faults := [False, True]\<rparr>)
      in answer = noContent \<and> faults d' = [] \<and> rules_of 7 20 d' = [] \<and>
         fst (Effective demo_policies 7 4 d') = Inr \<lparr>ef_version = version, ef_mode = ''enforce'', ef_xml = xml, ef_signature = ''k'' @ version\<rparr>)"
proof -
  have "is_ok (normalize_all [to_rule demo_row])" by code_simp
  then obtain xml where x: "Compile (ps_sort demo_policies) \<lparr>wp_mode = ''enforce'', wp_rules = [to_rule demo_row]\<rparr> = Inr xml"
    by (auto simp: Compile_def)
  define version where "version = ContentHash (ps_sha256 demo_policies) xml"
  define w where "w = \<lparr>pv_tenant = 7, pv_policy = 20, pv_version = version, pv_mode = ''enforce'', pv_xml = xml,
     pv_signature = ''k'' @ version, pv_created_at = 50\<rparr>"
  let ?d = "demo_assigned\<lparr>policy_rules := [demo_row], policy_versions := [w]\<rparr>"
  have "rules_of 7 20 ?d = [demo_row]" by (simp add: rules_of_def demo_row_def)
  moreover have "deleteRule demo_policies demo_admin 20 30 (?d\<lparr>faults := [False, True]\<rparr>) =
      (noContent, audit demo_admin ''policy.delete_rule'' ''policy'' (IdTxt '''' 20) [(''rule_id'', DId 30)] ''success''
         (?d\<lparr>faults := [], policy_rules := []\<rparr>))"
    by (simp add: deleteRule_def DeleteRule_def delete_rule_stmt_def Let_def demo_admin_def demo_row_def pool_def
        Recompile_def GetPolicy_def rows_affected_def faults_first)
  moreover have "fst (Effective demo_policies 7 4 (audit p a b c e f (?d\<lparr>faults := [], policy_rules := []\<rparr>))) =
      Inr \<lparr>ef_version = version, ef_mode = ''enforce'', ef_xml = xml, ef_signature = ''k'' @ version\<rparr>" for p a b c e f
    by (simp add: Effective_def EffectivePolicyForDevice_def effective_versions_def audit_def AppendAudit_def newest_def
        demo_assigned_def demo_fleet_def enrolled_row_def w_def)
  moreover have "rules_of 7 20 (audit p a b c e f (?d\<lparr>faults := [], policy_rules := []\<rparr>)) = []" for p a b c e f
    by (simp add: rules_of_def audit_def AppendAudit_def)
  ultimately show ?thesis using x by (intro exI [of _ ?d] exI [of _ xml] exI [of _ version]) simp
qed

end
