(* ===== verification/Approvals.thy ===== *)
theory Approvals
  imports Policies "HOL-Library.AList"
begin

text \<open>
  What agents saw and what administrators decide: learning observations and block events
  (\<^verbatim>\<open>store/observations.go\<close>), approval requests (\<^verbatim>\<open>store/approvals.go\<close>), and the
  console handlers that turn either into allow rules (\<^verbatim>\<open>httpapi/approvals.go\<close>,
  promoteObservation of \<^verbatim>\<open>httpapi/policies.go\<close>).

  A pgx batch outside a transaction is one implicit transaction, so recording block
  events is one statement.
\<close>

section \<open>Observations and block events\<close>

definition device_exists :: "uuid \<Rightarrow> db \<Rightarrow> bool" where
  "device_exists i d \<longleftrightarrow> i \<in> dv_id ` set (devices d)"

definition merge_text :: "string \<Rightarrow> string \<Rightarrow> string" where
  "merge_text old new = (if old = [] then new else old)"

definition merge_observation :: "observation_row \<Rightarrow> time \<Rightarrow> observation_row \<Rightarrow> observation_row" where
  "merge_observation n now o' = o'\<lparr>ob_last_seen := now, ob_count := ob_count o' + 1,
     ob_signer := merge_text (ob_signer o') (ob_signer n), ob_signer_tbs := merge_text (ob_signer_tbs o') (ob_signer_tbs n),
     ob_signer_verified := ob_signer_verified o' \<or> ob_signer_verified n,
     ob_downloaded := (case ob_downloaded n of None \<Rightarrow> ob_downloaded o' | Some b \<Rightarrow> Some b),
     ob_download_source := (if ob_download_source n = [] then ob_download_source o' else ob_download_source n)\<rparr>"

definition record_observation_stmt :: "uuid \<Rightarrow> uuid \<Rightarrow> observation_row \<Rightarrow> time \<Rightarrow> db \<Rightarrow> unit res \<times> db" where
  "record_observation_stmt tenantID deviceID ob now d =
     (let P = (\<lambda>x. ob_device x = deviceID \<and> ob_sha256 x = ob_sha256 ob \<and> ob_path x = ob_path ob) in
      if \<not> tenant_exists tenantID d \<or> \<not> device_exists deviceID d then (Inl (PgError ''23503''), d)
      else if (\<exists>x \<in> set (observations d). P x)
      then (Inr (), d\<lparr>observations := update_where P (merge_observation ob now) (observations d)\<rparr>)
      else (Inr (), d\<lparr>observations := observations d @ [ob\<lparr>ob_tenant := tenantID, ob_device := deviceID,
              ob_first_seen := now, ob_last_seen := now, ob_count := 1\<rparr>]\<rparr>))"

definition RecordObservation :: "uuid \<Rightarrow> uuid \<Rightarrow> observation_row \<Rightarrow> time \<Rightarrow> db \<Rightarrow> unit res \<times> db" where
  "RecordObservation tenantID deviceID ob now = pool (record_observation_stmt tenantID deviceID ob now)"

definition ListObservations :: "uuid \<Rightarrow> uuid \<Rightarrow> int \<Rightarrow> db \<Rightarrow> observation_row list res \<times> db" where
  "ListObservations tenantID deviceID limit = pool (\<lambda>d. (Inr (take (nat limit) (sort_key (\<lambda>x. - ob_last_seen x)
     (filter (\<lambda>x. ob_tenant x = tenantID \<and> ob_device x = deviceID) (observations d)))), d))"

definition ObservationPublisher :: "uuid \<Rightarrow> string \<Rightarrow> db \<Rightarrow> (string \<times> string \<times> bool) res \<times> db" where
  "ObservationPublisher tenantID sha256 = pool (\<lambda>d.
     (case sort_key (\<lambda>x. (\<not> ob_signer_verified x, - ob_last_seen x))
             (filter (\<lambda>x. ob_tenant x = tenantID \<and> ob_sha256 x = sha256) (observations d)) of
        [] \<Rightarrow> Inl ErrNotFound
      | x # _ \<Rightarrow> Inr (ob_signer_tbs x, ob_signer x, ob_signer_verified x), d))"

text \<open>The zero \<^verbatim>\<open>time.Time\<close>, which stands for a missing time.\<close>

definition zero_time :: time where "zero_time = unix (- 62135596800)"

definition event_time :: "time \<Rightarrow> block_row \<Rightarrow> time" where
  "event_time now e = (if bl_at e = zero_time then now else bl_at e)"

definition record_blocks_stmt :: "uuid \<Rightarrow> uuid \<Rightarrow> block_row list \<Rightarrow> time \<Rightarrow> db \<Rightarrow> unit res \<times> db" where
  "record_blocks_stmt tenantID deviceID evs now d =
     (if \<not> tenant_exists tenantID d \<or> \<not> device_exists deviceID d then (Inl (PgError ''23503''), d)
      else (Inr (), d\<lparr>block_events := block_events d @
              map (\<lambda>e. e\<lparr>bl_tenant := tenantID, bl_device := deviceID, bl_at := event_time now e\<rparr>) evs\<rparr>))"

definition RecordBlockEvents :: "uuid \<Rightarrow> uuid \<Rightarrow> block_row list \<Rightarrow> time \<Rightarrow> db \<Rightarrow> unit res \<times> db" where
  "RecordBlockEvents tenantID deviceID evs now d =
     (if evs = [] then (Inr (), d) else pool (record_blocks_stmt tenantID deviceID evs now) d)"

definition ListBlockEvents :: "uuid \<Rightarrow> int \<Rightarrow> db \<Rightarrow> block_row list res \<times> db" where
  "ListBlockEvents tenantID limit = pool (\<lambda>d. (Inr (take (nat limit) (sort_key (\<lambda>x. - bl_at x)
     (filter (\<lambda>x. bl_tenant x = tenantID) (block_events d)))), d))"

section \<open>Approval requests\<close>

text \<open>The events of one hash, aggregated.\<close>

record agg =
  ag_path :: string
  ag_signer :: string
  ag_signer_tbs :: string
  ag_signer_verified :: bool
  ag_n :: int
  ag_first :: time
  ag_last :: time

definition new_agg :: "time \<Rightarrow> agg" where
  "new_agg t = \<lparr>ag_path = [], ag_signer = [], ag_signer_tbs = [], ag_signer_verified = False, ag_n = 0, ag_first = t, ag_last = t\<rparr>"

definition add_to_agg :: "time \<Rightarrow> block_row \<Rightarrow> agg \<Rightarrow> agg" where
  "add_to_agg t e a = a\<lparr>ag_n := ag_n a + 1, ag_path := merge_text (ag_path a) (bl_path e),
     ag_signer := merge_text (ag_signer a) (bl_signer e), ag_signer_tbs := merge_text (ag_signer_tbs a) (bl_signer_tbs e),
     ag_signer_verified := ag_signer_verified a \<or> bl_signer_verified e,
     ag_first := (if t < ag_first a then t else ag_first a), ag_last := (if t > ag_last a then t else ag_last a)\<rparr>"

definition aggregate_event :: "time \<Rightarrow> block_row \<Rightarrow> (string \<times> agg) list \<Rightarrow> (string \<times> agg) list" where
  "aggregate_event now e byHash =
     (if bl_sha256 e = [] then byHash
      else let t = event_time now e; h = bl_sha256 e; a = (case map_of byHash h of Some a \<Rightarrow> a | None \<Rightarrow> new_agg t)
           in AList.update h (add_to_agg t e a) byHash)"

definition aggregate :: "time \<Rightarrow> block_row list \<Rightarrow> (string \<times> agg) list" where
  "aggregate now evs = fold (aggregate_event now) evs []"

definition merge_request :: "agg \<Rightarrow> approval_row \<Rightarrow> approval_row" where
  "merge_request a r = r\<lparr>ar_event_count := ar_event_count r + ag_n a, ar_first_seen := min (ar_first_seen r) (ag_first a),
     ar_last_seen := max (ar_last_seen r) (ag_last a), ar_path := merge_text (ar_path r) (ag_path a),
     ar_signer := merge_text (ar_signer r) (ag_signer a), ar_signer_tbs := merge_text (ar_signer_tbs r) (ag_signer_tbs a),
     ar_signer_verified := ar_signer_verified r \<or> ag_signer_verified a\<rparr>"

definition new_request :: "uuid \<Rightarrow> uuid \<Rightarrow> uuid \<Rightarrow> string \<Rightarrow> agg \<Rightarrow> approval_row" where
  "new_request i tenantID policyID h a = \<lparr>ar_id = i, ar_tenant = tenantID, ar_policy = policyID, ar_sha256 = h,
     ar_path = ag_path a, ar_signer = ag_signer a, ar_signer_tbs = ag_signer_tbs a, ar_signer_verified = ag_signer_verified a,
     ar_status = APending, ar_device_count = 0, ar_event_count = ag_n a, ar_first_seen = ag_first a, ar_last_seen = ag_last a,
     ar_decided_by = None, ar_decided_at = None\<rparr>"

text \<open>The upsert on (policy, hash): the identifier of the row and whether it is new.\<close>

definition upsert_request_stmt :: "uuid \<Rightarrow> uuid \<Rightarrow> uuid \<Rightarrow> string \<Rightarrow> agg \<Rightarrow> db \<Rightarrow> (uuid \<times> bool) res \<times> db" where
  "upsert_request_stmt i tenantID policyID h a d =
     (let P = (\<lambda>r. ar_policy r = policyID \<and> ar_sha256 r = h) in
      if \<not> tenant_exists tenantID d \<or> \<not> policy_exists policyID d then (Inl (PgError ''23503''), d)
      else case find_row P (approval_requests d) of
          Some r \<Rightarrow> (Inr (ar_id r, False), d\<lparr>approval_requests := update_where P (merge_request a) (approval_requests d)\<rparr>)
        | None \<Rightarrow> if i \<in> ar_id ` set (approval_requests d) then (Inl (PgError ''23505''), d)
            else (Inr (i, True), d\<lparr>approval_requests := approval_requests d @ [new_request i tenantID policyID h a]\<rparr>))"

definition link_device_stmt :: "uuid \<Rightarrow> uuid \<Rightarrow> db \<Rightarrow> nat res \<times> db" where
  "link_device_stmt i deviceID d =
     (if \<not> device_exists deviceID d then (Inl (PgError ''23503''), d)
      else if (i, deviceID) \<in> set (approval_request_devices d) then (Inr 0, d)
      else (Inr 1, d\<lparr>approval_request_devices := approval_request_devices d @ [(i, deviceID)]\<rparr>))"

definition count_device_stmt :: "uuid \<Rightarrow> db \<Rightarrow> unit res \<times> db" where
  "count_device_stmt i d = (Inr (), d\<lparr>approval_requests :=
     update_where (\<lambda>r. ar_id r = i) (\<lambda>r. r\<lparr>ar_device_count := ar_device_count r + 1\<rparr>) (approval_requests d)\<rparr>)"

definition upsert_one :: "uuid \<Rightarrow> uuid \<Rightarrow> uuid \<Rightarrow> string \<Rightarrow> agg \<Rightarrow> db \<Rightarrow> (uuid \<times> bool) res \<times> db" where
  "upsert_one tenantID policyID deviceID h a d =
     (let (i, d0) = new_uuid d in
      andThen (pool (upsert_request_stmt i tenantID policyID h a) d0) (\<lambda>(j, isNew) d1.
      andThen (pool (link_device_stmt j deviceID) d1) (\<lambda>n d2.
      andThen (if n = 1 then pool (count_device_stmt j) d2 else (Inr (), d2)) (\<lambda>_ d3. (Inr (j, isNew), d3)))))"

fun upsert_each :: "uuid \<Rightarrow> uuid \<Rightarrow> uuid \<Rightarrow> (string \<times> agg) list \<Rightarrow> uuid list \<Rightarrow> db \<Rightarrow> uuid list res \<times> db" where
  "upsert_each tenantID policyID deviceID [] inserted d = (Inr inserted, d)"
| "upsert_each tenantID policyID deviceID ((h, a) # hs) inserted d =
     andThen (upsert_one tenantID policyID deviceID h a d) (\<lambda>(j, isNew) d1.
       upsert_each tenantID policyID deviceID hs (if isNew then inserted @ [j] else inserted) d1)"

definition UpsertApprovalRequests :: "uuid \<Rightarrow> uuid \<Rightarrow> uuid \<Rightarrow> block_row list \<Rightarrow> time \<Rightarrow> db \<Rightarrow> uuid list res \<times> db" where
  "UpsertApprovalRequests tenantID policyID deviceID evs now d =
     (let hs = aggregate now evs in
      if hs = [] then (Inr [], d) else tx (upsert_each tenantID policyID deviceID hs []) d)"

text \<open>A request as the console sees it: the row and the name of its policy.\<close>

definition with_policy :: "db \<Rightarrow> approval_row \<Rightarrow> (approval_row \<times> string) list" where
  "with_policy d r = map (\<lambda>p. (r, po_name p)) (filter (\<lambda>p. po_id p = ar_policy r) (policies d))"

definition ListApprovalRequests :: "uuid \<Rightarrow> approval_status option \<Rightarrow> int \<Rightarrow> db \<Rightarrow> (approval_row \<times> string) list res \<times> db" where
  "ListApprovalRequests tenantID status limit = pool (\<lambda>d. (Inr (take (nat limit) (sort_key (\<lambda>x. - ar_last_seen (fst x))
     (concat (map (with_policy d) (filter (\<lambda>r. ar_tenant r = tenantID \<and> (status = None \<or> status = Some (ar_status r))) (approval_requests d)))))), d))"

definition get_request :: "uuid \<Rightarrow> uuid \<Rightarrow> db \<Rightarrow> (approval_row \<times> string) list" where
  "get_request tenantID i d = concat (map (with_policy d) (filter (\<lambda>r. ar_tenant r = tenantID \<and> ar_id r = i) (approval_requests d)))"

definition GetApprovalRequest :: "uuid \<Rightarrow> uuid \<Rightarrow> db \<Rightarrow> (approval_row \<times> string) res \<times> db" where
  "GetApprovalRequest tenantID i = pool (\<lambda>d. (case get_request tenantID i d of [] \<Rightarrow> Inl ErrNotFound | x # _ \<Rightarrow> Inr x, d))"

definition decide_stmt :: "uuid \<Rightarrow> uuid \<Rightarrow> approval_status \<Rightarrow> uuid \<Rightarrow> time \<Rightarrow> db \<Rightarrow> nat res \<times> db" where
  "decide_stmt tenantID i status adminID now d =
     (let P = (\<lambda>r. ar_tenant r = tenantID \<and> ar_id r = i \<and> ar_status r = APending) in
      (Inr (rows_affected P (approval_requests d)), d\<lparr>approval_requests := update_where P
         (\<lambda>r. r\<lparr>ar_status := status, ar_decided_by := Some adminID, ar_decided_at := Some now\<rparr>) (approval_requests d)\<rparr>))"

definition DecideApprovalRequest :: "uuid \<Rightarrow> uuid \<Rightarrow> approval_status \<Rightarrow> uuid \<Rightarrow> time \<Rightarrow> db \<Rightarrow> unit res \<times> db" where
  "DecideApprovalRequest tenantID i status adminID now d =
     andThen (pool (decide_stmt tenantID i status adminID now) d) (\<lambda>n d1.
       if n = 1 then (Inr (), d1)
       else andThen (GetApprovalRequest tenantID i d1) (\<lambda>_ d2. (Inl ErrConflict, d2)))"

definition CountPendingApprovals :: "uuid \<Rightarrow> db \<Rightarrow> nat res \<times> db" where
  "CountPendingApprovals tenantID = pool (\<lambda>d.
     (Inr (length (filter (\<lambda>r. ar_tenant r = tenantID \<and> ar_status r = APending) (approval_requests d))), d))"

definition ExpireApprovalRequests :: "time \<Rightarrow> db \<Rightarrow> nat res \<times> db" where
  "ExpireApprovalRequests before = pool (\<lambda>d.
     (let P = (\<lambda>r. ar_status r = APending \<and> ar_last_seen r < before) in
      (Inr (rows_affected P (approval_requests d)),
       d\<lparr>approval_requests := update_where P (\<lambda>r. r\<lparr>ar_status := AExpired\<rparr>) (approval_requests d)\<rparr>)))"

section \<open>Console handlers\<close>

text \<open>
  The rule an approval asks for, or the reason it is refused. The text of an identifier
  is an argument.
\<close>

definition approval_rule :: "(uuid \<Rightarrow> string) \<Rightarrow> approval_row \<Rightarrow> string \<Rightarrow> string + rule" where
  "approval_rule uuid_text req kind =
     (let r = (\<lambda>k v n. \<lparr>rule_kind = k, rule_value = v, rule_publisher = n,
          rule_description = ''approved from request '' @ uuid_text (ar_id req) @ '' ('' @ ar_path req @ '')''\<rparr>) in
      if kind = '''' \<or> kind = ''hash'' then Inr (r kind_Hash (ar_sha256 req) '''')
      else if kind = ''path'' then
        (if ar_path req = [] then Inl ''cannot approve by path: this request has no path'' else Inr (r kind_Path (ar_path req) ''''))
      else if kind = ''publisher'' then
        (if ar_signer_tbs req = [] \<or> \<not> ar_signer_verified req then Inl ''cannot approve by publisher: no verified signature for this program''
         else Inr (r kind_Publisher (ar_signer_tbs req) (ar_signer req)))
      else Inl ''kind must be hash, path, or publisher'')"

text \<open>The end of a decision: the status, and the audit entry.\<close>

definition record_decision ::
  "principal \<Rightarrow> approval_row \<Rightarrow> approval_status \<Rightarrow> string \<Rightarrow> time \<Rightarrow> db \<Rightarrow> response \<times> db" where
  "record_decision p req status kind now d =
     (case DecideApprovalRequest (pr_tenant p) (ar_id req) status (ad_id (pr_admin p)) now d of
        (Inl e, d1) \<Rightarrow> (if e = ErrConflict then writeErr 409 ''request already decided'' else storeErr e, d1)
      | (Inr _, d1) \<Rightarrow> (noContent,
          audit p (if status = ADenied then ''approval.deny'' else ''approval.approve'') ''approval'' (IdTxt '''' (ar_id req))
            ([(''policy_id'', DId (ar_policy req)), (''sha256'', DStr (ar_sha256 req))] @
             (if status = AApproved then [(''kind'', DStr kind)] else [])) ''success'' d1))"

definition decideApproval ::
  "'k policy_service \<Rightarrow> (uuid \<Rightarrow> string) \<Rightarrow> principal \<Rightarrow> uuid \<Rightarrow> approval_status \<Rightarrow> string \<Rightarrow> time \<Rightarrow> db \<Rightarrow> response \<times> db" where
  "decideApproval s uuid_text p i status kind now d = (case GetApprovalRequest (pr_tenant p) i d of
       (Inl e, d1) \<Rightarrow> (storeErr e, d1)
     | (Inr (req, _), d1) \<Rightarrow>
         if ar_status req \<noteq> APending then (writeErr 409 ''request already decided'', d1)
         else if status = AApproved then
           (case approval_rule uuid_text req kind of
              Inl m \<Rightarrow> (writeErr 400 m, d1)
            | Inr r \<Rightarrow> (case Normalize r of
                Inl e \<Rightarrow> (writeErr 400 (err_text e), d1)
              | Inr n \<Rightarrow> (case addPolicyRule s p (ar_policy req) n d1 of
                  (Inl e, d2) \<Rightarrow> (storeErr e, d2)
                | (Inr _, d2) \<Rightarrow> record_decision p req status (rule_kind n) now d2)))
         else record_decision p req status kind_Hash now d1)"

definition approveApproval ::
  "'k policy_service \<Rightarrow> (uuid \<Rightarrow> string) \<Rightarrow> principal \<Rightarrow> uuid \<Rightarrow> string \<Rightarrow> time \<Rightarrow> db \<Rightarrow> response \<times> db" where
  "approveApproval s uuid_text p i kind now = decideApproval s uuid_text p i AApproved kind now"

definition denyApproval :: "'k policy_service \<Rightarrow> (uuid \<Rightarrow> string) \<Rightarrow> principal \<Rightarrow> uuid \<Rightarrow> time \<Rightarrow> db \<Rightarrow> response \<times> db" where
  "denyApproval s uuid_text p i now = decideApproval s uuid_text p i ADenied '''' now"

definition promoted :: "string \<Rightarrow> response" where
  "promoted version = writeJSON 201 (JObj [(''version'', JStr version)])"

definition promote_rule :: "'k policy_service \<Rightarrow> principal \<Rightarrow> uuid \<Rightarrow> rule \<Rightarrow> db \<Rightarrow> response \<times> db" where
  "promote_rule s p pid r d = (case Normalize r of
       Inl e \<Rightarrow> (writeErr 400 (err_text e), d)
     | Inr n \<Rightarrow> (case addPolicyRule s p pid n d of
         (Inl e, d1) \<Rightarrow> (storeErr e, d1)
       | (Inr version, d1) \<Rightarrow> (promoted version, audit p ''policy.add_rule'' ''policy'' (IdTxt '''' pid)
           [(''kind'', DStr (rule_kind n)), (''value'', DStr (rule_value n)), (''via'', DStr ''learning'')] ''success'' d1)))"

definition promoteObservation ::
  "'k policy_service \<Rightarrow> principal \<Rightarrow> uuid \<Rightarrow> string \<Rightarrow> string \<Rightarrow> string \<Rightarrow> db \<Rightarrow> response \<times> db" where
  "promoteObservation s p pid sha256 kind description d =
     (if kind = '''' \<or> kind = ''hash'' then
        promote_rule s p pid \<lparr>rule_kind = kind_Hash, rule_value = sha256, rule_publisher = '''', rule_description = description\<rparr> d
      else if kind = ''publisher'' then
        (case ObservationPublisher (pr_tenant p) sha256 d of
           (Inl e, d1) \<Rightarrow> (storeErr e, d1)
         | (Inr (tbs, name, verified), d1) \<Rightarrow>
             if tbs = [] \<or> \<not> verified
             then (writeErr 400 ''this program has no verified publisher; allow it by hash instead'', d1)
             else promote_rule s p pid \<lparr>rule_kind = kind_Publisher, rule_value = tbs, rule_publisher = name, rule_description = description\<rparr> d1)
      else (writeErr 400 ''kind must be hash or publisher'', d))"

section \<open>Decided requests stay decided\<close>

definition request_step :: "approval_row \<Rightarrow> approval_row \<Rightarrow> bool" where
  "request_step r r' \<longleftrightarrow> ar_id r' = ar_id r \<and> (ar_status r = APending \<or> ar_status r' = ar_status r)"

lemma request_step_refl [simp]: "request_step r r"
  by (simp add: request_step_def)

lemma request_step_trans: "request_step x y \<Longrightarrow> request_step y z \<Longrightarrow> request_step x z"
  by (auto simp: request_step_def)

definition requests_step :: "db \<Rightarrow> db \<Rightarrow> bool" where
  "requests_step d d' \<longleftrightarrow> grows request_step (approval_requests d) (approval_requests d')"

lemma requests_step_refl [simp]: "approval_requests d' = approval_requests d \<Longrightarrow> requests_step d d'"
  by (simp add: requests_step_def grows_refl)

lemma requests_step_trans: "requests_step d d1 \<Longrightarrow> requests_step d1 d2 \<Longrightarrow> requests_step d d2"
  unfolding requests_step_def by (rule grows_trans) (blast intro: request_step_trans)+

lemma requests_step_frame [simp]:
  "requests_step (d\<lparr>faults := fs\<rparr>) d' = requests_step d d'" "requests_step d (d'\<lparr>faults := fs\<rparr>) = requests_step d d'"
  "requests_step (d\<lparr>next_uuid := u\<rparr>) d' = requests_step d d'" "requests_step d (d'\<lparr>next_uuid := u\<rparr>) = requests_step d d'"
  "requests_step d (d'\<lparr>policy_rules := rs\<rparr>) = requests_step d d'" "requests_step d (d'\<lparr>policy_versions := vs\<rparr>) = requests_step d d'"
  "requests_step d (d'\<lparr>approval_request_devices := ls\<rparr>) = requests_step d d'"
  by (simp_all add: requests_step_def)

lemma requests_step_audit [simp]: "requests_step d (audit p a b c e g d') = requests_step d d'"
  by (rule audit_shape [of p a b c e g d']) (simp add: requests_step_def)

lemma requests_step_pool:
  assumes "\<And>d. requests_step d (snd (stmt d))"
  shows "requests_step d (snd (pool stmt d))"
proof (cases stmt d rule: pool_cases)
  case (ran rest)
  with assms [of "d\<lparr>faults := rest\<rparr>"] show ?thesis by simp
qed simp

lemma requests_step_andThen:
  assumes "requests_step d (snd m)" "\<And>x d1. requests_step d1 (snd (k x d1))"
  shows "requests_step d (snd (andThen m k))"
  by (rule andThen_state [where P = "requests_step d"]) (auto intro: assms requests_step_trans)

lemma request_stmts_step:
  "requests_step d (snd (upsert_request_stmt i t p h a d))" "requests_step d (snd (link_device_stmt i v d))"
  "requests_step d (snd (count_device_stmt i d))" "requests_step d (snd (decide_stmt t i st adm now d))"
  by (auto simp: upsert_request_stmt_def link_device_stmt_def count_device_stmt_def decide_stmt_def Let_def requests_step_def
      grows_refl grows_append merge_request_def request_step_def intro!: grows_update split: option.split)

lemma upsert_one_step: "requests_step d (snd (upsert_one t p v h a d))"
  unfolding upsert_one_def new_uuid_def Let_def split_beta
  using requests_step_pool [OF request_stmts_step(1), of "d\<lparr>next_uuid := Suc (next_uuid d)\<rparr>"]
  by (auto intro!: requests_step_andThen requests_step_pool request_stmts_step)

lemma upsert_each_step: "requests_step d (snd (upsert_each t p v hs ids d))"
proof (induction hs arbitrary: ids d)
  case (Cons x hs)
  then show ?case by (cases x) (auto simp: split_beta intro!: requests_step_andThen upsert_one_step)
qed simp

lemma Upsert_step: "requests_step d (snd (UpsertApprovalRequests t p v evs now d))"
proof (cases "aggregate now evs = []")
  case False
  show ?thesis
  proof (cases "upsert_each t p v (aggregate now evs) []" d rule: tx_cases)
    case (rollback e fs u)
    with False show ?thesis by (simp add: UpsertApprovalRequests_def Let_def)
  next
    case (commit fs x d' fs')
    with False upsert_each_step [of "d\<lparr>faults := fs\<rparr>" t p v "aggregate now evs" "[]"] show ?thesis
      by (simp add: UpsertApprovalRequests_def Let_def)
  qed
qed (simp add: UpsertApprovalRequests_def Let_def)

lemma reads_requests:
  "approval_requests (snd (pool (\<lambda>d. (f d, d)) d)) = approval_requests d"
  by (cases "\<lambda>d. (f d, d)" d rule: pool_cases) simp_all

lemma Decide_step: "requests_step d (snd (DecideApprovalRequest t i st adm now d))"
proof -
  have get: "requests_step d (snd (GetApprovalRequest t i d))" for d
    by (simp add: GetApprovalRequest_def reads_requests)
  have "requests_step d1 (snd (if n = (1::nat) then (Inr () :: unit res, d1)
      else andThen (GetApprovalRequest t i d1) (\<lambda>_ d2. (Inl ErrConflict, d2))))" for n d1
    using get by (simp add: requests_step_andThen)
  then show ?thesis
    unfolding DecideApprovalRequest_def
    by (intro requests_step_andThen requests_step_pool request_stmts_step)
qed

lemma Expire_step: "requests_step d (snd (ExpireApprovalRequests b d))"
  unfolding ExpireApprovalRequests_def
  by (rule requests_step_pool) (auto simp: Let_def requests_step_def request_step_def intro!: grows_update)

lemma addPolicyRule_step: "requests_step d (snd (addPolicyRule s p i r d))"
proof -
  have ar: "requests_step d (snd (AddRule (pr_tenant p) i r d))"
    using requests_step_pool [of "insert_rule_stmt (next_uuid d) (pr_tenant p) i r" "d\<lparr>next_uuid := Suc (next_uuid d)\<rparr>"]
    by (simp add: AddRule_def new_uuid_def split_beta insert_rule_stmt_def)
  have "requests_step d1 (snd (Recompile s (pr_tenant p) i d1))" for d1
    by (cases s "pr_tenant p" i d1 rule: Recompile_cases) simp_all
  with ar show ?thesis
    by (cases "AddRule (pr_tenant p) i r d") (auto simp: addPolicyRule_def split: sum.splits intro: requests_step_trans)
qed

lemma record_decision_step: "requests_step d (snd (record_decision p req st k now d))"
  using Decide_step [of d "pr_tenant p" "ar_id req" st "ad_id (pr_admin p)" now]
  by (cases "DecideApprovalRequest (pr_tenant p) (ar_id req) st (ad_id (pr_admin p)) now d") (auto simp: record_decision_def split: sum.splits)

lemma decideApproval_step: "requests_step d (snd (decideApproval s ut p i st k now d))"
proof -
  obtain r d1 where g: "GetApprovalRequest (pr_tenant p) i d = (r, d1)" by fastforce
  have "requests_step d (snd (GetApprovalRequest (pr_tenant p) i d))" by (simp add: GetApprovalRequest_def reads_requests)
  with g have d1: "requests_step d d1" by simp
  show ?thesis
  proof (cases r)
    case (Inr x)
    obtain req name where x: "x = (req, name)" by fastforce
    have "requests_step d1 (snd (decideApproval s ut p i st k now d))"
    proof (cases "ar_status req = APending \<and> st = AApproved")
      case True
      have "requests_step d1 (snd (case addPolicyRule s p (ar_policy req) n d1 of (Inl e, d2) \<Rightarrow> (storeErr e, d2)
          | (Inr _, d2) \<Rightarrow> record_decision p req st (rule_kind n) now d2))" for n
      proof -
        obtain q d2 where q: "addPolicyRule s p (ar_policy req) n d1 = (q, d2)" by fastforce
        with addPolicyRule_step [of d1 s p "ar_policy req" n] have "requests_step d1 d2" by simp
        from this q requests_step_trans [OF this record_decision_step] show ?thesis by (cases q) simp_all
      qed
      then have rule: "requests_step d1 (snd (case Normalize r of Inl e \<Rightarrow> (writeErr 400 (err_text e), d1)
          | Inr n \<Rightarrow> (case addPolicyRule s p (ar_policy req) n d1 of (Inl e, d2) \<Rightarrow> (storeErr e, d2)
            | (Inr _, d2) \<Rightarrow> record_decision p req st (rule_kind n) now d2)))" for r
        by (cases "Normalize r") (simp_all only: sum.case snd_conv requests_step_refl)
      have st: "st = AApproved" using True by simp
      from True g Inr x have "decideApproval s ut p i st k now d = (case approval_rule ut req k of
          Inl m \<Rightarrow> (writeErr 400 m, d1)
        | Inr r \<Rightarrow> (case Normalize r of Inl e \<Rightarrow> (writeErr 400 (err_text e), d1)
          | Inr n \<Rightarrow> (case addPolicyRule s p (ar_policy req) n d1 of (Inl e, d2) \<Rightarrow> (storeErr e, d2)
            | (Inr _, d2) \<Rightarrow> record_decision p req st (rule_kind n) now d2)))"
        unfolding st by (simp add: decideApproval_def)
      with rule show ?thesis by (cases "approval_rule ut req k") (simp_all only: sum.case snd_conv requests_step_refl)
    next
      case False
      with g Inr x record_decision_step show ?thesis by (simp add: decideApproval_def)
    qed
    with d1 show ?thesis by (rule requests_step_trans)
  qed (use g d1 in \<open>simp add: decideApproval_def\<close>)
qed

text \<open>Everything that can happen to approval requests, short of deleting their policy.\<close>

inductive_set approval_ops :: "'k policy_service \<Rightarrow> (db \<Rightarrow> db) set" for s where
  report: "(\<lambda>d. snd (UpsertApprovalRequests t p v evs now d)) \<in> approval_ops s"
| decide: "(\<lambda>d. snd (decideApproval s ut p i st k now d)) \<in> approval_ops s"
| expire: "(\<lambda>d. snd (ExpireApprovalRequests b d)) \<in> approval_ops s"

definition request_status :: "db \<Rightarrow> uuid \<Rightarrow> approval_status option" where
  "request_status d i = map_option ar_status (find_row (\<lambda>r. ar_id r = i) (approval_requests d))"

definition request_edge :: "approval_status \<Rightarrow> approval_status \<Rightarrow> bool" where
  "request_edge s s' \<longleftrightarrow> s = APending"

interpretation approval_life: lifecycle request_status "approval_ops s" request_edge for s
proof
  fix f d i st
  assume f: "f \<in> approval_ops s" and st: "request_status d i = Some st"
  from st obtain r where r: "find_row (\<lambda>r. ar_id r = i) (approval_requests d) = Some r" "st = ar_status r"
    by (auto simp: request_status_def)
  from f have "requests_step d (f d)" by cases (simp_all add: Upsert_step decideApproval_step Expire_step)
  then obtain r' where "find_row (\<lambda>r. ar_id r = i) (approval_requests (f d)) = Some r'" "request_step r r'"
    using grows_find [of request_step "approval_requests d" "approval_requests (f d)" ar_id i r] r(1)
    by (auto simp: requests_step_def request_step_def)
  with r(2) show "\<exists>s'. request_status (f d) i = Some s' \<and> (s' = st \<or> request_edge st s')"
    by (auto simp: request_status_def request_edge_def request_step_def)
qed

text \<open>
  A decision is final. Once a request is approved, denied or expired, no later block
  report of any device, no other decision and no expiry changes its status, whatever
  statements fail, as long as its policy is not deleted.
\<close>

theorem approval_decided_forever:
  assumes "set fs \<subseteq> approval_ops s" and "request_status d i = Some st" and "st \<noteq> APending"
  shows "request_status (fold (\<lambda>f. f) fs d) i = Some st"
  using approval_life.terminal_forever [OF assms(1) _ assms(2)] assms(3) by (simp add: request_edge_def)

definition demo_request :: "uuid \<Rightarrow> string \<Rightarrow> approval_status \<Rightarrow> approval_row" where
  "demo_request i h st = (new_request i 7 20 h (new_agg 5))\<lparr>ar_status := st\<rparr>"

definition demo_block :: "string \<Rightarrow> string \<Rightarrow> bool \<Rightarrow> time \<Rightarrow> block_row" where
  "demo_block h tbs ver t = \<lparr>bl_tenant = 0, bl_device = 0, bl_sha256 = h, bl_path = ''C:'' @ [BSL, CHR ''a''], bl_signer = ''s'',
     bl_signer_tbs = tbs, bl_signer_verified = ver, bl_blocked = True, bl_at = t\<rparr>"

theorem approval_decided_forever_witness:
  "request_status (snd (UpsertApprovalRequests 7 20 4 [demo_block ''h'' [] False 9] 10
     (demo_assigned\<lparr>approval_requests := [demo_request 31 ''h'' ADenied]\<rparr>))) 31 = Some ADenied"
proof -
  let ?d = "demo_assigned\<lparr>approval_requests := [demo_request 31 ''h'' ADenied]\<rparr>"
  let ?f = "\<lambda>d. snd (UpsertApprovalRequests 7 20 4 [demo_block ''h'' [] False 9] 10 d)"
  have "request_status ?d 31 = Some ADenied" by (simp add: request_status_def demo_request_def new_request_def)
  moreover have "set [?f] \<subseteq> approval_ops demo_policies" by (simp add: approval_ops.report)
  ultimately show ?thesis using approval_decided_forever [of "[?f]" demo_policies ?d 31 ADenied] by simp
qed

section \<open>What the counters count\<close>

text \<open>
  The abstract view of a policy's requests: for every hash, the list of the devices that
  reported it and when. A request row represents such a list by its length, the number
  of different devices, the earliest and the latest time.
\<close>

definition seen_times :: "time \<Rightarrow> block_row list \<Rightarrow> string \<Rightarrow> time list" where
  "seen_times now evs h = (if h = [] then [] else map (event_time now) (filter (\<lambda>e. bl_sha256 e = h) evs))"

definition agg_of :: "agg \<Rightarrow> time list \<Rightarrow> bool" where
  "agg_of a ts \<longleftrightarrow> ts \<noteq> [] \<and> ag_n a = int (length ts) \<and> ag_first a = Min (set ts) \<and> ag_last a = Max (set ts)"

definition request_of :: "approval_row \<Rightarrow> (uuid \<times> time) list \<Rightarrow> bool" where
  "request_of r seen \<longleftrightarrow> seen \<noteq> [] \<and> ar_event_count r = int (length seen) \<and> ar_device_count r = int (card (fst ` set seen)) \<and>
     ar_first_seen r = Min (snd ` set seen) \<and> ar_last_seen r = Max (snd ` set seen)"

definition request_at :: "uuid \<Rightarrow> string \<Rightarrow> db \<Rightarrow> approval_row option" where
  "request_at p h d = find_row (\<lambda>r. (ar_policy r, ar_sha256 r) = (p, h)) (approval_requests d)"

definition represents :: "uuid \<Rightarrow> (string \<Rightarrow> (uuid \<times> time) list) \<Rightarrow> db \<Rightarrow> bool" where
  "represents p F d \<longleftrightarrow> (\<forall>h. case request_at p h d of
       None \<Rightarrow> F h = []
     | Some r \<Rightarrow> request_of r (F h) \<and> {v. (ar_id r, v) \<in> set (approval_request_devices d)} = fst ` set (F h))"

definition requests_ok :: "db \<Rightarrow> bool" where
  "requests_ok d \<longleftrightarrow> distinct (map ar_id (approval_requests d)) \<and> fst ` set (approval_request_devices d) \<subseteq> ar_id ` set (approval_requests d)"

subsection \<open>Aggregation\<close>

lemma agg_of_add:
  assumes "agg_of a ts"
  shows "agg_of (add_to_agg t e a) (ts @ [t])"
proof -
  obtain lo hi where lo: "Min (set ts) = lo" "Max (set ts) = hi" by blast
  have "ts \<noteq> []" using assms by (simp add: agg_of_def)
  then have "Min (set (ts @ [t])) = min t lo" "Max (set (ts @ [t])) = max t hi" using lo by simp_all
  with assms lo show ?thesis unfolding agg_of_def by (simp add: add_to_agg_def min_def max_def)
qed

lemma agg_of_new: "agg_of (add_to_agg t e (new_agg t)) [t]"
  by (simp add: agg_of_def add_to_agg_def new_agg_def)

lemma aggregate_snoc: "aggregate now (evs @ [e]) = aggregate_event now e (aggregate now evs)"
  by (simp add: aggregate_def)

lemma aggregate_spec:
  "distinct (map fst (aggregate now evs)) \<and>
   (\<forall>h. case map_of (aggregate now evs) h of None \<Rightarrow> seen_times now evs h = [] | Some a \<Rightarrow> agg_of a (seen_times now evs h))"
proof (induction evs rule: rev_induct)
  case Nil
  then show ?case by (simp add: aggregate_def seen_times_def)
next
  case (snoc e evs)
  show ?case
  proof (cases "bl_sha256 e = []")
    case True
    then have "seen_times now (evs @ [e]) h = seen_times now evs h" for h by (auto simp: seen_times_def)
    with True snoc show ?thesis by (simp add: aggregate_snoc aggregate_event_def cong: option.case_cong)
  next
    case False
    let ?h = "bl_sha256 e" and ?t = "event_time now e"
    let ?a = "add_to_agg ?t e (case map_of (aggregate now evs) ?h of Some a \<Rightarrow> a | None \<Rightarrow> new_agg ?t)"
    have ag: "aggregate now (evs @ [e]) = AList.update ?h ?a (aggregate now evs)"
      using False by (simp add: aggregate_snoc aggregate_event_def Let_def)
    have ts: "seen_times now (evs @ [e]) h = (if h = ?h then seen_times now evs h @ [?t] else seen_times now evs h)" for h
      using False by (auto simp: seen_times_def)
    have old: "case map_of (aggregate now evs) h of None \<Rightarrow> seen_times now evs h = [] | Some a \<Rightarrow> agg_of a (seen_times now evs h)" for h
      using snoc by blast
    have "agg_of ?a (seen_times now evs ?h @ [?t])"
      using old [of ?h] by (cases "map_of (aggregate now evs) ?h") (simp_all add: agg_of_new agg_of_add)
    moreover have "map_of (aggregate now (evs @ [e])) h = (if h = ?h then Some ?a else map_of (aggregate now evs) h)" for h
      by (simp add: ag update_conv')
    moreover have "distinct (map fst (aggregate now (evs @ [e])))" unfolding ag using snoc by (simp add: distinct_update)
    ultimately show ?thesis using old ts by (simp cong: option.case_cong)
  qed
qed

subsection \<open>Storing one aggregate\<close>

lemma request_of_merge:
  assumes "request_of r seen" "agg_of a ts"
  shows "ar_event_count (merge_request a r) = int (length (seen @ map (Pair v) ts))"
    "ar_first_seen (merge_request a r) = Min (snd ` set (seen @ map (Pair v) ts))"
    "ar_last_seen (merge_request a r) = Max (snd ` set (seen @ map (Pair v) ts))"
proof -
  have ne: "snd ` set seen \<noteq> {}" "set ts \<noteq> {}" using assms by (simp_all add: request_of_def agg_of_def)
  have "snd ` set (seen @ map (Pair v) ts) = snd ` set seen \<union> set ts" by force
  with ne assms show "ar_first_seen (merge_request a r) = Min (snd ` set (seen @ map (Pair v) ts))"
    "ar_last_seen (merge_request a r) = Max (snd ` set (seen @ map (Pair v) ts))"
    by (simp_all add: Min_Un Max_Un request_of_def agg_of_def merge_request_def del: set_append)
  show "ar_event_count (merge_request a r) = int (length (seen @ map (Pair v) ts))"
    using assms by (simp add: request_of_def agg_of_def merge_request_def)
qed

lemma request_of_new:
  assumes "agg_of a ts"
  shows "ar_event_count (new_request i t p h a) = int (length (map (Pair v) ts))"
    "ar_first_seen (new_request i t p h a) = Min (snd ` set (map (Pair v) ts))"
    "ar_last_seen (new_request i t p h a) = Max (snd ` set (map (Pair v) ts))"
  using assms by (simp_all add: agg_of_def new_request_def image_image)

text \<open>The row of a hash and its device links after one aggregate has been stored.\<close>

definition counted :: "bool \<Rightarrow> approval_row \<Rightarrow> approval_row" where
  "counted b r = (if b then r\<lparr>ar_device_count := ar_device_count r + 1\<rparr> else r)"

lemma counted_simps [simp]:
  "ar_id (counted b r) = ar_id r" "ar_policy (counted b r) = ar_policy r" "ar_sha256 (counted b r) = ar_sha256 r"
  "ar_event_count (counted b r) = ar_event_count r" "ar_first_seen (counted b r) = ar_first_seen r"
  "ar_last_seen (counted b r) = ar_last_seen r" "ar_device_count (counted b r) = ar_device_count r + (if b then 1 else 0)"
  by (simp_all add: counted_def)

lemma merge_simps [simp]:
  "ar_id (merge_request a r) = ar_id r" "ar_policy (merge_request a r) = ar_policy r" "ar_sha256 (merge_request a r) = ar_sha256 r"
  "ar_device_count (merge_request a r) = ar_device_count r"
  "ar_id (new_request i t p h a) = i" "ar_policy (new_request i t p h a) = p" "ar_sha256 (new_request i t p h a) = h"
  "ar_device_count (new_request i t p h a) = 0"
  by (simp_all add: merge_request_def new_request_def)

lemma request_of_counted:
  assumes "agg_of a ts" and "seen \<noteq> [] \<Longrightarrow> request_of r seen \<and> q = merge_request a r"
    and "seen = [] \<Longrightarrow> q = new_request i t p h a"
  shows "request_of (counted (v \<notin> fst ` set seen) q) (seen @ map (Pair v) ts)"
proof -
  have ts: "ts \<noteq> []" using assms(1) by (simp add: agg_of_def)
  have dev: "fst ` set (seen @ map (Pair v) ts) = insert v (fst ` set seen)"
  proof -
    have "fst ` set (map (Pair v) ts) = {v}" using ts by (cases ts) auto
    then show ?thesis by (simp only: set_append image_Un Un_insert_right Un_empty_right)
  qed
  have card: "int (card (insert v (fst ` set seen))) = int (card (fst ` set seen)) + (if v \<notin> fst ` set seen then 1 else 0)"
    by (simp add: card_insert_if)
  show ?thesis
  proof (cases "seen = []")
    case True
    with assms(3) have q: "q = new_request i t p h a" by simp
    have dc: "ar_device_count q = int (card (fst ` set seen))" using True q by simp
    show ?thesis
      unfolding request_of_def counted_simps dev card dc
      using request_of_new [OF assms(1), of i t p h v] ts unfolding q True append_Nil by (intro conjI refl) blast+
  next
    case False
    with assms(2) have r: "request_of r seen" and q: "q = merge_request a r" by simp_all
    have dc: "ar_device_count q = int (card (fst ` set seen))" using r q by (simp add: request_of_def)
    show ?thesis
      unfolding request_of_def counted_simps dev card dc
      using request_of_merge [OF r assms(1), of v] ts unfolding q by (intro conjI refl) blast+
  qed
qed

text \<open>The three statements of one aggregate, taken together.\<close>

definition stored_rows :: "uuid \<Rightarrow> uuid \<Rightarrow> uuid \<Rightarrow> string \<Rightarrow> agg \<Rightarrow> approval_row list \<Rightarrow> approval_row list" where
  "stored_rows i t p h a rs =
     (if \<exists>r \<in> set rs. (ar_policy r, ar_sha256 r) = (p, h)
      then update_where (\<lambda>r. (ar_policy r, ar_sha256 r) = (p, h)) (merge_request a) rs
      else rs @ [new_request i t p h a])"

lemma upsert_request_ok:
  assumes "upsert_request_stmt i t p h a d = (Inr (j, new), d')"
  shows "d' = d\<lparr>approval_requests := stored_rows j t p h a (approval_requests d)\<rparr> \<and>
    (case request_at p h d of Some r \<Rightarrow> j = ar_id r | None \<Rightarrow> j = i \<and> i \<notin> ar_id ` set (approval_requests d))"
proof -
  have eq: "(\<lambda>r. ar_policy r = p \<and> ar_sha256 r = h) = (\<lambda>r. (ar_policy r, ar_sha256 r) = (p, h))" by auto
  have ex: "(\<exists>r \<in> set (approval_requests d). (ar_policy r, ar_sha256 r) = (p, h)) \<longleftrightarrow> request_at p h d \<noteq> None"
    unfolding request_at_def by (subst find_row_None) blast
  show ?thesis
    using assms unfolding upsert_request_stmt_def Let_def eq request_at_def [symmetric] stored_rows_def ex
    by (auto split: if_splits option.splits)
qed

lemma upsert_one_ok:
  assumes "upsert_one t p v h a d = (Inr (j, new), d')"
  obtains fs u where
    "d' = d\<lparr>faults := fs, next_uuid := u,
       approval_requests := (let rs = stored_rows j t p h a (approval_requests d) in
         if (j, v) \<in> set (approval_request_devices d) then rs else update_where (\<lambda>r. ar_id r = j) (counted True) rs),
       approval_request_devices := (if (j, v) \<in> set (approval_request_devices d) then approval_request_devices d
         else approval_request_devices d @ [(j, v)])\<rparr>"
    "case request_at p h d of Some r \<Rightarrow> j = ar_id r | None \<Rightarrow> j \<notin> ar_id ` set (approval_requests d)"
proof -
  let ?d0 = "d\<lparr>next_uuid := Suc (next_uuid d)\<rparr>"
  from assms obtain x d1 where s1: "pool (upsert_request_stmt (next_uuid d) t p h a) ?d0 = (Inr x, d1)"
    and r1: "(case x of (j, isNew) \<Rightarrow> \<lambda>d1. andThen (pool (link_device_stmt j v) d1) (\<lambda>n d2.
      andThen (if n = 1 then pool (count_device_stmt j) d2 else (Inr (), d2)) (\<lambda>_ d3. (Inr (j, isNew), d3)))) d1 = (Inr (j, new), d')"
    unfolding upsert_one_def new_uuid_def Let_def prod.case by (rule andThen_ok)
  obtain k isNew where x: "x = (k, isNew)" by fastforce
  from r1 obtain n d2 where s2: "pool (link_device_stmt k v) d1 = (Inr n, d2)"
    and r2: "andThen (if n = 1 then pool (count_device_stmt k) d2 else (Inr (), d2)) (\<lambda>_ d3. (Inr (k, isNew), d3)) = (Inr (j, new), d')"
    unfolding x prod.case by (rule andThen_ok)
  from r2 obtain w d3 where s3: "(if n = 1 then pool (count_device_stmt k) d2 else (Inr (), d2)) = (Inr w, d3)" and k: "k = j" "d' = d3"
    by (rule andThen_ok) auto
  from s1 obtain f1 where "upsert_request_stmt (next_uuid d) t p h a (?d0\<lparr>faults := f1\<rparr>) = (Inr (j, isNew), d1)"
    unfolding x k by (rule pool_ok)
  from upsert_request_ok [OF this] have d1: "d1 = d\<lparr>faults := f1, next_uuid := Suc (next_uuid d),
      approval_requests := stored_rows j t p h a (approval_requests d)\<rparr>"
    and at: "case request_at p h d of Some r \<Rightarrow> j = ar_id r | None \<Rightarrow> j \<notin> ar_id ` set (approval_requests d)"
    by (auto simp: request_at_def faults_first split: option.splits)
  from s2 obtain f2 where "link_device_stmt j v (d1\<lparr>faults := f2\<rparr>) = (Inr n, d2)" unfolding k by (rule pool_ok)
  then have l: "(j, v) \<in> set (approval_request_devices d) \<and> n = 0 \<and> d2 = d1\<lparr>faults := f2\<rparr> \<or>
      (j, v) \<notin> set (approval_request_devices d) \<and> n = 1 \<and>
        d2 = d1\<lparr>faults := f2, approval_request_devices := approval_request_devices d @ [(j, v)]\<rparr>"
    by (auto simp: link_device_stmt_def d1 split: if_splits)
  show thesis
  proof (cases "(j, v) \<in> set (approval_request_devices d)")
    case True
    with l s3 k have "d' = d1\<lparr>faults := f2\<rparr>" by simp
    with True at show thesis by (intro that [of "Suc (next_uuid d)" f2]) (simp_all add: d1 faults_first Let_def)
  next
    case False
    with l s3 k have "pool (count_device_stmt j) d2 = (Inr w, d3)" by simp
    then obtain f3 where "count_device_stmt j (d2\<lparr>faults := f3\<rparr>) = (Inr w, d3)" by (rule pool_ok)
    with False l k have "d' = d1\<lparr>faults := f3, approval_request_devices := approval_request_devices d @ [(j, v)],
        approval_requests := update_where (\<lambda>r. ar_id r = j) (counted True) (approval_requests d1)\<rparr>"
      by (auto simp: count_device_stmt_def counted_def [abs_def] faults_first)
    with False at show thesis by (intro that [of "Suc (next_uuid d)" f3]) (simp_all add: d1 faults_first Let_def)
  qed
qed

lemma stored_rows_at:
  "find_row (\<lambda>r. (ar_policy r, ar_sha256 r) = k) (stored_rows j t p h a rs) =
     (if k = (p, h) then Some (case find_row (\<lambda>r. (ar_policy r, ar_sha256 r) = (p, h)) rs of
         Some r \<Rightarrow> merge_request a r | None \<Rightarrow> new_request j t p h a)
      else find_row (\<lambda>r. (ar_policy r, ar_sha256 r) = k) rs)"
proof (cases "find_row (\<lambda>r. (ar_policy r, ar_sha256 r) = (p, h)) rs")
  case None
  then have "\<not> (\<exists>r \<in> set rs. (ar_policy r, ar_sha256 r) = (p, h))" unfolding find_row_None by blast
  with None show ?thesis by (auto simp: stored_rows_def find_row_append split: option.split)
next
  case (Some r)
  then have ex: "\<exists>r \<in> set rs. (ar_policy r, ar_sha256 r) = (p, h)" using find_row_Some by fastforce
  have "find_row (\<lambda>r. (ar_policy r, ar_sha256 r) = k) (update_where (\<lambda>r. (ar_policy r, ar_sha256 r) = (p, h)) (merge_request a) rs) =
      map_option (\<lambda>r. if (ar_policy r, ar_sha256 r) = (p, h) then merge_request a r else r)
        (find_row (\<lambda>r. (ar_policy r, ar_sha256 r) = k) rs)"
    by (rule find_row_update_where) simp
  with ex Some show ?thesis
    unfolding stored_rows_def
    by (cases "find_row (\<lambda>r. (ar_policy r, ar_sha256 r) = k) rs") (auto dest: find_row_Some)
qed

lemma stored_rows_ids:
  assumes "distinct (map ar_id rs)"
    and "case find_row (\<lambda>r. (ar_policy r, ar_sha256 r) = (p, h)) rs of Some r \<Rightarrow> j = ar_id r | None \<Rightarrow> j \<notin> ar_id ` set rs"
  shows "distinct (map ar_id (stored_rows j t p h a rs))" "insert j (ar_id ` set rs) = ar_id ` set (stored_rows j t p h a rs)"
proof -
  have "distinct (map ar_id (stored_rows j t p h a rs)) \<and> insert j (ar_id ` set rs) = ar_id ` set (stored_rows j t p h a rs)"
  proof (cases "find_row (\<lambda>r. (ar_policy r, ar_sha256 r) = (p, h)) rs")
    case None
    then have "\<not> (\<exists>r \<in> set rs. (ar_policy r, ar_sha256 r) = (p, h))" unfolding find_row_None by blast
    with None assms show ?thesis by (auto simp: stored_rows_def)
  next
    case (Some r)
    then have ex: "\<exists>r \<in> set rs. (ar_policy r, ar_sha256 r) = (p, h)" and j: "j \<in> ar_id ` set rs"
      using find_row_Some [OF Some] assms(2) by auto
    have m: "map ar_id (update_where (\<lambda>r. (ar_policy r, ar_sha256 r) = (p, h)) (merge_request a) rs) = map ar_id rs"
      by (rule map_update_where_inv) simp
    have "ar_id ` set (update_where (\<lambda>r. (ar_policy r, ar_sha256 r) = (p, h)) (merge_request a) rs) = ar_id ` set rs"
      using m by (metis list.set_map)
    with ex m j assms(1) show ?thesis by (simp add: stored_rows_def insert_absorb)
  qed
  then show "distinct (map ar_id (stored_rows j t p h a rs))" "insert j (ar_id ` set rs) = ar_id ` set (stored_rows j t p h a rs)" by auto
qed

lemma other_id:
  assumes "distinct (map ar_id rs)" "find_row (\<lambda>r. (ar_policy r, ar_sha256 r) = k) rs = Some r"
    "find_row (\<lambda>r. (ar_policy r, ar_sha256 r) = k') rs = Some r'" "k \<noteq> k'"
  shows "ar_id r \<noteq> ar_id r'"
proof
  assume "ar_id r = ar_id r'"
  with assms find_row_Some [OF assms(2)] find_row_Some [OF assms(3)] have "r = r'" by (auto simp: distinct_map inj_on_def)
  with find_row_Some [OF assms(2)] find_row_Some [OF assms(3)] assms(4) show False by auto
qed

lemma represents_upsert:
  assumes ok: "requests_ok d" and rep: "represents p F d" and ag: "agg_of a ts"
    and one: "upsert_one t p v h a d = (Inr (j, new), d')"
  shows "represents p (F(h := F h @ map (Pair v) ts)) d' \<and> requests_ok d'"
proof -
  let ?rs = "approval_requests d" and ?ls = "approval_request_devices d"
  let ?st = "stored_rows j t p h a ?rs" and ?b = "(j, v) \<notin> set ?ls"
  from one obtain fs u where d': "approval_requests d' = (if ?b then update_where (\<lambda>r. ar_id r = j) (counted True) ?st else ?st)"
      "approval_request_devices d' = (if ?b then ?ls @ [(j, v)] else ?ls)"
    and at: "case request_at p h d of Some r \<Rightarrow> j = ar_id r | None \<Rightarrow> j \<notin> ar_id ` set ?rs"
    by (rule upsert_one_ok) (simp add: Let_def)
  have ids: "distinct (map ar_id ?st)" "insert j (ar_id ` set ?rs) = ar_id ` set ?st"
    using stored_rows_ids [where rs = ?rs and p = p and h = h and j = j and t = t and a = a] ok at by (simp_all add: requests_ok_def request_at_def)
  have m: "map ar_id (approval_requests d') = map ar_id ?st" unfolding d' by (simp add: map_update_where_inv)
  then have s: "ar_id ` set (approval_requests d') = insert j (ar_id ` set ?rs)" using ids(2) by (metis list.set_map)
  have lk: "fst ` set ?ls \<subseteq> ar_id ` set ?rs" using ok by (simp add: requests_ok_def)
  have links: "(i, w) \<in> set (approval_request_devices d') \<longleftrightarrow> (i, w) \<in> set ?ls \<or> (i, w) = (j, v)" for i w
    unfolding d' by auto
  have ok': "requests_ok d'" using lk ids(1) m unfolding requests_ok_def s by (fastforce simp: links)
  have row: "request_at p k d' = map_option (\<lambda>r. counted (?b \<and> ar_id r = j) r)
      (find_row (\<lambda>r. (ar_policy r, ar_sha256 r) = (p, k)) ?st)" for k
  proof (cases ?b)
    case True
    have "find_row (\<lambda>r. (ar_policy r, ar_sha256 r) = (p, k)) (update_where (\<lambda>r. ar_id r = j) (counted True) ?st) =
        map_option (\<lambda>r. if ar_id r = j then counted True r else r) (find_row (\<lambda>r. (ar_policy r, ar_sha256 r) = (p, k)) ?st)"
      by (rule find_row_update_where) simp
    moreover have "(\<lambda>r. if ar_id r = j then counted True r else r) = (\<lambda>r. counted (?b \<and> ar_id r = j) r)"
      using True by (auto simp: counted_def)
    moreover have "approval_requests d' = update_where (\<lambda>r. ar_id r = j) (counted True) ?st" using True d'(1) by simp
    ultimately show ?thesis by (simp only: request_at_def)
  next
    case False
    then show ?thesis by (cases "find_row (\<lambda>r. (ar_policy r, ar_sha256 r) = (p, k)) ?st") (simp_all add: request_at_def d' counted_def)
  qed
  have old: "case request_at p k d of None \<Rightarrow> F k = []
      | Some r \<Rightarrow> request_of r (F k) \<and> {w. (ar_id r, w) \<in> set ?ls} = fst ` set (F k)" for k
    using rep by (simp add: represents_def)
  let ?q = "case request_at p h d of Some r \<Rightarrow> merge_request a r | None \<Rightarrow> new_request j t p h a"
  have q: "find_row (\<lambda>r. (ar_policy r, ar_sha256 r) = (p, h)) ?st = Some ?q"
    using stored_rows_at [where k = "(p, h)" and j = j and t = t and p = p and h = h and a = a and rs = ?rs] by (simp add: request_at_def)
  have other: "find_row (\<lambda>r. (ar_policy r, ar_sha256 r) = (p, k)) ?st = request_at p k d" if "k \<noteq> h" for k
    using stored_rows_at [where k = "(p, k)" and j = j and t = t and p = p and h = h and a = a and rs = ?rs] that
    by (simp add: request_at_def)
  have qid: "ar_id ?q = j" using at by (cases "request_at p h d") simp_all
  have dev: "{w. (j, w) \<in> set ?ls} = fst ` set (F h)"
    using old [of h] at lk by (cases "request_at p h d") (auto simp: image_subset_iff)
  have here: "request_of (counted (v \<notin> fst ` set (F h)) ?q) (F h @ map (Pair v) ts)"
    using old [of h] by (intro request_of_counted [OF ag, where r = "the (request_at p h d)" and i = j and t = t and p = p and h = h])
      (cases "request_at p h d"; simp add: request_of_def)+
  have b: "?b \<longleftrightarrow> v \<notin> fst ` set (F h)" using dev by blast
  have lk': "{w. (j, w) \<in> set (approval_request_devices d')} = fst ` set (F h @ map (Pair v) ts)"
  proof -
    have "fst ` set (map (Pair v) ts) = {v}" using ag by (cases ts) (auto simp: agg_of_def)
    then have "fst ` set (F h @ map (Pair v) ts) = insert v (fst ` set (F h))" by (simp only: set_append image_Un) blast
    then show ?thesis unfolding links dev [symmetric] by auto
  qed
  have there: "case request_at p k d' of None \<Rightarrow> F k = []
      | Some r \<Rightarrow> request_of r (F k) \<and> {w. (ar_id r, w) \<in> set (approval_request_devices d')} = fst ` set (F k)" if "k \<noteq> h" for k
  proof (cases "request_at p k d")
    case None
    with old [of k] row [of k] other [OF that] show ?thesis by simp
  next
    case (Some r)
    with that have r: "find_row (\<lambda>r. (ar_policy r, ar_sha256 r) = (p, k)) ?st = Some r" using other by simp
    have "ar_id r \<noteq> j" using other_id [OF ids(1) r q] that qid by auto
    with r row [of k] old [of k] Some show ?thesis by (simp add: counted_def links)
  qed
  have at': "request_at p h d' = Some (counted (v \<notin> fst ` set (F h)) ?q)" using row [of h] q qid b by simp
  have "represents p (F(h := F h @ map (Pair v) ts)) d'"
    unfolding represents_def
  proof
    fix k
    show "case request_at p k d' of None \<Rightarrow> (F(h := F h @ map (Pair v) ts)) k = []
      | Some r \<Rightarrow> request_of r ((F(h := F h @ map (Pair v) ts)) k) \<and>
          {w. (ar_id r, w) \<in> set (approval_request_devices d')} = fst ` set ((F(h := F h @ map (Pair v) ts)) k)"
    proof (cases "k = h")
      case True
      show ?thesis unfolding True at' option.case fun_upd_same counted_simps qid using here lk' by (rule conjI)
    next
      case False
      then have "(F(h := F h @ map (Pair v) ts)) k = F k" by simp
      with there [OF False] show ?thesis by (simp only:)
    qed
  qed
  with ok' show ?thesis by blast
qed

text \<open>All aggregates of a report.\<close>

lemma represents_upserts:
  assumes "requests_ok d" "represents p F d" "distinct (map fst hs)" "\<forall>(h, a) \<in> set hs. agg_of a (T h)"
    and "upsert_each t p v hs ids d = (Inr ids', d')"
  shows "represents p (\<lambda>h. F h @ (if h \<in> fst ` set hs then map (Pair v) (T h) else [])) d' \<and> requests_ok d'"
  using assms
proof (induction hs arbitrary: ids d F)
  case (Cons x hs)
  obtain h a where x: "x = (h, a)" by fastforce
  from Cons.prems(5) obtain y d1 where one: "upsert_one t p v h a d = (Inr y, d1)"
    and tl: "(case y of (j, isNew) \<Rightarrow> \<lambda>d1. upsert_each t p v hs (if isNew then ids @ [j] else ids) d1) d1 = (Inr ids', d')"
    unfolding x upsert_each.simps by (rule andThen_ok)
  then have rest: "upsert_each t p v hs (if snd y then ids @ [fst y] else ids) d1 = (Inr ids', d')" by (simp add: split_beta)
  have "agg_of a (T h)" using Cons.prems(4) x by simp
  with represents_upsert [OF Cons.prems(1,2), of a "T h" t v h "fst y" "snd y" d1] one
  have s: "represents p (F(h := F h @ map (Pair v) (T h))) d1" "requests_ok d1" by simp_all
  have d: "distinct (map fst hs)" "h \<notin> fst ` set hs" using Cons.prems(3) x by auto
  have "(\<lambda>k. (F(h := F h @ map (Pair v) (T h))) k @ (if k \<in> fst ` set hs then map (Pair v) (T k) else [])) =
      (\<lambda>k. F k @ (if k \<in> fst ` set (x # hs) then map (Pair v) (T k) else []))"
    using d(2) by (auto simp: x)
  with Cons.IH [OF s(2,1) d(1) _ rest] Cons.prems(4) show ?case by simp
qed simp

text \<open>Where the reports of a device go in the abstract view.\<close>

definition reported :: "uuid \<Rightarrow> time \<Rightarrow> block_row list \<Rightarrow> (string \<Rightarrow> (uuid \<times> time) list) \<Rightarrow> string \<Rightarrow> (uuid \<times> time) list" where
  "reported v now evs F h = F h @ map (Pair v) (seen_times now evs h)"

lemma represents_frame [simp]:
  "represents p F (d\<lparr>faults := fs\<rparr>) = represents p F d" "represents p F (d\<lparr>next_uuid := u\<rparr>) = represents p F d"
  "requests_ok (d\<lparr>faults := fs\<rparr>) = requests_ok d" "requests_ok (d\<lparr>next_uuid := u\<rparr>) = requests_ok d"
  by (simp_all add: represents_def requests_ok_def request_at_def cong: option.case_cong)

lemma report_simulation:
  assumes "requests_ok d" "represents p F d"
  shows "case UpsertApprovalRequests t p v evs now d of
      (Inl e, d') \<Rightarrow> represents p F d' \<and> requests_ok d'
    | (Inr ids, d') \<Rightarrow> represents p (reported v now evs F) d' \<and> requests_ok d'"
proof -
  let ?hs = "aggregate now evs"
  have spec: "distinct (map fst ?hs)" "\<And>h. case map_of ?hs h of None \<Rightarrow> seen_times now evs h = [] | Some a \<Rightarrow> agg_of a (seen_times now evs h)"
    using aggregate_spec by blast+
  have none: "h \<notin> fst ` set ?hs \<Longrightarrow> seen_times now evs h = []" for h
    using spec(2) [of h] by (metis map_of_eq_None_iff option.case(1))
  have all: "\<forall>(h, a) \<in> set ?hs. agg_of a (seen_times now evs h)"
    using spec by (metis (no_types, lifting) case_prodI2 map_of_eq_Some_iff option.case(2))
  have F: "(\<lambda>h. F h @ (if h \<in> fst ` set ?hs then map (Pair v) (seen_times now evs h) else [])) = reported v now evs F"
    using none by (auto simp: reported_def)
  show ?thesis
  proof (cases "?hs = []")
    case True
    then have "reported v now evs F = F" using none by (auto simp: reported_def)
    with True assms show ?thesis by (simp add: UpsertApprovalRequests_def)
  next
    case False
    show ?thesis
    proof (cases "upsert_each t p v ?hs []" d rule: tx_cases)
      case (rollback e fs u)
      with False assms show ?thesis by (simp add: UpsertApprovalRequests_def)
    next
      case (commit fs x d' fs')
      from represents_upserts [OF _ _ spec(1) all commit(1), of F] assms F commit(2) False show ?thesis
        by (simp add: UpsertApprovalRequests_def)
    qed
  qed
qed

text \<open>A history of block reports: the abstract view collects those the server accepted.\<close>

fun report_run ::
  "uuid \<Rightarrow> uuid \<Rightarrow> (uuid \<times> time \<times> block_row list) list \<Rightarrow> (string \<Rightarrow> (uuid \<times> time) list) \<Rightarrow> db \<Rightarrow> (string \<Rightarrow> (uuid \<times> time) list) \<times> db" where
  "report_run t p [] F d = (F, d)"
| "report_run t p ((v, now, evs) # bs) F d =
     (let (r, d1) = UpsertApprovalRequests t p v evs now d
      in report_run t p bs (if is_ok r then reported v now evs F else F) d1)"

text \<open>
  C16: The counters of approval requests are exact. Through any sequence of block reports
  of any devices, whatever statements fail, there is a request for exactly the hashes
  that accepted reports contained, and it records how many events had that hash, how
  many different devices reported it, and the earliest and the latest time.
\<close>

theorem approval_counts_exact:
  assumes "requests_ok d" and "represents p F d" and "report_run t p bs F d = (F', d')"
  shows "represents p F' d'"
  using assms
proof (induction bs arbitrary: F d)
  case (Cons b bs)
  obtain v now evs where b: "b = (v, now, evs)" using prod_cases3 by blast
  obtain r d1 where r: "UpsertApprovalRequests t p v evs now d = (r, d1)" by fastforce
  with report_simulation [OF Cons.prems(1,2), where t = t and v = v and evs = evs and now = now]
  have s: "represents p (if is_ok r then reported v now evs F else F) d1" "requests_ok d1" by (cases r; simp)+
  from Cons.prems(3) r b have "report_run t p bs (if is_ok r then reported v now evs F else F) d1 = (F', d')" by simp
  from Cons.IH [OF s(2,1) this] show ?case .
qed simp

theorem approval_counts_exact_witness:
  "\<exists>F d r. report_run 7 20 [(4, 10, [demo_block ''h'' [] False 9, demo_block ''h'' [] False 3])] (\<lambda>h. []) demo_assigned = (F, d) \<and>
     F ''h'' = [(4, 9), (4, 3)] \<and> request_at 20 ''h'' d = Some r \<and> ar_event_count r = 2 \<and> ar_device_count r = 1 \<and>
     ar_first_seen r = 3 \<and> ar_last_seen r = 9"
proof -
  let ?bs = "[(4, 10, [demo_block ''h'' [] False 9, demo_block ''h'' [] False 3])]"
  obtain F d where run: "report_run 7 20 ?bs (\<lambda>h. []) demo_assigned = (F, d)" by fastforce
  have ok: "requests_ok demo_assigned" "represents 20 (\<lambda>h. []) demo_assigned"
    by (simp_all add: requests_ok_def represents_def request_at_def demo_assigned_def demo_fleet_def)
  have "is_ok (fst (UpsertApprovalRequests 7 20 4 [demo_block ''h'' [] False 9, demo_block ''h'' [] False 3] 10 demo_assigned))"
    by (simp add: UpsertApprovalRequests_def aggregate_def aggregate_event_def demo_block_def Let_def tx_def upsert_one_def new_uuid_def
        upsert_request_stmt_def link_device_stmt_def count_device_stmt_def demo_assigned_def demo_fleet_def tenant_exists_def
        policy_exists_def device_exists_def enrolled_row_def split_beta)
  with run have F: "F ''h'' = [(4, 9), (4, 3)]"
    by (auto simp: split_beta reported_def seen_times_def demo_block_def event_time_def zero_time_def unix_def second_def)
  from approval_counts_exact [OF ok run] F obtain r where "request_at 20 ''h'' d = Some r" "request_of r [(4, 9), (4, 3)]"
    unfolding represents_def by (auto dest!: spec [of _ "''h''"] split: option.splits)
  with run F show ?thesis by (intro exI [of _ F] exI [of _ d] exI [of _ r]) (simp add: request_of_def)
qed

section \<open>Approving a program allows it\<close>

lemma hash_rule_normal:
  assumes "hex64 v"
  shows "\<exists>m. Normalize \<lparr>rule_kind = kind_Hash, rule_value = v, rule_publisher = a, rule_description = b\<rparr> = Inr m \<and>
    rule_kind m = kind_Hash \<and> rule_value m = v"
  using assms hex64_fixed [OF assms] by (simp add: Normalize_def trim_rule_def Let_def)


lemma normalize_all_defined: "normalize_all rs = Inr ns \<Longrightarrow> r \<in> set rs \<Longrightarrow> \<exists>m. Normalize r = Inr m"
  by (induction rs arbitrary: ns) (auto split: sum.splits)

lemma Normalize_same:
  assumes "Normalize n = Inr n" "Normalize r = Inr m" "rule_kind r = rule_kind n" "rule_value r = rule_value n"
  shows "rule_kind m = rule_kind n" "rule_value m = rule_value n"
  using assms by (cases n; cases r; auto simp: Normalize_def Let_def trim_rule_def split: if_splits)+

text \<open>What it means that a document lets a rule's programs run.\<close>

definition permits :: "rule \<Rightarrow> xevt list \<Rightarrow> bool" where
  "permits n es \<longleftrightarrow>
     (rule_kind n = kind_Hash \<and> rule_value n \<in> set (allowed_files user_mode ''Hash'' es)) \<or>
     (rule_kind n = kind_Path \<and> rule_value n \<in> set (allowed_files user_mode ''FilePath'' es)) \<or>
     (rule_kind n = kind_Publisher \<and> (''TBS'', rule_value n) \<in> set (allowed_roots user_mode es))"

lemma compiled_permits:
  assumes "sorts sort_Slice" "Compile sort_Slice p = Inr xml" "Normalize n = Inr n"
    and "r \<in> set (wp_rules p)" "rule_kind r = rule_kind n" "rule_value r = rule_value n"
  shows "permits n (read_xml xml)"
proof -
  from assms(2) obtain ns where "normalize_all (wp_rules p) = Inr ns" by (auto simp: Compile_def split: sum.splits)
  with assms(4) obtain m where m: "Normalize r = Inr m" by (metis normalize_all_defined)
  then have v: "rule_value n \<in> rule_values (rule_kind n) (wp_rules p)"
    using Normalize_same [OF assms(3) m assms(5,6)] assms(4) by (auto simp: rule_values_def intro!: exI [of _ m])
  have "rule_kind n = kind_Hash \<or> rule_kind n = kind_Path \<or> rule_kind n = kind_Publisher"
    using assms(3) by (cases n) (auto simp: Normalize_def Let_def trim_rule_def split: if_splits)
  with v compiled_meaning [OF assms(1,2)] show ?thesis by (auto simp: permits_def)
qed

text \<open>A rule the policy's own tenant has added, or had already, is among its rules.\<close>

lemma AddRule_present:
  assumes "AddRule t i n d = (r, d1)" "r = Inr j \<or> r = Inl ErrConflict"
    and "\<forall>x \<in> set (policy_rules d). ru_policy x = i \<longrightarrow> ru_tenant x = t"
    and "next_uuid d \<notin> ru_id ` set (policy_rules d)"
  shows "\<exists>fs rs u. d1 = d\<lparr>next_uuid := u, faults := fs, policy_rules := rs\<rparr>"
    and "\<exists>x \<in> set (rules_of t i d1). ru_kind x = rule_kind n \<and> ru_value x = rule_value n"
proof -
  let ?d = "d\<lparr>next_uuid := Suc (next_uuid d)\<rparr>"
  obtain q fs where q: "r = (case conflict q of Inl e \<Rightarrow> Inl e | Inr _ \<Rightarrow> Inr (next_uuid d))"
    and c: "pool (insert_rule_stmt (next_uuid d) t i n) ?d = (q, d1)"
    and st: "insert_rule_stmt (next_uuid d) t i n (?d\<lparr>faults := fs\<rparr>) = (q, d1)"
  proof (cases "insert_rule_stmt (next_uuid d) t i n" ?d rule: pool_cases)
    case (lost rest)
    with assms(1,2) show thesis by (auto simp: AddRule_def new_uuid_def conflict_def)
  next
    case (ran rest)
    with assms(1) that show thesis by (auto simp: AddRule_def new_uuid_def split: prod.splits)
  qed
  have "d1 = d\<lparr>next_uuid := Suc (next_uuid d), faults := fs, policy_rules := policy_rules d1\<rparr>"
    using st by (auto simp: insert_rule_stmt_def split: if_splits)
  then show "\<exists>fs rs u. d1 = d\<lparr>next_uuid := u, faults := fs, policy_rules := rs\<rparr>" by blast
  show "\<exists>x \<in> set (rules_of t i d1). ru_kind x = rule_kind n \<and> ru_value x = rule_value n"
    using st assms(2-4) q by (auto simp: insert_rule_stmt_def rules_of_def conflict_def split: if_splits)
qed

lemma GetApprovalRequest_cases:
  obtains (failed) e fs where "GetApprovalRequest t i d = (Inl e, d\<lparr>faults := fs\<rparr>)"
  | (found) x fs where "GetApprovalRequest t i d = (Inr x, d\<lparr>faults := fs\<rparr>)" "x \<in> set (get_request t i d)"
proof -
  let ?g = "\<lambda>d :: db. (case get_request t i d of [] \<Rightarrow> Inl ErrNotFound | x # _ \<Rightarrow> Inr x, d)"
  have fr: "get_request t i (d\<lparr>faults := rest\<rparr>) = get_request t i d" for rest
    by (simp add: get_request_def with_policy_def [abs_def])
  show thesis
  proof (cases ?g d rule: pool_cases)
    case (lost rest)
    with that(1) show thesis by (simp add: GetApprovalRequest_def)
  next
    case (ran rest)
    show thesis
    proof (cases "get_request t i d")
      case Nil
      show thesis by (rule that(1) [of ErrNotFound rest]) (simp add: GetApprovalRequest_def ran fr [of rest] Nil)
    next
      case (Cons x xs)
      show thesis by (rule that(2) [of x rest]) (simp_all add: GetApprovalRequest_def ran fr [of rest] Cons)
    qed
  qed
qed

lemma approve_ok:
  assumes "approveApproval s ut p i kind now d = (noContent, d')"
  obtains req name fs r n version d2 where "(req, name) \<in> set (get_request (pr_tenant p) i d)" "approval_rule ut req kind = Inr r"
    "Normalize r = Inr n" "addPolicyRule s p (ar_policy req) n (d\<lparr>faults := fs\<rparr>) = (Inr version, d2)"
    "record_decision p req AApproved (rule_kind n) now d2 = (noContent, d')"
proof (cases "pr_tenant p" i d rule: GetApprovalRequest_cases)
  case (failed e fs)
  with assms show thesis by (simp add: approveApproval_def decideApproval_def)
next
  case (found x fs)
  obtain req name where x: "x = (req, name)" by fastforce
  from assms found x that [of req name] show thesis
    by (auto simp: approveApproval_def decideApproval_def split: if_splits sum.splits prod.splits)
qed

lemma Decide_frame:
  assumes "DecideApprovalRequest t i st adm now d = (r, d')"
  shows "\<exists>fs rs. d' = d\<lparr>faults := fs, approval_requests := rs\<rparr>"
proof -
  have "d' = d\<lparr>faults := faults d', approval_requests := approval_requests d'\<rparr>"
  proof (cases "decide_stmt t i st adm now" d rule: pool_cases)
    case (lost rest)
    with assms show ?thesis by (auto simp: DecideApprovalRequest_def)
  next
    case a: (ran rest)
    let ?d = "snd (decide_stmt t i st adm now (d\<lparr>faults := rest\<rparr>))"
    have "d' = ?d \<or> d' = snd (GetApprovalRequest t i ?d)"
      using assms a by (auto simp: DecideApprovalRequest_def andThen_def decide_stmt_def Let_def split: if_splits sum.splits prod.splits)
    moreover have "\<exists>fs. snd (GetApprovalRequest t i ?d) = ?d\<lparr>faults := fs\<rparr>" by (cases t i ?d rule: GetApprovalRequest_cases) auto
    ultimately show ?thesis by (auto simp: decide_stmt_def Let_def)
  qed
  then show ?thesis by blast
qed

lemma audit_policy_tables:
  "devices (audit p a b c e g d) = devices d" "policy_assignments (audit p a b c e g d) = policy_assignments d"
  "policy_versions (audit p a b c e g d) = policy_versions d"
  by (rule audit_shape [of p a b c e g d], simp)+

lemma record_decision_effective:
  assumes "record_decision p req st k now d = (rsp, d')"
  shows "Effective s t dev (d'\<lparr>faults := []\<rparr>) = (fst (Effective s t dev (d\<lparr>faults := []\<rparr>)), d'\<lparr>faults := []\<rparr>)"
proof -
  obtain r d1 where D: "DecideApprovalRequest (pr_tenant p) (ar_id req) st (ad_id (pr_admin p)) now d = (r, d1)" by fastforce
  from Decide_frame [OF this] obtain fs rs where d1: "d1 = d\<lparr>faults := fs, approval_requests := rs\<rparr>" by blast
  have "devices d' = devices d \<and> policy_assignments d' = policy_assignments d \<and> policy_versions d' = policy_versions d"
    using assms D by (cases r) (auto simp: record_decision_def d1 audit_policy_tables)
  then have "effective_versions t dev (d'\<lparr>faults := []\<rparr>) = effective_versions t dev (d\<lparr>faults := []\<rparr>)"
    by (simp add: effective_versions_def split: option.split)
  then show ?thesis by (simp add: Effective_def EffectivePolicyForDevice_def split: sum.split)
qed

text \<open>
  C17: Approving a program lets it run. When the console answers an approval with success,
  every device of a group that has the request's policy is given, if the database answers,
  a version that permits the approved rule: the hash, the path or the publisher of the
  blocked program. (The policy has no rules of other tenants, identifiers are fresh and
  the database clock has advanced since the policy's earlier versions.)
\<close>

theorem approved_program_allowed:
  assumes "sorts (ps_sort s)" and "policy_inv d" and "approveApproval s ut p i kind now d = (noContent, d')"
    and "\<forall>r \<in> set (approval_requests d). ar_id r = i \<longrightarrow> r = req"
    and "\<forall>x \<in> set (policy_rules d). ru_policy x = ar_policy req \<longrightarrow> ru_tenant x = pr_tenant p"
    and "next_uuid d \<notin> ru_id ` set (policy_rules d)"
    and "\<forall>x \<in> set (policy_versions d). pv_policy x = ar_policy req \<longrightarrow> pv_created_at x < now_db d"
    and "find_row (\<lambda>v. dv_tenant v = pr_tenant p \<and> dv_id v = dev) (devices d) = Some v" and "dv_group v = Some g"
    and "\<lparr>pa_tenant = pr_tenant p, pa_group = g, pa_policy = ar_policy req\<rparr> \<in> set (policy_assignments d)"
  shows "\<exists>r n e. approval_rule ut req kind = Inr r \<and> Normalize r = Inr n \<and>
    Effective s (pr_tenant p) dev (d'\<lparr>faults := []\<rparr>) = (Inr e, d'\<lparr>faults := []\<rparr>) \<and> permits n (read_xml (ef_xml e))"
proof -
  let ?t = "pr_tenant p" and ?i = "ar_policy req"
  from approve_ok [OF assms(3)] obtain req' name fs r n version d2 where a: "(req', name) \<in> set (get_request ?t i d)"
    "approval_rule ut req' kind = Inr r" "Normalize r = Inr n"
    "addPolicyRule s p (ar_policy req') n (d\<lparr>faults := fs\<rparr>) = (Inr version, d2)"
    "record_decision p req' AApproved (rule_kind n) now d2 = (noContent, d')" by metis
  have req: "req' = req" using a(1) assms(4) by (auto simp: get_request_def with_policy_def)
  obtain q d1 where q: "AddRule ?t ?i n (d\<lparr>faults := fs\<rparr>) = (q, d1)" by fastforce
  from a(4) q obtain j where j: "q = Inr j \<or> q = Inl ErrConflict" and rc: "Recompile s ?t ?i d1 = (Inr version, d2)"
    by (cases q) (auto simp: addPolicyRule_def req split: if_splits)
  have own: "\<forall>x \<in> set (policy_rules (d\<lparr>faults := fs\<rparr>)). ru_policy x = ?i \<longrightarrow> ru_tenant x = ?t"
    "next_uuid (d\<lparr>faults := fs\<rparr>) \<notin> ru_id ` set (policy_rules (d\<lparr>faults := fs\<rparr>))" using assms(5,6) by simp_all
  from AddRule_present [OF q j own] obtain fs' rs u x where d1: "d1 = d\<lparr>next_uuid := u, faults := fs', policy_rules := rs\<rparr>"
    and x: "x \<in> set (rules_of ?t ?i d1)" "ru_kind x = rule_kind n" "ru_value x = rule_value n" by auto
  have pre: "policy_inv d1" "\<forall>x \<in> set (policy_versions d1). pv_policy x = ?i \<longrightarrow> pv_created_at x < now_db d1"
    "find_row (\<lambda>v. dv_tenant v = ?t \<and> dv_id v = dev) (devices d1) = Some v"
    "\<lparr>pa_tenant = ?t, pa_group = g, pa_policy = ?i\<rparr> \<in> set (policy_assignments d1)"
    using assms(2,7,8,10) by (simp_all add: d1)
  from recompile_gives_version [OF pre(1) rc pre(2,3) assms(9) pre(4)] obtain pol :: policy_row and xml k where
    c: "Compile (ps_sort s) \<lparr>wp_mode = po_mode pol, wp_rules = map to_rule (rules_of ?t ?i d1)\<rparr> = Inr xml"
    and e: "Effective s ?t dev (d2\<lparr>faults := []\<rparr>) = (Inr \<lparr>ef_version = version, ef_mode = po_mode pol, ef_xml = xml,
      ef_signature = ps_sign s k version\<rparr>, d2\<lparr>faults := []\<rparr>)" by blast
  have "permits n (read_xml xml)"
    by (rule compiled_permits [OF assms(1) c Normalize_idem [OF a(3)], of "to_rule x"])
      (simp add: x(1), simp_all add: to_rule_def x(2,3))
  with a(2,3) e record_decision_effective [OF a(5), of s ?t dev] show ?thesis by (auto simp: req)
qed

text \<open>A pending request of policy 20 for a program with a known hash.\<close>

definition demo_hash :: string where "demo_hash = replicate 64 CHR ''A''"

definition demo_blocked :: db where
  "demo_blocked = demo_assigned\<lparr>approval_requests := [demo_request 31 demo_hash APending]\<rparr>"

lemma demo_hash_hex: "hex64 demo_hash"
  by code_simp

lemma demo_hash_normal:
  "Normalize \<lparr>rule_kind = kind_Hash, rule_value = demo_hash, rule_publisher = a, rule_description = b\<rparr> =
     Inr \<lparr>rule_kind = kind_Hash, rule_value = demo_hash, rule_publisher = TrimSpace a, rule_description = TrimSpace b\<rparr>"
  using demo_hash_hex hex64_fixed [OF demo_hash_hex] by (simp add: Normalize_def trim_rule_def Let_def)

lemma demo_approve: "\<exists>d'. approveApproval demo_policies (\<lambda>i. ''id'') demo_admin 31 ''hash'' 110 demo_blocked = (noContent, d')"
proof -
  let ?req = "demo_request 31 demo_hash APending"
  have g: "GetApprovalRequest 7 31 demo_blocked = (Inr (?req, ''p''), demo_blocked)"
    by (simp add: GetApprovalRequest_def get_request_def with_policy_def demo_blocked_def demo_assigned_def demo_fleet_def demo_request_def new_request_def)
  obtain r where r: "approval_rule (\<lambda>i. ''id'') ?req ''hash'' = Inr r" "rule_kind r = kind_Hash" "rule_value r = demo_hash"
    by (simp add: approval_rule_def demo_request_def new_request_def Let_def)
  then obtain n where n: "Normalize r = Inr n" "rule_kind n = kind_Hash" "rule_value n = demo_hash"
    using demo_hash_normal [of "rule_publisher r" "rule_description r"] by (cases r) auto
  let ?p = "\<lparr>po_id = 20, po_tenant = 7, po_name = ''p'', po_mode = ''enforce'', po_created_at = 0\<rparr> :: policy_row"
  let ?d = "demo_blocked\<lparr>next_uuid := 51, policy_rules := [\<lparr>ru_id = 50, ru_tenant = 7, ru_policy = 20, ru_kind = kind_Hash,
     ru_value = demo_hash, ru_publisher = rule_publisher n, ru_description = rule_description n\<rparr>]\<rparr>"
  have add: "AddRule 7 20 n demo_blocked = (Inr 50, ?d)"
    by (simp add: AddRule_def new_uuid_def insert_rule_stmt_def valid_kind_def n demo_blocked_def demo_assigned_def demo_fleet_def
        tenant_exists_def policy_exists_def)
  have "normalize_all (map to_rule (rules_of 7 20 ?d)) = Inr [\<lparr>rule_kind = kind_Hash, rule_value = demo_hash,
      rule_publisher = TrimSpace (rule_publisher n), rule_description = TrimSpace (rule_description n)\<rparr>]"
    by (simp add: rules_of_def to_rule_def demo_hash_normal)
  then obtain w where w: "signed_version demo_policies 7 ?p (rules_of 7 20 ?d) = Inr w" "pv_tenant w = 7" "pv_policy w = po_id ?p"
    by (rule demo_signed)
  have "\<exists>x d2. Recompile demo_policies 7 20 ?d = (Inr x, d2) \<and> approval_requests d2 = [?req] \<and> faults d2 = []"
    using w by (simp add: Recompile_def GetPolicy_def lookup_def ListRules_def PutPolicyVersion_def put_version_stmt_def
        demo_blocked_def demo_assigned_def demo_fleet_def tenant_exists_def policy_exists_def rules_of_def)
  then obtain x d2 where c: "Recompile demo_policies 7 20 ?d = (Inr x, d2)" "approval_requests d2 = [?req]" "faults d2 = []" by blast
  have q: "ar_status ?req = APending" "ar_policy ?req = 20" "ar_id ?req = 31" "ar_tenant ?req = 7" "pr_tenant demo_admin = 7"
    by (simp_all add: demo_request_def new_request_def demo_admin_def)
  have a: "addPolicyRule demo_policies demo_admin 20 n demo_blocked = (Inr x, d2)" by (simp add: addPolicyRule_def q add c)
  have "\<exists>d'. record_decision demo_admin ?req AApproved (rule_kind n) 110 d2 = (noContent, d')"
    by (simp add: record_decision_def DecideApprovalRequest_def decide_stmt_def q c rows_affected_def)
  then show ?thesis by (simp add: approveApproval_def decideApproval_def g q r(1) n(1) a)
qed

theorem approved_program_allowed_witness:
  "\<exists>d' n e. approveApproval demo_policies (\<lambda>i. ''id'') demo_admin 31 ''hash'' 110 demo_blocked = (noContent, d') \<and>
     Effective demo_policies 7 4 (d'\<lparr>faults := []\<rparr>) = (Inr e, d'\<lparr>faults := []\<rparr>) \<and> rule_value n = demo_hash \<and>
     permits n (read_xml (ef_xml e))"
proof -
  from demo_approve obtain d' where a: "approveApproval demo_policies (\<lambda>i. ''id'') demo_admin 31 ''hash'' 110 demo_blocked = (noContent, d')" by blast
  let ?req = "demo_request 31 demo_hash APending"
  let ?v = "enrolled_row 0 \<lparr>nd_id = 4, nd_hostname = ''pc'', nd_machine_guid = [], nd_os_build = [], nd_cert_serial = [], nd_cert_expires_at = 0\<rparr> 7 (Some 5)"
  have h: "sorts (ps_sort demo_policies)" "policy_inv demo_blocked" using demo_assigned_inv sort_key_sorts by (simp_all add: demo_blocked_def demo_policies_def)
  have f: "\<forall>r \<in> set (approval_requests demo_blocked). ar_id r = 31 \<longrightarrow> r = ?req"
    "\<forall>x \<in> set (policy_rules demo_blocked). ru_policy x = ar_policy ?req \<longrightarrow> ru_tenant x = pr_tenant demo_admin"
    "next_uuid demo_blocked \<notin> ru_id ` set (policy_rules demo_blocked)"
    "\<forall>x \<in> set (policy_versions demo_blocked). pv_policy x = ar_policy ?req \<longrightarrow> pv_created_at x < now_db demo_blocked"
    "find_row (\<lambda>v. dv_tenant v = pr_tenant demo_admin \<and> dv_id v = 4) (devices demo_blocked) = Some ?v"
    "dv_group ?v = Some 5" "\<lparr>pa_tenant = pr_tenant demo_admin, pa_group = 5, pa_policy = ar_policy ?req\<rparr> \<in> set (policy_assignments demo_blocked)"
    by (simp_all add: demo_blocked_def demo_assigned_def demo_fleet_def demo_request_def new_request_def enrolled_row_def demo_admin_def)
  from approved_program_allowed [OF h a f] obtain r n e where r: "approval_rule (\<lambda>i. ''id'') ?req ''hash'' = Inr r" "Normalize r = Inr n"
    "Effective demo_policies (pr_tenant demo_admin) 4 (d'\<lparr>faults := []\<rparr>) = (Inr e, d'\<lparr>faults := []\<rparr>)" "permits n (read_xml (ef_xml e))"
    by blast
  from r(1,2) have "rule_value n = demo_hash"
    by (auto simp: approval_rule_def demo_request_def new_request_def demo_hash_normal Let_def)
  with r(3,4) a show ?thesis by (intro exI [of _ d'] exI [of _ n] exI [of _ e]) (simp add: demo_admin_def)
qed

end
