(* ===== verification/Isolation.thy ===== *)
theory Isolation
  imports Prelude
begin

text \<open>
  Separation of tenants, as an interface: every tenant has a view of the state and a set
  of operations. When each operation keeps the invariant and leaves the views of the
  other tenants alone, no history of other tenants' operations changes a tenant's view.
\<close>

locale isolation =
  fixes view :: "'t \<Rightarrow> 'd \<Rightarrow> 'v"
    and ok :: "'d \<Rightarrow> bool"
    and ops :: "'t \<Rightarrow> ('d \<Rightarrow> 'd) set"
  assumes keeps: "f \<in> ops t \<Longrightarrow> ok d \<Longrightarrow> ok (f d)"
    and locally_respects: "f \<in> ops t \<Longrightarrow> ok d \<Longrightarrow> u \<noteq> t \<Longrightarrow> view u (f d) = view u d"
begin

lemma run_keeps: "set fs \<subseteq> (\<Union>t. ops t) \<Longrightarrow> ok d \<Longrightarrow> ok (fold (\<lambda>f. f) fs d)"
  by (induction fs arbitrary: d) (auto intro: keeps)

lemma run_respects:
  "set fs \<subseteq> (\<Union>t \<in> {t. t \<noteq> u}. ops t) \<Longrightarrow> ok d \<Longrightarrow> view u (fold (\<lambda>f. f) fs d) = view u d"
proof (induction fs arbitrary: d)
  case (Cons f fs)
  then obtain t where "f \<in> ops t" "u \<noteq> t" by auto
  with Cons.prems(2) have "ok (f d)" "view u (f d) = view u d" by (auto intro: keeps locally_respects)
  with Cons show ?case by simp
qed simp

text \<open>An operation in the middle of other tenants' operations sees what it would have seen alone.\<close>

lemma run_unseen:
  assumes "set fs \<subseteq> (\<Union>t \<in> {t. t \<noteq> u}. ops t)" "ok d" and "\<And>d d'. view u d = view u d' \<Longrightarrow> out d = out d'"
  shows "out (fold (\<lambda>f. f) fs d) = out d"
  using run_respects [OF assms(1,2)] assms(3) by blast

end

end
