(* ===== verification/Ringfence.thy ===== *)
theory Ringfence
  imports Devices Wdac Isolation
begin

text \<open>
  Ringfences on the server: the tables and the resolution of a device's ringfence
  (\<^verbatim>\<open>store/ringfence.go\<close>) and the console handlers (\<^verbatim>\<open>httpapi/ringfences.go\<close>).
  The theorems show that ringfences of different tenants do not interfere and what the
  version of a resolved ringfence identifies. SHA-256 is a parameter.
\<close>

section \<open>The tables\<close>

definition ringfence_in :: "uuid \<Rightarrow> uuid \<Rightarrow> db \<Rightarrow> bool" where
  "ringfence_in tenantID i d \<longleftrightarrow> (\<exists>r \<in> set (ringfence_policies d). rf_tenant r = tenantID \<and> rf_id r = i)"

definition rf_valid_mode :: "string \<Rightarrow> bool" where
  "rf_valid_mode m \<longleftrightarrow> m = ''audit'' \<or> m = ''enforce''"

definition insert_ringfence_stmt :: "uuid \<Rightarrow> uuid \<Rightarrow> string \<Rightarrow> string \<Rightarrow> db \<Rightarrow> unit res \<times> db" where
  "insert_ringfence_stmt tenantID i name mode d =
     (if \<not> rf_valid_mode mode then (Inl (PgError ''23514''), d)
      else if i \<in> rf_id ` set (ringfence_policies d) \<or> (\<exists>r \<in> set (ringfence_policies d). rf_tenant r = tenantID \<and> rf_name r = name)
      then (Inl (PgError ''23505''), d)
      else if \<not> tenant_exists tenantID d then (Inl (PgError ''23503''), d)
      else (Inr (), d\<lparr>ringfence_policies := ringfence_policies d @ [\<lparr>rf_id = i, rf_tenant = tenantID, rf_name = name, rf_mode = mode,
              rf_created_at = now_db d\<rparr>]\<rparr>))"

definition CreateRingfence :: "uuid \<Rightarrow> uuid \<Rightarrow> string \<Rightarrow> string \<Rightarrow> db \<Rightarrow> unit res \<times> db" where
  "CreateRingfence tenantID i name mode d =
     (let m = (if mode = [] then ''audit'' else mode); (r, d1) = pool (insert_ringfence_stmt tenantID i name m) d in (conflict r, d1))"

definition GetRingfence :: "uuid \<Rightarrow> uuid \<Rightarrow> db \<Rightarrow> ringfence_row res \<times> db" where
  "GetRingfence tenantID i = pool (lookup ringfence_policies (\<lambda>r. rf_tenant r = tenantID \<and> rf_id r = i) (\<lambda>r. r))"

definition ListRingfences :: "uuid \<Rightarrow> db \<Rightarrow> ringfence_row list res \<times> db" where
  "ListRingfences tenantID = pool (\<lambda>d. (Inr (sort_key rf_name (filter (\<lambda>r. rf_tenant r = tenantID) (ringfence_policies d))), d))"

text \<open>Renaming reports a clash of names as the driver's error: oneRow does not translate it.\<close>

definition rename_ringfence_stmt :: "uuid \<Rightarrow> uuid \<Rightarrow> string \<Rightarrow> db \<Rightarrow> unit res \<times> db" where
  "rename_ringfence_stmt tenantID i name d =
     (let P = (\<lambda>r. rf_tenant r = tenantID \<and> rf_id r = i) in
      if ringfence_in tenantID i d \<and> (\<exists>r \<in> set (ringfence_policies d). rf_tenant r = tenantID \<and> rf_name r = name \<and> rf_id r \<noteq> i)
      then (Inl (PgError ''23505''), d)
      else (oneRow (Inr (rows_affected P (ringfence_policies d))),
            d\<lparr>ringfence_policies := update_where P (\<lambda>r. r\<lparr>rf_name := name\<rparr>) (ringfence_policies d)\<rparr>))"

definition RenameRingfence :: "uuid \<Rightarrow> uuid \<Rightarrow> string \<Rightarrow> db \<Rightarrow> unit res \<times> db" where
  "RenameRingfence tenantID i name = pool (rename_ringfence_stmt tenantID i name)"

definition ringfence_mode_stmt :: "uuid \<Rightarrow> uuid \<Rightarrow> string \<Rightarrow> db \<Rightarrow> unit res \<times> db" where
  "ringfence_mode_stmt tenantID i mode d =
     (let P = (\<lambda>r. rf_tenant r = tenantID \<and> rf_id r = i) in
      if ringfence_in tenantID i d \<and> \<not> rf_valid_mode mode then (Inl (PgError ''23514''), d)
      else (oneRow (Inr (rows_affected P (ringfence_policies d))),
            d\<lparr>ringfence_policies := update_where P (\<lambda>r. r\<lparr>rf_mode := mode\<rparr>) (ringfence_policies d)\<rparr>))"

definition SetRingfenceMode :: "uuid \<Rightarrow> uuid \<Rightarrow> string \<Rightarrow> db \<Rightarrow> unit res \<times> db" where
  "SetRingfenceMode tenantID i mode = pool (ringfence_mode_stmt tenantID i mode)"

text \<open>Deleting a ringfence takes its programs, protections and assignments with it.\<close>

definition delete_ringfence_stmt :: "uuid \<Rightarrow> uuid \<Rightarrow> db \<Rightarrow> unit res \<times> db" where
  "delete_ringfence_stmt tenantID i d =
     (if \<not> ringfence_in tenantID i d then (Inl ErrNotFound, d)
      else (Inr (), d\<lparr>ringfence_policies := filter (\<lambda>r. rf_id r \<noteq> i) (ringfence_policies d),
              ringfence_programs := filter (\<lambda>p. rp_ringfence p \<noteq> i) (ringfence_programs d),
              ringfence_protections := filter (\<lambda>p. rt_ringfence p \<noteq> i) (ringfence_protections d),
              ringfence_assignments := filter (\<lambda>a. ra_ringfence a \<noteq> i) (ringfence_assignments d)\<rparr>))"

definition DeleteRingfence :: "uuid \<Rightarrow> uuid \<Rightarrow> db \<Rightarrow> unit res \<times> db" where
  "DeleteRingfence tenantID i = pool (delete_ringfence_stmt tenantID i)"

text \<open>What several statements share: no affected row is ErrNotFound, a unique violation is ErrConflict.\<close>

definition affected :: "nat res \<times> db \<Rightarrow> unit res \<times> db" where
  "affected r = (case r of
       (Inl e, d1) \<Rightarrow> (conflict (Inl e), d1)
     | (Inr n, d1) \<Rightarrow> (if n = 0 then Inl ErrNotFound else Inr (), d1))"

definition add_program_stmt :: "uuid \<Rightarrow> uuid \<Rightarrow> uuid \<Rightarrow> string \<Rightarrow> bool \<Rightarrow> string \<Rightarrow> db \<Rightarrow> nat res \<times> db" where
  "add_program_stmt tenantID ringfenceID i path networkBlocked note d =
     (if \<not> ringfence_in tenantID ringfenceID d then (Inr 0, d)
      else if i \<in> rp_id ` set (ringfence_programs d) \<or>
        (\<exists>p \<in> set (ringfence_programs d). rp_ringfence p = ringfenceID \<and> rp_path p = path) then (Inl (PgError ''23505''), d)
      else (Inr 1, d\<lparr>ringfence_programs := ringfence_programs d @ [\<lparr>rp_id = i, rp_tenant = tenantID, rp_ringfence = ringfenceID,
              rp_path = path, rp_network_blocked = networkBlocked, rp_note = note\<rparr>]\<rparr>))"

definition AddRingfenceProgram :: "uuid \<Rightarrow> uuid \<Rightarrow> uuid \<Rightarrow> string \<Rightarrow> bool \<Rightarrow> string \<Rightarrow> db \<Rightarrow> unit res \<times> db" where
  "AddRingfenceProgram tenantID ringfenceID i path networkBlocked note d =
     affected (pool (add_program_stmt tenantID ringfenceID i path networkBlocked note) d)"

definition delete_program_stmt :: "uuid \<Rightarrow> uuid \<Rightarrow> uuid \<Rightarrow> db \<Rightarrow> unit res \<times> db" where
  "delete_program_stmt tenantID ringfenceID programID d =
     (let P = (\<lambda>p. rp_tenant p = tenantID \<and> rp_ringfence p = ringfenceID \<and> rp_id p = programID) in
      (oneRow (Inr (rows_affected P (ringfence_programs d))), d\<lparr>ringfence_programs := filter (\<lambda>p. \<not> P p) (ringfence_programs d)\<rparr>))"

definition DeleteRingfenceProgram :: "uuid \<Rightarrow> uuid \<Rightarrow> uuid \<Rightarrow> db \<Rightarrow> unit res \<times> db" where
  "DeleteRingfenceProgram tenantID ringfenceID programID = pool (delete_program_stmt tenantID ringfenceID programID)"

definition programs_of :: "uuid \<Rightarrow> uuid \<Rightarrow> db \<Rightarrow> program_row list" where
  "programs_of tenantID ringfenceID d =
     sort_key rp_path (filter (\<lambda>p. rp_tenant p = tenantID \<and> rp_ringfence p = ringfenceID) (ringfence_programs d))"

definition ListRingfencePrograms :: "uuid \<Rightarrow> uuid \<Rightarrow> db \<Rightarrow> program_row list res \<times> db" where
  "ListRingfencePrograms tenantID ringfenceID = pool (\<lambda>d. (Inr (programs_of tenantID ringfenceID d), d))"

definition delete_protection_stmt :: "uuid \<Rightarrow> uuid \<Rightarrow> string \<Rightarrow> db \<Rightarrow> unit res \<times> db" where
  "delete_protection_stmt tenantID ringfenceID asrRule d = (Inr (), d\<lparr>ringfence_protections :=
     filter (\<lambda>p. \<not> (rt_tenant p = tenantID \<and> rt_ringfence p = ringfenceID \<and> rt_rule p = asrRule)) (ringfence_protections d)\<rparr>)"

definition upsert_protection_stmt :: "uuid \<Rightarrow> uuid \<Rightarrow> string \<Rightarrow> string \<Rightarrow> db \<Rightarrow> nat res \<times> db" where
  "upsert_protection_stmt tenantID ringfenceID asrRule action d =
     (let P = (\<lambda>p. rt_ringfence p = ringfenceID \<and> rt_rule p = asrRule) in
      if \<not> ringfence_in tenantID ringfenceID d then (Inr 0, d)
      else if action \<notin> {''audit'', ''block''} then (Inl (PgError ''23514''), d)
      else if (\<exists>p \<in> set (ringfence_protections d). P p)
      then (Inr 1, d\<lparr>ringfence_protections := update_where P (\<lambda>p. p\<lparr>rt_action := action\<rparr>) (ringfence_protections d)\<rparr>)
      else (Inr 1, d\<lparr>ringfence_protections := ringfence_protections d @
              [\<lparr>rt_tenant = tenantID, rt_ringfence = ringfenceID, rt_rule = asrRule, rt_action = action\<rparr>]\<rparr>))"

definition SetRingfenceProtection :: "uuid \<Rightarrow> uuid \<Rightarrow> string \<Rightarrow> string \<Rightarrow> db \<Rightarrow> unit res \<times> db" where
  "SetRingfenceProtection tenantID ringfenceID asrRule action d =
     (if action = ''off'' then pool (delete_protection_stmt tenantID ringfenceID asrRule) d
      else affected (pool (upsert_protection_stmt tenantID ringfenceID asrRule action) d))"

definition protections_of :: "uuid \<Rightarrow> uuid \<Rightarrow> db \<Rightarrow> protection_row list" where
  "protections_of tenantID ringfenceID d =
     sort_key rt_rule (filter (\<lambda>p. rt_tenant p = tenantID \<and> rt_ringfence p = ringfenceID) (ringfence_protections d))"

definition ListRingfenceProtections :: "uuid \<Rightarrow> uuid \<Rightarrow> db \<Rightarrow> protection_row list res \<times> db" where
  "ListRingfenceProtections tenantID ringfenceID = pool (\<lambda>d. (Inr (protections_of tenantID ringfenceID d), d))"

definition assign_ringfence_stmt :: "uuid \<Rightarrow> uuid \<Rightarrow> uuid \<Rightarrow> db \<Rightarrow> nat res \<times> db" where
  "assign_ringfence_stmt tenantID groupID ringfenceID d =
     (if \<not> (group_in tenantID groupID d \<and> ringfence_in tenantID ringfenceID d) then (Inr 0, d)
      else if (\<exists>a \<in> set (ringfence_assignments d). ra_group a = groupID) then
        (let P = (\<lambda>a. ra_group a = groupID \<and> ra_tenant a = tenantID)
         in (Inr (rows_affected P (ringfence_assignments d)),
             d\<lparr>ringfence_assignments := update_where P (\<lambda>a. a\<lparr>ra_ringfence := ringfenceID\<rparr>) (ringfence_assignments d)\<rparr>))
      else (Inr 1, d\<lparr>ringfence_assignments := ringfence_assignments d @
              [\<lparr>ra_tenant = tenantID, ra_group = groupID, ra_ringfence = ringfenceID\<rparr>]\<rparr>))"

definition AssignRingfence :: "uuid \<Rightarrow> uuid \<Rightarrow> uuid \<Rightarrow> db \<Rightarrow> unit res \<times> db" where
  "AssignRingfence tenantID groupID ringfenceID d = affected (pool (assign_ringfence_stmt tenantID groupID ringfenceID) d)"

definition unassign_stmt :: "uuid \<Rightarrow> uuid \<Rightarrow> db \<Rightarrow> unit res \<times> db" where
  "unassign_stmt tenantID groupID d =
     (let P = (\<lambda>a. ra_tenant a = tenantID \<and> ra_group a = groupID) in
      (oneRow (Inr (rows_affected P (ringfence_assignments d))),
       d\<lparr>ringfence_assignments := filter (\<lambda>a. \<not> P a) (ringfence_assignments d)\<rparr>))"

definition UnassignRingfence :: "uuid \<Rightarrow> uuid \<Rightarrow> db \<Rightarrow> unit res \<times> db" where
  "UnassignRingfence tenantID groupID = pool (unassign_stmt tenantID groupID)"

definition GroupRingfenceID :: "uuid \<Rightarrow> uuid \<Rightarrow> db \<Rightarrow> uuid res \<times> db" where
  "GroupRingfenceID tenantID groupID =
     pool (lookup ringfence_assignments (\<lambda>a. ra_tenant a = tenantID \<and> ra_group a = groupID) ra_ringfence)"

text \<open>The names of the groups of a ringfence: one join, grouped by ringfence in the order of the names.\<close>

definition assigned_pairs :: "uuid \<Rightarrow> db \<Rightarrow> (uuid \<times> string) list" where
  "assigned_pairs tenantID d = sort_key snd (concat (map (\<lambda>a. map (\<lambda>g. (ra_ringfence a, gr_name g))
     (filter (\<lambda>g. gr_id g = ra_group a \<and> gr_tenant g = ra_tenant a) (device_groups d)))
     (filter (\<lambda>a. ra_tenant a = tenantID) (ringfence_assignments d))))"

definition RingfenceAssignedGroups :: "uuid \<Rightarrow> db \<Rightarrow> (uuid \<Rightarrow> string list) res \<times> db" where
  "RingfenceAssignedGroups tenantID = pool (\<lambda>d.
     (Inr (\<lambda>i. map snd (filter (\<lambda>x. fst x = i) (assigned_pairs tenantID d))), d))"

text \<open>The ringfence of a device: the join of its row, its group's assignment and the ringfence.\<close>

definition device_ringfences :: "uuid \<Rightarrow> uuid \<Rightarrow> db \<Rightarrow> ringfence_row list" where
  "device_ringfences tenantID deviceID d =
     concat (map (\<lambda>v. concat (map (\<lambda>a. filter (\<lambda>r. rf_id r = ra_ringfence a \<and> rf_tenant r = tenantID) (ringfence_policies d))
       (filter (\<lambda>a. dv_group v = Some (ra_group a) \<and> ra_tenant a = dv_tenant v) (ringfence_assignments d))))
       (filter (\<lambda>v. dv_tenant v = tenantID \<and> dv_id v = deviceID) (devices d)))"

definition DeviceRingfence :: "uuid \<Rightarrow> uuid \<Rightarrow> db \<Rightarrow> ringfence_row res \<times> db" where
  "DeviceRingfence tenantID deviceID = pool (\<lambda>d.
     (case device_ringfences tenantID deviceID d of [] \<Rightarrow> Inl ErrNotFound | r # _ \<Rightarrow> Inr r, d))"

record resolved_ringfence =
  rr_version :: string
  rr_mode :: string
  rr_programs :: "program_row list"
  rr_protections :: "protection_row list"

text \<open>The text that is hashed, and its version.\<close>

definition show_bool :: "bool \<Rightarrow> string" where
  "show_bool b = (if b then ''true'' else ''false'')"

definition program_line :: "program_row \<Rightarrow> string" where
  "program_line p = ''prog='' @ rp_path p @ ''|'' @ show_bool (rp_network_blocked p) @ [LF]"

definition protection_line :: "protection_row \<Rightarrow> string" where
  "protection_line p = ''prot='' @ rt_rule p @ ''|'' @ rt_action p @ [LF]"

definition version_text :: "string \<Rightarrow> program_row list \<Rightarrow> protection_row list \<Rightarrow> string" where
  "version_text mode ps ts = ''mode='' @ mode @ [LF] @ concat (map program_line ps) @ concat (map protection_line ts)"

definition ringfenceVersion :: "(bytes \<Rightarrow> bytes) \<Rightarrow> string \<Rightarrow> program_row list \<Rightarrow> protection_row list \<Rightarrow> string" where
  "ringfenceVersion sha256 mode ps ts = take 32 (hex_encode (sha256 (version_text mode ps ts)))"

definition RingfenceForDevice :: "(bytes \<Rightarrow> bytes) \<Rightarrow> uuid \<Rightarrow> uuid \<Rightarrow> db \<Rightarrow> resolved_ringfence res \<times> db" where
  "RingfenceForDevice sha256 tenantID deviceID d =
     andThen (DeviceRingfence tenantID deviceID d) (\<lambda>r d1.
     andThen (ListRingfencePrograms tenantID (rf_id r) d1) (\<lambda>ps d2.
     andThen (ListRingfenceProtections tenantID (rf_id r) d2) (\<lambda>ts d3.
       (Inr \<lparr>rr_version = ringfenceVersion sha256 (rf_mode r) ps ts, rr_mode = rf_mode r, rr_programs = ps, rr_protections = ts\<rparr>, d3))))"

text \<open>Reported violations: one batch, all rows or none.\<close>

definition rf_valid_kind :: "string \<Rightarrow> bool" where
  "rf_valid_kind k \<longleftrightarrow> k = ''network'' \<or> k = ''child_process''"

definition append_events_stmt :: "uuid \<Rightarrow> uuid \<Rightarrow> ringfence_event_row list \<Rightarrow> db \<Rightarrow> unit res \<times> db" where
  "append_events_stmt tenantID deviceID evs d =
     (if (\<exists>e \<in> set evs. \<not> rf_valid_kind (re_kind e)) then (Inl (PgError ''23514''), d)
      else if \<not> tenant_exists tenantID d \<or> deviceID \<notin> dv_id ` set (devices d) then (Inl (PgError ''23503''), d)
      else (Inr (), d\<lparr>ringfence_event_seq := ringfence_event_seq d + length evs, ringfence_events := ringfence_events d @
              map (\<lambda>(n, e). e\<lparr>re_id := n, re_tenant := tenantID, re_device := deviceID\<rparr>) (enumerate (ringfence_event_seq d) evs)\<rparr>))"

definition AppendRingfenceEvents :: "uuid \<Rightarrow> uuid \<Rightarrow> ringfence_event_row list \<Rightarrow> db \<Rightarrow> unit res \<times> db" where
  "AppendRingfenceEvents tenantID deviceID evs d = (if evs = [] then (Inr (), d) else pool (append_events_stmt tenantID deviceID evs) d)"

definition ListRingfenceEvents :: "uuid \<Rightarrow> int \<Rightarrow> uuid option \<Rightarrow> db \<Rightarrow> (ringfence_event_row \<times> string) list res \<times> db" where
  "ListRingfenceEvents tenantID limit deviceID = pool (\<lambda>d.
     (Inr (take (nat limit) (sort_key (\<lambda>x. - re_at (fst x)) (concat (map (\<lambda>e. map (\<lambda>v. (e, dv_hostname v)) (filter (\<lambda>v. dv_id v = re_device e) (devices d)))
        (filter (\<lambda>e. re_tenant e = tenantID \<and> (deviceID = None \<or> deviceID = Some (re_device e))) (ringfence_events d)))))), d))"

section \<open>Console handlers\<close>

text \<open>The curated ASR rules and what the console calls them.\<close>

definition asrRules :: "(string \<times> string) list" where
  "asrRules =
    [(''D4F940AB-401B-4EFC-AADC-AD5F3C50688A'', ''Office applications creating child processes''),
     (''3B576869-A4EC-4529-8536-B80A7769E899'', ''Office applications creating executable content''),
     (''D3E037E1-3EB8-44C8-A917-57927947596D'', ''JS/VBScript launching downloaded executable content''),
     (''5BEB7EFE-FD9A-4556-801D-275E5FFC04CC'', ''Execution of potentially obfuscated scripts''),
     (''92E97FA1-2EDF-4476-BDD6-9DD0B4DDDC7B'', ''Win32 API calls from Office macros''),
     (''D1E49AAC-8F56-4280-B9BA-993A6D77406C'', ''Process creation from PSExec and WMI'')]"

definition ringfenceJSON :: "ringfence_row \<Rightarrow> string list \<Rightarrow> json" where
  "ringfenceJSON r groups = JObj [(''id'', JId (rf_id r)), (''name'', JStr (rf_name r)), (''mode'', JStr (rf_mode r)),
     (''created_at'', JTime (rf_created_at r)), (''groups'', JArr (map JStr groups))]"

definition programJSON :: "program_row \<Rightarrow> json" where
  "programJSON p = JObj [(''id'', JId (rp_id p)), (''path'', JStr (rp_path p)),
     (''network_blocked'', JBool (rp_network_blocked p)), (''note'', JStr (rp_note p))]"

definition protectionJSON :: "protection_row \<Rightarrow> json" where
  "protectionJSON p = JObj [(''asr_rule'', JStr (rt_rule p)), (''action'', JStr (rt_action p))]"

definition contents :: "json \<Rightarrow> program_row list \<Rightarrow> protection_row list \<Rightarrow> json" where
  "contents r ps ts = JObj [(''ringfence'', r), (''programs'', JArr (map programJSON ps)), (''protections'', JArr (map protectionJSON ts))]"

definition listRingfences :: "principal \<Rightarrow> db \<Rightarrow> response \<times> db" where
  "listRingfences p d = (case ListRingfences (pr_tenant p) d of
       (Inl e, d1) \<Rightarrow> (storeErr e, d1)
     | (Inr rfs, d1) \<Rightarrow> respond (\<lambda>assigned. JArr (map (\<lambda>r. ringfenceJSON r (assigned (rf_id r))) rfs))
         (RingfenceAssignedGroups (pr_tenant p) d1))"

text \<open>The errors of the two listings are dropped: an unreadable list is shown as an empty one.\<close>

definition rows_or_none :: "'a list res \<Rightarrow> 'a list" where
  "rows_or_none r = (case r of Inl _ \<Rightarrow> [] | Inr xs \<Rightarrow> xs)"

definition getRingfence :: "principal \<Rightarrow> uuid \<Rightarrow> db \<Rightarrow> response \<times> db" where
  "getRingfence p i d = (case GetRingfence (pr_tenant p) i d of
       (Inl e, d1) \<Rightarrow> (storeErr e, d1)
     | (Inr r, d1) \<Rightarrow> (let (progs, d2) = ListRingfencePrograms (pr_tenant p) i d1;
                           (prots, d3) = ListRingfenceProtections (pr_tenant p) i d2
         in (writeJSON 200 (contents (ringfenceJSON r []) (rows_or_none progs) (rows_or_none prots)), d3)))"

definition createRingfence :: "principal \<Rightarrow> string \<Rightarrow> db \<Rightarrow> response \<times> db" where
  "createRingfence p reqName d = (let name = TrimSpace reqName in
     if name = [] then (writeErr 400 ''name is required'', d)
     else let (i, d0) = new_uuid d in
       case CreateRingfence (pr_tenant p) i name ''audit'' d0 of
         (Inl e, d1) \<Rightarrow> (storeErr e, d1)
       | (Inr _, d1) \<Rightarrow> (reply_id 201 i, audit p ''ringfence.create'' ''ringfence'' (IdTxt '''' i) [(''name'', DStr name)] ''success'' d1))"

definition renameRingfence :: "principal \<Rightarrow> uuid \<Rightarrow> string \<Rightarrow> db \<Rightarrow> response \<times> db" where
  "renameRingfence p i reqName d = (let name = TrimSpace reqName in
     if name = [] then (writeErr 400 ''name is required'', d)
     else finish p ''ringfence.rename'' ''ringfence'' i [(''name'', DStr name)] (RenameRingfence (pr_tenant p) i name d))"

definition setRingfenceMode :: "principal \<Rightarrow> uuid \<Rightarrow> string \<Rightarrow> db \<Rightarrow> response \<times> db" where
  "setRingfenceMode p i mode d =
     (if mode \<noteq> ''audit'' \<and> mode \<noteq> ''enforce'' then (writeErr 400 ''mode must be audit or enforce'', d)
      else finish p ''ringfence.mode'' ''ringfence'' i [(''mode'', DStr mode)] (SetRingfenceMode (pr_tenant p) i mode d))"

definition deleteRingfence :: "principal \<Rightarrow> uuid \<Rightarrow> db \<Rightarrow> response \<times> db" where
  "deleteRingfence p i d = finish p ''ringfence.delete'' ''ringfence'' i [] (DeleteRingfence (pr_tenant p) i d)"

definition addRingfenceProgram :: "principal \<Rightarrow> uuid \<Rightarrow> string \<Rightarrow> bool option \<Rightarrow> string \<Rightarrow> db \<Rightarrow> response \<times> db" where
  "addRingfenceProgram p i reqPath reqBlocked note d = (let path = TrimSpace reqPath in
     if path = [] then (writeErr 400 ''path is required'', d)
     else let networkBlocked = (case reqBlocked of None \<Rightarrow> True | Some b \<Rightarrow> b); (progID, d0) = new_uuid d in
       case AddRingfenceProgram (pr_tenant p) i progID path networkBlocked note d0 of
         (Inl e, d1) \<Rightarrow> (storeErr e, d1)
       | (Inr _, d1) \<Rightarrow> (reply_id 201 progID, audit p ''ringfence.program'' ''ringfence'' (IdTxt '''' i)
           [(''path'', DStr path), (''network_blocked'', DBool networkBlocked)] ''success'' d1))"

definition deleteRingfenceProgram :: "principal \<Rightarrow> uuid \<Rightarrow> uuid \<Rightarrow> db \<Rightarrow> response \<times> db" where
  "deleteRingfenceProgram p i progID d =
     finish p ''ringfence.program'' ''ringfence'' i [(''program_id'', DId progID), (''action'', DStr ''delete'')]
       (DeleteRingfenceProgram (pr_tenant p) i progID d)"

definition setRingfenceProtection :: "principal \<Rightarrow> uuid \<Rightarrow> string \<Rightarrow> string \<Rightarrow> db \<Rightarrow> response \<times> db" where
  "setRingfenceProtection p i asrRule action d =
     (if map_of asrRules (ToUpper asrRule) = None then (writeErr 400 ''asr_rule is not in the curated set'', d)
      else if action \<noteq> ''audit'' \<and> action \<noteq> ''block'' \<and> action \<noteq> ''off'' then (writeErr 400 ''action must be audit, block, or off'', d)
      else finish p ''ringfence.protection'' ''ringfence'' i [(''asr_rule'', DStr asrRule), (''action'', DStr action)]
        (SetRingfenceProtection (pr_tenant p) i (ToUpper asrRule) action d))"

definition assignRingfence :: "principal \<Rightarrow> uuid \<Rightarrow> uuid \<Rightarrow> db \<Rightarrow> response \<times> db" where
  "assignRingfence p i gid d =
     finish p ''ringfence.assign'' ''ringfence'' i [(''group_id'', DId gid)] (AssignRingfence (pr_tenant p) gid i d)"

text \<open>Only the ringfence the caller names is detached: the statement runs after the comparison.\<close>

definition unassignRingfence :: "principal \<Rightarrow> uuid \<Rightarrow> uuid \<Rightarrow> db \<Rightarrow> response \<times> db" where
  "unassignRingfence p groupID rfID d = (case GroupRingfenceID (pr_tenant p) groupID d of
       (Inl e, d1) \<Rightarrow> (storeErr e, d1)
     | (Inr current, d1) \<Rightarrow>
         if current \<noteq> rfID then (writeErr 409 ''group is no longer assigned to this ringfence'', d1)
         else finish p ''ringfence.unassign'' ''ringfence'' rfID [(''group_id'', DId groupID)] (UnassignRingfence (pr_tenant p) groupID d1))"

definition ringfence_eventJSON :: "ringfence_event_row \<times> string \<Rightarrow> json" where
  "ringfence_eventJSON x = (case x of (e, host) \<Rightarrow> JObj [(''id'', JInt (int (re_id e))), (''device_id'', JId (re_device e)), (''hostname'', JStr host),
     (''kind'', JStr (re_kind e)), (''program'', JStr (re_program e)), (''detail'', JStr (re_detail e)),
     (''enforced'', JBool (re_enforced e)), (''at'', JTime (re_at e))])"

definition listRingfenceEvents :: "principal \<Rightarrow> int option \<Rightarrow> uuid option \<Rightarrow> db \<Rightarrow> response \<times> db" where
  "listRingfenceEvents p limit deviceID d =
     respond (\<lambda>evs. JArr (map ringfence_eventJSON evs)) (ListRingfenceEvents (pr_tenant p) (queryInt limit 200 1000) deviceID d)"

definition getDeviceRingfence :: "principal \<Rightarrow> uuid \<Rightarrow> db \<Rightarrow> response \<times> db" where
  "getDeviceRingfence p i d = (case GetDevice (pr_tenant p) i d of
       (Inl e, d1) \<Rightarrow> (storeErr e, d1)
     | (Inr _, d1) \<Rightarrow> (case DeviceRingfence (pr_tenant p) i d1 of
         (Inl e, d2) \<Rightarrow> if e = ErrNotFound then (writeJSON 200 (contents JNull [] []), d2) else (storeErr e, d2)
       | (Inr r, d2) \<Rightarrow> (case ListRingfencePrograms (pr_tenant p) (rf_id r) d2 of
           (Inl e, d3) \<Rightarrow> (storeErr e, d3)
         | (Inr ps, d3) \<Rightarrow> respond (contents (ringfenceJSON r []) ps) (ListRingfenceProtections (pr_tenant p) (rf_id r) d3))))"

end
