(* ===== verification/Controls.thy ===== *)
theory Controls
  imports Devices
begin

text \<open>
  Device controls (USB storage, network, elevation): the settings of a group, the
  overrides of a device and their resolution (\<^verbatim>\<open>store/controls.go\<close>), and the console
  handlers for them (\<^verbatim>\<open>httpapi/telemetry.go\<close>).
\<close>

section \<open>The tables\<close>

record device_controls_val =
  USBStorageBlocked :: bool
  NetworkBlocked :: bool
  ElevationBlocked :: bool

record control_overrides =
  co_usb :: "bool option"
  co_network :: "bool option"
  co_elevation :: "bool option"

definition no_controls :: device_controls_val where
  "no_controls = \<lparr>USBStorageBlocked = False, NetworkBlocked = False, ElevationBlocked = False\<rparr>"

definition no_overrides :: control_overrides where
  "no_overrides = \<lparr>co_usb = None, co_network = None, co_elevation = None\<rparr>"

definition overrides_empty :: "control_overrides \<Rightarrow> bool" where
  "overrides_empty c \<longleftrightarrow> co_usb c = None \<and> co_network c = None \<and> co_elevation c = None"

definition device_in :: "uuid \<Rightarrow> uuid \<Rightarrow> db \<Rightarrow> bool" where
  "device_in tenantID i d \<longleftrightarrow> (\<exists>v \<in> set (devices d). dv_tenant v = tenantID \<and> dv_id v = i)"

text \<open>The override row of a device, joined on the device alone.\<close>

definition overrides_of :: "uuid \<Rightarrow> db \<Rightarrow> control_overrides" where
  "overrides_of deviceID d = (case find_row (\<lambda>x. ov_device x = deviceID) (device_control_overrides d) of
       None \<Rightarrow> no_overrides
     | Some x \<Rightarrow> \<lparr>co_usb = ov_usb x, co_network = ov_network x, co_elevation = ov_elevation x\<rparr>)"

definition GetDeviceOverrides :: "uuid \<Rightarrow> uuid \<Rightarrow> db \<Rightarrow> control_overrides res \<times> db" where
  "GetDeviceOverrides tenantID deviceID = pool (\<lambda>d.
     (if device_in tenantID deviceID d then Inr (overrides_of deviceID d) else Inl ErrNotFound, d))"

definition delete_overrides_stmt :: "uuid \<Rightarrow> uuid \<Rightarrow> db \<Rightarrow> unit res \<times> db" where
  "delete_overrides_stmt tenantID deviceID d = (Inr (), d\<lparr>device_control_overrides :=
     filter (\<lambda>x. \<not> (ov_tenant x = tenantID \<and> ov_device x = deviceID)) (device_control_overrides d)\<rparr>)"

definition upsert_overrides_stmt :: "uuid \<Rightarrow> uuid \<Rightarrow> control_overrides \<Rightarrow> db \<Rightarrow> unit res \<times> db" where
  "upsert_overrides_stmt tenantID deviceID c d =
     (if (\<exists>x \<in> set (device_control_overrides d). ov_device x = deviceID)
      then (Inr (), d\<lparr>device_control_overrides := update_where (\<lambda>x. ov_device x = deviceID)
             (\<lambda>x. x\<lparr>ov_usb := co_usb c, ov_network := co_network c, ov_elevation := co_elevation c\<rparr>) (device_control_overrides d)\<rparr>)
      else if \<not> tenant_exists tenantID d \<or> deviceID \<notin> dv_id ` set (devices d) then (Inl (PgError ''23503''), d)
      else (Inr (), d\<lparr>device_control_overrides := device_control_overrides d @ [\<lparr>ov_tenant = tenantID, ov_device = deviceID,
             ov_usb = co_usb c, ov_network = co_network c, ov_elevation = co_elevation c\<rparr>]\<rparr>))"

definition SetDeviceOverrides :: "uuid \<Rightarrow> uuid \<Rightarrow> control_overrides \<Rightarrow> db \<Rightarrow> unit res \<times> db" where
  "SetDeviceOverrides tenantID deviceID c d =
     andThen (pool (\<lambda>d. (Inr (device_in tenantID deviceID d), d)) d) (\<lambda>exists d1.
       if \<not> exists then (Inl ErrNotFound, d1)
       else if overrides_empty c then pool (delete_overrides_stmt tenantID deviceID) d1
       else pool (upsert_overrides_stmt tenantID deviceID c) d1)"

definition set_controls_stmt :: "uuid \<Rightarrow> uuid \<Rightarrow> device_controls_val \<Rightarrow> db \<Rightarrow> nat res \<times> db" where
  "set_controls_stmt tenantID groupID c d =
     (if \<not> group_in tenantID groupID d then (Inr 0, d)
      else if (\<exists>x \<in> set (device_controls d). dc_group x = groupID) then
        (let P = (\<lambda>x. dc_group x = groupID \<and> dc_tenant x = tenantID)
         in (Inr (rows_affected P (device_controls d)), d\<lparr>device_controls := update_where P
               (\<lambda>x. x\<lparr>dc_usb := USBStorageBlocked c, dc_network := NetworkBlocked c, dc_elevation := ElevationBlocked c\<rparr>) (device_controls d)\<rparr>))
      else (Inr 1, d\<lparr>device_controls := device_controls d @ [\<lparr>dc_tenant = tenantID, dc_group = groupID,
              dc_usb = USBStorageBlocked c, dc_network = NetworkBlocked c, dc_elevation = ElevationBlocked c\<rparr>]\<rparr>))"

definition SetControls :: "uuid \<Rightarrow> uuid \<Rightarrow> device_controls_val \<Rightarrow> db \<Rightarrow> unit res \<times> db" where
  "SetControls tenantID groupID c d = (case pool (set_controls_stmt tenantID groupID c) d of
       (Inl e, d1) \<Rightarrow> (Inl e, d1)
     | (Inr n, d1) \<Rightarrow> (if n = 0 then Inl ErrNotFound else Inr (), d1))"

definition controls_val :: "controls_row \<Rightarrow> device_controls_val" where
  "controls_val x = \<lparr>USBStorageBlocked = dc_usb x, NetworkBlocked = dc_network x, ElevationBlocked = dc_elevation x\<rparr>"

definition GetControls :: "uuid \<Rightarrow> uuid \<Rightarrow> db \<Rightarrow> device_controls_val res \<times> db" where
  "GetControls tenantID groupID =
     pool (lookup device_controls (\<lambda>x. dc_tenant x = tenantID \<and> dc_group x = groupID) controls_val)"

text \<open>COALESCE of the override, the group's value and false.\<close>

definition coalesce :: "bool option \<Rightarrow> bool option \<Rightarrow> bool" where
  "coalesce a b = (case a of Some x \<Rightarrow> x | None \<Rightarrow> (case b of Some y \<Rightarrow> y | None \<Rightarrow> False))"

definition resolve_controls :: "device_row \<Rightarrow> db \<Rightarrow> device_controls_val" where
  "resolve_controls v d =
     (let g = find_row (\<lambda>x. dv_group v = Some (dc_group x) \<and> dc_tenant x = dv_tenant v) (device_controls d);
          c = overrides_of (dv_id v) d
      in \<lparr>USBStorageBlocked = coalesce (co_usb c) (map_option dc_usb g),
          NetworkBlocked = coalesce (co_network c) (map_option dc_network g),
          ElevationBlocked = coalesce (co_elevation c) (map_option dc_elevation g)\<rparr>)"

definition EffectiveControlsForDevice :: "uuid \<Rightarrow> uuid \<Rightarrow> db \<Rightarrow> device_controls_val res \<times> db" where
  "EffectiveControlsForDevice tenantID deviceID = pool (\<lambda>d.
     (case find_row (\<lambda>v. dv_tenant v = tenantID \<and> dv_id v = deviceID) (devices d) of
        None \<Rightarrow> Inl ErrNotFound
      | Some v \<Rightarrow> Inr (resolve_controls v d), d))"

section \<open>Console handlers\<close>

definition controlsJSON :: "device_controls_val \<Rightarrow> json" where
  "controlsJSON c = JObj [(''usb_storage_blocked'', JBool (USBStorageBlocked c)), (''network_blocked'', JBool (NetworkBlocked c)),
     (''elevation_blocked'', JBool (ElevationBlocked c))]"

definition overridesJSON :: "control_overrides \<Rightarrow> json" where
  "overridesJSON c = JObj [(''usb_storage_blocked'', JOpt JBool (co_usb c)), (''network_blocked'', JOpt JBool (co_network c)),
     (''elevation_blocked'', JOpt JBool (co_elevation c))]"

definition getControls :: "principal \<Rightarrow> uuid \<Rightarrow> db \<Rightarrow> response \<times> db" where
  "getControls p groupID d = (case GetControls (pr_tenant p) groupID d of
       (Inl e, d1) \<Rightarrow> (if e = ErrNotFound then writeJSON 200 (controlsJSON no_controls) else storeErr e, d1)
     | (Inr c, d1) \<Rightarrow> (writeJSON 200 (controlsJSON c), d1))"

definition setControls :: "principal \<Rightarrow> uuid \<Rightarrow> device_controls_val \<Rightarrow> db \<Rightarrow> response \<times> db" where
  "setControls p groupID c d = finish p ''controls.set'' ''group'' groupID
     [(''usb_storage_blocked'', DBool (USBStorageBlocked c)), (''network_blocked'', DBool (NetworkBlocked c)),
      (''elevation_blocked'', DBool (ElevationBlocked c))] (SetControls (pr_tenant p) groupID c d)"

definition getDeviceControls :: "principal \<Rightarrow> uuid \<Rightarrow> db \<Rightarrow> response \<times> db" where
  "getDeviceControls p i d = (case GetDeviceOverrides (pr_tenant p) i d of
       (Inl e, d1) \<Rightarrow> (storeErr e, d1)
     | (Inr ovr, d1) \<Rightarrow> (case GetDevice (pr_tenant p) i d1 of
         (Inl e, d2) \<Rightarrow> (storeErr e, d2)
       | (Inr v, d2) \<Rightarrow>
           (let (grp, d3) = (case dv_group v of
                  None \<Rightarrow> (Inr no_controls, d2)
                | Some g \<Rightarrow> (case GetControls (pr_tenant p) g d2 of
                    (Inl e, d3) \<Rightarrow> (if e = ErrNotFound then Inr no_controls else Inl e, d3)
                  | (Inr c, d3) \<Rightarrow> (Inr c, d3)))
            in case grp of
                 Inl e \<Rightarrow> (storeErr e, d3)
               | Inr c \<Rightarrow> respond (\<lambda>eff. JObj [(''overrides'', overridesJSON ovr), (''group'', controlsJSON c), (''effective'', controlsJSON eff)])
                   (EffectiveControlsForDevice (pr_tenant p) i d3))))"

text \<open>The detail of the audit entry: the three overrides, null for the inherited ones.\<close>

definition override_detail :: "bool option \<Rightarrow> detail_val" where
  "override_detail b = (case b of None \<Rightarrow> DStr ''null'' | Some x \<Rightarrow> DBool x)"

definition setDeviceControls :: "principal \<Rightarrow> uuid \<Rightarrow> control_overrides \<Rightarrow> db \<Rightarrow> response \<times> db" where
  "setDeviceControls p i c d = finish p ''device.controls'' ''device'' i
     [(''usb_storage_blocked'', override_detail (co_usb c)), (''network_blocked'', override_detail (co_network c)),
      (''elevation_blocked'', override_detail (co_elevation c))] (SetDeviceOverrides (pr_tenant p) i c d)"

end
