(* ===== verification/Tenancy.thy ===== *)
theory Tenancy
  imports Ringfence Controls Isolation
begin

text \<open>
  Ringfences and device controls of different tenants do not interfere. The invariant
  keeps every row inside its tenant; a tenant's view is what the resolution of its
  devices' ringfences and controls can depend on.
\<close>

section \<open>The invariant\<close>

definition has_ringfence :: "ringfence_row list \<Rightarrow> uuid \<Rightarrow> uuid \<Rightarrow> bool" where
  "has_ringfence rs t i \<longleftrightarrow> (\<exists>r \<in> set rs. rf_tenant r = t \<and> rf_id r = i)"

definition has_group :: "group_row list \<Rightarrow> uuid \<Rightarrow> uuid \<Rightarrow> bool" where
  "has_group gs t i \<longleftrightarrow> (\<exists>g \<in> set gs. gr_tenant g = t \<and> gr_id g = i)"

definition has_device :: "device_row list \<Rightarrow> uuid \<Rightarrow> uuid \<Rightarrow> bool" where
  "has_device vs t i \<longleftrightarrow> (\<exists>v \<in> set vs. dv_tenant v = t \<and> dv_id v = i)"

definition tenancy_inv :: "db \<Rightarrow> bool" where
  "tenancy_inv d \<longleftrightarrow>
     distinct (map gr_id (device_groups d)) \<and> distinct (map dv_id (devices d)) \<and>
     distinct (map rf_id (ringfence_policies d)) \<and> (\<forall>r \<in> set (ringfence_policies d). rf_valid_mode (rf_mode r)) \<and>
     (\<forall>p \<in> set (ringfence_programs d). has_ringfence (ringfence_policies d) (rp_tenant p) (rp_ringfence p)) \<and>
     (\<forall>p \<in> set (ringfence_protections d). has_ringfence (ringfence_policies d) (rt_tenant p) (rt_ringfence p) \<and>
        rt_rule p \<in> fst ` set asrRules \<and> rt_action p \<in> {''audit'', ''block''}) \<and>
     (\<forall>a \<in> set (ringfence_assignments d). has_ringfence (ringfence_policies d) (ra_tenant a) (ra_ringfence a) \<and>
        has_group (device_groups d) (ra_tenant a) (ra_group a)) \<and>
     distinct (map ra_group (ringfence_assignments d)) \<and>
     (\<forall>x \<in> set (device_controls d). has_group (device_groups d) (dc_tenant x) (dc_group x)) \<and>
     distinct (map dc_group (device_controls d)) \<and>
     (\<forall>x \<in> set (device_control_overrides d). has_device (devices d) (ov_tenant x) (ov_device x)) \<and>
     distinct (map ov_device (device_control_overrides d))"

text \<open>What the ringfences and controls of a tenant's devices depend on.\<close>

definition tenant_view :: "uuid \<Rightarrow> db \<Rightarrow>
    ringfence_row list \<times> program_row list \<times> protection_row list \<times> rf_assignment_row list \<times> controls_row list \<times>
    override_row list \<times> (uuid \<times> uuid option) list" where
  "tenant_view t d =
     (filter (\<lambda>r. rf_tenant r = t) (ringfence_policies d), filter (\<lambda>p. rp_tenant p = t) (ringfence_programs d),
      filter (\<lambda>p. rt_tenant p = t) (ringfence_protections d), filter (\<lambda>a. ra_tenant a = t) (ringfence_assignments d),
      filter (\<lambda>x. dc_tenant x = t) (device_controls d), filter (\<lambda>x. ov_tenant x = t) (device_control_overrides d),
      map (\<lambda>v. (dv_id v, dv_group v)) (filter (\<lambda>v. dv_tenant v = t) (devices d)))"

definition confined :: "uuid \<Rightarrow> db \<Rightarrow> db \<Rightarrow> bool" where
  "confined t d d' \<longleftrightarrow> (tenancy_inv d \<longrightarrow> tenancy_inv d' \<and> (\<forall>u. t \<noteq> u \<longrightarrow> tenant_view u d' = tenant_view u d))"

lemma confined_refl [simp]: "confined t d d"
  by (simp add: confined_def)

lemma confined_trans: "confined t d d1 \<Longrightarrow> confined t d1 d2 \<Longrightarrow> confined t d d2"
  by (auto simp: confined_def)

lemma confined_frame [simp]:
  "confined t d (d'\<lparr>faults := fs\<rparr>) = confined t d d'" "confined t (d\<lparr>faults := fs\<rparr>) d' = confined t d d'"
  "confined t d (d'\<lparr>next_uuid := u\<rparr>) = confined t d d'" "confined t (d\<lparr>next_uuid := u\<rparr>) d' = confined t d d'"
  "confined t d (d'\<lparr>install_tokens := ks\<rparr>) = confined t d d'"
  by (simp_all add: confined_def tenancy_inv_def tenant_view_def)

lemma confined_audit [simp]: "confined t d (audit p a b c e g d') = confined t d d'"
  by (rule audit_shape [of p a b c e g d']) (simp add: confined_def tenancy_inv_def tenant_view_def)

lemma confined_pool:
  assumes "\<And>d. confined t d (snd (stmt d))"
  shows "confined t d (snd (pool stmt d))"
proof (cases stmt d rule: pool_cases)
  case (ran rest)
  with assms [of "d\<lparr>faults := rest\<rparr>"] show ?thesis by simp
qed simp

lemma confined_andThen:
  assumes "confined t d (snd m)" "\<And>x d1. m = (Inr x, d1) \<Longrightarrow> confined t d1 (snd (k x d1))"
  shows "confined t d (snd (andThen m k))"
  using assms by (cases m; cases "fst m") (auto intro: confined_trans)

lemma confined_tx:
  assumes "\<And>d. confined t d (snd (body d))"
  shows "confined t d (snd (tx body d))"
proof (cases body d rule: tx_cases)
  case (commit fs x d' fs')
  with assms [of "d\<lparr>faults := fs\<rparr>"] show ?thesis by simp
qed simp

lemma confined_affected [simp]: "confined t d (snd (affected r)) = confined t d (snd r)"
  by (cases r; cases "fst r") (simp_all add: affected_def)

lemma confined_finish [simp]: "confined t d (snd (finish p a b i e r)) = confined t d (snd r)"
  by (cases r; cases "fst r") (simp_all add: finish_def)

section \<open>Every statement is confined to its tenant\<close>

lemma has_append [simp]:
  "has_ringfence (rs @ rs') t i \<longleftrightarrow> has_ringfence rs t i \<or> has_ringfence rs' t i"
  "has_group (gs @ gs') t i \<longleftrightarrow> has_group gs t i \<or> has_group gs' t i"
  by (auto simp: has_ringfence_def has_group_def)

lemma has_update:
  "(\<And>r. rf_tenant (f r) = rf_tenant r \<and> rf_id (f r) = rf_id r) \<Longrightarrow> has_ringfence (update_where P f rs) t i = has_ringfence rs t i"
  "(\<And>g. gr_tenant (h g) = gr_tenant g \<and> gr_id (h g) = gr_id g) \<Longrightarrow> has_group (update_where Q h gs) t i = has_group gs t i"
  "(\<And>v. dv_tenant (k v) = dv_tenant v \<and> dv_id (k v) = dv_id v) \<Longrightarrow> has_device (update_where R k vs) t i = has_device vs t i"
  by (auto simp: has_ringfence_def has_group_def has_device_def set_update_where)

lemma has_filter:
  "has_ringfence rs t i \<Longrightarrow> i \<noteq> j \<Longrightarrow> has_ringfence (filter (\<lambda>r. rf_id r \<noteq> j) rs) t i"
  "has_group gs t i \<Longrightarrow> i \<noteq> j \<Longrightarrow> has_group (filter (\<lambda>g. gr_id g \<noteq> j) gs) t i"
  by (auto simp: has_ringfence_def has_group_def)

lemma has_in: "ringfence_in t i d = has_ringfence (ringfence_policies d) t i" "group_in t i d = has_group (device_groups d) t i"
  "device_in t i d = has_device (devices d) t i"
  by (simp_all add: ringfence_in_def has_ringfence_def group_in_def has_group_def device_in_def has_device_def)

text \<open>An identifier belongs to one tenant.\<close>

lemma has_unique:
  "distinct (map rf_id rs) \<Longrightarrow> has_ringfence rs t i \<Longrightarrow> has_ringfence rs u i \<Longrightarrow> u = t"
  "distinct (map gr_id gs) \<Longrightarrow> has_group gs t i \<Longrightarrow> has_group gs u i \<Longrightarrow> u = t"
  "distinct (map dv_id vs) \<Longrightarrow> has_device vs t i \<Longrightarrow> has_device vs u i \<Longrightarrow> u = t"
  by (auto simp: has_ringfence_def has_group_def has_device_def distinct_map inj_on_def)

lemma other_tenant:
  "t \<noteq> u \<Longrightarrow> (\<And>r. P r \<Longrightarrow> k r = t) \<Longrightarrow> (\<And>r. k (f r) = k r) \<Longrightarrow>
   filter (\<lambda>r. k r = u) (update_where P f rs) = filter (\<lambda>r. k r = u) rs"
  by (rule filter_update_where_other) auto

lemmas confined_defs = confined_def tenancy_inv_def tenant_view_def

lemma ringfence_row_stmts:
  "confined t d (snd (insert_ringfence_stmt t i n m d))" "confined t d (snd (rename_ringfence_stmt t i n d))"
  "confined t d (snd (ringfence_mode_stmt t i m d))"
proof -
  show "confined t d (snd (insert_ringfence_stmt t i n m d))"
    by (auto simp: insert_ringfence_stmt_def confined_defs)
  show "confined t d (snd (rename_ringfence_stmt t i n d))"
    by (auto simp: rename_ringfence_stmt_def Let_def confined_defs has_update map_update_where_inv intro!: other_tenant [where t = t] dest!: in_update_where)
  show "confined t d (snd (ringfence_mode_stmt t i m d))"
    by (auto simp: ringfence_mode_stmt_def Let_def confined_defs has_update ringfence_in_def map_update_where_inv
        intro!: other_tenant [where t = t] dest!: in_update_where)
qed

lemma filter_filter_other:
  "(\<And>x. x \<in> set xs \<Longrightarrow> Q x \<Longrightarrow> P x) \<Longrightarrow> filter Q (filter P xs) = filter Q xs"
  by (induction xs) auto

lemma delete_ringfence_confined: "confined t d (snd (delete_ringfence_stmt t i d))"
proof (cases "has_ringfence (ringfence_policies d) t i \<and> tenancy_inv d")
  case True
  then have inv: "tenancy_inv d" and ti: "has_ringfence (ringfence_policies d) t i" by auto
  have u: "has_ringfence (ringfence_policies d) u i \<Longrightarrow> u = t" for u
    using inv ti has_unique(1) by (auto simp: tenancy_inv_def)
  have "tenant_view u (snd (delete_ringfence_stmt t i d)) = tenant_view u d" if "u \<noteq> t" for u
  proof -
    have "rf_tenant r = u \<Longrightarrow> r \<in> set (ringfence_policies d) \<Longrightarrow> rf_id r \<noteq> i" for r
      using u [of u] that by (auto simp: has_ringfence_def)
    moreover have "rp_tenant p = u \<Longrightarrow> p \<in> set (ringfence_programs d) \<Longrightarrow> rp_ringfence p \<noteq> i" for p
      using u [of u] that inv by (auto simp: tenancy_inv_def)
    moreover have "rt_tenant p = u \<Longrightarrow> p \<in> set (ringfence_protections d) \<Longrightarrow> rt_ringfence p \<noteq> i" for p
      using u [of u] that inv by (auto simp: tenancy_inv_def)
    moreover have "ra_tenant a = u \<Longrightarrow> a \<in> set (ringfence_assignments d) \<Longrightarrow> ra_ringfence a \<noteq> i" for a
      using u [of u] that inv by (auto simp: tenancy_inv_def)
    ultimately show ?thesis
      using ti by (simp add: delete_ringfence_stmt_def has_in tenant_view_def filter_filter_other del: filter_filter)
  qed
  moreover have "tenancy_inv (snd (delete_ringfence_stmt t i d))"
    using inv ti by (auto simp: delete_ringfence_stmt_def has_in tenancy_inv_def has_filter distinct_map_filter)
  ultimately show ?thesis by (simp add: confined_def)
qed (auto simp: delete_ringfence_stmt_def has_in confined_def)

lemma other_tenant_filter:
  "t \<noteq> u \<Longrightarrow> (\<And>r. \<not> P r \<Longrightarrow> k r = t) \<Longrightarrow> filter (\<lambda>r. k r = u) (filter P rs) = filter (\<lambda>r. k r = u) rs"
  by (rule filter_filter_other) auto

lemma program_stmts:
  "confined t d (snd (add_program_stmt t i j path b n d))" "confined t d (snd (delete_program_stmt t i j d))"
proof -
  show "confined t d (snd (add_program_stmt t i j path b n d))"
    by (auto simp: add_program_stmt_def confined_defs has_in)
  show "confined t d (snd (delete_program_stmt t i j d))"
    by (auto simp: delete_program_stmt_def Let_def confined_defs intro!: other_tenant_filter [where t = t] simp del: filter_filter)
qed

lemma protection_stmts:
  "confined t d (snd (delete_protection_stmt t i r d))"
  "r \<in> fst ` set asrRules \<Longrightarrow> confined t d (snd (upsert_protection_stmt t i r a d))"
proof -
  show "confined t d (snd (delete_protection_stmt t i r d))"
    by (auto simp: delete_protection_stmt_def confined_defs intro!: other_tenant_filter [where t = t] simp del: filter_filter)
  show "confined t d (snd (upsert_protection_stmt t i r a d))" if r: "r \<in> fst ` set asrRules"
  proof (cases "tenancy_inv d \<and> has_ringfence (ringfence_policies d) t i")
    case True
    then have own: "rt_tenant p = t" if "p \<in> set (ringfence_protections d)" "rt_ringfence p = i" for p
      using that has_unique(1) by (fastforce simp: tenancy_inv_def)
    let ?ts = "update_where (\<lambda>p. rt_ringfence p = i \<and> rt_rule p = r) (\<lambda>p. p\<lparr>rt_action := a\<rparr>) (ringfence_protections d)"
    have "filter (\<lambda>p. rt_tenant p = u) ?ts = filter (\<lambda>p. rt_tenant p = u) (ringfence_protections d)" if "t \<noteq> u" for u
      by (rule filter_update_where_other) (use that own in auto)
    moreover have "\<forall>p \<in> set ?ts. has_ringfence (ringfence_policies d) (rt_tenant p) (rt_ringfence p) \<and>
        rt_rule p \<in> fst ` set asrRules \<and> rt_action p \<in> {''audit'', ''block''}" if "a \<in> {''audit'', ''block''}"
      using that True by (auto simp: tenancy_inv_def dest!: in_update_where)
    ultimately show ?thesis using True r
      by (auto simp: upsert_protection_stmt_def Let_def has_in confined_defs)
  qed (auto simp: upsert_protection_stmt_def Let_def has_in confined_def)
qed

lemma assignment_stmts:
  "confined t d (snd (assign_ringfence_stmt t g i d))" "confined t d (snd (unassign_stmt t g d))"
proof -
  have ids: "map ra_group (update_where P (\<lambda>a. a\<lparr>ra_ringfence := i\<rparr>) as) = map ra_group as" for P as
    by (rule map_update_where_inv) simp
  show "confined t d (snd (assign_ringfence_stmt t g i d))"
    by (auto simp: assign_ringfence_stmt_def Let_def confined_defs has_in ids intro!: other_tenant [where t = t] dest!: in_update_where)
  show "confined t d (snd (unassign_stmt t g d))"
    by (auto simp: unassign_stmt_def Let_def confined_defs distinct_map_filter intro!: other_tenant_filter [where t = t] simp del: filter_filter)
qed

lemma controls_stmts:
  "confined t d (snd (set_controls_stmt t g c d))" "confined t d (snd (delete_overrides_stmt t i d))"
  "device_in t i d \<Longrightarrow> confined t d (snd (upsert_overrides_stmt t i ov d))"
proof -
  have ids: "map dc_group (update_where P (\<lambda>x. x\<lparr>dc_usb := a, dc_network := b, dc_elevation := e\<rparr>) xs) = map dc_group xs" for P a b e xs
    by (rule map_update_where_inv) simp
  show "confined t d (snd (set_controls_stmt t g c d))"
    by (auto simp: set_controls_stmt_def Let_def confined_defs has_in ids intro!: other_tenant [where t = t] dest!: in_update_where)
  show "confined t d (snd (delete_overrides_stmt t i d))"
    by (auto simp: delete_overrides_stmt_def confined_defs distinct_map_filter intro!: other_tenant_filter [where t = t] simp del: filter_filter)
  show "confined t d (snd (upsert_overrides_stmt t i ov d))" if dev: "device_in t i d"
  proof (cases "tenancy_inv d")
    case True
    then have own: "ov_tenant x = t" if "x \<in> set (device_control_overrides d)" "ov_device x = i" for x
      using that dev has_unique(3) by (fastforce simp: tenancy_inv_def has_in)
    let ?f = "\<lambda>x. x\<lparr>ov_usb := co_usb ov, ov_network := co_network ov, ov_elevation := co_elevation ov\<rparr>"
    let ?xs = "update_where (\<lambda>x. ov_device x = i) ?f (device_control_overrides d)"
    have "filter (\<lambda>x. ov_tenant x = u) ?xs = filter (\<lambda>x. ov_tenant x = u) (device_control_overrides d)" if "t \<noteq> u" for u
      by (rule filter_update_where_other) (use that own in auto)
    moreover have "map ov_device ?xs = map ov_device (device_control_overrides d)" by (rule map_update_where_inv) simp
    moreover have "\<forall>x \<in> set ?xs. has_device (devices d) (ov_tenant x) (ov_device x)"
      using True by (auto simp: tenancy_inv_def dest!: in_update_where)
    ultimately show ?thesis using True dev by (auto simp: upsert_overrides_stmt_def confined_defs has_in)
  qed (simp add: confined_def)
qed

lemma group_stmts:
  "confined t d (snd (create_group_stmt i t n d))" "confined t d (snd (rename_group_stmt t i n d))"
  "confined t d (snd (ungroup_devices_stmt t i d))" "confined t d (snd (ungroup_tokens_stmt t i d))"
proof -
  show "confined t d (snd (create_group_stmt i t n d))"
    by (auto simp: create_group_stmt_def confined_defs)
  show "confined t d (snd (rename_group_stmt t i n d))"
    by (auto simp: rename_group_stmt_def Let_def confined_defs has_update map_update_where_inv)
  show "confined t d (snd (ungroup_tokens_stmt t i d))" by (simp add: ungroup_tokens_stmt_def)
  have "filter (\<lambda>v. dv_tenant v = u) (update_where (\<lambda>v. dv_tenant v = t \<and> dv_group v = Some i) (\<lambda>v. v\<lparr>dv_group := None\<rparr>) (devices d)) =
      filter (\<lambda>v. dv_tenant v = u) (devices d)" if "t \<noteq> u" for u
    by (rule other_tenant [OF that]) simp_all
  then show "confined t d (snd (ungroup_devices_stmt t i d))"
    by (auto simp: ungroup_devices_stmt_def confined_defs has_update map_update_where_inv)
qed

lemma delete_group_confined: "confined t d (snd (delete_group_stmt t i d))"
proof (cases "has_group (device_groups d) t i \<and> tenancy_inv d")
  case True
  then have inv: "tenancy_inv d" and ti: "has_group (device_groups d) t i" by auto
  have own: "t \<noteq> u \<Longrightarrow> \<not> has_group (device_groups d) u i" for u
    using inv ti has_unique(2) by (auto simp: tenancy_inv_def)
  have "tenant_view u (snd (delete_group_stmt t i d)) = tenant_view u d" if "t \<noteq> u" for u
  proof -
    have "ra_tenant a = u \<Longrightarrow> a \<in> set (ringfence_assignments d) \<Longrightarrow> ra_group a \<noteq> i" for a
      using own [OF that] inv by (auto simp: tenancy_inv_def)
    moreover have "dc_tenant x = u \<Longrightarrow> x \<in> set (device_controls d) \<Longrightarrow> dc_group x \<noteq> i" for x
      using own [OF that] inv by (auto simp: tenancy_inv_def)
    ultimately show ?thesis
      using ti by (simp add: delete_group_stmt_def has_in tenant_view_def filter_filter_other del: filter_filter)
  qed
  moreover have "tenancy_inv (snd (delete_group_stmt t i d))"
    using inv ti by (auto simp: delete_group_stmt_def has_in tenancy_inv_def has_filter distinct_map_filter)
  ultimately show ?thesis by (simp add: confined_def)
qed (auto simp: delete_group_stmt_def has_in confined_def)

lemma set_group_confined: "confined t d (snd (set_group_stmt t i g d))"
proof -
  have "filter (\<lambda>v. dv_tenant v = u) (update_where (\<lambda>v. dv_tenant v = t \<and> dv_id v = i) (\<lambda>v. v\<lparr>dv_group := g\<rparr>) (devices d)) =
      filter (\<lambda>v. dv_tenant v = u) (devices d)" if "t \<noteq> u" for u
    by (rule other_tenant [OF that]) simp_all
  then show ?thesis
    by (auto simp: set_group_stmt_def update_device_stmt_def Let_def confined_defs has_update map_update_where_inv)
qed

section \<open>The console requests of a tenant\<close>

inductive_set console_ops :: "uuid \<Rightarrow> (db \<Rightarrow> db) set" for t where
  create: "pr_tenant p = t \<Longrightarrow> (\<lambda>d. snd (createRingfence p n d)) \<in> console_ops t"
| rename: "pr_tenant p = t \<Longrightarrow> (\<lambda>d. snd (renameRingfence p i n d)) \<in> console_ops t"
| mode: "pr_tenant p = t \<Longrightarrow> (\<lambda>d. snd (setRingfenceMode p i m d)) \<in> console_ops t"
| delete: "pr_tenant p = t \<Longrightarrow> (\<lambda>d. snd (deleteRingfence p i d)) \<in> console_ops t"
| add_program: "pr_tenant p = t \<Longrightarrow> (\<lambda>d. snd (addRingfenceProgram p i path b n d)) \<in> console_ops t"
| delete_program: "pr_tenant p = t \<Longrightarrow> (\<lambda>d. snd (deleteRingfenceProgram p i j d)) \<in> console_ops t"
| protect: "pr_tenant p = t \<Longrightarrow> (\<lambda>d. snd (setRingfenceProtection p i r a d)) \<in> console_ops t"
| assign: "pr_tenant p = t \<Longrightarrow> (\<lambda>d. snd (assignRingfence p i g d)) \<in> console_ops t"
| unassign: "pr_tenant p = t \<Longrightarrow> (\<lambda>d. snd (unassignRingfence p g i d)) \<in> console_ops t"
| controls: "pr_tenant p = t \<Longrightarrow> (\<lambda>d. snd (setControls p g c d)) \<in> console_ops t"
| override: "pr_tenant p = t \<Longrightarrow> (\<lambda>d. snd (setDeviceControls p i ov d)) \<in> console_ops t"
| create_group: "pr_tenant p = t \<Longrightarrow> (\<lambda>d. snd (createGroup p n d)) \<in> console_ops t"
| rename_group: "pr_tenant p = t \<Longrightarrow> (\<lambda>d. snd (renameGroup p i n d)) \<in> console_ops t"
| delete_group: "pr_tenant p = t \<Longrightarrow> (\<lambda>d. snd (deleteGroup p i d)) \<in> console_ops t"
| move_device: "pr_tenant p = t \<Longrightarrow> (\<lambda>d. snd (setDeviceGroup p i og d)) \<in> console_ops t"

lemma SetDeviceOverrides_confined: "confined t d (snd (SetDeviceOverrides t i c d))"
proof -
  let ?q = "\<lambda>d. (Inr (device_in t i d) :: bool res, d)"
  show ?thesis
  proof (cases ?q d rule: pool_cases)
    case (ran rest)
    have fr: "device_in t i (d\<lparr>faults := rest\<rparr>) = device_in t i d" for d rest by (simp add: device_in_def)
    have up: "confined t d (snd (pool (upsert_overrides_stmt t i c) d))" if "device_in t i d" for d
    proof (cases "upsert_overrides_stmt t i c" d rule: pool_cases)
      case (ran rest)
      with controls_stmts(3) [where t = t and i = i and d = "d\<lparr>faults := rest\<rparr>" and ov = c] that fr show ?thesis by simp
    qed simp
    with ran fr show ?thesis
      using up [of "d\<lparr>faults := rest\<rparr>"] confined_pool [OF controls_stmts(2), where d = "d\<lparr>faults := rest\<rparr>"]
      by (auto simp: SetDeviceOverrides_def)
  qed (simp add: SetDeviceOverrides_def)
qed

lemma group_ops_confined:
  "confined t d (snd (CreateDeviceGroup t n d))" "confined t d (snd (RenameDeviceGroup t i n d))"
  "confined t d (snd (DeleteDeviceGroup t i d))"
proof -
  have c: "confined t d (snd (pool (create_group_stmt i t n) d))" for i d by (rule confined_pool) (rule group_stmts)
  have r: "confined t d (snd (pool (rename_group_stmt t i n) d))" for d by (rule confined_pool) (rule group_stmts)
  show "confined t d (snd (CreateDeviceGroup t n d))" "confined t d (snd (RenameDeviceGroup t i n d))"
    using c [where i = "next_uuid d" and d = "d\<lparr>next_uuid := Suc (next_uuid d)\<rparr>"] r
    by (auto simp: CreateDeviceGroup_def RenameDeviceGroup_def new_uuid_def Let_def split_beta)
  have "confined t d (snd (delete_group_body t i d))" for d
    unfolding delete_group_body_def
    by (intro confined_andThen confined_pool group_stmts delete_group_confined)
  then show "confined t d (snd (DeleteDeviceGroup t i d))" unfolding DeleteDeviceGroup_def by (rule confined_tx)
qed

lemma ringfence_ops_confined:
  "confined t d (snd (RenameRingfence t i n d))" "confined t d (snd (SetRingfenceMode t i m d))" "confined t d (snd (DeleteRingfence t i d))"
  "confined t d (snd (DeleteRingfenceProgram t i j d))" "confined t d (snd (AssignRingfence t g i d))" "confined t d (snd (UnassignRingfence t g d))"
  "confined t d (snd (SetDeviceGroup t i og d))"
  unfolding RenameRingfence_def SetRingfenceMode_def DeleteRingfence_def DeleteRingfenceProgram_def AssignRingfence_def UnassignRingfence_def
    SetDeviceGroup_def confined_affected
  by (rule confined_pool, rule ringfence_row_stmts delete_ringfence_confined program_stmts assignment_stmts set_group_confined)+

lemma createRingfence_confined: "confined (pr_tenant p) d (snd (createRingfence p n d))"
proof -
  let ?d = "d\<lparr>next_uuid := Suc (next_uuid d)\<rparr>" and ?s = "insert_ringfence_stmt (pr_tenant p) (next_uuid d) (TrimSpace n) ''audit''"
  obtain r d1 where r: "pool ?s ?d = (r, d1)" by fastforce
  have "confined (pr_tenant p) ?d (snd (pool ?s ?d))" by (rule confined_pool) (rule ringfence_row_stmts)
  with r have "confined (pr_tenant p) d d1" by simp
  with r show ?thesis
    by (cases "conflict r") (simp_all add: createRingfence_def CreateRingfence_def new_uuid_def Let_def)
qed

lemma addRingfenceProgram_confined: "confined (pr_tenant p) d (snd (addRingfenceProgram p i path b n d))"
proof -
  let ?d = "d\<lparr>next_uuid := Suc (next_uuid d)\<rparr>" and ?b = "case b of None \<Rightarrow> True | Some b \<Rightarrow> b"
  let ?s = "add_program_stmt (pr_tenant p) i (next_uuid d) (TrimSpace path) ?b n"
  obtain r d1 where r: "affected (pool ?s ?d) = (r, d1)" by fastforce
  have "confined (pr_tenant p) ?d (snd (pool ?s ?d))" by (rule confined_pool) (rule program_stmts)
  then have "confined (pr_tenant p) ?d (snd (affected (pool ?s ?d)))" by simp
  with r have "confined (pr_tenant p) d d1" by simp
  with r show ?thesis
    by (cases r) (simp_all add: addRingfenceProgram_def AddRingfenceProgram_def new_uuid_def Let_def)
qed

lemma setRingfenceProtection_confined: "confined (pr_tenant p) d (snd (setRingfenceProtection p i r a d))"
proof (cases "map_of asrRules (ToUpper r)")
  case (Some x)
  then have "ToUpper r \<in> fst ` set asrRules" by (metis map_of_eq_None_iff option.distinct(1))
  then have up: "confined (pr_tenant p) d (snd (pool (upsert_protection_stmt (pr_tenant p) i (ToUpper r) a) d))" for a
    by (intro confined_pool protection_stmts)
  have "confined (pr_tenant p) d (snd (pool (delete_protection_stmt (pr_tenant p) i (ToUpper r)) d))"
    by (rule confined_pool) (rule protection_stmts)
  with up Some show ?thesis by (simp add: setRingfenceProtection_def SetRingfenceProtection_def)
qed (simp add: setRingfenceProtection_def)

lemma unassignRingfence_confined: "confined (pr_tenant p) d (snd (unassignRingfence p g i d))"
proof -
  let ?t = "pr_tenant p"
  have fr: "\<And>d fs. ringfence_assignments (d\<lparr>faults := fs\<rparr>) = ringfence_assignments d" by simp
  obtain q fs where q: "GroupRingfenceID ?t g d = (q, d\<lparr>faults := fs\<rparr>)"
    using lookup_cases [OF fr, where P = "\<lambda>a. ra_tenant a = ?t \<and> ra_group a = g" and h = ra_ringfence and d = d]
    unfolding GroupRingfenceID_def by metis
  have "confined ?t (d\<lparr>faults := fs\<rparr>) (snd (UnassignRingfence ?t g (d\<lparr>faults := fs\<rparr>)))" by (rule ringfence_ops_confined)
  then have "confined ?t d (snd (UnassignRingfence ?t g (d\<lparr>faults := fs\<rparr>)))" by (simp only: confined_frame)
  then show ?thesis by (cases q) (simp_all add: unassignRingfence_def q)
qed

lemma setControls_confined: "confined (pr_tenant p) d (snd (setControls p g c d))"
proof -
  obtain r d1 where r: "pool (set_controls_stmt (pr_tenant p) g c) d = (r, d1)" by fastforce
  have "confined (pr_tenant p) d (snd (pool (set_controls_stmt (pr_tenant p) g c) d))" by (rule confined_pool) (rule controls_stmts)
  with r show ?thesis by (cases r) (simp_all add: setControls_def SetControls_def)
qed

lemma createGroup_confined: "confined (pr_tenant p) d (snd (createGroup p n d))"
proof -
  obtain r d1 where r: "CreateDeviceGroup (pr_tenant p) (TrimSpace n) d = (r, d1)" by fastforce
  with group_ops_confined(1) [where t = "pr_tenant p" and d = d and n = "TrimSpace n"] have "confined (pr_tenant p) d d1" by simp
  with r show ?thesis by (cases r) (simp_all add: createGroup_def Let_def)
qed

lemma console_op_confined: "f \<in> console_ops t \<Longrightarrow> confined t d (f d)"
  by (induction f rule: console_ops.induct)
    (auto simp: createRingfence_confined addRingfenceProgram_confined setRingfenceProtection_confined unassignRingfence_confined
      setControls_confined createGroup_confined renameRingfence_def setRingfenceMode_def deleteRingfence_def deleteRingfenceProgram_def
      assignRingfence_def Let_def setDeviceControls_def renameGroup_def deleteGroup_def setDeviceGroup_def ringfence_ops_confined
      SetDeviceOverrides_confined group_ops_confined)

interpretation tenancy: isolation tenant_view tenancy_inv console_ops
proof
  fix f t d u
  assume "f \<in> console_ops t" and inv: "tenancy_inv d"
  then have "confined t d (f d)" by (intro console_op_confined)
  with inv show "tenancy_inv (f d)" "u \<noteq> t \<Longrightarrow> tenant_view u (f d) = tenant_view u d" by (auto simp: confined_def)
qed

section \<open>What a device is given\<close>

text \<open>The ringfence and the controls of a device, when the database answers.\<close>

definition device_config :: "(bytes \<Rightarrow> bytes) \<Rightarrow> uuid \<Rightarrow> uuid \<Rightarrow> db \<Rightarrow> resolved_ringfence res \<times> device_controls_val res" where
  "device_config sha256 t i d =
     (fst (RingfenceForDevice sha256 t i (d\<lparr>faults := []\<rparr>)), fst (EffectiveControlsForDevice t i (d\<lparr>faults := []\<rparr>)))"

lemma filter_conj_tenant: "filter (\<lambda>x. k x = t \<and> P x) xs = filter P (filter (\<lambda>x. k x = t) xs)"
  by (induction xs) auto

lemma find_row_filter: "find_row (\<lambda>x. k x = t \<and> P x) xs = find_row P (filter (\<lambda>x. k x = t) xs)"
  by (induction xs) (auto simp: find_row_def)

text \<open>The join that resolves a ringfence reads only the tenant's own rows.\<close>

lemma device_ringfences_own:
  "device_ringfences t i d = concat (map (\<lambda>(_, g). concat (map (\<lambda>a. filter (\<lambda>r. rf_id r = ra_ringfence a) (filter (\<lambda>r. rf_tenant r = t) (ringfence_policies d)))
      (filter (\<lambda>a. g = Some (ra_group a)) (filter (\<lambda>a. ra_tenant a = t) (ringfence_assignments d)))))
      (filter (\<lambda>x. fst x = i) (map (\<lambda>v. (dv_id v, dv_group v)) (filter (\<lambda>v. dv_tenant v = t) (devices d)))))"
proof -
  let ?F = "\<lambda>g u. concat (map (\<lambda>a. filter (\<lambda>r. rf_tenant r = t \<and> rf_id r = ra_ringfence a) (ringfence_policies d))
     (filter (\<lambda>a. ra_tenant a = u \<and> g = Some (ra_group a)) (ringfence_assignments d)))"
  let ?vs = "filter (\<lambda>v. dv_id v = i \<and> dv_tenant v = t) (devices d)"
  have "map (\<lambda>v. ?F (dv_group v) (dv_tenant v)) ?vs = map (\<lambda>v. ?F (dv_group v) t) ?vs"
    by (rule map_cong) auto
  then show ?thesis unfolding device_ringfences_def by (simp only: conj_commute filter_map filter_filter o_def map_map split_conv prod.case fst_conv)
qed

lemma programs_own: "programs_of t j d = sort_key rp_path (filter (\<lambda>p. rp_ringfence p = j) (filter (\<lambda>p. rp_tenant p = t) (ringfence_programs d)))"
  "protections_of t j d = sort_key rt_rule (filter (\<lambda>p. rt_ringfence p = j) (filter (\<lambda>p. rt_tenant p = t) (ringfence_protections d)))"
  by (simp_all add: programs_of_def protections_of_def)

lemma ringfence_resolved:
  "fst (RingfenceForDevice sha256 t i (d\<lparr>faults := []\<rparr>)) = (case device_ringfences t i d of
      [] \<Rightarrow> Inl ErrNotFound
    | r # _ \<Rightarrow> Inr \<lparr>rr_version = ringfenceVersion sha256 (rf_mode r) (programs_of t (rf_id r) d) (protections_of t (rf_id r) d),
        rr_mode = rf_mode r, rr_programs = programs_of t (rf_id r) d, rr_protections = protections_of t (rf_id r) d\<rparr>)"
proof -
  have "device_ringfences t i (d\<lparr>faults := []\<rparr>) = device_ringfences t i d" by (simp add: device_ringfences_def)
  then show ?thesis
    by (simp add: RingfenceForDevice_def DeviceRingfence_def ListRingfencePrograms_def ListRingfenceProtections_def
        programs_of_def protections_of_def split: list.split)
qed

lemma overrides_own:
  assumes "tenancy_inv d" "has_device (devices d) t i"
  shows "find_row (\<lambda>x. ov_device x = i) (device_control_overrides d) =
    find_row (\<lambda>x. ov_device x = i) (filter (\<lambda>x. ov_tenant x = t) (device_control_overrides d))"
proof -
  have "ov_tenant x = t" if "x \<in> set (device_control_overrides d)" "ov_device x = i" for x
    using assms that has_unique(3) by (fastforce simp: tenancy_inv_def)
  moreover have "(\<And>x. x \<in> set xs \<Longrightarrow> ov_device x = i \<Longrightarrow> ov_tenant x = t) \<Longrightarrow>
      find_row (\<lambda>x. ov_device x = i) xs = find_row (\<lambda>x. ov_device x = i) (filter (\<lambda>x. ov_tenant x = t) xs)" for xs
    by (induction xs) (auto simp: find_row_def)
  ultimately show ?thesis by blast
qed

lemma controls_resolved:
  assumes "tenancy_inv d"
  shows "fst (EffectiveControlsForDevice t i (d\<lparr>faults := []\<rparr>)) =
    (case find_row (\<lambda>x. fst x = i) (map (\<lambda>v. (dv_id v, dv_group v)) (filter (\<lambda>v. dv_tenant v = t) (devices d))) of
       None \<Rightarrow> Inl ErrNotFound
     | Some (_, g) \<Rightarrow>
        (let x = find_row (\<lambda>x. g = Some (dc_group x)) (filter (\<lambda>x. dc_tenant x = t) (device_controls d));
             c = (case find_row (\<lambda>x. ov_device x = i) (filter (\<lambda>x. ov_tenant x = t) (device_control_overrides d)) of
                    None \<Rightarrow> no_overrides | Some x \<Rightarrow> \<lparr>co_usb = ov_usb x, co_network = ov_network x, co_elevation = ov_elevation x\<rparr>)
         in Inr \<lparr>USBStorageBlocked = coalesce (co_usb c) (map_option dc_usb x),
              NetworkBlocked = coalesce (co_network c) (map_option dc_network x),
              ElevationBlocked = coalesce (co_elevation c) (map_option dc_elevation x)\<rparr>))"
proof -
  have dev: "find_row (\<lambda>x. fst x = i) (map (\<lambda>v. (dv_id v, dv_group v)) (filter (\<lambda>v. dv_tenant v = t) vs)) =
      map_option (\<lambda>v. (dv_id v, dv_group v)) (find_row (\<lambda>v. dv_tenant v = t \<and> dv_id v = i) vs)" for vs
    by (induction vs) (auto simp: find_row_def)
  show ?thesis
  proof (cases "find_row (\<lambda>v. dv_tenant v = t \<and> dv_id v = i) (devices d)")
    case None
    then show ?thesis by (simp add: EffectiveControlsForDevice_def dev)
  next
    case (Some v)
    from find_row_Some [OF Some] have v: "dv_tenant v = t" "dv_id v = i" "has_device (devices d) t i" by (auto simp: has_device_def)
    have c: "find_row (\<lambda>x. dv_group v = Some (dc_group x) \<and> dc_tenant x = dv_tenant v) xs =
        find_row (\<lambda>x. dv_group v = Some (dc_group x)) (filter (\<lambda>x. dc_tenant x = t) xs)" for xs
      using v(1) by (induction xs) (auto simp: find_row_def)
    have "resolve_controls v (d\<lparr>faults := []\<rparr>) = resolve_controls v d" by (simp add: resolve_controls_def overrides_of_def)
    with Some have e: "fst (EffectiveControlsForDevice t i (d\<lparr>faults := []\<rparr>)) = Inr (resolve_controls v d)"
      by (simp add: EffectiveControlsForDevice_def)
    show ?thesis
      unfolding e dev Some resolve_controls_def c overrides_of_def v(2) overrides_own [OF assms v(3)] by (simp add: Let_def)
  qed
qed

lemma view_determines:
  assumes "tenancy_inv d" "tenancy_inv d'" "tenant_view t d' = tenant_view t d"
  shows "device_config sha256 t i d' = device_config sha256 t i d"
proof -
  have "filter (\<lambda>r. rf_tenant r = t) (ringfence_policies d') = filter (\<lambda>r. rf_tenant r = t) (ringfence_policies d)"
    "filter (\<lambda>p. rp_tenant p = t) (ringfence_programs d') = filter (\<lambda>p. rp_tenant p = t) (ringfence_programs d)"
    "filter (\<lambda>p. rt_tenant p = t) (ringfence_protections d') = filter (\<lambda>p. rt_tenant p = t) (ringfence_protections d)"
    "filter (\<lambda>a. ra_tenant a = t) (ringfence_assignments d') = filter (\<lambda>a. ra_tenant a = t) (ringfence_assignments d)"
    "filter (\<lambda>x. dc_tenant x = t) (device_controls d') = filter (\<lambda>x. dc_tenant x = t) (device_controls d)"
    "filter (\<lambda>x. ov_tenant x = t) (device_control_overrides d') = filter (\<lambda>x. ov_tenant x = t) (device_control_overrides d)"
    "map (\<lambda>v. (dv_id v, dv_group v)) (filter (\<lambda>v. dv_tenant v = t) (devices d')) =
     map (\<lambda>v. (dv_id v, dv_group v)) (filter (\<lambda>v. dv_tenant v = t) (devices d))"
    using assms(3) by (simp_all add: tenant_view_def)
  note eqs = this
  show ?thesis
    unfolding device_config_def ringfence_resolved controls_resolved [OF assms(1)] controls_resolved [OF assms(2)]
      device_ringfences_own programs_own eqs ..
qed


text \<open>Tenant 7 has a group with a device, an enforced ringfence and controls; tenant 8 has a group.\<close>

definition two_tenants :: db where
  "two_tenants = empty_db\<lparr>next_uuid := 50,
     tenants := [\<lparr>tn_id = 7, tn_name = ''a'', tn_suspended = False\<rparr>, \<lparr>tn_id = 8, tn_name = ''b'', tn_suspended = False\<rparr>],
     device_groups := [\<lparr>gr_id = 5, gr_tenant = 7, gr_name = ''g''\<rparr>, \<lparr>gr_id = 6, gr_tenant = 8, gr_name = ''h''\<rparr>],
     devices := [enrolled_row 0 \<lparr>nd_id = 4, nd_hostname = ''pc'', nd_machine_guid = [], nd_os_build = [], nd_cert_serial = [],
        nd_cert_expires_at = 0\<rparr> 7 (Some 5)],
     ringfence_policies := [\<lparr>rf_id = 40, rf_tenant = 7, rf_name = ''r'', rf_mode = ''enforce'', rf_created_at = 0\<rparr>],
     ringfence_programs := [\<lparr>rp_id = 41, rp_tenant = 7, rp_ringfence = 40, rp_path = ''x'', rp_network_blocked = True, rp_note = []\<rparr>],
     ringfence_assignments := [\<lparr>ra_tenant = 7, ra_group = 5, ra_ringfence = 40\<rparr>],
     device_controls := [\<lparr>dc_tenant = 7, dc_group = 5, dc_usb = True, dc_network = False, dc_elevation = False\<rparr>]\<rparr>"

definition demo_other :: principal where
  "demo_other = demo_admin\<lparr>pr_tenant := 8\<rparr>"

lemma two_tenants_inv: "tenancy_inv two_tenants"
  by (simp add: tenancy_inv_def two_tenants_def rf_valid_mode_def has_ringfence_def has_group_def)


section \<open>Controls take effect\<close>

lemma find_row_none: "find_row P xs = None \<longleftrightarrow> (\<forall>x \<in> set xs. \<not> P x)"
  by (auto simp: find_row_def find_None_iff)

lemma find_row_upsert:
  assumes "\<And>x. k (f x) = k x" "k new = i"
  shows "\<exists>x \<in> set xs. k x = i \<Longrightarrow> \<exists>x. find_row (\<lambda>x. k x = i) (update_where (\<lambda>x. k x = i) f xs) = Some (f x)"
    and "\<not> (\<exists>x \<in> set xs. k x = i) \<Longrightarrow> find_row (\<lambda>x. k x = i) (xs @ [new]) = Some new"
  using assms by (induction xs) (auto simp: find_row_def)

text \<open>A successful change of a device's overrides leaves exactly those overrides, and nothing else changes.\<close>

lemma SetDeviceOverrides_ok:
  assumes "SetDeviceOverrides t i c d = (Inr (), d')" "tenancy_inv d"
  shows "overrides_of i d' = c" "devices d' = devices d" "device_controls d' = device_controls d"
proof -
  let ?q = "\<lambda>d. (Inr (device_in t i d) :: bool res, d)"
  obtain fs where dev: "device_in t i d" and
    st: "(if overrides_empty c then pool (delete_overrides_stmt t i) (d\<lparr>faults := fs\<rparr>) else pool (upsert_overrides_stmt t i c) (d\<lparr>faults := fs\<rparr>)) = (Inr (), d')"
  proof (cases ?q d rule: pool_cases)
    case (ran rest)
    then show thesis using assms(1) that [of rest] by (auto simp: SetDeviceOverrides_def device_in_def split: if_splits)
  qed (use assms(1) in \<open>simp add: SetDeviceOverrides_def\<close>)
  have own: "ov_tenant x = t" if "x \<in> set (device_control_overrides d)" "ov_device x = i" for x
    using that dev assms(2) has_unique(3) by (fastforce simp: tenancy_inv_def has_in)
  have "overrides_of i d' = c \<and> devices d' = devices d \<and> device_controls d' = device_controls d"
  proof (cases "overrides_empty c")
    case True
    then obtain fs' where "d' = d\<lparr>faults := fs', device_control_overrides :=
        filter (\<lambda>x. \<not> (ov_tenant x = t \<and> ov_device x = i)) (device_control_overrides d)\<rparr>"
      using st by (cases "delete_overrides_stmt t i" "d\<lparr>faults := fs\<rparr>" rule: pool_cases) (auto simp: delete_overrides_stmt_def)
    moreover have "find_row (\<lambda>x. ov_device x = i) (filter (\<lambda>x. \<not> (ov_tenant x = t \<and> ov_device x = i)) (device_control_overrides d)) = None"
      using own by (auto simp: find_row_none)
    ultimately show ?thesis using True by (cases c) (simp add: overrides_of_def no_overrides_def overrides_empty_def)
  next
    case False
    let ?f = "\<lambda>x. x\<lparr>ov_usb := co_usb c, ov_network := co_network c, ov_elevation := co_elevation c\<rparr>"
    let ?new = "\<lparr>ov_tenant = t, ov_device = i, ov_usb = co_usb c, ov_network = co_network c, ov_elevation = co_elevation c\<rparr>"
    note up = find_row_upsert [where k = ov_device and f = ?f and new = ?new and i = i and xs = "device_control_overrides d", simplified]
    show ?thesis
    proof (cases "\<exists>x \<in> set (device_control_overrides d). ov_device x = i")
      case True
      with False st obtain fs' where "d' = d\<lparr>faults := fs', device_control_overrides :=
          update_where (\<lambda>x. ov_device x = i) ?f (device_control_overrides d)\<rparr>"
        by (cases "upsert_overrides_stmt t i c" "d\<lparr>faults := fs\<rparr>" rule: pool_cases) (auto simp: upsert_overrides_stmt_def)
      with up(1) [OF True] show ?thesis by (cases c) (auto simp: overrides_of_def)
    next
      case F: False
      with False st obtain fs' where "d' = d\<lparr>faults := fs', device_control_overrides := device_control_overrides d @ [?new]\<rparr>"
        by (cases "upsert_overrides_stmt t i c" "d\<lparr>faults := fs\<rparr>" rule: pool_cases) (auto simp: upsert_overrides_stmt_def split: if_splits)
      with up(2) F show ?thesis by (cases c) (auto simp: overrides_of_def)
    qed
  qed
  then show "overrides_of i d' = c" "devices d' = devices d" "device_controls d' = device_controls d" by simp_all
qed

text \<open>
  A device's overrides win. When the console answers a change of a device's overrides
  with success, the controls the device resolves to (if the database answers) are the
  override where one is set, the setting of its group otherwise, and not blocked when the
  group has none.
\<close>

theorem overrides_take_effect:
  assumes "tenancy_inv d" and "setDeviceControls p i c d = (noContent, d')"
    and "find_row (\<lambda>v. dv_tenant v = pr_tenant p \<and> dv_id v = i) (devices d) = Some v"
    and "g = find_row (\<lambda>x. dv_group v = Some (dc_group x) \<and> dc_tenant x = dv_tenant v) (device_controls d)"
  shows "fst (EffectiveControlsForDevice (pr_tenant p) i (d'\<lparr>faults := []\<rparr>)) = Inr
    \<lparr>USBStorageBlocked = (case co_usb c of Some b \<Rightarrow> b | None \<Rightarrow> (case g of Some x \<Rightarrow> dc_usb x | None \<Rightarrow> False)),
     NetworkBlocked = (case co_network c of Some b \<Rightarrow> b | None \<Rightarrow> (case g of Some x \<Rightarrow> dc_network x | None \<Rightarrow> False)),
     ElevationBlocked = (case co_elevation c of Some b \<Rightarrow> b | None \<Rightarrow> (case g of Some x \<Rightarrow> dc_elevation x | None \<Rightarrow> False))\<rparr>"
proof -
  obtain r d1 where r: "SetDeviceOverrides (pr_tenant p) i c d = (r, d1)" by fastforce
  from assms(2) r have ok: "r = Inr ()" by (cases r) (auto simp: setDeviceControls_def finish_def)
  note d1 = SetDeviceOverrides_ok [OF r [unfolded ok] assms(1)]
  let ?e = "[(''usb_storage_blocked'', override_detail (co_usb c)), (''network_blocked'', override_detail (co_network c)),
    (''elevation_blocked'', override_detail (co_elevation c))]"
  have "d' = audit p ''device.controls'' ''device'' (IdTxt [] i) ?e ''success'' d1"
    using assms(2) r ok by (simp add: setDeviceControls_def finish_def)
  then obtain fs n log where "d' = d1\<lparr>faults := fs, audit_seq := n, audit_log := audit_log d1 @ log\<rparr>"
    using audit_shape [of p "''device.controls''" "''device''" "IdTxt [] i" ?e "''success''" d1] by metis
  then have "overrides_of i (d'\<lparr>faults := []\<rparr>) = c" "devices d' = devices d" "device_controls d' = device_controls d"
    using d1 by (simp_all add: overrides_of_def)
  moreover have "dv_id v = i" using find_row_Some [OF assms(3)] by simp
  ultimately have "fst (EffectiveControlsForDevice (pr_tenant p) i (d'\<lparr>faults := []\<rparr>)) = Inr
      \<lparr>USBStorageBlocked = coalesce (co_usb c) (map_option dc_usb g), NetworkBlocked = coalesce (co_network c) (map_option dc_network g),
       ElevationBlocked = coalesce (co_elevation c) (map_option dc_elevation g)\<rparr>"
    using assms(3) by (simp add: EffectiveControlsForDevice_def resolve_controls_def Let_def assms(4))
  then show ?thesis by (simp add: coalesce_def split: option.split)
qed


theorem overrides_take_effect_witness:
  "\<exists>d'. setDeviceControls demo_admin 4 \<lparr>co_usb = Some False, co_network = Some True, co_elevation = None\<rparr> two_tenants = (noContent, d') \<and>
     fst (EffectiveControlsForDevice 7 4 (d'\<lparr>faults := []\<rparr>)) =
       Inr \<lparr>USBStorageBlocked = False, NetworkBlocked = True, ElevationBlocked = False\<rparr>"
proof -
  let ?c = "\<lparr>co_usb = Some False, co_network = Some True, co_elevation = None\<rparr>"
  let ?v = "enrolled_row 0 \<lparr>nd_id = 4, nd_hostname = ''pc'', nd_machine_guid = [], nd_os_build = [], nd_cert_serial = [], nd_cert_expires_at = 0\<rparr> 7 (Some 5)"
  obtain d' where s: "setDeviceControls demo_admin 4 ?c two_tenants = (noContent, d')"
    by (simp add: setDeviceControls_def SetDeviceOverrides_def upsert_overrides_stmt_def overrides_empty_def finish_def
        device_in_def two_tenants_def demo_admin_def enrolled_row_def tenant_exists_def)
  have v: "find_row (\<lambda>v. dv_tenant v = pr_tenant demo_admin \<and> dv_id v = 4) (devices two_tenants) = Some ?v"
    by (simp add: two_tenants_def demo_admin_def enrolled_row_def)
  have g: "Some \<lparr>dc_tenant = 7, dc_group = 5, dc_usb = True, dc_network = False, dc_elevation = False\<rparr> =
      find_row (\<lambda>x. dv_group ?v = Some (dc_group x) \<and> dc_tenant x = dv_tenant ?v) (device_controls two_tenants)"
    by (simp add: two_tenants_def enrolled_row_def)
  from overrides_take_effect [OF two_tenants_inv s v g] s show ?thesis by (simp add: demo_admin_def)
qed

end
