(* ===== verification/Alerting.thy ===== *)
theory Alerting
  imports Devices Notify
begin

text \<open>
  Resource metrics, threshold rules and alerts: the tables (\<^verbatim>\<open>store/metrics.go\<close>, the breach
  onsets of \<^verbatim>\<open>store/ratelimit.go\<close>, \<^verbatim>\<open>store/events.go\<close>, \<^verbatim>\<open>store/retention.go\<close>), the evaluation of a
  sample (\<^verbatim>\<open>alerting/alerting.go\<close>) and the console handlers of \<^verbatim>\<open>httpapi/telemetry.go\<close>.
  Percentages are finite numbers; \<open>real4\<close> is the rounding to the 4-byte column type.
\<close>

section \<open>Samples, rules and alerts\<close>

record sample =
  sa_at :: time
  sa_cpu :: rat
  sa_mem :: rat
  sa_disk :: rat

text \<open>The fields of a rule a caller gives.\<close>

record rule_in =
  ri_name :: string
  ri_metric :: string
  ri_op :: string
  ri_threshold :: rat
  ri_duration_seconds :: int
  ri_enabled :: bool

definition device_refs :: "uuid \<Rightarrow> uuid \<Rightarrow> db \<Rightarrow> bool" where
  "device_refs tenantID deviceID d \<longleftrightarrow> tenant_exists tenantID d \<and> deviceID \<in> dv_id ` set (devices d)"

definition record_metrics_stmt :: "(rat \<Rightarrow> rat) \<Rightarrow> uuid \<Rightarrow> uuid \<Rightarrow> time \<Rightarrow> sample \<Rightarrow> db \<Rightarrow> unit res \<times> db" where
  "record_metrics_stmt real4 tenantID deviceID t m d =
     (if \<not> device_refs tenantID deviceID d then (Inl (PgError ''23503''), d)
      else (Inr (), d\<lparr>device_metrics := device_metrics d @
             [\<lparr>me_tenant = tenantID, me_device = deviceID, me_at = t, me_cpu = real4 (sa_cpu m), me_mem = real4 (sa_mem m),
               me_disk = real4 (sa_disk m)\<rparr>]\<rparr>))"

definition RecordMetrics :: "(rat \<Rightarrow> rat) \<Rightarrow> uuid \<Rightarrow> uuid \<Rightarrow> sample \<Rightarrow> time \<Rightarrow> db \<Rightarrow> unit res \<times> db" where
  "RecordMetrics real4 tenantID deviceID m now =
     pool (record_metrics_stmt real4 tenantID deviceID (if sa_at m = 0 then now else sa_at m) m)"

definition ListMetrics :: "uuid \<Rightarrow> uuid \<Rightarrow> time \<Rightarrow> int \<Rightarrow> db \<Rightarrow> metric_row list res \<times> db" where
  "ListMetrics tenantID deviceID since limit = pool (\<lambda>d.
     (Inr (take (nat limit) (sort_key (\<lambda>m. - me_at m)
        (filter (\<lambda>m. me_tenant m = tenantID \<and> me_device m = deviceID \<and> since \<le> me_at m) (device_metrics d)))), d))"

text \<open>The columns of a rule and what the table checks of them.\<close>

definition rule_refused :: "rule_in \<Rightarrow> err option" where
  "rule_refused r =
     (if \<not> int4 (ri_duration_seconds r) then Some (ErrText ''greater than maximum value for int4'')
      else if ri_metric r \<notin> {''cpu'', ''mem'', ''disk''} \<or> ri_op r \<notin> {''gt'', ''lt''} then Some (PgError ''23514'')
      else None)"

definition set_rule :: "(rat \<Rightarrow> rat) \<Rightarrow> rule_in \<Rightarrow> alert_rule_row \<Rightarrow> alert_rule_row" where
  "set_rule real4 r x = x\<lparr>al_name := ri_name r, al_metric := ri_metric r, al_op := ri_op r, al_threshold := real4 (ri_threshold r),
     al_duration_seconds := ri_duration_seconds r, al_enabled := ri_enabled r\<rparr>"

definition insert_alert_rule_stmt :: "(rat \<Rightarrow> rat) \<Rightarrow> uuid \<Rightarrow> uuid \<Rightarrow> rule_in \<Rightarrow> db \<Rightarrow> unit res \<times> db" where
  "insert_alert_rule_stmt real4 i tenantID r d = (case rule_refused r of
       Some e \<Rightarrow> (Inl e, d)
     | None \<Rightarrow>
         if i \<in> al_id ` set (alert_rules d) then (Inl (PgError ''23505''), d)
         else if \<not> tenant_exists tenantID d then (Inl (PgError ''23503''), d)
         else (Inr (), d\<lparr>alert_rules := alert_rules d @
           [\<lparr>al_id = i, al_tenant = tenantID, al_name = ri_name r, al_metric = ri_metric r, al_op = ri_op r,
             al_threshold = real4 (ri_threshold r), al_duration_seconds = ri_duration_seconds r, al_enabled = ri_enabled r\<rparr>]\<rparr>))"

definition CreateAlertRule :: "(rat \<Rightarrow> rat) \<Rightarrow> uuid \<Rightarrow> rule_in \<Rightarrow> db \<Rightarrow> uuid res \<times> db" where
  "CreateAlertRule real4 tenantID r d =
     (let (i, d0) = new_uuid d in andThen (pool (insert_alert_rule_stmt real4 i tenantID r) d0) (\<lambda>_ d1. (Inr i, d1)))"

definition ListAlertRules :: "uuid \<Rightarrow> db \<Rightarrow> alert_rule_row list res \<times> db" where
  "ListAlertRules tenantID = pool (\<lambda>d. (Inr (filter (\<lambda>r. al_tenant r = tenantID) (alert_rules d)), d))"

definition ListEnabledAlertRules :: "uuid \<Rightarrow> db \<Rightarrow> alert_rule_row list res \<times> db" where
  "ListEnabledAlertRules tenantID d = andThen (ListAlertRules tenantID d) (\<lambda>rs d1. (Inr (filter al_enabled rs), d1))"

definition update_alert_rule_stmt :: "(rat \<Rightarrow> rat) \<Rightarrow> uuid \<Rightarrow> uuid \<Rightarrow> rule_in \<Rightarrow> db \<Rightarrow> nat res \<times> db" where
  "update_alert_rule_stmt real4 tenantID i r d = (let P = (\<lambda>x. al_tenant x = tenantID \<and> al_id x = i); n = rows_affected P (alert_rules d) in
     case rule_refused r of
       Some (ErrText m) \<Rightarrow> (Inl (ErrText m), d)
     | Some e \<Rightarrow> (if n = 0 then Inr 0 else Inl e, d)
     | None \<Rightarrow> (Inr n, d\<lparr>alert_rules := update_where P (set_rule real4 r) (alert_rules d)\<rparr>))"

definition clear_rule_breaches_stmt :: "uuid \<Rightarrow> uuid \<Rightarrow> db \<Rightarrow> unit res \<times> db" where
  "clear_rule_breaches_stmt tenantID i d =
     (Inr (), d\<lparr>alert_breaches := filter (\<lambda>b. \<not> (br_tenant b = tenantID \<and> br_rule b = i)) (alert_breaches d)\<rparr>)"

definition update_alert_rule_body :: "(rat \<Rightarrow> rat) \<Rightarrow> uuid \<Rightarrow> uuid \<Rightarrow> rule_in \<Rightarrow> db \<Rightarrow> unit res \<times> db" where
  "update_alert_rule_body real4 tenantID i r d =
     (let (n, d1) = pool (update_alert_rule_stmt real4 tenantID i r) d in
      andThen (oneRow n, d1) (\<lambda>_. pool (clear_rule_breaches_stmt tenantID i)))"

definition UpdateAlertRule :: "(rat \<Rightarrow> rat) \<Rightarrow> uuid \<Rightarrow> uuid \<Rightarrow> rule_in \<Rightarrow> db \<Rightarrow> unit res \<times> db" where
  "UpdateAlertRule real4 tenantID i r = tx (update_alert_rule_body real4 tenantID i r)"

text \<open>A rule takes its alerts and breach onsets along.\<close>

definition delete_alert_rule_stmt :: "uuid \<Rightarrow> uuid \<Rightarrow> db \<Rightarrow> nat res \<times> db" where
  "delete_alert_rule_stmt tenantID i d = (let P = (\<lambda>x. al_tenant x = tenantID \<and> al_id x = i); n = rows_affected P (alert_rules d) in
     (Inr n, if n = 0 then d else d\<lparr>alert_rules := filter (\<lambda>x. \<not> P x) (alert_rules d),
        alerts := filter (\<lambda>a. at_rule a \<noteq> i) (alerts d), alert_breaches := filter (\<lambda>b. br_rule b \<noteq> i) (alert_breaches d)\<rparr>))"

definition DeleteAlertRule :: "uuid \<Rightarrow> uuid \<Rightarrow> db \<Rightarrow> unit res \<times> db" where
  "DeleteAlertRule tenantID i d = (let (n, d1) = pool (delete_alert_rule_stmt tenantID i) d in (oneRow n, d1))"

definition open_for :: "uuid \<Rightarrow> uuid \<Rightarrow> alert_row \<Rightarrow> bool" where
  "open_for deviceID ruleID a \<longleftrightarrow> at_device a = deviceID \<and> at_rule a = ruleID \<and> at_resolved_at a = None"

definition OpenAlertFor :: "uuid \<Rightarrow> uuid \<Rightarrow> uuid \<Rightarrow> db \<Rightarrow> alert_row res \<times> db" where
  "OpenAlertFor tenantID deviceID ruleID = pool (lookup alerts (\<lambda>a. at_tenant a = tenantID \<and> open_for deviceID ruleID a) id)"

text \<open>The sequence is advanced even when the partial unique index makes the insertion do nothing.\<close>

definition raise_alert_stmt :: "uuid \<Rightarrow> uuid \<Rightarrow> uuid \<Rightarrow> string \<Rightarrow> string \<Rightarrow> time \<Rightarrow> db \<Rightarrow> nat res \<times> db" where
  "raise_alert_stmt tenantID deviceID ruleID metric message now d =
     (let d0 = d\<lparr>alert_seq := Suc (alert_seq d)\<rparr> in
      if (\<exists>a \<in> set (alerts d). open_for deviceID ruleID a) then (Inr 0, d0)
      else if \<not> device_refs tenantID deviceID d \<or> ruleID \<notin> al_id ` set (alert_rules d) then (Inl (PgError ''23503''), d0)
      else (Inr 1, d0\<lparr>alerts := alerts d @ [\<lparr>at_id = alert_seq d, at_tenant = tenantID, at_device = deviceID, at_rule = ruleID,
               at_metric = metric, at_message = message, at_at = now, at_resolved_at = None\<rparr>]\<rparr>))"

definition RaiseAlert :: "uuid \<Rightarrow> uuid \<Rightarrow> uuid \<Rightarrow> string \<Rightarrow> string \<Rightarrow> time \<Rightarrow> db \<Rightarrow> bool res \<times> db" where
  "RaiseAlert tenantID deviceID ruleID metric message now d =
     andThen (pool (raise_alert_stmt tenantID deviceID ruleID metric message now) d) (\<lambda>n d1. (Inr (n = 1), d1))"

definition resolve_alert_stmt :: "uuid \<Rightarrow> uuid \<Rightarrow> uuid \<Rightarrow> time \<Rightarrow> db \<Rightarrow> nat res \<times> db" where
  "resolve_alert_stmt tenantID deviceID ruleID now d = (let P = (\<lambda>a. at_tenant a = tenantID \<and> open_for deviceID ruleID a) in
     (Inr (rows_affected P (alerts d)), d\<lparr>alerts := update_where P (\<lambda>a. a\<lparr>at_resolved_at := Some now\<rparr>) (alerts d)\<rparr>))"

definition ResolveAlert :: "uuid \<Rightarrow> uuid \<Rightarrow> uuid \<Rightarrow> time \<Rightarrow> db \<Rightarrow> bool res \<times> db" where
  "ResolveAlert tenantID deviceID ruleID now d =
     andThen (pool (resolve_alert_stmt tenantID deviceID ruleID now) d) (\<lambda>n d1. (Inr (n = 1), d1))"

definition ListAlerts :: "uuid \<Rightarrow> int \<Rightarrow> db \<Rightarrow> alert_row list res \<times> db" where
  "ListAlerts tenantID limit = pool (\<lambda>d.
     (Inr (take (nat limit) (sort_key (\<lambda>a. at_resolved_at a \<noteq> None) (sort_key (\<lambda>a. - at_at a)
        (filter (\<lambda>a. at_tenant a = tenantID) (alerts d))))), d))"

section \<open>Breach onsets\<close>

definition breach_of :: "uuid \<Rightarrow> uuid \<Rightarrow> breach_row \<Rightarrow> bool" where
  "breach_of deviceID ruleID b \<longleftrightarrow> br_device b = deviceID \<and> br_rule b = ruleID"

definition mark_breach_stmt :: "uuid \<Rightarrow> uuid \<Rightarrow> uuid \<Rightarrow> time \<Rightarrow> db \<Rightarrow> time res \<times> db" where
  "mark_breach_stmt tenantID deviceID ruleID now d = (case find_row (breach_of deviceID ruleID) (alert_breaches d) of
       Some b \<Rightarrow> (Inr (br_since b), d)
     | None \<Rightarrow>
         if \<not> device_refs tenantID deviceID d \<or> ruleID \<notin> al_id ` set (alert_rules d) then (Inl (PgError ''23503''), d)
         else (Inr now, d\<lparr>alert_breaches := alert_breaches d @
                [\<lparr>br_tenant = tenantID, br_device = deviceID, br_rule = ruleID, br_since = now\<rparr>]\<rparr>))"

definition MarkBreach :: "uuid \<Rightarrow> uuid \<Rightarrow> uuid \<Rightarrow> time \<Rightarrow> db \<Rightarrow> time res \<times> db" where
  "MarkBreach tenantID deviceID ruleID now = pool (mark_breach_stmt tenantID deviceID ruleID now)"

definition clear_breach_stmt :: "uuid \<Rightarrow> uuid \<Rightarrow> uuid \<Rightarrow> db \<Rightarrow> unit res \<times> db" where
  "clear_breach_stmt tenantID deviceID ruleID d =
     (Inr (), d\<lparr>alert_breaches := filter (\<lambda>b. \<not> (br_tenant b = tenantID \<and> breach_of deviceID ruleID b)) (alert_breaches d)\<rparr>)"

definition ClearBreach :: "uuid \<Rightarrow> uuid \<Rightarrow> uuid \<Rightarrow> db \<Rightarrow> unit res \<times> db" where
  "ClearBreach tenantID deviceID ruleID = pool (clear_breach_stmt tenantID deviceID ruleID)"

section \<open>Evaluation\<close>

record alert_service =
  as_notify :: "(event \<Rightarrow> db \<Rightarrow> db) option"
  as_uuid_text :: "uuid \<Rightarrow> string"

text \<open>The event is built only when there is a notifier; building it reads the store.\<close>

definition emit_alert :: "alert_service \<Rightarrow> (db \<Rightarrow> event \<times> db) \<Rightarrow> db \<Rightarrow> db" where
  "emit_alert s build d = (case as_notify s of None \<Rightarrow> d | Some em \<Rightarrow> (let (e, d1) = build d in em e d1))"

definition metricValue :: "string \<Rightarrow> sample \<Rightarrow> rat option" where
  "metricValue m x = (if m = ''cpu'' then Some (sa_cpu x) else if m = ''mem'' then Some (sa_mem x)
     else if m = ''disk'' then Some (sa_disk x) else None)"

definition breaching :: "string \<Rightarrow> rat \<Rightarrow> rat \<Rightarrow> bool" where
  "breaching op v threshold = (if op = ''gt'' then v > threshold else if op = ''lt'' then v < threshold else False)"

definition opWord :: "string \<Rightarrow> string" where
  "opWord op = (if op = ''lt'' then ''<'' else ''>'')"

text \<open>\<^verbatim>\<open>%.0f\<close>: to the nearest integer, ties to even; a negative number that rounds to zero keeps its sign.\<close>

definition round_even :: "rat \<Rightarrow> int" where
  "round_even x = (let f = floor x; r = x - of_int f in if r < 1 / 2 then f else if r > 1 / 2 then f + 1 else if even f then f else f + 1)"

definition show_0f :: "rat \<Rightarrow> string" where
  "show_0f x = (if x < 0 \<and> round_even x = 0 then ''-0'' else show_int (round_even x))"

definition alert_message :: "alert_rule_row \<Rightarrow> rat \<Rightarrow> string" where
  "alert_message r v = al_metric r @ '' '' @ show_0f v @ ''% '' @ opWord (al_op r) @ '' '' @ show_0f (al_threshold r) @ ''%''"

definition alertEvent :: "alert_service \<Rightarrow> string \<Rightarrow> uuid \<Rightarrow> uuid \<Rightarrow> alert_rule_row \<Rightarrow> string \<Rightarrow> time \<Rightarrow> db \<Rightarrow> event \<times> db" where
  "alertEvent s kind tenantID deviceID r msg now d =
     (let (dev, d1) = GetDevice tenantID deviceID d;
          host = (case dev of Inr v \<Rightarrow> if dv_hostname v \<noteq> [] then dv_hostname v else as_uuid_text s deviceID | Inl _ \<Rightarrow> as_uuid_text s deviceID);
          word = (if kind = ''alert.raised'' then ''breaching'' else if kind = ''alert.resolved'' then ''resolved'' else '''')
      in (\<lparr>ev_kind = kind, ev_tenant = tenantID,
           ev_title = (if kind = ''alert.resolved'' then ''Resolved: '' else ''Alert: '') @ al_name r @ '' on '' @ host,
           ev_body = al_name r @ '' is '' @ word @ '' on '' @ host @ ''.'' @ (if msg \<noteq> [] then [LF] @ msg else []),
           ev_detail = [(''device_id'', DId deviceID), (''hostname'', DStr host), (''rule_id'', DId (al_id r)), (''rule_name'', DStr (al_name r)),
             (''metric'', DStr (al_metric r)), (''message'', DStr msg)],
           ev_at = now\<rparr>, d1))"

definition sustained :: "uuid \<Rightarrow> uuid \<Rightarrow> uuid \<Rightarrow> int \<Rightarrow> time \<Rightarrow> db \<Rightarrow> bool res \<times> db" where
  "sustained tenantID deviceID ruleID durationSeconds now d =
     (if durationSeconds \<le> 0 then (Inr True, d)
      else andThen (MarkBreach tenantID deviceID ruleID now d) (\<lambda>since d1. (Inr (now - since \<ge> durationSeconds * second), d1)))"

text \<open>One pass of the loop for a rule whose metric has a value.\<close>

definition evaluate_rule :: "alert_service \<Rightarrow> uuid \<Rightarrow> uuid \<Rightarrow> time \<Rightarrow> alert_rule_row \<Rightarrow> rat \<Rightarrow> db \<Rightarrow> unit res \<times> db" where
  "evaluate_rule s tenantID deviceID now r v d =
     (if breaching (al_op r) v (al_threshold r)
      then andThen (sustained tenantID deviceID (al_id r) (al_duration_seconds r) now d) (\<lambda>held d1.
             if held
             then andThen (RaiseAlert tenantID deviceID (al_id r) (al_metric r) (alert_message r v) now d1) (\<lambda>created d2.
                    (Inr (), if created then emit_alert s (alertEvent s ''alert.raised'' tenantID deviceID r (alert_message r v) now) d2 else d2))
             else (Inr (), d1))
      else andThen (ClearBreach tenantID deviceID (al_id r) d) (\<lambda>_ d1.
             andThen (ResolveAlert tenantID deviceID (al_id r) now d1) (\<lambda>closed d2.
               (Inr (), if closed then emit_alert s (alertEvent s ''alert.resolved'' tenantID deviceID r '''' now) d2 else d2))))"

fun evaluate_each :: "alert_service \<Rightarrow> uuid \<Rightarrow> uuid \<Rightarrow> sample \<Rightarrow> time \<Rightarrow> alert_rule_row list \<Rightarrow> db \<Rightarrow> unit res \<times> db" where
  "evaluate_each s tenantID deviceID x now [] d = (Inr (), d)"
| "evaluate_each s tenantID deviceID x now (r # rs) d = (case metricValue (al_metric r) x of
       None \<Rightarrow> evaluate_each s tenantID deviceID x now rs d
     | Some v \<Rightarrow> andThen (evaluate_rule s tenantID deviceID now r v d) (\<lambda>_. evaluate_each s tenantID deviceID x now rs))"

definition Evaluate :: "alert_service \<Rightarrow> uuid \<Rightarrow> uuid \<Rightarrow> sample \<Rightarrow> time \<Rightarrow> db \<Rightarrow> unit res \<times> db" where
  "Evaluate s tenantID deviceID x now d =
     andThen (ListEnabledAlertRules tenantID d) (\<lambda>rs. evaluate_each s tenantID deviceID x now rs)"

section \<open>Device events and retention\<close>

definition record_device_events_stmt :: "uuid \<Rightarrow> uuid \<Rightarrow> (string \<times> string \<times> time) list \<Rightarrow> db \<Rightarrow> unit res \<times> db" where
  "record_device_events_stmt tenantID deviceID evs d =
     (if \<not> device_refs tenantID deviceID d then (Inl (PgError ''23503''), d)
      else (Inr (), d\<lparr>event_seq := event_seq d + length evs, device_events := device_events d @
              map (\<lambda>(n, kind, summary, t). \<lparr>de_id = n, de_tenant = tenantID, de_device = deviceID, de_kind = kind, de_summary = summary,
                 de_at = (if t = 0 then now_db d else t)\<rparr>) (enumerate (event_seq d) evs)\<rparr>))"

definition RecordDeviceEvents :: "uuid \<Rightarrow> uuid \<Rightarrow> (string \<times> string \<times> time) list \<Rightarrow> db \<Rightarrow> unit res \<times> db" where
  "RecordDeviceEvents tenantID deviceID evs d = (if evs = [] then (Inr (), d) else pool (record_device_events_stmt tenantID deviceID evs) d)"

definition ListDeviceEvents :: "uuid \<Rightarrow> string \<Rightarrow> int \<Rightarrow> db \<Rightarrow> device_event_row list res \<times> db" where
  "ListDeviceEvents tenantID kind limit = pool (\<lambda>d.
     (Inr (take (nat limit) (sort_key (\<lambda>e. - de_at e) (filter (\<lambda>e. de_tenant e = tenantID \<and> (kind = [] \<or> de_kind e = kind)) (device_events d)))), d))"

text \<open>Three deletions; the number of rows removed so far is returned even with an error.\<close>

definition purge :: "(db \<Rightarrow> 'r list) \<Rightarrow> (db \<Rightarrow> 'r list \<Rightarrow> db) \<Rightarrow> ('r \<Rightarrow> bool) \<Rightarrow> db \<Rightarrow> nat res \<times> db" where
  "purge tbl upd P = pool (\<lambda>d. (Inr (rows_affected P (tbl d)), upd d (filter (\<lambda>r. \<not> P r) (tbl d))))"

definition Retention :: "time \<Rightarrow> db \<Rightarrow> (nat \<times> err option) \<times> db" where
  "Retention before d = (case purge device_metrics (\<lambda>d x. d\<lparr>device_metrics := x\<rparr>) (\<lambda>m. me_at m < before) d of
       (Inl e, d1) \<Rightarrow> ((0, Some e), d1)
     | (Inr n1, d1) \<Rightarrow> (case purge block_events (\<lambda>d x. d\<lparr>block_events := x\<rparr>) (\<lambda>b. bl_at b < before) d1 of
         (Inl e, d2) \<Rightarrow> ((n1, Some e), d2)
       | (Inr n2, d2) \<Rightarrow> (case purge alerts (\<lambda>d x. d\<lparr>alerts := x\<rparr>) (\<lambda>a. case at_resolved_at a of None \<Rightarrow> False | Some t \<Rightarrow> t < before) d2 of
           (Inl e, d3) \<Rightarrow> ((n1 + n2, Some e), d3)
         | (Inr n3, d3) \<Rightarrow> ((n1 + n2 + n3, None), d3))))"

section \<open>Console handlers\<close>

definition metricJSON :: "metric_row \<Rightarrow> json" where
  "metricJSON m = JObj [(''at'', JTime (me_at m)), (''cpu_pct'', JRat (me_cpu m)), (''mem_pct'', JRat (me_mem m)), (''disk_pct'', JRat (me_disk m))]"

text \<open>\<open>since\<close> is the query parameter, None when missing or unparsable.\<close>

definition listMetrics :: "principal \<Rightarrow> uuid \<Rightarrow> time option \<Rightarrow> int option \<Rightarrow> time \<Rightarrow> db \<Rightarrow> response \<times> db" where
  "listMetrics p i since limit now d = respond (\<lambda>ms. JArr (map metricJSON ms))
     (ListMetrics (pr_tenant p) i (case since of None \<Rightarrow> now - 6 * hour | Some t \<Rightarrow> t) (queryInt limit 500 5000) d)"

definition alert_ruleJSON :: "alert_rule_row \<Rightarrow> json" where
  "alert_ruleJSON r = JObj [(''id'', JId (al_id r)), (''name'', JStr (al_name r)), (''metric'', JStr (al_metric r)), (''op'', JStr (al_op r)),
     (''threshold'', JRat (al_threshold r)), (''duration_seconds'', JInt (al_duration_seconds r)), (''enabled'', JBool (al_enabled r))]"

definition listAlertRules :: "principal \<Rightarrow> db \<Rightarrow> response \<times> db" where
  "listAlertRules p d = respond (\<lambda>rs. JArr (map alert_ruleJSON rs)) (ListAlertRules (pr_tenant p) d)"

definition validAlertRule :: "rule_in \<Rightarrow> bool" where
  "validAlertRule r \<longleftrightarrow> \<not> (ri_name r = [] \<or> (ri_metric r \<noteq> ''cpu'' \<and> ri_metric r \<noteq> ''mem'' \<and> ri_metric r \<noteq> ''disk'') \<or>
     (ri_op r \<noteq> ''gt'' \<and> ri_op r \<noteq> ''lt'') \<or> ri_threshold r < 0 \<or> ri_threshold r > 100 \<or> ri_duration_seconds r < 0)"

definition invalid_rule :: response where
  "invalid_rule = writeErr 400 ''name, metric (cpu|mem|disk), op (gt|lt), threshold 0-100, and non-negative duration are required''"

definition createAlertRule :: "(rat \<Rightarrow> rat) \<Rightarrow> principal \<Rightarrow> rule_in \<Rightarrow> db \<Rightarrow> response \<times> db" where
  "createAlertRule real4 p req d = (let r = req\<lparr>ri_name := TrimSpace (ri_name req), ri_enabled := True\<rparr> in
     if \<not> validAlertRule r then (invalid_rule, d)
     else case CreateAlertRule real4 (pr_tenant p) r d of
         (Inl e, d1) \<Rightarrow> (storeErr e, d1)
       | (Inr i, d1) \<Rightarrow> (reply_id 201 i, audit p ''alert_rule.create'' ''alert_rule'' (IdTxt '''' i)
           [(''metric'', DStr (ri_metric r)), (''op'', DStr (ri_op r)), (''threshold'', DRat (ri_threshold r))] ''success'' d1))"

definition updateAlertRule :: "(rat \<Rightarrow> rat) \<Rightarrow> principal \<Rightarrow> uuid \<Rightarrow> rule_in \<Rightarrow> db \<Rightarrow> response \<times> db" where
  "updateAlertRule real4 p i req d = (let r = req\<lparr>ri_name := TrimSpace (ri_name req)\<rparr> in
     if \<not> validAlertRule r then (invalid_rule, d)
     else finish p ''alert_rule.update'' ''alert_rule'' i
       [(''metric'', DStr (ri_metric r)), (''op'', DStr (ri_op r)), (''threshold'', DRat (ri_threshold r)), (''enabled'', DBool (ri_enabled r))]
       (UpdateAlertRule real4 (pr_tenant p) i r d))"

definition deleteAlertRule :: "principal \<Rightarrow> uuid \<Rightarrow> db \<Rightarrow> response \<times> db" where
  "deleteAlertRule p i d = finish p ''alert_rule.delete'' ''alert_rule'' i [] (DeleteAlertRule (pr_tenant p) i d)"

definition device_eventJSON :: "device_event_row \<Rightarrow> json" where
  "device_eventJSON e = JObj [(''id'', JInt (int (de_id e))), (''device_id'', JId (de_device e)), (''kind'', JStr (de_kind e)),
     (''summary'', JStr (de_summary e)), (''at'', JTime (de_at e))]"

definition listDeviceEvents :: "principal \<Rightarrow> string \<Rightarrow> int option \<Rightarrow> db \<Rightarrow> response \<times> db" where
  "listDeviceEvents p kind limit d = respond (\<lambda>es. JArr (map device_eventJSON es)) (ListDeviceEvents (pr_tenant p) kind (queryInt limit 200 1000) d)"

definition alertJSON :: "alert_row \<Rightarrow> json" where
  "alertJSON a = JObj [(''id'', JInt (int (at_id a))), (''device_id'', JId (at_device a)), (''metric'', JStr (at_metric a)), (''message'', JStr (at_message a)),
     (''at'', JTime (at_at a)), (''resolved_at'', JOpt JTime (at_resolved_at a))]"

definition listAlerts :: "principal \<Rightarrow> int option \<Rightarrow> db \<Rightarrow> response \<times> db" where
  "listAlerts p limit d = respond (\<lambda>as. JArr (map alertJSON as)) (ListAlerts (pr_tenant p) (queryInt limit 200 1000) d)"

section \<open>Consistency of the tables\<close>

text \<open>
  Rule identifiers are unique, alerts and onsets belong to a rule of their tenant, and a
  device has at most one onset and one open alert per rule.
\<close>

definition owned_by :: "db \<Rightarrow> uuid \<Rightarrow> uuid \<Rightarrow> bool" where
  "owned_by d t i \<longleftrightarrow> (\<exists>r \<in> set (alert_rules d). al_id r = i \<and> al_tenant r = t)"

definition alerting_inv :: "db \<Rightarrow> bool" where
  "alerting_inv d \<longleftrightarrow> distinct (map al_id (alert_rules d)) \<and>
     (\<forall>b \<in> set (alert_breaches d). owned_by d (br_tenant b) (br_rule b)) \<and>
     (\<forall>a \<in> set (alerts d). owned_by d (at_tenant a) (at_rule a)) \<and>
     (\<forall>i k. length (filter (breach_of i k) (alert_breaches d)) \<le> 1) \<and>
     (\<forall>i k. length (filter (open_for i k) (alerts d)) \<le> 1)"

lemma alerting_inv_frame:
  assumes "alert_rules d' = alert_rules d" "alert_breaches d' = alert_breaches d" "alerts d' = alerts d"
  shows "alerting_inv d' \<longleftrightarrow> alerting_inv d"
  by (simp add: alerting_inv_def owned_by_def assms)

lemma owner_unique:
  assumes "alerting_inv d" "owned_by d t i" "owned_by d u i"
  shows "t = u"
proof -
  obtain r r' where "r \<in> set (alert_rules d)" "r' \<in> set (alert_rules d)" "al_id r = i" "al_id r' = i" "al_tenant r = t" "al_tenant r' = u"
    using assms(2,3) by (auto simp: owned_by_def)
  moreover have "inj_on al_id (set (alert_rules d))" using assms(1) by (simp add: alerting_inv_def distinct_map)
  ultimately show ?thesis by (auto dest: inj_onD)
qed

lemma length_filter_le: "length (filter P (filter Q xs)) \<le> length (filter P xs)"
  by (induction xs) auto

lemma mark_breach_inv:
  assumes "alerting_inv d" "owned_by d t i"
  shows "alerting_inv (snd (mark_breach_stmt t dev i now d))"
proof (cases "find_row (breach_of dev i) (alert_breaches d)")
  case None
  then have "filter (breach_of dev i) (alert_breaches d) = []" by (auto simp: find_row_None filter_empty_conv)
  then show ?thesis using assms None
    by (auto simp: mark_breach_stmt_def alerting_inv_def owned_by_def breach_of_def)
qed (use assms in \<open>simp add: mark_breach_stmt_def\<close>)

lemma raise_alert_inv:
  assumes "alerting_inv d" "owned_by d t i"
  shows "alerting_inv (snd (raise_alert_stmt t dev i m msg now d))"
proof (cases "\<exists>a \<in> set (alerts d). open_for dev i a")
  case False
  then have "filter (open_for dev i) (alerts d) = []" by (auto simp: filter_empty_conv)
  then show ?thesis using assms False
    by (auto simp: raise_alert_stmt_def alerting_inv_def owned_by_def open_for_def Let_def)
qed (use assms in \<open>simp add: raise_alert_stmt_def Let_def alerting_inv_def owned_by_def\<close>)

lemma alerting_inv_shrink:
  assumes "alerting_inv d" "alert_rules d' = alert_rules d"
    and "\<And>b. b \<in> set (alert_breaches d') \<Longrightarrow> \<exists>c \<in> set (alert_breaches d). br_tenant c = br_tenant b \<and> br_rule c = br_rule b"
    and "\<And>a. a \<in> set (alerts d') \<Longrightarrow> \<exists>c \<in> set (alerts d). at_tenant c = at_tenant a \<and> at_rule c = at_rule a"
    and "\<And>i k. length (filter (breach_of i k) (alert_breaches d')) \<le> length (filter (breach_of i k) (alert_breaches d))"
    and "\<And>i k. length (filter (open_for i k) (alerts d')) \<le> length (filter (open_for i k) (alerts d))"
  shows "alerting_inv d'"
proof -
  have "owned_by d' = owned_by d" by (simp add: owned_by_def fun_eq_iff assms(2))
  moreover have "owned_by d (br_tenant b) (br_rule b)" if "b \<in> set (alert_breaches d')" for b
    using assms(1) assms(3) [OF that] unfolding alerting_inv_def by metis
  moreover have "owned_by d (at_tenant a) (at_rule a)" if "a \<in> set (alerts d')" for a
    using assms(1) assms(4) [OF that] unfolding alerting_inv_def by metis
  moreover have "length (filter (breach_of i k) (alert_breaches d')) \<le> 1" "length (filter (open_for i k) (alerts d')) \<le> 1" for i k
    using assms(1) assms(5,6) [of i k] le_trans unfolding alerting_inv_def by blast+
  ultimately show ?thesis using assms(1) by (simp add: alerting_inv_def assms(2))
qed

lemma clear_breach_inv: "alerting_inv d \<Longrightarrow> alerting_inv (snd (clear_breach_stmt t dev i d))"
  by (rule alerting_inv_shrink [of d]) (simp_all add: clear_breach_stmt_def length_filter_le del: filter_filter, blast+)

lemma resolve_alert_inv: "alerting_inv d \<Longrightarrow> alerting_inv (snd (resolve_alert_stmt t dev i now d))"
proof (rule alerting_inv_shrink [of d], goal_cases)
  case (4 a)
  then have "a \<in> (\<lambda>a. if at_tenant a = t \<and> open_for dev i a then a\<lparr>at_resolved_at := Some now\<rparr> else a) ` set (alerts d)"
    by (simp add: resolve_alert_stmt_def set_update_where Let_def)
  then show ?case by (auto split: if_splits)
next
  case (6 j k)
  show ?case unfolding resolve_alert_stmt_def update_where_def Let_def snd_conv
    by simp (rule length_filter_map_le [of "open_for j k", simplified], simp add: open_for_def split: if_splits)
qed (auto simp: resolve_alert_stmt_def Let_def)

text \<open>Everything a sample's evaluation keeps: the rules, the devices and consistency.\<close>

definition alert_frame :: "db \<Rightarrow> db \<Rightarrow> bool" where
  "alert_frame d d' \<longleftrightarrow> alert_rules d' = alert_rules d \<and> devices d' = devices d \<and> tenants d' = tenants d \<and> (alerting_inv d \<longrightarrow> alerting_inv d')"

lemma alert_frame_refl [simp]: "alert_frame d d"
  by (simp add: alert_frame_def)

lemma alert_frame_trans: "alert_frame d d1 \<Longrightarrow> alert_frame d1 d2 \<Longrightarrow> alert_frame d d2"
  by (simp add: alert_frame_def)

lemma alert_frame_faults [simp]: "alert_frame d (d\<lparr>faults := fs\<rparr>)"
  by (simp add: alert_frame_def alerting_inv_frame [of "d\<lparr>faults := fs\<rparr>" d])

lemma alert_frame_pool:
  assumes "\<And>d0. alert_rules d0 = alert_rules d \<Longrightarrow> alert_frame d0 (snd (stmt d0))"
  shows "alert_frame d (snd (pool stmt d))"
proof (cases stmt d rule: pool_cases)
  case (ran rest)
  have "alert_frame (d\<lparr>faults := rest\<rparr>) (snd (stmt (d\<lparr>faults := rest\<rparr>)))" by (rule assms) simp
  then show ?thesis unfolding ran by (rule alert_frame_trans [OF alert_frame_faults])
qed simp

lemma alert_frame_andThen:
  assumes "alert_frame d (snd m)" "\<And>x d1. alert_frame d d1 \<Longrightarrow> alert_frame d (snd (k x d1))"
  shows "alert_frame d (snd (andThen m k))"
  by (rule andThen_state) (fact assms)+

lemma owned_by_frame: "alert_rules d' = alert_rules d \<Longrightarrow> owned_by d' t i = owned_by d t i"
  by (simp add: owned_by_def)

lemma alert_stmts_frame:
  shows "alert_frame d (snd (clear_breach_stmt t dev i d))" "alert_frame d (snd (resolve_alert_stmt t dev i now d))"
    and "owned_by d t i \<Longrightarrow> alert_frame d (snd (mark_breach_stmt t dev i now d))"
    and "owned_by d t i \<Longrightarrow> alert_frame d (snd (raise_alert_stmt t dev i m msg now d))"
proof -
  show "alert_frame d (snd (clear_breach_stmt t dev i d))"
    using clear_breach_inv [of d t dev i] by (simp add: alert_frame_def clear_breach_stmt_def)
  show "alert_frame d (snd (resolve_alert_stmt t dev i now d))"
    using resolve_alert_inv [of d t dev i now] by (simp add: alert_frame_def resolve_alert_stmt_def Let_def)
  assume o: "owned_by d t i"
  show "alert_frame d (snd (mark_breach_stmt t dev i now d))"
    using mark_breach_inv [OF _ o, of dev now] by (auto simp: alert_frame_def mark_breach_stmt_def split: option.splits)
  show "alert_frame d (snd (raise_alert_stmt t dev i m msg now d))"
    using raise_alert_inv [OF _ o, of dev m msg now] by (auto simp: alert_frame_def raise_alert_stmt_def Let_def)
qed

definition good_alerting :: "alert_service \<Rightarrow> bool" where
  "good_alerting s \<longleftrightarrow> (\<forall>em. as_notify s = Some em \<longrightarrow> emitter em)"

lemma emit_alert_tables:
  assumes "good_alerting s"
  shows "alert_rules (emit_alert s (alertEvent s k t dev r msg now) d) = alert_rules d"
    "alert_breaches (emit_alert s (alertEvent s k t dev r msg now) d) = alert_breaches d"
    "alerts (emit_alert s (alertEvent s k t dev r msg now) d) = alerts d"
    "devices (emit_alert s (alertEvent s k t dev r msg now) d) = devices d"
    "tenants (emit_alert s (alertEvent s k t dev r msg now) d) = tenants d"
    "faults d = [] \<Longrightarrow> faults (emit_alert s (alertEvent s k t dev r msg now) d) = []"
proof -
  obtain dev' fs where g: "GetDevice t dev d = (dev', d\<lparr>faults := fs\<rparr>)"
    unfolding GetDevice_def by (rule pool_cases [of _ d]) auto
  have "faults (snd (GetDevice t dev d)) = []" if "faults d = []" using that by (simp add: GetDevice_def)
  then have "faults d = [] \<Longrightarrow> fs = []" by (simp add: g)
  then have "\<exists>e. emit_alert s (alertEvent s k t dev r msg now) d = d \<or>
      (\<exists>em. emitter em \<and> emit_alert s (alertEvent s k t dev r msg now) d = em e (d\<lparr>faults := fs\<rparr>)) \<and> (faults d = [] \<longrightarrow> fs = [])"
    using assms by (cases "as_notify s") (auto simp: emit_alert_def alertEvent_def g Let_def good_alerting_def)
  then show "alert_rules (emit_alert s (alertEvent s k t dev r msg now) d) = alert_rules d"
    "alert_breaches (emit_alert s (alertEvent s k t dev r msg now) d) = alert_breaches d"
    "alerts (emit_alert s (alertEvent s k t dev r msg now) d) = alerts d"
    "devices (emit_alert s (alertEvent s k t dev r msg now) d) = devices d"
    "tenants (emit_alert s (alertEvent s k t dev r msg now) d) = tenants d"
    "faults d = [] \<Longrightarrow> faults (emit_alert s (alertEvent s k t dev r msg now) d) = []"
    by (auto simp: emitter.emit_tables emitter.emit_faults)
qed

lemma emit_alert_frame: "good_alerting s \<Longrightarrow> alert_frame d (emit_alert s (alertEvent s k t dev r msg now) d)"
  by (simp add: alert_frame_def emit_alert_tables alerting_inv_frame [of "emit_alert s (alertEvent s k t dev r msg now) d" d])

lemma sustained_frame:
  assumes "owned_by d t i"
  shows "alert_frame d (snd (sustained t dev i n now d))"
proof -
  have "alert_frame d (snd (MarkBreach t dev i now d))"
    unfolding MarkBreach_def by (intro alert_frame_pool alert_stmts_frame) (use assms owned_by_frame in blast)
  then show ?thesis by (simp add: sustained_def)
qed

lemma evaluate_rule_frame:
  assumes "good_alerting s" "owned_by d t (al_id r)"
  shows "alert_frame d (snd (evaluate_rule s t dev now r v d))"
proof -
  have o: "owned_by d1 t (al_id r)" if "alert_frame d d1" for d1
    using that assms(2) owned_by_frame unfolding alert_frame_def by blast
  have raise: "alert_frame d (snd (RaiseAlert t dev (al_id r) m msg now d1))" if "alert_frame d d1" for d1 m msg
  proof -
    have "alert_frame d1 (snd (pool (raise_alert_stmt t dev (al_id r) m msg now) d1))"
      by (intro alert_frame_pool alert_stmts_frame) (use o [OF that] owned_by_frame in blast)
    then show ?thesis using alert_frame_trans [OF that] by (simp add: RaiseAlert_def)
  qed
  have clear: "alert_frame d (snd (ClearBreach t dev (al_id r) d))"
    unfolding ClearBreach_def by (intro alert_frame_pool alert_stmts_frame)
  have resolve: "alert_frame d (snd (ResolveAlert t dev (al_id r) now d1))" if "alert_frame d d1" for d1
  proof -
    have "alert_frame d1 (snd (pool (resolve_alert_stmt t dev (al_id r) now) d1))"
      by (intro alert_frame_pool alert_stmts_frame)
    then show ?thesis using alert_frame_trans [OF that] by (simp add: ResolveAlert_def)
  qed
  have emit: "alert_frame d (emit_alert s (alertEvent s k t dev r msg now) d1)" if "alert_frame d d1" for k msg d1
    by (rule alert_frame_trans [OF that emit_alert_frame [OF assms(1)]])
  show ?thesis unfolding evaluate_rule_def
    by (auto intro!: alert_frame_andThen sustained_frame assms raise clear resolve emit)
qed

lemma evaluate_each_frame:
  assumes "good_alerting s" "\<And>r. r \<in> set rs \<Longrightarrow> owned_by d t (al_id r)"
  shows "alert_frame d (snd (evaluate_each s t dev x now rs d))"
  using assms(2)
proof (induction rs arbitrary: d)
  case (Cons r rs)
  show ?case
  proof (cases "metricValue (al_metric r) x")
    case (Some v)
    have f: "alert_frame d (snd (evaluate_rule s t dev now r v d))" by (rule evaluate_rule_frame [OF assms(1)]) (simp add: Cons)
    have "alert_frame d1 (snd (evaluate_each s t dev x now rs d1))" if "alert_frame d d1" for d1
      by (rule Cons(1)) (use that Cons(2) owned_by_frame [of d1 d] in \<open>auto simp: alert_frame_def\<close>)
    then show ?thesis using f Some by (auto intro!: alert_frame_andThen intro: alert_frame_trans)
  qed (use Cons in simp)
qed simp

lemma Evaluate_frame:
  assumes "good_alerting s"
  shows "alert_frame d (snd (Evaluate s t dev x now d))"
proof -
  let ?rs = "filter al_enabled (filter (\<lambda>r. al_tenant r = t) (alert_rules d))"
  have "alert_frame (d\<lparr>faults := fs\<rparr>) (snd (evaluate_each s t dev x now ?rs (d\<lparr>faults := fs\<rparr>)))" for fs
    by (rule evaluate_each_frame [OF assms]) (auto simp: owned_by_def)
  then have each: "alert_frame d (snd (evaluate_each s t dev x now ?rs (d\<lparr>faults := fs\<rparr>)))" for fs
    by (rule alert_frame_trans [OF alert_frame_faults])
  show ?thesis
  proof (cases "\<lambda>d :: db. (Inr (filter (\<lambda>r. al_tenant r = t) (alert_rules d)) :: alert_rule_row list res, d)" d rule: pool_cases)
    case (lost rest)
    then show ?thesis by (simp add: Evaluate_def ListEnabledAlertRules_def ListAlertRules_def)
  next
    case (ran rest)
    then show ?thesis using each [of rest] by (simp add: Evaluate_def ListEnabledAlertRules_def ListAlertRules_def)
  qed
qed

lemma alerting_inv_faults [simp]: "alerting_inv (d\<lparr>faults := fs\<rparr>) \<longleftrightarrow> alerting_inv d"
  by (rule alerting_inv_frame) simp_all

lemma alerting_inv_uuid [simp]: "alerting_inv (d\<lparr>faults := fs, next_uuid := u\<rparr>) \<longleftrightarrow> alerting_inv d"
  "alerting_inv (d\<lparr>next_uuid := u\<rparr>) \<longleftrightarrow> alerting_inv d"
  by (rule alerting_inv_frame; simp)+

lemma alerting_inv_audit [simp]: "alerting_inv (audit p a b c e g d) \<longleftrightarrow> alerting_inv d"
proof -
  obtain fs n xs where "audit p a b c e g d = d\<lparr>faults := fs, audit_seq := n, audit_log := audit_log d @ xs\<rparr>"
    by (rule audit_shape)
  then show ?thesis by (simp add: alerting_inv_frame [of "d\<lparr>faults := fs, audit_seq := n, audit_log := audit_log d @ xs\<rparr>" d])
qed

lemma alerting_inv_finish: "alerting_inv (snd r) \<Longrightarrow> alerting_inv (snd (finish p a b i e r))"
  by (cases r; cases "fst r") (auto simp: finish_def)

lemma alerting_inv_pool:
  assumes "\<And>d. alerting_inv d \<Longrightarrow> alerting_inv (snd (stmt d))" "alerting_inv d"
  shows "alerting_inv (snd (pool stmt d))"
  by (rule pool_inv) (simp_all add: assms)

lemma insert_alert_rule_inv:
  assumes "alerting_inv d"
  shows "alerting_inv (snd (insert_alert_rule_stmt real4 i t r d))"
  using assms by (auto simp: insert_alert_rule_stmt_def alerting_inv_def owned_by_def split: option.splits)

lemma set_rule_fields [simp]: "al_id (set_rule real4 r x) = al_id x" "al_tenant (set_rule real4 r x) = al_tenant x"
  by (simp_all add: set_rule_def)

lemma update_alert_rule_inv:
  assumes "alerting_inv d"
  shows "alerting_inv (snd (update_alert_rule_stmt real4 t i r d))"
proof -
  let ?d = "d\<lparr>alert_rules := update_where (\<lambda>x. al_tenant x = t \<and> al_id x = i) (set_rule real4 r) (alert_rules d)\<rparr>"
  have own: "owned_by d u k \<longleftrightarrow> (k, u) \<in> set (map (\<lambda>r. (al_id r, al_tenant r)) (alert_rules d))" for d u k
    by (auto simp: owned_by_def)
  have "map (\<lambda>r. (al_id r, al_tenant r)) (alert_rules ?d) = map (\<lambda>r. (al_id r, al_tenant r)) (alert_rules d)"
    by (simp add: map_update_where_inv)
  then have "owned_by ?d = owned_by d" unfolding fun_eq_iff own by simp
  moreover have "map al_id (alert_rules ?d) = map al_id (alert_rules d)" by (simp add: map_update_where_inv)
  ultimately have "alerting_inv ?d" using assms by (simp add: alerting_inv_def)
  then show ?thesis using assms by (auto simp: update_alert_rule_stmt_def Let_def split: option.splits err.splits)
qed

lemma clear_rule_breaches_inv: "alerting_inv d \<Longrightarrow> alerting_inv (snd (clear_rule_breaches_stmt t i d))"
  by (rule alerting_inv_shrink [of d]) (simp_all add: clear_rule_breaches_stmt_def length_filter_le del: filter_filter, blast+)

lemma delete_alert_rule_inv:
  assumes "alerting_inv d"
  shows "alerting_inv (snd (delete_alert_rule_stmt t i d))"
proof -
  let ?P = "\<lambda>x. al_tenant x = t \<and> al_id x = i"
  let ?d = "d\<lparr>alert_rules := filter (\<lambda>x. \<not> ?P x) (alert_rules d), alerts := filter (\<lambda>a. at_rule a \<noteq> i) (alerts d),
      alert_breaches := filter (\<lambda>b. br_rule b \<noteq> i) (alert_breaches d)\<rparr>"
  have o: "owned_by ?d u k" if "owned_by d u k" "k \<noteq> i" for u k using that by (auto simp: owned_by_def)
  have "length (filter (breach_of j k) (filter (\<lambda>b. br_rule b \<noteq> i) (alert_breaches d))) \<le> 1"
    "length (filter (open_for j k) (filter (\<lambda>a. at_rule a \<noteq> i) (alerts d))) \<le> 1" for j k
    using assms le_trans [OF length_filter_le] unfolding alerting_inv_def by blast+
  then have "alerting_inv ?d" using assms o by (simp add: alerting_inv_def distinct_map_filter del: filter_filter)
  then show ?thesis using assms by (simp add: delete_alert_rule_stmt_def Let_def)
qed

lemma Retention_inv:
  assumes "alerting_inv d"
  shows "alerting_inv (snd (Retention before d))"
proof -
  have m: "alerting_inv (snd (purge device_metrics (\<lambda>d x. d\<lparr>device_metrics := x\<rparr>) P d))" if "alerting_inv d" for P d
    unfolding purge_def by (rule alerting_inv_pool [OF _ that]) (simp add: alerting_inv_def owned_by_def)
  have b: "alerting_inv (snd (purge block_events (\<lambda>d x. d\<lparr>block_events := x\<rparr>) P d))" if "alerting_inv d" for P d
    unfolding purge_def by (rule alerting_inv_pool [OF _ that]) (simp add: alerting_inv_def owned_by_def)
  have a: "alerting_inv (snd (purge alerts (\<lambda>d x. d\<lparr>alerts := x\<rparr>) P d))" if "alerting_inv d" for P d
    unfolding purge_def
  proof (rule alerting_inv_pool [OF _ that], unfold snd_conv)
    show "alerting_inv (d\<lparr>alerts := filter (\<lambda>r. \<not> P r) (alerts d)\<rparr>)" if "alerting_inv d" for d
      by (rule alerting_inv_shrink [OF that]) (simp_all add: length_filter_le del: filter_filter, blast+)
  qed
  show ?thesis using m [OF assms] b a unfolding Retention_def
    by (auto split: prod.splits sum.splits) (metis snd_conv)+
qed

lemma UpdateAlertRule_inv:
  assumes "alerting_inv d"
  shows "alerting_inv (snd (UpdateAlertRule real4 t i r d))"
  unfolding UpdateAlertRule_def
proof (rule tx_inv [where P = alerting_inv])
  fix d x d'
  assume d: "alerting_inv d" and b: "update_alert_rule_body real4 t i r d = (Inr x, d')"
  have "alerting_inv (snd (pool (update_alert_rule_stmt real4 t i r) d))" by (rule alerting_inv_pool [OF update_alert_rule_inv d])
  then have "alerting_inv (snd (update_alert_rule_body real4 t i r d))" unfolding update_alert_rule_body_def split_beta Let_def
    by (intro andThen_state [where P = alerting_inv]) (auto intro: alerting_inv_pool clear_rule_breaches_inv)
  then show "alerting_inv d'" by (simp add: b)
qed (use assms in simp_all)

text \<open>Everything that writes the alerting tables, with any connection lost at any time.\<close>

inductive_set alert_ops :: "(db \<Rightarrow> db) set" where
  evaluated: "good_alerting s \<Longrightarrow> (\<lambda>d. snd (Evaluate s t dev x now d)) \<in> alert_ops"
| rule_created: "(\<lambda>d. snd (createAlertRule real4 p req d)) \<in> alert_ops"
| rule_updated: "(\<lambda>d. snd (updateAlertRule real4 p i req d)) \<in> alert_ops"
| rule_deleted: "(\<lambda>d. snd (deleteAlertRule p i d)) \<in> alert_ops"
| purged: "(\<lambda>d. snd (Retention before d)) \<in> alert_ops"
| connection: "(\<lambda>d. d\<lparr>faults := fs\<rparr>) \<in> alert_ops"

lemma createAlertRule_inv:
  assumes "alerting_inv d"
  shows "alerting_inv (snd (createAlertRule real4 p req d))"
proof -
  have "alerting_inv (snd (CreateAlertRule real4 t r d))" for t r
    unfolding CreateAlertRule_def new_uuid_def Let_def prod.case
    by (intro andThen_state [where P = alerting_inv] alerting_inv_pool insert_alert_rule_inv) (simp_all add: assms)
  then have "alerting_inv d'" if "CreateAlertRule real4 t r d = (x, d')" for t r x d' using that by (metis snd_conv)
  then show ?thesis using assms by (auto simp: createAlertRule_def Let_def split: prod.splits sum.splits)
qed

lemma alert_op_inv:
  assumes "f \<in> alert_ops" "alerting_inv d"
  shows "alerting_inv (f d)"
  using assms
proof cases
  case (evaluated s t dev x now)
  then show ?thesis using Evaluate_frame [of s d t dev x now] assms(2) by (simp add: alert_frame_def)
next
  case (rule_updated real4 p i req)
  then show ?thesis using assms(2) by (auto simp: updateAlertRule_def Let_def intro: alerting_inv_finish UpdateAlertRule_inv)
next
  case (rule_deleted p i)
  have "alerting_inv (snd (pool (delete_alert_rule_stmt t i) d))" for t
    by (rule alerting_inv_pool [OF delete_alert_rule_inv assms(2)])
  then show ?thesis using rule_deleted
    by (auto simp: deleteAlertRule_def DeleteAlertRule_def split_beta Let_def intro: alerting_inv_finish)
qed (use assms(2) in \<open>simp_all add: createAlertRule_inv Retention_inv\<close>)

text \<open>
  the alerting tables stay consistent. Whatever samples are evaluated, rules changed and old rows
  purged, with connections lost anywhere, a device never has two open alerts or two breach
  onsets for the same rule, and every alert and onset belongs to an existing rule of its own tenant.
\<close>

theorem alerting_consistent:
  assumes "set fs \<subseteq> alert_ops" "alerting_inv d"
  shows "alerting_inv (fold (\<lambda>f d. f d) fs d)"
  using assms
proof (induction fs arbitrary: d)
  case (Cons f fs)
  then show ?case using alert_op_inv [of f d] by simp
qed simp

definition demo_alert_rule :: rule_in where
  "demo_alert_rule = \<lparr>ri_name = ''cpu high'', ri_metric = ''cpu'', ri_op = ''gt'', ri_threshold = 90, ri_duration_seconds = 60, ri_enabled = True\<rparr>"

definition quiet_alerting :: alert_service where
  "quiet_alerting = \<lparr>as_notify = None, as_uuid_text = (\<lambda>_. ''id'')\<rparr>"

theorem alerting_consistent_witness:
  "alerting_inv (fold (\<lambda>f d. f d) [\<lambda>d. snd (createAlertRule id demo_admin demo_alert_rule d),
     \<lambda>d. snd (Evaluate quiet_alerting 7 3 \<lparr>sa_at = 0, sa_cpu = 95, sa_mem = 10, sa_disk = 10\<rparr> 1000 d),
     \<lambda>d. snd (deleteAlertRule demo_admin 0 d)] empty_db)"
  by (rule alerting_consistent)
    (auto intro: alert_ops.intros simp: good_alerting_def quiet_alerting_def alerting_inv_def)

section \<open>When an alert is open\<close>

text \<open>The breach onset of a device under a rule, and whether its alert is open.\<close>

definition alert_state :: "uuid \<Rightarrow> uuid \<Rightarrow> db \<Rightarrow> time option \<times> bool" where
  "alert_state dev i d = (map_option br_since (find_row (breach_of dev i) (alert_breaches d)), \<exists>a \<in> set (alerts d). open_for dev i a)"

text \<open>What a sample does to it, seen from outside: \<open>D\<close> is the duration in seconds, \<open>b\<close> whether the sample breaches.\<close>

definition track :: "int \<Rightarrow> bool \<Rightarrow> time \<Rightarrow> time option \<times> bool \<Rightarrow> time option \<times> bool" where
  "track D b now x = (if \<not> b then (None, False)
     else let since = (case fst x of None \<Rightarrow> now | Some t \<Rightarrow> t)
          in (if D \<le> 0 then fst x else Some since, snd x \<or> D \<le> 0 \<or> now - since \<ge> D * second))"

lemma alert_state_faults [simp]: "alert_state dev i (d\<lparr>faults := fs\<rparr>) = alert_state dev i d"
  by (simp add: alert_state_def)

lemma evaluate_breach:
  assumes "faults d = []" "good_alerting s" "device_refs t dev d" "r \<in> set (alert_rules d)" "breaching (al_op r) v (al_threshold r)"
  shows "\<exists>d'. evaluate_rule s t dev now r v d = (Inr (), d') \<and> faults d' = [] \<and>
     alert_state dev (al_id r) d' = track (al_duration_seconds r) True now (alert_state dev (al_id r) d) \<and>
     (\<forall>dev' i. (dev', i) \<noteq> (dev, al_id r) \<longrightarrow> alert_state dev' i d' = alert_state dev' i d)"
proof -
  let ?i = "al_id r" and ?D = "al_duration_seconds r"
  have i: "?i \<in> al_id ` set (alert_rules d)" using assms(4) by simp
  define since where "since = (case find_row (breach_of dev ?i) (alert_breaches d) of Some b \<Rightarrow> br_since b | None \<Rightarrow> now)"
  define d1 where "d1 = (if ?D \<le> 0 \<or> find_row (breach_of dev ?i) (alert_breaches d) \<noteq> None then d
    else d\<lparr>alert_breaches := alert_breaches d @ [\<lparr>br_tenant = t, br_device = dev, br_rule = ?i, br_since = now\<rparr>]\<rparr>)"
  have s: "sustained t dev ?i ?D now d = (Inr (?D \<le> 0 \<or> now - since \<ge> ?D * second), d1)"
    using assms(1,3) i by (auto simp: sustained_def MarkBreach_def mark_breach_stmt_def d1_def since_def split: option.splits)
  have f1: "faults d1 = []" "alerts d1 = alerts d" "alert_rules d1 = alert_rules d" "device_refs t dev d1"
    using assms(1,3) by (auto simp: d1_def device_refs_def tenant_exists_def)
  have st1: "alert_state dev ?i d1 = (if ?D \<le> 0 then fst (alert_state dev ?i d) else Some since, snd (alert_state dev ?i d))"
    "(dev', j) \<noteq> (dev, ?i) \<Longrightarrow> alert_state dev' j d1 = alert_state dev' j d" for dev' j
    by (auto simp: alert_state_def d1_def since_def find_row_append breach_of_def split: option.splits)
  define opn where "opn = (\<exists>a \<in> set (alerts d). open_for dev ?i a)"
  define d2 where "d2 = snd (RaiseAlert t dev ?i (al_metric r) (alert_message r v) now d1)"
  have ra: "RaiseAlert t dev ?i (al_metric r) (alert_message r v) now d1 = (Inr (\<not> opn), d2)"
    unfolding d2_def using f1 i by (auto simp: RaiseAlert_def raise_alert_stmt_def Let_def opn_def)
  have f2: "faults d2 = []" "alert_breaches d2 = alert_breaches d1"
    "\<exists>a. open_for dev ?i a \<and> alerts d2 = (if opn then alerts d else alerts d @ [a])"
    unfolding d2_def using f1 i by (auto simp: RaiseAlert_def raise_alert_stmt_def Let_def opn_def open_for_def intro: exI)
  define d3 where "d3 = (if \<not> opn then emit_alert s (alertEvent s ''alert.raised'' t dev r (alert_message r v) now) d2 else d2)"
  have f3: "faults d3 = []" "alert_breaches d3 = alert_breaches d2" "alerts d3 = alerts d2"
    unfolding d3_def using f2(1) emit_alert_tables [OF assms(2)] by auto
  have st3: "alert_state dev ?i d3 = (fst (alert_state dev ?i d1), True)"
    "(dev', j) \<noteq> (dev, ?i) \<Longrightarrow> alert_state dev' j d3 = alert_state dev' j d1" for dev' j
    using f1(2) f2(2,3) f3(2,3) by (auto simp: alert_state_def opn_def open_for_def split: if_splits)
  show ?thesis
  proof (cases "?D \<le> 0 \<or> now - since \<ge> ?D * second")
    case True
    then have "evaluate_rule s t dev now r v d = (Inr (), d3)" by (simp add: evaluate_rule_def assms(5) s ra d3_def)
    moreover have "alert_state dev ?i d3 = track ?D True now (alert_state dev ?i d)"
      using True st1(1) st3(1) by (auto simp: track_def Let_def since_def alert_state_def split: option.splits)
    ultimately show ?thesis using f3(1) st1(2) st3(2) by auto
  next
    case False
    then have "evaluate_rule s t dev now r v d = (Inr (), d1)" by (simp add: evaluate_rule_def assms(5) s)
    moreover have "alert_state dev ?i d1 = track ?D True now (alert_state dev ?i d)"
      using False st1(1) by (auto simp: track_def Let_def since_def alert_state_def split: option.splits)
    ultimately show ?thesis using f1(1) st1(2) by auto
  qed
qed

lemma find_row_filter_other: "(\<And>x. P x \<Longrightarrow> Q x) \<Longrightarrow> find_row P (filter Q xs) = find_row P xs"
  by (induction xs) auto

lemma evaluate_calm:
  assumes "faults d = []" "good_alerting s" "alerting_inv d" "r \<in> set (alert_rules d)" "al_tenant r = t" "\<not> breaching (al_op r) v (al_threshold r)"
  shows "\<exists>d'. evaluate_rule s t dev now r v d = (Inr (), d') \<and> faults d' = [] \<and> alert_state dev (al_id r) d' = (None, False) \<and>
     (\<forall>dev' i. (dev', i) \<noteq> (dev, al_id r) \<longrightarrow> alert_state dev' i d' = alert_state dev' i d)"
proof -
  let ?i = "al_id r"
  have own: "owned_by d t ?i" using assms(4,5) by (auto simp: owned_by_def)
  have bt: "br_tenant b = t" if "b \<in> set (alert_breaches d)" "br_rule b = ?i" for b
    using owner_unique [OF assms(3) _ own, of "br_tenant b"] assms(3) that unfolding alerting_inv_def by metis
  have at: "at_tenant a = t" if "a \<in> set (alerts d)" "at_rule a = ?i" for a
    using owner_unique [OF assms(3) _ own, of "at_tenant a"] assms(3) that unfolding alerting_inv_def by metis
  let ?d1 = "snd (clear_breach_stmt t dev ?i d)"
  let ?d2 = "snd (resolve_alert_stmt t dev ?i now ?d1)"
  define d3 where "d3 = (if fst (resolve_alert_stmt t dev ?i now ?d1) = Inr 1
    then emit_alert s (alertEvent s ''alert.resolved'' t dev r '''' now) ?d2 else ?d2)"
  have f: "faults ?d1 = []" "faults ?d2 = []" using assms(1) by (simp_all add: clear_breach_stmt_def resolve_alert_stmt_def Let_def)
  have ev: "evaluate_rule s t dev now r v d = (Inr (), d3)"
    using f assms(1,6) by (simp add: evaluate_rule_def ClearBreach_def ResolveAlert_def d3_def clear_breach_stmt_def resolve_alert_stmt_def Let_def)
  have t: "faults d3 = []" "alert_breaches d3 = alert_breaches ?d1" "alerts d3 = alerts ?d2"
    unfolding d3_def using f emit_alert_tables [OF assms(2)] by (auto simp: resolve_alert_stmt_def Let_def)
  have b: "find_row (breach_of dev ?i) (alert_breaches ?d1) = None"
    using bt by (auto simp: find_row_None clear_breach_stmt_def breach_of_def)
  have b': "find_row (breach_of dev' j) (alert_breaches ?d1) = find_row (breach_of dev' j) (alert_breaches d)"
    if "(dev', j) \<noteq> (dev, ?i)" for dev' j
  proof -
    have "find_row (breach_of dev' j) (filter (\<lambda>b. \<not> (br_tenant b = t \<and> breach_of dev ?i b)) (alert_breaches d)) =
        find_row (breach_of dev' j) (alert_breaches d)"
      by (rule find_row_filter_other) (use that in \<open>auto simp: breach_of_def\<close>)
    then show ?thesis by (simp add: clear_breach_stmt_def del: de_Morgan_conj)
  qed
  have "open_for dev' j (if at_tenant a = t \<and> open_for dev ?i a then a\<lparr>at_resolved_at := Some now\<rparr> else a) \<longleftrightarrow>
      (dev', j) \<noteq> (dev, ?i) \<and> open_for dev' j a" if "a \<in> set (alerts d)" for a dev' j
    using at [OF that] by (auto simp: open_for_def)
  moreover have "alerts ?d2 = map (\<lambda>a. if at_tenant a = t \<and> open_for dev ?i a then a\<lparr>at_resolved_at := Some now\<rparr> else a) (alerts d)"
    by (simp add: resolve_alert_stmt_def clear_breach_stmt_def update_where_def Let_def)
  ultimately have a': "(\<exists>a \<in> set (alerts ?d2). open_for dev' j a) \<longleftrightarrow> (dev', j) \<noteq> (dev, ?i) \<and> (\<exists>a \<in> set (alerts d). open_for dev' j a)" for dev' j
    by (simp only: set_map ball_simps bex_simps) blast
  have "alert_state dev ?i d3 = (None, False)" unfolding alert_state_def t a' using b by simp
  moreover have "alert_state dev' j d3 = alert_state dev' j d" if "(dev', j) \<noteq> (dev, ?i)" for dev' j
    unfolding alert_state_def t a' b' [OF that] using that by simp
  ultimately show ?thesis using ev t(1) by blast
qed

lemma evaluate_rule_state:
  assumes "faults d = []" "good_alerting s" "alerting_inv d" "device_refs t dev d" "r \<in> set (alert_rules d)" "al_tenant r = t"
  obtains d' where "evaluate_rule s t dev now r v d = (Inr (), d')" "faults d' = []" "alert_frame d d'"
    "alert_state dev (al_id r) d' = track (al_duration_seconds r) (breaching (al_op r) v (al_threshold r)) now (alert_state dev (al_id r) d)"
    "\<And>dev' i. (dev', i) \<noteq> (dev, al_id r) \<Longrightarrow> alert_state dev' i d' = alert_state dev' i d"
proof -
  have "owned_by d t (al_id r)" using assms(5,6) by (auto simp: owned_by_def)
  note fr = evaluate_rule_frame [OF assms(2) this, of dev now v]
  show thesis
  proof (cases "breaching (al_op r) v (al_threshold r)")
    case True
    obtain d' where "evaluate_rule s t dev now r v d = (Inr (), d')" "faults d' = []"
        "alert_state dev (al_id r) d' = track (al_duration_seconds r) True now (alert_state dev (al_id r) d)"
        "\<forall>dev' i. (dev', i) \<noteq> (dev, al_id r) \<longrightarrow> alert_state dev' i d' = alert_state dev' i d"
      using evaluate_breach [OF assms(1,2,4,5) True] by blast
    then show thesis using fr True by (intro that [of d']) simp_all
  next
    case False
    obtain d' where "evaluate_rule s t dev now r v d = (Inr (), d')" "faults d' = []" "alert_state dev (al_id r) d' = (None, False)"
        "\<forall>dev' i. (dev', i) \<noteq> (dev, al_id r) \<longrightarrow> alert_state dev' i d' = alert_state dev' i d"
      using evaluate_calm [OF assms(1,2,3,5,6) False] by blast
    then show thesis using fr False by (intro that [of d']) (simp_all add: track_def)
  qed
qed

lemma evaluate_each_state:
  assumes "good_alerting s" "faults d = []" "alerting_inv d" "device_refs t dev d"
    and "\<And>r. r \<in> set rs \<Longrightarrow> r \<in> set (alert_rules d) \<and> al_tenant r = t" "distinct (map al_id rs)"
  shows "\<exists>d'. evaluate_each s t dev x now rs d = (Inr (), d') \<and> faults d' = [] \<and> alert_frame d d' \<and>
    (\<forall>dev' i. dev' \<noteq> dev \<or> i \<notin> al_id ` set rs \<longrightarrow> alert_state dev' i d' = alert_state dev' i d) \<and>
    (\<forall>r v. r \<in> set rs \<and> metricValue (al_metric r) x = Some v \<longrightarrow> alert_state dev (al_id r) d' =
       track (al_duration_seconds r) (breaching (al_op r) v (al_threshold r)) now (alert_state dev (al_id r) d))"
  using assms(2-)
proof (induction rs arbitrary: d)
  case (Cons r rs)
  show ?case
  proof (cases "metricValue (al_metric r) x")
    case None
    then show ?thesis using Cons.IH [of d] Cons.prems by fastforce
  next
    case (Some v)
    have r: "r \<in> set (alert_rules d)" "al_tenant r = t" using Cons.prems(4) by auto
    obtain d1 where d1: "evaluate_rule s t dev now r v d = (Inr (), d1)" "faults d1 = []" "alert_frame d d1"
        "alert_state dev (al_id r) d1 = track (al_duration_seconds r) (breaching (al_op r) v (al_threshold r)) now (alert_state dev (al_id r) d)"
        "\<And>dev' i. (dev', i) \<noteq> (dev, al_id r) \<Longrightarrow> alert_state dev' i d1 = alert_state dev' i d"
      using evaluate_rule_state [OF Cons.prems(1) assms(1) Cons.prems(2,3) r] by metis
    have f: "alerting_inv d1" "device_refs t dev d1" "\<And>r. r \<in> set rs \<Longrightarrow> r \<in> set (alert_rules d1) \<and> al_tenant r = t" "distinct (map al_id rs)"
      using d1(3) Cons.prems by (simp_all add: alert_frame_def device_refs_def tenant_exists_def)
    obtain d2 where d2: "evaluate_each s t dev x now rs d1 = (Inr (), d2)" "faults d2 = []" "alert_frame d1 d2"
        "\<And>dev' i. dev' \<noteq> dev \<or> i \<notin> al_id ` set rs \<Longrightarrow> alert_state dev' i d2 = alert_state dev' i d1"
        "\<And>r v. r \<in> set rs \<Longrightarrow> metricValue (al_metric r) x = Some v \<Longrightarrow> alert_state dev (al_id r) d2 =
          track (al_duration_seconds r) (breaching (al_op r) v (al_threshold r)) now (alert_state dev (al_id r) d1)"
      using Cons.IH [OF d1(2) f] by blast
    have new: "al_id r \<notin> al_id ` set rs" using Cons.prems(5) by simp
    have "alert_state dev (al_id q) d2 = track (al_duration_seconds q) (breaching (al_op q) w (al_threshold q)) now (alert_state dev (al_id q) d)"
      if "q \<in> set (r # rs)" "metricValue (al_metric q) x = Some w" for q w
    proof (cases "q = r")
      case True
      then show ?thesis using d2(4) [of dev "al_id r"] d1(4) new that Some by simp
    next
      case False
      then have q: "q \<in> set rs" "al_id q \<noteq> al_id r" using that(1) new by (auto simp: image_iff)
      then show ?thesis using d2(5) [OF q(1) that(2)] d1(5) [of dev "al_id q"] by simp
    qed
    moreover have "alert_state dev' i d2 = alert_state dev' i d" if "dev' \<noteq> dev \<or> i \<notin> al_id ` set (r # rs)" for dev' i
      using that d2(4) [of dev' i] d1(5) [of dev' i] by auto
    ultimately show ?thesis using d1(1) d2(1,2) alert_frame_trans [OF d1(3) d2(3)] Some by auto
  qed
qed simp

lemma Evaluate_state:
  assumes "good_alerting s" "faults d = []" "alerting_inv d" "device_refs t dev d"
    and "r \<in> set (alert_rules d)" "al_tenant r = t" "al_enabled r" "metricValue (al_metric r) x = Some v"
  shows "faults (snd (Evaluate s t dev x now d)) = []"
    and "alert_state dev' (al_id r) (snd (Evaluate s t dev x now d)) = (if dev' = dev
      then track (al_duration_seconds r) (breaching (al_op r) v (al_threshold r)) now (alert_state dev (al_id r) d)
      else alert_state dev' (al_id r) d)"
proof -
  let ?rs = "filter al_enabled (filter (\<lambda>r. al_tenant r = t) (alert_rules d))"
  have e: "Evaluate s t dev x now d = evaluate_each s t dev x now ?rs d"
    using assms(2) by (simp add: Evaluate_def ListEnabledAlertRules_def ListAlertRules_def)
  have "distinct (map al_id ?rs)" using assms(3) by (simp add: alerting_inv_def distinct_map_filter)
  note ev = evaluate_each_state [OF assms(1-4) _ this, of x now]
  have "r \<in> set ?rs" using assms(5-7) by simp
  then show "faults (snd (Evaluate s t dev x now d)) = []"
    "alert_state dev' (al_id r) (snd (Evaluate s t dev x now d)) = (if dev' = dev
      then track (al_duration_seconds r) (breaching (al_op r) v (al_threshold r)) now (alert_state dev (al_id r) d)
      else alert_state dev' (al_id r) d)"
    using ev assms(8) unfolding e by fastforce+
qed

text \<open>Samples of a tenant's devices evaluated one after the other.\<close>

definition evaluate_all :: "alert_service \<Rightarrow> uuid \<Rightarrow> (uuid \<times> sample \<times> time) list \<Rightarrow> db \<Rightarrow> db" where
  "evaluate_all s t = fold (\<lambda>(dev, x, now) d. snd (Evaluate s t dev x now d))"

definition breaches :: "alert_rule_row \<Rightarrow> sample \<times> time \<Rightarrow> bool" where
  "breaches r e \<longleftrightarrow> (case metricValue (al_metric r) (fst e) of None \<Rightarrow> False | Some v \<Rightarrow> breaching (al_op r) v (al_threshold r))"

definition own_samples :: "uuid \<Rightarrow> (uuid \<times> sample \<times> time) list \<Rightarrow> (sample \<times> time) list" where
  "own_samples dev es = map snd (filter (\<lambda>e. fst e = dev) es)"

text \<open>The samples of the breach that is going on, newest first; its last element is the first sample.\<close>

definition streak :: "alert_rule_row \<Rightarrow> (sample \<times> time) list \<Rightarrow> (sample \<times> time) list" where
  "streak r es = takeWhile (breaches r) (rev es)"

lemma evaluate_all_state:
  assumes "good_alerting s" "al_metric r \<in> {''cpu'', ''mem'', ''disk''}" "al_tenant r = t" "al_enabled r"
    and "faults d = []" "alerting_inv d" "r \<in> set (alert_rules d)" "\<And>e. e \<in> set es \<Longrightarrow> device_refs t (fst e) d"
  shows "alert_state dev (al_id r) (evaluate_all s t es d) =
    fold (\<lambda>e. track (al_duration_seconds r) (breaches r e) (snd e)) (own_samples dev es) (alert_state dev (al_id r) d)"
  using assms(5-)
proof (induction es arbitrary: d)
  case (Cons e es)
  obtain dev' x now where e: "e = (dev', x, now)" by (cases e) auto
  obtain v where v: "metricValue (al_metric r) x = Some v" using assms(2) by (auto simp: metricValue_def)
  let ?d = "snd (Evaluate s t dev' x now d)"
  have dr: "device_refs t dev' d" using Cons.prems(4) [of e] e by simp
  note ev = Evaluate_state [OF assms(1) Cons.prems(1,2) dr Cons.prems(3) assms(3,4) v, where now = now]
  have fr: "alert_frame d ?d" by (rule Evaluate_frame [OF assms(1)])
  have "alert_state dev (al_id r) (evaluate_all s t es ?d) =
      fold (\<lambda>e. track (al_duration_seconds r) (breaches r e) (snd e)) (own_samples dev es) (alert_state dev (al_id r) ?d)"
    using fr Cons.prems by (intro Cons.IH ev(1)) (auto simp: alert_frame_def device_refs_def tenant_exists_def)
  then show ?case using ev(2) [where dev' = dev] v by (auto simp: evaluate_all_def own_samples_def e breaches_def)
qed (simp add: evaluate_all_def own_samples_def)

lemma track_streak:
  "fold (\<lambda>e. track D (breaches r e) (snd e)) es (None, False) =
     (if D \<le> 0 \<or> streak r es = [] then None else Some (snd (last (streak r es))),
      \<exists>e \<in> set (streak r es). D \<le> 0 \<or> snd e - snd (last (streak r es)) \<ge> D * second)"
proof (induction es rule: rev_induct)
  case (snoc e es)
  then show ?case by (cases "breaches r e"; cases "streak r es = []") (auto simp: track_def Let_def streak_def)
qed (simp add: streak_def)

text \<open>
  C21: an alert is open exactly while its condition is sustained. Take an enabled rule and a device without
  a breach or open alert for it, and let any samples of the tenant's devices be evaluated in turn, with
  the database up. Afterwards the device's alert is open if and only if the device's newest samples
  breach the threshold without interruption and one of them came at least the rule's duration
  after the first (at once for duration zero). Other devices, other rules and notifications do not matter.
\<close>

theorem alert_open_iff_sustained:
  assumes "good_alerting s" "al_metric r \<in> {''cpu'', ''mem'', ''disk''}" "al_tenant r = t" "al_enabled r"
    and "faults d = []" "alerting_inv d" "r \<in> set (alert_rules d)" "\<And>e. e \<in> set es \<Longrightarrow> device_refs t (fst e) d"
    and "alert_state dev (al_id r) d = (None, False)"
  shows "(\<exists>a \<in> set (alerts (evaluate_all s t es d)). open_for dev (al_id r) a) \<longleftrightarrow>
    (\<exists>e \<in> set (streak r (own_samples dev es)). al_duration_seconds r \<le> 0 \<or>
       snd e - snd (last (streak r (own_samples dev es))) \<ge> al_duration_seconds r * second)"
proof -
  have "snd (alert_state dev (al_id r) (evaluate_all s t es d)) \<longleftrightarrow>
      (\<exists>e \<in> set (streak r (own_samples dev es)). al_duration_seconds r \<le> 0 \<or>
       snd e - snd (last (streak r (own_samples dev es))) \<ge> al_duration_seconds r * second)"
    by (simp add: evaluate_all_state [OF assms(1-8)] assms(9) track_streak)
  then show ?thesis by (simp add: alert_state_def)
qed

definition cpu_rule :: alert_rule_row where
  "cpu_rule = \<lparr>al_id = 5, al_tenant = 7, al_name = ''cpu high'', al_metric = ''cpu'', al_op = ''gt'', al_threshold = 90,
     al_duration_seconds = 60, al_enabled = True\<rparr>"

definition cpu_sample :: "rat \<Rightarrow> sample" where
  "cpu_sample c = \<lparr>sa_at = 0, sa_cpu = c, sa_mem = 0, sa_disk = 0\<rparr>"

definition watched_fleet :: db where
  "watched_fleet = empty_db\<lparr>tenants := [\<lparr>tn_id = 7, tn_name = ''t'', tn_suspended = False\<rparr>], alert_rules := [cpu_rule],
     devices := [\<lparr>dv_id = 3, dv_tenant = 7, dv_hostname = ''pc'', dv_machine_guid = '''', dv_group = None, dv_cert_serial = '''',
       dv_cert_expires_at = 0, dv_os_build = '''', dv_agent_version = '''', dv_ips = [], dv_user = '''', dv_uptime = 0,
       dv_last_seen = None, dv_clean_shutdown = False, dv_revoked = False, dv_policy_version = '''', dv_asr_available = None, dv_enrolled_at = 0\<rparr>]\<rparr>"

definition cpu_history :: "(uuid \<times> sample \<times> time) list" where
  "cpu_history = [(3, cpu_sample 99, 0), (3, cpu_sample 20, 30 * second), (3, cpu_sample 95, 60 * second), (3, cpu_sample 96, 120 * second)]"

theorem alert_open_iff_sustained_witness:
  "(\<exists>a \<in> set (alerts (evaluate_all quiet_alerting 7 cpu_history watched_fleet)). open_for 3 5 a) \<and>
   \<not> (\<exists>a \<in> set (alerts (evaluate_all quiet_alerting 7 (take 3 cpu_history) watched_fleet)). open_for 3 5 a)"
proof -
  have g: "good_alerting quiet_alerting" by (simp add: good_alerting_def quiet_alerting_def)
  have f: "faults watched_fleet = []" "alerting_inv watched_fleet" "cpu_rule \<in> set (alert_rules watched_fleet)"
    "alert_state 3 (al_id cpu_rule) watched_fleet = (None, False)"
    by (simp_all add: watched_fleet_def alerting_inv_def alert_state_def)
  have r: "al_metric cpu_rule \<in> {''cpu'', ''mem'', ''disk''}" "al_tenant cpu_rule = 7" "al_enabled cpu_rule" "al_id cpu_rule = 5"
    by (simp_all add: cpu_rule_def)
  have d: "device_refs 7 (fst e) watched_fleet" if "e \<in> set cpu_history" for e
    using that by (auto simp: cpu_history_def device_refs_def tenant_exists_def watched_fleet_def)
  have d3: "device_refs 7 (fst e) watched_fleet" if "e \<in> set (take 3 cpu_history)" for e
    using d in_set_takeD [OF that] by blast
  have s: "streak cpu_rule (own_samples 3 cpu_history) = [(cpu_sample 96, 120 * second), (cpu_sample 95, 60 * second)]"
    "streak cpu_rule (own_samples 3 (take 3 cpu_history)) = [(cpu_sample 95, 60 * second)]"
    by (simp_all add: cpu_history_def own_samples_def streak_def breaches_def metricValue_def breaching_def cpu_rule_def cpu_sample_def numeral_3_eq_3)
  show ?thesis
    using alert_open_iff_sustained [where es = cpu_history, OF g r(1-3) f(1-3) _ f(4)] d
      alert_open_iff_sustained [where es = "take 3 cpu_history", OF g r(1-3) f(1-3) _ f(4)] d3
    unfolding s r(4) by (simp add: cpu_rule_def second_def)
qed

end
