(* ===== verification/Containment.thy ===== *)
theory Containment
  imports Ringfence "HOL-Library.AList" "HOL-Library.Sublist"
begin

text \<open>
  The agent's side of ringfences: reconciling firewall rules and attack-surface-reduction
  values with the assigned ringfence, and reading violations from the event logs
  (\<^verbatim>\<open>internal/agent/ringfence\<close>: \<^verbatim>\<open>ringfence.go\<close>, \<^verbatim>\<open>parse.go\<close>, \<^verbatim>\<open>ringfence_windows.go\<close>),
  driven by \<^verbatim>\<open>syncRingfence\<close> (\<^verbatim>\<open>internal/agent/runner/runner.go\<close>). The machine (netsh, the
  registry, wevtutil, PowerShell, the clock), XML decoding and RFC 3339 are parameters; what the
  theorems rely on is stated as \<open>host_laws\<close>.
\<close>

section \<open>Data\<close>

record program =
  pg_path :: string
  pg_blocked :: bool

record protection =
  pt_rule :: string
  pt_action :: string

record ringfence =
  rg_version :: string
  rg_mode :: string
  rg_programs :: "program list"
  rg_protections :: "protection list"

record violation =
  vi_kind :: string
  vi_program :: string
  vi_detail :: string
  vi_enforced :: bool
  vi_at :: time

record rf_status =
  rs_applied :: string
  rs_asr :: bool

definition no_ringfence :: ringfence where
  "no_ringfence = \<lparr>rg_version = [], rg_mode = [], rg_programs = [], rg_protections = []\<rparr>"

definition RulePrefix :: string where
  "RulePrefix = ''FreeLocker-RF-''"

definition CuratedASRRules :: "string list" where
  "CuratedASRRules =
    [''D4F940AB-401B-4EFC-AADC-AD5F3C50688A'', ''3B576869-A4EC-4529-8536-B80A7769E899'',
     ''D3E037E1-3EB8-44C8-A917-57927947596D'', ''5BEB7EFE-FD9A-4556-801D-275E5FFC04CC'',
     ''92E97FA1-2EDF-4476-BDD6-9DD0B4DDDC7B'', ''D1E49AAC-8F56-4280-B9BA-993A6D77406C'']"

text \<open>A Go map is an association list with distinct keys; ranging over it is in any order.\<close>

definition StaleASRValues :: "string list \<Rightarrow> (string \<times> string) list \<Rightarrow> string list" where
  "StaleASRValues present want =
     filter (\<lambda>n. ToUpper n \<in> set CuratedASRRules \<and> map_of want (ToUpper n) = None) present"

definition RuleName :: "(bytes \<Rightarrow> bytes) \<Rightarrow> string \<Rightarrow> string" where
  "RuleName sha256 path = RulePrefix @ take 16 (hex_encode (sha256 path))"

text \<open>\<open>ranged\<close> is the map's entries in the order they are ranged over.\<close>

definition Diff :: "string list \<Rightarrow> (string \<times> program) list \<Rightarrow> (string \<times> program) list \<Rightarrow> program list \<times> string list" where
  "Diff existing desired ranged =
     (map snd (filter (\<lambda>(name, p). pg_blocked p \<and> name \<notin> set existing) ranged),
      filter (\<lambda>n. case map_of desired n of None \<Rightarrow> True | Some p \<Rightarrow> \<not> pg_blocked p) existing)"

section \<open>The machine\<close>

text \<open>An event of the Windows log, as decoded from XML.\<close>

record evt =
  evt_id :: int
  evt_record :: int
  evt_time :: string
  evt_data :: "(string \<times> string) list"

record 'h host =
  ho_show :: "'h \<Rightarrow> string option"
  ho_delete :: "string \<Rightarrow> 'h \<Rightarrow> bool \<times> 'h"
  ho_add :: "string \<Rightarrow> string \<Rightarrow> 'h \<Rightarrow> bool \<times> 'h"
  ho_auditpol :: "'h \<Rightarrow> 'h"
  ho_create_key :: "'h \<Rightarrow> bool \<times> 'h"
  ho_value_names :: "'h \<Rightarrow> string list option"
  ho_delete_value :: "string \<Rightarrow> 'h \<Rightarrow> bool \<times> 'h"
  ho_set_value :: "string \<Rightarrow> nat \<Rightarrow> 'h \<Rightarrow> bool \<times> 'h"
  ho_defender :: "'h \<Rightarrow> bool"
  ho_qe :: "string \<Rightarrow> string \<Rightarrow> nat \<Rightarrow> 'h \<Rightarrow> bytes option"
  ho_volumes :: "'h \<Rightarrow> (string \<times> string) list"
  ho_now :: "'h \<Rightarrow> time"
  ho_unmarshal :: "bytes \<Rightarrow> bool \<times> evt list"
  ho_parse_time :: "string \<Rightarrow> time option"
  ho_sha256 :: "bytes \<Rightarrow> bytes"
  ho_range_programs :: "(string \<times> program) list \<Rightarrow> (string \<times> program) list"
  ho_range_values :: "(string \<times> string) list \<Rightarrow> (string \<times> string) list"

text \<open>WinEnforcer. The agent's images are stored in lower case.\<close>

record enforcer =
  en_images :: "string list"
  en_applied :: string
  en_last :: ringfence
  en_sec :: int
  en_def :: int
  en_defender :: bool
  en_defender_at :: time

definition Default :: "string list \<Rightarrow> enforcer" where
  "Default images = \<lparr>en_images = map ToLower images, en_applied = [], en_last = no_ringfence, en_sec = 0, en_def = 0,
     en_defender = False, en_defender_at = 0\<rparr>"

definition EqualFold :: "string \<Rightarrow> string \<Rightarrow> bool" where
  "EqualFold a b \<longleftrightarrow> ToLower a = ToLower b"

text \<open>\<open>split_at\<close> is \<^verbatim>\<open>strings.Split\<close> on one byte, \<open>index_of\<close> is \<^verbatim>\<open>strings.Index\<close>.\<close>

fun split_at :: "char \<Rightarrow> string \<Rightarrow> string list" where
  "split_at c [] = [[]]"
| "split_at c (x # xs) = (if x = c then [] # split_at c xs
     else case split_at c xs of [] \<Rightarrow> [[x]] | l # ls \<Rightarrow> (x # l) # ls)"

fun from_index :: "string \<Rightarrow> string \<Rightarrow> string option" where
  "from_index sub [] = (if sub = [] then Some [] else None)"
| "from_index sub (x # xs) = (if prefix sub (x # xs) then Some (x # xs) else from_index sub xs)"

definition owned_names :: "string \<Rightarrow> string list" where
  "owned_names out = concat (map (\<lambda>line. case from_index RulePrefix line of None \<Rightarrow> [] | Some l \<Rightarrow> [TrimSpace l]) (split_at LF out))"

definition existingRules :: "'h host \<Rightarrow> 'h \<Rightarrow> string list" where
  "existingRules H h = (case ho_show H h of None \<Rightarrow> [] | Some out \<Rightarrow> owned_names out)"

text \<open>A failed deletion is logged and the loop goes on; a failed addition ends it.\<close>

fun delete_rules :: "'h host \<Rightarrow> string list \<Rightarrow> 'h \<Rightarrow> 'h" where
  "delete_rules H [] h = h"
| "delete_rules H (n # ns) h = delete_rules H ns (snd (ho_delete H n h))"

fun add_blocks :: "'h host \<Rightarrow> program list \<Rightarrow> 'h \<Rightarrow> bool \<times> 'h" where
  "add_blocks H [] h = (True, h)"
| "add_blocks H (p # ps) h = (case ho_add H (RuleName (ho_sha256 H) (pg_path p)) (pg_path p) h of
     (True, h1) \<Rightarrow> add_blocks H ps h1 | (False, h1) \<Rightarrow> (False, h1))"

definition desired_rules :: "(bytes \<Rightarrow> bytes) \<Rightarrow> ringfence \<Rightarrow> (string \<times> program) list" where
  "desired_rules sha256 r =
     (if rg_mode r = ''enforce'' then fold (\<lambda>p m. AList.update (RuleName sha256 (pg_path p)) p m) (rg_programs r) [] else [])"

definition applyNetwork :: "'h host \<Rightarrow> ringfence \<Rightarrow> 'h \<Rightarrow> bool \<times> 'h" where
  "applyNetwork H r h =
     (let desired = desired_rules (ho_sha256 H) r; (add, remove) = Diff (existingRules H h) desired (ho_range_programs H desired);
          h1 = delete_rules H remove h
      in case add_blocks H add h1 of (False, h2) \<Rightarrow> (False, h2) | (True, h2) \<Rightarrow> (True, ho_auditpol H h2))"

fun delete_values :: "'h host \<Rightarrow> string list \<Rightarrow> 'h \<Rightarrow> bool \<times> 'h" where
  "delete_values H [] h = (True, h)"
| "delete_values H (n # ns) h = (case ho_delete_value H n h of (True, h1) \<Rightarrow> delete_values H ns h1 | (False, h1) \<Rightarrow> (False, h1))"

definition asr_dword :: "string \<Rightarrow> nat" where
  "asr_dword action = (if action = ''audit'' then 2 else 1)"

fun set_values :: "'h host \<Rightarrow> (string \<times> string) list \<Rightarrow> 'h \<Rightarrow> bool \<times> 'h" where
  "set_values H [] h = (True, h)"
| "set_values H ((guid, action) # xs) h = (case ho_set_value H guid (asr_dword action) h of
     (True, h1) \<Rightarrow> set_values H xs h1 | (False, h1) \<Rightarrow> (False, h1))"

definition wanted_values :: "ringfence \<Rightarrow> (string \<times> string) list" where
  "wanted_values r = fold (\<lambda>p m. AList.update (ToUpper (pt_rule p)) (pt_action p) m) (rg_protections r) []"

definition applyASR :: "'h host \<Rightarrow> ringfence \<Rightarrow> 'h \<Rightarrow> bool \<times> 'h" where
  "applyASR H r h = (case ho_create_key H h of
       (False, h1) \<Rightarrow> (False, h1)
     | (True, h1) \<Rightarrow> (case ho_value_names H h1 of
         None \<Rightarrow> (False, h1)
       | Some names \<Rightarrow> (case delete_values H (StaleASRValues names (wanted_values r)) h1 of
           (False, h2) \<Rightarrow> (False, h2)
         | (True, h2) \<Rightarrow> set_values H (ho_range_values H (wanted_values r)) h2)))"

definition Apply :: "'h host \<Rightarrow> ringfence \<Rightarrow> enforcer \<times> 'h \<Rightarrow> bool \<times> enforcer \<times> 'h" where
  "Apply H r s = (case s of (e, h) \<Rightarrow>
     if en_applied e = rg_version r \<and> rg_version r \<noteq> [] then (True, e, h)
     else if (\<exists>p \<in> set (rg_programs r). \<exists>self \<in> set (en_images e). EqualFold (pg_path p) self) then (False, e, h)
     else case applyNetwork H r h of
         (False, h1) \<Rightarrow> (False, e, h1)
       | (True, h1) \<Rightarrow> (case applyASR H r h1 of
           (False, h2) \<Rightarrow> (False, e, h2)
         | (True, h2) \<Rightarrow> (True, e\<lparr>en_applied := rg_version r, en_last := r\<rparr>, h2)))"

section \<open>Reading violations\<close>

definition evt_field :: "evt \<Rightarrow> string \<Rightarrow> string" where
  "evt_field e name = (case map_of (evt_data e) name of None \<Rightarrow> [] | Some v \<Rightarrow> TrimSpace v)"

text \<open>
  \<open>unmarshal\<close> gives whether decoding succeeded and the events it decoded. The second decoding
  appends to what the first one left in the list.
\<close>

definition parseEvents :: "(bytes \<Rightarrow> bool \<times> evt list) \<Rightarrow> bytes \<Rightarrow> evt list option" where
  "parseEvents unmarshal raw = (let (ok, l) = unmarshal raw in
     if ok \<and> l \<noteq> [] then Some l
     else let (ok', l') = unmarshal (''<Events>'' @ raw @ ''</Events>'') in if ok' then Some (l @ l') else None)"

definition eventTime :: "(string \<Rightarrow> time option) \<Rightarrow> time \<Rightarrow> string \<Rightarrow> time" where
  "eventTime parse_time now raw = (if raw = [] then now else case parse_time raw of Some t \<Rightarrow> t | None \<Rightarrow> now)"

fun join :: "string \<Rightarrow> string list \<Rightarrow> string" where
  "join sep [] = []"
| "join sep [x] = x"
| "join sep (x # y # ys) = x @ sep @ join sep (y # ys)"

definition EventQuery :: "int list \<Rightarrow> int \<Rightarrow> string" where
  "EventQuery eventIDs afterRecordID =
     (let idExpr = join '' or '' (map (\<lambda>i. ''EventID='' @ show_int i) eventIDs) in
      if afterRecordID > 0 then ''*[System[('' @ idExpr @ '') and (EventRecordID>'' @ show_int afterRecordID @ '')]]''
      else ''*[System[('' @ idExpr @ '')]]'')"

definition max_record :: "evt list \<Rightarrow> int" where
  "max_record evts = fold (\<lambda>e m. if evt_record e > m then evt_record e else m) evts 0"

definition MaxRecordID :: "(bytes \<Rightarrow> bool \<times> evt list) \<Rightarrow> bytes \<Rightarrow> int option" where
  "MaxRecordID unmarshal raw = map_option max_record (parseEvents unmarshal raw)"

text \<open>The regular expression that splits off the volume of a device path.\<close>

definition device_prefix :: string where
  "device_prefix = [BSL] @ ''device'' @ [BSL]"

definition devicePath :: "string \<Rightarrow> (string \<times> string) option" where
  "devicePath p = (if prefix device_prefix p
     then let rest = drop (length device_prefix) p; vol = takeWhile (\<lambda>c. c \<noteq> BSL) rest
          in if vol = [] then None else Some (vol, dropWhile (\<lambda>c. c \<noteq> BSL) rest)
     else None)"

definition resolveAppPath :: "string \<Rightarrow> (string \<times> string) list \<Rightarrow> string option" where
  "resolveAppPath raw volumes = (let p = ToLower (TrimSpace raw) in
     if p = [] then None
     else case devicePath p of
         None \<Rightarrow> Some p
       | Some (vol, rest) \<Rightarrow> map_option (\<lambda>letter. letter @ rest) (map_of volumes vol))"

definition wfp_violation :: "'h host \<Rightarrow> 'h \<Rightarrow> string list \<Rightarrow> evt \<Rightarrow> violation list" where
  "wfp_violation H h ringfenced e =
     (if evt_id e \<noteq> 5156 \<and> evt_id e \<noteq> 5157 then []
      else case resolveAppPath (evt_field e ''Application'') (ho_volumes H h) of
          None \<Rightarrow> []
        | Some app \<Rightarrow> if app \<notin> set ringfenced then []
            else [\<lparr>vi_kind = ''network'', vi_program = app, vi_detail = evt_field e ''DestAddress'' @ '':'' @ evt_field e ''DestPort'',
                   vi_enforced = (evt_id e = 5157), vi_at = eventTime (ho_parse_time H) (ho_now H h) (evt_time e)\<rparr>])"

definition ParseWFP :: "'h host \<Rightarrow> 'h \<Rightarrow> bytes \<Rightarrow> string list \<Rightarrow> violation list option" where
  "ParseWFP H h raw ringfenced = map_option (\<lambda>evts. concat (map (wfp_violation H h ringfenced) evts)) (parseEvents (ho_unmarshal H) raw)"

definition asr_violation :: "'h host \<Rightarrow> 'h \<Rightarrow> evt \<Rightarrow> violation list" where
  "asr_violation H h e =
     (if evt_id e \<noteq> 1121 \<and> evt_id e \<noteq> 1122 then []
      else [\<lparr>vi_kind = ''child_process'', vi_program = evt_field e ''Path'',
             vi_detail = ''ASR '' @ evt_field e ''ID'' @ '': '' @ evt_field e ''ProcessName'',
             vi_enforced = (evt_id e = 1121), vi_at = eventTime (ho_parse_time H) (ho_now H h) (evt_time e)\<rparr>])"

definition ParseDefenderASR :: "'h host \<Rightarrow> 'h \<Rightarrow> bytes \<Rightarrow> violation list option" where
  "ParseDefenderASR H h raw = map_option (\<lambda>evts. concat (map (asr_violation H h) evts)) (parseEvents (ho_unmarshal H) raw)"

definition dedupe_key :: "violation \<Rightarrow> string" where
  "dedupe_key x = vi_kind x @ ''|'' @ vi_program x @ ''|'' @ vi_detail x"

text \<open>The loop of Dedupe: the keys seen, the batch so far.\<close>

fun dedupe_loop :: "nat \<Rightarrow> violation list \<Rightarrow> string list \<Rightarrow> violation list \<Rightarrow> violation list" where
  "dedupe_loop cap [] seen out = out"
| "dedupe_loop cap (x # xs) seen out =
     (if dedupe_key x \<in> set seen then dedupe_loop cap xs seen out
      else if length (out @ [x]) = cap then out @ [x]
      else dedupe_loop cap xs (dedupe_key x # seen) (out @ [x]))"

definition Dedupe :: "violation list \<Rightarrow> nat \<Rightarrow> violation list" where
  "Dedupe v cap = dedupe_loop cap v [] []"

text \<open>One log: the query, the violations it yields and the new watermark.\<close>

definition poll_log :: "'h host \<Rightarrow> 'h \<Rightarrow> string \<Rightarrow> int list \<Rightarrow> nat \<Rightarrow> (bytes \<Rightarrow> violation list option) \<Rightarrow> int \<Rightarrow> violation list \<times> int" where
  "poll_log H h channel ids c parse wm = (case ho_qe H channel (EventQuery ids wm) c h of
       None \<Rightarrow> ([], wm)
     | Some raw \<Rightarrow> (case parse raw of None \<Rightarrow> [] | Some v \<Rightarrow> v,
         case MaxRecordID (ho_unmarshal H) raw of None \<Rightarrow> wm | Some m \<Rightarrow> if m > wm then m else wm))"

definition ringfenced_paths :: "ringfence \<Rightarrow> string list" where
  "ringfenced_paths r = map (\<lambda>p. ToLower (pg_path p)) (filter pg_blocked (rg_programs r))"

definition wfp_id :: "ringfence \<Rightarrow> int" where
  "wfp_id r = (if rg_mode r = ''enforce'' then 5157 else 5156)"

definition defender_log :: string where
  "defender_log = ''Microsoft-Windows-Windows Defender/Operational''"

definition Violations :: "'h host \<Rightarrow> enforcer \<times> 'h \<Rightarrow> violation list \<times> enforcer \<times> 'h" where
  "Violations H s = (case s of (e, h) \<Rightarrow>
     let r = en_last e in
     if rg_version r = [] then ([], e, h)
     else let (v1, secWM) = poll_log H h ''Security'' [wfp_id r] 500 (\<lambda>raw. ParseWFP H h raw (ringfenced_paths r)) (en_sec e);
              (v2, defWM) = poll_log H h defender_log [1121, 1122] 200 (ParseDefenderASR H h) (en_def e)
          in (Dedupe (v1 @ v2) 200, e\<lparr>en_sec := secWM, en_def := defWM\<rparr>, h))"

definition defenderStatusTTL :: duration where "defenderStatusTTL = 3 * minute"

definition Status_rf :: "'h host \<Rightarrow> enforcer \<times> 'h \<Rightarrow> rf_status \<times> enforcer" where
  "Status_rf H s = (case s of (e, h) \<Rightarrow>
     let e' = (if ho_now H h - en_defender_at e > defenderStatusTTL
               then e\<lparr>en_defender := ho_defender H h, en_defender_at := ho_now H h\<rparr> else e)
     in (\<lparr>rs_applied = en_applied e', rs_asr = en_defender e'\<rparr>, e'))"

section \<open>The runner\<close>

text \<open>
  syncRingfence. \<open>resp\<close> is the server's answer (None when the call fails), \<open>ack\<close> whether the
  report is accepted. The result is the report that is sent, if any, and the new state: the
  enforcer, the machine and the availability last reported.
\<close>

definition syncRingfence ::
  "'h host \<Rightarrow> ringfence option \<Rightarrow> bool \<Rightarrow> (enforcer \<times> 'h) \<times> bool option \<Rightarrow> (bool \<times> violation list) option \<times> (enforcer \<times> 'h) \<times> bool option" where
  "syncRingfence H resp ack s = (case s of ((e, h), asrReported) \<Rightarrow> (case resp of
       None \<Rightarrow> (None, (e, h), asrReported)
     | Some desired \<Rightarrow>
         (let (st, e1) = Status_rf H (e, h);
              (st', e2, h2) = (if rg_version desired \<noteq> rs_applied st
                 then let (_, e', h') = Apply H desired (e1, h); (st', e'') = Status_rf H (e', h') in (st', e'', h')
                 else (st, e1, h));
              (vs, e3, h3) = Violations H (e2, h2);
              asr = rs_asr st'
          in if vs = [] \<and> asrReported = Some asr then (None, (e3, h3), asrReported)
             else (Some (asr, vs), (e3, h3), if ack then Some asr else asrReported))))"

section \<open>What the machine promises\<close>

text \<open>
  \<open>R\<close> is the set of firewall rules (name and program) and \<open>V\<close> the values of the ASR key by
  upper-case name: registry names are case-insensitive. A listing names exactly the rules
  that carry the prefix; a successful call has its effect and nothing else; a failed call
  has none; a range visits every entry.
\<close>

definition owned :: "string \<times> string \<Rightarrow> bool" where
  "owned x \<longleftrightarrow> prefix RulePrefix (fst x)"

definition host_laws :: "'h host \<Rightarrow> ('h \<Rightarrow> (string \<times> string) set) \<Rightarrow> ('h \<Rightarrow> string \<Rightarrow> nat option) \<Rightarrow> bool" where
  "host_laws H R V \<longleftrightarrow>
     (\<forall>h out. ho_show H h = Some out \<longrightarrow> set (owned_names out) = fst ` {x \<in> R h. owned x}) \<and>
     (\<forall>n h ok h'. ho_delete H n h = (ok, h') \<longrightarrow> R h' = (if ok then {x \<in> R h. fst x \<noteq> n} else R h) \<and> V h' = V h) \<and>
     (\<forall>n p h ok h'. ho_add H n p h = (ok, h') \<longrightarrow> R h' = (if ok then insert (n, p) (R h) else R h) \<and> V h' = V h) \<and>
     (\<forall>h. R (ho_auditpol H h) = R h \<and> V (ho_auditpol H h) = V h) \<and>
     (\<forall>h ok h'. ho_create_key H h = (ok, h') \<longrightarrow> R h' = R h \<and> V h' = V h) \<and>
     (\<forall>h ns. ho_value_names H h = Some ns \<longrightarrow> ToUpper ` set ns = dom (V h)) \<and>
     (\<forall>n h ok h'. ho_delete_value H n h = (ok, h') \<longrightarrow> R h' = R h \<and> V h' = (if ok then (V h)(ToUpper n := None) else V h)) \<and>
     (\<forall>n v h ok h'. ho_set_value H n v h = (ok, h') \<longrightarrow> R h' = R h \<and> V h' = (if ok then (V h)(ToUpper n \<mapsto> v) else V h)) \<and>
     (\<forall>xs. set (ho_range_programs H xs) = set xs) \<and> (\<forall>xs. set (ho_range_values H xs) = set xs)"

lemma host_lawsD:
  assumes "host_laws H R V"
  shows "ho_show H h = Some out \<Longrightarrow> set (owned_names out) = fst ` {x \<in> R h. owned x}"
    and "ho_delete H n h = (ok, h') \<Longrightarrow> R h' = (if ok then {x \<in> R h. fst x \<noteq> n} else R h) \<and> V h' = V h"
    and "ho_add H n p h = (ok, h') \<Longrightarrow> R h' = (if ok then insert (n, p) (R h) else R h) \<and> V h' = V h"
    and "R (ho_auditpol H h) = R h" "V (ho_auditpol H h) = V h"
    and "ho_create_key H h = (ok, h') \<Longrightarrow> R h' = R h \<and> V h' = V h"
    and "ho_value_names H h = Some ns \<Longrightarrow> ToUpper ` set ns = dom (V h)"
    and "ho_delete_value H n h = (ok, h') \<Longrightarrow> R h' = R h \<and> V h' = (if ok then (V h)(ToUpper n := None) else V h)"
    and "ho_set_value H n v h = (ok, h') \<Longrightarrow> R h' = R h \<and> V h' = (if ok then (V h)(ToUpper n \<mapsto> v) else V h)"
    and "set (ho_range_programs H xs) = set xs" "set (ho_range_values H ys) = set ys"
  using assms unfolding host_laws_def by (simp_all; blast)+

text \<open>Rules that exist can be deleted.\<close>

definition deletable :: "'h host \<Rightarrow> ('h \<Rightarrow> (string \<times> string) set) \<Rightarrow> bool" where
  "deletable H R \<longleftrightarrow> (\<forall>n h. n \<in> fst ` R h \<longrightarrow> fst (ho_delete H n h))"

lemma delete_rules_mono:
  assumes "host_laws H R V"
  shows "R (delete_rules H ns h) \<subseteq> R h \<and> V (delete_rules H ns h) = V h"
proof (induction ns arbitrary: h)
  case (Cons n ns)
  obtain ok h1 where d: "ho_delete H n h = (ok, h1)" by fastforce
  show ?case using Cons [of h1] host_lawsD(2) [OF assms d] by (cases ok) (auto simp: d)
qed simp

lemma delete_rules_effect:
  assumes "host_laws H R V" "deletable H R"
  shows "R (delete_rules H ns h) = {x \<in> R h. fst x \<notin> set ns}"
proof (induction ns arbitrary: h)
  case (Cons n ns)
  obtain ok h1 where d: "ho_delete H n h = (ok, h1)" by fastforce
  have "\<not> ok \<Longrightarrow> n \<notin> fst ` R h" using assms(2) d unfolding deletable_def by (metis fst_conv)
  then show ?case using Cons [of h1] host_lawsD(2) [OF assms(1) d] by (cases ok) (auto simp: d)
qed simp

lemma add_blocks_effect:
  assumes "host_laws H R V" "add_blocks H ps h = (ok, h')"
  shows "R h \<subseteq> R h' \<and> R h' \<subseteq> R h \<union> (\<lambda>p. (RuleName (ho_sha256 H) (pg_path p), pg_path p)) ` set ps \<and> V h' = V h \<and>
    (ok \<longrightarrow> R h' = R h \<union> (\<lambda>p. (RuleName (ho_sha256 H) (pg_path p), pg_path p)) ` set ps)"
  using assms(2)
proof (induction ps arbitrary: h)
  case (Cons p ps)
  obtain b h1 where a: "ho_add H (RuleName (ho_sha256 H) (pg_path p)) (pg_path p) h = (b, h1)" by fastforce
  note e = host_lawsD(3) [OF assms(1) a]
  show ?case using Cons(1) [of h1] Cons(2) a e by (cases b) auto
qed simp

lemma delete_values_effect:
  assumes "host_laws H R V" "delete_values H ns h = (True, h')"
  shows "R h' = R h \<and> V h' = (\<lambda>k. if k \<in> ToUpper ` set ns then None else V h k)"
  using assms(2)
proof (induction ns arbitrary: h)
  case (Cons n ns)
  obtain b h1 where a: "ho_delete_value H n h = (b, h1)" by fastforce
  note e = host_lawsD(8) [OF assms(1) a]
  show ?case using Cons(1) [of h1] Cons(2) a e by (cases b) (auto simp: fun_eq_iff)
qed simp

lemma delete_values_rules:
  assumes "host_laws H R V" "delete_values H ns h = (ok, h')"
  shows "R h' = R h"
  using assms(2)
proof (induction ns arbitrary: h)
  case (Cons n ns)
  obtain b h1 where a: "ho_delete_value H n h = (b, h1)" by fastforce
  show ?case using Cons(1) [of h1] Cons(2) host_lawsD(8) [OF assms(1) a] by (cases b) (auto simp: a)
qed simp

lemma set_values_rules:
  assumes "host_laws H R V" "set_values H xs h = (ok, h')"
  shows "R h' = R h"
  using assms(2)
proof (induction xs arbitrary: h)
  case (Cons x xs)
  obtain g v where x: "x = (g, v)" by fastforce
  obtain b h1 where a: "ho_set_value H g (asr_dword v) h = (b, h1)" by fastforce
  show ?case using Cons(1) [of h1] Cons(2) host_lawsD(9) [OF assms(1) a] by (cases b) (auto simp: a x)
qed simp

subsection \<open>Maps built in a loop\<close>

lemma find_Cons_rev: "find P (xs @ ys) = (case find P xs of None \<Rightarrow> find P ys | Some x \<Rightarrow> Some x)"
  by (induction xs) auto

lemma find_SomeD: "find P xs = Some x \<Longrightarrow> P x \<and> x \<in> set xs"
  by (induction xs) (auto split: if_splits)

lemma map_of_fold_update:
  "map_of (fold (\<lambda>p m. AList.update (k p) (v p) m) ps m) x =
     (case find (\<lambda>p. k p = x) (rev ps) of None \<Rightarrow> map_of m x | Some p \<Rightarrow> Some (v p))"
  by (induction ps arbitrary: m) (auto simp: AList.update_conv' find_Cons_rev split: option.splits)

lemma distinct_fold_update:
  "distinct (map fst m) \<Longrightarrow> distinct (map fst (fold (\<lambda>p m. AList.update (k p) (v p) m) ps m))"
  by (induction ps arbitrary: m) (auto simp: AList.distinct_update)

lemma find_rev_unique:
  assumes "inj_on k (set ps)"
  shows "find (\<lambda>q. k q = n) (rev ps) = Some p \<longleftrightarrow> p \<in> set ps \<and> k p = n"
proof
  assume p: "p \<in> set ps \<and> k p = n"
  then have "find (\<lambda>q. k q = n) (rev ps) \<noteq> None" by (auto simp: find_None_iff)
  then obtain q where q: "find (\<lambda>q. k q = n) (rev ps) = Some q" by auto
  then have "q \<in> set ps" "k q = n" by (auto dest: find_SomeD)
  then show "find (\<lambda>q. k q = n) (rev ps) = Some p" using q p assms by (auto dest: inj_onD)
qed (auto dest: find_SomeD)

lemma desired_rules_iff:
  assumes "distinct (map pg_path (rg_programs r))" "inj_on (RuleName sha) (pg_path ` set (rg_programs r))"
  shows "map_of (desired_rules sha r) n = Some p \<longleftrightarrow>
     rg_mode r = ''enforce'' \<and> p \<in> set (rg_programs r) \<and> n = RuleName sha (pg_path p)"
proof -
  have i: "inj_on (\<lambda>p. RuleName sha (pg_path p)) (set (rg_programs r))"
    using assms by (auto simp: distinct_map intro: comp_inj_on [of pg_path, unfolded comp_def])
  have "map_of (fold (\<lambda>p m. AList.update (RuleName sha (pg_path p)) p m) (rg_programs r) []) n =
      find (\<lambda>p. RuleName sha (pg_path p) = n) (rev (rg_programs r))"
    by (simp add: map_of_fold_update split: option.splits)
  then show ?thesis unfolding desired_rules_def using find_rev_unique [OF i, of n p] by auto
qed

lemma wanted_values_iff:
  "map_of (wanted_values r) k = map_option pt_action (find (\<lambda>p. ToUpper (pt_rule p) = k) (rev (rg_protections r)))"
  by (simp add: wanted_values_def map_of_fold_update split: option.splits)

lemma distinct_desired: "distinct (map fst (desired_rules sha r))"
  by (simp add: desired_rules_def distinct_fold_update)

lemma distinct_wanted: "distinct (map fst (wanted_values r))"
  by (simp add: wanted_values_def distinct_fold_update)

lemma upper_char_idem [simp]: "upper_char (upper_char c) = upper_char c"
proof (cases "is_lower c")
  case True
  then have "97 \<le> (of_char c :: nat)" "(of_char c :: nat) \<le> 122" by (simp_all add: is_lower_def less_eq_char_def)
  then have "\<not> is_lower (char_of (of_char c - 32 :: nat))" by (simp add: is_lower_def less_eq_char_def)
  then show ?thesis by (simp add: upper_char_def True)
qed (simp add: upper_char_def)

lemma ToUpper_idem [simp]: "ToUpper (ToUpper s) = ToUpper s"
  by (simp add: ToUpper_def)

lemma wanted_upper: "(g, a) \<in> set (wanted_values r) \<Longrightarrow> ToUpper g = g"
  using map_of_is_SomeI [OF distinct_wanted, of g a r] by (auto simp: wanted_values_iff dest!: find_SomeD)

subsection \<open>Reconciliation\<close>

lemma set_values_effect:
  assumes "host_laws H R V" "set_values H xs h = (True, h')"
    and "\<And>g a. (g, a) \<in> set xs \<Longrightarrow> ToUpper g = g \<and> m g = Some a"
  shows "V h' = (\<lambda>k. if k \<in> fst ` set xs then map_option asr_dword (m k) else V h k)"
  using assms(2,3)
proof (induction xs arbitrary: h)
  case (Cons x xs)
  obtain g v where x: "x = (g, v)" by fastforce
  obtain b h1 where a: "ho_set_value H g (asr_dword v) h = (b, h1)" by fastforce
  have g: "ToUpper g = g" "m g = Some v" using Cons(3) [of g v] x by auto
  have "b" using Cons(2) a x by (cases b) auto
  then have "set_values H xs h1 = (True, h')" "V h1 = (V h)(g \<mapsto> asr_dword v)"
    using Cons(2) host_lawsD(9) [OF assms(1) a] by (auto simp: a x g)
  moreover have "V h' = (\<lambda>k. if k \<in> fst ` set xs then map_option asr_dword (m k) else V h1 k)"
    by (rule Cons(1) [OF calculation(1)]) (rule Cons(3), simp)
  ultimately show ?case by (auto simp: x g fun_eq_iff)
qed simp

lemma applyASR_effect:
  assumes "host_laws H R V" "applyASR H r h = (True, h')"
  shows "R h' = R h"
    and "V h' = (\<lambda>k. case find (\<lambda>p. ToUpper (pt_rule p) = k) (rev (rg_protections r)) of
        Some p \<Rightarrow> Some (asr_dword (pt_action p)) | None \<Rightarrow> if k \<in> set CuratedASRRules then None else V h k)"
proof -
  let ?w = "wanted_values r"
  obtain h1 names h2 where s: "ho_create_key H h = (True, h1)" "ho_value_names H h1 = Some names"
      "delete_values H (StaleASRValues names ?w) h1 = (True, h2)" "set_values H (ho_range_values H ?w) h2 = (True, h')"
    using assms(2) by (auto simp: applyASR_def split: prod.splits bool.splits option.splits)
  note k = host_lawsD(6) [OF assms(1) s(1)]
  note dv = delete_values_effect [OF assms(1) s(3)]
  show "R h' = R h" using k dv set_values_rules [OF assms(1) s(4)] by simp
  have rng: "set (ho_range_values H ?w) = set ?w" by (rule host_lawsD(11) [OF assms(1)])
  have sv: "V h' = (\<lambda>k. if k \<in> fst ` set ?w then map_option asr_dword (map_of ?w k) else V h2 k)"
    using set_values_effect [OF assms(1) s(4), of "map_of ?w"] unfolding rng
    by (auto intro: wanted_upper map_of_is_SomeI [OF distinct_wanted])
  have up: "ToUpper ` set names = dom (V h)" using host_lawsD(7) [OF assms(1) s(2)] k by simp
  have stale: "k \<in> ToUpper ` set (StaleASRValues names ?w) \<longleftrightarrow> k \<in> dom (V h) \<and> k \<in> set CuratedASRRules \<and> map_of ?w k = None" for k
    unfolding up [symmetric] StaleASRValues_def by auto
  have "V h' k = (case map_of ?w k of Some a \<Rightarrow> Some (asr_dword a) | None \<Rightarrow> if k \<in> set CuratedASRRules then None else V h k)" for k
    using dv k stale [of k] map_of_eq_None_iff [of ?w k] unfolding sv by (auto split: option.splits)
  then show "V h' = (\<lambda>k. case find (\<lambda>p. ToUpper (pt_rule p) = k) (rev (rg_protections r)) of
        Some p \<Rightarrow> Some (asr_dword (pt_action p)) | None \<Rightarrow> if k \<in> set CuratedASRRules then None else V h k)"
    by (auto simp: wanted_values_iff fun_eq_iff split: option.splits)
qed

text \<open>The rule that blocks a program, and the rules a ringfence asks for.\<close>

definition block_rule :: "(bytes \<Rightarrow> bytes) \<Rightarrow> string \<Rightarrow> string \<times> string" where
  "block_rule sha256 path = (RuleName sha256 path, path)"

definition wanted_rules :: "(bytes \<Rightarrow> bytes) \<Rightarrow> ringfence \<Rightarrow> (string \<times> string) set" where
  "wanted_rules sha256 r =
     (if rg_mode r = ''enforce'' then block_rule sha256 ` pg_path ` {p \<in> set (rg_programs r). pg_blocked p} else {})"

lemma owned_block [simp]: "owned (block_rule sha256 path)"
  by (simp add: owned_def block_rule_def RuleName_def)

lemma Diff_sets:
  assumes "host_laws H R V" "distinct (map pg_path (rg_programs r))" "inj_on (RuleName sha) (pg_path ` set (rg_programs r))"
    and "Diff ex (desired_rules sha r) (ho_range_programs H (desired_rules sha r)) = (add, remove)"
  shows "block_rule sha ` pg_path ` set add = {x \<in> wanted_rules sha r. fst x \<notin> set ex}"
    and "set remove = set ex - fst ` wanted_rules sha r"
proof -
  let ?d = "desired_rules sha r"
  note iff = desired_rules_iff [OF assms(2,3)]
  have mem: "(n, p) \<in> set ?d \<longleftrightarrow> map_of ?d n = Some p" for n p
    by (metis distinct_desired map_of_SomeD map_of_is_SomeI)
  have "set add = {p. \<exists>n. (n, p) \<in> set ?d \<and> pg_blocked p \<and> n \<notin> set ex}"
    using assms(4) host_lawsD(10) [OF assms(1), of ?d] by (auto simp: Diff_def image_def)
  then show "block_rule sha ` pg_path ` set add = {x \<in> wanted_rules sha r. fst x \<notin> set ex}"
    unfolding mem iff wanted_rules_def by (auto simp: block_rule_def image_def)
  have "set remove = {n \<in> set ex. \<not> (\<exists>p. map_of ?d n = Some p \<and> pg_blocked p)}"
    using assms(4) by (auto simp: Diff_def split: option.splits)
  then show "set remove = set ex - fst ` wanted_rules sha r"
    unfolding iff wanted_rules_def by (auto simp: block_rule_def image_def)
qed

lemma applyNetwork_effect:
  assumes laws: "host_laws H R V" and del: "deletable H R" and "ho_show H h = Some out"
    and "applyNetwork H r h = (True, h')" "distinct (map pg_path (rg_programs r))"
    and named: "\<And>x. x \<in> R h \<Longrightarrow> owned x \<Longrightarrow> x = block_rule (ho_sha256 H) (snd x)"
    and inj: "inj_on (RuleName (ho_sha256 H)) (snd ` {x \<in> R h. owned x} \<union> pg_path ` set (rg_programs r))"
  shows "R h' = {x \<in> R h. \<not> owned x} \<union> wanted_rules (ho_sha256 H) r \<and> V h' = V h"
proof -
  let ?sha = "ho_sha256 H" and ?ex = "existingRules H h"
  let ?W = "wanted_rules ?sha r"
  obtain add remove where D: "Diff ?ex (desired_rules ?sha r) (ho_range_programs H (desired_rules ?sha r)) = (add, remove)"
    by fastforce
  obtain h2 where a: "add_blocks H add (delete_rules H remove h) = (True, h2)" and h': "h' = ho_auditpol H h2"
    using assms(4) by (auto simp: applyNetwork_def Let_def D split: prod.splits bool.splits)
  have injp: "inj_on (RuleName ?sha) (pg_path ` set (rg_programs r))" using inj by (rule inj_on_subset) simp
  note ds = Diff_sets [OF laws assms(5) injp D]
  have ex: "set ?ex = fst ` {x \<in> R h. owned x}" using host_lawsD(1) [OF laws assms(3)] assms(3) by (simp add: existingRules_def)
  have "R h' = {x \<in> R h. fst x \<notin> set remove} \<union> block_rule ?sha ` pg_path ` set add"
    using add_blocks_effect [OF laws a] delete_rules_effect [OF laws del, of remove h] host_lawsD(4) [OF laws, of h2]
    by (simp add: h' block_rule_def image_image)
  then have R': "R h' = {x \<in> R h. fst x \<notin> set ?ex \<or> fst x \<in> fst ` ?W} \<union> {x \<in> ?W. fst x \<notin> set ?ex}"
    unfolding ds by auto
  have W: "x = block_rule ?sha (snd x)" "snd x \<in> pg_path ` set (rg_programs r)" if "x \<in> ?W" for x
    using that by (auto simp: wanted_rules_def block_rule_def split: if_splits)
  have same: "x = y" if "x \<in> R h" "owned x" "y \<in> ?W" "fst x = fst y" for x y
  proof -
    have "RuleName ?sha (snd x) = RuleName ?sha (snd y)"
      using that(4) named [OF that(1,2)] W(1) [OF that(3)] by (metis block_rule_def fst_conv)
    then have "snd x = snd y" using inj that W(2) [OF that(3)] by (auto dest!: inj_onD)
    then show ?thesis using that(4) by (simp add: prod_eq_iff)
  qed
  have un: "fst x \<notin> set ?ex" if "x \<in> R h" "\<not> owned x" for x
    using that unfolding ex by (auto simp: owned_def)
  have Wo: "owned x" if "x \<in> ?W" for x using W(1) [OF that] owned_block by metis
  have "R h' = {x \<in> R h. \<not> owned x} \<union> ?W"
  proof (intro set_eqI iffI)
    fix x assume "x \<in> R h'"
    then show "x \<in> {x \<in> R h. \<not> owned x} \<union> ?W" unfolding R' using same [of x] ex by (cases "owned x") auto
  next
    fix x assume "x \<in> {x \<in> R h. \<not> owned x} \<union> ?W"
    then show "x \<in> R h'" unfolding R' using un [of x] same [of _ x] unfolding ex by auto
  qed
  then show ?thesis
    using add_blocks_effect [OF laws a] delete_rules_mono [OF laws, of remove h] host_lawsD(5) [OF laws, of h2] by (simp add: h')
qed

lemma Apply_success:
  assumes "Apply H r (e, h) = (True, e', h')" "en_applied e \<noteq> rg_version r \<or> rg_version r = []"
  obtains h1 where "applyNetwork H r h = (True, h1)" "applyASR H r h1 = (True, h')"
    "e' = e\<lparr>en_applied := rg_version r, en_last := r\<rparr>"
    "\<forall>p \<in> set (rg_programs r). \<forall>self \<in> set (en_images e). \<not> EqualFold (pg_path p) self"
  using assms by (auto simp: Apply_def split: prod.splits bool.splits if_splits)

text \<open>
  C19: a ringfence that is applied is exactly in force. When \<^const>\<open>Apply\<close> reports success for a
  new version on a machine whose rules can be listed and deleted, the firewall rules carrying
  the FreeLocker prefix afterwards are one block rule per blocked program in enforce mode and
  none in audit mode; every other firewall rule is untouched; each attack-surface rule has the
  value of the last protection that names it, curated rules nobody asks for are gone, and
  values set by someone else stay. The rules found on the machine must be named after
  their program and the name hash must not collide.
\<close>

theorem reconcile_exact:
  assumes "host_laws H R V" "deletable H R" "ho_show H h = Some out"
    and "Apply H r (e, h) = (True, e', h')" "en_applied e \<noteq> rg_version r \<or> rg_version r = []"
    and "distinct (map pg_path (rg_programs r))"
    and "\<And>x. x \<in> R h \<Longrightarrow> owned x \<Longrightarrow> x = block_rule (ho_sha256 H) (snd x)"
    and "inj_on (RuleName (ho_sha256 H)) (snd ` {x \<in> R h. owned x} \<union> pg_path ` set (rg_programs r))"
  shows "{x \<in> R h'. owned x} = wanted_rules (ho_sha256 H) r \<and>
    {x \<in> R h'. \<not> owned x} = {x \<in> R h. \<not> owned x} \<and>
    V h' k = (case find (\<lambda>p. ToUpper (pt_rule p) = k) (rev (rg_protections r)) of
        Some p \<Rightarrow> Some (asr_dword (pt_action p)) | None \<Rightarrow> if k \<in> set CuratedASRRules then None else V h k) \<and>
    en_applied e' = rg_version r"
proof -
  obtain h1 where s: "applyNetwork H r h = (True, h1)" "applyASR H r h1 = (True, h')"
      "e' = e\<lparr>en_applied := rg_version r, en_last := r\<rparr>"
    using Apply_success [OF assms(4,5)] by blast
  note net = applyNetwork_effect [OF assms(1,2,3) s(1) assms(6,7,8)]
  note asr = applyASR_effect [OF assms(1) s(2)]
  have "owned x" if "x \<in> wanted_rules (ho_sha256 H) r" for x
    using that by (auto simp: wanted_rules_def split: if_splits)
  then have "{x \<in> R h'. owned x} = wanted_rules (ho_sha256 H) r" "{x \<in> R h'. \<not> owned x} = {x \<in> R h. \<not> owned x}"
    using net unfolding asr(1) by auto
  moreover have "V h' k = (case find (\<lambda>p. ToUpper (pt_rule p) = k) (rev (rg_protections r)) of
        Some p \<Rightarrow> Some (asr_dword (pt_action p)) | None \<Rightarrow> if k \<in> set CuratedASRRules then None else V h k)"
    using net by (simp add: asr(2) split: option.split)
  ultimately show ?thesis by (simp add: s(3))
qed

subsection \<open>A test machine\<close>

text \<open>
  A machine in memory: the firewall's rules and the values of the ASR key. It lists rules by
  name, one per line, whenever that listing can be read back.
\<close>

type_synonym bench_state = "(string \<times> string) list \<times> (string \<times> nat) list"

definition listing :: "bench_state \<Rightarrow> string" where
  "listing h = concat (map (\<lambda>x. ''Rule Name: '' @ fst x @ [LF]) (fst h))"

definition bench :: "bench_state host" where
  "bench = \<lparr>
     ho_show = (\<lambda>h. if set (owned_names (listing h)) = fst ` {x \<in> set (fst h). owned x} then Some (listing h) else None),
     ho_delete = (\<lambda>n h. (True, filter (\<lambda>x. fst x \<noteq> n) (fst h), snd h)),
     ho_add = (\<lambda>n p h. (True, (n, p) # fst h, snd h)),
     ho_auditpol = id, ho_create_key = Pair True,
     ho_value_names = (\<lambda>h. Some (map fst (snd h))),
     ho_delete_value = (\<lambda>n h. (True, fst h, filter (\<lambda>x. ToUpper (fst x) \<noteq> ToUpper n) (snd h))),
     ho_set_value = (\<lambda>n v h. (True, fst h, (n, v) # filter (\<lambda>x. ToUpper (fst x) \<noteq> ToUpper n) (snd h))),
     ho_defender = (\<lambda>_. True), ho_qe = (\<lambda>_ _ _ _. None), ho_volumes = (\<lambda>_. []), ho_now = (\<lambda>_. 0),
     ho_unmarshal = (\<lambda>_. (False, [])), ho_parse_time = (\<lambda>_. None), ho_sha256 = id,
     ho_range_programs = id, ho_range_values = rev\<rparr>"

definition bench_rules :: "bench_state \<Rightarrow> (string \<times> string) set" where
  "bench_rules h = set (fst h)"

definition bench_values :: "bench_state \<Rightarrow> string \<Rightarrow> nat option" where
  "bench_values h = map_of (map (\<lambda>(n, v). (ToUpper n, v)) (snd h))"

lemma map_of_upper_filter:
  "map_of (map (\<lambda>(n, v). (ToUpper n, v)) (filter (\<lambda>x. ToUpper (fst x) \<noteq> ToUpper n) xs)) =
     (map_of (map (\<lambda>(n, v). (ToUpper n, v)) xs))(ToUpper n := None)"
  by (induction xs) (auto simp: fun_eq_iff)

lemma bench_laws: "host_laws bench bench_rules bench_values" "deletable bench bench_rules"
  by (auto simp: host_laws_def deletable_def bench_def bench_rules_def bench_values_def map_of_upper_filter dom_map_of_conv_image_fst
        image_image case_prod_beta split: if_splits)

definition demo_fence :: ringfence where
  "demo_fence = \<lparr>rg_version = ''v1'', rg_mode = ''enforce'',
     rg_programs = [\<lparr>pg_path = ''c:/a.exe'', pg_blocked = True\<rparr>, \<lparr>pg_path = ''c:/b.exe'', pg_blocked = False\<rparr>],
     rg_protections = [\<lparr>pt_rule = ''d4f940ab-401b-4efc-aadc-ad5f3c50688a'', pt_action = ''block''\<rparr>]\<rparr>"

definition demo_machine :: bench_state where
  "demo_machine = ([(RuleName id ''c:/b.exe'', ''c:/b.exe''), (''Corp'', ''c:/c.exe'')],
     [(''92E97FA1-2EDF-4476-BDD6-9DD0B4DDDC7B'', 1), (''other'', 1)])"

definition demo_after :: "enforcer \<times> bench_state" where
  "demo_after = snd (Apply bench demo_fence (Default [''c:/agent.exe''], demo_machine))"

lemma demo_applies: "Apply bench demo_fence (Default [''c:/agent.exe''], demo_machine) = (True, demo_after)"
  unfolding demo_after_def by code_simp

lemma demo_listed: "ho_show bench demo_machine = Some (listing demo_machine)"
  by code_simp

theorem reconcile_exact_witness:
  "{x \<in> bench_rules (snd demo_after). owned x} = {block_rule id ''c:/a.exe''} \<and>
   {x \<in> bench_rules (snd demo_after). \<not> owned x} = {(''Corp'', ''c:/c.exe'')} \<and>
   bench_values (snd demo_after) ''92E97FA1-2EDF-4476-BDD6-9DD0B4DDDC7B'' = None \<and>
   bench_values (snd demo_after) ''OTHER'' = Some 1 \<and>
   en_applied (fst demo_after) = ''v1''"
proof -
  have eq: "Apply bench demo_fence (Default [''c:/agent.exe''], demo_machine) = (True, fst demo_after, snd demo_after)"
    by (simp add: demo_applies)
  have n: "x = block_rule (ho_sha256 bench) (snd x)" if "x \<in> bench_rules demo_machine" "owned x" for x
    using that by (auto simp: bench_rules_def demo_machine_def bench_def block_rule_def owned_def RulePrefix_def)
  have sha: "ho_sha256 bench = id" by (simp add: bench_def)
  have paths: "snd ` {x \<in> bench_rules demo_machine. owned x} \<union> pg_path ` set (rg_programs demo_fence) = {''c:/a.exe'', ''c:/b.exe''}"
    by (auto simp: bench_rules_def demo_machine_def demo_fence_def owned_def RulePrefix_def RuleName_def)
  have i: "inj_on (RuleName (ho_sha256 bench)) (snd ` {x \<in> bench_rules demo_machine. owned x} \<union> pg_path ` set (rg_programs demo_fence))"
    unfolding paths sha by (simp add: RuleName_def) code_simp
  have v: "en_applied (Default [''c:/agent.exe'']) \<noteq> rg_version demo_fence \<or> rg_version demo_fence = []"
    "distinct (map pg_path (rg_programs demo_fence))" by (simp_all add: Default_def demo_fence_def)
  have "{p \<in> set (rg_programs demo_fence). pg_blocked p} = {\<lparr>pg_path = ''c:/a.exe'', pg_blocked = True\<rparr>}"
    by (auto simp: demo_fence_def)
  then have w: "wanted_rules id demo_fence = {block_rule id ''c:/a.exe''}"
    unfolding wanted_rules_def by (simp add: demo_fence_def)
  have u: "{x \<in> bench_rules demo_machine. \<not> owned x} = {(''Corp'', ''c:/c.exe'')}"
    by (auto simp: bench_rules_def demo_machine_def owned_def RulePrefix_def RuleName_def)
  have c: "''92E97FA1-2EDF-4476-BDD6-9DD0B4DDDC7B'' \<in> set CuratedASRRules \<and> ''OTHER'' \<notin> set CuratedASRRules \<and>
      bench_values demo_machine ''OTHER'' = Some 1 \<and> ToUpper ''d4f940ab-401b-4efc-aadc-ad5f3c50688a'' = ''D4F940AB-401B-4EFC-AADC-AD5F3C50688A''"
    by code_simp
  note res = reconcile_exact [OF bench_laws demo_listed eq v n i]
  show ?thesis using res [of "''92E97FA1-2EDF-4476-BDD6-9DD0B4DDDC7B''"] res [of "''OTHER''"] c
    unfolding sha w u by (simp add: demo_fence_def)
qed

section \<open>Any history of polls\<close>

lemma applyNetwork_bound:
  assumes "host_laws H R V" "applyNetwork H r h = (ok, h')" "x \<in> R h'"
  shows "x \<in> R h \<or> (\<exists>p \<in> set (rg_programs r). snd x = pg_path p)"
proof -
  let ?sha = "ho_sha256 H" and ?ex = "existingRules H h"
  obtain add remove where D: "Diff ?ex (desired_rules ?sha r) (ho_range_programs H (desired_rules ?sha r)) = (add, remove)"
    by fastforce
  obtain b h2 where a: "add_blocks H add (delete_rules H remove h) = (b, h2)" by fastforce
  have "R h' = R h2" using assms(2) host_lawsD(4) [OF assms(1), of h2] by (cases b) (auto simp: applyNetwork_def Let_def D a)
  then consider "x \<in> R h" | p where "p \<in> set add" "snd x = pg_path p"
    using assms(3) add_blocks_effect [OF assms(1) a] delete_rules_mono [OF assms(1), of remove h] by force
  then show ?thesis
  proof cases
    case 2
    then obtain n where "(n, p) \<in> set (desired_rules ?sha r)"
      using D host_lawsD(10) [OF assms(1)] by (auto simp: Diff_def)
    then have "map_of (desired_rules ?sha r) n = Some p" by (rule map_of_is_SomeI [OF distinct_desired])
    then have "p \<in> set (rg_programs r)"
      by (auto simp: desired_rules_def map_of_fold_update split: if_splits option.splits dest: find_SomeD)
    with 2 show ?thesis by blast
  qed simp
qed

lemma applyASR_rules:
  assumes "host_laws H R V" "applyASR H r h = (ok, h')"
  shows "R h' = R h"
proof -
  obtain b h1 where k: "ho_create_key H h = (b, h1)" by fastforce
  have "R h' = R h1" using assms(2)
    by (auto simp: applyASR_def k split: prod.splits bool.splits option.splits
          dest: set_values_rules [OF assms(1)] delete_values_rules [OF assms(1)])
  then show ?thesis using host_lawsD(6) [OF assms(1) k] by simp
qed

lemma Apply_bound:
  assumes "host_laws H R V" "Apply H r (e, h) = (ok, e', h')"
  shows "en_images e' = en_images e"
    and "x \<in> R h' \<Longrightarrow> x \<in> R h \<or> (\<forall>self \<in> set (en_images e). \<not> EqualFold (snd x) self)"
proof -
  obtain b h1 where n: "applyNetwork H r h = (b, h1)" by fastforce
  obtain c h2 where a: "applyASR H r h1 = (c, h2)" by fastforce
  show "en_images e' = en_images e" using assms(2) by (auto simp: Apply_def n a split: if_splits bool.splits)
  have "h' = h \<or> (h' = h1 \<or> h' = h2) \<and> (\<forall>p \<in> set (rg_programs r). \<forall>self \<in> set (en_images e). \<not> EqualFold (pg_path p) self)"
    using assms(2) by (auto simp: Apply_def n a split: if_splits bool.splits)
  then show "x \<in> R h' \<Longrightarrow> x \<in> R h \<or> (\<forall>self \<in> set (en_images e). \<not> EqualFold (snd x) self)"
    using applyNetwork_bound [OF assms(1) n, of x] applyASR_rules [OF assms(1) a] by auto
qed

lemma Status_keeps [simp]: "en_images (snd (Status_rf H (e, h))) = en_images e"
  "en_applied (snd (Status_rf H (e, h))) = en_applied e" "en_last (snd (Status_rf H (e, h))) = en_last e"
  "rs_applied (fst (Status_rf H (e, h))) = en_applied e"
  by (simp_all add: Status_rf_def Let_def)

lemma Violations_keeps [simp]: "en_images (fst (snd (Violations H (e, h)))) = en_images e"
  "en_applied (fst (snd (Violations H (e, h)))) = en_applied e" "en_last (fst (snd (Violations H (e, h)))) = en_last e"
  "snd (snd (Violations H (e, h))) = h"
  by (simp_all add: Violations_def Let_def case_prod_beta)

text \<open>A poll either leaves the machine alone or calls \<^const>\<open>Apply\<close> once.\<close>

lemma sync_cases:
  obtains "snd (fst (snd (syncRingfence H resp ack ((e, h), a)))) = h"
      "en_images (fst (fst (snd (syncRingfence H resp ack ((e, h), a))))) = en_images e"
  | r e1 where "resp = Some r" "en_images e1 = en_images e"
      "snd (fst (snd (syncRingfence H resp ack ((e, h), a)))) = snd (snd (Apply H r (e1, h)))"
      "en_images (fst (fst (snd (syncRingfence H resp ack ((e, h), a))))) = en_images (fst (snd (Apply H r (e1, h))))"
proof (cases resp)
  case (Some r)
  obtain st e1 where s1: "Status_rf H (e, h) = (st, e1)" by fastforce
  obtain ok e2 h2 where ap: "Apply H r (e1, h) = (ok, e2, h2)" by (cases "Apply H r (e1, h)") auto
  obtain st' e3 where s2: "Status_rf H (e2, h2) = (st', e3)" by fastforce
  obtain v4 e4 h4 where v: "Violations H (e3, h2) = (v4, e4, h4)" by (cases "Violations H (e3, h2)") auto
  obtain v5 e5 h5 where w: "Violations H (e1, h) = (v5, e5, h5)" by (cases "Violations H (e1, h)") auto
  have k: "en_images e1 = en_images e" "en_images e3 = en_images e2" "en_images e4 = en_images e3" "h4 = h2"
      "en_images e5 = en_images e1" "h5 = h"
    using Status_keeps [of H e h] Status_keeps [of H e2 h2] Violations_keeps [of H e3 h2] Violations_keeps [of H e1 h]
    by (simp_all add: s1 s2 v w)
  show ?thesis
    by (cases "rg_version r \<noteq> rs_applied st")
      (rule that(2) [OF Some, of e1] that(1); simp add: syncRingfence_def Some Let_def s1 s2 ap v w k)+
qed (simp add: syncRingfence_def that(1))

definition polls :: "'h host \<Rightarrow> (ringfence option \<times> bool) list \<Rightarrow> (enforcer \<times> 'h) \<times> bool option \<Rightarrow> (enforcer \<times> 'h) \<times> bool option" where
  "polls H = fold (\<lambda>(resp, ack) s. snd (syncRingfence H resp ack s))"

lemma sync_bound:
  assumes "host_laws H R V" "syncRingfence H resp ack ((e, h), a) = (rep, (e', h'), a')"
  shows "en_images e' = en_images e \<and> (\<forall>x \<in> R h'. x \<in> R h \<or> (\<forall>self \<in> set (en_images e). \<not> EqualFold (snd x) self))"
proof (cases rule: sync_cases [of H resp ack e h a])
  case 1
  then show ?thesis using assms(2) by simp
next
  case (2 r e1)
  obtain ok e2 h2 where ap: "Apply H r (e1, h) = (ok, e2, h2)" by (cases "Apply H r (e1, h)") auto
  show ?thesis using 2 Apply_bound [OF assms(1) ap] assms(2) by (simp add: ap)
qed

lemma polls_bound:
  assumes "host_laws H R V" "polls H answers ((e, h), a) = ((e', h'), a')" "x \<in> R h'"
  shows "x \<in> R h \<or> (\<forall>self \<in> set (en_images e). \<not> EqualFold (snd x) self)"
  using assms(2)
proof (induction answers arbitrary: e h a)
  case (Cons q answers)
  obtain resp ack where q: "q = (resp, ack)" by fastforce
  obtain rep e1 h1 a1 where s: "syncRingfence H resp ack ((e, h), a) = (rep, (e1, h1), a1)"
    by (cases "syncRingfence H resp ack ((e, h), a)") auto
  show ?case using Cons(1) [of e1 h1 a1] Cons(2) sync_bound [OF assms(1) s] by (auto simp: polls_def q s)
qed (use assms(3) in \<open>simp add: polls_def\<close>)

lemma lower_char_idem [simp]: "lower_char (lower_char c) = lower_char c"
proof (cases "is_upper c")
  case True
  then have "65 \<le> (of_char c :: nat)" "(of_char c :: nat) \<le> 90" by (simp_all add: is_upper_def less_eq_char_def)
  then have "\<not> is_upper (char_of (of_char c + 32 :: nat))" by (simp add: is_upper_def less_eq_char_def)
  then show ?thesis by (simp add: lower_char_def True)
qed (simp add: lower_char_def)

lemma EqualFold_lower [simp]: "EqualFold a (ToLower b) \<longleftrightarrow> EqualFold a b"
  by (simp add: EqualFold_def ToLower_def comp_def)

text \<open>
  C20: the agent never cuts itself off. Whatever the server answers, in any order, and whichever
  calls fail on the way, an agent process started with its own images never adds a firewall
  rule on one of them, in any spelling of its letters: a rule on such a program was there before.
\<close>

theorem agent_never_contained:
  assumes "host_laws H R V" "self \<in> set images" "EqualFold (snd x) self" "x \<notin> R h"
  shows "x \<notin> R (snd (fst (polls H answers ((Default images, h), None))))"
  using polls_bound [OF assms(1), of answers "Default images" h None] assms(2-)
  by (cases "polls H answers ((Default images, h), None)") (fastforce simp: Default_def)

theorem agent_never_contained_witness:
  "block_rule id ''c:/Agent.exe'' \<notin> bench_rules (snd (fst (polls bench
       [(Some demo_fence, True),
        (Some (demo_fence\<lparr>rg_version := ''v2'', rg_programs := [\<lparr>pg_path = ''c:/Agent.exe'', pg_blocked = True\<rparr>]\<rparr>), True)]
       ((Default [''c:/agent.exe''], demo_machine), None))))"
  by (rule agent_never_contained [OF bench_laws(1), where self = "''c:/agent.exe''"])
    (simp, code_simp, simp add: bench_rules_def demo_machine_def block_rule_def)

text \<open>
  an unassignment is lost over a restart. A new agent process starts with the empty
  version applied, and the server's answer for a device without ringfence has the empty version
  as well: however often it polls, the machine is left as it was, with every rule the previous
  process had set.
\<close>

theorem restart_leaves_rules:
  "snd (fst (polls H (map (\<lambda>ack. (Some no_ringfence, ack)) acks) ((Default images, h), a))) = h"
proof -
  have "snd (fst (polls H (map (\<lambda>ack. (Some no_ringfence, ack)) acks) ((e, h), a))) = h" if "en_applied e = []" for e
    using that
  proof (induction acks arbitrary: e a)
    case (Cons k acks)
    obtain st e1 where s1: "Status_rf H (e, h) = (st, e1)" by fastforce
    obtain v e2 h2 where v: "Violations H (e1, h) = (v, e2, h2)" by (cases "Violations H (e1, h)") auto
    have "h2 = h" "en_applied e2 = []" "rs_applied st = []"
      using Status_keeps [of H e h] Violations_keeps [of H e1 h] Cons(2) by (simp_all add: s1 v)
    then show ?case using Cons(1) [of e2] by (simp add: polls_def syncRingfence_def s1 v Let_def no_ringfence_def)
  qed (simp add: polls_def)
  then show ?thesis by (simp add: Default_def)
qed

section \<open>Batches of violations\<close>

text \<open>The first element for every key, in order.\<close>

fun first_by :: "('a \<Rightarrow> 'k) \<Rightarrow> 'a list \<Rightarrow> 'a list" where
  "first_by f [] = []"
| "first_by f (x # xs) = x # filter (\<lambda>y. f y \<noteq> f x) (first_by f xs)"

lemma dedupe_loop_eq:
  assumes "cap = 0 \<or> length out < cap"
  shows "dedupe_loop cap xs seen out =
    out @ (if cap = 0 then id else take (cap - length out)) (filter (\<lambda>x. dedupe_key x \<notin> set seen) (first_by dedupe_key xs))"
  using assms
proof (induction cap xs seen out rule: dedupe_loop.induct)
  case (2 cap x xs seen out)
  have f: "filter (\<lambda>y. dedupe_key y \<notin> set seen) (filter (\<lambda>y. dedupe_key y \<noteq> dedupe_key x) l) =
      filter (\<lambda>y. dedupe_key y \<notin> set (dedupe_key x # seen)) l" for l
    by (auto intro: filter_cong)
  have t: "take (cap - length out) (x # l) = x # take (cap - Suc (length out)) l" if "length out < cap" for l
    using that by (simp add: take_Cons')
  show ?case
  proof (cases "dedupe_key x \<in> set seen")
    case True
    then have "filter (\<lambda>y. dedupe_key y \<notin> set (dedupe_key x # seen)) l = filter (\<lambda>y. dedupe_key y \<notin> set seen) l" for l
      by (auto intro: filter_cong)
    then show ?thesis using 2 True by (simp only: f first_by.simps dedupe_loop.simps filter.simps) auto
  next
    case False
    show ?thesis
    proof (cases "length (out @ [x]) = cap")
      case True
      then show ?thesis using False t [of "[]"] by (auto simp: take_Cons')
    next
      case neq: False
      then have "cap = 0 \<or> length (out @ [x]) < cap" using 2(3) by auto
      note ih = 2(2) [OF False neq this]
      show ?thesis using False neq 2(3) t
        by (simp only: dedupe_loop.simps first_by.simps filter.simps f ih if_False) (auto simp: f)
    qed
  qed
qed simp

text \<open>
  the batch loop of \<^const>\<open>Dedupe\<close> is the reference it stands for: the first violation of
  every kind, program and detail, in the order of the log, cut to the cap (no cap when it is zero).
\<close>

theorem dedupe_reference:
  "Dedupe v cap = (if cap = 0 then first_by dedupe_key v else take cap (first_by dedupe_key v))"
  using dedupe_loop_eq [of cap "[]" v "[]"] by (auto simp: Dedupe_def)

end
