(* ===== verification/Endpoint.thy ===== *)
theory Endpoint
  imports Wdac Controls Containment
begin

text \<open>
  What the agent does to its machine besides ringfences: device controls
  (\<^verbatim>\<open>agent/controls/controls_windows.go\<close>), deployment of a compiled policy and reading of block events
  (\<^verbatim>\<open>agent/enforcer/wdac_windows.go\<close>, \<^verbatim>\<open>agent/blocks/blocks.go\<close>), and reading of security events
  (\<^verbatim>\<open>agent/events/events.go\<close>). Registry, netsh, files, PowerShell, CiTool, wevtutil, name resolution, XML
  and RFC 3339 are parameters of the machine; a failed call may be any of them.
\<close>

section \<open>The machine\<close>

record log_event =
  le_id :: int
  le_time :: string
  le_data :: "(string \<times> string) list"

record 'm endpoint =
  ep_set_dword :: "string \<Rightarrow> string \<Rightarrow> nat \<Rightarrow> 'm \<Rightarrow> bool \<times> 'm"
  ep_netsh :: "string list \<Rightarrow> 'm \<Rightarrow> bool \<times> 'm"
  ep_split_host_port :: "string \<Rightarrow> string option"
  ep_parse_ip :: "string \<Rightarrow> bool"
  ep_lookup_host :: "string \<Rightarrow> 'm \<Rightarrow> string list option"
  ep_join :: "string \<Rightarrow> string \<Rightarrow> string"
  ep_exists :: "string \<Rightarrow> 'm \<Rightarrow> bool"
  ep_mkdir :: "string \<Rightarrow> 'm \<Rightarrow> bool \<times> 'm"
  ep_write :: "string \<Rightarrow> bytes \<Rightarrow> 'm \<Rightarrow> bool \<times> 'm"
  ep_convert :: "string \<Rightarrow> string \<Rightarrow> 'm \<Rightarrow> bool \<times> 'm"
  ep_citool :: "string \<Rightarrow> 'm \<Rightarrow> bool \<times> 'm"
  ep_ci_log :: "'m \<Rightarrow> bytes option"
  ep_security_log :: "'m \<Rightarrow> bytes option"
  ep_unmarshal :: "bytes \<Rightarrow> log_event list option"
  ep_parse_time :: "string \<Rightarrow> time option"

section \<open>Device controls\<close>

definition usbstorKey :: string where
  "usbstorKey = ''SYSTEM'' @ [BSL] @ ''CurrentControlSet'' @ [BSL] @ ''Services'' @ [BSL] @ ''USBSTOR''"

definition systemPolicyKey :: string where
  "systemPolicyKey = ''SOFTWARE'' @ [BSL] @ ''Microsoft'' @ [BSL] @ ''Windows'' @ [BSL] @ ''CurrentVersion'' @ [BSL] @ ''Policies'' @ [BSL] @ ''System''"

definition usbAllow :: nat where "usbAllow = 3"
definition usbBlock :: nat where "usbBlock = 4"
definition elevationAllow :: nat where "elevationAllow = 3"
definition elevationBlock :: nat where "elevationBlock = 0"
definition fwRulePrefix :: string where "fwRulePrefix = ''FreeLocker-Net''"

record control_enforcer =
  ce_server :: string
  ce_last :: device_controls_val
  ce_set :: bool

definition controls_Default :: "string \<Rightarrow> control_enforcer" where
  "controls_Default serverHost = \<lparr>ce_server = serverHost, ce_last = no_controls, ce_set = False\<rparr>"

definition applyUSB :: "'m endpoint \<Rightarrow> bool \<Rightarrow> 'm \<Rightarrow> bool \<times> 'm" where
  "applyUSB E blocked = ep_set_dword E usbstorKey ''Start'' (if blocked then usbBlock else usbAllow)"

definition applyElevation :: "'m endpoint \<Rightarrow> bool \<Rightarrow> 'm \<Rightarrow> bool \<times> 'm" where
  "applyElevation E blocked = ep_set_dword E systemPolicyKey ''ConsentPromptBehaviorUser'' (if blocked then elevationBlock else elevationAllow)"

definition serverIPs :: "'m endpoint \<Rightarrow> string \<Rightarrow> 'm \<Rightarrow> string list" where
  "serverIPs E server m = (let host = (case ep_split_host_port E server of Some h \<Rightarrow> h | None \<Rightarrow> server) in
     if ep_parse_ip E host then [host] else case ep_lookup_host E host m of None \<Rightarrow> [] | Some addrs \<Rightarrow> addrs)"

definition add_rule :: "string list \<Rightarrow> string list" where
  "add_rule r = [''advfirewall'', ''firewall'', ''add'', ''rule''] @ r"

definition delete_rule :: "string \<Rightarrow> string list" where
  "delete_rule name = [''advfirewall'', ''firewall'', ''delete'', ''rule'', ''name='' @ name]"

definition firewall_policy :: "string \<Rightarrow> string list" where
  "firewall_policy p = [''advfirewall'', ''set'', ''allprofiles'', ''firewallpolicy'', p]"

definition server_rule :: "string list \<Rightarrow> string list" where
  "server_rule ips = [''name='' @ fwRulePrefix @ ''-Server'', ''dir=out'', ''action=allow'', ''enable=yes'', ''remoteip='' @ join '','' ips]"

definition dns_rule :: "string list" where
  "dns_rule = [''name='' @ fwRulePrefix @ ''-DNS'', ''dir=out'', ''action=allow'', ''enable=yes'', ''protocol=UDP'', ''remoteport=53'']"

definition dhcp_rule :: "string list" where
  "dhcp_rule = [''name='' @ fwRulePrefix @ ''-DHCP'', ''dir=out'', ''action=allow'', ''enable=yes'', ''protocol=UDP'', ''remoteport=67,68'']"

definition controls_network :: "'m endpoint \<Rightarrow> string \<Rightarrow> bool \<Rightarrow> 'm \<Rightarrow> bool \<times> 'm" where
  "controls_network E server blocked m =
     (if \<not> blocked then
        let m1 = snd (ep_netsh E (delete_rule (fwRulePrefix @ ''-Server'')) m);
            m2 = snd (ep_netsh E (delete_rule (fwRulePrefix @ ''-DNS'')) m1);
            m3 = snd (ep_netsh E (delete_rule (fwRulePrefix @ ''-DHCP'')) m2)
        in ep_netsh E (firewall_policy ''blockinbound,allowoutbound'') m3
      else
        let ips = serverIPs E server m in
        if ips = [] then (False, m)
        else case ep_netsh E (add_rule (server_rule ips)) m of
            (False, m1) \<Rightarrow> (False, m1)
          | (True, m1) \<Rightarrow>
              (let m2 = snd (ep_netsh E (add_rule dns_rule) m1); m3 = snd (ep_netsh E (add_rule dhcp_rule) m2)
               in ep_netsh E (firewall_policy ''blockinbound,blockoutbound'') m3))"

definition controls_Apply :: "'m endpoint \<Rightarrow> device_controls_val \<Rightarrow> control_enforcer \<times> 'm \<Rightarrow> bool \<times> control_enforcer \<times> 'm" where
  "controls_Apply E c s = (case s of (e, m) \<Rightarrow>
     if ce_set e \<and> ce_last e = c then (True, e, m)
     else case applyUSB E (USBStorageBlocked c) m of
         (False, m1) \<Rightarrow> (False, e, m1)
       | (True, m1) \<Rightarrow> (case applyElevation E (ElevationBlocked c) m1 of
           (False, m2) \<Rightarrow> (False, e, m2)
         | (True, m2) \<Rightarrow> (case controls_network E (ce_server e) (NetworkBlocked c) m2 of
             (False, m3) \<Rightarrow> (False, e, m3)
           | (True, m3) \<Rightarrow> (True, e\<lparr>ce_last := c, ce_set := True\<rparr>, m3))))"

section \<open>Policy deployment\<close>

record wdac_enforcer =
  we_dir :: string
  we_version :: string
  we_mode :: string

definition enforceAllowed :: "'m endpoint \<Rightarrow> wdac_enforcer \<Rightarrow> 'm \<Rightarrow> bool" where
  "enforceAllowed E e m = ep_exists E (ep_join E (we_dir e) ''allow-enforce'') m"

definition wdac_Apply :: "'m endpoint \<Rightarrow> string \<Rightarrow> string \<Rightarrow> bytes \<Rightarrow> wdac_enforcer \<times> 'm \<Rightarrow> bool \<times> wdac_enforcer \<times> 'm" where
  "wdac_Apply E version mode xml s = (case s of (e, m) \<Rightarrow>
     if mode \<noteq> ''audit'' \<and> mode \<noteq> ''enforce'' then (False, e, m)
     else if we_version e = version then (True, e, m)
     else
       let effectiveMode = (if mode = ''enforce'' \<and> \<not> enforceAllowed E e m then ''audit'' else mode);
           xmlPath = ep_join E (we_dir e) ''policy.xml''; cipPath = ep_join E (we_dir e) ''policy.cip''
       in case ep_mkdir E (we_dir e) m of
            (False, m1) \<Rightarrow> (False, e, m1)
          | (True, m1) \<Rightarrow> (case ep_write E xmlPath xml m1 of
              (False, m2) \<Rightarrow> (False, e, m2)
            | (True, m2) \<Rightarrow> (case ep_convert E xmlPath cipPath m2 of
                (False, m3) \<Rightarrow> (False, e, m3)
              | (True, m3) \<Rightarrow> (case ep_citool E cipPath m3 of
                  (False, m4) \<Rightarrow> (False, e, m4)
                | (True, m4) \<Rightarrow> (True, e\<lparr>we_version := version, we_mode := effectiveMode\<rparr>, m4)))))"

section \<open>Block events\<close>

record agent_block =
  ab_sha256 :: string
  ab_path :: string
  ab_signer :: string
  ab_blocked :: bool
  ab_at :: time
  ab_tbs :: string
  ab_verified :: bool

definition stripDevicePrefix :: "string \<Rightarrow> string" where
  "stripDevicePrefix p = (case from_index ''HarddiskVolume'' p of
       None \<Rightarrow> p
     | Some rest \<Rightarrow> if BSL \<in> set rest then dropWhile (\<lambda>c. c \<noteq> BSL) rest else p)"

definition block_field :: "string \<times> string \<Rightarrow> agent_block \<Rightarrow> agent_block" where
  "block_field f be = (let v = TrimSpace (snd f) in
     if fst f \<in> {''File Name'', ''FileName'', ''FilePath''} then be\<lparr>ab_path := stripDevicePrefix v\<rparr>
     else if fst f \<in> {''SHA256 Hash'', ''SHA256Hash'', ''Sha256''} then be\<lparr>ab_sha256 := ToUpper v\<rparr>
     else if fst f \<in> {''Publisher'', ''PublisherName'', ''Signer''} then be\<lparr>ab_signer := v\<rparr>
     else be)"

definition block_event :: "(string \<Rightarrow> time option) \<Rightarrow> log_event \<Rightarrow> agent_block" where
  "block_event parse_time e = fold block_field (le_data e)
     \<lparr>ab_sha256 = [], ab_path = [], ab_signer = [], ab_blocked = (le_id e = 3077),
      ab_at = (case parse_time (le_time e) of None \<Rightarrow> 0 | Some t \<Rightarrow> t), ab_tbs = [], ab_verified = False\<rparr>"

definition ParseCodeIntegrity :: "(bytes \<Rightarrow> log_event list option) \<Rightarrow> (string \<Rightarrow> time option) \<Rightarrow> bytes \<Rightarrow> agent_block list option" where
  "ParseCodeIntegrity unmarshal parse_time raw = map_option
     (\<lambda>evs. map (block_event parse_time) (filter (\<lambda>e. le_id e = 3076 \<or> le_id e = 3077) evs))
     (unmarshal (''<Events>'' @ raw @ ''</Events>''))"

definition wdac_Events :: "'m endpoint \<Rightarrow> 'm \<Rightarrow> agent_block list option" where
  "wdac_Events E m = (case ep_ci_log E m of None \<Rightarrow> None | Some raw \<Rightarrow> ParseCodeIntegrity (ep_unmarshal E) (ep_parse_time E) raw)"

section \<open>Security events\<close>

record agent_event =
  ae_kind :: string
  ae_summary :: string
  ae_at :: time

definition tokenElevationFull :: string where "tokenElevationFull = ''%%1937''"

definition firstNonEmpty :: "string \<Rightarrow> string \<Rightarrow> string" where
  "firstNonEmpty a b = (if a \<noteq> [] then a else b)"

text \<open>A later field of the same name replaces an earlier one; a missing field reads as the empty string.\<close>

definition event_data :: "log_event \<Rightarrow> string \<Rightarrow> string" where
  "event_data e k = (case map_of (rev (le_data e)) k of None \<Rightarrow> [] | Some v \<Rightarrow> TrimSpace v)"

definition security_event :: "(string \<Rightarrow> time option) \<Rightarrow> log_event \<Rightarrow> agent_event list" where
  "security_event parse_time e =
     (let t = (case parse_time (le_time e) of None \<Rightarrow> 0 | Some t \<Rightarrow> t) in
      if le_id e = 4688 then
        let user = firstNonEmpty (event_data e ''SubjectUserName'') ''?''; image = firstNonEmpty (event_data e ''NewProcessName'') ''?'' in
        if event_data e ''TokenElevationType'' = tokenElevationFull
        then [\<lparr>ae_kind = ''elevation'', ae_summary = user @ '' launched '' @ image @ '' elevated (full administrator token)'', ae_at = t\<rparr>]
        else [\<lparr>ae_kind = ''process_launch'', ae_summary = user @ '' launched '' @ image, ae_at = t\<rparr>]
      else if le_id e = 4624 then
        [\<lparr>ae_kind = ''logon'', ae_summary = firstNonEmpty (event_data e ''TargetUserName'') ''?'' @ '' logged on (type '' @
            firstNonEmpty (event_data e ''LogonType'') ''?'' @ '')'', ae_at = t\<rparr>]
      else [])"

definition ParseSecurity :: "(bytes \<Rightarrow> log_event list option) \<Rightarrow> (string \<Rightarrow> time option) \<Rightarrow> bytes \<Rightarrow> agent_event list option" where
  "ParseSecurity unmarshal parse_time raw =
     map_option (\<lambda>evs. concat (map (security_event parse_time) evs)) (unmarshal (''<Events>'' @ raw @ ''</Events>''))"

definition events_Read :: "'m endpoint \<Rightarrow> 'm \<Rightarrow> agent_event list option" where
  "events_Read E m = (case ep_security_log E m of None \<Rightarrow> None | Some raw \<Rightarrow> ParseSecurity (ep_unmarshal E) (ep_parse_time E) raw)"

section \<open>Management access under network blocking\<close>

text \<open>
  \<open>S\<close> is the set of firewall rules (their arguments), \<open>Out\<close> whether outbound traffic is blocked by
  default. A successful call has its documented effect, a failed one none.
\<close>

definition firewall_laws :: "'m endpoint \<Rightarrow> ('m \<Rightarrow> string list set) \<Rightarrow> ('m \<Rightarrow> bool) \<Rightarrow> bool" where
  "firewall_laws E S Out \<longleftrightarrow>
     (\<forall>r m ok m'. ep_netsh E (add_rule r) m = (ok, m') \<longrightarrow> S m' = (if ok then insert r (S m) else S m) \<and> Out m' = Out m) \<and>
     (\<forall>n m ok m'. ep_netsh E (delete_rule n) m = (ok, m') \<longrightarrow> S m' = (if ok then {r \<in> S m. hd r \<noteq> ''name='' @ n} else S m) \<and> Out m' = Out m) \<and>
     (\<forall>p m ok m'. ep_netsh E (firewall_policy p) m = (ok, m') \<longrightarrow> S m' = S m \<and> Out m' = (if ok then p = ''blockinbound,blockoutbound'' else Out m)) \<and>
     (\<forall>k n v m ok m'. ep_set_dword E k n v m = (ok, m') \<longrightarrow> S m' = S m \<and> Out m' = Out m)"

text \<open>Blocked by default only with an exception for the server.\<close>

definition reachable_server :: "('m \<Rightarrow> string list set) \<Rightarrow> ('m \<Rightarrow> bool) \<Rightarrow> 'm \<Rightarrow> bool" where
  "reachable_server S Out m \<longleftrightarrow> (Out m \<longrightarrow> (\<exists>ips. ips \<noteq> [] \<and> server_rule ips \<in> S m))"

lemma firewall_lawsD:
  assumes "firewall_laws E S Out"
  shows "ep_netsh E (add_rule r) m = (ok, m') \<Longrightarrow> S m' = (if ok then insert r (S m) else S m) \<and> Out m' = Out m"
    and "ep_netsh E (delete_rule n) m = (ok, m') \<Longrightarrow> S m' = (if ok then {r \<in> S m. hd r \<noteq> ''name='' @ n} else S m) \<and> Out m' = Out m"
    and "ep_netsh E (firewall_policy p) m = (ok, m') \<Longrightarrow> S m' = S m \<and> Out m' = (if ok then p = ''blockinbound,blockoutbound'' else Out m)"
    and "ep_set_dword E k x v m = (ok, m') \<Longrightarrow> S m' = S m \<and> Out m' = Out m"
  using assms unfolding firewall_laws_def by (simp_all; blast)+

lemma block_reachable:
  assumes "firewall_laws E S Out" "reachable_server S Out m" "controls_network E server True m = (ok, m')"
  shows "reachable_server S Out m'"
proof (cases "serverIPs E server m = []")
  case False
  let ?ips = "serverIPs E server m"
  obtain b m1 where a: "ep_netsh E (add_rule (server_rule ?ips)) m = (b, m1)" by fastforce
  obtain b2 m2 where a2: "ep_netsh E (add_rule dns_rule) m1 = (b2, m2)" by fastforce
  obtain b3 m3 where a3: "ep_netsh E (add_rule dhcp_rule) m2 = (b3, m3)" by fastforce
  note l1 = firewall_lawsD(1) [OF assms(1) a] and l2 = firewall_lawsD(1) [OF assms(1) a2] and l3 = firewall_lawsD(1) [OF assms(1) a3]
  show ?thesis
  proof (cases b)
    case True
    then have "ep_netsh E (firewall_policy ''blockinbound,blockoutbound'') m3 = (ok, m')"
      using assms(3) False by (simp add: controls_network_def Let_def a a2 a3)
    note l4 = firewall_lawsD(3) [OF assms(1) this]
    have "server_rule ?ips \<in> S m'" using l1 l2 l3 l4 True by (auto split: if_splits)
    then show ?thesis using False by (auto simp: reachable_server_def)
  next
    case False
    then show ?thesis using assms(2,3) l1 \<open>?ips \<noteq> []\<close> by (simp add: controls_network_def a reachable_server_def)
  qed
qed (use assms(2,3) in \<open>simp add: controls_network_def\<close>)

lemma unblock_reachable:
  assumes "firewall_laws E S Out" "controls_network E server False m = (True, m')"
  shows "\<not> Out m'"
  using assms(2) firewall_lawsD(3) [OF assms(1)] by (simp add: controls_network_def Let_def)

lemma controls_Apply_reachable:
  assumes laws: "firewall_laws E S Out" and r: "reachable_server S Out m"
    and allow: "\<And>m. fst (ep_netsh E (firewall_policy ''blockinbound,allowoutbound'') m)"
  shows "reachable_server S Out (snd (snd (controls_Apply E c (e, m))))"
proof -
  obtain b1 m1 where u: "applyUSB E (USBStorageBlocked c) m = (b1, m1)" by fastforce
  obtain b2 m2 where v: "applyElevation E (ElevationBlocked c) m1 = (b2, m2)" by fastforce
  obtain b3 m3 where w: "controls_network E (ce_server e) (NetworkBlocked c) m2 = (b3, m3)" by fastforce
  have r1: "reachable_server S Out m1" using firewall_lawsD(4) [OF laws u [unfolded applyUSB_def]] r by (simp add: reachable_server_def)
  then have r2: "reachable_server S Out m2" using firewall_lawsD(4) [OF laws v [unfolded applyElevation_def]] by (simp add: reachable_server_def)
  have "reachable_server S Out m3"
  proof (cases "NetworkBlocked c")
    case True
    then show ?thesis using block_reachable [OF laws r2] w by simp
  next
    case False
    moreover have "b3" using w False allow by (simp add: controls_network_def Let_def) (metis fst_conv)
    ultimately show ?thesis using unblock_reachable [OF laws, of "ce_server e" m2 m3] w by (simp add: reachable_server_def)
  qed
  with r r1 r2 show ?thesis by (simp add: controls_Apply_def u v w split: bool.split)
qed


text \<open>A machine in memory. With \<open>stuck\<close>, the call that restores the outbound default fails.\<close>

record bench_machine =
  bm_rules :: "string list list"
  bm_out :: bool
  bm_files :: "(string \<times> bytes) list"
  bm_active :: "bytes option"

definition bench_netsh :: "bool \<Rightarrow> string list \<Rightarrow> bench_machine \<Rightarrow> bool \<times> bench_machine" where
  "bench_netsh stuck args m =
     (if take 4 args = [''advfirewall'', ''firewall'', ''add'', ''rule''] then (True, m\<lparr>bm_rules := drop 4 args # bm_rules m\<rparr>)
      else if take 4 args = [''advfirewall'', ''firewall'', ''delete'', ''rule'']
      then (True, m\<lparr>bm_rules := filter (\<lambda>r. hd r \<noteq> args ! 4) (bm_rules m)\<rparr>)
      else if stuck \<and> args ! 4 = ''blockinbound,allowoutbound'' then (False, m)
      else (True, m\<lparr>bm_out := (args ! 4 = ''blockinbound,blockoutbound'')\<rparr>))"

definition bench_endpoint :: "bool \<Rightarrow> bench_machine endpoint" where
  "bench_endpoint stuck = \<lparr>
     ep_set_dword = (\<lambda>_ _ _. Pair True), ep_netsh = bench_netsh stuck,
     ep_split_host_port = (\<lambda>_. None), ep_parse_ip = (\<lambda>_. True), ep_lookup_host = (\<lambda>_ _. None),
     ep_join = (\<lambda>a b. a @ b), ep_exists = (\<lambda>p m. map_of (bm_files m) p \<noteq> None),
     ep_mkdir = (\<lambda>_. Pair True), ep_write = (\<lambda>p c m. (True, m\<lparr>bm_files := (p, c) # bm_files m\<rparr>)),
     ep_convert = (\<lambda>x c m. case map_of (bm_files m) x of None \<Rightarrow> (False, m) | Some t \<Rightarrow> (True, m\<lparr>bm_files := (c, t) # bm_files m\<rparr>)),
     ep_citool = (\<lambda>c m. case map_of (bm_files m) c of None \<Rightarrow> (False, m) | Some t \<Rightarrow> (True, m\<lparr>bm_active := Some t\<rparr>)),
     ep_ci_log = (\<lambda>_. None), ep_security_log = (\<lambda>_. None), ep_unmarshal = (\<lambda>_. None), ep_parse_time = (\<lambda>_. None)\<rparr>"

definition clean_machine :: bench_machine where
  "clean_machine = \<lparr>bm_rules = [], bm_out = False, bm_files = [], bm_active = None\<rparr>"

definition network_off :: device_controls_val where
  "network_off = no_controls\<lparr>NetworkBlocked := True\<rparr>"

lemma bench_firewall: "firewall_laws (bench_endpoint stuck) (\<lambda>m. set (bm_rules m)) bm_out"
  unfolding firewall_laws_def
  by (auto simp: bench_endpoint_def bench_netsh_def add_rule_def delete_rule_def firewall_policy_def split: if_splits)


text \<open>
  unblocking can sever the management link. The rules are deleted before the outbound default is
  restored, so when restoring fails the machine is left with outbound traffic blocked and no
  exception for the server, although the package promises that the exception is always kept.
\<close>

theorem unblock_can_sever:
  "\<exists>e m. fold (\<lambda>c s. snd (controls_Apply (bench_endpoint True) c s)) [network_off, no_controls] (controls_Default ''10.0.0.1'', clean_machine) = (e, m) \<and>
     firewall_laws (bench_endpoint True) (\<lambda>m. set (bm_rules m)) bm_out \<and> bm_out m \<and> bm_rules m = []"
proof -
  have "bm_out (snd (fold (\<lambda>c s. snd (controls_Apply (bench_endpoint True) c s)) [network_off, no_controls] (controls_Default ''10.0.0.1'', clean_machine))) \<and>
      bm_rules (snd (fold (\<lambda>c s. snd (controls_Apply (bench_endpoint True) c s)) [network_off, no_controls] (controls_Default ''10.0.0.1'', clean_machine))) = []"
    by code_simp
  then show ?thesis using bench_firewall by (metis prod.collapse)
qed

section \<open>Deployment and audit mode\<close>

text \<open>
  \<open>F\<close> is the policy text a file holds, as XML or converted to binary, and \<open>A\<close> the policy text the system enforces.
\<close>

definition deploy_laws :: "'m endpoint \<Rightarrow> ('m \<Rightarrow> string \<Rightarrow> bytes option) \<Rightarrow> ('m \<Rightarrow> bytes option) \<Rightarrow> bool" where
  "deploy_laws E F A \<longleftrightarrow>
     (\<forall>p c m m'. ep_write E p c m = (True, m') \<longrightarrow> F m' p = Some c) \<and>
     (\<forall>x c m m'. ep_convert E x c m = (True, m') \<longrightarrow> F m' c = F m x) \<and>
     (\<forall>c m m'. ep_citool E c m = (True, m') \<longrightarrow> A m' = F m c)"

lemma deploy_lawsD:
  assumes "deploy_laws E F A"
  shows "ep_write E p c m = (True, m') \<Longrightarrow> F m' p = Some c"
    and "ep_convert E x y m = (True, m') \<Longrightarrow> F m' y = F m x"
    and "ep_citool E y m = (True, m') \<Longrightarrow> A m' = F m y"
  using assms unfolding deploy_laws_def by (simp_all; blast)+

lemma wdac_Apply_steps:
  assumes "ep_mkdir E (we_dir e) m = (b1, m1)" "ep_write E (ep_join E (we_dir e) ''policy.xml'') xml m1 = (b2, m2)"
    and "ep_convert E (ep_join E (we_dir e) ''policy.xml'') (ep_join E (we_dir e) ''policy.cip'') m2 = (b3, m3)"
    and "ep_citool E (ep_join E (we_dir e) ''policy.cip'') m3 = (b4, m4)"
    and "mode = ''audit'' \<or> mode = ''enforce''" "we_version e \<noteq> version"
  shows "wdac_Apply E version mode xml (e, m) = (if b1 \<and> b2 \<and> b3 \<and> b4
     then (True, e\<lparr>we_version := version, we_mode := (if mode = ''enforce'' \<and> \<not> enforceAllowed E e m then ''audit'' else mode)\<rparr>, m4)
     else (False, e, if \<not> b1 then m1 else if \<not> b2 then m2 else if \<not> b3 then m3 else m4))"
proof -
  have "\<not> (mode \<noteq> ''audit'' \<and> mode \<noteq> ''enforce'')" using assms(5) by blast
  then show ?thesis unfolding wdac_Apply_def prod.case Let_def
    by (simp only: if_False if_not_P assms(1-4,6) prod.case) (cases b1; cases b2; cases b3; cases b4; simp)
qed

lemma wdac_Apply_installs:
  assumes "deploy_laws E F A" "wdac_Apply E version mode xml (e, m) = (True, e', m')" "we_version e \<noteq> version"
  shows "A m' = Some xml \<and> we_version e' = version \<and> we_mode e' = (if mode = ''enforce'' \<and> \<not> enforceAllowed E e m then ''audit'' else mode)"
proof -
  let ?x = "ep_join E (we_dir e) ''policy.xml''" and ?c = "ep_join E (we_dir e) ''policy.cip''"
  obtain b1 m1 where s1: "ep_mkdir E (we_dir e) m = (b1, m1)" by fastforce
  obtain b2 m2 where s2: "ep_write E ?x xml m1 = (b2, m2)" by fastforce
  obtain b3 m3 where s3: "ep_convert E ?x ?c m2 = (b3, m3)" by fastforce
  obtain b4 m4 where s4: "ep_citool E ?c m3 = (b4, m4)" by fastforce
  have mode: "mode = ''audit'' \<or> mode = ''enforce''"
  proof (rule ccontr)
    assume "\<not> ?thesis"
    then have "wdac_Apply E version mode xml (e, m) = (False, e, m)" by (simp add: wdac_Apply_def)
    with assms(2) show False by simp
  qed
  note st = wdac_Apply_steps [OF s1 s2 s3 s4 mode assms(3)]
  have ok: "b1 \<and> b2 \<and> b3 \<and> b4"
  proof (rule ccontr)
    assume "\<not> ?thesis"
    then have "fst (wdac_Apply E version mode xml (e, m)) = False" unfolding st by (simp only: if_False fst_conv)
    with assms(2) show False by simp
  qed
  then have "F m2 ?x = Some xml" "F m3 ?c = F m2 ?x" "A m4 = F m3 ?c"
    using deploy_lawsD [OF assms(1)] s2 s3 s4 by simp_all
  then show ?thesis using assms(2) unfolding st by (auto simp: ok)
qed

text \<open>
  the promised downgrade to audit does not happen. On a machine without the opt-in file, a compiled
  policy whose mode is enforce is installed as it is: what the system enforces afterwards is a policy that
  is not in audit mode, while the agent reports that it runs in audit mode.
\<close>

theorem enforce_not_downgraded:
  assumes "deploy_laws E F A" "sorts sort_Slice" "Compile sort_Slice \<lparr>wp_mode = ''enforce'', wp_rules = rs\<rparr> = Inr xml"
    and "\<not> enforceAllowed E e m" "we_version e \<noteq> version" "wdac_Apply E version ''enforce'' xml (e, m) = (True, e', m')"
  shows "A m' = Some xml \<and> \<not> audit_only (read_xml xml) \<and> we_mode e' = ''audit''"
proof -
  have "\<not> audit_only (read_xml xml)" using compiled_meaning [OF assms(2,3)] by simp
  then show ?thesis using wdac_Apply_installs [OF assms(1,6,5)] assms(4) by simp
qed

lemma bench_deploy: "deploy_laws (bench_endpoint b) (\<lambda>m. map_of (bm_files m)) bm_active"
  by (auto simp: deploy_laws_def bench_endpoint_def split: option.splits)

theorem enforce_not_downgraded_witness:
  "\<exists>xml m'. wdac_Apply (bench_endpoint False) ''v'' ''enforce'' xml (\<lparr>we_dir = ''d'', we_version = '''', we_mode = ''''\<rparr>, clean_machine) =
       (True, \<lparr>we_dir = ''d'', we_version = ''v'', we_mode = ''audit''\<rparr>, m') \<and>
     bm_active m' = Some xml \<and> \<not> audit_only (read_xml xml)"
proof -
  let ?e = "\<lparr>we_dir = ''d'', we_version = '''', we_mode = ''''\<rparr>"
  obtain xml where xml: "Compile (sort_key rule_key) \<lparr>wp_mode = ''enforce'', wp_rules = []\<rparr> = Inr xml"
    by (auto simp: Compile_def)
  obtain m' where a: "wdac_Apply (bench_endpoint False) ''v'' ''enforce'' xml (?e, clean_machine) =
      (True, \<lparr>we_dir = ''d'', we_version = ''v'', we_mode = ''audit''\<rparr>, m')"
    by (auto simp: wdac_Apply_def bench_endpoint_def clean_machine_def enforceAllowed_def Let_def)
  have "\<not> enforceAllowed (bench_endpoint False) ?e clean_machine" "we_version ?e \<noteq> ''v''"
    by (simp_all add: enforceAllowed_def bench_endpoint_def clean_machine_def)
  then show ?thesis using enforce_not_downgraded [OF bench_deploy sort_key_sorts xml _ _ a] a by blast
qed

end
