(* ===== verification/Agent_Session.thy ===== *)
theory Agent_Session
  imports Approvals Alerting Endpoint Enrollment
begin

text \<open>
  A device's session with the server: the calls the server answers (\<^verbatim>\<open>agentapi/policy.go\<close>) and the
  agent's side of them (\<^verbatim>\<open>agent/runner/runner.go\<close>): pulling and applying policy and controls, reporting
  observations, block events, metrics and device events. The caller's identity comes from the
  interceptor; file signatures, the scanner and Ed25519 are parameters.
\<close>

section \<open>The server's side\<close>

record 'k agent_deps =
  gd_policy :: "'k policy_service option"
  gd_alerting :: "alert_service option"
  gd_notify :: "(event \<Rightarrow> db \<Rightarrow> db) option"
  gd_now :: time
  gd_clock :: time
  gd_sha256 :: "bytes \<Rightarrow> bytes"
  gd_real4 :: "rat \<Rightarrow> rat"
  gd_uuid_text :: "uuid \<Rightarrow> string"

text \<open>The last component of a path, split on both separators.\<close>

definition baseName :: "string \<Rightarrow> string" where
  "baseName p = rev (takeWhile (\<lambda>c. c \<noteq> BSL \<and> c \<noteq> CHR ''/'') (rev p))"

definition rpc_GetPolicy :: "'k agent_deps \<Rightarrow> device_id \<Rightarrow> db \<Rightarrow> effective rpc \<times> db" where
  "rpc_GetPolicy s dev d = (case gd_policy s of
       None \<Rightarrow> (Inl (Unavailable, ''application control not enabled''), d)
     | Some ps \<Rightarrow> (case Effective ps (di_tenant dev) (di_id dev) d of
         (Inl e, d1) \<Rightarrow> (Inl (Internal, ''could not resolve policy''), d1)
       | (Inr eff, d1) \<Rightarrow> (Inr eff, d1)))"

record observed_app =
  oa_sha256 :: string
  oa_path :: string
  oa_signer :: string
  oa_tbs :: string
  oa_verified :: bool
  oa_downloaded :: "bool option"
  oa_source :: string

definition to_observation :: "observed_app \<Rightarrow> observation_row" where
  "to_observation a = \<lparr>ob_tenant = 0, ob_device = 0, ob_sha256 = oa_sha256 a, ob_path = oa_path a, ob_signer = oa_signer a,
     ob_signer_tbs = oa_tbs a, ob_signer_verified = oa_verified a, ob_first_seen = 0, ob_last_seen = 0, ob_count = 0,
     ob_downloaded = oa_downloaded a, ob_download_source = oa_source a\<rparr>"

text \<open>Stops at the first application that cannot be recorded.\<close>

fun Observe :: "'k agent_deps \<Rightarrow> device_id \<Rightarrow> observed_app list \<Rightarrow> db \<Rightarrow> unit rpc \<times> db" where
  "Observe s dev [] d = (Inr (), d)"
| "Observe s dev (a # apps) d =
     (if oa_sha256 a = [] \<or> oa_path a = [] then Observe s dev apps d
      else case RecordObservation (di_tenant dev) (di_id dev) (to_observation a) (gd_now s) d of
          (Inl e, d1) \<Rightarrow> (Inl (Internal, ''could not record observations''), d1)
        | (Inr _, d1) \<Rightarrow> Observe s dev apps d1)"

record wire_block =
  wb_sha256 :: string
  wb_path :: string
  wb_signer :: string
  wb_blocked :: bool
  wb_at_unix :: int
  wb_tbs :: string
  wb_verified :: bool

definition at_or_now :: "time \<Rightarrow> int \<Rightarrow> time" where
  "at_or_now now s = (if s = 0 then now else unix s)"

definition to_block :: "time \<Rightarrow> wire_block \<Rightarrow> block_row" where
  "to_block now w = \<lparr>bl_tenant = 0, bl_device = 0, bl_sha256 = wb_sha256 w, bl_path = wb_path w, bl_signer = wb_signer w,
     bl_signer_tbs = wb_tbs w, bl_signer_verified = wb_verified w, bl_blocked = wb_blocked w, bl_at = at_or_now now (wb_at_unix w)\<rparr>"

definition host_of :: "'k agent_deps \<Rightarrow> uuid \<Rightarrow> device_row res \<Rightarrow> string" where
  "host_of s deviceID r = (case r of Inr v \<Rightarrow> if dv_hostname v \<noteq> [] then dv_hostname v else gd_uuid_text s deviceID | Inl _ \<Rightarrow> gd_uuid_text s deviceID)"

definition approval_event :: "uuid \<Rightarrow> uuid \<Rightarrow> string \<Rightarrow> uuid \<Rightarrow> approval_row \<times> string \<Rightarrow> event" where
  "approval_event tenantID deviceID host i x = (let req = fst x in
     \<lparr>ev_kind = ''approval.new'', ev_tenant = tenantID,
      ev_title = ''Approval requested: '' @ baseName (ar_path req) @ '' on '' @ host,
      ev_body = baseName (ar_path req) @ '' was blocked on '' @ host @ '' by policy '' @ snd x @ '' and is waiting for approval.'' @ [LF] @
        ''Path: '' @ ar_path req @ [LF] @ ''Signer: '' @ ar_signer req,
      ev_detail = [(''request_id'', DId i), (''policy_id'', DId (ar_policy req)), (''policy_name'', DStr (snd x)), (''sha256'', DStr (ar_sha256 req)),
        (''path'', DStr (ar_path req)), (''signer'', DStr (ar_signer req)), (''device_id'', DId deviceID), (''hostname'', DStr host)],
      ev_at = ar_first_seen req\<rparr>)"

definition announce :: "(event \<Rightarrow> db \<Rightarrow> db) \<Rightarrow> uuid \<Rightarrow> uuid \<Rightarrow> string \<Rightarrow> uuid \<Rightarrow> db \<Rightarrow> db" where
  "announce em tenantID deviceID host i d = (case GetApprovalRequest tenantID i d of
       (Inl _, d1) \<Rightarrow> d1
     | (Inr x, d1) \<Rightarrow> em (approval_event tenantID deviceID host i x) d1)"

text \<open>Failures are only logged. An event without time is taken to have happened now.\<close>

definition queueApprovals :: "'k agent_deps \<Rightarrow> uuid \<Rightarrow> uuid \<Rightarrow> block_row list \<Rightarrow> db \<Rightarrow> db" where
  "queueApprovals s tenantID deviceID events d = (case EffectivePolicyForDevice tenantID deviceID d of
       (Inl _, d1) \<Rightarrow> d1
     | (Inr pv, d1) \<Rightarrow> (case UpsertApprovalRequests tenantID (pv_policy pv) deviceID events (gd_clock s) d1 of
         (Inl _, d2) \<Rightarrow> d2
       | (Inr newIDs, d2) \<Rightarrow> (case gd_notify s of
           None \<Rightarrow> d2
         | Some em \<Rightarrow> if newIDs = [] then d2
             else let (v, d3) = GetDevice tenantID deviceID d2
                  in fold (announce em tenantID deviceID (host_of s deviceID v)) newIDs d3)))"

definition ReportBlocks :: "'k agent_deps \<Rightarrow> device_id \<Rightarrow> wire_block list \<Rightarrow> db \<Rightarrow> unit rpc \<times> db" where
  "ReportBlocks s dev evs d = (let events = map (to_block (gd_now s)) evs in
     case RecordBlockEvents (di_tenant dev) (di_id dev) events (gd_clock s) d of
       (Inl e, d1) \<Rightarrow> (Inl (Internal, ''could not record block events''), d1)
     | (Inr _, d1) \<Rightarrow> (Inr (), queueApprovals s (di_tenant dev) (di_id dev) events d1))"

definition rpc_GetControls :: "device_id \<Rightarrow> db \<Rightarrow> device_controls_val rpc \<times> db" where
  "rpc_GetControls dev d = (case EffectiveControlsForDevice (di_tenant dev) (di_id dev) d of
       (Inl e, d1) \<Rightarrow> (if e = ErrNotFound then Inr no_controls else Inl (Internal, ''could not resolve controls''), d1)
     | (Inr c, d1) \<Rightarrow> (Inr c, d1))"

text \<open>A reported device event: kind, summary, Unix time.\<close>

definition ReportEvents :: "'k agent_deps \<Rightarrow> device_id \<Rightarrow> (string \<times> string \<times> int) list \<Rightarrow> db \<Rightarrow> unit rpc \<times> db" where
  "ReportEvents s dev evs d =
     (case RecordDeviceEvents (di_tenant dev) (di_id dev)
        (map (\<lambda>(kind, summary, t). (kind, summary, at_or_now (gd_now s) t)) (filter (\<lambda>e. fst e \<noteq> []) evs)) d of
        (Inl e, d1) \<Rightarrow> (Inl (Internal, ''could not record events''), d1)
      | (Inr _, d1) \<Rightarrow> (Inr (), d1))"

definition to_ringfence :: "resolved_ringfence \<Rightarrow> ringfence" where
  "to_ringfence r = \<lparr>rg_version = rr_version r, rg_mode = rr_mode r,
     rg_programs = map (\<lambda>p. \<lparr>pg_path = rp_path p, pg_blocked = rp_network_blocked p\<rparr>) (rr_programs r),
     rg_protections = map (\<lambda>p. \<lparr>pt_rule = rt_rule p, pt_action = rt_action p\<rparr>) (rr_protections r)\<rparr>"

definition rpc_GetRingfence :: "'k agent_deps \<Rightarrow> device_id \<Rightarrow> db \<Rightarrow> ringfence rpc \<times> db" where
  "rpc_GetRingfence s dev d = (case RingfenceForDevice (gd_sha256 s) (di_tenant dev) (di_id dev) d of
       (Inl e, d1) \<Rightarrow> (if e = ErrNotFound then Inr no_ringfence else Inl (Internal, ''could not resolve ringfence''), d1)
     | (Inr r, d1) \<Rightarrow> (Inr (to_ringfence r), d1))"

record wire_violation =
  wv_kind :: string
  wv_program :: string
  wv_detail :: string
  wv_enforced :: bool
  wv_at_unix :: int

definition to_ringfence_event :: "time \<Rightarrow> wire_violation \<Rightarrow> ringfence_event_row" where
  "to_ringfence_event now w = \<lparr>re_id = 0, re_tenant = 0, re_device = 0, re_kind = wv_kind w, re_program = wv_program w, re_detail = wv_detail w,
     re_enforced = wv_enforced w, re_at = at_or_now now (wv_at_unix w)\<rparr>"

definition ReportRingfenceEvents :: "'k agent_deps \<Rightarrow> device_id \<Rightarrow> bool \<Rightarrow> wire_violation list \<Rightarrow> db \<Rightarrow> unit rpc \<times> db" where
  "ReportRingfenceEvents s dev asr evs d =
     (case AppendRingfenceEvents (di_tenant dev) (di_id dev)
        (map (to_ringfence_event (gd_clock s)) (filter (\<lambda>e. wv_kind e = ''network'' \<or> wv_kind e = ''child_process'') evs)) d of
        (Inl e, d1) \<Rightarrow> (Inl (Internal, ''could not record events''), d1)
      | (Inr _, d1) \<Rightarrow> (case SetDeviceASRAvailable (di_tenant dev) (di_id dev) asr d1 of
          (Inl e, d2) \<Rightarrow> (Inl (Internal, ''could not record events''), d2)
        | (Inr _, d2) \<Rightarrow> (Inr (), d2)))"

definition ReportMetrics :: "'k agent_deps \<Rightarrow> device_id \<Rightarrow> rat \<Rightarrow> rat \<Rightarrow> rat \<Rightarrow> db \<Rightarrow> unit rpc \<times> db" where
  "ReportMetrics s dev cpu mem disk d = (let x = \<lparr>sa_at = gd_now s, sa_cpu = cpu, sa_mem = mem, sa_disk = disk\<rparr> in
     case RecordMetrics (gd_real4 s) (di_tenant dev) (di_id dev) x (gd_now s) d of
       (Inl e, d1) \<Rightarrow> (Inl (Internal, ''could not record metrics''), d1)
     | (Inr _, d1) \<Rightarrow> (Inr (), case gd_alerting s of None \<Rightarrow> d1
         | Some a \<Rightarrow> snd (Evaluate a (di_tenant dev) (di_id dev) x (gd_now s) d1)))"

section \<open>The agent's side\<close>

text \<open>A missing answer is a failed call.\<close>

definition syncPolicy :: "('pk \<Rightarrow> bytes \<Rightarrow> bytes \<Rightarrow> bool) \<Rightarrow> 'pk \<Rightarrow> 'm endpoint \<Rightarrow> effective option \<Rightarrow> wdac_enforcer \<times> 'm \<Rightarrow> wdac_enforcer \<times> 'm" where
  "syncPolicy verify pub E resp s = (case resp of
       None \<Rightarrow> s
     | Some r \<Rightarrow> if ef_version r = we_version (fst s) then s
         else if \<not> verify pub (ef_version r) (ef_signature r) then s
         else snd (wdac_Apply E (ef_version r) (ef_mode r) (ef_xml r) s))"

definition syncControls :: "'m endpoint \<Rightarrow> device_controls_val option \<Rightarrow> control_enforcer \<times> 'm \<Rightarrow> control_enforcer \<times> 'm" where
  "syncControls E resp s = (case resp of None \<Rightarrow> s | Some c \<Rightarrow> snd (controls_Apply E c s))"

record scanned =
  sn_sha256 :: string
  sn_path :: string
  sn_signer :: string
  sn_tbs :: string
  sn_verified :: bool
  sn_downloaded :: bool
  sn_source :: string

text \<open>The request that is sent, if any.\<close>

definition reportObservations :: "scanned list option \<Rightarrow> observed_app list option" where
  "reportObservations r = (case r of None \<Rightarrow> None | Some obs \<Rightarrow> if obs = [] then None else Some (map (\<lambda>x.
     \<lparr>oa_sha256 = sn_sha256 x, oa_path = sn_path x, oa_signer = sn_signer x, oa_tbs = sn_tbs x, oa_verified = sn_verified x,
      oa_downloaded = Some (sn_downloaded x), oa_source = sn_source x\<rparr>) obs))"

text \<open>Signature information of a file: subject, certificate hash, whether the chain verified.\<close>

definition enrich :: "(string \<Rightarrow> (string \<times> string \<times> bool) option) \<Rightarrow> agent_block \<Rightarrow> agent_block" where
  "enrich FromFile e = (if ab_path e = [] \<or> ab_tbs e \<noteq> [] then e
     else case FromFile (ab_path e) of
         None \<Rightarrow> e
       | Some (subject, tbs, verified) \<Rightarrow>
           e\<lparr>ab_tbs := tbs, ab_verified := verified, ab_signer := (if ab_signer e = [] then subject else ab_signer e)\<rparr>)"

definition EnrichBlockEvents :: "(string \<Rightarrow> (string \<times> string \<times> bool) option) \<Rightarrow> agent_block list \<Rightarrow> agent_block list" where
  "EnrichBlockEvents FromFile = map (enrich FromFile)"

definition wire_block_of :: "agent_block \<Rightarrow> wire_block" where
  "wire_block_of e = \<lparr>wb_sha256 = ab_sha256 e, wb_path = ab_path e, wb_signer = ab_signer e, wb_blocked = ab_blocked e,
     wb_at_unix = to_unix (ab_at e), wb_tbs = ab_tbs e, wb_verified = ab_verified e\<rparr>"

definition reportBlocks :: "(string \<Rightarrow> (string \<times> string \<times> bool) option) \<Rightarrow> 'm endpoint \<Rightarrow> 'm \<Rightarrow> wire_block list option" where
  "reportBlocks FromFile E m = (case wdac_Events E m of None \<Rightarrow> None
     | Some evs \<Rightarrow> if evs = [] then None else Some (map wire_block_of (EnrichBlockEvents FromFile evs)))"

definition reportEvents :: "'m endpoint \<Rightarrow> 'm \<Rightarrow> (string \<times> string \<times> int) list option" where
  "reportEvents E m = (case events_Read E m of None \<Rightarrow> None
     | Some evs \<Rightarrow> if evs = [] then None else Some (map (\<lambda>e. (ae_kind e, ae_summary e, to_unix (ae_at e))) evs))"

definition wire_violation_of :: "violation \<Rightarrow> wire_violation" where
  "wire_violation_of v = \<lparr>wv_kind = vi_kind v, wv_program = vi_program v, wv_detail = vi_detail v, wv_enforced = vi_enforced v, wv_at_unix = to_unix (vi_at v)\<rparr>"

section \<open>From the console to the machine\<close>

lemma syncPolicy_installs:
  assumes "deploy_laws E F A" "verify pub (ef_version r) (ef_signature r)" "ef_version r \<noteq> we_version e"
    and "fst (wdac_Apply E (ef_version r) (ef_mode r) (ef_xml r) (e, m))"
  shows "A (snd (syncPolicy verify pub E (Some r) (e, m))) = Some (ef_xml r)"
proof -
  obtain e' m' where a: "wdac_Apply E (ef_version r) (ef_mode r) (ef_xml r) (e, m) = (True, e', m')"
    using assms(4) by (cases "wdac_Apply E (ef_version r) (ef_mode r) (ef_xml r) (e, m)") auto
  have "A m' = Some (ef_xml r)" using wdac_Apply_installs [OF assms(1) a] assms(3) by simp
  then show ?thesis using assms(2,3) by (simp add: syncPolicy_def a)
qed


definition demo_deps :: "string agent_deps" where
  "demo_deps = \<lparr>gd_policy = Some demo_policies, gd_alerting = None, gd_notify = None, gd_now = 0, gd_clock = 0, gd_sha256 = id,
     gd_real4 = id, gd_uuid_text = (\<lambda>_. ''id'')\<rparr>"


text \<open>
  Nothing unsigned is applied. Whatever the server answers, in any number of polls, an agent whose
  tenant key signed none of the versions in the answers leaves the machine and its own state as they were.
\<close>

lemma unsigned_answers_ignored:
  assumes "\<And>r. Some r \<in> set answers \<Longrightarrow> \<not> verify pub (ef_version r) (ef_signature r)"
  shows "fold (syncPolicy verify pub E) answers s = s"
  using assms
proof (induction answers)
  case (Cons a answers)
  then have "syncPolicy verify pub E a s = s" by (cases a) (auto simp: syncPolicy_def)
  then show ?case using Cons by simp
qed simp

text \<open>
  C24: the signature does not cover the policy. Any answer that carries a version and a signature the key
  once made is applied with whatever document comes with it: the agent never compares the document with the
  version, which is its hash.
\<close>

theorem policy_content_unauthenticated:
  assumes "deploy_laws E F A" "verify pub version sg" "version \<noteq> we_version e" "fst (wdac_Apply E version mode forged (e, m))"
  shows "A (snd (syncPolicy verify pub E (Some \<lparr>ef_version = version, ef_mode = mode, ef_xml = forged, ef_signature = sg\<rparr>) (e, m))) = Some forged"
  using syncPolicy_installs [OF assms(1), of verify pub "\<lparr>ef_version = version, ef_mode = mode, ef_xml = forged, ef_signature = sg\<rparr>" e m] assms(2-)
  by simp

theorem policy_content_unauthenticated_witness:
  "bm_active (snd (syncPolicy (\<lambda>k m s. s = k @ m) ''k'' (bench_endpoint False)
     (Some \<lparr>ef_version = ''v'', ef_mode = ''enforce'', ef_xml = ''forged'', ef_signature = ''kv''\<rparr>)
     (\<lparr>we_dir = ''d'', we_version = '''', we_mode = ''''\<rparr>, clean_machine))) = Some ''forged''"
  by (rule policy_content_unauthenticated [OF bench_deploy])
    (simp_all add: wdac_Apply_def bench_endpoint_def clean_machine_def Let_def)

end
