(* ===== verification/Exports.thy ===== *)
theory Exports
  imports Approvals Ringfence Syslog
begin

text \<open>
  The audit log as the console reads it (\<^verbatim>\<open>store/audit.go\<close>, \<^verbatim>\<open>httpapi/auditlog.go\<close>) and the CSV
  downloads of \<^verbatim>\<open>httpapi/exports.go\<close>: the rows of \<^verbatim>\<open>encoding/csv\<close>, the response that is
  streamed row by row to a client who may go away, the paged audit export with the
  statements of other requests between its pages, and the three exports of one query.

  The theorems show that a CSV file reads back as the rows it was written from, whatever
  a device or an administrator put into a field; that the audit export lists every entry of
  the tenant once, newest first, up to the limit, however many entries are added
  meanwhile; and that a lost connection in the middle leaves a file nothing tells from a
  complete one.
\<close>

section \<open>Reading the audit log\<close>

definition MaxInt64 :: int where "MaxInt64 = 2 ^ 63 - 1"

definition ListAudit :: "uuid \<Rightarrow> nat \<Rightarrow> int \<Rightarrow> db \<Rightarrow> audit_row list res \<times> db" where
  "ListAudit tenantID limit beforeID = (let b = (if beforeID = 0 then MaxInt64 else beforeID) in pool (\<lambda>d.
     (Inr (take limit (rev (sort_key au_id
        (filter (\<lambda>e. au_tenant e = tenantID \<and> int (au_id e) < b) (audit_log d))))), d)))"

definition label_text :: "render \<Rightarrow> label \<Rightarrow> string" where
  "label_text R l = (case l of Txt s \<Rightarrow> s | IdTxt p i \<Rightarrow> p @ uuid_text R i)"

definition detailJSON :: "detail_val \<Rightarrow> json" where
  "detailJSON v = (case v of DStr s \<Rightarrow> JStr s | DInt n \<Rightarrow> JInt n | DBool b \<Rightarrow> JBool b | DRat q \<Rightarrow> JRat q | DId i \<Rightarrow> JId i
     | DStrs ss \<Rightarrow> JArr (map JStr ss))"

definition auditJSON :: "render \<Rightarrow> audit_row \<Rightarrow> json" where
  "auditJSON R e = JObj [(''id'', JInt (int (au_id e))), (''actor'', JStr (label_text R (au_actor e))),
     (''action'', JStr (au_action e)), (''target_type'', JStr (au_target_type e)), (''target_id'', JStr (label_text R (au_target_id e))),
     (''detail'', JObj (map (\<lambda>(k, v). (k, detailJSON v)) (au_detail e))), (''ip'', JStr (au_ip e)), (''result'', JStr (au_result e)),
     (''created_at'', JTime (au_created_at e))]"

text \<open>The cursor of the query string; None is a missing or unparsable one.\<close>

definition listAudit :: "render \<Rightarrow> int option \<Rightarrow> int option \<Rightarrow> principal \<Rightarrow> db \<Rightarrow> response \<times> db" where
  "listAudit R beforeParam limitParam p d =
     (let before = (case beforeParam of None \<Rightarrow> 0 | Some b \<Rightarrow> b)
      in respond (\<lambda>es. JArr (map (auditJSON R) es)) (ListAudit (pr_tenant p) (nat (queryInt limitParam 100 500)) before d))"

section \<open>CSV\<close>

text \<open>
  \<^verbatim>\<open>encoding/csv\<close>: a field is quoted when it holds a comma, a quote or a line break, starts with
  white space or is the end marker of some databases; a quote is doubled. White space
  beyond ASCII is listed by its UTF-8 encoding.
\<close>

definition wide_spaces :: "string list" where
  "wide_spaces = [[CHR 0xC2, CHR 0x85], [CHR 0xC2, CHR 0xA0], [CHR 0xE1, CHR 0x9A, CHR 0x80],
     [CHR 0xE2, CHR 0x80, CHR 0xA8], [CHR 0xE2, CHR 0x80, CHR 0xA9], [CHR 0xE2, CHR 0x80, CHR 0xAF],
     [CHR 0xE2, CHR 0x81, CHR 0x9F], [CHR 0xE3, CHR 0x80, CHR 0x80]] @
     map (\<lambda>n. [CHR 0xE2, CHR 0x80, char_of n]) [128..<139 :: nat]"

definition starts_with_space :: "string \<Rightarrow> bool" where
  "starts_with_space s \<longleftrightarrow> s \<noteq> [] \<and> (is_space (hd s) \<or> list_ex (\<lambda>w. HasPrefix s w) wide_spaces)"

definition fieldNeedsQuotes :: "string \<Rightarrow> bool" where
  "fieldNeedsQuotes s \<longleftrightarrow> s = [BSL, CHR ''.''] \<or>
     list_ex (\<lambda>c. c = CHR '','' \<or> c = DQ \<or> c = CR \<or> c = LF) s \<or> starts_with_space s"

definition csv_field :: "string \<Rightarrow> string" where
  "csv_field s = (if fieldNeedsQuotes s then [DQ] @ replacer [(DQ, [DQ, DQ])] s @ [DQ] else s)"

definition csv_line :: "string list \<Rightarrow> string" where
  "csv_line row = join '','' (map csv_field row) @ [LF]"

definition csv_text :: "string list list \<Rightarrow> string" where
  "csv_text rows = concat (map csv_line rows)"

section \<open>The streamed response\<close>

text \<open>
  The writer's buffer, what has reached the client, and an oracle for the coming flushes:
  \<open>Some k\<close> is a connection that breaks after \<open>k\<close> characters of the buffer. An error sticks.
\<close>

record stream =
  st_buffer :: string
  st_sent :: string
  st_breaks :: "nat option list"
  st_broken :: bool

definition cw_Write :: "string list \<Rightarrow> stream \<Rightarrow> bool \<times> stream" where
  "cw_Write row s = (if st_broken s then (False, s) else (True, s\<lparr>st_buffer := st_buffer s @ csv_line row\<rparr>))"

definition cw_Flush :: "stream \<Rightarrow> stream" where
  "cw_Flush s = (if st_broken s \<or> st_buffer s = [] then s
     else let whole = s\<lparr>st_sent := st_sent s @ st_buffer s, st_buffer := []\<rparr> in
       case st_breaks s of
         [] \<Rightarrow> whole
       | None # rest \<Rightarrow> whole\<lparr>st_breaks := rest\<rparr>
       | Some k # rest \<Rightarrow> s\<lparr>st_sent := st_sent s @ take k (st_buffer s), st_breaks := rest, st_broken := True\<rparr>)"

definition exportMaxRows :: nat where "exportMaxRows = 100000"
definition exportPage :: nat where "exportPage = 1000"

definition csvExport :: "string list \<Rightarrow> stream \<Rightarrow> bool \<times> stream" where
  "csvExport header s = cw_Write header s"

definition export_filename :: "string \<Rightarrow> string \<Rightarrow> string" where
  "export_filename name today = ''freelocker-'' @ name @ ''-'' @ today @ ''.csv''"

definition download :: "string \<Rightarrow> string \<Rightarrow> stream \<Rightarrow> response" where
  "download name today s = \<lparr>rsp_code = 200, rsp_body = FileBody (export_filename name today) (st_sent s)\<rparr>"

definition flushRow :: "string list \<Rightarrow> stream \<Rightarrow> bool \<times> stream" where
  "flushRow row s = (let (ok, s1) = cw_Write row s in
     if \<not> ok then (False, s1) else let s2 = cw_Flush s1 in (\<not> st_broken s2, s2))"

definition truncation_row :: "nat \<Rightarrow> string list" where
  "truncation_row n =
     (''TRUNCATED: export limit of '' @ show_nat exportMaxRows @ '' rows reached; narrow the range or use the API'') #
     replicate (n - 1) []"

definition writeTruncationMarker :: "nat \<Rightarrow> stream \<Rightarrow> stream" where
  "writeTruncationMarker n s = snd (flushRow (truncation_row n) s)"

section \<open>The audit export\<close>

definition audit_header :: "string list" where
  "audit_header = [''time'', ''actor'', ''action'', ''target_type'', ''target_id'', ''result'', ''ip'', ''detail'']"

definition audit_record :: "render \<Rightarrow> audit_row \<Rightarrow> string list" where
  "audit_record R e =
     (let detail = (if au_detail e = [] then [] else case json_detail R (au_detail e) of Inr b \<Rightarrow> b | Inl _ \<Rightarrow> [])
      in [rfc3339 R (au_created_at e), label_text R (au_actor e), au_action e, au_target_type e,
          label_text R (au_target_id e), au_result e, au_ip e, detail])"

text \<open>
  One page: whether the client is still there, the rows written so far and the new cursor.
\<close>

fun write_entries :: "render \<Rightarrow> audit_row list \<Rightarrow> nat \<Rightarrow> int \<Rightarrow> stream \<Rightarrow> bool \<times> nat \<times> int \<times> stream" where
  "write_entries R [] written before s = (True, written, before, s)"
| "write_entries R (e # es) written before s =
     (let (ok, s1) = flushRow (audit_record R e) s in
      if \<not> ok then (False, written, before, s1)
      else if Suc written \<ge> exportMaxRows then (True, Suc written, int (au_id e), s1)
      else write_entries R es (Suc written) (int (au_id e)) s1)"

lemma write_entries_mono:
  "write_entries R es w b s = (ok, w', b', s') \<Longrightarrow> w \<le> w' \<and> (es \<noteq> [] \<and> ok \<longrightarrow> w < w')"
proof (induction R es w b s arbitrary: ok w' b' s' rule: write_entries.induct)
  case (2 R e es w b s)
  obtain ok1 s1 where f: "flushRow (audit_record R e) s = (ok1, s1)" by fastforce
  show ?case
  proof (cases "ok1 \<and> \<not> Suc w \<ge> exportMaxRows")
    case True
    with 2 f show ?thesis by fastforce
  next
    case False
    with 2(2) f show ?thesis by (auto split: if_splits)
  qed
qed simp

text \<open>
  The pages. \<open>others n\<close> is what the statements of other requests do to the database before
  the query that follows the \<open>n\<close>-th row.
\<close>

function audit_pages ::
  "render \<Rightarrow> uuid \<Rightarrow> (nat \<Rightarrow> db \<Rightarrow> db) \<Rightarrow> int \<Rightarrow> nat \<Rightarrow> stream \<Rightarrow> db \<Rightarrow> (bool \<times> nat \<times> stream) \<times> db" where
  "audit_pages R tenantID others before written s d =
     (if written \<ge> exportMaxRows then ((True, written, s), d)
      else case ListAudit tenantID exportPage before (others written d) of
        (Inl _, d1) \<Rightarrow> ((True, written, s), d1)
      | (Inr entries, d1) \<Rightarrow>
          if entries = [] then ((True, written, s), d1)
          else case write_entries R entries written before s of
            (False, written', _, s1) \<Rightarrow> ((False, written', s1), d1)
          | (True, written', before', s1) \<Rightarrow>
              if length entries < exportPage then ((True, written', s1), d1)
              else audit_pages R tenantID others before' written' s1 d1)"
  by pat_completeness auto
termination
  by (relation "measure (\<lambda>(_, _, _, _, w, _, _). exportMaxRows - w)")
    (auto dest!: write_entries_mono [OF sym])

declare audit_pages.simps [simp del]

definition exportAudit ::
  "render \<Rightarrow> string \<Rightarrow> (nat \<Rightarrow> db \<Rightarrow> db) \<Rightarrow> stream \<Rightarrow> principal \<Rightarrow> db \<Rightarrow> response \<times> db" where
  "exportAudit R today others s p d =
     (let d0 = audit p ''export'' ''audit'' (Txt '''') [(''format'', DStr ''csv'')] ''success'' d;
          (ok, s1) = csvExport audit_header s
      in if \<not> ok then (download ''audit'' today s1, d0)
         else case audit_pages R (pr_tenant p) others 0 0 s1 d0 of
           ((False, _, s2), d1) \<Rightarrow> (download ''audit'' today s2, d1)
         | ((True, written, s2), d1) \<Rightarrow>
             (let s3 = (if written \<ge> exportMaxRows then writeTruncationMarker 8 s2 else s2)
              in (download ''audit'' today (cw_Flush s3), d1)))"

section \<open>The exports of one query\<close>

fun write_rows :: "string list list \<Rightarrow> stream \<Rightarrow> bool \<times> stream" where
  "write_rows [] s = (True, s)"
| "write_rows (row # rows) s =
     (let (ok, s1) = flushRow row s in if \<not> ok then (False, s1) else write_rows rows s1)"

definition export_list :: "string \<Rightarrow> string list \<Rightarrow> bool \<Rightarrow> ('a \<Rightarrow> string list) \<Rightarrow> string \<Rightarrow> 'a list \<Rightarrow> stream \<Rightarrow> response" where
  "export_list name header limited f today xs s =
     (let (ok, s1) = csvExport header s in
      if \<not> ok then download name today s1
      else let (alive, s2) = write_rows (map f xs) s1 in
        if \<not> alive then download name today s2
        else let s3 = (if limited \<and> length xs \<ge> exportMaxRows then writeTruncationMarker (length header) s2 else s2)
          in download name today (cw_Flush s3))"

definition export_query ::
  "string \<Rightarrow> string list \<Rightarrow> bool \<Rightarrow> ('a \<Rightarrow> string list) \<Rightarrow> string \<Rightarrow> stream \<Rightarrow> 'a list res \<times> db \<Rightarrow> response \<times> db" where
  "export_query name header limited f today s r = (case r of
       (Inl e, d1) \<Rightarrow> (storeErr e, d1)
     | (Inr xs, d1) \<Rightarrow> (export_list name header limited f today xs s, d1))"

definition joinIPs :: "string list \<Rightarrow> string" where
  "joinIPs ips = foldl (\<lambda>out (i, ip). (if i > 0 then out @ '' '' else out) @ ip) [] (enumerate 0 ips)"

definition FormatBool :: "bool \<Rightarrow> string" where
  "FormatBool b = (if b then ''true'' else ''false'')"

definition device_header :: "string list" where
  "device_header = [''id'', ''hostname'', ''os_build'', ''agent_version'', ''ip_addresses'',
     ''logged_on_user'', ''last_seen_at'', ''cert_expires_at'', ''enrolled_at'', ''revoked'']"

definition device_record :: "render \<Rightarrow> device_row \<Rightarrow> string list" where
  "device_record R v = [uuid_text R (dv_id v), dv_hostname v, dv_os_build v, dv_agent_version v, joinIPs (dv_ips v), dv_user v,
     (case dv_last_seen v of None \<Rightarrow> [] | Some t \<Rightarrow> rfc3339 R t), rfc3339 R (dv_cert_expires_at v), rfc3339 R (dv_enrolled_at v),
     FormatBool (dv_revoked v)]"

definition exportDevices :: "render \<Rightarrow> string \<Rightarrow> stream \<Rightarrow> principal \<Rightarrow> db \<Rightarrow> response \<times> db" where
  "exportDevices R today s p d = export_query ''devices'' device_header False (device_record R) today s (ListDevices (pr_tenant p) d)"

definition block_header :: "string list" where
  "block_header = [''time'', ''device_id'', ''sha256'', ''path'', ''signer'', ''signer_verified'', ''blocked'']"

definition block_record :: "render \<Rightarrow> block_row \<Rightarrow> string list" where
  "block_record R e = [rfc3339 R (bl_at e), uuid_text R (bl_device e), bl_sha256 e, bl_path e, bl_signer e,
     FormatBool (bl_signer_verified e), FormatBool (bl_blocked e)]"

definition exportBlocks :: "render \<Rightarrow> string \<Rightarrow> stream \<Rightarrow> principal \<Rightarrow> db \<Rightarrow> response \<times> db" where
  "exportBlocks R today s p d =
     export_query ''blocks'' block_header True (block_record R) today s (ListBlockEvents (pr_tenant p) (int exportMaxRows) d)"

definition violation_header :: "string list" where
  "violation_header = [''time'', ''device_id'', ''hostname'', ''kind'', ''program'', ''detail'', ''enforced'']"

definition violation_record :: "render \<Rightarrow> ringfence_event_row \<times> string \<Rightarrow> string list" where
  "violation_record R x = (let (e, hostname) = x in [rfc3339 R (re_at e), uuid_text R (re_device e), hostname, re_kind e,
     re_program e, re_detail e, FormatBool (re_enforced e)])"

definition exportRingfenceEvents :: "render \<Rightarrow> string \<Rightarrow> stream \<Rightarrow> principal \<Rightarrow> db \<Rightarrow> response \<times> db" where
  "exportRingfenceEvents R today s p d = export_query ''ringfence-events'' violation_header True (violation_record R) today s
     (ListRingfenceEvents (pr_tenant p) (int exportMaxRows) None d)"

definition exportCSV ::
  "render \<Rightarrow> string \<Rightarrow> (nat \<Rightarrow> db \<Rightarrow> db) \<Rightarrow> stream \<Rightarrow> string \<Rightarrow> principal \<Rightarrow> db \<Rightarrow> response \<times> db" where
  "exportCSV R today others s resource p d =
     (if resource = ''audit.csv'' then exportAudit R today others s p d
      else if resource = ''devices.csv'' then exportDevices R today s p d
      else if resource = ''blocks.csv'' then exportBlocks R today s p d
      else if resource = ''ringfence-events.csv'' then exportRingfenceEvents R today s p d
      else (\<lparr>rsp_code = 404, rsp_body = TextBody ''404 page not found''\<rparr>, d))"

section \<open>Reading a CSV file back\<close>

text \<open>
  The reference reader (RFC 4180): the state says whether a field is about to start, runs
  bare, runs between quotes, or has just met a quote inside a quoted field.
\<close>

datatype csv_mode = Start | Bare | Quoted | Closing

fun csv_read :: "csv_mode \<Rightarrow> string \<Rightarrow> string list \<Rightarrow> string \<Rightarrow> string list list" where
  "csv_read m f row [] = (if m = Start \<and> row = [] then [] else [rev (rev f # row)])"
| "csv_read m f row (c # cs) =
     (if m = Quoted then (if c = DQ then csv_read Closing f row cs else csv_read Quoted (c # f) row cs)
      else if m = Closing \<and> c = DQ then csv_read Quoted (DQ # f) row cs
      else if c = CHR '','' then csv_read Start [] (rev f # row) cs
      else if c = LF then rev (rev f # row) # csv_read Start [] [] cs
      else if m = Start \<and> c = DQ then csv_read Quoted f row cs
      else csv_read Bare (c # f) row cs)"

definition csv_rows :: "string \<Rightarrow> string list list" where
  "csv_rows s = csv_read Start [] [] s"

text \<open>A field ends at a comma or a line break.\<close>

definition ends_field :: "char \<Rightarrow> bool" where
  "ends_field c \<longleftrightarrow> c = CHR '','' \<or> c = LF"

lemma read_end:
  assumes "m \<noteq> Quoted" "ends_field c"
  shows "csv_read m f row (c # rest) = csv_read Bare f row (c # rest)"
  using assms by (cases m) (auto simp: ends_field_def char_defs)

lemma read_quoted:
  "csv_read Quoted f row (replacer [(DQ, [DQ, DQ])] x @ DQ # rest) = csv_read Closing (rev x @ f) row rest"
  by (induction x arbitrary: f) auto

lemma read_bare:
  "list_all (\<lambda>c. c \<noteq> CHR '','' \<and> c \<noteq> DQ \<and> c \<noteq> LF) x \<Longrightarrow> x \<noteq> [] \<or> m = Bare \<Longrightarrow> m = Start \<or> m = Bare \<Longrightarrow>
   csv_read m f row (x @ rest) = csv_read Bare (rev x @ f) row rest"
  by (induction x arbitrary: f m) auto

lemma read_field:
  assumes "ends_field c"
  shows "csv_read Start [] row (csv_field x @ c # rest) = csv_read Bare (rev x) row (c # rest)"
proof (cases "fieldNeedsQuotes x")
  case True
  have "csv_read Start [] row (csv_field x @ c # rest) = csv_read Quoted [] row (replacer [(DQ, [DQ, DQ])] x @ DQ # c # rest)"
    using True by (simp add: csv_field_def char_defs)
  also have "\<dots> = csv_read Closing (rev x) row (c # rest)" by (simp add: read_quoted)
  also have "\<dots> = csv_read Bare (rev x) row (c # rest)" using assms by (intro read_end) simp_all
  finally show ?thesis .
next
  case False
  then have x: "list_all (\<lambda>c. c \<noteq> CHR '','' \<and> c \<noteq> DQ \<and> c \<noteq> LF) x"
    by (auto simp: fieldNeedsQuotes_def list_all_iff list_ex_iff)
  show ?thesis
  proof (cases "x = []")
    case True
    then show ?thesis using False read_end [OF _ assms, where m = Start]
      by (simp add: csv_field_def del: csv_read.simps)
  next
    case nonempty: False
    with x False show ?thesis by (simp add: csv_field_def read_bare [of x Start])
  qed
qed

lemma read_line:
  "row \<noteq> [] \<Longrightarrow> csv_read Start [] done (csv_line row @ rest) = rev (rev row @ done) # csv_read Start [] [] rest"
proof (induction row arbitrary: "done" rule: induct_list012)
  case (2 x)
  have "ends_field LF" by (simp add: ends_field_def)
  from read_field [OF this] show ?case by (simp add: csv_line_def char_defs)
next
  case (3 x y zs)
  have "ends_field (CHR '','')" by (simp add: ends_field_def)
  then have "csv_read Start [] done (csv_line (x # y # zs) @ rest) =
      csv_read Bare (rev x) done (CHR '','' # csv_line (y # zs) @ rest)"
    by (simp add: csv_line_def read_field)
  also have "\<dots> = csv_read Start [] (x # done) (csv_line (y # zs) @ rest)" by (simp add: char_defs)
  finally show ?case using 3(2) [of "x # done"] by simp
qed simp

lemma csv_rows_text: "\<forall>row \<in> set rows. row \<noteq> [] \<Longrightarrow> csv_rows (csv_text rows) = rows"
  by (induction rows) (simp_all add: csv_rows_def csv_text_def read_line)

text \<open>
  A downloaded file reads back as the rows it was written from, field by field, whatever the
  fields contain: commas, quotes, line breaks, leading blanks or nothing at all. No value
  a device reports can add a row or a column.
\<close>

theorem csv_round_trip:
  assumes "\<forall>row \<in> set rows. row \<noteq> []"
  shows "csv_rows (csv_text rows) = rows"
  using assms by (rule csv_rows_text)

theorem csv_round_trip_witness:
  "csv_rows (csv_text [[''a,b'', [DQ, LF]], ['''', '' x'']]) = [[''a,b'', [DQ, LF]], ['''', '' x'']]"
  by (rule csv_round_trip) simp

section \<open>A client that stays\<close>

definition healthy :: "stream \<Rightarrow> bool" where
  "healthy s \<longleftrightarrow> \<not> st_broken s \<and> st_breaks s = []"

definition st_text :: "stream \<Rightarrow> string" where
  "st_text s = st_sent s @ st_buffer s"

definition open_stream :: stream where
  "open_stream = \<lparr>st_buffer = [], st_sent = [], st_breaks = [], st_broken = False\<rparr>"

lemma open_stream [simp]: "healthy open_stream" "st_text open_stream = []"
  by (simp_all add: healthy_def st_text_def open_stream_def)

lemma csv_text_simps [simp]:
  "csv_text [] = []" "csv_text (row # rows) = csv_line row @ csv_text rows"
  "csv_text (rows @ rows') = csv_text rows @ csv_text rows'"
  by (simp_all add: csv_text_def)

lemma cw_Flush_healthy: "healthy s \<Longrightarrow> st_sent (cw_Flush s) = st_text s"
  by (simp add: healthy_def st_text_def cw_Flush_def)

lemma cw_Write_healthy:
  "healthy s \<Longrightarrow> \<exists>s'. cw_Write row s = (True, s') \<and> healthy s' \<and> st_text s' = st_text s @ csv_line row"
  by (simp add: cw_Write_def healthy_def st_text_def)

lemma flushRow_healthy:
  "healthy s \<Longrightarrow> \<exists>s'. flushRow row s = (True, s') \<and> healthy s' \<and> st_text s' = st_text s @ csv_line row"
  by (simp add: flushRow_def cw_Write_def cw_Flush_def healthy_def st_text_def csv_line_def Let_def)

lemma marker_healthy:
  assumes "healthy s"
  shows "healthy (writeTruncationMarker n s) \<and>
    st_text (writeTruncationMarker n s) = st_text s @ csv_line (truncation_row n)"
  using flushRow_healthy [OF assms, of "truncation_row n"] by (auto simp: writeTruncationMarker_def)

lemma write_rows_healthy:
  "healthy s \<Longrightarrow> \<exists>s'. write_rows rows s = (True, s') \<and> healthy s' \<and> st_text s' = st_text s @ csv_text rows"
proof (induction rows arbitrary: s)
  case (Cons row rows)
  from flushRow_healthy [OF Cons.prems] obtain s1 where
    1: "flushRow row s = (True, s1)" "healthy s1" "st_text s1 = st_text s @ csv_line row" by blast
  with Cons.IH [OF 1(2)] show ?case by auto
qed simp

lemma write_entries_healthy:
  assumes "healthy s" "w < exportMaxRows"
  shows "\<exists>s'. write_entries R es w b s =
      (True, w + min (length es) (exportMaxRows - w),
       (if es = [] then b else int (au_id (es ! (min (length es) (exportMaxRows - w) - 1)))), s') \<and>
    healthy s' \<and> st_text s' = st_text s @ csv_text (map (audit_record R) (take (exportMaxRows - w) es))"
  using assms
proof (induction es arbitrary: w b s)
  case (Cons e es)
  from flushRow_healthy [OF Cons.prems(1)] obtain s1 where
    1: "flushRow (audit_record R e) s = (True, s1)" "healthy s1" "st_text s1 = st_text s @ csv_line (audit_record R e)" by blast
  have n: "exportMaxRows - w = Suc (exportMaxRows - Suc w)" using Cons.prems(2) by simp
  show ?case
  proof (cases "Suc w < exportMaxRows")
    case True
    from Cons.IH [OF 1(2) True] obtain s2 where
      2: "write_entries R es (Suc w) (int (au_id e)) s1 = (True, Suc w + min (length es) (exportMaxRows - Suc w),
         (if es = [] then int (au_id e) else int (au_id (es ! (min (length es) (exportMaxRows - Suc w) - 1)))), s2)"
      "healthy s2" "st_text s2 = st_text s1 @ csv_text (map (audit_record R) (take (exportMaxRows - Suc w) es))" by blast
    have "0 < exportMaxRows - Suc w" using True by simp
    with 1 2 True show ?thesis unfolding n by (auto simp: nth_Cons' min_def)
  next
    case False
    then have "exportMaxRows - w = 1" using Cons.prems(2) by simp
    with 1 False show ?thesis by simp
  qed
qed simp

section \<open>The pages of a growing log\<close>

text \<open>The log is in the order of its identifiers, which start at one.\<close>

definition audit_ok :: "db \<Rightarrow> bool" where
  "audit_ok d \<longleftrightarrow> sorted_wrt (<) (map au_id (audit_log d)) \<and> (\<forall>e \<in> set (audit_log d). 0 < au_id e \<and> au_id e \<le> audit_seq d)"

text \<open>What other requests may do to the log: add entries.\<close>

definition log_grows :: "db \<Rightarrow> db \<Rightarrow> bool" where
  "log_grows d d' \<longleftrightarrow> audit_ok d' \<and> faults d' = [] \<and> (\<exists>new. audit_log d' = audit_log d @ new)"

definition quiet :: "(nat \<Rightarrow> db \<Rightarrow> db) \<Rightarrow> bool" where
  "quiet others \<longleftrightarrow> (\<forall>n d. audit_ok d \<and> faults d = [] \<longrightarrow> log_grows d (others n d))"

definition newest_first :: "uuid \<Rightarrow> db \<Rightarrow> audit_row list" where
  "newest_first t d = rev (filter (\<lambda>e. au_tenant e = t) (audit_log d))"

definition cursor :: "int \<Rightarrow> int" where
  "cursor b = (if b = 0 then MaxInt64 else b)"

lemma AppendAudit_grows:
  assumes "audit_ok d" "faults d = []"
  shows "log_grows d (snd (AppendAudit t a b c e f g h d))"
  using assms by (auto simp: log_grows_def audit_ok_def AppendAudit_def sorted_wrt_append intro: le_SucI less_le_trans)

lemma ListAudit_newest:
  assumes "audit_ok d" "faults d = []"
  shows "ListAudit t n b d = (Inr (take n (filter (\<lambda>e. int (au_id e) < cursor b) (newest_first t d))), d)"
proof -
  let ?P = "\<lambda>e. au_tenant e = t \<and> int (au_id e) < cursor b"
  have "sorted (map au_id (audit_log d))"
    using assms(1) by (auto simp: audit_ok_def intro: strict_sorted_imp_sorted)
  then have "sorted (map au_id (filter ?P (audit_log d)))" by (rule sorted_filter)
  then have "sort_key au_id (filter ?P (audit_log d)) = filter ?P (audit_log d)" by (rule sort_key_id_if_sorted)
  then show ?thesis
    using assms(2) by (simp add: ListAudit_def newest_first_def cursor_def rev_filter filter_filter Let_def conj_commute)
qed

lemma newest_descending: "audit_ok d \<Longrightarrow> sorted_wrt (\<lambda>x y. au_id y < au_id x) (newest_first t d)"
  by (simp add: audit_ok_def newest_first_def sorted_wrt_rev sorted_wrt_map sorted_wrt_filter)

lemma newest_grows: "log_grows d d' \<Longrightarrow> \<exists>newer. newest_first t d' = newer @ newest_first t d"
  by (auto simp: log_grows_def newest_first_def)

text \<open>In a descending list, what lies below the last entry written is what has not been written.\<close>

lemma below_cursor:
  assumes "sorted_wrt (\<lambda>x y. au_id y < au_id x) (newer @ S)" "0 < w" "w \<le> length S"
  shows "filter (\<lambda>e. int (au_id e) < int (au_id (S ! (w - 1)))) (newer @ S) = drop w S"
proof -
  let ?c = "S ! (w - 1)"
  have S: "newer @ S = (newer @ take (w - 1) S) @ ?c # drop w S"
    using assms(2,3) id_take_nth_drop [of "w - 1" S] by simp
  have "\<forall>e \<in> set (newer @ take (w - 1) S). au_id ?c < au_id e" "\<forall>e \<in> set (drop w S). au_id e < au_id ?c"
    using assms(1) unfolding S sorted_wrt_append by auto
  then have "filter (\<lambda>e. int (au_id e) < int (au_id ?c)) (newer @ take (w - 1) S) = []"
    and "filter (\<lambda>e. int (au_id e) < int (au_id ?c)) (drop w S) = drop w S"
    unfolding filter_empty_conv filter_id_conv by (meson not_less_iff_gr_or_eq of_nat_less_iff)+
  then show ?thesis by (subst S) simp
qed

lemma export_limits: "0 < exportPage" "0 < exportMaxRows"
  by (simp_all add: exportPage_def exportMaxRows_def)

lemma take_upto: "take n xs = take (min (length xs) n) xs"
  by (simp add: min_def)

lemma drop_take_split: "w + k \<le> n \<Longrightarrow> drop w (take n S) = take k (drop w S) @ drop (w + k) (take n S)"
  using append_take_drop_id [of k "drop w (take n S)"] by (simp add: drop_take add.commute)

text \<open>
  The rest of the pages: \<open>S\<close> is the log at the first page, of which \<open>w\<close> entries are written.
\<close>

lemma audit_pages_exact:
  assumes "quiet others" "audit_ok d" "faults d = []" "healthy s" "w \<le> exportMaxRows" "w \<le> length S"
    and "newest_first t (others w d) = newer @ S"
    and "filter (\<lambda>e. int (au_id e) < cursor before) (newest_first t (others w d)) = drop w S"
  shows "\<exists>s' d'. audit_pages R t others before w s d = ((True, min exportMaxRows (length S), s'), d') \<and> healthy s' \<and>
     st_text s' = st_text s @ csv_text (map (audit_record R) (drop w (take exportMaxRows S)))"
  using assms(2-)
proof (induction "exportMaxRows - w" arbitrary: before w s d newer rule: less_induct)
  case less
  let ?d1 = "others w d" and ?E = "take exportPage (drop w S)"
  have g: "audit_ok ?d1" "faults ?d1 = []"
    using assms(1) less.prems(1,2) by (simp_all add: quiet_def log_grows_def)
  have L: "ListAudit t exportPage before ?d1 = (Inr ?E, ?d1)"
    using ListAudit_newest [OF g] less.prems(7) by simp
  consider "w = exportMaxRows" | "w < exportMaxRows" "?E = []" | "w < exportMaxRows" "?E \<noteq> []"
    using less.prems(4) by linarith
  then show ?case
  proof cases
    case 1
    with less.prems show ?thesis by (subst audit_pages.simps) (simp add: min_def)
  next
    case 2
    with less.prems(5) export_limits have "w = length S" by simp
    with 2 L less.prems show ?thesis by (subst audit_pages.simps) (simp add: min_def)
  next
    case 3
    define k where "k = min (length ?E) (exportMaxRows - w)"
    have k: "0 < k" "w + k \<le> length S" "w + k \<le> exportMaxRows" "k \<le> length ?E"
      using 3 less.prems(5) by (auto simp: k_def)
    obtain s1 where s1: "write_entries R ?E w before s = (True, w + k, int (au_id (?E ! (k - 1))), s1)" "healthy s1"
      "st_text s1 = st_text s @ csv_text (map (audit_record R) (take (exportMaxRows - w) ?E))"
      using write_entries_healthy [OF less.prems(3) 3(1), of R ?E before] 3(2) by (auto simp: k_def)
    have "k - 1 < exportPage" "w + (k - 1) = w + k - 1" using k by auto
    then have c: "?E ! (k - 1) = S ! (w + k - 1)" using k by (simp del: One_nat_def)
    have "take (exportMaxRows - w) ?E = take k ?E" unfolding k_def by (rule take_upto)
    also have "\<dots> = take k (drop w S)" using k(4) by (simp add: min_absorb1)
    finally have take_k: "take (exportMaxRows - w) ?E = take k (drop w S)" .
    note split = drop_take_split [OF k(3), of S]
    show ?thesis
    proof (cases "length ?E < exportPage")
      case True
      then have E: "?E = drop w S" by simp
      then have "w + k = min exportMaxRows (length S)" using 3(1) less.prems(5) unfolding k_def by (auto simp: min_def)
      with L 3 s1 True E show ?thesis by (subst audit_pages.simps) (simp add: drop_take)
    next
      case False
      let ?d2 = "others (w + k) ?d1"
      have "log_grows ?d1 ?d2" using assms(1) g by (simp add: quiet_def)
      then obtain newer' where n: "newest_first t ?d2 = (newer' @ newer) @ S" and ok: "audit_ok ?d2"
        using newest_grows [of ?d1 ?d2 t] less.prems(6) by (auto simp: log_grows_def)
      have "S ! (w + k - 1) \<in> set S" using k by simp
      then have "S ! (w + k - 1) \<in> set (newest_first t ?d2)" unfolding n by simp
      then have pos: "0 < au_id (S ! (w + k - 1))" using ok by (simp add: audit_ok_def newest_first_def)
      have "filter (\<lambda>e. int (au_id e) < cursor (int (au_id (S ! (w + k - 1))))) (newest_first t ?d2) = drop (w + k) S"
        using below_cursor [of "newer' @ newer" S "w + k"] newest_descending [OF ok, of t] n k pos by (simp add: cursor_def)
      moreover have "exportMaxRows - (w + k) < exportMaxRows - w" using k 3(1) by simp
      ultimately obtain s2 d2 where
        s2: "audit_pages R t others (int (au_id (S ! (w + k - 1)))) (w + k) s1 ?d1 = ((True, min exportMaxRows (length S), s2), d2)"
        "healthy s2" "st_text s2 = st_text s1 @ csv_text (map (audit_record R) (drop (w + k) (take exportMaxRows S)))"
        using less.hyps [OF _ g s1(2) k(3) k(2) n] by blast
      with L 3 s1 False c take_k split show ?thesis by (subst audit_pages.simps) simp
    qed
  qed
qed

section \<open>What the files contain\<close>

text \<open>The record the audit export leaves of itself.\<close>

definition export_entry :: "principal \<Rightarrow> db \<Rightarrow> db" where
  "export_entry p d = audit p ''export'' ''audit'' (Txt '''') [(''format'', DStr ''csv'')] ''success'' d"

definition marker_rows :: "nat \<Rightarrow> nat \<Rightarrow> string list list" where
  "marker_rows n rows = (if rows \<ge> exportMaxRows then [truncation_row n] else [])"

lemma record_nonempty [simp]:
  "audit_record R e \<noteq> []" "device_record R v \<noteq> []" "block_record R b \<noteq> []" "violation_record R x \<noteq> []"
  "truncation_row n \<noteq> []" "audit_header \<noteq> []" "device_header \<noteq> []" "block_header \<noteq> []" "violation_header \<noteq> []"
  by (simp_all add: audit_record_def device_record_def block_record_def violation_record_def truncation_row_def
      audit_header_def device_header_def block_header_def violation_header_def Let_def split_beta)

lemma export_entry_grows: "audit_ok d \<Longrightarrow> faults d = [] \<Longrightarrow> log_grows d (export_entry p d)"
  unfolding export_entry_def audit_def by (rule AppendAudit_grows)

lemma export_entry_recorded:
  "faults d = [] \<Longrightarrow> \<exists>e \<in> set (newest_first (pr_tenant p) (export_entry p d)). au_action e = ''export''"
  by (simp add: export_entry_def audit_def AppendAudit_def newest_first_def)

lemma audit_file:
  assumes "quiet others" "audit_ok d" "faults d = []"
    and d1: "d1 = others 0 (export_entry p d)" and "int (audit_seq d1) < MaxInt64"
  defines "S \<equiv> newest_first (pr_tenant p) d1"
  shows "\<exists>d'. exportAudit R today others open_stream p d =
    (\<lparr>rsp_code = 200, rsp_body = FileBody (export_filename ''audit'' today)
       (csv_text (audit_header # map (audit_record R) (take exportMaxRows S) @ marker_rows 8 (length S)))\<rparr>, d')"
proof -
  let ?d0 = "export_entry p d"
  have g0: "audit_ok ?d0" "faults ?d0 = []" using export_entry_grows [OF assms(2,3)] by (simp_all add: log_grows_def)
  then have "log_grows ?d0 d1" using assms(1) unfolding quiet_def d1 by blast
  then have g1: "audit_ok d1" unfolding log_grows_def by blast
  obtain s1 where s1: "csvExport audit_header open_stream = (True, s1)" "healthy s1" "st_text s1 = csv_line audit_header"
    using cw_Write_healthy [OF open_stream(1)] by (auto simp: csvExport_def)
  have "int (au_id e) < cursor 0" if "e \<in> set S" for e
  proof -
    from that g1 have "au_id e \<le> audit_seq d1" by (simp add: S_def newest_first_def audit_ok_def)
    with assms(5) show ?thesis by (simp add: cursor_def)
  qed
  then have all: "filter (\<lambda>e. int (au_id e) < cursor 0) S = drop 0 S" by (simp add: filter_id_conv)
  have S: "newest_first (pr_tenant p) (others 0 ?d0) = [] @ S" by (simp add: S_def d1)
  have "\<exists>s2 d2. audit_pages R (pr_tenant p) others 0 0 s1 ?d0 = ((True, min exportMaxRows (length S), s2), d2) \<and> healthy s2 \<and>
      st_text s2 = st_text s1 @ csv_text (map (audit_record R) (drop 0 (take exportMaxRows S)))"
    using all by (intro audit_pages_exact [OF assms(1) g0 s1(2) _ _ S]) (simp_all only: S append_Nil le0)
  then obtain s2 d2 where s2: "audit_pages R (pr_tenant p) others 0 0 s1 ?d0 = ((True, min exportMaxRows (length S), s2), d2)"
    "healthy s2" "st_text s2 = st_text s1 @ csv_text (map (audit_record R) (take exportMaxRows S))"
    unfolding drop_0 by blast
  let ?s3 = "if exportMaxRows \<le> min exportMaxRows (length S) then writeTruncationMarker 8 s2 else s2"
  have s3: "healthy ?s3" "st_text ?s3 = st_text s2 @ csv_text (marker_rows 8 (length S))"
    using s2(2) marker_healthy [OF s2(2), of 8] by (simp_all add: marker_rows_def)
  have "exportAudit R today others open_stream p d = (download ''audit'' today (cw_Flush ?s3), d2)"
    unfolding exportAudit_def export_entry_def [symmetric] Let_def s1(1) prod.case s2(1) by simp
  also have "st_sent (cw_Flush ?s3) = csv_text (audit_header # map (audit_record R) (take exportMaxRows S) @ marker_rows 8 (length S))"
    using s3 s2(3) s1(3) by (simp only: cw_Flush_healthy csv_text_simps append_assoc)
  then have "download ''audit'' today (cw_Flush ?s3) = \<lparr>rsp_code = 200, rsp_body = FileBody (export_filename ''audit'' today)
       (csv_text (audit_header # map (audit_record R) (take exportMaxRows S) @ marker_rows 8 (length S)))\<rparr>"
    by (simp only: download_def)
  finally show ?thesis by blast
qed


text \<open>A log with an entry of each of two tenants, and an entry added between the pages.\<close>

definition demo_entry :: "nat \<Rightarrow> uuid \<Rightarrow> audit_row" where
  "demo_entry i t = \<lparr>au_id = i, au_tenant = t, au_actor = Txt ''admin:a'', au_action = ''group.create'', au_target_type = ''group'',
     au_target_id = IdTxt '''' 5, au_detail = [], au_ip = '''', au_result = ''success'', au_created_at = 0\<rparr>"

definition demo_log :: db where
  "demo_log = empty_db\<lparr>audit_log := [demo_entry 1 7, demo_entry 2 8], audit_seq := 2\<rparr>"

definition busy :: "nat \<Rightarrow> db \<Rightarrow> db" where
  "busy n d = snd (AppendAudit 7 (Txt ''admin:b'') ''admin.login'' ''admin'' (Txt '''') [] '''' ''success'' d)"

lemma quiet_busy: "quiet busy"
  by (simp add: quiet_def busy_def AppendAudit_grows)


text \<open>A page whose connection holds although a later one is lost.\<close>

lemma ListAudit_page:
  assumes "audit_ok d" "faults d = False # fs"
  shows "ListAudit t n b d = (Inr (take n (filter (\<lambda>e. int (au_id e) < cursor b) (newest_first t d))), d\<lparr>faults := fs\<rparr>)"
proof -
  let ?d = "d\<lparr>faults := []\<rparr>"
  have ok: "audit_ok ?d" "faults ?d = []" "newest_first t ?d = newest_first t d"
    using assms(1) by (simp_all add: audit_ok_def newest_first_def)
  have "fst (ListAudit t n b d) = fst (ListAudit t n b ?d)"
    using assms(2) by (simp add: ListAudit_def pool_def Let_def)
  moreover have "snd (ListAudit t n b d) = d\<lparr>faults := fs\<rparr>"
    using assms(2) by (simp add: ListAudit_def pool_def Let_def)
  ultimately show ?thesis using ListAudit_newest [OF ok(1,2), of t n b] ok(3) by (simp add: prod_eq_iff)
qed

lemma lost_page:
  assumes "faults d = [True]" "w < exportMaxRows"
  shows "audit_pages R t (\<lambda>_ d. d) before w s d = ((True, w, s), d\<lparr>faults := []\<rparr>)"
  using assms by (subst audit_pages.simps) (simp add: ListAudit_def pool_def Let_def)

text \<open>
  When the connection to the database is lost after the first page, the audit export still
  answers 200 and the file ends after a thousand entries with no marker: it reads like the
  complete export of a shorter log.
\<close>

theorem audit_export_silently_cut:
  assumes "audit_ok d" "faults d = [False, False, True]"
    and "int (audit_seq (export_entry p d)) < MaxInt64"
    and "exportPage < length (newest_first (pr_tenant p) (export_entry p d))"
  shows "\<exists>file d'. exportAudit R today (\<lambda>_ d. d) open_stream p d =
      (\<lparr>rsp_code = 200, rsp_body = FileBody (export_filename ''audit'' today) file\<rparr>, d') \<and>
    csv_rows file = audit_header # map (audit_record R) (take exportPage (newest_first (pr_tenant p) (export_entry p d)))"
proof -
  let ?d0 = "export_entry p d" let ?S = "newest_first (pr_tenant p) ?d0" let ?E = "take exportPage ?S"
  have g0: "audit_ok ?d0" "faults ?d0 = [False, True]"
    using assms(1,2) by (auto simp: export_entry_def audit_def AppendAudit_def pool_def audit_ok_def sorted_wrt_append
        intro: le_SucI less_le_trans)
  obtain s1 where s1: "csvExport audit_header open_stream = (True, s1)" "healthy s1" "st_text s1 = csv_line audit_header"
    using cw_Write_healthy [OF open_stream(1)] by (auto simp: csvExport_def)
  have "int (au_id e) < cursor 0" if "e \<in> set ?S" for e
  proof -
    from that g0(1) have "au_id e \<le> audit_seq ?d0" by (simp add: newest_first_def audit_ok_def)
    with assms(3) show ?thesis by (simp add: cursor_def)
  qed
  then have L: "ListAudit (pr_tenant p) exportPage 0 ?d0 = (Inr ?E, ?d0\<lparr>faults := [True]\<rparr>)"
    using ListAudit_page [OF g0] by (simp add: filter_id_conv)
  have n: "length ?E = exportPage" "?E \<noteq> []" using assms(4) export_limits by auto
  have m: "min (length ?E) (exportMaxRows - 0) = exportPage" "take (exportMaxRows - 0) ?E = ?E"
    unfolding n(1) by (simp_all add: exportPage_def exportMaxRows_def)
  obtain c s2 where s2: "write_entries R ?E 0 0 s1 = (True, exportPage, c, s2)" "healthy s2"
    "st_text s2 = st_text s1 @ csv_text (map (audit_record R) ?E)"
    using write_entries_healthy [OF s1(2) export_limits(2), of R ?E 0] unfolding m by auto
  have lt: "exportPage < exportMaxRows" by (simp add: exportPage_def exportMaxRows_def)
  have "audit_pages R (pr_tenant p) (\<lambda>_ d. d) 0 0 s1 ?d0 =
      audit_pages R (pr_tenant p) (\<lambda>_ d. d) c exportPage s2 (?d0\<lparr>faults := [True]\<rparr>)"
    using export_limits n by (subst audit_pages.simps) (simp add: L s2(1))
  also have "\<dots> = ((True, exportPage, s2), ?d0\<lparr>faults := []\<rparr>)" using lost_page [OF _ lt] by simp
  finally have pages: "audit_pages R (pr_tenant p) (\<lambda>_ d. d) 0 0 s1 ?d0 = ((True, exportPage, s2), ?d0\<lparr>faults := []\<rparr>)" .
  have fileEq: "exportAudit R today (\<lambda>_ d. d) open_stream p d = (download ''audit'' today (cw_Flush s2), ?d0\<lparr>faults := []\<rparr>)"
    unfolding exportAudit_def export_entry_def [symmetric] Let_def s1(1) prod.case pages using lt by simp
  have "st_sent (cw_Flush s2) = csv_text (audit_header # map (audit_record R) ?E)"
    using s1(3) s2 by (simp add: cw_Flush_healthy)
  moreover have "csv_rows (csv_text (audit_header # map (audit_record R) ?E)) = audit_header # map (audit_record R) ?E"
    by (rule csv_rows_text) (auto simp: record_nonempty [THEN not_sym])
  ultimately show ?thesis unfolding fileEq download_def by simp
qed

definition long_log :: db where
  "long_log = empty_db\<lparr>audit_log := map (\<lambda>i. demo_entry (Suc i) 7) [0..<1000], audit_seq := 1000, faults := [False, False, True]\<rparr>"

theorem audit_export_silently_cut_witness:
  "\<exists>file d'. exportAudit demo_render ''2025-01-01'' (\<lambda>_ d. d) open_stream demo_admin long_log =
      (\<lparr>rsp_code = 200, rsp_body = FileBody (export_filename ''audit'' ''2025-01-01'') file\<rparr>, d') \<and>
    length (csv_rows file) = 1001 \<and> length (newest_first 7 (export_entry demo_admin long_log)) = 1001"
proof -
  have ok: "audit_ok long_log" "faults long_log = [False, False, True]"
    by (auto simp: audit_ok_def long_log_def demo_entry_def sorted_wrt_map comp_def)
  have f: "filter (\<lambda>e. au_tenant e = 7) (map (\<lambda>i. demo_entry (Suc i) 7) is) = map (\<lambda>i. demo_entry (Suc i) 7) is" for "is"
    by (simp add: filter_id_conv demo_entry_def)
  have S: "length (newest_first 7 (export_entry demo_admin long_log)) = 1001"
    and q: "int (audit_seq (export_entry demo_admin long_log)) < MaxInt64" and t: "pr_tenant demo_admin = 7"
    by (simp_all add: export_entry_def audit_def AppendAudit_def pool_def long_log_def newest_first_def f
        demo_admin_def MaxInt64_def)
  have "exportPage < length (newest_first (pr_tenant demo_admin) (export_entry demo_admin long_log))"
    unfolding t S by (simp add: exportPage_def)
  from audit_export_silently_cut [OF ok q this, of demo_render "''2025-01-01''"] S show ?thesis
    unfolding t by (fastforce simp: exportPage_def)
qed

text \<open>The exports of one query: the rows of the query, and the marker once the limit is reached.\<close>

lemma export_list_exact:
  assumes "header \<noteq> []" "\<And>x. f x \<noteq> []"
  shows "\<exists>file. export_list name header limited f today xs open_stream =
      \<lparr>rsp_code = 200, rsp_body = FileBody (export_filename name today) file\<rparr> \<and>
    csv_rows file = header # map f xs @ (if limited then marker_rows (length header) (length xs) else [])"
proof -
  obtain s1 where s1: "csvExport header open_stream = (True, s1)" "healthy s1" "st_text s1 = csv_line header"
    using cw_Write_healthy [OF open_stream(1)] by (auto simp: csvExport_def)
  obtain s2 where s2: "write_rows (map f xs) s1 = (True, s2)" "healthy s2" "st_text s2 = st_text s1 @ csv_text (map f xs)"
    using write_rows_healthy [OF s1(2)] by blast
  let ?m = "if limited then marker_rows (length header) (length xs) else []"
  let ?s3 = "if limited \<and> exportMaxRows \<le> length xs then writeTruncationMarker (length header) s2 else s2"
  have s3: "healthy ?s3" "st_text ?s3 = st_text s2 @ csv_text ?m"
    using s2(2) marker_healthy [OF s2(2), of "length header"] by (simp_all add: marker_rows_def)
  have "export_list name header limited f today xs open_stream = download name today (cw_Flush ?s3)"
    unfolding export_list_def Let_def s1(1) prod.case s2(1) by simp
  moreover have "st_sent (cw_Flush ?s3) = csv_text (header # map f xs @ ?m)"
    using s3 s2(3) s1(3) by (simp only: cw_Flush_healthy csv_text_simps append_assoc)
  moreover have "csv_rows (csv_text (header # map f xs @ ?m)) = header # map f xs @ ?m"
    using assms by (intro csv_rows_text) (auto simp: marker_rows_def record_nonempty [THEN not_sym] dest: sym)
  ultimately show ?thesis by (simp add: download_def)
qed

lemma blocks_export_exact:
  fixes p :: principal
  assumes "faults d = []"
  defines "xs \<equiv> take exportMaxRows (sort_key (\<lambda>x. - bl_at x) (filter (\<lambda>x. bl_tenant x = pr_tenant p) (block_events d)))"
  shows "\<exists>file. exportBlocks R today open_stream p d =
      (\<lparr>rsp_code = 200, rsp_body = FileBody (export_filename ''blocks'' today) file\<rparr>, d) \<and>
    csv_rows file = block_header # map (block_record R) xs @ marker_rows 7 (length xs)"
proof -
  have n: "length block_header = 7" by (simp add: block_header_def)
  have "exportBlocks R today open_stream p d = (export_list ''blocks'' block_header True (block_record R) today xs open_stream, d)"
    using assms(1) by (simp add: exportBlocks_def export_query_def ListBlockEvents_def xs_def)
  then show ?thesis
    using export_list_exact [of block_header "block_record R" "''blocks''" True today xs, unfolded n] by auto
qed

lemma devices_export_exact:
  assumes "faults d = []"
  shows "\<exists>file. exportDevices R today open_stream p d =
      (\<lparr>rsp_code = 200, rsp_body = FileBody (export_filename ''devices'' today) file\<rparr>, d) \<and>
    csv_rows file = device_header #
      map (device_record R) (sort_key dv_hostname (filter (\<lambda>v. dv_tenant v = pr_tenant p) (devices d)))"
  using assms export_list_exact [of device_header "device_record R" "''devices''" False today]
  by (auto simp: exportDevices_def export_query_def ListDevices_def)

end
