(* ===== verification/Channels.thy ===== *)
theory Channels
  imports Notify Devices
begin

text \<open>
  The console's notification handlers (\<^verbatim>\<open>httpapi/notifications.go\<close>): listing, creating, patching,
  deleting and testing channels, and listing deliveries. The theorems show that only
  valid channels are ever stored, that no mail channel is enabled on a server without
  SMTP, and what a patch does to each field, the secret included.

  The sealer of the channel secrets and the URL parser are parameters.
\<close>

record console =
  co_parse :: url_parser
  co_seal :: "bytes \<Rightarrow> bytes"
  co_smtp :: bool

record channel_req =
  cq_kind :: "string option"
  cq_name :: "string option"
  cq_events :: "string list"
  cq_enabled :: "bool option"
  cq_recipients :: "string list"
  cq_url :: "string option"
  cq_secret :: "string option"

definition channelJSON :: "channel_row \<Rightarrow> json" where
  "channelJSON c = JObj [(''id'', JId (ch_id c)), (''kind'', JStr (ch_kind c)), (''name'', JStr (ch_name c)),
     (''events'', JArr (map JStr (ch_events c))), (''enabled'', JBool (ch_enabled c)), (''recipients'', JArr (map JStr (ch_recipients c))),
     (''url'', JStr (ch_url c)), (''has_secret'', JBool (0 < length (ch_secret c))),
     (''created_at'', JTime (ch_created_at c)), (''updated_at'', JTime (ch_updated_at c))]"

definition notificationStatus :: "console \<Rightarrow> response" where
  "notificationStatus C = writeJSON 200 (JObj [(''smtp_configured'', JBool (co_smtp C)), (''event_kinds'', JArr (map JStr EventKinds))])"

definition listChannels :: "principal \<Rightarrow> db \<Rightarrow> response \<times> db" where
  "listChannels p d = respond (\<lambda>cs. JArr (map channelJSON cs)) (ListChannels (pr_tenant p) d)"

definition channelErr :: "err \<Rightarrow> response" where
  "channelErr e = (case e of ValidationError msg \<Rightarrow> writeErr 400 msg | _ \<Rightarrow> storeErr e)"

definition no_smtp :: response where
  "no_smtp = writeErr 400 ''smtp is not configured on this server''"

definition given :: "string option \<Rightarrow> string" where
  "given v = (case v of None \<Rightarrow> [] | Some s \<Rightarrow> s)"

definition requested_channel :: "console \<Rightarrow> uuid \<Rightarrow> channel_req \<Rightarrow> channel_row" where
  "requested_channel C i req = \<lparr>ch_id = i, ch_tenant = 0, ch_kind = given (cq_kind req), ch_name = given (cq_name req),
     ch_events = cq_events req, ch_enabled = (case cq_enabled req of None \<Rightarrow> True | Some b \<Rightarrow> b), ch_recipients = cq_recipients req,
     ch_url = given (cq_url req), ch_secret = (case cq_secret req of None \<Rightarrow> [] | Some s \<Rightarrow> if s \<noteq> [] then co_seal C s else []),
     ch_created_at = 0, ch_updated_at = 0\<rparr>"

definition createChannel :: "console \<Rightarrow> channel_req \<Rightarrow> principal \<Rightarrow> db \<Rightarrow> response \<times> db" where
  "createChannel C req p d =
     (let (i, d0) = new_uuid d; c = requested_channel C i req in
      case ValidateChannel (co_parse C) c of
        Inl e \<Rightarrow> (channelErr e, d0)
      | Inr _ \<Rightarrow>
          if ch_kind c = ''email'' \<and> \<not> co_smtp C then (no_smtp, d0)
          else (case CreateChannel (pr_tenant p) c d0 of
              (Inl e, d1) \<Rightarrow> (channelErr e, d1)
            | (Inr _, d1) \<Rightarrow> (reply_id 201 i, audit p ''notification_channel.create'' ''notification_channel'' (IdTxt '''' i)
                [(''kind'', DStr (ch_kind c)), (''name'', DStr (ch_name c)), (''events'', DStrs (ch_events c))] ''success'' d1)))"

fun json_string :: "json \<Rightarrow> string option" where
  "json_string (JStr s) = Some s"
| "json_string _ = None"

definition toStrings :: "json list \<Rightarrow> string list" where
  "toStrings v = List.map_filter json_string v"

text \<open>
  The patch: a field is taken over when it is present with the expected type. A secret of
  null clears, an empty one keeps, another one replaces.
\<close>

definition patch_name :: "(string \<times> json) list \<Rightarrow> channel_row \<Rightarrow> channel_row" where
  "patch_name raw c = (case map_of raw ''name'' of Some (JStr v) \<Rightarrow> c\<lparr>ch_name := v\<rparr> | _ \<Rightarrow> c)"

definition patch_url :: "(string \<times> json) list \<Rightarrow> channel_row \<Rightarrow> channel_row" where
  "patch_url raw c = (case map_of raw ''url'' of Some (JStr v) \<Rightarrow> c\<lparr>ch_url := v\<rparr> | _ \<Rightarrow> c)"

definition patch_enabled :: "(string \<times> json) list \<Rightarrow> channel_row \<Rightarrow> channel_row" where
  "patch_enabled raw c = (case map_of raw ''enabled'' of Some (JBool v) \<Rightarrow> c\<lparr>ch_enabled := v\<rparr> | _ \<Rightarrow> c)"

definition patch_events :: "(string \<times> json) list \<Rightarrow> channel_row \<Rightarrow> channel_row" where
  "patch_events raw c = (case map_of raw ''events'' of Some (JArr v) \<Rightarrow> c\<lparr>ch_events := toStrings v\<rparr> | _ \<Rightarrow> c)"

definition patch_recipients :: "(string \<times> json) list \<Rightarrow> channel_row \<Rightarrow> channel_row" where
  "patch_recipients raw c = (case map_of raw ''recipients'' of Some (JArr v) \<Rightarrow> c\<lparr>ch_recipients := toStrings v\<rparr> | _ \<Rightarrow> c)"

definition patch_secret :: "console \<Rightarrow> (string \<times> json) list \<Rightarrow> channel_row \<Rightarrow> channel_row" where
  "patch_secret C raw c = (case map_of raw ''secret'' of
       Some JNull \<Rightarrow> c\<lparr>ch_secret := []\<rparr>
     | Some (JStr s) \<Rightarrow> if s \<noteq> [] then c\<lparr>ch_secret := co_seal C s\<rparr> else c
     | _ \<Rightarrow> c)"

definition patched :: "console \<Rightarrow> (string \<times> json) list \<Rightarrow> channel_row \<Rightarrow> channel_row" where
  "patched C raw c = patch_secret C raw (patch_recipients raw (patch_events raw (patch_enabled raw (patch_url raw (patch_name raw c)))))"

definition updateChannel :: "console \<Rightarrow> uuid \<Rightarrow> (string \<times> json) list \<Rightarrow> principal \<Rightarrow> db \<Rightarrow> response \<times> db" where
  "updateChannel C i raw p d = (case GetChannel (pr_tenant p) i d of
       (Inl e, d1) \<Rightarrow> (storeErr e, d1)
     | (Inr c0, d1) \<Rightarrow>
         (let c = patched C raw c0 in
          case ValidateChannel (co_parse C) c of
            Inl e \<Rightarrow> (channelErr e, d1)
          | Inr _ \<Rightarrow>
              if ch_kind c = ''email'' \<and> ch_enabled c \<and> \<not> co_smtp C then (no_smtp, d1)
              else (case UpdateChannel (pr_tenant p) c d1 of
                  (Inl e, d2) \<Rightarrow> (channelErr e, d2)
                | (Inr _, d2) \<Rightarrow> (noContent, audit p ''notification_channel.update'' ''notification_channel'' (IdTxt '''' i)
                    [(''name'', DStr (ch_name c)), (''enabled'', DBool (ch_enabled c)), (''events'', DStrs (ch_events c))] ''success'' d2))))"

definition deleteChannel :: "uuid \<Rightarrow> principal \<Rightarrow> db \<Rightarrow> response \<times> db" where
  "deleteChannel i p d = finish p ''notification_channel.delete'' ''notification_channel'' i [] (DeleteChannel (pr_tenant p) i d)"

definition testChannel :: "notify_service \<Rightarrow> uuid \<Rightarrow> principal \<Rightarrow> db \<times> world \<Rightarrow> response \<times> (db \<times> world)" where
  "testChannel svc i p s = (case GetChannel (pr_tenant p) i (fst s) of
       (Inl e, d1) \<Rightarrow> (storeErr e, (d1, snd s))
     | (Inr c, d1) \<Rightarrow>
         (let (r, w) = Test svc c (snd s);
              (result, out) = (case r of
                 Inl e \<Rightarrow> (''failure'', [(''ok'', JBool False), (''error'', JStr (err_text e))])
               | Inr _ \<Rightarrow> (''success'', [(''ok'', JBool True)]))
          in (writeJSON 200 (JObj out),
              (audit p ''notification_channel.test'' ''notification_channel'' (IdTxt '''' i) [(''name'', DStr (ch_name c))] result d1, w))))"

definition delivery_state_text :: "delivery_state \<Rightarrow> string" where
  "delivery_state_text s = (case s of DPending \<Rightarrow> ''pending'' | DSent \<Rightarrow> ''sent'' | DFailed \<Rightarrow> ''failed'')"

definition deliveryJSON :: "delivery_row \<times> string \<Rightarrow> json" where
  "deliveryJSON x = (let (r, name) = x in JObj [(''id'', JInt (int (dl_id r))), (''channel_id'', JId (dl_channel r)), (''channel_name'', JStr name),
     (''event_kind'', JStr (dl_event_kind r)), (''title'', JStr (case dl_payload r of None \<Rightarrow> [] | Some e \<Rightarrow> ev_title e)),
     (''state'', JStr (delivery_state_text (dl_state r))), (''attempts'', JInt (dl_attempts r)), (''last_error'', JStr (dl_last_error r)),
     (''created_at'', JTime (dl_created_at r)), (''sent_at'', JOpt JTime (dl_sent_at r)), (''next_attempt_at'', JTime (dl_next_attempt_at r))])"

definition listDeliveries :: "int option \<Rightarrow> principal \<Rightarrow> db \<Rightarrow> response \<times> db" where
  "listDeliveries limit p d =
     respond (\<lambda>rs. JArr (map deliveryJSON rs)) (ListDeliveries (pr_tenant p) (nat (queryInt limit 50 500)) d)"

section \<open>What a patch changes\<close>

lemma patch_frames [simp]:
  "ch_id (patch_name raw c) = ch_id c" "ch_tenant (patch_name raw c) = ch_tenant c" "ch_kind (patch_name raw c) = ch_kind c" "ch_events (patch_name raw c) = ch_events c" "ch_enabled (patch_name raw c) = ch_enabled c" "ch_recipients (patch_name raw c) = ch_recipients c" "ch_url (patch_name raw c) = ch_url c" "ch_secret (patch_name raw c) = ch_secret c"
  "ch_id (patch_url raw c) = ch_id c" "ch_tenant (patch_url raw c) = ch_tenant c" "ch_kind (patch_url raw c) = ch_kind c" "ch_name (patch_url raw c) = ch_name c" "ch_events (patch_url raw c) = ch_events c" "ch_enabled (patch_url raw c) = ch_enabled c" "ch_recipients (patch_url raw c) = ch_recipients c" "ch_secret (patch_url raw c) = ch_secret c"
  "ch_id (patch_enabled raw c) = ch_id c" "ch_tenant (patch_enabled raw c) = ch_tenant c" "ch_kind (patch_enabled raw c) = ch_kind c" "ch_name (patch_enabled raw c) = ch_name c" "ch_events (patch_enabled raw c) = ch_events c" "ch_recipients (patch_enabled raw c) = ch_recipients c" "ch_url (patch_enabled raw c) = ch_url c" "ch_secret (patch_enabled raw c) = ch_secret c"
  "ch_id (patch_events raw c) = ch_id c" "ch_tenant (patch_events raw c) = ch_tenant c" "ch_kind (patch_events raw c) = ch_kind c" "ch_name (patch_events raw c) = ch_name c" "ch_enabled (patch_events raw c) = ch_enabled c" "ch_recipients (patch_events raw c) = ch_recipients c" "ch_url (patch_events raw c) = ch_url c" "ch_secret (patch_events raw c) = ch_secret c"
  "ch_id (patch_recipients raw c) = ch_id c" "ch_tenant (patch_recipients raw c) = ch_tenant c" "ch_kind (patch_recipients raw c) = ch_kind c" "ch_name (patch_recipients raw c) = ch_name c" "ch_events (patch_recipients raw c) = ch_events c" "ch_enabled (patch_recipients raw c) = ch_enabled c" "ch_url (patch_recipients raw c) = ch_url c" "ch_secret (patch_recipients raw c) = ch_secret c"
  "ch_id (patch_secret C raw c) = ch_id c" "ch_tenant (patch_secret C raw c) = ch_tenant c" "ch_kind (patch_secret C raw c) = ch_kind c" "ch_name (patch_secret C raw c) = ch_name c" "ch_events (patch_secret C raw c) = ch_events c" "ch_enabled (patch_secret C raw c) = ch_enabled c" "ch_recipients (patch_secret C raw c) = ch_recipients c" "ch_url (patch_secret C raw c) = ch_url c"
  by (simp_all add: patch_secret_def patch_recipients_def patch_events_def patch_enabled_def patch_url_def
      patch_name_def split: option.split json.split)

lemma patched_identity [simp]:
  "ch_id (patched C raw c) = ch_id c" "ch_tenant (patched C raw c) = ch_tenant c" "ch_kind (patched C raw c) = ch_kind c"
  by (simp_all add: patched_def)

lemma patched_fields:
  "ch_name (patched C raw c) = (case map_of raw ''name'' of Some (JStr v) \<Rightarrow> v | _ \<Rightarrow> ch_name c)"
  "ch_url (patched C raw c) = (case map_of raw ''url'' of Some (JStr v) \<Rightarrow> v | _ \<Rightarrow> ch_url c)"
  "ch_enabled (patched C raw c) = (case map_of raw ''enabled'' of Some (JBool v) \<Rightarrow> v | _ \<Rightarrow> ch_enabled c)"
  "ch_events (patched C raw c) = (case map_of raw ''events'' of Some (JArr v) \<Rightarrow> toStrings v | _ \<Rightarrow> ch_events c)"
  "ch_recipients (patched C raw c) = (case map_of raw ''recipients'' of Some (JArr v) \<Rightarrow> toStrings v | _ \<Rightarrow> ch_recipients c)"
  "ch_secret (patched C raw c) = (case map_of raw ''secret'' of
       Some JNull \<Rightarrow> [] | Some (JStr s) \<Rightarrow> if s \<noteq> [] then co_seal C s else ch_secret c | _ \<Rightarrow> ch_secret c)"
proof -
  show "ch_name (patched C raw c) = (case map_of raw ''name'' of Some (JStr v) \<Rightarrow> v | _ \<Rightarrow> ch_name c)"
    by (simp add: patched_def) (simp add: patch_name_def split: option.split json.split)
  show "ch_url (patched C raw c) = (case map_of raw ''url'' of Some (JStr v) \<Rightarrow> v | _ \<Rightarrow> ch_url c)"
    by (simp add: patched_def) (simp add: patch_url_def split: option.split json.split)
  show "ch_enabled (patched C raw c) = (case map_of raw ''enabled'' of Some (JBool v) \<Rightarrow> v | _ \<Rightarrow> ch_enabled c)"
    by (simp add: patched_def) (simp add: patch_enabled_def split: option.split json.split)
  show "ch_events (patched C raw c) = (case map_of raw ''events'' of Some (JArr v) \<Rightarrow> toStrings v | _ \<Rightarrow> ch_events c)"
    by (simp add: patched_def) (simp add: patch_events_def split: option.split json.split)
  show "ch_recipients (patched C raw c) = (case map_of raw ''recipients'' of Some (JArr v) \<Rightarrow> toStrings v | _ \<Rightarrow> ch_recipients c)"
    by (simp add: patched_def) (simp add: patch_recipients_def split: option.split json.split)
  show "ch_secret (patched C raw c) = (case map_of raw ''secret'' of
       Some JNull \<Rightarrow> [] | Some (JStr s) \<Rightarrow> if s \<noteq> [] then co_seal C s else ch_secret c | _ \<Rightarrow> ch_secret c)"
    by (simp add: patched_def) (simp add: patch_secret_def split: option.split json.split)
qed

section \<open>Stored channels are valid\<close>

text \<open>
  The invariant of the table: the primary key, every row accepted by the validator, and no
  enabled mail channel on a server without SMTP.
\<close>

definition channel_ok :: "console \<Rightarrow> channel_row \<Rightarrow> bool" where
  "channel_ok C c \<longleftrightarrow> ValidateChannel (co_parse C) c = Inr () \<and> (ch_kind c = ''email'' \<and> ch_enabled c \<longrightarrow> co_smtp C)"

definition channels_inv :: "console \<Rightarrow> db \<Rightarrow> bool" where
  "channels_inv C d \<longleftrightarrow> distinct (map ch_id (notification_channels d)) \<and> list_all (channel_ok C) (notification_channels d)"

text \<open>The validator looks at the name, the events, the kind and the target only.\<close>

lemma ValidateChannel_cong:
  assumes "ch_name c' = ch_name c" "ch_events c' = ch_events c" "ch_kind c' = ch_kind c" "ch_url c' = ch_url c"
    "ch_recipients c' = ch_recipients c"
  shows "ValidateChannel parse c' = ValidateChannel parse c"
proof -
  have "validate_target parse c' = validate_target parse c" using assms(3-5) by (simp add: validate_target_def)
  with assms show ?thesis by (simp add: ValidateChannel_def split: option.split)
qed

lemma channel_ok_cong:
  assumes "ch_name c' = ch_name c" "ch_events c' = ch_events c" "ch_kind c' = ch_kind c" "ch_url c' = ch_url c"
    "ch_recipients c' = ch_recipients c" "ch_enabled c' = ch_enabled c"
  shows "channel_ok C c' = channel_ok C c"
  using ValidateChannel_cong [OF assms(1-5)] assms by (simp add: channel_ok_def)

lemma channels_inv_cong: "notification_channels d' = notification_channels d \<Longrightarrow> channels_inv C d' = channels_inv C d"
  by (simp add: channels_inv_def)

lemma audit_channels [simp]: "notification_channels (audit p a b c e g d) = notification_channels d"
  by (rule audit_shape [of p a b c e g d]) simp

lemma CreateChannel_inv:
  assumes "channels_inv C d" "channel_ok C c"
  shows "channels_inv C (snd (CreateChannel t c d))"
proof -
  let ?row = "\<lambda>d. c\<lparr>ch_tenant := t, ch_created_at := now_db d, ch_updated_at := now_db d\<rparr>"
  have ok: "channel_ok C (?row d) = channel_ok C c" for d by (rule channel_ok_cong) simp_all
  show ?thesis
    unfolding CreateChannel_def split_beta Let_def snd_conv
    by (rule pool_inv) (use assms ok in \<open>auto simp: channels_inv_def\<close>)
qed

text \<open>The row an update writes over the one it finds.\<close>

definition overwrite :: "channel_row \<Rightarrow> time \<Rightarrow> channel_row \<Rightarrow> channel_row" where
  "overwrite c now r = r\<lparr>ch_name := ch_name c, ch_events := ch_events c, ch_enabled := ch_enabled c,
     ch_recipients := ch_recipients c, ch_url := ch_url c, ch_secret := ch_secret c, ch_updated_at := now\<rparr>"

lemma UpdateChannel_cases:
  obtains (kept) "notification_channels (snd (UpdateChannel t c d)) = notification_channels d"
    "fst (UpdateChannel t c d) \<noteq> Inr ()"
  | (written) "notification_channels (snd (UpdateChannel t c d)) =
      update_where (\<lambda>r. ch_tenant r = t \<and> ch_id r = ch_id c) (overwrite c (now_db d)) (notification_channels d)"
proof (cases "let P = (\<lambda>r. ch_tenant r = t \<and> ch_id r = ch_id c) in (\<exists>r \<in> set (notification_channels d). P r) \<and>
        (\<exists>r \<in> set (notification_channels d). ch_tenant r = t \<and> ch_id r \<noteq> ch_id c \<and> ch_name r = ch_name c)")
  case True
  then show thesis
    by (intro kept) (auto simp: UpdateChannel_def pool_def Let_def oneRow_def conflict_def split: list.split)
next
  case False
  show thesis
  proof (cases "\<exists>rest. faults d = True # rest")
    case True
    then show thesis
      by (intro kept) (auto simp: UpdateChannel_def pool_def Let_def oneRow_def conflict_def)
  next
    case ok: False
    with False show thesis
      by (intro written) (auto simp: UpdateChannel_def pool_def Let_def overwrite_def [abs_def] split: list.split)
  qed
qed

lemma UpdateChannel_inv:
  assumes inv: "channels_inv C d" and c: "channel_ok C c"
    and kind: "\<And>r. r \<in> set (notification_channels d) \<Longrightarrow> ch_id r = ch_id c \<Longrightarrow> ch_kind r = ch_kind c"
  shows "channels_inv C (snd (UpdateChannel t c d))"
proof (cases t c d rule: UpdateChannel_cases)
  case kept
  with inv show ?thesis by (simp add: channels_inv_def)
next
  case written
  have "channel_ok C (overwrite c now r)" if "ch_kind r = ch_kind c" for now r
    using c that by (subst channel_ok_cong [of "overwrite c now r" c]) (simp_all add: overwrite_def)
  moreover have "ch_id (overwrite c now r) = ch_id r" for now r by (simp add: overwrite_def)
  ultimately show ?thesis
    using inv kind by (auto simp: channels_inv_def written map_update_where_inv list_all_iff dest!: in_update_where)
qed

lemma DeleteChannel_inv: "channels_inv C d \<Longrightarrow> channels_inv C (snd (DeleteChannel t i d))"
  unfolding DeleteChannel_def
  by (rule pool_inv) (auto simp: channels_inv_def Let_def list_all_iff distinct_map_filter)

lemma new_uuid_channels [simp]: "notification_channels (snd (new_uuid d)) = notification_channels d"
  by (simp add: new_uuid_def)

lemma createChannel_inv:
  assumes "channels_inv C d"
  shows "channels_inv C (snd (createChannel C req p d))"
proof -
  obtain i d0 where n: "new_uuid d = (i, d0)" by fastforce
  let ?c = "requested_channel C i req"
  have d0: "channels_inv C d0" using assms new_uuid_channels [of d] n channels_inv_cong [of d0 d] by simp
  show ?thesis
  proof (cases "ValidateChannel (co_parse C) ?c = Inr () \<and> \<not> (ch_kind ?c = ''email'' \<and> \<not> co_smtp C)")
    case True
    then have "channel_ok C ?c" by (simp add: channel_ok_def)
    obtain r d1 where r: "CreateChannel (pr_tenant p) ?c d0 = (r, d1)" by fastforce
    with CreateChannel_inv [OF d0 \<open>channel_ok C ?c\<close>, of "pr_tenant p"] have "channels_inv C d1" by simp
    then have "channels_inv C (audit p a b l e g d1)" for a b l e g by (simp add: channels_inv_def)
    with True n r d0 \<open>channels_inv C d1\<close> show ?thesis
      by (cases r) (simp_all add: createChannel_def Let_def)
  next
    case False
    then have "snd (createChannel C req p d) = d0"
      using n by (cases "ValidateChannel (co_parse C) ?c") (simp_all add: createChannel_def Let_def)
    with d0 show ?thesis by simp
  qed
qed

lemma GetChannel_ok:
  assumes "GetChannel t i d = (Inr c, d1)"
  shows "c \<in> set (notification_channels d) \<and> ch_id c = i \<and> ch_tenant c = t \<and> (\<exists>fs. d1 = d\<lparr>faults := fs\<rparr>)"
proof -
  let ?P = "\<lambda>c. ch_tenant c = t \<and> ch_id c = i"
  have "GetChannel t i d = pool (lookup notification_channels ?P (\<lambda>x. x)) d"
    by (simp add: GetChannel_def lookup_def [abs_def])
  with assms lookup_ok [of notification_channels ?P "\<lambda>x. x" d c d1] show ?thesis
    by (auto dest: find_row_Some)
qed

lemma GetChannel_channels [simp]: "notification_channels (snd (GetChannel t i d)) = notification_channels d"
  unfolding GetChannel_def by (rule pool_inv [where P = "\<lambda>d'. notification_channels d' = notification_channels d"]) simp_all

lemma updateChannel_inv:
  assumes "channels_inv C d"
  shows "channels_inv C (snd (updateChannel C i raw p d))"
proof (cases "GetChannel (pr_tenant p) i d")
  case (Pair g d1)
  have d1: "notification_channels d1 = notification_channels d" using GetChannel_channels [of "pr_tenant p" i d] Pair by simp
  then have inv1: "channels_inv C d1" using assms channels_inv_cong by blast
  show ?thesis
  proof (cases g)
    case (Inl e)
    with Pair inv1 show ?thesis by (simp add: updateChannel_def)
  next
    case (Inr c0)
    let ?c = "patched C raw c0"
    have c0: "c0 \<in> set (notification_channels d1)" using GetChannel_ok [of "pr_tenant p" i d c0 d1] Pair Inr d1 by simp
    show ?thesis
    proof (cases "ValidateChannel (co_parse C) ?c = Inr () \<and> \<not> (ch_kind ?c = ''email'' \<and> ch_enabled ?c \<and> \<not> co_smtp C)")
      case True
      then have ok: "channel_ok C ?c" by (auto simp: channel_ok_def)
      have kind: "ch_kind r = ch_kind ?c" if "r \<in> set (notification_channels d1)" "ch_id r = ch_id ?c" for r
        using that c0 inv1 by (auto simp: channels_inv_def distinct_map dest: inj_onD)
      obtain u d2 where u: "UpdateChannel (pr_tenant p) ?c d1 = (u, d2)" by fastforce
      with UpdateChannel_inv [OF inv1 ok kind, of "pr_tenant p"] have "channels_inv C d2" by simp
      then have "channels_inv C (audit p a b l e g d2)" for a b l e g by (simp add: channels_inv_def)
      with True Pair Inr u \<open>channels_inv C d2\<close> show ?thesis
        by (cases u) (auto simp: updateChannel_def Let_def)
    next
      case False
      then have "snd (updateChannel C i raw p d) = d1"
        using Pair Inr by (cases "ValidateChannel (co_parse C) ?c") (auto simp: updateChannel_def Let_def)
      with inv1 show ?thesis by simp
    qed
  qed
qed

text \<open>
  The steps: the three handlers that write the table, with any arguments, and everything
  else the server does, which leaves it alone.
\<close>

inductive channel_step :: "console \<Rightarrow> db \<Rightarrow> db \<Rightarrow> bool" for C where
  create: "channel_step C d (snd (createChannel C req p d))"
| update: "channel_step C d (snd (updateChannel C i raw p d))"
| delete: "channel_step C d (snd (deleteChannel i p d))"
| elsewhere: "notification_channels d' = notification_channels d \<Longrightarrow> channel_step C d d'"

lemma finish_channels:
  "channels_inv C (snd r) \<Longrightarrow> channels_inv C (snd (finish p a b i l r))"
  by (auto simp: finish_def channels_inv_def split: prod.split sum.split)

lemma channel_step_inv:
  assumes "channel_step C d d'" "channels_inv C d"
  shows "channels_inv C d'"
  using assms
proof cases
  case (create req p)
  then show ?thesis using createChannel_inv [OF assms(2)] by (simp only:)
next
  case (update i raw p)
  then show ?thesis using updateChannel_inv [OF assms(2)] by (simp only:)
next
  case (delete i p)
  then show ?thesis using finish_channels [OF DeleteChannel_inv [OF assms(2)]] by (simp only: deleteChannel_def)
next
  case elsewhere
  then show ?thesis using channels_inv_cong assms(2) by blast
qed

text \<open>
  Whatever the console does and whichever connections are lost, every stored channel is one
  the validator accepts, identifiers stay unique, and a server without SMTP never holds an
  enabled mail channel.
\<close>

theorem channels_stay_valid:
  assumes "(channel_step C)\<^sup>*\<^sup>* d d'" "channels_inv C d"
  shows "channels_inv C d'"
  using assms by (induction rule: rtranclp_induct) (auto intro: channel_step_inv)

definition demo_console :: console where
  "demo_console = \<lparr>co_parse = (\<lambda>s. Inr \<lparr>u_scheme = ''https'', u_host = s, u_format = []\<rparr>), co_seal = rev, co_smtp = False\<rparr>"

lemma demo_channel_ok: "channel_ok demo_console demo_channel"
  by (simp add: channel_ok_def ValidateChannel_def validate_target_def demo_console_def demo_channel_def
      TrimSpace_def is_space_def char_defs EventKinds_def)

lemma demo_channels_inv: "channels_inv demo_console (demo_outbox DSent 1)"
  by (simp add: channels_inv_def demo_outbox_def demo_channel_ok)

theorem channels_stay_valid_witness:
  "channels_inv demo_console (snd (updateChannel demo_console 3 [(''enabled'', JBool False)] demo_admin (demo_outbox DSent 1)))"
  by (rule channels_stay_valid [OF r_into_rtranclp [of "channel_step demo_console", OF channel_step.update] demo_channels_inv])

lemma updateChannel_written:
  assumes "channels_inv C d" "c0 \<in> set (notification_channels d)" "ch_tenant c0 = pr_tenant p" "ch_id c0 = i"
    and ok: "fst (updateChannel C i raw p d) = noContent"
  shows "\<exists>now. notification_channels (snd (updateChannel C i raw p d)) =
    update_where (\<lambda>r. ch_id r = i) (overwrite (patched C raw c0) now) (notification_channels d)"
proof -
  obtain g d1 where g: "GetChannel (pr_tenant p) i d = (g, d1)" by fastforce
  then obtain c where c: "g = Inr c" using ok by (cases g) (simp_all add: updateChannel_def)
  have in_c: "c \<in> set (notification_channels d)" "ch_id c = i" "ch_tenant c = pr_tenant p"
    using GetChannel_ok [of "pr_tenant p" i d c d1] g c by simp_all
  have only: "r = c0" if "r \<in> set (notification_channels d)" "ch_id r = i" for r
    using that assms(1,2,4) by (auto simp: channels_inv_def distinct_map dest: inj_onD)
  then have [simp]: "c = c0" using in_c by simp
  let ?c = "patched C raw c0"
  have d1: "notification_channels d1 = notification_channels d" using GetChannel_channels [of "pr_tenant p" i d] g by simp
  have bad: "channelErr e \<noteq> noContent" "no_smtp \<noteq> noContent" for e
    by (simp_all add: channelErr_def no_smtp_def split: err.split)
  have v: "ValidateChannel (co_parse C) ?c = Inr ()" "\<not> (ch_kind ?c = ''email'' \<and> ch_enabled ?c \<and> \<not> co_smtp C)"
    using ok g c bad by (auto simp: updateChannel_def Let_def split: sum.splits if_splits)
  obtain u d2 where u: "UpdateChannel (pr_tenant p) ?c d1 = (u, d2)" by fastforce
  have "u = Inr ()" using ok g c v u bad by (cases u) (auto simp: updateChannel_def Let_def)
  then have w: "notification_channels d2 = update_where (\<lambda>r. ch_tenant r = pr_tenant p \<and> ch_id r = ch_id ?c)
      (overwrite ?c (now_db d1)) (notification_channels d1)"
    using u by (cases "pr_tenant p" ?c d1 rule: UpdateChannel_cases) simp_all
  have "notification_channels (snd (updateChannel C i raw p d)) = notification_channels d2"
    using g c v u \<open>u = Inr ()\<close> by (auto simp: updateChannel_def Let_def)
  moreover have "notification_channels d2 = update_where (\<lambda>r. ch_id r = i) (overwrite ?c (now_db d1)) (notification_channels d)"
    unfolding w d1 using only assms(3,4) by (auto simp: update_where_def)
  ultimately show ?thesis by auto
qed

text \<open>
  A patch that succeeds changes exactly the channel it names, and of that channel only what the
  patch mentions with the right type: a secret of null clears, an empty text keeps,
  another text replaces it by its sealed form; the kind never changes.
\<close>

theorem channel_patch_exact:
  assumes "channels_inv C d" "c \<in> set (notification_channels d)" "ch_tenant c = pr_tenant p"
    and "fst (updateChannel C (ch_id c) raw p d) = noContent"
  shows "(\<exists>c'. find_row (\<lambda>r. ch_id r = ch_id c) (notification_channels (snd (updateChannel C (ch_id c) raw p d))) = Some c' \<and>
      ch_kind c' = ch_kind c \<and> ch_tenant c' = ch_tenant c \<and>
      ch_name c' = (case map_of raw ''name'' of Some (JStr v) \<Rightarrow> v | _ \<Rightarrow> ch_name c) \<and>
      ch_enabled c' = (case map_of raw ''enabled'' of Some (JBool v) \<Rightarrow> v | _ \<Rightarrow> ch_enabled c) \<and>
      ch_secret c' = (case map_of raw ''secret'' of
         Some JNull \<Rightarrow> [] | Some (JStr s) \<Rightarrow> if s \<noteq> [] then co_seal C s else ch_secret c | _ \<Rightarrow> ch_secret c)) \<and>
    filter (\<lambda>r. ch_id r \<noteq> ch_id c) (notification_channels (snd (updateChannel C (ch_id c) raw p d))) =
      filter (\<lambda>r. ch_id r \<noteq> ch_id c) (notification_channels d)"
    (is "?A \<and> ?B")
proof
  obtain now where w: "notification_channels (snd (updateChannel C (ch_id c) raw p d)) =
      update_where (\<lambda>r. ch_id r = ch_id c) (overwrite (patched C raw c) now) (notification_channels d)"
    using updateChannel_written [OF assms(1-3) refl assms(4)] by blast
  have id: "ch_id (overwrite x now r) = ch_id r" for x r by (simp add: overwrite_def)
  have "find_row (\<lambda>r. ch_id r = ch_id c) (notification_channels d) = Some c"
    using assms(1,2) by (intro find_row_unique) (simp_all add: channels_inv_def)
  then have "find_row (\<lambda>r. ch_id r = ch_id c) (update_where (\<lambda>r. ch_id r = ch_id c) (overwrite (patched C raw c) now) (notification_channels d)) =
      Some (overwrite (patched C raw c) now c)"
    by (simp add: find_row_update_where id)
  moreover have "ch_kind (overwrite (patched C raw c) now c) = ch_kind c" "ch_tenant (overwrite (patched C raw c) now c) = ch_tenant c"
    "ch_name (overwrite (patched C raw c) now c) = ch_name (patched C raw c)"
    "ch_enabled (overwrite (patched C raw c) now c) = ch_enabled (patched C raw c)"
    "ch_secret (overwrite (patched C raw c) now c) = ch_secret (patched C raw c)"
    by (simp_all add: overwrite_def)
  ultimately show ?A
    unfolding w by (simp only: patched_fields) blast
  show ?B
    unfolding w by (rule filter_update_where_other) (simp add: id)
qed

text \<open>
  A valid request for a syslog channel is always answered with an internal error, and stores
  nothing: the column's check admits mail and web hooks only.
\<close>

theorem syslog_channel_never_created:
  assumes "ValidateChannel (co_parse C) (requested_channel C (next_uuid d) req) = Inr ()" "cq_kind req = Some ''syslog''"
  shows "rsp_code (fst (createChannel C req p d)) = 500 \<and>
    notification_channels (snd (createChannel C req p d)) = notification_channels d"
proof -
  let ?c = "requested_channel C (next_uuid d) req" and ?d = "d\<lparr>next_uuid := Suc (next_uuid d)\<rparr>"
  have k: "ch_kind ?c = ''syslog''" using assms(2) by (simp add: requested_channel_def given_def)
  obtain e d1 where "CreateChannel (pr_tenant p) ?c ?d = (Inl e, d1)" "e \<in> {PgError ''23514'', ErrConn}"
    "notification_channels d1 = notification_channels d"
    using k by (cases "faults d"; cases "hd (faults d)")
      (auto simp: CreateChannel_def channel_kind_check_def pool_def Let_def conflict_def)
  then show ?thesis
    using assms(1) k by (auto simp: createChannel_def new_uuid_def channelErr_def storeErr_def writeErr_def)
qed

definition syslog_req :: channel_req where
  "syslog_req = \<lparr>cq_kind = Some ''syslog'', cq_name = Some ''siem'', cq_events = [''alert.raised''], cq_enabled = None,
     cq_recipients = [], cq_url = Some ''siem'', cq_secret = None\<rparr>"

theorem syslog_channel_never_created_witness:
  "rsp_code (fst (createChannel (demo_console\<lparr>co_parse := demo_url\<rparr>) syslog_req demo_admin (demo_outbox DSent 1))) = 500"
proof -
  have "ValidateChannel (co_parse (demo_console\<lparr>co_parse := demo_url\<rparr>))
      (requested_channel (demo_console\<lparr>co_parse := demo_url\<rparr>) (next_uuid (demo_outbox DSent 1)) syslog_req) = Inr ()"
    by (simp add: ValidateChannel_def validate_target_def requested_channel_def syslog_req_def given_def demo_url_def
        TrimSpace_def is_space_def char_defs EventKinds_def ToLower_def lower_char_def is_upper_def)
  from syslog_channel_never_created [OF this] show ?thesis by (simp add: syslog_req_def)
qed

theorem channel_patch_exact_witness:
  "let r = updateChannel demo_console 3 [(''secret'', JStr ''ab'')] demo_admin (demo_outbox DSent 1) in
   fst r = noContent \<and> (\<exists>c'. find_row (\<lambda>r. ch_id r = 3) (notification_channels (snd r)) = Some c' \<and> ch_secret c' = ''ba'')"
proof -
  let ?d = "demo_outbox DSent 1" and ?raw = "[(''secret'', JStr ''ab'')]"
  have p: "patched demo_console ?raw demo_channel = demo_channel\<lparr>ch_secret := ''ba''\<rparr>"
    by (simp add: patched_def patch_secret_def patch_recipients_def patch_events_def patch_enabled_def patch_url_def patch_name_def
        demo_console_def)
  have v: "ValidateChannel (co_parse demo_console) (demo_channel\<lparr>ch_secret := ''ba''\<rparr>) = Inr ()"
    using demo_channel_ok ValidateChannel_cong [of "demo_channel\<lparr>ch_secret := ''ba''\<rparr>" demo_channel] by (simp add: channel_ok_def)
  have c: "demo_channel \<in> set (notification_channels ?d)" "ch_tenant demo_channel = pr_tenant demo_admin" "ch_id demo_channel = 3"
    by (simp_all add: demo_outbox_def demo_channel_def demo_admin_def)
  have g: "GetChannel (pr_tenant demo_admin) 3 ?d = (Inr demo_channel, ?d)"
    by (simp add: GetChannel_def demo_outbox_def demo_channel_def demo_admin_def)
  have u: "fst (UpdateChannel (pr_tenant demo_admin) (demo_channel\<lparr>ch_secret := ''ba''\<rparr>) ?d) = Inr ()"
    by (simp add: UpdateChannel_def demo_outbox_def demo_channel_def demo_admin_def rows_affected_def oneRow_def conflict_def Let_def)
  then obtain d2 where u2: "UpdateChannel (pr_tenant demo_admin) (demo_channel\<lparr>ch_secret := ''ba''\<rparr>) ?d = (Inr (), d2)"
    by (cases "UpdateChannel (pr_tenant demo_admin) (demo_channel\<lparr>ch_secret := ''ba''\<rparr>) ?d") simp
  have ok: "fst (updateChannel demo_console (ch_id demo_channel) ?raw demo_admin ?d) = noContent"
    unfolding c(3) updateChannel_def g prod.case sum.case p Let_def v u2 by (simp add: demo_channel_def)
  from channel_patch_exact [OF demo_channels_inv c(1,2) ok] ok show ?thesis
    unfolding c(3) by (auto simp: Let_def demo_console_def)
qed

end
