(* ===== verification/Disk.thy ===== *)
theory Disk
  imports Prelude
begin

text \<open>
  The file system as the programs use it (\<^verbatim>\<open>os.Create\<close>, \<^verbatim>\<open>WriteFile\<close>, \<^verbatim>\<open>ReadFile\<close>, \<^verbatim>\<open>Rename\<close>,
  \<^verbatim>\<open>Remove\<close>, \<^verbatim>\<open>MkdirAll\<close>): a map from paths to contents and an oracle for the coming
  calls. A call fails before it does anything, or, for a write, after some of the bytes; an
  exhausted oracle means no further failure. Replacing a file truncates it first, so a
  write that fails leaves a shorter file behind.
\<close>

datatype io_result = IoOk | IoErr | IoShort nat

record disk =
  dk_files :: "string \<rightharpoonup> bytes"
  dk_io :: "io_result list"

definition next_io :: "disk \<Rightarrow> io_result \<times> disk" where
  "next_io k = (case dk_io k of [] \<Rightarrow> (IoOk, k) | r # rs \<Rightarrow> (r, k\<lparr>dk_io := rs\<rparr>))"

definition on_disk :: "string \<Rightarrow> bytes option \<Rightarrow> disk \<Rightarrow> disk" where
  "on_disk path v k = k\<lparr>dk_files := (dk_files k)(path := v)\<rparr>"

text \<open>A call that does one thing to the disk or fails without effect.\<close>

definition os_call :: "(disk \<Rightarrow> disk) \<Rightarrow> disk \<Rightarrow> bool \<times> disk" where
  "os_call f k = (let (r, k1) = next_io k in if r = IoOk then (True, f k1) else (False, k1))"

definition MkdirAll :: "disk \<Rightarrow> bool \<times> disk" where
  "MkdirAll = os_call id"

definition os_Create :: "string \<Rightarrow> disk \<Rightarrow> bool \<times> disk" where
  "os_Create path = os_call (on_disk path (Some []))"

text \<open>\<^verbatim>\<open>io.Copy\<close> into an open file: all of the bytes, or the first few and an error.\<close>

definition io_Copy :: "string \<Rightarrow> bytes \<Rightarrow> disk \<Rightarrow> bool \<times> disk" where
  "io_Copy path b k = (case next_io k of
       (IoOk, k1) \<Rightarrow> (True, on_disk path (Some b) k1)
     | (IoErr, k1) \<Rightarrow> (False, k1)
     | (IoShort n, k1) \<Rightarrow> (False, on_disk path (Some (take n b)) k1))"

definition WriteFile :: "string \<Rightarrow> bytes \<Rightarrow> disk \<Rightarrow> bool \<times> disk" where
  "WriteFile path b k = (let (ok, k1) = os_Create path k in if \<not> ok then (False, k1) else io_Copy path b k1)"

text \<open>A missing file is an error of its own; reading changes nothing but the oracle.\<close>

definition ReadFile :: "string \<Rightarrow> disk \<Rightarrow> bytes option \<times> disk" where
  "ReadFile path k = (let (r, k1) = next_io k in (if r = IoOk then dk_files k1 path else None, k1))"

definition Rename :: "string \<Rightarrow> string \<Rightarrow> disk \<Rightarrow> bool \<times> disk" where
  "Rename a b k = (let (r, k1) = next_io k in
     case dk_files k1 a of
       None \<Rightarrow> (False, k1)
     | Some c \<Rightarrow> if r = IoOk then (True, on_disk b (Some c) (on_disk a None k1)) else (False, k1))"

definition Remove :: "string \<Rightarrow> disk \<Rightarrow> bool \<times> disk" where
  "Remove a k = (let (r, k1) = next_io k in
     case dk_files k1 a of
       None \<Rightarrow> (False, k1)
     | Some _ \<Rightarrow> if r = IoOk then (True, on_disk a None k1) else (False, k1))"

named_theorems disk_frame \<open>what a call does to the files\<close>

lemma next_io_snd [simp]: "dk_files (snd (next_io k)) = dk_files k"
  by (cases "dk_io k") (simp_all add: next_io_def)

lemma next_io_files: "next_io k = (r, k1) \<Longrightarrow> dk_files k1 = dk_files k"
  using next_io_snd [of k] by simp

lemma on_disk_files [simp]: "dk_files (on_disk path v k) = (dk_files k)(path := v)"
  by (simp add: on_disk_def)

lemma MkdirAll_files [disk_frame]: "dk_files (snd (MkdirAll k)) = dk_files k"
  by (simp add: MkdirAll_def os_call_def split_beta Let_def)

lemma os_Create_files [disk_frame]:
  "dk_files (snd (os_Create path k)) = (if fst (os_Create path k) then (dk_files k)(path \<mapsto> []) else dk_files k)"
  by (simp add: os_Create_def os_call_def split_beta Let_def)

lemma io_Copy_ok: "fst (io_Copy path b k) \<Longrightarrow> dk_files (snd (io_Copy path b k)) = (dk_files k)(path \<mapsto> b)"
  by (cases "next_io k"; cases "fst (next_io k)") (auto simp: io_Copy_def dest: next_io_files)

lemma io_Copy_other [disk_frame]: "q \<noteq> path \<Longrightarrow> dk_files (snd (io_Copy path b k)) q = dk_files k q"
  by (cases "next_io k"; cases "fst (next_io k)") (auto simp: io_Copy_def dest: next_io_files)

lemma io_Copy_cases:
  obtains (whole) "fst (io_Copy path b k)" "dk_files (snd (io_Copy path b k)) = (dk_files k)(path \<mapsto> b)"
  | (part) n where "\<not> fst (io_Copy path b k)" "dk_files (snd (io_Copy path b k)) = (dk_files k)(path \<mapsto> take n b)"
  | (none) "\<not> fst (io_Copy path b k)" "dk_files (snd (io_Copy path b k)) = dk_files k"
proof (cases "next_io k")
  case (Pair r k1)
  then show thesis using next_io_files [OF Pair] whole part none by (cases r) (auto simp: io_Copy_def)
qed

lemma WriteFile_ok: "fst (WriteFile path b k) \<Longrightarrow> dk_files (snd (WriteFile path b k)) = (dk_files k)(path \<mapsto> b)"
  using os_Create_files [of path k] io_Copy_ok [of path b "snd (os_Create path k)"]
  by (auto simp: WriteFile_def split_beta Let_def split: if_splits)

lemma WriteFile_other [disk_frame]: "q \<noteq> path \<Longrightarrow> dk_files (snd (WriteFile path b k)) q = dk_files k q"
  using os_Create_files [of path k] io_Copy_other [of q path b "snd (os_Create path k)"]
  by (auto simp: WriteFile_def split_beta Let_def split: if_splits)

lemma ReadFile_files [disk_frame]: "dk_files (snd (ReadFile path k)) = dk_files k"
  by (simp add: ReadFile_def split_beta Let_def)

lemma ReadFile_value: "fst (ReadFile path k) = Some b \<Longrightarrow> dk_files k path = Some b"
  by (auto simp: ReadFile_def split_beta Let_def split: if_splits)

lemma Rename_cases:
  obtains (moved) c where "fst (Rename a b k)" "dk_files k a = Some c" "dk_files (snd (Rename a b k)) = (dk_files k)(a := None, b \<mapsto> c)"
  | (kept) "\<not> fst (Rename a b k)" "dk_files (snd (Rename a b k)) = dk_files k"
proof (cases "next_io k")
  case (Pair r k1)
  then have "dk_files k1 = dk_files k" by (rule next_io_files)
  with Pair show thesis using moved kept
    by (cases "dk_files k a"; cases "r = IoOk") (auto simp: Rename_def)
qed

lemma Remove_cases:
  obtains (removed) "dk_files (snd (Remove a k)) = (dk_files k)(a := None)"
  | (kept) "dk_files (snd (Remove a k)) = dk_files k"
proof (cases "next_io k")
  case (Pair r k1)
  then have "dk_files k1 = dk_files k" by (rule next_io_files)
  with Pair show thesis using removed kept
    by (cases "dk_files k a"; cases "r = IoOk") (auto simp: Remove_def)
qed

lemma Remove_other: "q \<noteq> a \<Longrightarrow> dk_files (snd (Remove a k)) q = dk_files k q"
  by (rule Remove_cases [where a = a and k = k]) simp_all

lemma io_exhausted:
  assumes "dk_io k = []"
  shows "next_io k = (IoOk, k)" "fst (os_call f k)" "snd (os_call f k) = f k"
    "io_Copy path b k = (True, on_disk path (Some b) k)" "ReadFile path k = (dk_files k path, k)"
  using assms by (simp_all add: next_io_def os_call_def io_Copy_def ReadFile_def)

end
