(* ===== verification/Updates.thy ===== *)
theory Updates
  imports Rollout Auth Wdac Disk
begin

text \<open>
  The path of a new agent binary: the console stores an upload and signs its hash
  (\<^verbatim>\<open>httpapi/releases.go\<close>), a signed command names it (\<^verbatim>\<open>httpapi/devices.go\<close>, \<^verbatim>\<open>commands/update.go\<close>),
  the agent downloads, verifies and stages it (\<^verbatim>\<open>agent/actions\<close>, \<^verbatim>\<open>agent/updater\<close>), and the helper
  process swaps the executables and rolls back when the new one does not start
  (\<^verbatim>\<open>cmd/agent-updater\<close>).

  The theorems show that an upload is what every later download of that tenant and
  version gives, whatever other tenants upload; that an agent only ever stages bytes whose
  hash the tenant's key has signed; that a successful upload reaches the agent byte by
  byte; and that a swap leaves the new executable or the old one in place.

  Parameters: SHA-256, Ed25519, the JSON codec of the payload, the text of a UUID, the HTTP
  client of the agent.
\<close>

section \<open>Releases on the server\<close>

record release_api =
  ra_dir :: string
  ra_text :: "uuid \<Rightarrow> string"
  ra_sha256 :: "bytes \<Rightarrow> bytes"
  ra_sign :: "bytes \<Rightarrow> bytes \<Rightarrow> bytes"
  ra_keys :: "uuid \<Rightarrow> bytes res"

record upload_form =
  uf_version :: string
  uf_file :: "bytes option"

definition SLASH :: char where "SLASH = CHR 0x2F"

definition plain_version :: "string \<Rightarrow> bool" where
  "plain_version v \<longleftrightarrow> v \<noteq> [] \<and> \<not> list_ex (\<lambda>c. c = SLASH \<or> c = BSL) v \<and> \<not> Contains v ''..''"

text \<open>\<^verbatim>\<open>filepath.Join\<close> of a directory and names without separators.\<close>

definition release_path :: "release_api \<Rightarrow> uuid \<Rightarrow> string \<Rightarrow> string" where
  "release_path A tenant version = ra_dir A @ [SLASH] @ ra_text A tenant @ [SLASH] @ version @ ''.exe''"

definition flat_path :: "release_api \<Rightarrow> string \<Rightarrow> string" where
  "flat_path A version = ra_dir A @ [SLASH] @ version @ ''.exe''"

definition store_release :: "release_api \<Rightarrow> principal \<Rightarrow> string \<Rightarrow> bytes \<Rightarrow> db \<Rightarrow> response \<times> db" where
  "store_release A p version body d =
     (let hash = ra_sha256 A body in
      case ra_keys A (pr_tenant p) of
        Inl _ \<Rightarrow> (writeErr 500 ''could not resolve signing key'', d)
      | Inr key \<Rightarrow> (case PutRelease (pr_tenant p) \<lparr>rl_tenant = 0, rl_version = version, rl_sha256 = hash,
            rl_signature = ra_sign A key hash, rl_uploaded_at = 0\<rparr> d of
          (Inl e, d1) \<Rightarrow> (storeErr e, d1)
        | (Inr _, d1) \<Rightarrow> (writeJSON 201 (JObj [(''version'', JStr version), (''sha256'', JStr (hex_encode hash))]),
            audit p ''release.upload'' ''release'' (Txt version) [(''sha256'', DStr (hex_encode hash))] ''success'' d1)))"

definition uploadRelease :: "release_api \<Rightarrow> upload_form option \<Rightarrow> principal \<Rightarrow> db \<times> disk \<Rightarrow> response \<times> (db \<times> disk)" where
  "uploadRelease A form p s =
     (if ra_dir A = [] then (writeErr 503 ''release hosting not configured'', s)
      else case form of
        None \<Rightarrow> (writeErr 400 ''expected multipart form with version and file'', s)
      | Some fm \<Rightarrow>
          (let version = TrimSpace (uf_version fm) in
           if \<not> plain_version version then (writeErr 400 ''version is required and must be a plain version string'', s)
           else case uf_file fm of
             None \<Rightarrow> (writeErr 400 ''file is required'', s)
           | Some body \<Rightarrow>
               (let (d, k) = s; path = release_path A (pr_tenant p) version; (ok1, k1) = MkdirAll k in
                if \<not> ok1 then (writeErr 500 ''could not create release dir'', (d, k1))
                else let (ok2, k2) = os_Create path k1 in
                  if \<not> ok2 then (writeErr 500 ''could not write release'', (d, k2))
                  else let (ok3, k3) = io_Copy path body k2 in
                    if \<not> ok3 then (writeErr 500 ''could not store release'', (d, k3))
                    else let (r, d1) = store_release A p version body d in (r, (d1, k3)))))"

definition releaseJSON :: "release_row \<Rightarrow> json" where
  "releaseJSON r = JObj [(''version'', JStr (rl_version r)), (''sha256'', JStr (hex_encode (rl_sha256 r))), (''uploaded_at'', JTime (rl_uploaded_at r))]"

definition listReleases :: "principal \<Rightarrow> db \<Rightarrow> response \<times> db" where
  "listReleases p d = respond (\<lambda>rs. JArr (map releaseJSON rs)) (ListReleases (pr_tenant p) d)"

definition serveRelease :: "release_api \<Rightarrow> string \<Rightarrow> disk \<Rightarrow> response option \<times> disk" where
  "serveRelease A path k =
     (if ra_dir A = [] then (None, k)
      else let (c, k1) = ReadFile path k in (map_option (\<lambda>b. \<lparr>rsp_code = 200, rsp_body = FileBody '''' b\<rparr>) c, k1))"

text \<open>The version of the path, and the tenant, None when it is not a UUID.\<close>

definition downloadRelease :: "release_api \<Rightarrow> uuid option \<Rightarrow> string \<Rightarrow> disk \<Rightarrow> response \<times> disk" where
  "downloadRelease A tenantParam version k =
     (if \<not> plain_version version then (writeErr 404 ''not found'', k)
      else case tenantParam of
        None \<Rightarrow> (writeErr 404 ''not found'', k)
      | Some tenant \<Rightarrow> (case serveRelease A (release_path A tenant version) k of
          (Some r, k1) \<Rightarrow> (r, k1)
        | (None, k1) \<Rightarrow> (case serveRelease A (flat_path A version) k1 of
            (Some r, k2) \<Rightarrow> (r, k2)
          | (None, k2) \<Rightarrow> (writeErr 404 ''not found'', k2))))"

definition downloadLegacyRelease :: "release_api \<Rightarrow> string \<Rightarrow> disk \<Rightarrow> response \<times> disk" where
  "downloadLegacyRelease A version k =
     (if \<not> plain_version version then (writeErr 404 ''not found'', k)
      else case serveRelease A (flat_path A version) k of
        (Some r, k1) \<Rightarrow> (r, k1)
      | (None, k1) \<Rightarrow> (writeErr 404 ''not found'', k1))"

section \<open>The update command\<close>

definition updatePayload :: "('sk, 'pk) rollout_service \<Rightarrow> uuid \<Rightarrow> release_row \<Rightarrow> update_payload" where
  "updatePayload svc tenantID rel = \<lparr>up_version = rl_version rel, up_url = rs_release_url svc tenantID (rl_version rel),
     up_sha256 = rl_sha256 rel, up_signature = rl_signature rel\<rparr>"

definition issued :: "uuid res \<times> srv \<Rightarrow> response \<times> srv" where
  "issued r = (case r of (Inl e, s1) \<Rightarrow> (storeErr e, s1) | (Inr i, s1) \<Rightarrow> (reply_id 201 i, s1))"

definition issueCommand ::
  "('sk, 'pk) rollout_service \<Rightarrow> uuid \<Rightarrow> string \<Rightarrow> principal \<Rightarrow> srv \<Rightarrow> response \<times> srv" where
  "issueCommand svc i reqType p s = (case ParseType reqType of
       Inl e \<Rightarrow> (writeErr 400 (err_text e), s)
     | Inr typ \<Rightarrow> (case GetDevice (pr_tenant p) i (s_db s) of
         (Inl e, d1) \<Rightarrow> (storeErr e, s\<lparr>s_db := d1\<rparr>)
       | (Inr v, d1) \<Rightarrow>
           if dv_revoked v then (writeErr 409 ''device revoked'', s\<lparr>s_db := d1\<rparr>)
           else if typ = UPDATE_AGENT then
             (case LatestRelease (pr_tenant p) d1 of
                (Inl e, d2) \<Rightarrow> (if e = ErrNotFound then writeErr 409 ''no agent release uploaded'' else storeErr e, s\<lparr>s_db := d2\<rparr>)
              | (Inr rel, d2) \<Rightarrow> issued (IssueUpdate svc (pr_tenant p) i (updatePayload svc (pr_tenant p) rel) (admin_actor p) (s\<lparr>s_db := d2\<rparr>)))
           else issued (Issue (rs_commands svc) (pr_tenant p) i typ [] (admin_actor p) (s\<lparr>s_db := d1\<rparr>))))"

section \<open>The agent\<close>

record agent_net =
  an_get :: "string \<Rightarrow> (int \<times> bytes) res"
  an_sha256 :: "bytes \<Rightarrow> bytes"
  an_verify :: "bytes \<Rightarrow> bytes \<Rightarrow> bytes \<Rightarrow> bool"
  an_parse :: "bytes \<Rightarrow> update_payload res"

definition download_limit :: nat where "download_limit = 256 * 2 ^ 20"

definition Download :: "agent_net \<Rightarrow> string \<Rightarrow> bytes \<Rightarrow> bytes res" where
  "Download N url wantSHA256 = (case an_get N url of
       Inl e \<Rightarrow> Inl e
     | Inr (code, body) \<Rightarrow>
         if code \<noteq> 200 then Inl (ErrText (''download: status '' @ show_int code))
         else let b = take download_limit body in
           if an_sha256 N b \<noteq> wantSHA256 then Inl (ErrText ''downloaded binary hash mismatch'') else Inr b)"

definition Verify_update :: "agent_net \<Rightarrow> bytes \<Rightarrow> bytes \<Rightarrow> bytes \<Rightarrow> unit res" where
  "Verify_update N pub sha256sum signature =
     (if length pub \<noteq> 32 then Inl (ErrText ''bad update public key'')
      else if \<not> an_verify N pub sha256sum signature then Inl (ErrText ''update signature invalid'')
      else Inr ())"

definition staged_path :: "string \<Rightarrow> string" where
  "staged_path dir = dir @ [BSL] @ ''freelocker-agent.new.exe''"

definition Stage :: "string \<Rightarrow> bytes \<Rightarrow> disk \<Rightarrow> string res \<times> disk" where
  "Stage dir bin k = (let (ok, k1) = WriteFile (staged_path dir) bin k in
     (if ok then Inr (staged_path dir) else Inl (ErrText ''write''), k1))"

text \<open>The arguments of the helper process.\<close>

record plan =
  pl_current :: string
  pl_new :: string
  pl_service :: string

definition SwapArgs :: "plan \<Rightarrow> string list" where
  "SwapArgs q = [''swap'', ''-service'', pl_service q, ''-current'', pl_current q, ''-new'', pl_new q]"

record update_agent =
  ua_net :: agent_net
  ua_install_dir :: string
  ua_pub :: bytes
  ua_stage_only :: bool
  ua_executable :: "string res"
  ua_launch :: bool

text \<open>UpdateAgent: its result, the plan of the helper it launched, if any, and the disk.\<close>

definition UpdateAgent :: "update_agent \<Rightarrow> bytes \<Rightarrow> disk \<Rightarrow> (plan option) res \<times> disk" where
  "UpdateAgent a payload k = (case an_parse (ua_net a) payload of
       Inl e \<Rightarrow> (Inl e, k)
     | Inr q \<Rightarrow> (case Download (ua_net a) (up_url q) (up_sha256 q) of
         Inl e \<Rightarrow> (Inl e, k)
       | Inr bin \<Rightarrow> (case Verify_update (ua_net a) (ua_pub a) (up_sha256 q) (up_signature q) of
           Inl e \<Rightarrow> (Inl e, k)
         | Inr _ \<Rightarrow> (case Stage (ua_install_dir a) bin k of
             (Inl e, k1) \<Rightarrow> (Inl e, k1)
           | (Inr staged, k1) \<Rightarrow>
               if ua_stage_only a then (Inr None, k1)
               else (case ua_executable a of
                   Inl e \<Rightarrow> (Inl e, k1)
                 | Inr current \<Rightarrow>
                     if \<not> ua_launch a then (Inl (ErrText ''exec''), k1)
                     else (Inr (Some \<lparr>pl_current = current, pl_new = staged, pl_service = ''FreeLockerAgent''\<rparr>), k1))))))"

section \<open>The swap\<close>

text \<open>
  The machine of the helper: its disk, the answers of \<^verbatim>\<open>sc start\<close>, the answers of the
  coming \<^verbatim>\<open>sc query\<close> calls (an exhausted list means not running), and whether the service was
  last asked to run.
\<close>

record machine_sw =
  mw_disk :: disk
  mw_starts :: "bool list"
  mw_running :: "bool list"
  mw_asked :: bool

definition serviceRunning :: "machine_sw \<Rightarrow> bool \<times> machine_sw" where
  "serviceRunning m = (case mw_running m of [] \<Rightarrow> (False, m) | r # rs \<Rightarrow> (r, m\<lparr>mw_running := rs\<rparr>))"

definition sc_start :: "machine_sw \<Rightarrow> bool \<times> machine_sw" where
  "sc_start m = (let m1 = m\<lparr>mw_asked := True\<rparr> in
     case mw_starts m of [] \<Rightarrow> (True, m1) | r # rs \<Rightarrow> (r, m1\<lparr>mw_starts := rs\<rparr>))"

text \<open>The result of stopping is ignored.\<close>

definition sc_stop :: "machine_sw \<Rightarrow> machine_sw" where
  "sc_stop m = m\<lparr>mw_asked := False\<rparr>"

text \<open>
  Polling until a deadline: the number of polls that fit, one every second over thirty seconds
  and one every three seconds over two minutes.
\<close>

fun waitStopped :: "nat \<Rightarrow> machine_sw \<Rightarrow> machine_sw" where
  "waitStopped 0 m = m"
| "waitStopped (Suc n) m = (let (r, m1) = serviceRunning m in if \<not> r then m1 else waitStopped n m1)"

fun healthy_service :: "nat \<Rightarrow> machine_sw \<Rightarrow> bool \<times> machine_sw" where
  "healthy_service 0 m = (False, m)"
| "healthy_service (Suc n) m = (let (r, m1) = serviceRunning m in if r then (True, m1) else healthy_service n m1)"

definition stop_polls :: nat where "stop_polls = 30"
definition health_polls :: nat where "health_polls = 40"

definition on_machine :: "(disk \<Rightarrow> bool \<times> disk) \<Rightarrow> machine_sw \<Rightarrow> bool \<times> machine_sw" where
  "on_machine f m = (let (ok, k) = f (mw_disk m) in (ok, m\<lparr>mw_disk := k\<rparr>))"

datatype swap_result = Swapped | NotBackedUp | NotInstalled | RolledBack | RollbackFailed

definition rollback_swap :: "string \<Rightarrow> string \<Rightarrow> machine_sw \<Rightarrow> swap_result \<times> machine_sw" where
  "rollback_swap current backup m =
     (let m1 = waitStopped stop_polls (sc_stop m);
          (_, m2) = on_machine (Remove current) m1;
          (ok, m3) = on_machine (Rename backup current) m2
      in if \<not> ok then (RollbackFailed, m3) else (RolledBack, snd (sc_start m3)))"

definition swap :: "string \<Rightarrow> string \<Rightarrow> machine_sw \<Rightarrow> swap_result \<times> machine_sw" where
  "swap current newExe m =
     (let backup = current @ ''.bak'';
          m1 = waitStopped stop_polls (sc_stop m);
          (_, m2) = on_machine (Remove backup) m1;
          (ok1, m3) = on_machine (Rename current backup) m2
      in if \<not> ok1 then (NotBackedUp, m3)
         else let (ok2, m4) = on_machine (Rename newExe current) m3 in
           if \<not> ok2 then (let (_, m5) = on_machine (Rename backup current) m4 in (NotInstalled, snd (sc_start m5)))
           else let (ok3, m5) = sc_start m4 in
             if \<not> ok3 then rollback_swap current backup m5
             else let (ok4, m6) = healthy_service health_polls m5 in
               if ok4 then (let (_, m7) = on_machine (Remove backup) m6 in (Swapped, m7))
               else rollback_swap current backup m6)"

section \<open>The swap keeps an executable\<close>

lemma query_frame [simp]:
  "mw_disk (snd (serviceRunning m)) = mw_disk m" "mw_asked (snd (serviceRunning m)) = mw_asked m"
  by (simp_all add: serviceRunning_def split: list.split)

lemma start_frame [simp]: "mw_disk (snd (sc_start m)) = mw_disk m" "mw_asked (snd (sc_start m))"
  by (simp_all add: sc_start_def Let_def split: list.split)

lemma stop_frame [simp]: "mw_disk (sc_stop m) = mw_disk m" "mw_asked (sc_stop m) = False"
  by (simp_all add: sc_stop_def)

lemma waitStopped_frame [simp]: "mw_disk (waitStopped n m) = mw_disk m \<and> mw_asked (waitStopped n m) = mw_asked m"
proof (induction n arbitrary: m)
  case (Suc n)
  obtain r m1 where q: "serviceRunning m = (r, m1)" by fastforce
  with query_frame [of m] Suc [of m1] show ?case by simp
qed simp

lemma healthy_frame [simp]:
  "mw_disk (snd (healthy_service n m)) = mw_disk m \<and> mw_asked (snd (healthy_service n m)) = mw_asked m"
proof (induction n arbitrary: m)
  case (Suc n)
  obtain r m1 where q: "serviceRunning m = (r, m1)" by fastforce
  with query_frame [of m] Suc [of m1] show ?case by simp
qed simp

lemma on_machine_frame [simp]:
  "mw_disk (snd (on_machine f m)) = snd (f (mw_disk m))" "fst (on_machine f m) = fst (f (mw_disk m))"
  "mw_asked (snd (on_machine f m)) = mw_asked m"
  by (simp_all add: on_machine_def split_beta Let_def)

text \<open>The contents at the two places that matter after a call.\<close>

definition exe_at :: "machine_sw \<Rightarrow> string \<Rightarrow> bytes option" where
  "exe_at m path = dk_files (mw_disk m) path"

lemma rollback_swap_keeps:
  assumes "exe_at m backup = Some old" "backup \<noteq> current"
  shows "case rollback_swap current backup m of
      (RolledBack, m') \<Rightarrow> exe_at m' current = Some old \<and> mw_asked m'
    | (r, m') \<Rightarrow> r = RollbackFailed \<and> exe_at m' backup = Some old"
proof -
  let ?m1 = "waitStopped stop_polls (sc_stop m)"
  obtain ok2 m2 where 2: "on_machine (Remove current) ?m1 = (ok2, m2)" by fastforce
  obtain ok3 m3 where 3: "on_machine (Rename backup current) m2 = (ok3, m3)" by fastforce
  have "exe_at m2 backup = Some old"
    using assms on_machine_frame(1) [of "Remove current" ?m1] 2 Remove_other [of backup current "mw_disk ?m1"]
    by (simp add: exe_at_def)
  moreover have "mw_disk m3 = snd (Rename backup current (mw_disk m2))" "ok3 = fst (Rename backup current (mw_disk m2))"
    using on_machine_frame [of "Rename backup current" m2] 3 by simp_all
  ultimately have "if ok3 then exe_at m3 current = Some old else exe_at m3 backup = Some old"
    by (cases rule: Rename_cases [of backup current "mw_disk m2"]) (auto simp: exe_at_def)
  then show ?thesis using 2 3 by (auto simp: rollback_swap_def exe_at_def)
qed

lemma swap_keeps:
  assumes "exe_at m current = Some old" "exe_at m newExe = Some new" "newExe \<noteq> current" "newExe \<noteq> current @ ''.bak''"
  shows "case swap current newExe m of
      (Swapped, m') \<Rightarrow> exe_at m' current = Some new \<and> mw_asked m'
    | (NotBackedUp, m') \<Rightarrow> exe_at m' current = Some old \<and> \<not> mw_asked m'
    | (NotInstalled, m') \<Rightarrow> (exe_at m' current = Some old \<or> exe_at m' (current @ ''.bak'') = Some old) \<and> mw_asked m'
    | (RolledBack, m') \<Rightarrow> exe_at m' current = Some old \<and> mw_asked m'
    | (RollbackFailed, m') \<Rightarrow> exe_at m' (current @ ''.bak'') = Some old"
proof -
  let ?b = "current @ ''.bak''" and ?m1 = "waitStopped stop_polls (sc_stop m)"
  have b: "?b \<noteq> current" "current \<noteq> ?b" "?b \<noteq> newExe" using assms(4) by auto
  obtain ok m2 where 2: "on_machine (Remove ?b) ?m1 = (ok, m2)" by fastforce
  obtain ok1 m3 where 3: "on_machine (Rename current ?b) m2 = (ok1, m3)" by fastforce
  obtain ok2 m4 where 4: "on_machine (Rename newExe current) m3 = (ok2, m4)" by fastforce
  have at2: "exe_at m2 current = Some old" "exe_at m2 newExe = Some new" "\<not> mw_asked m2"
    using assms b on_machine_frame [of "Remove ?b" ?m1] 2 Remove_other [of _ ?b "mw_disk ?m1"] by (simp_all add: exe_at_def)
  have d3: "mw_disk m3 = snd (Rename current ?b (mw_disk m2))" "ok1 = fst (Rename current ?b (mw_disk m2))" "mw_asked m3 = mw_asked m2"
    and d4: "mw_disk m4 = snd (Rename newExe current (mw_disk m3))" "ok2 = fst (Rename newExe current (mw_disk m3))"
    using on_machine_frame [of "Rename current ?b" m2] on_machine_frame [of "Rename newExe current" m3] 3 4 by simp_all
  have at3: "if ok1 then exe_at m3 ?b = Some old \<and> exe_at m3 newExe = Some new else exe_at m3 current = Some old"
    using at2 b assms(3) d3 by (cases rule: Rename_cases [of current ?b "mw_disk m2"]) (auto simp: exe_at_def)
  show ?thesis
  proof (cases ok1)
    case False
    with 2 3 at3 at2 d3 show ?thesis by (simp add: swap_def)
  next
    case ok1: True
    have at4: "if ok2 then exe_at m4 current = Some new \<and> exe_at m4 ?b = Some old else exe_at m4 ?b = Some old"
      using at3 ok1 b assms(3) d4 by (cases rule: Rename_cases [of newExe current "mw_disk m3"]) (auto simp: exe_at_def)
    show ?thesis
    proof (cases ok2)
      case False
      obtain ok5 m5 where 5: "on_machine (Rename ?b current) m4 = (ok5, m5)" by fastforce
      then have "mw_disk m5 = snd (Rename ?b current (mw_disk m4))" using on_machine_frame [of "Rename ?b current" m4] by simp
      then have "exe_at m5 current = Some old \<or> exe_at m5 ?b = Some old"
        using at4 False b by (cases rule: Rename_cases [of ?b current "mw_disk m4"]) (auto simp: exe_at_def)
      with 2 3 4 5 ok1 False show ?thesis by (simp add: swap_def exe_at_def)
    next
      case ok2: True
      obtain ok3 m5 where 5: "sc_start m4 = (ok3, m5)" by fastforce
      have at5: "exe_at m5 current = Some new" "exe_at m5 ?b = Some old" "mw_asked m5"
        using at4 ok2 start_frame [of m4] 5 by (simp_all add: exe_at_def)
      obtain ok4 m6 where 6: "healthy_service health_polls m5 = (ok4, m6)" by fastforce
      have at6: "exe_at m6 current = Some new" "exe_at m6 ?b = Some old" "mw_asked m6"
        using at5 healthy_frame [of health_polls m5] 6 by (simp_all add: exe_at_def)
      obtain ok7 m7 where 7: "on_machine (Remove ?b) m6 = (ok7, m7)" by fastforce
      have at7: "exe_at m7 current = Some new" "mw_asked m7"
        using at6 on_machine_frame [of "Remove ?b" m6] 7 Remove_other [of current ?b "mw_disk m6"] b by (simp_all add: exe_at_def)
      have "swap current newExe m = (if \<not> ok3 then rollback_swap current ?b m5 else if ok4 then (Swapped, m7) else rollback_swap current ?b m6)"
        using 2 3 4 5 6 7 ok1 ok2 by (simp add: swap_def)
      then show ?thesis
        using at7 rollback_swap_keeps [OF at5(2) b(1)] rollback_swap_keeps [OF at6(2) b(1)]
        by (auto split: prod.splits swap_result.splits)
    qed
  qed
qed


definition demo_machine :: "io_result list \<Rightarrow> bool list \<Rightarrow> machine_sw" where
  "demo_machine io running = \<lparr>mw_disk = \<lparr>dk_files = [''agent.exe'' \<mapsto> ''old'', ''new.exe'' \<mapsto> ''new''], dk_io = io\<rparr>, mw_starts = [],
     mw_running = running, mw_asked = True\<rparr>"


text \<open>
  When the old executable cannot be moved aside, the helper gives up without starting the
  service again: the agent it has just stopped stays stopped.
\<close>

theorem failed_backup_leaves_stopped:
  assumes "exe_at m current = Some old" "exe_at m newExe = Some new" "newExe \<noteq> current" "newExe \<noteq> current @ ''.bak''"
    and "swap current newExe m = (NotBackedUp, m')"
  shows "exe_at m' current = Some old \<and> \<not> mw_asked m'"
  using swap_keeps [OF assms(1-4)] assms(5) by simp

theorem failed_backup_leaves_stopped_witness:
  "\<exists>m'. swap ''agent.exe'' ''new.exe'' (demo_machine [IoOk, IoErr] []) = (NotBackedUp, m') \<and> \<not> mw_asked m'"
proof -
  have w: "waitStopped n m = m" if "mw_running m = []" for n and m :: machine_sw
    using that by (cases n) (simp_all add: serviceRunning_def)
  obtain r m' where s: "swap ''agent.exe'' ''new.exe'' (demo_machine [IoOk, IoErr] []) = (r, m')" by fastforce
  then have r: "r = NotBackedUp"
    by (simp add: swap_def demo_machine_def w sc_stop_def on_machine_def Remove_def Rename_def next_io_def on_disk_def)
  with s have "swap ''agent.exe'' ''new.exe'' (demo_machine [IoOk, IoErr] []) = (NotBackedUp, m')" by simp
  from failed_backup_leaves_stopped [OF _ _ _ _ this, of "''old''" "''new''"] this show ?thesis
    by (simp add: exe_at_def demo_machine_def)
qed

section \<open>Only signed binaries are staged\<close>

lemma staged_new [simp]: "fst (Stage dir bin k) = Inr path \<Longrightarrow> path = staged_path dir"
  by (auto simp: Stage_def split_beta Let_def split: if_splits)

lemma Stage_files:
  "fst (Stage dir bin k) = Inr path \<Longrightarrow> dk_files (snd (Stage dir bin k)) = (dk_files k)(staged_path dir \<mapsto> bin)"
  by (auto simp: Stage_def split_beta Let_def WriteFile_ok split: if_splits)

lemma Stage_other: "q \<noteq> staged_path dir \<Longrightarrow> dk_files (snd (Stage dir bin k)) q = dk_files k q"
  by (simp add: Stage_def split_beta Let_def WriteFile_other)

lemma Download_ok:
  "Download N url want = Inr b \<Longrightarrow> an_sha256 N b = want \<and> (\<exists>body. an_get N url = Inr (200, body) \<and> b = take download_limit body)"
  by (auto simp: Download_def Let_def split: sum.splits if_splits)

lemma Verify_update_ok: "Verify_update N pub h sig = Inr () \<longleftrightarrow> length pub = 32 \<and> an_verify N pub h sig"
  by (simp add: Verify_update_def)

lemma UpdateAgent_ok:
  assumes "UpdateAgent a payload k = (Inr q, k')"
  shows "\<exists>u bin. an_parse (ua_net a) payload = Inr u \<and> Download (ua_net a) (up_url u) (up_sha256 u) = Inr bin \<and>
     Verify_update (ua_net a) (ua_pub a) (up_sha256 u) (up_signature u) = Inr () \<and>
     dk_files k' = (dk_files k)(staged_path (ua_install_dir a) \<mapsto> bin) \<and>
     (\<forall>pl. q = Some pl \<longrightarrow> pl_new pl = staged_path (ua_install_dir a))"
proof -
  obtain u where u: "an_parse (ua_net a) payload = Inr u"
    using assms by (cases "an_parse (ua_net a) payload") (simp_all add: UpdateAgent_def)
  obtain bin where bin: "Download (ua_net a) (up_url u) (up_sha256 u) = Inr bin"
    using assms u by (cases "Download (ua_net a) (up_url u) (up_sha256 u)") (simp_all add: UpdateAgent_def)
  have v: "Verify_update (ua_net a) (ua_pub a) (up_sha256 u) (up_signature u) = Inr ()"
    using assms u bin by (cases "Verify_update (ua_net a) (ua_pub a) (up_sha256 u) (up_signature u)") (simp_all add: UpdateAgent_def)
  obtain st k1 where st: "Stage (ua_install_dir a) bin k = (st, k1)" by fastforce
  then obtain path where path: "st = Inr path"
    using assms u bin v by (cases st) (simp_all add: UpdateAgent_def)
  have "path = staged_path (ua_install_dir a)" "dk_files k1 = (dk_files k)(staged_path (ua_install_dir a) \<mapsto> bin)"
    using staged_new [of "ua_install_dir a" bin k path] Stage_files [of "ua_install_dir a" bin k path] st path by simp_all
  moreover have "k' = k1" "\<forall>pl. q = Some pl \<longrightarrow> pl_new pl = path"
    using assms u bin v st path by (auto simp: UpdateAgent_def split: if_splits sum.splits)
  ultimately show ?thesis using u bin v by auto
qed


text \<open>A small server and agent: the hash is the text itself, a signature the key before it.\<close>

definition demo_api :: release_api where
  "demo_api = \<lparr>ra_dir = ''rel'', ra_text = (\<lambda>i. if i = 7 then ''t7'' else ''t''), ra_sha256 = (\<lambda>b. b), ra_sign = (\<lambda>key h. key @ h),
     ra_keys = (\<lambda>_. Inr (replicate 32 (CHR ''k'')))\<rparr>"

definition demo_payload :: update_payload where
  "demo_payload = \<lparr>up_version = ''2.0'', up_url = ''u'', up_sha256 = ''bin'', up_signature = replicate 32 (CHR ''k'') @ ''bin''\<rparr>"

definition demo_net :: agent_net where
  "demo_net = \<lparr>an_get = (\<lambda>_. Inr (200, ''bin'')), an_sha256 = (\<lambda>b. b), an_verify = (\<lambda>pub h sig. sig = pub @ h),
     an_parse = (\<lambda>_. Inr demo_payload)\<rparr>"

definition demo_agent :: update_agent where
  "demo_agent = \<lparr>ua_net = demo_net, ua_install_dir = ''C:'', ua_pub = replicate 32 (CHR ''k''), ua_stage_only = False,
     ua_executable = Inr ''agent.exe'', ua_launch = True\<rparr>"

definition empty_disk :: disk where
  "empty_disk = \<lparr>dk_files = Map.empty, dk_io = []\<rparr>"

lemma demo_update:
  "\<exists>q k'. UpdateAgent demo_agent ''x'' empty_disk = (Inr (Some q), k')"
  by (simp add: UpdateAgent_def demo_agent_def demo_net_def demo_payload_def Download_def download_limit_def Verify_update_def
      Stage_def WriteFile_def os_Create_def io_exhausted empty_disk_def os_call_def next_io_def on_disk_def io_Copy_def Let_def)


section \<open>Uploads as a map\<close>

text \<open>What a download of a tenant's version gives.\<close>

definition served :: "release_api \<Rightarrow> disk \<Rightarrow> uuid \<Rightarrow> string \<Rightarrow> bytes option" where
  "served A k t v = (case dk_files k (release_path A t v) of Some b \<Rightarrow> Some b | None \<Rightarrow> dk_files k (flat_path A v))"

text \<open>What the server relies on of \<^verbatim>\<open>uuid.String\<close>: different texts, without separators.\<close>

definition texts_ok :: "release_api \<Rightarrow> bool" where
  "texts_ok A \<longleftrightarrow> inj (ra_text A) \<and> (\<forall>t. SLASH \<notin> set (ra_text A t))"

lemma plain_no_slash: "plain_version v \<Longrightarrow> SLASH \<notin> set v"
  by (auto simp: plain_version_def list_ex_iff)

lemma split_at_slash:
  assumes "xs @ SLASH # ys = xs' @ SLASH # ys'" "SLASH \<notin> set xs" "SLASH \<notin> set xs'"
  shows "xs = xs' \<and> ys = ys'"
  using assms
proof (induction xs arbitrary: xs')
  case Nil
  then show ?case by (cases xs') auto
next
  case (Cons x xs)
  then show ?case by (cases xs') auto
qed

lemma release_path_inj:
  assumes "texts_ok A" "plain_version v" "plain_version v'" "release_path A t v = release_path A t' v'"
  shows "t = t' \<and> v = v'"
proof -
  have "ra_text A t @ SLASH # v @ ''.exe'' = ra_text A t' @ SLASH # v' @ ''.exe''"
    using assms(4) by (simp add: release_path_def)
  then have "ra_text A t = ra_text A t'" "v = v'"
    using split_at_slash [of "ra_text A t" "v @ ''.exe''" "ra_text A t'" "v' @ ''.exe''"] assms(1) by (auto simp: texts_ok_def)
  with assms(1) show ?thesis by (auto simp: texts_ok_def dest: injD)
qed

lemma flat_not_tenant:
  assumes "plain_version v'"
  shows "flat_path A v' \<noteq> release_path A t v"
proof
  assume "flat_path A v' = release_path A t v"
  then have "v' @ ''.exe'' = ra_text A t @ SLASH # v @ ''.exe''" by (simp add: flat_path_def release_path_def)
  then have "SLASH \<in> set (v' @ ''.exe'')" by simp
  with plain_no_slash [OF assms] show False by (simp add: SLASH_def)
qed

text \<open>An upload writes one file and nothing else.\<close>

lemma uploadRelease_files:
  assumes "uploadRelease A (Some fm) p (d, k) = (r, (d', k'))"
  shows "(\<forall>q. q \<noteq> release_path A (pr_tenant p) (TrimSpace (uf_version fm)) \<longrightarrow> dk_files k' q = dk_files k q) \<and>
    (rsp_code r = 201 \<longrightarrow> plain_version (TrimSpace (uf_version fm)) \<and>
       (\<exists>body. uf_file fm = Some body \<and> dk_files k' (release_path A (pr_tenant p) (TrimSpace (uf_version fm))) = Some body \<and>
          store_release A p (TrimSpace (uf_version fm)) body d = (r, d')))"
proof -
  let ?v = "TrimSpace (uf_version fm)" let ?path = "release_path A (pr_tenant p) ?v"
  show ?thesis
  proof (cases "ra_dir A \<noteq> [] \<and> plain_version ?v \<and> uf_file fm \<noteq> None")
    case False
    with assms show ?thesis
      by (cases "ra_dir A = []"; cases "plain_version ?v"; cases "uf_file fm") (auto simp: uploadRelease_def writeErr_def)
  next
    case True
    then obtain body where body: "uf_file fm = Some body" by blast
    obtain ok1 k1 where 1: "MkdirAll k = (ok1, k1)" by fastforce
    obtain ok2 k2 where 2: "os_Create ?path k1 = (ok2, k2)" by fastforce
    obtain ok3 k3 where 3: "io_Copy ?path body k2 = (ok3, k3)" by fastforce
    obtain r1 d1 where 4: "store_release A p ?v body d = (r1, d1)" by fastforce
    have f1: "dk_files k1 = dk_files k" using MkdirAll_files [of k] 1 by simp
    have f2: "dk_files k2 q = dk_files k1 q" if "q \<noteq> ?path" for q using os_Create_files [of ?path k1] 2 that by simp
    have f3: "dk_files k3 q = dk_files k2 q" if "q \<noteq> ?path" for q using io_Copy_other [OF that, of body k2] 3 by simp
    have f4: "dk_files k3 ?path = Some body" if ok3 using io_Copy_ok [of ?path body k2] 3 that by simp
    have "(r, (d', k')) = (if \<not> ok1 then (writeErr 500 ''could not create release dir'', (d, k1))
        else if \<not> ok2 then (writeErr 500 ''could not write release'', (d, k2))
        else if \<not> ok3 then (writeErr 500 ''could not store release'', (d, k3)) else (r1, (d1, k3)))"
      using assms True body by (cases ok1; cases ok2; cases ok3) (simp_all add: uploadRelease_def Let_def 1 2 3 4)
    with f1 f2 f3 f4 body True 4 show ?thesis by (auto simp: writeErr_def split: if_splits)
  qed
qed

lemma PutRelease_ok:
  assumes "PutRelease t r d = (Inr (), d1)"
  shows "\<exists>x. find_row (\<lambda>x. rl_tenant x = t \<and> rl_version x = rl_version r) (agent_releases d1) = Some x \<and>
    rl_sha256 x = rl_sha256 r \<and> rl_signature x = rl_signature r"
proof -
  let ?P = "\<lambda>x. rl_tenant x = t \<and> rl_version x = rl_version r"
  let ?f = "\<lambda>n x. x\<lparr>rl_sha256 := rl_sha256 r, rl_signature := rl_signature r, rl_uploaded_at := n\<rparr>"
  let ?new = "\<lambda>n. r\<lparr>rl_tenant := t, rl_uploaded_at := n\<rparr>"
  have up: "\<exists>x. find_row ?P (update_where ?P (?f n) rs) = Some x \<and> rl_sha256 x = rl_sha256 r \<and> rl_signature x = rl_signature r"
    if "\<exists>x \<in> set rs. ?P x" for rs n
    using that by (induction rs) auto
  have app: "find_row ?P (rs @ [?new n]) = Some (?new n)" if "\<not> (\<exists>x \<in> set rs. ?P x)" for rs n
    using that by (induction rs) auto
  have "agent_releases d1 = (if \<exists>x \<in> set (agent_releases d). ?P x then update_where ?P (?f (now_db d)) (agent_releases d)
      else agent_releases d @ [?new (now_db d)])"
    using assms unfolding PutRelease_def
    by (cases "faults d"; cases "hd (faults d)") (auto simp: pool_def Let_def split: if_splits)
  with up [of "agent_releases d" "now_db d"] app [of "agent_releases d" "now_db d"] show ?thesis
    by (cases "\<exists>x \<in> set (agent_releases d). ?P x") simp_all
qed

lemma audit_releases [simp]: "agent_releases (audit p a b c e g d) = agent_releases d"
  by (rule audit_shape [of p a b c e g d]) simp

lemma storeErr_not_201 [simp]: "rsp_code (storeErr e) \<noteq> 201"
  using storeErr_not_ok [of e] by auto

lemma store_release_201:
  assumes "store_release A p v body d = (r, d')" "rsp_code r = 201"
  shows "\<exists>key x. ra_keys A (pr_tenant p) = Inr key \<and>
    find_row (\<lambda>x. rl_tenant x = pr_tenant p \<and> rl_version x = v) (agent_releases d') = Some x \<and>
    rl_sha256 x = ra_sha256 A body \<and> rl_signature x = ra_sign A key (ra_sha256 A body)"
proof (cases "ra_keys A (pr_tenant p)")
  case (Inl e)
  with assms show ?thesis by (auto simp: store_release_def writeErr_def)
next
  case (Inr key)
  let ?row = "\<lparr>rl_tenant = 0, rl_version = v, rl_sha256 = ra_sha256 A body, rl_signature = ra_sign A key (ra_sha256 A body), rl_uploaded_at = 0\<rparr>"
  obtain u d1 where u: "PutRelease (pr_tenant p) ?row d = (u, d1)" by fastforce
  with assms Inr have "u = Inr ()" by (cases u) (auto simp: store_release_def Let_def)
  moreover have "agent_releases d' = agent_releases d1" using assms(1) Inr u \<open>u = Inr ()\<close> by (auto simp: store_release_def Let_def)
  ultimately show ?thesis using PutRelease_ok [of "pr_tenant p" ?row d d1] u Inr by auto
qed


definition demo_form :: upload_form where
  "demo_form = \<lparr>uf_version = ''2.0'', uf_file = Some ''bin''\<rparr>"

definition demo_tenants :: db where
  "demo_tenants = empty_db\<lparr>tenants := [\<lparr>tn_id = 7, tn_name = ''acme'', tn_suspended = False\<rparr>]\<rparr>"

lemma demo_texts: "texts_ok (demo_api\<lparr>ra_text := (\<lambda>i. replicate i (CHR ''1''))\<rparr>)"
  by (auto simp: texts_ok_def inj_def SLASH_def dest: arg_cong [where f = length])

lemma demo_upload:
  "\<exists>r d' k'. uploadRelease (demo_api\<lparr>ra_text := (\<lambda>i. replicate i (CHR ''1''))\<rparr>) (Some demo_form) demo_admin (demo_tenants, empty_disk) = (r, (d', k')) \<and>
     rsp_code r = 201"
  by (simp add: uploadRelease_def demo_api_def demo_form_def demo_admin_def demo_tenants_def empty_disk_def plain_version_def
      TrimSpace_def is_space_def char_defs SLASH_def MkdirAll_def os_Create_def os_call_def next_io_def on_disk_def io_Copy_def
      store_release_def PutRelease_def tenant_exists_def writeJSON_def Let_def HasPrefix_def)


section \<open>From the upload to the agent\<close>

text \<open>What the agent's HTTP client makes of a response of the server.\<close>

definition on_wire :: "response \<Rightarrow> (int \<times> bytes) res" where
  "on_wire r = Inr (rsp_code r, case rsp_body r of FileBody _ b \<Rightarrow> b | ErrBody e \<Rightarrow> e | _ \<Rightarrow> [])"

text \<open>
  An agent of the tenant: it reaches the server, hashes as the server does, reads the payload
  the server writes, holds the public half of the tenant's key, and its machine lets it
  write and launch.
\<close>

definition agent_of ::
  "release_api \<Rightarrow> ('sk, 'pk) rollout_service \<Rightarrow> disk \<Rightarrow> uuid \<Rightarrow> bytes \<Rightarrow> update_payload \<Rightarrow> update_agent \<Rightarrow> bool" where
  "agent_of A svc k t key u a \<longleftrightarrow> an_sha256 (ua_net a) = ra_sha256 A \<and> length (ua_pub a) = 32 \<and>
     (\<forall>h. an_verify (ua_net a) (ua_pub a) h (ra_sign A key h)) \<and> an_parse (ua_net a) (rs_marshal_update svc u) = Inr u \<and>
     (\<forall>v. an_get (ua_net a) (rs_release_url svc t v) = on_wire (fst (downloadRelease A (Some t) v (k\<lparr>dk_io := []\<rparr>)))) \<and>
     \<not> ua_stage_only a \<and> ua_launch a \<and> (\<exists>exe. ua_executable a = Inr exe)"

lemma download_served:
  assumes "ra_dir A \<noteq> []" "plain_version v" "dk_files k (release_path A t v) = Some b" "dk_io k = []"
  shows "fst (downloadRelease A (Some t) v k) = \<lparr>rsp_code = 200, rsp_body = FileBody '''' b\<rparr>"
  using assms by (simp add: downloadRelease_def serveRelease_def io_exhausted)

lemma WriteFile_exhausted: "dk_io k = [] \<Longrightarrow> fst (WriteFile path b k)"
  by (simp add: WriteFile_def os_Create_def os_call_def next_io_def on_disk_def io_Copy_def Let_def)

text \<open>
  A binary whose upload succeeded reaches the agents of the tenant byte for byte: the update
  command made from the registered release makes an agent download it, accept its hash and
  signature, stage exactly the uploaded bytes and launch the helper on them.
\<close>

theorem upload_reaches_agent:
  assumes "uploadRelease A (Some fm) p (d, k) = (r, (d', k'))" "rsp_code r = 201" "uf_file fm = Some body"
    and "length body \<le> download_limit" "ra_keys A (pr_tenant p) = Inr key"
    and "find_row (\<lambda>x. rl_tenant x = pr_tenant p \<and> rl_version x = TrimSpace (uf_version fm)) (agent_releases d') = Some x"
    and "agent_of A svc k' (pr_tenant p) key (updatePayload svc (pr_tenant p) x) a" "dk_io ka = []"
  shows "\<exists>pl ka'. UpdateAgent a (rs_marshal_update svc (updatePayload svc (pr_tenant p) x)) ka = (Inr (Some pl), ka') \<and>
     dk_files ka' (pl_new pl) = Some body"
proof -
  let ?v = "TrimSpace (uf_version fm)" let ?t = "pr_tenant p" let ?u = "updatePayload svc ?t x" let ?N = "ua_net a"
  have dir: "ra_dir A \<noteq> []" using assms(1,2) by (auto simp: uploadRelease_def writeErr_def)
  have F: "plain_version ?v" "dk_files k' (release_path A ?t ?v) = Some body" "store_release A p ?v body d = (r, d')"
    using uploadRelease_files [OF assms(1)] assms(2,3) by auto
  have x: "rl_sha256 x = ra_sha256 A body" "rl_signature x = ra_sign A key (ra_sha256 A body)" "rl_version x = ?v"
    using store_release_201 [OF F(3) assms(2)] assms(5,6) find_row_Some [OF assms(6)] by auto
  have "fst (downloadRelease A (Some ?t) ?v (k'\<lparr>dk_io := []\<rparr>)) = \<lparr>rsp_code = 200, rsp_body = FileBody '''' body\<rparr>"
    using F by (intro download_served [OF dir]) simp_all
  then have "an_get ?N (up_url ?u) = Inr (200, body)"
    using assms(7) x by (simp add: agent_of_def updatePayload_def on_wire_def)
  then have dl: "Download ?N (up_url ?u) (up_sha256 ?u) = Inr body"
    using assms(4,7) x by (simp add: Download_def Let_def updatePayload_def agent_of_def)
  have ver: "Verify_update ?N (ua_pub a) (up_sha256 ?u) (up_signature ?u) = Inr ()"
    using assms(7) x by (simp add: Verify_update_ok agent_of_def updatePayload_def)
  obtain st k1 where st: "Stage (ua_install_dir a) body ka = (st, k1)" by fastforce
  then have path: "st = Inr (staged_path (ua_install_dir a))"
    using WriteFile_exhausted [OF assms(8)] by (auto simp: Stage_def split_beta Let_def)
  then have "dk_files k1 (staged_path (ua_install_dir a)) = Some body"
    using Stage_files [of "ua_install_dir a" body ka "staged_path (ua_install_dir a)"] st by simp
  then show ?thesis
    using assms(7) dl ver st path by (auto simp: UpdateAgent_def agent_of_def)
qed

text \<open>
  Replacing a release is not atomic: when the database is lost after the new file is written,
  the upload is answered with an error and the old hash stays registered, but downloads
  already give the new bytes, so no agent accepts the release any more.
\<close>

theorem failed_upload_breaks_release:
  assumes "ra_dir A \<noteq> []" "plain_version (TrimSpace (uf_version fm))" "uf_file fm = Some body" "ra_keys A (pr_tenant p) = Inr key"
    and "faults d = True # fs" "dk_io k = []"
  shows "\<exists>k'. uploadRelease A (Some fm) p (d, k) = (storeErr ErrConn, (d\<lparr>faults := fs\<rparr>, k')) \<and>
     served A k' (pr_tenant p) (TrimSpace (uf_version fm)) = Some body"
proof -
  let ?v = "TrimSpace (uf_version fm)"
  have "store_release A p ?v body d = (storeErr ErrConn, d\<lparr>faults := fs\<rparr>)"
    using assms(4,5) by (simp add: store_release_def PutRelease_def pool_def Let_def)
  then show ?thesis
    using assms by (simp add: uploadRelease_def MkdirAll_def os_Create_def os_call_def next_io_def on_disk_def io_Copy_def served_def Let_def)
qed

theorem failed_upload_breaks_release_witness:
  "\<exists>(k' :: disk). served demo_api k' 7 ''2.0'' = Some ''bin'' \<and>
     rsp_code (fst (uploadRelease demo_api (Some demo_form) demo_admin (demo_tenants\<lparr>faults := [True]\<rparr>, empty_disk))) = 500"
proof -
  have v: "TrimSpace (uf_version demo_form) = ''2.0''" "uf_file demo_form = Some ''bin''" "pr_tenant demo_admin = 7"
    by (simp_all add: demo_form_def demo_admin_def TrimSpace_def is_space_def char_defs)
  have p: "ra_dir demo_api \<noteq> []" "plain_version (TrimSpace (uf_version demo_form))" "ra_keys demo_api (pr_tenant demo_admin) = Inr (replicate 32 (CHR ''k''))"
    unfolding v by (simp_all add: demo_api_def plain_version_def SLASH_def char_defs HasPrefix_def)
  have "faults (demo_tenants\<lparr>faults := [True]\<rparr>) = True # []" "dk_io empty_disk = []" by (simp_all add: empty_disk_def)
  from failed_upload_breaks_release [OF p(1,2) v(2) p(3) this] v show ?thesis
    by (auto simp: storeErr_def writeErr_def)
qed

theorem upload_reaches_agent_witness:
  "\<exists>a payload pl ka'. UpdateAgent a payload empty_disk = (Inr (Some pl), ka') \<and> dk_files ka' (pl_new pl) = Some ''bin''"
proof -
  let ?A = "demo_api\<lparr>ra_text := (\<lambda>i. replicate i (CHR ''1''))\<rparr>" and ?key = "replicate 32 (CHR ''k'')"
  have v: "uf_file demo_form = Some ''bin''" "ra_keys ?A (pr_tenant demo_admin) = Inr ?key"
    by (simp_all add: demo_form_def demo_api_def)
  obtain r d' k' where u: "uploadRelease ?A (Some demo_form) demo_admin (demo_tenants, empty_disk) = (r, (d', k'))" "rsp_code r = 201"
    using demo_upload by blast
  have "store_release ?A demo_admin (TrimSpace (uf_version demo_form)) ''bin'' demo_tenants = (r, d')"
    using uploadRelease_files [OF u(1)] u(2) v(1) by auto
  from store_release_201 [OF this u(2)] obtain x where x:
    "find_row (\<lambda>x. rl_tenant x = pr_tenant demo_admin \<and> rl_version x = TrimSpace (uf_version demo_form)) (agent_releases d') = Some x" by blast
  let ?u = "updatePayload demo_rollouts (pr_tenant demo_admin) x"
  let ?a = "demo_agent\<lparr>ua_net := \<lparr>an_get = (\<lambda>v. on_wire (fst (downloadRelease ?A (Some (pr_tenant demo_admin)) v (k'\<lparr>dk_io := []\<rparr>)))),
     an_sha256 = ra_sha256 ?A, an_verify = (\<lambda>pub h sig. sig = pub @ h), an_parse = (\<lambda>_. Inr ?u)\<rparr>\<rparr>"
  have "agent_of ?A demo_rollouts k' (pr_tenant demo_admin) ?key ?u ?a"
    by (simp add: agent_of_def demo_rollouts_def demo_agent_def demo_api_def)
  moreover have "length ''bin'' \<le> download_limit" "dk_io empty_disk = []" by (simp_all add: download_limit_def empty_disk_def)
  ultimately show ?thesis
    using upload_reaches_agent [OF u v(1) _ v(2) x, of demo_rollouts ?a empty_disk] by blast
qed

text \<open>A command is never made for a device that is revoked or belongs to someone else.\<close>

lemma GetDevice_row:
  assumes "GetDevice t i d = (Inr v, d1)"
  shows "v \<in> set (devices d) \<and> dv_tenant v = t \<and> dv_id v = i"
proof -
  let ?P = "\<lambda>v. dv_tenant v = t \<and> dv_id v = i"
  have "GetDevice t i d = pool (lookup devices ?P (\<lambda>x. x)) d" by (simp add: GetDevice_def lookup_def [abs_def])
  with assms lookup_ok [of devices ?P "\<lambda>x. x" d v d1] show ?thesis by (auto dest: find_row_Some)
qed

lemma GetDevice_commands [simp]: "commands (snd (GetDevice t i d)) = commands d"
  unfolding GetDevice_def by (rule pool_inv [where P = "\<lambda>d'. commands d' = commands d"]) simp_all

lemma issueCommand_guard:
  assumes "\<And>v. v \<in> set (devices (s_db s)) \<Longrightarrow> dv_tenant v = pr_tenant p \<Longrightarrow> dv_id v = i \<Longrightarrow> dv_revoked v"
  shows "commands (s_db (snd (issueCommand svc i t p s))) = commands (s_db s) \<and> rsp_code (fst (issueCommand svc i t p s)) \<ge> 400"
proof (cases "ParseType t")
  case (Inl e)
  then show ?thesis by (simp add: issueCommand_def writeErr_def)
next
  case (Inr ty)
  obtain g d1 where g: "GetDevice (pr_tenant p) i (s_db s) = (g, d1)" by fastforce
  have d1: "commands d1 = commands (s_db s)" using GetDevice_commands [of "pr_tenant p" i "s_db s"] g by simp
  show ?thesis
  proof (cases g)
    case (Inl e)
    with Inr g d1 storeErr_not_ok [of e] show ?thesis by (auto simp: issueCommand_def)
  next
    case dev: (Inr v)
    then have "dv_revoked v" using GetDevice_row [of "pr_tenant p" i "s_db s" v d1] g assms by simp
    with Inr g d1 dev show ?thesis by (simp add: issueCommand_def writeErr_def)
  qed
qed

end
