(* ===== verification/Authenticode.thy ===== *)
theory Authenticode
  imports Wdac "HOL-Library.Word"
begin

text \<open>
  The hash an agent reports for an executable (\<^verbatim>\<open>agent/scan/authenticode.go\<close>): which byte ranges
  of a PE image Authenticode hashes. Header fields are words of their width; offsets are
  64-bit in the code and stay below \<open>2^33\<close> plus the file size, so they are integers here.

  The theorems show that the ranges ascend, stay inside the file and leave out exactly the
  checksum, the certificate directory entry and the certificate table, and that signing a
  file does not change its hash, which is what lets one rule match a program before and after
  it is signed.
\<close>

section \<open>Reading the headers\<close>

definition u16 :: "bytes \<Rightarrow> int \<Rightarrow> 16 word option" where
  "u16 f off = (if off < 0 \<or> off + 2 > int (length f) then None
     else Some (word_of_nat (byte (f ! nat off) + 256 * byte (f ! (nat off + 1)))))"

definition u32 :: "bytes \<Rightarrow> int \<Rightarrow> 32 word option" where
  "u32 f off = (if off < 0 \<or> off + 4 > int (length f) then None
     else Some (word_of_nat (byte (f ! nat off) + 256 * byte (f ! (nat off + 1)) + 65536 * byte (f ! (nat off + 2)) +
       16777216 * byte (f ! (nat off + 3)))))"

text \<open>Where the optional header starts and how long it says it is.\<close>

definition pe_optional :: "bytes \<Rightarrow> (int \<times> 16 word) option" where
  "pe_optional f = (case u16 f 0 of
       None \<Rightarrow> None
     | Some mz \<Rightarrow> if mz \<noteq> 0x5A4D then None else (case u32 f 0x3C of
         None \<Rightarrow> None
       | Some peOff32 \<Rightarrow> (let peOff = uint peOff32 in case u32 f peOff of
           None \<Rightarrow> None
         | Some sig \<Rightarrow> if sig \<noteq> 0x00004550 then None else (case u16 f (peOff + 4 + 16) of
             None \<Rightarrow> None
           | Some optSize \<Rightarrow> Some (peOff + 4 + 20, optSize)))))"

text \<open>The two directory offsets of the two kinds of image.\<close>

definition pe_directories :: "bytes \<Rightarrow> int \<Rightarrow> (int \<times> int) option" where
  "pe_directories f optOff = (case u16 f optOff of
       None \<Rightarrow> None
     | Some magic \<Rightarrow>
         if magic = 0x10b then Some (optOff + 92, optOff + 96)
         else if magic = 0x20b then Some (optOff + 108, optOff + 112)
         else None)"

definition certDirIndex :: int where "certDirIndex = 4"

text \<open>The offset of the checksum, and of the certificate directory entry when there is one.\<close>

definition pe_layout :: "bytes \<Rightarrow> (int \<times> int option) option" where
  "pe_layout f = (case pe_optional f of
       None \<Rightarrow> None
     | Some (optOff, optSize) \<Rightarrow> (case pe_directories f optOff of
         None \<Rightarrow> None
       | Some (numDirsOff, dirsOff) \<Rightarrow>
           (let optEnd = optOff + uint optSize; checksumOff = optOff + 64 in
            if optEnd > int (length f) \<or> checksumOff + 4 > optEnd then None
            else case u32 f numDirsOff of
              None \<Rightarrow> None
            | Some numDirs \<Rightarrow>
                (let certDirOff = dirsOff + certDirIndex * 8 in
                 if uint numDirs \<le> certDirIndex \<or> certDirOff + 8 > optEnd then Some (checksumOff, None)
                 else Some (checksumOff, Some certDirOff)))))"

text \<open>A field that cannot be read counts as zero.\<close>

definition field32 :: "bytes \<Rightarrow> int \<Rightarrow> int" where
  "field32 f off = (case u32 f off of None \<Rightarrow> 0 | Some x \<Rightarrow> uint x)"

definition peHashRanges :: "bytes \<Rightarrow> (int \<times> int) list option" where
  "peHashRanges f = (let size = int (length f) in case pe_layout f of
       None \<Rightarrow> None
     | Some (checksumOff, None) \<Rightarrow> Some [(0, checksumOff), (checksumOff + 4, size)]
     | Some (checksumOff, Some certDirOff) \<Rightarrow>
         (let certOff = field32 f certDirOff; certLen = field32 f (certDirOff + 4);
              ranges = [(0, checksumOff), (checksumOff + 4, certDirOff)]
          in if certLen = 0 \<or> certOff < certDirOff + 8 \<or> certOff + certLen > size
             then Some (ranges @ [(certDirOff + 8, size)])
             else Some (ranges @ [(certDirOff + 8, certOff)] @
               (if certOff + certLen < size then [(certOff + certLen, size)] else []))))"

definition section_bytes :: "bytes \<Rightarrow> int \<times> int \<Rightarrow> bytes" where
  "section_bytes f r = take (nat (snd r - fst r)) (drop (nat (fst r)) f)"

text \<open>The bytes that are hashed: a file that is no PE image is hashed whole.\<close>

definition hashed :: "bytes \<Rightarrow> bytes" where
  "hashed f = concat (map (section_bytes f) (case peHashRanges f of Some rs \<Rightarrow> rs | None \<Rightarrow> [(0, int (length f))]))"

text \<open>The file, None when it cannot be opened or read.\<close>

definition AuthenticodeHash :: "(bytes \<Rightarrow> bytes) \<Rightarrow> bytes option \<Rightarrow> string option" where
  "AuthenticodeHash sha256 contents = map_option (\<lambda>f. ToUpper (hex_encode (sha256 (hashed f)))) contents"

definition HashFile :: "(bytes \<Rightarrow> bytes) \<Rightarrow> bytes option \<Rightarrow> string option" where
  "HashFile sha256 contents = map_option (\<lambda>f. ToUpper (hex_encode (sha256 f))) contents"

section \<open>Ranges\<close>

text \<open>Ranges that ascend from one bound to another without overlapping.\<close>

fun ascending :: "int \<Rightarrow> (int \<times> int) list \<Rightarrow> int \<Rightarrow> bool" where
  "ascending lo [] hi \<longleftrightarrow> lo \<le> hi"
| "ascending lo ((a, b) # rs) hi \<longleftrightarrow> lo \<le> a \<and> a \<le> b \<and> ascending b rs hi"

lemma pe_optional_facts:
  assumes "pe_optional f = Some (o1, n)"
  shows "\<exists>w. o1 = uint w + 24 \<and> u16 f 0 = Some 0x5A4D \<and> u32 f 0x3C = Some w \<and>
    u32 f (uint w) = Some 0x00004550 \<and> u16 f (uint w + 4 + 16) = Some n"
  using assms unfolding pe_optional_def Let_def by (auto split: option.splits if_splits)

lemma pe_optional_intro:
  "u16 f 0 = Some 0x5A4D \<Longrightarrow> u32 f 0x3C = Some w \<Longrightarrow> u32 f (uint w) = Some 0x00004550 \<Longrightarrow> u16 f (uint w + 4 + 16) = Some n \<Longrightarrow>
   pe_optional f = Some (uint w + 24, n)"
  unfolding pe_optional_def Let_def by simp

text \<open>The excluded fields lie inside the optional header, in this order.\<close>

lemma pe_layout_facts:
  assumes "pe_layout f = Some (cs, cd)"
  shows "\<exists>o1 n nd dirs num. pe_optional f = Some (o1, n) \<and> pe_directories f o1 = Some (nd, dirs) \<and> u32 f nd = Some num \<and>
    cs = o1 + 64 \<and> 24 \<le> o1 \<and> o1 + uint n \<le> int (length f) \<and> cs + 4 \<le> o1 + uint n \<and>
    (cd = None \<or> 4 < uint num \<and> cd = Some (dirs + 32) \<and> dirs + 40 \<le> o1 + uint n)"
proof -
  obtain o1 n where o1: "pe_optional f = Some (o1, n)" using assms by (auto simp: pe_layout_def split: option.splits)
  obtain nd dirs where nd: "pe_directories f o1 = Some (nd, dirs)" using assms o1 by (auto simp: pe_layout_def split: option.splits)
  obtain num where num: "u32 f nd = Some num" using assms o1 nd by (auto simp: pe_layout_def Let_def split: option.splits if_splits)
  have "24 \<le> o1" using pe_optional_facts [OF o1] by auto
  with assms o1 nd num show ?thesis by (auto simp: pe_layout_def Let_def certDirIndex_def split: if_splits)
qed

lemma pe_directories_facts:
  "pe_directories f o1 = Some (nd, dirs) \<Longrightarrow> (nd = o1 + 92 \<and> dirs = o1 + 96) \<or> (nd = o1 + 108 \<and> dirs = o1 + 112)"
  by (auto simp: pe_directories_def split: option.splits if_splits)

lemma layout_order:
  assumes "pe_layout f = Some (cs, Some cd)"
  shows "88 \<le> cs \<and> cs + 4 \<le> cd \<and> cd + 8 \<le> int (length f)"
  using pe_layout_facts [OF assms] by (auto dest!: pe_directories_facts)

lemma layout_order_none:
  assumes "pe_layout f = Some (cs, cd)"
  shows "88 \<le> cs \<and> cs + 4 \<le> int (length f)"
  using pe_layout_facts [OF assms] by auto

lemma field32_nonneg [simp]: "0 \<le> field32 f off"
  by (simp add: field32_def split: option.split)

lemma length_section: "0 \<le> a \<Longrightarrow> a \<le> b \<Longrightarrow> b \<le> int (length f) \<Longrightarrow> int (length (section_bytes f (a, b))) = b - a"
  by (simp add: section_bytes_def)

lemma table_start: "field32 f cd + field32 f c \<le> n \<Longrightarrow> field32 f cd \<le> n"
  using field32_nonneg [of f c] by linarith

lemma ranges_ascend: "peHashRanges f = Some rs \<Longrightarrow> ascending 0 rs (int (length f))"
  using layout_order [of f] layout_order_none [of f]
  by (auto simp: peHashRanges_def Let_def not_less intro: table_start split: option.splits if_splits)

text \<open>How many bytes a PE image excludes.\<close>

definition excluded :: "bytes \<Rightarrow> int" where
  "excluded f = (case pe_layout f of
       None \<Rightarrow> 0
     | Some (cs, None) \<Rightarrow> 4
     | Some (cs, Some cd) \<Rightarrow>
         (let certOff = field32 f cd; certLen = field32 f (cd + 4) in
          12 + (if certOff < cd + 8 \<or> certOff + certLen > int (length f) then 0 else certLen)))"


section \<open>Signing\<close>

text \<open>
  A signed copy of an unsigned image: the certificate table is appended, the directory entry
  points at it, the checksum is whatever it is, and every other byte is kept.
\<close>

definition signed_copy :: "bytes \<Rightarrow> bytes \<Rightarrow> bool" where
  "signed_copy f f' \<longleftrightarrow> (case pe_layout f of
       Some (cs, Some cd) \<Rightarrow>
         field32 f (cd + 4) = 0 \<and> length f < length f' \<and>
         field32 f' cd = int (length f) \<and> field32 f' (cd + 4) = int (length f') - int (length f) \<and>
         list_all (\<lambda>i. (cs \<le> int i \<and> int i < cs + 4) \<or> (cd \<le> int i \<and> int i < cd + 8) \<or> f' ! i = f ! i) [0..<length f]
     | _ \<Rightarrow> False)"

definition agree :: "bytes \<Rightarrow> bytes \<Rightarrow> int \<Rightarrow> int \<Rightarrow> bool" where
  "agree f f' a b \<longleftrightarrow> 0 \<le> a \<and> b \<le> int (length f) \<and> b \<le> int (length f') \<and> (\<forall>i. a \<le> int i \<and> int i < b \<longrightarrow> f' ! i = f ! i)"

lemma agree_u16: "agree f f' a (a + 2) \<Longrightarrow> u16 f' a = u16 f a"
  by (auto simp: agree_def u16_def)

lemma agree_u32: "agree f f' a (a + 4) \<Longrightarrow> u32 f' a = u32 f a"
  by (auto simp: agree_def u32_def)

lemma u16_Some: "u16 f a = Some x \<Longrightarrow> 0 \<le> a \<and> a + 2 \<le> int (length f)"
  by (auto simp: u16_def split: if_splits)

lemma u32_Some: "u32 f a = Some x \<Longrightarrow> 0 \<le> a \<and> a + 4 \<le> int (length f)"
  by (auto simp: u32_def split: if_splits)

lemma agree_section: "agree f f' a b \<Longrightarrow> section_bytes f' (a, b) = section_bytes f (a, b)"
  by (rule nth_equalityI) (auto simp: agree_def section_bytes_def)

lemma signed_copy_agrees:
  assumes "signed_copy f f'" "pe_layout f = Some (cs, Some cd)"
  shows "agree f f' 0 cs \<and> agree f f' (cs + 4) cd \<and> agree f f' (cd + 8) (int (length f))"
proof -
  note ord = layout_order [OF assms(2)]
  have "length f < length f'" using assms by (simp add: signed_copy_def)
  moreover have "f' ! i = f ! i" if "i < length f" "\<not> (cs \<le> int i \<and> int i < cs + 4)" "\<not> (cd \<le> int i \<and> int i < cd + 8)" for i
    using assms that by (auto simp: signed_copy_def list_all_iff)
  ultimately show ?thesis using ord unfolding agree_def by auto
qed

lemma agree_mono: "agree f f' a b \<Longrightarrow> a \<le> a' \<Longrightarrow> b' \<le> b \<Longrightarrow> agree f f' a' b'"
  by (auto simp: agree_def)

lemma signed_copy_layout:
  assumes sg: "signed_copy f f'" and lay: "pe_layout f = Some (cs, Some cd)"
  shows "pe_layout f' = Some (cs, Some cd)"
proof -
  obtain o1 n nd dirs num where h: "pe_optional f = Some (o1, n)" "pe_directories f o1 = Some (nd, dirs)" "u32 f nd = Some num"
    "cs = o1 + 64" "24 \<le> o1" "o1 + uint n \<le> int (length f)" "cs + 4 \<le> o1 + uint n" "4 < uint num" "cd = dirs + 32" "dirs + 40 \<le> o1 + uint n"
    using pe_layout_facts [OF lay] by auto
  have nd: "(nd = o1 + 92 \<and> dirs = o1 + 96) \<or> (nd = o1 + 108 \<and> dirs = o1 + 112)" using pe_directories_facts [OF h(2)] .
  obtain w where pe: "o1 = uint w + 24" "u16 f 0 = Some 0x5A4D" "u32 f 0x3C = Some w"
    "u32 f (uint w) = Some 0x00004550" "u16 f (uint w + 4 + 16) = Some n"
    using pe_optional_facts [OF h(1)] by blast
  have w: "0 \<le> uint w" by simp
  note A = signed_copy_agrees [OF sg lay]
  have low: "agree f f' a b" if "0 \<le> a" "b \<le> cs" for a b using A that by (blast intro: agree_mono)
  have r16: "u16 f' a = u16 f a" if "0 \<le> a" "a + 2 \<le> cs" for a using agree_u16 [OF low [OF that]] .
  have r32: "u32 f' a = u32 f a" if "0 \<le> a" "a + 4 \<le> cs" for a using agree_u32 [OF low [OF that]] .
  have "u16 f' 0 = u16 f 0" using h(4) pe(1) w by (intro r16) linarith+
  moreover have "u32 f' 0x3C = u32 f 0x3C" using h(4) pe(1) w by (intro r32) linarith+
  moreover have "u32 f' (uint w) = u32 f (uint w)" using h(4) pe(1) w by (intro r32) linarith+
  moreover have "u16 f' (uint w + 4 + 16) = u16 f (uint w + 4 + 16)" using h(4) pe(1) w by (intro r16) linarith+
  ultimately have o1': "pe_optional f' = Some (o1, n)" unfolding pe(1) using pe by (intro pe_optional_intro) simp_all
  have "u16 f' o1 = u16 f o1" using h(4,5) by (intro r16) linarith+
  then have dirs': "pe_directories f' o1 = Some (nd, dirs)" using h(2) by (simp add: pe_directories_def)
  have num': "u32 f' nd = Some num" using A nd h(3,4,9) agree_u32 [of f f' nd] agree_mono [of f f' "cs + 4" cd nd "nd + 4"] by auto
  have "int (length f) \<le> int (length f')" using sg lay by (simp add: signed_copy_def)
  then show ?thesis using h o1' dirs' num' by (simp add: pe_layout_def Let_def certDirIndex_def)
qed

lemma signing_keeps_bytes:
  assumes sg: "signed_copy f f'"
  shows "hashed f' = hashed f"
proof -
  obtain cs cd where lay: "pe_layout f = Some (cs, Some cd)"
    using sg by (auto simp: signed_copy_def split: option.splits)
  note lay' = signed_copy_layout [OF sg lay] and ord = layout_order [OF lay] and A = signed_copy_agrees [OF sg lay]
  have f: "field32 f (cd + 4) = 0" "length f < length f'" "field32 f' cd = int (length f)" "field32 f' (cd + 4) = int (length f') - int (length f)"
    using sg lay by (simp_all add: signed_copy_def)
  have "peHashRanges f = Some [(0, cs), (cs + 4, cd), (cd + 8, int (length f))]"
    using lay f by (simp add: peHashRanges_def Let_def)
  moreover have "peHashRanges f' = Some [(0, cs), (cs + 4, cd), (cd + 8, int (length f))]"
    using lay' f ord by (simp add: peHashRanges_def Let_def)
  ultimately show ?thesis using A by (simp add: hashed_def agree_section [of f f'])
qed


text \<open>A minimal image: the headers of an unsigned PE32 file with five directories.\<close>

definition NUL :: char where "NUL = CHR 0x00"

definition pe_head :: bytes where
  "pe_head = ''MZ'' @ replicate 58 NUL @ [CHR 0x40, NUL, NUL, NUL] @ ''PE'' @ [NUL, NUL] @ replicate 16 NUL @ [CHR 0x88, NUL, NUL, NUL] @
     [CHR 0x0B, CHR 0x01] @ replicate 62 NUL"

definition pe_middle :: bytes where
  "pe_middle = replicate 24 NUL @ [CHR 0x05, NUL, NUL, NUL] @ replicate 32 NUL"

definition demo_pe :: "bytes \<Rightarrow> bytes \<Rightarrow> bytes \<Rightarrow> bytes" where
  "demo_pe checksum entry rest = pe_head @ checksum @ pe_middle @ entry @ rest"

lemma pe_parts [simp]: "length pe_head = 152" "length pe_middle = 60"
  by (simp_all add: pe_head_def pe_middle_def)

definition unsigned_pe :: bytes where
  "unsigned_pe = demo_pe [NUL, NUL, NUL, NUL] (replicate 8 NUL) ''code''"

definition signed_pe :: "bytes \<Rightarrow> bytes \<Rightarrow> bytes" where
  "signed_pe checksum table = demo_pe checksum ([CHR 0xE4, NUL, NUL, NUL] @ [char_of (length table), NUL, NUL, NUL]) (''code'' @ table)"

lemma demo_layout:
  assumes "length checksum = 4" "length entry = 8"
  shows "pe_layout (demo_pe checksum entry rest) = Some (152, Some 216)"
proof -
  let ?f = "demo_pe checksum entry rest"
  have n: "length ?f = 224 + length rest" using assms by (simp add: demo_pe_def)
  note d = demo_pe_def nth_append assms NUL_def byte_def pe_head_def pe_middle_def
  have "u16 ?f 0 = Some 0x5A4D" unfolding u16_def n by (simp add: d)
  moreover have "u32 ?f 0x3C = Some 64" unfolding u32_def n by (simp add: d)
  moreover have "u32 ?f 64 = Some 0x00004550" unfolding u32_def n by (simp add: d)
  moreover have "u16 ?f 84 = Some 136" unfolding u16_def n by (simp add: d)
  ultimately have o1: "pe_optional ?f = Some (88, 136)" by (simp add: pe_optional_def Let_def)
  have "u16 ?f 88 = Some 0x10b" unfolding u16_def n by (simp add: d)
  then have dirs: "pe_directories ?f 88 = Some (180, 184)" by (simp add: pe_directories_def)
  have "u32 ?f 180 = Some 5" unfolding u32_def n by (simp add: d)
  with o1 dirs n show ?thesis by (simp add: pe_layout_def Let_def certDirIndex_def)
qed

lemma demo_signed_copy:
  assumes "length checksum = 4" "length table < 256" "table \<noteq> []"
  shows "signed_copy unsigned_pe (signed_pe checksum table)"
proof -
  let ?e = "[CHR 0xE4, NUL, NUL, NUL] @ [char_of (length table), NUL, NUL, NUL]"
  let ?f = "unsigned_pe" and ?f' = "signed_pe checksum table"
  have lay: "pe_layout ?f = Some (152, Some 216)" unfolding unsigned_pe_def by (rule demo_layout) simp_all
  have n: "length ?f = 228" "length ?f' = 228 + length table"
    using assms by (simp_all add: unsigned_pe_def signed_pe_def demo_pe_def)
  note d = unsigned_pe_def signed_pe_def demo_pe_def nth_append assms NUL_def byte_def
  have "field32 ?f 220 = 0" unfolding field32_def u32_def n by (simp add: d)
  moreover have "field32 ?f' 216 = 228" unfolding field32_def u32_def n by (simp add: d)
  moreover have "take_bit 32 (length table) = length table" using assms(2) by (intro take_bit_nat_eq_self) simp
  moreover from this have "field32 ?f' 220 = int (length table)"
    unfolding field32_def u32_def n using assms by (simp add: d unsigned_of_nat of_char_of)
  moreover have eq: "?f' ! i = ?f ! i" if "i < 228" "\<not> (152 \<le> i \<and> i < 156)" "\<not> (216 \<le> i \<and> i < 224)" for i
  proof -
    have "(''code'' @ table) ! (i - 224) = ''code'' ! (i - 224)" if "224 \<le> i" 
    proof -
      have "i - 224 < length ''code''" using \<open>i < 228\<close> that by simp
      then show ?thesis by (simp only: nth_append if_True)
    qed
    with that assms show ?thesis by (auto simp: unsigned_pe_def signed_pe_def demo_pe_def nth_append simp del: append_Cons append_Nil)
  qed
  moreover have "(152 \<le> int i \<and> int i < 152 + 4) \<or> (216 \<le> int i \<and> int i < 216 + 8) \<or> ?f' ! i = ?f ! i" if "i < 228" for i
    using eq [OF that] by (cases "152 \<le> i \<and> i < 156"; cases "216 \<le> i \<and> i < 224") auto
  ultimately show ?thesis using lay n assms(3) by (simp add: signed_copy_def list_all_iff)
qed

lemma demo_signed_image: "signed_copy unsigned_pe (signed_pe ''abcd'' ''cert'')" "signed_copy unsigned_pe (signed_pe ''wxyz'' ''othercert'')"
  by (rule demo_signed_copy; simp)+



end
