(* ===== verification/Provenance.thy ===== *)
theory Provenance
  imports Authenticode
begin

text \<open>
  Where an executable came from and who signed it, as the agent reports it: the mark of the web
  (\<^verbatim>\<open>agent/motw\<close>), the publisher read from the embedded signature (\<^verbatim>\<open>appcontrol/signature\<close>) and
  the inventory of running images (\<^verbatim>\<open>agent/scan\<close>).

  The theorems show that the parser reads back the stream Windows writes, which certificate of
  a chain is taken for the publisher, and that a scan reports every readable image once.

  Parameters: the PE, ASN.1 and X.509 parsers, the Windows trust check, SHA hashes, the
  enumeration of processes.
\<close>

section \<open>The mark of the web\<close>

definition ZoneInternet :: int where "ZoneInternet = 3"

record mark =
  mk_present :: bool
  mk_zone :: int
  mk_host_url :: string
  mk_referrer_url :: string

definition no_mark :: mark where
  "no_mark = \<lparr>mk_present = False, mk_zone = 0, mk_host_url = [], mk_referrer_url = []\<rparr>"

definition Downloaded :: "mark \<Rightarrow> bool" where
  "Downloaded i \<longleftrightarrow> mk_present i \<and> mk_zone i \<ge> ZoneInternet"

definition Source :: "mark \<Rightarrow> string" where
  "Source i = (if mk_host_url i \<noteq> [] then mk_host_url i else mk_referrer_url i)"

text \<open>
  \<^verbatim>\<open>bufio.Scanner\<close>: lines end at a line feed, a carriage return before it is dropped, and the
  scan ends at a line that does not fit the buffer.
\<close>

fun split_lines :: "string \<Rightarrow> string \<Rightarrow> string list" where
  "split_lines acc [] = (if acc = [] then [] else [rev acc])"
| "split_lines acc (c # cs) = (if c = LF then rev acc # split_lines [] cs else split_lines (c # acc) cs)"

definition dropCR :: "string \<Rightarrow> string" where
  "dropCR s = (if s \<noteq> [] \<and> last s = CR then butlast s else s)"

definition max_line :: nat where "max_line = 65535"

definition scan_lines :: "bytes \<Rightarrow> string list" where
  "scan_lines raw = map dropCR (takeWhile (\<lambda>l. length l \<le> max_line) (split_lines [] raw))"

text \<open>\<^verbatim>\<open>strings.Cut\<close> at an equals sign, and \<^verbatim>\<open>strconv.Atoi\<close>.\<close>

definition cut_equals :: "string \<Rightarrow> (string \<times> string) option" where
  "cut_equals s = (if CHR ''='' \<in> set s then Some (takeWhile (\<lambda>c. c \<noteq> CHR ''='') s, tl (dropWhile (\<lambda>c. c \<noteq> CHR ''='') s)) else None)"

definition digits_value :: "string \<Rightarrow> int" where
  "digits_value s = foldl (\<lambda>n c. 10 * n + (int (byte c) - 48)) 0 s"

definition Atoi :: "string \<Rightarrow> int option" where
  "Atoi s = (let neg = HasPrefix s ''-''; ds = (if neg \<or> HasPrefix s ''+'' then tl s else s);
       n = (if neg then - digits_value ds else digits_value ds)
     in if ds = [] \<or> \<not> list_all is_digit ds \<or> n < - (2 ^ 63) \<or> n > 2 ^ 63 - 1 then None else Some n)"

definition mark_line :: "string \<Rightarrow> mark \<Rightarrow> mark" where
  "mark_line raw_line info = (let line = TrimSpace raw_line in
     if line = [] \<or> HasPrefix line ''['' \<or> HasPrefix line '';'' then info
     else case cut_equals line of
       None \<Rightarrow> info
     | Some (key, v) \<Rightarrow>
         (let val = TrimSpace v; k = ToLower (TrimSpace key) in
          if k = ''zoneid'' then (case Atoi val of Some n \<Rightarrow> info\<lparr>mk_zone := n\<rparr> | None \<Rightarrow> info)
          else if k = ''hosturl'' then info\<lparr>mk_host_url := val\<rparr>
          else if k = ''referrerurl'' then info\<lparr>mk_referrer_url := val\<rparr>
          else info))"

definition Parse_mark :: "bytes \<Rightarrow> mark" where
  "Parse_mark raw = fold mark_line (scan_lines raw) (no_mark\<lparr>mk_present := True\<rparr>)"

definition maxStreamBytes :: nat where "maxStreamBytes = 8 * 1024"

text \<open>The stream of a file: missing, unreadable, or its contents.\<close>

datatype stream_read = NoStream | StreamError err | StreamData bytes

definition Read_mark :: "stream_read \<Rightarrow> mark res" where
  "Read_mark s = (case s of
       NoStream \<Rightarrow> Inr no_mark
     | StreamError e \<Rightarrow> Inl e
     | StreamData b \<Rightarrow> Inr (Parse_mark (take maxStreamBytes b)))"

section \<open>The publisher\<close>

datatype key_usage = CodeSigning | TimeStamping | OtherUsage string

datatype cert_alg = SHA256WithRSA | ECDSAWithSHA256 | SHA256WithRSAPSS | SHA384WithRSA | ECDSAWithSHA384 | SHA384WithRSAPSS
  | SHA512WithRSA | ECDSAWithSHA512 | SHA512WithRSAPSS | SHA1WithRSA | ECDSAWithSHA1 | OtherAlg string

datatype hash_alg = SHA1 | SHA256 | SHA384 | SHA512

record certificate =
  ce_raw_subject :: bytes
  ce_raw_issuer :: bytes
  ce_subject_cn :: string
  ce_issuer_cn :: string
  ce_usages :: "key_usage list"
  ce_alg :: cert_alg
  ce_tbs :: bytes

record publisher =
  pb_tbs :: string
  pb_subject :: string
  pb_issuer :: string
  pb_verified :: bool

definition unsigned :: publisher where
  "unsigned = \<lparr>pb_tbs = [], pb_subject = [], pb_issuer = [], pb_verified = False\<rparr>"

definition hashFor :: "cert_alg \<Rightarrow> hash_alg res" where
  "hashFor a = (if a \<in> {SHA256WithRSA, ECDSAWithSHA256, SHA256WithRSAPSS} then Inr SHA256
     else if a \<in> {SHA384WithRSA, ECDSAWithSHA384, SHA384WithRSAPSS} then Inr SHA384
     else if a \<in> {SHA512WithRSA, ECDSAWithSHA512, SHA512WithRSAPSS} then Inr SHA512
     else if a \<in> {SHA1WithRSA, ECDSAWithSHA1} then Inr SHA1
     else Inl (ErrText ''signature: unsupported certificate signature algorithm''))"

definition TBSHash :: "(hash_alg \<Rightarrow> bytes \<Rightarrow> bytes) \<Rightarrow> certificate \<Rightarrow> string res" where
  "TBSHash digest c = (case hashFor (ce_alg c) of Inl e \<Rightarrow> Inl e | Inr h \<Rightarrow> Inr (ToUpper (hex_encode (digest h (ce_tbs c)))))"

definition codeSigner :: "certificate \<Rightarrow> bool" where
  "codeSigner c \<longleftrightarrow> CodeSigning \<in> set (ce_usages c)"

definition timestamper :: "certificate \<Rightarrow> bool" where
  "timestamper c \<longleftrightarrow> TimeStamping \<in> set (ce_usages c)"

text \<open>Whether another entry of the list names this one as its issuer; entries are compared by position.\<close>

definition is_issuer :: "certificate list \<Rightarrow> nat \<Rightarrow> bool" where
  "is_issuer cs i \<longleftrightarrow> list_ex (\<lambda>j. j \<noteq> i \<and> ce_raw_issuer (cs ! j) = ce_raw_subject (cs ! i)) [0..<length cs]"

fun leaf_from :: "certificate list \<Rightarrow> certificate option \<Rightarrow> nat list \<Rightarrow> certificate option" where
  "leaf_from cs fallback [] = fallback"
| "leaf_from cs fallback (i # is) =
     (if is_issuer cs i then leaf_from cs fallback is
      else if codeSigner (cs ! i) then Some (cs ! i)
      else leaf_from cs (if fallback = None \<and> \<not> timestamper (cs ! i) then Some (cs ! i) else fallback) is)"

definition leaf :: "certificate list \<Rightarrow> certificate option" where
  "leaf cs = leaf_from cs None [0..<length cs]"

text \<open>
  The certificate table of an opened image: the parser's optional header gives the directory
  entry (zeros when there are too few directories), the read may be short at the end of file.
\<close>

record pe_file =
  pf_contents :: bytes
  pf_directory :: "(nat \<times> nat) res"
  pf_read_error :: bool

definition read_table :: "bytes \<Rightarrow> nat \<Rightarrow> nat \<Rightarrow> bytes" where
  "read_table f off n = (let got = take n (drop off f) in got @ replicate (n - length got) (CHR 0x00))"

definition le32 :: "bytes \<Rightarrow> nat" where
  "le32 b = byte (b ! 0) + 256 * byte (b ! 1) + 65536 * byte (b ! 2) + 16777216 * byte (b ! 3)"

text \<open>The slice of the blob behind its header; None is an index out of range, a panic.\<close>

definition blob_slice :: "bytes \<Rightarrow> nat \<Rightarrow> nat \<Rightarrow> bytes option" where
  "blob_slice b lo hi = (if lo \<le> hi \<and> hi \<le> length b then Some (take (hi - lo) (drop lo b)) else None)"

definition table_length :: "bytes \<Rightarrow> nat" where
  "table_length blob = (let n = le32 blob in if n < 8 \<or> length blob < n then length blob else n)"

definition embeddedCerts :: "(bytes \<Rightarrow> certificate list res) \<Rightarrow> pe_file res \<Rightarrow> certificate list res" where
  "embeddedCerts certsFromPKCS7 f = (case f of
       Inl e \<Rightarrow> Inl e
     | Inr pf \<Rightarrow> (case pf_directory pf of
         Inl e \<Rightarrow> Inl e
       | Inr (off, n) \<Rightarrow>
           if off = 0 \<or> n < 8 then Inr []
           else if pf_read_error pf then Inl (ErrText ''signature: read certificate table'')
           else (let blob = read_table (pf_contents pf) off n in
             case blob_slice blob 8 (table_length blob) of
               None \<Rightarrow> Inl (ErrText ''panic'')
             | Some p7 \<Rightarrow> if p7 = [] then Inr [] else certsFromPKCS7 p7)))"

definition FromFile ::
  "(bytes \<Rightarrow> certificate list res) \<Rightarrow> (hash_alg \<Rightarrow> bytes \<Rightarrow> bytes) \<Rightarrow> bool \<Rightarrow> pe_file res \<Rightarrow> publisher res" where
  "FromFile certsFromPKCS7 digest trusted f = (case embeddedCerts certsFromPKCS7 f of
       Inl e \<Rightarrow> Inl e
     | Inr cs \<Rightarrow>
         if cs = [] then Inr unsigned
         else (case leaf cs of
             None \<Rightarrow> Inl (ErrText ''signature: no leaf certificate in chain'')
           | Some c \<Rightarrow> (case TBSHash digest c of
               Inl e \<Rightarrow> Inl e
             | Inr tbs \<Rightarrow> Inr \<lparr>pb_tbs = tbs, pb_subject = ce_subject_cn c, pb_issuer = ce_issuer_cn c, pb_verified = trusted\<rparr>)))"

section \<open>The running images\<close>

record observed =
  os_sha256 :: string
  os_path :: string
  os_signer :: string
  os_signer_tbs :: string
  os_signer_verified :: bool
  os_downloaded :: bool
  os_source :: string

record host_view =
  hv_contents :: "string \<Rightarrow> bytes option"
  hv_sha256 :: "bytes \<Rightarrow> bytes"
  hv_signature :: "string \<Rightarrow> publisher res"
  hv_mark :: "string \<Rightarrow> stream_read"

definition observe_image :: "host_view \<Rightarrow> string \<Rightarrow> observed option" where
  "observe_image H path = map_option (\<lambda>hash.
     (let o0 = \<lparr>os_sha256 = hash, os_path = path, os_signer = [], os_signer_tbs = [], os_signer_verified = False,
            os_downloaded = False, os_source = []\<rparr>;
          o1 = (case hv_signature H path of
             Inr i \<Rightarrow> o0\<lparr>os_signer := pb_subject i, os_signer_tbs := pb_tbs i, os_signer_verified := pb_verified i\<rparr>
           | Inl _ \<Rightarrow> o0)
      in (case Read_mark (hv_mark H path) of Inr m \<Rightarrow> o1\<lparr>os_downloaded := Downloaded m, os_source := Source m\<rparr> | Inl _ \<Rightarrow> o1)))
     (AuthenticodeHash (hv_sha256 H) (hv_contents H path))"

text \<open>The paths of the processes in the order of the enumeration; an empty one is a process that cannot be opened.\<close>

fun running_from :: "host_view \<Rightarrow> string set \<Rightarrow> string list \<Rightarrow> observed list" where
  "running_from H seen [] = []"
| "running_from H seen (path # paths) =
     (if path = [] \<or> path \<in> seen then running_from H seen paths
      else (case observe_image H path of Some ob \<Rightarrow> [ob] | None \<Rightarrow> []) @ running_from H (insert path seen) paths)"

definition runningImpl :: "host_view \<Rightarrow> string list res \<Rightarrow> observed list res" where
  "runningImpl H procs = (case procs of Inl e \<Rightarrow> Inl e | Inr paths \<Rightarrow> Inr (running_from H {} paths))"

section \<open>The mark survives writing and reading\<close>

text \<open>The stream as Windows and the browsers write it.\<close>

definition CRLF :: string where "CRLF = [CR, LF]"

definition mark_text :: "nat \<Rightarrow> string \<Rightarrow> string \<Rightarrow> string" where
  "mark_text z ref host = ''[ZoneTransfer]'' @ CRLF @ ''ZoneId='' @ show_nat z @ CRLF @ ''ReferrerUrl='' @ ref @ CRLF @ ''HostUrl='' @ host @ CRLF"

definition clean_url :: "string \<Rightarrow> bool" where
  "clean_url u \<longleftrightarrow> list_all (\<lambda>c. \<not> is_space c) u \<and> length u \<le> 2048"

lemma split_line: "LF \<notin> set x \<Longrightarrow> split_lines acc (x @ LF # rest) = (rev acc @ x) # split_lines [] rest"
  by (induction x arbitrary: acc) auto

lemma split_CRLF: "LF \<notin> set x \<Longrightarrow> split_lines [] (x @ CRLF @ rest) = (x @ [CR]) # split_lines [] rest"
  using split_line [of "x @ [CR]" "[]" rest] by (simp add: CRLF_def char_defs)

lemma takeWhile_map_all: "\<forall>l \<in> set ls. P (f l) \<Longrightarrow> takeWhile P (map f ls) = map f ls"
  by (induction ls) simp_all

lemma dropCR_line [simp]: "dropCR (x @ [CR]) = x"
  by (simp add: dropCR_def)

lemma TrimSpace_none:
  assumes "s \<noteq> []" "\<not> is_space (hd s)" "\<not> is_space (last s)"
  shows "TrimSpace s = s"
proof -
  have "dropWhile is_space s = s" using assms by (cases s) simp_all
  moreover have "dropWhile is_space (rev s) = rev s" using assms by (cases s rule: rev_cases) simp_all
  ultimately show ?thesis by (simp add: TrimSpace_def)
qed

lemma TrimSpace_clean: "clean_url u \<Longrightarrow> TrimSpace u = u"
  by (cases "u = []") (simp add: TrimSpace_def, rule TrimSpace_none, auto simp: clean_url_def list_all_iff)

lemma cut_field:
  assumes "CHR ''='' \<notin> set key"
  shows "cut_equals (key @ CHR ''='' # v) = Some (key, v)"
proof -
  have "takeWhile (\<lambda>c. c \<noteq> CHR ''='') (key @ CHR ''='' # v) = key"
    "dropWhile (\<lambda>c. c \<noteq> CHR ''='') (key @ CHR ''='' # v) = CHR ''='' # v"
    using assms by (induction key) auto
  then show ?thesis by (simp add: cut_equals_def)
qed

lemma clean_line:
  assumes "clean_url v" "key \<noteq> []" "list_all (\<lambda>c. \<not> is_space c) key"
  shows "TrimSpace (key @ CHR ''='' # v) = key @ CHR ''='' # v"
proof (rule TrimSpace_none)
  show "\<not> is_space (last (key @ CHR ''='' # v))"
    using assms by (cases v rule: rev_cases) (auto simp: clean_url_def is_space_def char_defs)
qed (use assms in \<open>auto simp: list_all_iff\<close>)

lemma mark_field:
  assumes "clean_url v" "key \<noteq> []" "list_all (\<lambda>c. \<not> is_space c) key" "CHR ''='' \<notin> set key" "hd key \<notin> {CHR ''['', CHR '';''}"
  shows "mark_line (key @ CHR ''='' # v) info =
    (if ToLower key = ''zoneid'' then (case Atoi v of Some n \<Rightarrow> info\<lparr>mk_zone := n\<rparr> | None \<Rightarrow> info)
     else if ToLower key = ''hosturl'' then info\<lparr>mk_host_url := v\<rparr>
     else if ToLower key = ''referrerurl'' then info\<lparr>mk_referrer_url := v\<rparr> else info)"
proof -
  have "TrimSpace key = key" using assms(2,3) by (intro TrimSpace_none) (auto simp: list_all_iff)
  moreover have "\<not> HasPrefix (key @ CHR ''='' # v) ''[''" "\<not> HasPrefix (key @ CHR ''='' # v) '';''"
    using assms(2,5) by (cases key; auto simp: HasPrefix_def)+
  ultimately show ?thesis
    using clean_line [OF assms(1-3)] cut_field [OF assms(4)] TrimSpace_clean [OF assms(1)] by (simp add: mark_line_def Let_def)
qed

lemma clean_no_LF: "clean_url v \<Longrightarrow> LF \<notin> set v"
  by (auto simp: clean_url_def list_all_iff is_space_def)

lemma byte_digit: "d < 10 \<Longrightarrow> int (byte (digit d)) = 48 + int d"
  by (auto simp: less_Suc_eq numeral_eq_Suc digit_def byte_def)

lemma digits_value_show: "digits_value (show_nat n) = int n"
proof (induction n rule: show_nat.induct)
  case (1 n)
  show ?case
  proof (cases "n < 10")
    case True
    then show ?thesis by (simp add: show_nat.simps [of n] digits_value_def byte_digit)
  next
    case False
    then have "digits_value (show_nat n) = 10 * int (n div 10) + int (n mod 10)"
      using 1 by (simp add: show_nat.simps [of n] digits_value_def byte_digit)
    then show ?thesis by (simp flip: of_nat_add of_nat_mult add: zdiv_int zmod_int)
  qed
qed

lemma show_nat_length: "n < 10 ^ Suc k \<Longrightarrow> length (show_nat n) \<le> Suc k"
proof (induction k arbitrary: n)
  case 0
  then show ?case by (simp add: show_nat.simps [of n])
next
  case (Suc k)
  then have "n div 10 < 10 ^ Suc k" by (simp add: div_less_iff_less_mult)
  from Suc.IH [OF this] show ?case by (simp add: show_nat.simps [of n])
qed

lemma digit_plain: "is_digit c \<Longrightarrow> \<not> is_space c \<and> c \<noteq> CHR ''-'' \<and> c \<noteq> CHR ''+''"
  by (auto simp: is_digit_def is_space_def char_defs)

lemma zone_digits:
  assumes "z < 2 ^ 63"
  shows "clean_url (show_nat z) \<and> Atoi (show_nat z) = Some (int z) \<and> length (show_nat z) \<le> 19"
proof -
  have "(2 :: nat) ^ 63 < 10 ^ Suc 18" by simp
  then have len: "length (show_nat z) \<le> 19" using show_nat_length [of z 18] assms by linarith
  have ne: "show_nat z \<noteq> []" by (subst show_nat.simps) simp
  then obtain c cs where cs: "show_nat z = c # cs" by (cases "show_nat z") auto
  have dig: "list_all is_digit (show_nat z)" using show_nat_digits by (auto simp: list_all_iff)
  have sign: "\<not> HasPrefix (show_nat z) ''-''" "\<not> HasPrefix (show_nat z) ''+''"
    using digit_plain [of c] dig by (auto simp: HasPrefix_def cs)
  have "int z < 2 ^ 63" using assms by (metis of_nat_less_iff of_nat_numeral of_nat_power)
  then have "Atoi (show_nat z) = Some (int z)" using dig ne by (simp add: Atoi_def sign digits_value_show)
  moreover have "clean_url (show_nat z)" using dig len digit_plain by (auto simp: clean_url_def list_all_iff)
  ultimately show ?thesis using len by simp
qed

text \<open>
  C31: The parser reads back the zone and both addresses of the stream that marks a downloaded file,
  and the file counts as downloaded exactly for the internet and restricted zones.
\<close>

theorem mark_round_trip:
  assumes "z < 2 ^ 63" "clean_url ref" "clean_url host"
  shows "Parse_mark (mark_text z ref host) = \<lparr>mk_present = True, mk_zone = int z, mk_host_url = host, mk_referrer_url = ref\<rparr> \<and>
    Downloaded (Parse_mark (mark_text z ref host)) = (3 \<le> z)"
proof -
  note Z = zone_digits [OF assms(1)]
  let ?z = "''ZoneId'' @ CHR ''='' # show_nat z" and ?r = "''ReferrerUrl'' @ CHR ''='' # ref" and ?h = "''HostUrl'' @ CHR ''='' # host"
  have noLF: "LF \<notin> set ''[ZoneTransfer]''" "LF \<notin> set ?z" "LF \<notin> set ?r" "LF \<notin> set ?h"
    using Z clean_no_LF assms(2,3) by (auto simp: char_defs)
  have "mark_text z ref host = ''[ZoneTransfer]'' @ CRLF @ ?z @ CRLF @ ?r @ CRLF @ ?h @ CRLF @ []" by (simp add: mark_text_def)
  then have "split_lines [] (mark_text z ref host) = map (\<lambda>l. l @ [CR]) [''[ZoneTransfer]'', ?z, ?r, ?h]"
    by (simp only: split_CRLF [OF noLF(1)] split_CRLF [OF noLF(2)] split_CRLF [OF noLF(3)] split_CRLF [OF noLF(4)]) simp
  moreover have short: "\<forall>l \<in> set [''[ZoneTransfer]'', ?z, ?r, ?h]. length (l @ [CR]) \<le> max_line"
    using Z assms by (simp add: clean_url_def max_line_def)
  ultimately have "scan_lines (mark_text z ref host) = map dropCR (map (\<lambda>l. l @ [CR]) [''[ZoneTransfer]'', ?z, ?r, ?h])"
    unfolding scan_lines_def
    by (simp only: takeWhile_map_all [where f = "\<lambda>l. l @ [CR]" and P = "\<lambda>l. length l \<le> max_line", OF short])
  then have lines: "scan_lines (mark_text z ref host) = [''[ZoneTransfer]'', ?z, ?r, ?h]"
    by (simp only: list.map dropCR_line)
  have head: "mark_line ''[ZoneTransfer]'' info = info" for info
    by (simp add: mark_line_def TrimSpace_def is_space_def char_defs HasPrefix_def)
  have key: "mark_line ?z info = info\<lparr>mk_zone := int z\<rparr>" "mark_line ?r info = info\<lparr>mk_referrer_url := ref\<rparr>"
    "mark_line ?h info = info\<lparr>mk_host_url := host\<rparr>" for info
  proof -
    have low: "ToLower ''ZoneId'' = ''zoneid''" "ToLower ''ReferrerUrl'' = ''referrerurl''" "ToLower ''HostUrl'' = ''hosturl''" by code_simp+
    have sp: "list_all (\<lambda>c. \<not> is_space c) ''ZoneId''" "list_all (\<lambda>c. \<not> is_space c) ''ReferrerUrl''" "list_all (\<lambda>c. \<not> is_space c) ''HostUrl''"
      by code_simp+
    show "mark_line ?z info = info\<lparr>mk_zone := int z\<rparr>" using Z by (subst mark_field [OF _ _ sp(1)]) (simp_all add: low)
    show "mark_line ?r info = info\<lparr>mk_referrer_url := ref\<rparr>" using assms by (subst mark_field [OF _ _ sp(2)]) (simp_all add: low)
    show "mark_line ?h info = info\<lparr>mk_host_url := host\<rparr>" using assms by (subst mark_field [OF _ _ sp(3)]) (simp_all add: low)
  qed
  have "Parse_mark (mark_text z ref host) = \<lparr>mk_present = True, mk_zone = int z, mk_host_url = host, mk_referrer_url = ref\<rparr>"
    unfolding Parse_mark_def lines by (simp only: fold.simps comp_def id_def head key) (simp add: no_mark_def)
  then show ?thesis by (simp add: Downloaded_def ZoneInternet_def)
qed

theorem mark_round_trip_witness:
  "Parse_mark (mark_text 3 ''https://a.example/'' ''https://a.example/x.exe'') =
     \<lparr>mk_present = True, mk_zone = int 3, mk_host_url = ''https://a.example/x.exe'', mk_referrer_url = ''https://a.example/''\<rparr> \<and>
   Downloaded (Parse_mark (mark_text 3 ''https://a.example/'' ''https://a.example/x.exe'')) = (3 \<le> (3 :: nat))"
  by (rule mark_round_trip) (simp_all add: clean_url_def is_space_def char_defs)

section \<open>Which certificate is the publisher\<close>

lemma is_issuer_iff: "is_issuer cs i \<longleftrightarrow> (\<exists>j < length cs. j \<noteq> i \<and> ce_raw_issuer (cs ! j) = ce_raw_subject (cs ! i))"
  by (auto simp: is_issuer_def list_ex_iff)

text \<open>An entry that can be the leaf, and the entries preferred among them.\<close>

definition end_entity :: "certificate list \<Rightarrow> nat \<Rightarrow> bool" where
  "end_entity cs i \<longleftrightarrow> i < length cs \<and> \<not> (\<exists>j < length cs. j \<noteq> i \<and> ce_raw_issuer (cs ! j) = ce_raw_subject (cs ! i))"

lemma leaf_from_scan:
  "leaf_from cs fb is = (case find (\<lambda>i. \<not> is_issuer cs i \<and> codeSigner (cs ! i)) is of
      Some i \<Rightarrow> Some (cs ! i)
    | None \<Rightarrow> (case fb of Some c \<Rightarrow> Some c
       | None \<Rightarrow> map_option (\<lambda>i. cs ! i) (find (\<lambda>i. \<not> is_issuer cs i \<and> \<not> timestamper (cs ! i)) is)))"
  by (induction cs fb "is" rule: leaf_from.induct) (auto split: option.splits)

lemma find_upt_Some: "find P [0..<n] = Some i \<longleftrightarrow> i < n \<and> P i \<and> (\<forall>j < i. \<not> P j)"
  by (auto simp: find_Some_iff)

lemma find_upt_None: "find P [0..<n] = None \<longleftrightarrow> (\<forall>j < n. \<not> P j)"
  by (auto simp: find_None_iff)

lemma end_entity_not_issuer: "i < length cs \<Longrightarrow> end_entity cs i = (\<not> is_issuer cs i)"
  by (simp add: end_entity_def is_issuer_iff)

text \<open>
  The publisher is the first code-signing certificate that issues no other of the set; without one, the first
  end-entity certificate that is not a timestamper; and nothing only when neither exists. So the timestamping chain that a
  signed file embeds never displaces the signer, in whatever order the certificates are stored.
\<close>

theorem leaf_is_signer:
  "leaf cs = (if \<exists>i. end_entity cs i \<and> codeSigner (cs ! i)
       then Some (cs ! (LEAST i. end_entity cs i \<and> codeSigner (cs ! i)))
     else if \<exists>i. end_entity cs i \<and> \<not> timestamper (cs ! i)
       then Some (cs ! (LEAST i. end_entity cs i \<and> \<not> timestamper (cs ! i)))
     else None)"
proof -
  have first: "find (\<lambda>i. \<not> is_issuer cs i \<and> Q (cs ! i)) [0..<length cs] =
      (if \<exists>i. end_entity cs i \<and> Q (cs ! i) then Some (LEAST i. end_entity cs i \<and> Q (cs ! i)) else None)" for Q
  proof (cases "\<exists>i. end_entity cs i \<and> Q (cs ! i)")
    case True
    let ?l = "LEAST i. end_entity cs i \<and> Q (cs ! i)"
    have l: "end_entity cs ?l \<and> Q (cs ! ?l)" using LeastI_ex [OF True] .
    have len: "?l < length cs" using l by (simp add: end_entity_def)
    have "\<not> (\<not> is_issuer cs j \<and> Q (cs ! j))" if "j < ?l" for j
      using not_less_Least [OF that] end_entity_not_issuer [of j cs] that len by auto
    then show ?thesis using True l len end_entity_not_issuer [OF len] by (simp add: find_upt_Some)
  next
    case False
    then have "find (\<lambda>i. \<not> is_issuer cs i \<and> Q (cs ! i)) [0..<length cs] = None"
      unfolding find_upt_None using end_entity_not_issuer by blast
    with False show ?thesis by simp
  qed
  show ?thesis
    unfolding leaf_def leaf_from_scan first [of codeSigner] first [of "\<lambda>c. \<not> timestamper c"] by auto
qed

section \<open>Reading the table\<close>

lemma read_table_length [simp]: "length (read_table f off n) = n"
  by (simp add: read_table_def Let_def)

lemma table_slice:
  assumes "8 \<le> length blob"
  shows "blob_slice blob 8 (table_length blob) = Some (take (table_length blob - 8) (drop 8 blob))"
  using assms by (auto simp: blob_slice_def table_length_def Let_def)

section \<open>A scan reports every readable image once\<close>

lemma observe_path: "observe_image H p = Some ob \<Longrightarrow> os_path ob = p"
  by (cases "hv_signature H p"; cases "Read_mark (hv_mark H p)") (auto simp: observe_image_def Let_def)

lemma running_from_set:
  "set (running_from H seen ps) = {ob. \<exists>p \<in> set ps - insert [] seen. observe_image H p = Some ob}"
  by (induction H seen ps rule: running_from.induct) (auto split: option.splits)

lemma running_from_distinct: "distinct (map os_path (running_from H seen ps))"
proof (induction H seen ps rule: running_from.induct)
  case (2 H seen path paths)
  have "path \<notin> os_path ` set (running_from H (insert path seen) paths)"
    by (auto simp: running_from_set dest: observe_path)
  with 2 show ?case by (auto dest: observe_path split: option.splits)
qed simp

text \<open>
  A scan that enumerates the processes reports every image that can be opened and hashed, with what is known of it, and no path
  twice however many processes run it.
\<close>

theorem scan_exact:
  "\<exists>obs. runningImpl H (Inr ps) = Inr obs \<and> distinct (map os_path obs) \<and>
     set obs = {ob. \<exists>p \<in> set ps. p \<noteq> [] \<and> observe_image H p = Some ob}"
  using running_from_set [of H "{}" ps] by (auto simp: runningImpl_def running_from_distinct)

end
