(* ===== verification/Identity.thy ===== *)
theory Identity
  imports Updates Enrollment
begin

text \<open>
  The identity of a device from both ends: the server's certificate authority
  (\<^verbatim>\<open>server/ca/ca.go\<close>), the agent's key, certificate and enrollment file
  (\<^verbatim>\<open>agent/identity\<close>, \<^verbatim>\<open>agent/agentpaths\<close>), the runner's enrollment and renewal steps
  (\<^verbatim>\<open>agent/runner\<close>), the actions built on them (\<^verbatim>\<open>agent/actions\<close>, \<^verbatim>\<open>cmd/agent\<close>) and the agent's
  configuration file (\<^verbatim>\<open>agent/config\<close>).

  The theorems show what a successful enrollment leaves on the disk, that the install token only goes to a
  server of the pinned authority, when certificates are renewed, and what a renewal that is
  interrupted does to the device.

  Parameters: X.509, PEM, JSON and YAML coding, key generation, the key protector and the
  transport.
\<close>

section \<open>The certificate authority\<close>

definition DeviceCertValidity :: time where "DeviceCertValidity = 90 * 24 * hour"
definition RenewAfter :: time where "RenewAfter = 60 * 24 * hour"
definition caValidity :: time where "caValidity = 10 * 365 * 24 * hour"
definition serverCertValidity :: time where "serverCertValidity = 365 * 24 * hour"
definition backdate :: time where "backdate = 5 * minute"

datatype cert_usage = ClientAuth | ServerAuth

record cert_template =
  ct_serial :: nat
  ct_common_name :: label
  ct_not_before :: time
  ct_not_after :: time
  ct_is_ca :: bool
  ct_usages :: "cert_usage list"
  ct_ips :: "string list"
  ct_dns :: "string list"

text \<open>A parsed request: its self-signature, whether its key is on P-256, the key.\<close>

record csr =
  cs_signed :: bool
  cs_p256 :: bool
  cs_public :: bytes

record x509 =
  x5_parse_csr :: "bytes \<Rightarrow> csr res"
  x5_create :: "cert_template \<Rightarrow> bytes \<Rightarrow> bytes \<Rightarrow> bytes res"
  x5_parse :: "bytes \<Rightarrow> time res"
  x5_parse_key :: "bytes \<Rightarrow> bytes res"
  x5_verify :: "bytes \<Rightarrow> bytes \<Rightarrow> bool"
  x5_is_ip :: "string \<Rightarrow> bool"

record authority =
  cau_cert :: bytes
  cau_key :: bytes

text \<open>\<^verbatim>\<open>big.Int.Text(16)\<close>.\<close>

fun hex_text :: "nat \<Rightarrow> string" where
  "hex_text n = (if n < 16 then [''0123456789abcdef'' ! n] else hex_text (n div 16) @ [''0123456789abcdef'' ! (n mod 16)])"

declare hex_text.simps [simp del]

definition PinFromCert :: "(bytes \<Rightarrow> bytes) \<Rightarrow> bytes \<Rightarrow> string" where
  "PinFromCert sha256 der = hex_encode (take 16 (sha256 der))"

definition Pin :: "(bytes \<Rightarrow> bytes) \<Rightarrow> authority \<Rightarrow> string" where
  "Pin sha256 c = PinFromCert sha256 (cau_cert c)"

text \<open>The random serial number and the generated key are arguments.\<close>

definition ca_template :: "nat \<Rightarrow> string \<Rightarrow> time \<Rightarrow> cert_template" where
  "ca_template serial commonName now = \<lparr>ct_serial = serial, ct_common_name = Txt commonName, ct_not_before = now - backdate,
     ct_not_after = now + caValidity, ct_is_ca = True, ct_usages = [], ct_ips = [], ct_dns = []\<rparr>"

definition New_CA :: "x509 \<Rightarrow> (bytes \<times> bytes) res \<Rightarrow> nat \<Rightarrow> string \<Rightarrow> time \<Rightarrow> authority res" where
  "New_CA X gen serial commonName now = (case gen of
       Inl e \<Rightarrow> Inl e
     | Inr (key, pub) \<Rightarrow> (case x5_create X (ca_template serial commonName now) pub key of
         Inl e \<Rightarrow> Inl e
       | Inr der \<Rightarrow> (case x5_parse X der of Inl e \<Rightarrow> Inl e | Inr _ \<Rightarrow> Inr \<lparr>cau_cert = der, cau_key = key\<rparr>)))"

definition Load_CA :: "x509 \<Rightarrow> bytes \<Rightarrow> bytes \<Rightarrow> authority res" where
  "Load_CA X certDER keyDER = (case x5_parse X certDER of
       Inl e \<Rightarrow> Inl (ErrText (''parse CA cert: '' @ err_text e))
     | Inr _ \<Rightarrow> (case x5_parse_key X keyDER of
         Inl e \<Rightarrow> Inl (ErrText (''parse CA key: '' @ err_text e))
       | Inr k \<Rightarrow> Inr \<lparr>cau_cert = certDER, cau_key = k\<rparr>))"

definition device_template :: "nat \<Rightarrow> uuid \<Rightarrow> time \<Rightarrow> cert_template" where
  "device_template serial deviceID now = \<lparr>ct_serial = serial, ct_common_name = IdTxt '''' deviceID, ct_not_before = now - backdate,
     ct_not_after = (let t = now + DeviceCertValidity in t - t mod second), ct_is_ca = False, ct_usages = [ClientAuth],
     ct_ips = [], ct_dns = []\<rparr>"

definition SignDevice :: "x509 \<Rightarrow> authority \<Rightarrow> nat \<Rightarrow> bytes \<Rightarrow> uuid \<Rightarrow> time \<Rightarrow> (bytes \<times> string \<times> time) res" where
  "SignDevice X c serial csrDER deviceID now = (case x5_parse_csr X csrDER of
       Inl e \<Rightarrow> Inl (ErrText (''parse CSR: '' @ err_text e))
     | Inr req \<Rightarrow>
         if \<not> cs_signed req then Inl (ErrText ''CSR signature'')
         else if \<not> cs_p256 req then Inl (ErrText ''CSR key must be ECDSA P-256'')
         else (let tmpl = device_template serial deviceID now in
           case x5_create X tmpl (cs_public req) (cau_key c) of
             Inl e \<Rightarrow> Inl e
           | Inr der \<Rightarrow> Inr (der, hex_text serial, ct_not_after tmpl)))"

definition server_template :: "x509 \<Rightarrow> nat \<Rightarrow> string list \<Rightarrow> time \<Rightarrow> cert_template" where
  "server_template X serial hostnames now = \<lparr>ct_serial = serial, ct_common_name = Txt ''freelocker-server'', ct_not_before = now - backdate,
     ct_not_after = now + serverCertValidity, ct_is_ca = False, ct_usages = [ServerAuth],
     ct_ips = filter (x5_is_ip X) hostnames, ct_dns = filter (\<lambda>h. \<not> x5_is_ip X h) hostnames\<rparr>"

text \<open>The chain a server presents, leaf first, and its key.\<close>

definition IssueServerCert :: "x509 \<Rightarrow> authority \<Rightarrow> (bytes \<times> bytes) res \<Rightarrow> nat \<Rightarrow> string list \<Rightarrow> time \<Rightarrow> (bytes list \<times> bytes) res" where
  "IssueServerCert X c gen serial hostnames now = (case gen of
       Inl e \<Rightarrow> Inl e
     | Inr (key, pub) \<Rightarrow> (case x5_create X (server_template X serial hostnames now) pub (cau_key c) of
         Inl e \<Rightarrow> Inl e
       | Inr der \<Rightarrow> Inr ([der, cau_cert c], key)))"

section \<open>The agent's files\<close>

definition data_path :: "string \<Rightarrow> string \<Rightarrow> string" where
  "data_path dir name = dir @ [BSL] @ name"

definition Config_path :: "string \<Rightarrow> string" where "Config_path dir = data_path dir ''config.yaml''"
definition Key_path :: "string \<Rightarrow> string" where "Key_path dir = data_path dir ''device.key''"
definition Cert_path :: "string \<Rightarrow> string" where "Cert_path dir = data_path dir ''device.crt''"
definition CA_path :: "string \<Rightarrow> string" where "CA_path dir = data_path dir ''ca.crt''"
definition Enrollment_path :: "string \<Rightarrow> string" where "Enrollment_path dir = data_path dir ''enrollment.json''"

lemma data_paths [simp]:
  "Key_path dir \<noteq> Cert_path dir" "Key_path dir \<noteq> CA_path dir" "Key_path dir \<noteq> Enrollment_path dir"
  "Cert_path dir \<noteq> Key_path dir" "CA_path dir \<noteq> Key_path dir" "Enrollment_path dir \<noteq> Key_path dir"
  "Cert_path dir \<noteq> CA_path dir" "Cert_path dir \<noteq> Enrollment_path dir" "CA_path dir \<noteq> Enrollment_path dir"
  "CA_path dir \<noteq> Cert_path dir" "Enrollment_path dir \<noteq> Cert_path dir" "Enrollment_path dir \<noteq> CA_path dir"
  by (simp_all add: Key_path_def Cert_path_def CA_path_def Enrollment_path_def data_path_def)

record agent_enrollment =
  en_device :: uuid
  en_command_pub :: bytes
  en_update_pub :: bytes
  en_uninstall_hash :: bytes

record codecs =
  co_pem :: "string \<Rightarrow> bytes \<Rightarrow> bytes"
  co_unpem :: "bytes \<Rightarrow> (string \<times> bytes) option"
  co_json :: "agent_enrollment \<Rightarrow> bytes"
  co_unjson :: "bytes \<Rightarrow> agent_enrollment res"
  co_protect :: "bytes \<Rightarrow> bytes res"
  co_unprotect :: "bytes \<Rightarrow> bytes res"
  co_sha256 :: "bytes \<Rightarrow> bytes"
  co_x509 :: x509

text \<open>What a store is opened with, and a key the generator returns: its PKCS8 form and its request for a name.\<close>

record identity_store =
  is_dir :: string
  is_codecs :: codecs

record fresh_key =
  fk_der :: "bytes res"
  fk_csr :: "label \<Rightarrow> bytes res"

definition writePEM :: "codecs \<Rightarrow> string \<Rightarrow> string \<Rightarrow> bytes \<Rightarrow> disk \<Rightarrow> unit res \<times> disk" where
  "writePEM K path ty der k = (let (ok, k1) = WriteFile path (co_pem K ty der) k in (if ok then Inr () else Inl (ErrText ''write''), k1))"

definition readPEM :: "codecs \<Rightarrow> string \<Rightarrow> string \<Rightarrow> disk \<Rightarrow> bytes res \<times> disk" where
  "readPEM K path ty k = (case ReadFile path k of
       (None, k1) \<Rightarrow> (Inl (ErrText ''read''), k1)
     | (Some b, k1) \<Rightarrow> (case co_unpem K b of
         Some (t, der) \<Rightarrow> (if t = ty then Inr der else Inl (ErrText (path @ '': expected PEM '' @ ty)), k1)
       | None \<Rightarrow> (Inl (ErrText (path @ '': expected PEM '' @ ty)), k1)))"

definition sealed_key :: string where "sealed_key = ''FREELOCKER SEALED KEY''"

definition writeIdentity :: "identity_store \<Rightarrow> fresh_key \<Rightarrow> bytes \<Rightarrow> bytes \<Rightarrow> disk \<Rightarrow> unit res \<times> disk" where
  "writeIdentity S key certDER caDER k = (case fk_der key of
       Inl e \<Rightarrow> (Inl e, k)
     | Inr keyDER \<Rightarrow> (case co_protect (is_codecs S) keyDER of
         Inl e \<Rightarrow> (Inl e, k)
       | Inr sealed \<Rightarrow>
           andThen (writePEM (is_codecs S) (Key_path (is_dir S)) sealed_key sealed k) (\<lambda>_ k1.
           andThen (writePEM (is_codecs S) (Cert_path (is_dir S)) ''CERTIFICATE'' certDER k1) (\<lambda>_ k2.
           writePEM (is_codecs S) (CA_path (is_dir S)) ''CERTIFICATE'' caDER k2))))"

definition writeEnrollment :: "identity_store \<Rightarrow> agent_enrollment \<Rightarrow> disk \<Rightarrow> unit res \<times> disk" where
  "writeEnrollment S e k = (let (ok, k1) = WriteFile (Enrollment_path (is_dir S)) (co_json (is_codecs S) e) k
     in (if ok then Inr () else Inl (ErrText ''write''), k1))"

text \<open>\<^verbatim>\<open>os.Stat\<close>.\<close>

definition Enrolled :: "identity_store \<Rightarrow> disk \<Rightarrow> bool \<times> disk" where
  "Enrolled S k = (let (r, k1) = next_io k in (r = IoOk \<and> dk_files k1 (Enrollment_path (is_dir S)) \<noteq> None, k1))"

section \<open>Enrolling\<close>

text \<open>The server as the agent reaches it: the chain it presents and its answers.\<close>

record server_end =
  se_chain :: "bytes list"
  se_enroll :: "enroll_req \<Rightarrow> enroll_resp res"

definition pinnedTLS :: "codecs \<Rightarrow> string \<Rightarrow> bytes list \<Rightarrow> unit res" where
  "pinnedTLS K pin raw =
     (if length raw < 2 then Inl (ErrText ''server did not present a CA chain'')
      else if PinFromCert (co_sha256 K) (last raw) \<noteq> pin then Inl (ErrText ''server CA does not match install token pin'')
      else (case x5_parse (co_x509 K) (last raw) of
          Inl e \<Rightarrow> Inl e
        | Inr _ \<Rightarrow> (case x5_parse (co_x509 K) (hd raw) of
            Inl e \<Rightarrow> Inl e
          | Inr _ \<Rightarrow> if x5_verify (co_x509 K) (hd raw) (last raw) then Inr () else Inl (ErrText ''x509''))))"

definition enroll_call :: "codecs \<Rightarrow> string \<Rightarrow> server_end \<Rightarrow> enroll_req \<Rightarrow> enroll_resp res" where
  "enroll_call K pin srv req = (case pinnedTLS K pin (se_chain srv) of Inl e \<Rightarrow> Inl e | Inr _ \<Rightarrow> se_enroll srv req)"

definition enrollment_of :: "enroll_resp \<Rightarrow> agent_enrollment" where
  "enrollment_of r = \<lparr>en_device = er_device r, en_command_pub = er_command_pub r, en_update_pub = er_update_pub r,
     en_uninstall_hash = er_uninstall r\<rparr>"

definition enroll_request :: "string \<Rightarrow> bytes \<Rightarrow> string \<times> string \<times> string \<Rightarrow> enroll_req" where
  "enroll_request secretPart req hw = \<lparr>eq_token_secret = secretPart, eq_csr = req, eq_hostname = fst hw,
     eq_machine_guid = fst (snd hw), eq_os_build = snd (snd hw)\<rparr>"

definition identity_Enroll ::
  "identity_store \<Rightarrow> server_end \<Rightarrow> string \<Rightarrow> string \<times> string \<times> string \<Rightarrow> fresh_key res \<Rightarrow> disk \<Rightarrow> agent_enrollment res \<times> disk" where
  "identity_Enroll S srv installToken hw gen k = (case Parse installToken of
       Inl e \<Rightarrow> (Inl e, k)
     | Inr (secretPart, pin) \<Rightarrow> (case gen of
         Inl e \<Rightarrow> (Inl e, k)
       | Inr key \<Rightarrow> (case fk_csr key (Txt (fst hw)) of
           Inl e \<Rightarrow> (Inl e, k)
         | Inr req \<Rightarrow> (case enroll_call (is_codecs S) pin srv (enroll_request secretPart req hw) of
             Inl e \<Rightarrow> (Inl e, k)
           | Inr resp \<Rightarrow>
               andThen (writeIdentity S key (er_cert resp) (er_ca resp) k) (\<lambda>_ k1.
               andThen (writeEnrollment S (enrollment_of resp) k1) (\<lambda>_ k2. (Inr (enrollment_of resp), k2)))))))"

section \<open>Loading and renewing\<close>

record loaded =
  ld_enrollment :: agent_enrollment
  ld_cert :: bytes
  ld_key :: bytes
  ld_ca :: bytes
  ld_not_after :: time

definition identity_Load :: "identity_store \<Rightarrow> disk \<Rightarrow> loaded res \<times> disk" where
  "identity_Load S k = (let (there, k0) = Enrolled S k; K = is_codecs S; dir = is_dir S in
     if \<not> there then (Inl (ErrText ''agent is not enrolled''), k0)
     else (case ReadFile (Enrollment_path dir) k0 of
         (None, k1) \<Rightarrow> (Inl (ErrText ''read''), k1)
       | (Some b, k1) \<Rightarrow> (case co_unjson K b of
           Inl e \<Rightarrow> (Inl e, k1)
         | Inr enr \<Rightarrow>
             andThen (readPEM K (Cert_path dir) ''CERTIFICATE'' k1) (\<lambda>certDER k2.
             andThen (readPEM K (CA_path dir) ''CERTIFICATE'' k2) (\<lambda>caDER k3.
             andThen (readPEM K (Key_path dir) sealed_key k3) (\<lambda>sealed k4.
               (case co_unprotect K sealed of
                  Inl e \<Rightarrow> (Inl (ErrText (''unprotect key: '' @ err_text e)), k4)
                | Inr keyDER \<Rightarrow> (case x5_parse (co_x509 K) certDER of
                    Inl e \<Rightarrow> (Inl e, k4)
                  | Inr notAfter \<Rightarrow> (Inr \<lparr>ld_enrollment = enr, ld_cert = certDER, ld_key = keyDER, ld_ca = caDER,
                      ld_not_after = notAfter\<rparr>, k4)))))))))"

record tls_config =
  tl_root :: bytes
  tl_server_name :: string
  tl_cert :: bytes
  tl_key :: bytes

definition TLSConfig :: "codecs \<Rightarrow> loaded \<Rightarrow> tls_config res" where
  "TLSConfig K l = (case x5_parse_key (co_x509 K) (ld_key l) of
       Inl e \<Rightarrow> Inl e
     | Inr key \<Rightarrow> (case x5_parse (co_x509 K) (ld_ca l) of
         Inl e \<Rightarrow> Inl e
       | Inr _ \<Rightarrow> Inr \<lparr>tl_root = ld_ca l, tl_server_name = PinFromCert (co_sha256 K) (ld_ca l), tl_cert = ld_cert l, tl_key = key\<rparr>))"

text \<open>The renewal call on the connection made with the given configuration.\<close>

type_synonym renew_call = "tls_config \<Rightarrow> bytes \<Rightarrow> bytes res"

definition identity_Renew :: "identity_store \<Rightarrow> renew_call \<Rightarrow> fresh_key res \<Rightarrow> loaded \<Rightarrow> disk \<Rightarrow> unit res \<times> disk" where
  "identity_Renew S call gen l k = (case TLSConfig (is_codecs S) l of
       Inl e \<Rightarrow> (Inl e, k)
     | Inr tls \<Rightarrow> (case gen of
         Inl e \<Rightarrow> (Inl e, k)
       | Inr key \<Rightarrow> (case fk_csr key (IdTxt '''' (en_device (ld_enrollment l))) of
           Inl e \<Rightarrow> (Inl e, k)
         | Inr req \<Rightarrow> (case call tls req of
             Inl e \<Rightarrow> (Inl e, k)
           | Inr der \<Rightarrow> writeIdentity S key der (ld_ca l) k))))"

section \<open>The runner and the commands\<close>

definition EnsureEnrolled ::
  "identity_store \<Rightarrow> server_end \<Rightarrow> string \<Rightarrow> string \<times> string \<times> string \<Rightarrow> fresh_key res \<Rightarrow> disk \<Rightarrow> unit res \<times> disk" where
  "EnsureEnrolled S srv token hw gen k = (let (there, k1) = Enrolled S k in
     if there then (Inr (), k1)
     else andThen (identity_Enroll S srv token hw gen k1) (\<lambda>_ k2. (Inr (), k2)))"

definition renewal_due :: "time \<Rightarrow> loaded \<Rightarrow> bool" where
  "renewal_due now l \<longleftrightarrow> ld_not_after l - now < RenewAfter"

text \<open>The first part of a session: the identity it connects with, a renewal that fails only being logged.\<close>

definition session_identity :: "identity_store \<Rightarrow> renew_call \<Rightarrow> fresh_key res \<Rightarrow> time \<Rightarrow> disk \<Rightarrow> tls_config res \<times> disk" where
  "session_identity S call gen now k = andThen (identity_Load S k) (\<lambda>l k1.
     if \<not> renewal_due now l then (TLSConfig (is_codecs S) l, k1)
     else (case identity_Renew S call gen l k1 of
         (Inl _, k2) \<Rightarrow> (TLSConfig (is_codecs S) l, k2)
       | (Inr _, k2) \<Rightarrow> andThen (identity_Load S k2) (\<lambda>l' k3. (TLSConfig (is_codecs S) l', k3))))"

definition RotateCertificate :: "identity_store \<Rightarrow> renew_call \<Rightarrow> fresh_key res \<Rightarrow> disk \<Rightarrow> unit res \<times> disk" where
  "RotateCertificate S call gen k = andThen (identity_Load S k) (\<lambda>l k1. identity_Renew S call gen l k1)"

text \<open>The update key the agent verifies releases with: none when the identity cannot be read.\<close>

definition UpdatePub :: "identity_store \<Rightarrow> disk \<Rightarrow> bytes \<times> disk" where
  "UpdatePub S k = (case identity_Load S k of (Inl _, k1) \<Rightarrow> ([], k1) | (Inr l, k1) \<Rightarrow> (en_update_pub (ld_enrollment l), k1))"

text \<open>RemoveAll of the data directory.\<close>

definition RemoveAll :: "string \<Rightarrow> disk \<Rightarrow> bool \<times> disk" where
  "RemoveAll dir = os_call (\<lambda>k. k\<lparr>dk_files := (\<lambda>q. if q = dir \<or> HasPrefix q (dir @ [BSL]) then None else dk_files k q)\<rparr>)"

text \<open>The uninstaller: refused, the service manager unreachable, or the service stopped and deleted and the data removed.\<close>

datatype uninstall_result = Refused string | NoManager | Removed bool

definition uninstall :: "identity_store \<Rightarrow> bool \<Rightarrow> string \<Rightarrow> bool \<Rightarrow> disk \<Rightarrow> uninstall_result \<times> disk" where
  "uninstall S manager code force k =
     (let (refusal, k1) = (if force then (None, k)
        else (case identity_Load S k of
            (Inl e, k1) \<Rightarrow> (Some (''cannot verify uninstall code: '' @ err_text e), k1)
          | (Inr l, k1) \<Rightarrow> (if co_sha256 (is_codecs S) code \<noteq> en_uninstall_hash (ld_enrollment l)
              then Some ''incorrect uninstall code'' else None, k1)))
      in case refusal of
           Some m \<Rightarrow> (Refused m, k1)
         | None \<Rightarrow> if \<not> manager then (NoManager, k1) else (let (ok, k2) = RemoveAll (is_dir S) k1 in (Removed ok, k2)))"

text \<open>
  The configuration file: missing is the empty configuration, the environment overrides it, and
  writing replaces it. YAML coding is a parameter.
\<close>

record agent_config =
  ac_server_url :: string
  ac_token :: string

record yaml =
  ya_marshal :: "agent_config \<Rightarrow> bytes"
  ya_unmarshal :: "bytes \<Rightarrow> agent_config res"

datatype file_read = Missing | ReadError | Contents bytes

definition read_config :: "string \<Rightarrow> disk \<Rightarrow> file_read \<times> disk" where
  "read_config path k = (let (r, k1) = next_io k in
     (if r \<noteq> IoOk then ReadError else (case dk_files k1 path of None \<Rightarrow> Missing | Some b \<Rightarrow> Contents b), k1))"

definition override :: "string \<Rightarrow> string \<Rightarrow> string" where
  "override env v = (if env \<noteq> [] then env else v)"

definition config_Load :: "yaml \<Rightarrow> string \<times> string \<Rightarrow> string \<Rightarrow> disk \<Rightarrow> agent_config res \<times> disk" where
  "config_Load Y env path k = (let (f, k1) = read_config path k in
     (case (case f of Missing \<Rightarrow> Inr \<lparr>ac_server_url = [], ac_token = []\<rparr> | ReadError \<Rightarrow> Inl (ErrText ''read config'')
            | Contents b \<Rightarrow> (case ya_unmarshal Y b of Inl e \<Rightarrow> Inl (ErrText (''parse config: '' @ err_text e)) | Inr c \<Rightarrow> Inr c)) of
        Inl e \<Rightarrow> Inl e
      | Inr c \<Rightarrow> (let c' = \<lparr>ac_server_url = override (fst env) (ac_server_url c), ac_token = override (snd env) (ac_token c)\<rparr>
          in if ac_server_url c' = [] then Inl (ErrText ''server_url is required'') else Inr c'), k1))"

definition config_Write :: "yaml \<Rightarrow> string \<Rightarrow> agent_config \<Rightarrow> disk \<Rightarrow> bool \<times> disk" where
  "config_Write Y path c = WriteFile path (ya_marshal Y c)"

definition writeConfig :: "yaml \<Rightarrow> string \<Rightarrow> string \<Rightarrow> string \<Rightarrow> disk \<Rightarrow> bool \<times> disk" where
  "writeConfig Y dir server token k = (if server = [] then (False, k)
     else let (ok, k1) = MkdirAll k in
       if \<not> ok then (False, k1) else config_Write Y (Config_path dir) \<lparr>ac_server_url = server, ac_token = token\<rparr> k1)"

text \<open>What \<^verbatim>\<open>runAgent\<close> does before the service starts: the configuration, then the enrollment if there is none.\<close>

definition start_agent ::
  "yaml \<Rightarrow> string \<times> string \<Rightarrow> identity_store \<Rightarrow> (string \<Rightarrow> server_end) \<Rightarrow> string \<times> string \<times> string \<Rightarrow> fresh_key res \<Rightarrow> disk \<Rightarrow> unit res \<times> disk" where
  "start_agent Y env S servers hw gen k = andThen (config_Load Y env (Config_path (is_dir S)) k) (\<lambda>cfg k1.
     (let (there, k2) = Enrolled S k1 in
      if there then (Inr (), k2)
      else if ac_token cfg = [] then (Inl (ErrText (''not enrolled and no token in '' @ Config_path (is_dir S))), k2)
      else EnsureEnrolled S (servers (ac_server_url cfg)) (ac_token cfg) hw gen k2))"

lemma config_round_trip:
  assumes "\<forall>c. ya_unmarshal Y (ya_marshal Y c) = Inr c" "dk_io k = []" "server \<noteq> []"
  shows "config_Load Y ([], []) (Config_path dir) (snd (writeConfig Y dir server token k)) =
    (Inr \<lparr>ac_server_url = server, ac_token = token\<rparr>, snd (writeConfig Y dir server token k))"
  using assms
  by (simp add: writeConfig_def config_Write_def config_Load_def read_config_def MkdirAll_def os_Create_def WriteFile_def io_exhausted
      override_def split_beta on_disk_def)

section \<open>What the files hold\<close>

text \<open>The coding laws the agent relies on: what is written is read back.\<close>

definition codecs_ok :: "codecs \<Rightarrow> bool" where
  "codecs_ok K \<longleftrightarrow> (\<forall>t b. co_unpem K (co_pem K t b) = Some (t, b)) \<and> (\<forall>e. co_unjson K (co_json K e) = Inr e) \<and>
     (\<forall>b s. co_protect K b = Inr s \<longrightarrow> co_unprotect K s = Inr b)"

lemma writePEM_ok: "writePEM K path ty der k = (Inr u, k') \<Longrightarrow> dk_files k' = (dk_files k)(path \<mapsto> co_pem K ty der)"
  using WriteFile_ok [of path "co_pem K ty der" k] by (auto simp: writePEM_def split: prod.splits if_splits)

lemma readPEM_quiet:
  assumes "codecs_ok K" "dk_io k = []" "dk_files k path = Some (co_pem K ty der)"
  shows "readPEM K path ty k = (Inr der, k)"
  using assms by (simp add: readPEM_def io_exhausted codecs_ok_def)

definition identity_at :: "identity_store \<Rightarrow> disk \<Rightarrow> agent_enrollment \<Rightarrow> bytes \<Rightarrow> bytes \<Rightarrow> bytes \<Rightarrow> bool" where
  "identity_at S k enr certDER keyDER caDER \<longleftrightarrow>
     dk_files k (Enrollment_path (is_dir S)) = Some (co_json (is_codecs S) enr) \<and>
     dk_files k (Cert_path (is_dir S)) = Some (co_pem (is_codecs S) ''CERTIFICATE'' certDER) \<and>
     dk_files k (CA_path (is_dir S)) = Some (co_pem (is_codecs S) ''CERTIFICATE'' caDER) \<and>
     (\<exists>sealed. co_protect (is_codecs S) keyDER = Inr sealed \<and>
        dk_files k (Key_path (is_dir S)) = Some (co_pem (is_codecs S) sealed_key sealed))"

lemma Load_quiet:
  assumes "codecs_ok (is_codecs S)" "dk_io k = []" "identity_at S k enr certDER keyDER caDER"
    and "x5_parse (co_x509 (is_codecs S)) certDER = Inr t"
  shows "identity_Load S k =
    (Inr \<lparr>ld_enrollment = enr, ld_cert = certDER, ld_key = keyDER, ld_ca = caDER, ld_not_after = t\<rparr>, k)"
proof -
  obtain sealed where s: "co_protect (is_codecs S) keyDER = Inr sealed"
    "dk_files k (Key_path (is_dir S)) = Some (co_pem (is_codecs S) sealed_key sealed)"
    using assms(3) by (auto simp: identity_at_def)
  have u: "co_unprotect (is_codecs S) sealed = Inr keyDER" "co_unjson (is_codecs S) (co_json (is_codecs S) enr) = Inr enr"
    using assms(1) s(1) by (simp_all add: codecs_ok_def)
  show ?thesis
    using assms(2-4) s(2) u readPEM_quiet [OF assms(1,2)]
    by (simp add: identity_Load_def Enrolled_def io_exhausted identity_at_def)
qed

lemma writeIdentity_ok:
  assumes "writeIdentity S key certDER caDER k = (Inr u, k')"
  shows "\<exists>keyDER sealed. fk_der key = Inr keyDER \<and> co_protect (is_codecs S) keyDER = Inr sealed \<and>
    dk_files k' = (dk_files k)(Key_path (is_dir S) \<mapsto> co_pem (is_codecs S) sealed_key sealed,
      Cert_path (is_dir S) \<mapsto> co_pem (is_codecs S) ''CERTIFICATE'' certDER, CA_path (is_dir S) \<mapsto> co_pem (is_codecs S) ''CERTIFICATE'' caDER)"
proof -
  let ?K = "is_codecs S" and ?d = "is_dir S"
  from assms obtain keyDER sealed where k: "fk_der key = Inr keyDER" "co_protect ?K keyDER = Inr sealed"
    by (auto simp: writeIdentity_def split: sum.splits)
  with assms obtain k1 k2 where w: "writePEM ?K (Key_path ?d) sealed_key sealed k = (Inr (), k1)"
    "writePEM ?K (Cert_path ?d) ''CERTIFICATE'' certDER k1 = (Inr (), k2)" "writePEM ?K (CA_path ?d) ''CERTIFICATE'' caDER k2 = (Inr (), k')"
    by (auto simp: writeIdentity_def andThen_def split: prod.splits sum.splits)
  show ?thesis using k writePEM_ok [OF w(1)] writePEM_ok [OF w(2)] writePEM_ok [OF w(3)] by auto
qed

lemma pinnedTLS_ok:
  "pinnedTLS K pin raw = Inr u \<Longrightarrow> 2 \<le> length raw \<and> PinFromCert (co_sha256 K) (last raw) = pin \<and> x5_verify (co_x509 K) (hd raw) (last raw)"
  by (auto simp: pinnedTLS_def split: if_splits sum.splits)

lemma Enroll_ok:
  assumes "identity_Enroll S srv installToken hw gen k = (Inr enr, k')"
  obtains secretPart pin key req resp k1 where "Parse installToken = Inr (secretPart, pin)" "gen = Inr key"
    "fk_csr key (Txt (fst hw)) = Inr req" "pinnedTLS (is_codecs S) pin (se_chain srv) = Inr ()"
    "se_enroll srv (enroll_request secretPart req hw) = Inr resp" "writeIdentity S key (er_cert resp) (er_ca resp) k = (Inr (), k1)"
    "writeEnrollment S (enrollment_of resp) k1 = (Inr (), k')" "enr = enrollment_of resp"
  using assms
  by (auto simp: identity_Enroll_def enroll_call_def andThen_def split: sum.splits prod.splits)

text \<open>
  C32: After a successful enrollment the agent finds its identity again: as long as the disk can be read, loading returns what the server
  answered, the certificate for the key it generated and the authority.
\<close>

theorem enroll_then_load:
  assumes "codecs_ok (is_codecs S)" and "identity_Enroll S srv installToken hw gen k = (Inr enr, k')" and "dk_io k' = []"
    and "\<forall>req resp. se_enroll srv req = Inr resp \<longrightarrow> x5_parse (co_x509 (is_codecs S)) (er_cert resp) = Inr t"
  shows "\<exists>key keyDER req resp. gen = Inr key \<and> fk_der key = Inr keyDER \<and> fk_csr key (Txt (fst hw)) = Inr (eq_csr req) \<and>
    se_enroll srv req = Inr resp \<and> enr = enrollment_of resp \<and>
    identity_Load S k' = (Inr \<lparr>ld_enrollment = enr, ld_cert = er_cert resp, ld_key = keyDER, ld_ca = er_ca resp, ld_not_after = t\<rparr>, k')"
  using assms(2)
proof (rule Enroll_ok)
  fix secretPart pin key req resp k1
  assume g: "gen = Inr key" "fk_csr key (Txt (fst hw)) = Inr req" "enr = enrollment_of resp"
    and r: "se_enroll srv (enroll_request secretPart req hw) = Inr resp"
    and w: "writeIdentity S key (er_cert resp) (er_ca resp) k = (Inr (), k1)" and e: "writeEnrollment S (enrollment_of resp) k1 = (Inr (), k')"
  have e': "dk_files k' = (dk_files k1)(Enrollment_path (is_dir S) \<mapsto> co_json (is_codecs S) enr)"
    using e g(3) WriteFile_ok [of "Enrollment_path (is_dir S)" "co_json (is_codecs S) (enrollment_of resp)" k1]
    by (auto simp: writeEnrollment_def split: prod.splits if_splits)
  from writeIdentity_ok [OF w] obtain keyDER where kd: "fk_der key = Inr keyDER" and at: "identity_at S k' enr (er_cert resp) keyDER (er_ca resp)"
    using e' by (auto simp: identity_at_def)
  have t: "x5_parse (co_x509 (is_codecs S)) (er_cert resp) = Inr t" using assms(4) r by blast
  have "eq_csr (enroll_request secretPart req hw) = req" by (simp add: enroll_request_def)
  then show ?thesis using g kd r Load_quiet [OF assms(1,3) at t] by metis
qed

text \<open>
  C33: The secret of an install token is only sent to a server that presents a chain ending in the pinned authority and a
  certificate of it: for any other server the outcome does not depend on what it would answer, enrollment fails and nothing is
  written.
\<close>

theorem token_only_to_pinned_server:
  assumes "Parse installToken = Inr (secretPart, pin)"
    and "\<not> (2 \<le> length (se_chain srv) \<and> PinFromCert (co_sha256 (is_codecs S)) (last (se_chain srv)) = pin \<and>
      x5_verify (co_x509 (is_codecs S)) (hd (se_chain srv)) (last (se_chain srv)))"
  shows "\<exists>e. \<forall>answer. identity_Enroll S (srv\<lparr>se_enroll := answer\<rparr>) installToken hw gen k = (Inl e, k)"
proof -
  obtain e where "pinnedTLS (is_codecs S) pin (se_chain srv) = Inl e"
    using assms(2) pinnedTLS_ok by (metis sum.exhaust)
  then have "enroll_call (is_codecs S) pin (srv\<lparr>se_enroll := answer\<rparr>) req = Inl e" for answer req by (simp add: enroll_call_def)
  then show ?thesis
    using assms(1) by (cases gen; cases "fk_csr (projr gen) (Txt (fst hw))") (auto simp: identity_Enroll_def)
qed

lemma readPEM_files [disk_frame]: "dk_files (snd (readPEM K path ty k)) = dk_files k"
  using ReadFile_files [of path k] by (auto simp: readPEM_def split: prod.splits option.splits)

lemma andThen_files:
  assumes "dk_files (snd m) = F" "\<And>x k. dk_files k = F \<Longrightarrow> dk_files (snd (f x k)) = F"
  shows "dk_files (snd (andThen m f)) = F"
  using assms by (cases m; cases "fst m") auto

lemma Load_files [disk_frame]: "dk_files (snd (identity_Load S k)) = dk_files k"
proof -
  obtain there k0 where e: "Enrolled S k = (there, k0)" by fastforce
  then have f0: "dk_files k0 = dk_files k" by (auto simp: Enrolled_def split: prod.splits dest: next_io_files)
  obtain b k1 where r: "ReadFile (Enrollment_path (is_dir S)) k0 = (b, k1)" by fastforce
  then have f1: "dk_files k1 = dk_files k" using ReadFile_files [of "Enrollment_path (is_dir S)" k0] f0 by simp
  have pem: "dk_files (snd (readPEM K path ty k2)) = dk_files k" if "dk_files k2 = dk_files k" for K path ty k2
    using readPEM_files [of K path ty k2] that by simp
  show ?thesis
  proof (cases "there \<and> (\<exists>x. b = Some x)")
    case True
    then obtain x where x: "there" "b = Some x" by blast
    show ?thesis
    proof (cases "co_unjson (is_codecs S) x")
      case (Inr enr)
      show ?thesis
        unfolding identity_Load_def e Let_def
        by (simp add: x r Inr) (intro andThen_files pem f1; auto split: sum.splits)
    qed (simp add: identity_Load_def e Let_def x r f1)
  next
    case False
    then show ?thesis using f0 f1 by (cases b) (auto simp: identity_Load_def e Let_def r)
  qed
qed

text \<open>
  Without the server's flag the agent uninstalls only for the code whose hash it was given at enrollment; a refused attempt
  changes no file.
\<close>

theorem uninstall_needs_code:
  assumes "uninstall S manager code False k = (r, k')"
  shows "(\<exists>m. r = Refused m \<and> dk_files k' = dk_files k) \<or>
    (\<exists>l k1. identity_Load S k = (Inr l, k1) \<and> co_sha256 (is_codecs S) code = en_uninstall_hash (ld_enrollment l))"
proof (cases "identity_Load S k")
  case (Pair x k1)
  then have "dk_files k1 = dk_files k" using Load_files [of S k] by simp
  then show ?thesis using assms Pair by (cases x) (auto simp: uninstall_def split: if_splits)
qed

section \<open>Renewal\<close>

text \<open>
  A certificate is renewed from its thirtieth day on, up to the rounding to whole seconds: the constant is compared with the remaining
  life, not with the age.
\<close>

lemma renewal_from_day_30:
  assumes "ld_not_after l = ct_not_after (device_template serial i issued_at)"
  shows "(issued_at + 30 * 24 * hour < now \<longrightarrow> renewal_due now l) \<and> (now < issued_at + 30 * 24 * hour - second \<longrightarrow> \<not> renewal_due now l)"
proof -
  define r where "r = (issued_at + 90 * 24 * hour) mod second"
  have r: "0 \<le> r" "r < second" by (simp_all add: r_def second_def)
  have "ld_not_after l = issued_at + 90 * 24 * hour - r"
    using assms by (simp add: device_template_def Let_def DeviceCertValidity_def r_def)
  then show ?thesis using r unfolding renewal_due_def RenewAfter_def by (intro conjI impI) linarith+
qed

text \<open>The renewal call answered by the server's handler for the device.\<close>

definition renew_via :: "deps \<Rightarrow> device_id \<Rightarrow> db \<Rightarrow> renew_call" where
  "renew_via dp dev d = (\<lambda>_ req. case fst (RenewCertificate dp dev req d) of Inl (_, m) \<Rightarrow> Inl (ErrText m) | Inr der \<Rightarrow> Inr der)"

lemma RenewCertificate_ok:
  assumes "RenewCertificate dp dev req d = (Inr der, d')"
  shows "\<exists>serial notAfter. devices d' = update_where (\<lambda>v. dv_tenant v = di_tenant dev \<and> dv_id v = di_id dev)
      (\<lambda>v. v\<lparr>dv_cert_serial := serial, dv_cert_expires_at := notAfter\<rparr>) (devices d) \<and>
    (\<exists>v \<in> set (devices d). dv_tenant v = di_tenant dev \<and> dv_id v = di_id dev) \<and>
    (\<exists>k. deps_keys dp (di_tenant dev) = Inr k \<and> ca_sign_device k req (di_id dev) (dp_now dp) = Inr (der, serial, notAfter))"
proof -
  from assms obtain k serial notAfter d1 where s: "deps_keys dp (di_tenant dev) = Inr k"
    "ca_sign_device k req (di_id dev) (dp_now dp) = Inr (der, serial, notAfter)"
    "UpdateDeviceCert (di_tenant dev) (di_id dev) serial notAfter d = (Inr (), d1)" "devices d' = devices d1"
    by (auto simp: RenewCertificate_def AppendAudit_tables split: sum.splits prod.splits)
  let ?P = "\<lambda>v. dv_tenant v = di_tenant dev \<and> dv_id v = di_id dev"
  let ?f = "\<lambda>v. v\<lparr>dv_cert_serial := serial, dv_cert_expires_at := notAfter\<rparr>"
  from s(3) obtain fs where "update_device_stmt (di_tenant dev) (di_id dev) ?f (d\<lparr>faults := fs\<rparr>) = (Inr (), d1)"
    unfolding UpdateDeviceCert_def by (rule pool_ok)
  moreover from this have "rows_affected ?P (devices d) \<noteq> 0"
    by (auto simp: update_device_stmt_def Let_def oneRow_def split: if_splits)
  ultimately have "devices d1 = update_where ?P ?f (devices d)" "\<exists>v \<in> set (devices d). ?P v"
    by (auto simp: update_device_stmt_def Let_def rows_affected_0)
  then show ?thesis using s by (intro exI [of _ serial] exI [of _ notAfter]) auto
qed

text \<open>The key is written, creating the file of the certificate fails.\<close>

lemma torn_write:
  assumes "fk_der key = Inr keyDER" "co_protect (is_codecs S) keyDER = Inr sealed" "dk_io k = [IoOk, IoOk, IoErr]"
  shows "writeIdentity S key certDER caDER k =
    (Inl (ErrText ''write''), \<lparr>dk_files = (dk_files k)(Key_path (is_dir S) \<mapsto> co_pem (is_codecs S) sealed_key sealed), dk_io = []\<rparr>)"
  using assms
  by (cases k) (simp add: writeIdentity_def writePEM_def WriteFile_def os_Create_def os_call_def io_Copy_def next_io_def on_disk_def andThen_def)

text \<open>
  C34: Renewal is not atomic. When the server has renewed a certificate and the agent cannot create the certificate's file after it
  replaced the key, the agent is left with the old certificate and a key that is not its own, and the server refuses every
  certificate of the device but the one that was lost. The agent still counts as enrolled, so nothing enrolls it again.
\<close>

theorem failed_renewal_locks_out:
  assumes "codecs_ok (is_codecs S)" and "identity_at S k enr certDER oldKey caDER"
    and "x5_parse (co_x509 (is_codecs S)) certDER = Inr t" and "TLSConfig (is_codecs S) l = Inr tls"
    and "l = \<lparr>ld_enrollment = enr, ld_cert = certDER, ld_key = oldKey, ld_ca = caDER, ld_not_after = t\<rparr>"
    and "fk_der key = Inr newKey" and "co_protect (is_codecs S) newKey = Inr sealed" and "fk_csr key (IdTxt '''' (en_device enr)) = Inr req"
    and "di_id dev = en_device enr" and "distinct (map dv_id (devices d))"
    and "RenewCertificate dp dev req d = (Inr der, d')" and "dk_io k = [IoOk, IoOk, IoErr]"
  shows "\<exists>k'. identity_Renew S (renew_via dp dev d) (Inr key) l k = (Inl (ErrText ''write''), k') \<and>
    identity_Load S k' = (Inr (l\<lparr>ld_key := newKey\<rparr>), k') \<and> fst (Enrolled S k') \<and>
    (\<exists>ca serial notAfter. deps_keys dp (di_tenant dev) = Inr ca \<and> ca_sign_device ca req (di_id dev) (dp_now dp) = Inr (der, serial, notAfter) \<and>
      (\<forall>leaf dev' d''. lc_common_name leaf = Some (en_device enr) \<and> lc_serial leaf \<noteq> serial \<longrightarrow> authenticate (Some leaf) d' \<noteq> (Inr dev', d'')))"
proof -
  let ?k = "\<lparr>dk_files = (dk_files k)(Key_path (is_dir S) \<mapsto> co_pem (is_codecs S) sealed_key sealed), dk_io = []\<rparr>"
  have renew: "identity_Renew S (renew_via dp dev d) (Inr key) l k = (Inl (ErrText ''write''), ?k)"
    using assms(4,8,11) torn_write [OF assms(6,7,12)] by (simp add: identity_Renew_def renew_via_def assms(5))
  have "identity_at S ?k enr certDER newKey caDER" using assms(2,7) by (simp add: identity_at_def)
  from Load_quiet [OF assms(1) _ this assms(3)] have load: "identity_Load S ?k = (Inr (l\<lparr>ld_key := newKey\<rparr>), ?k)" by (simp add: assms(5))
  have enrolled: "fst (Enrolled S ?k)" using assms(2) by (simp add: Enrolled_def io_exhausted identity_at_def)
  from RenewCertificate_ok [OF assms(11)] obtain serial notAfter v ca where
    dev: "devices d' = update_where (\<lambda>v. dv_tenant v = di_tenant dev \<and> dv_id v = di_id dev)
      (\<lambda>v. v\<lparr>dv_cert_serial := serial, dv_cert_expires_at := notAfter\<rparr>) (devices d)"
    and v: "v \<in> set (devices d)" "dv_tenant v = di_tenant dev" "dv_id v = di_id dev"
    and ca: "deps_keys dp (di_tenant dev) = Inr ca" "ca_sign_device ca req (di_id dev) (dp_now dp) = Inr (der, serial, notAfter)" by auto
  have "find_row (\<lambda>v. dv_id v = di_id dev) (devices d) = Some v" using find_row_unique [OF assms(10) v(1,3)] .
  then have row: "find_row (\<lambda>v. dv_id v = di_id dev) (devices d') = Some (v\<lparr>dv_cert_serial := serial, dv_cert_expires_at := notAfter\<rparr>)"
    using v dev find_row_update_where [of dv_id "\<lambda>v. v\<lparr>dv_cert_serial := serial, dv_cert_expires_at := notAfter\<rparr>" "di_id dev"
      "\<lambda>v. dv_tenant v = di_tenant dev \<and> dv_id v = di_id dev" "devices d"] by simp
  have "authenticate (Some leaf) d' \<noteq> (Inr dev', d'')"
    if "lc_common_name leaf = Some (en_device enr)" "lc_serial leaf \<noteq> serial" for leaf dev' d''
    using that row assms(9) by (auto elim!: authenticate_ok)
  then show ?thesis using renew load enrolled ca by blast
qed

section \<open>A concrete device\<close>

text \<open>Two byte strings as one, the first behind its length in unary.\<close>

definition pack :: "bytes \<Rightarrow> bytes \<Rightarrow> bytes" where
  "pack a b = replicate (length a) (CHR 0x01) @ CHR 0x00 # a @ b"

definition unpack :: "bytes \<Rightarrow> bytes \<times> bytes" where
  "unpack x = (let n = length (takeWhile (\<lambda>c. c = CHR 0x01) x) in (take n (drop (n + 1) x), drop (n + 1 + n) x))"

lemma unpack_pack [simp]: "unpack (pack a b) = (a, b)"
proof -
  have "takeWhile (\<lambda>c. c = CHR 0x01) (pack a b) = replicate (length a) (CHR 0x01)"
    unfolding pack_def by (subst takeWhile_append2) auto
  then show ?thesis by (simp add: unpack_def pack_def Let_def)
qed

definition demo_x509 :: x509 where
  "demo_x509 = \<lparr>x5_parse_csr = (\<lambda>b. Inr \<lparr>cs_signed = True, cs_p256 = True, cs_public = b\<rparr>), x5_create = (\<lambda>_ pub _. Inr pub),
     x5_parse = (\<lambda>_. Inr 77), x5_parse_key = Inr, x5_verify = (\<lambda>leaf ca. leaf \<noteq> ca), x5_is_ip = (\<lambda>_. False)\<rparr>"

definition demo_codecs :: codecs where
  "demo_codecs = \<lparr>co_pem = pack, co_unpem = (\<lambda>x. Some (unpack x)),
     co_json = (\<lambda>e. pack (replicate (en_device e) (CHR 0x01)) (pack (en_command_pub e) (pack (en_update_pub e) (en_uninstall_hash e)))),
     co_unjson = (\<lambda>x. case unpack x of (i, y) \<Rightarrow> case unpack y of (c, z) \<Rightarrow> case unpack z of (u, h) \<Rightarrow>
       Inr \<lparr>en_device = length i, en_command_pub = c, en_update_pub = u, en_uninstall_hash = h\<rparr>),
     co_protect = (\<lambda>b. Inr (CHR 0x02 # b)), co_unprotect = (\<lambda>b. Inr (tl b)), co_sha256 = (\<lambda>_. ''A''), co_x509 = demo_x509\<rparr>"

lemma demo_codecs_ok: "codecs_ok demo_codecs"
  by (simp add: codecs_ok_def demo_codecs_def)

definition demo_store :: identity_store where
  "demo_store = \<lparr>is_dir = ''D'', is_codecs = demo_codecs\<rparr>"

definition demo_key :: fresh_key where
  "demo_key = \<lparr>fk_der = Inr ''new'', fk_csr = (\<lambda>_. Inr ''csr'')\<rparr>"

definition demo_server :: "bytes list \<Rightarrow> server_end" where
  "demo_server chain = \<lparr>se_chain = chain, se_enroll = (\<lambda>r. Inr \<lparr>er_device = 4, er_cert = ''crt'', er_ca = ''ca'',
     er_command_pub = ''cmd'', er_update_pub = ''upd'', er_uninstall = ''A''\<rparr>)\<rparr>"

definition demo_hw :: "string \<times> string \<times> string" where "demo_hw = (''pc'', ''guid'', ''10'')"

lemma demo_parse: "Parse ''s.41'' = Inr (''s'', ''41'')" "PinFromCert (\<lambda>_. ''A'') b = ''41''"
  by code_simp+

lemma demo_enrolls:
  "\<exists>k'. identity_Enroll demo_store (demo_server [''leaf'', ''ca'']) ''s.41'' demo_hw (Inr demo_key) empty_disk =
     (Inr \<lparr>en_device = 4, en_command_pub = ''cmd'', en_update_pub = ''upd'', en_uninstall_hash = ''A''\<rparr>, k') \<and> dk_io k' = []"
  by (simp add: identity_Enroll_def demo_parse demo_key_def enroll_call_def pinnedTLS_def demo_server_def demo_store_def demo_codecs_def demo_x509_def
      writeIdentity_def writePEM_def writeEnrollment_def WriteFile_def os_Create_def os_call_def io_Copy_def next_io_def on_disk_def empty_disk_def
      andThen_def enrollment_of_def)

theorem enroll_then_load_witness:
  "\<exists>enr k'. identity_Enroll demo_store (demo_server [''leaf'', ''ca'']) ''s.41'' demo_hw (Inr demo_key) empty_disk = (Inr enr, k') \<and>
     identity_Load demo_store k' = (Inr \<lparr>ld_enrollment = enr, ld_cert = ''crt'', ld_key = ''new'', ld_ca = ''ca'', ld_not_after = 77\<rparr>, k')"
proof -
  obtain enr k' where k: "identity_Enroll demo_store (demo_server [''leaf'', ''ca'']) ''s.41'' demo_hw (Inr demo_key) empty_disk = (Inr enr, k')" "dk_io k' = []"
    using demo_enrolls by blast
  have ok: "codecs_ok (is_codecs demo_store)" using demo_codecs_ok by (simp add: demo_store_def)
  have parse: "\<forall>req resp. se_enroll (demo_server [''leaf'', ''ca'']) req = Inr resp \<longrightarrow> x5_parse (co_x509 (is_codecs demo_store)) (er_cert resp) = Inr 77"
    by (simp add: demo_store_def demo_codecs_def demo_x509_def)
  from enroll_then_load [OF ok k parse] obtain keyDER req resp where "fk_der demo_key = Inr keyDER" "se_enroll (demo_server [''leaf'', ''ca'']) req = Inr resp"
    "identity_Load demo_store k' = (Inr \<lparr>ld_enrollment = enr, ld_cert = er_cert resp, ld_key = keyDER, ld_ca = er_ca resp, ld_not_after = 77\<rparr>, k')" by auto
  then have "identity_Load demo_store k' = (Inr \<lparr>ld_enrollment = enr, ld_cert = ''crt'', ld_key = ''new'', ld_ca = ''ca'', ld_not_after = 77\<rparr>, k')"
    by (auto simp: demo_key_def demo_server_def)
  with k(1) show ?thesis by blast
qed

theorem token_only_to_pinned_server_witness:
  "\<exists>e. \<forall>answer. identity_Enroll demo_store ((demo_server [''ca''])\<lparr>se_enroll := answer\<rparr>) ''s.41'' demo_hw (Inr demo_key) empty_disk = (Inl e, empty_disk)"
  by (rule token_only_to_pinned_server [OF demo_parse(1)]) (simp add: demo_server_def)

definition demo_renewer :: deps where
  "demo_renewer = \<lparr>dp_keys = \<lparr>ca_raw = ''ca'', ca_sign_device = (\<lambda>_ _ _. Inr (''crt2'', ''ff'', 900)), ca_command_pub = ''cmd'', ca_update_pub = ''upd'',
     ca_uninstall_hash = (\<lambda>_. ''A'')\<rparr>, dp_key_for = None, dp_now = 0, dp_sha256 = (\<lambda>_. ''A'')\<rparr>"

definition demo_enrollment :: agent_enrollment where
  "demo_enrollment = \<lparr>en_device = 4, en_command_pub = ''cmd'', en_update_pub = ''upd'', en_uninstall_hash = ''A''\<rparr>"

definition demo_files :: disk where
  "demo_files = \<lparr>dk_files = [Enrollment_path ''D'' \<mapsto> co_json demo_codecs demo_enrollment, Cert_path ''D'' \<mapsto> co_pem demo_codecs ''CERTIFICATE'' ''crt'',
     CA_path ''D'' \<mapsto> co_pem demo_codecs ''CERTIFICATE'' ''ca'', Key_path ''D'' \<mapsto> co_pem demo_codecs sealed_key (CHR 0x02 # ''old'')],
     dk_io = [IoOk, IoOk, IoErr]\<rparr>"

theorem failed_renewal_locks_out_witness:
  "\<exists>k' d'. identity_Renew demo_store (renew_via demo_renewer \<lparr>di_id = 4, di_tenant = 7\<rparr> demo_site) (Inr demo_key)
       \<lparr>ld_enrollment = demo_enrollment, ld_cert = ''crt'', ld_key = ''old'', ld_ca = ''ca'', ld_not_after = 77\<rparr> demo_files = (Inl (ErrText ''write''), k') \<and>
     identity_Load demo_store k' =
       (Inr \<lparr>ld_enrollment = demo_enrollment, ld_cert = ''crt'', ld_key = ''new'', ld_ca = ''ca'', ld_not_after = 77\<rparr>, k') \<and>
     RenewCertificate demo_renewer \<lparr>di_id = 4, di_tenant = 7\<rparr> ''csr'' demo_site = (Inr ''crt2'', d') \<and>
     (\<forall>dev d''. authenticate (Some \<lparr>lc_common_name = Some 4, lc_serial = ''1''\<rparr>) d' \<noteq> (Inr dev, d''))"
proof -
  let ?dev = "\<lparr>di_id = 4, di_tenant = 7\<rparr> :: device_id"
  let ?l = "\<lparr>ld_enrollment = demo_enrollment, ld_cert = ''crt'', ld_key = ''old'', ld_ca = ''ca'', ld_not_after = 77\<rparr> :: loaded"
  obtain d' where renew: "RenewCertificate demo_renewer ?dev ''csr'' demo_site = (Inr ''crt2'', d')"
    by (simp add: RenewCertificate_def deps_keys_def demo_renewer_def UpdateDeviceCert_def update_device_stmt_def rows_affected_def demo_site_def
        enrolled_row_def demo_new_def)
  have ok: "codecs_ok (is_codecs demo_store)" using demo_codecs_ok by (simp add: demo_store_def)
  have at: "identity_at demo_store demo_files demo_enrollment ''crt'' ''old'' ''ca''"
    by (simp add: identity_at_def demo_files_def demo_store_def) (simp add: demo_codecs_def)
  have tls: "TLSConfig (is_codecs demo_store) ?l = Inr \<lparr>tl_root = ''ca'', tl_server_name = ''41'', tl_cert = ''crt'', tl_key = ''old''\<rparr>"
    "x5_parse (co_x509 (is_codecs demo_store)) ''crt'' = Inr 77" "co_protect (is_codecs demo_store) ''new'' = Inr (CHR 0x02 # ''new'')"
    by (simp_all add: TLSConfig_def demo_store_def demo_codecs_def demo_x509_def demo_parse)
  have key: "fk_der demo_key = Inr ''new''" "fk_csr demo_key (IdTxt '''' (en_device demo_enrollment)) = Inr ''csr''" "di_id ?dev = en_device demo_enrollment"
    by (simp_all add: demo_key_def demo_enrollment_def)
  have ids: "distinct (map dv_id (devices demo_site))" "dk_io demo_files = [IoOk, IoOk, IoErr]" by (simp_all add: demo_site_def demo_files_def)
  from failed_renewal_locks_out [OF ok at tls(2) tls(1) refl key(1) tls(3) key(2) key(3) ids(1) renew ids(2)]
  obtain k' ca serial notAfter where
    k: "identity_Renew demo_store (renew_via demo_renewer ?dev demo_site) (Inr demo_key) ?l demo_files = (Inl (ErrText ''write''), k')"
      "identity_Load demo_store k' = (Inr (?l\<lparr>ld_key := ''new''\<rparr>), k')"
    and ca: "deps_keys demo_renewer 7 = Inr ca" "ca_sign_device ca ''csr'' 4 (dp_now demo_renewer) = Inr (''crt2'', serial, notAfter)"
    and out: "\<forall>leaf dev' d''. lc_common_name leaf = Some (en_device demo_enrollment) \<and> lc_serial leaf \<noteq> serial \<longrightarrow> authenticate (Some leaf) d' \<noteq> (Inr dev', d'')"
    by auto
  have "serial = ''ff''" using ca by (auto simp: demo_renewer_def deps_keys_def)
  then have "\<forall>dev d''. authenticate (Some \<lparr>lc_common_name = Some 4, lc_serial = ''1''\<rparr>) d' \<noteq> (Inr dev, d'')"
    using out by (simp add: demo_enrollment_def)
  then show ?thesis using k renew by (intro exI [of _ k'] exI [of _ d']) simp
qed

theorem uninstall_needs_code_witness:
  "(\<exists>m k'. uninstall demo_store True ''x'' False empty_disk = (Refused m, k') \<and> dk_files k' = Map.empty)"
proof -
  obtain r k' where u: "uninstall demo_store True ''x'' False empty_disk = (r, k')" by fastforce
  have "fst (identity_Load demo_store empty_disk) = Inl (ErrText ''agent is not enrolled'')"
    by (simp add: identity_Load_def Enrolled_def empty_disk_def next_io_def)
  then have "\<nexists>l k1. identity_Load demo_store empty_disk = (Inr l, k1)" by (metis fst_conv sum.distinct(1))
  with uninstall_needs_code [OF u] obtain m where "r = Refused m" "dk_files k' = dk_files empty_disk" by blast
  with u show ?thesis by (simp add: empty_disk_def)
qed

end
