(* ===== verification/Routes.thy ===== *)
theory Routes
  imports Auth
begin

text \<open>
  The console's router (\<^verbatim>\<open>httpapi/api.go\<close> Handler, requireRuntime; \<^verbatim>\<open>httpapi/routes.go\<close> routes): the table of routes in the order they
  are registered, each with the middlewares of the groups it is in, and the way a request takes to its handler.

  The theorems show which handlers a caller without a session, a read-only administrator and a cross-site request can reach.

  The router is chi's: a pattern matches segment by segment, a segment in braces matches anything
  non-empty and is passed on by name. A request for a registered pattern with another method is
  answered 405, any other 404.
\<close>

datatype http_method = GET | POST | PATCH | PUT | DELETE

datatype segment = Lit string | Param string

text \<open>The middlewares in front of a handler, from the outside in.\<close>

datatype access = Public | Started | LoggedIn | Verified | NeedsRole string | Provider

record route =
  rt_method :: http_method
  rt_pattern :: "segment list"
  rt_handler :: string
  rt_access :: access

text \<open>A pattern as it is written.\<close>

fun segments :: "string \<Rightarrow> string list" where
  "segments s = Split (CHR 0x2F) s"

definition pattern :: "string \<Rightarrow> segment list" where
  "pattern s = map (\<lambda>x. if HasPrefix x ''{'' then Param (butlast (tl x)) else Lit x) (tl (segments s))"

definition route :: "access \<Rightarrow> http_method \<Rightarrow> string \<Rightarrow> string \<Rightarrow> route" where
  "route a m s h = \<lparr>rt_method = m, rt_pattern = pattern s, rt_handler = h, rt_access = a\<rparr>"

definition public_routes :: "route list" where
  "public_routes = [
     route Public GET ''/healthz'' ''health'',
     route Public GET ''/readyz'' ''ready'',
     route Public GET ''/api/setup/status'' ''setupStatus'',
     route Public POST ''/api/setup'' ''setup'',
     route Public GET ''/agent/releases/{tenant}/{version}'' ''downloadRelease'',
     route Public GET ''/agent/releases/{version}'' ''downloadLegacyRelease'',
     route Started POST ''/api/login'' ''login'',
     route LoggedIn POST ''/api/logout'' ''logout'',
     route LoggedIn POST ''/api/mfa/setup'' ''mfaSetup'',
     route LoggedIn POST ''/api/mfa/verify'' ''mfaVerify'',
     route Verified GET ''/api/me'' ''me'']"

definition read_routes :: "route list" where
  "read_routes = [
     route Verified GET ''/api/devices'' ''listDevices'',
     route Verified GET ''/api/devices/{id}'' ''getDevice'',
     route Verified GET ''/api/devices/{id}/commands'' ''listDeviceCommands'',
     route Verified GET ''/api/groups'' ''listGroups'',
     route Verified GET ''/api/tokens'' ''listTokens'',
     route Verified GET ''/api/releases'' ''listReleases'',
     route Verified GET ''/api/audit'' ''listAudit'',
     route Verified GET ''/api/policies'' ''listPolicies'',
     route Verified GET ''/api/policies/{id}'' ''getPolicy'',
     route Verified GET ''/api/devices/{id}/observations'' ''listObservations'',
     route Verified GET ''/api/devices/{id}/metrics'' ''listMetrics'',
     route Verified GET ''/api/blocks'' ''listBlocks'',
     route Verified GET ''/api/approvals'' ''listApprovals'',
     route Verified GET ''/api/approvals/count'' ''countApprovals'',
     route Verified GET ''/api/alert-rules'' ''listAlertRules'',
     route Verified GET ''/api/alerts'' ''listAlerts'',
     route Verified GET ''/api/events'' ''listDeviceEvents'',
     route Verified GET ''/api/groups/{id}/controls'' ''getControls'',
     route Verified GET ''/api/devices/{id}/controls'' ''getDeviceControls'',
     route Verified GET ''/api/devices/{id}/ringfence'' ''getDeviceRingfence'',
     route Verified GET ''/api/rollouts'' ''listRollouts'',
     route Verified GET ''/api/rollouts/{id}'' ''getRollout'',
     route Verified GET ''/api/notifications/status'' ''notificationStatus'',
     route Verified GET ''/api/notification-channels'' ''listChannels'',
     route Verified GET ''/api/notification-deliveries'' ''listDeliveries'',
     route Verified GET ''/api/ringfences'' ''listRingfences'',
     route Verified GET ''/api/ringfences/{id}'' ''getRingfence'',
     route Verified GET ''/api/ringfence-events'' ''listRingfenceEvents'',
     route Verified GET ''/api/exports/{resource}'' ''exportCSV'']"

definition admin_routes :: "route list" where
  "admin_routes = map (\<lambda>(m, s, h). route (NeedsRole ''admin'') m s h) [
     (POST, ''/api/notification-channels'', ''createChannel''),
     (PATCH, ''/api/notification-channels/{id}'', ''updateChannel''),
     (DELETE, ''/api/notification-channels/{id}'', ''deleteChannel''),
     (POST, ''/api/notification-channels/{id}/test'', ''testChannel''),
     (POST, ''/api/devices/{id}/revoke'', ''revokeDevice''),
     (POST, ''/api/devices/{id}/commands'', ''issueCommand''),
     (POST, ''/api/groups'', ''createGroup''),
     (PATCH, ''/api/groups/{id}'', ''renameGroup''),
     (DELETE, ''/api/groups/{id}'', ''deleteGroup''),
     (POST, ''/api/devices/{id}/group'', ''setDeviceGroup''),
     (PATCH, ''/api/alert-rules/{id}'', ''updateAlertRule''),
     (POST, ''/api/tokens'', ''createToken''),
     (POST, ''/api/tokens/{id}/revoke'', ''revokeToken''),
     (POST, ''/api/policies'', ''createPolicy''),
     (POST, ''/api/policies/{id}/mode'', ''setPolicyMode''),
     (DELETE, ''/api/policies/{id}'', ''deletePolicy''),
     (POST, ''/api/policies/{id}/rules'', ''addRule''),
     (DELETE, ''/api/policies/{id}/rules/{ruleId}'', ''deleteRule''),
     (POST, ''/api/policies/{id}/assign'', ''assignPolicy''),
     (POST, ''/api/policies/{id}/recompile'', ''recompilePolicy''),
     (POST, ''/api/observations/promote'', ''promoteObservation''),
     (POST, ''/api/approvals/{id}/approve'', ''approveApproval''),
     (POST, ''/api/approvals/{id}/deny'', ''denyApproval''),
     (POST, ''/api/alert-rules'', ''createAlertRule''),
     (DELETE, ''/api/alert-rules/{id}'', ''deleteAlertRule''),
     (POST, ''/api/groups/{id}/controls'', ''setControls''),
     (POST, ''/api/devices/{id}/controls'', ''setDeviceControls''),
     (POST, ''/api/rollouts'', ''createRollout''),
     (POST, ''/api/rollouts/{id}/pause'', ''transitionRollout pause''),
     (POST, ''/api/rollouts/{id}/resume'', ''transitionRollout resume''),
     (POST, ''/api/rollouts/{id}/cancel'', ''transitionRollout cancel''),
     (POST, ''/api/rollouts/{id}/rollback'', ''rollbackRollout''),
     (POST, ''/api/ringfences'', ''createRingfence''),
     (PATCH, ''/api/ringfences/{id}'', ''renameRingfence''),
     (DELETE, ''/api/ringfences/{id}'', ''deleteRingfence''),
     (POST, ''/api/ringfences/{id}/mode'', ''setRingfenceMode''),
     (POST, ''/api/ringfences/{id}/programs'', ''addRingfenceProgram''),
     (DELETE, ''/api/ringfences/{id}/programs/{programId}'', ''deleteRingfenceProgram''),
     (PUT, ''/api/ringfences/{id}/protections'', ''setRingfenceProtection''),
     (POST, ''/api/ringfences/{id}/assign'', ''assignRingfence''),
     (DELETE, ''/api/groups/{id}/ringfence'', ''unassignRingfence'')]"

definition owner_routes :: "route list" where
  "owner_routes = map (\<lambda>(m, s, h). route (NeedsRole ''owner'') m s h) [
     (GET, ''/api/admins'', ''listAdmins''),
     (POST, ''/api/admins'', ''createAdmin''),
     (POST, ''/api/admins/{id}/disable'', ''disableAdmin''),
     (POST, ''/api/admins/{id}/enable'', ''enableAdmin''),
     (POST, ''/api/admins/{id}/role'', ''setAdminRole''),
     (POST, ''/api/releases'', ''uploadRelease'')]"

definition provider_routes :: "route list" where
  "provider_routes = map (\<lambda>(m, s, h). route Provider m s h) [
     (GET, ''/api/provider/tenants'', ''listProviderTenants''),
     (POST, ''/api/provider/tenants'', ''createProviderTenant''),
     (PATCH, ''/api/provider/tenants/{id}'', ''updateProviderTenant'')]"

definition routes :: "route list" where
  "routes = public_routes @ read_routes @ admin_routes @ owner_routes @ provider_routes"

section \<open>Matching\<close>

fun match_segments :: "segment list \<Rightarrow> string list \<Rightarrow> (string \<times> string) list option" where
  "match_segments [] [] = Some []"
| "match_segments (Lit l # ps) (x # xs) = (if l = x then match_segments ps xs else None)"
| "match_segments (Param n # ps) (x # xs) = (if x = [] then None else map_option ((#) (n, x)) (match_segments ps xs))"
| "match_segments _ _ = None"

definition matching :: "route list \<Rightarrow> string list \<Rightarrow> route list" where
  "matching rs path = filter (\<lambda>r. match_segments (rt_pattern r) path \<noteq> None) rs"

text \<open>Two patterns some path matches both of.\<close>

fun overlap :: "segment list \<Rightarrow> segment list \<Rightarrow> bool" where
  "overlap [] [] = True"
| "overlap (Lit a # ps) (Lit b # qs) = (if a = b then overlap ps qs else False)"
| "overlap (Lit a # ps) (Param _ # qs) = overlap ps qs"
| "overlap (Param _ # ps) (_ # qs) = overlap ps qs"
| "overlap _ _ = False"

section \<open>The way to a handler\<close>

record console_req =
  cr_method :: http_method
  cr_path :: "string list"
  cr_http :: http_req

text \<open>What the router does with a request: an answer of its own, or a handler with the parameters of the path and the caller.\<close>

datatype outcome = Answer response | Call string "(string \<times> string) list" "principal option"

definition requireRuntime :: "bool \<Rightarrow> response option" where
  "requireRuntime up = (if up then None else Some (writeErr 503 ''not initialized''))"

definition gate_of :: "access \<Rightarrow> principal \<Rightarrow> response + principal" where
  "gate_of a p = (case a of NeedsRole r \<Rightarrow> requireRole r p | Provider \<Rightarrow> requireProvider p | _ \<Rightarrow> Inr p)"

definition needs_session :: "access \<Rightarrow> bool" where
  "needs_session a \<longleftrightarrow> a \<noteq> Public \<and> a \<noteq> Started"

definition enter_route :: "auth_env \<Rightarrow> bool \<Rightarrow> route \<Rightarrow> (string \<times> string) list \<Rightarrow> http_req \<Rightarrow> db \<Rightarrow> outcome \<times> db" where
  "enter_route env up r ps req d =
     (case (if rt_access r = Public then None else requireRuntime up) of
        Some a \<Rightarrow> (Answer a, d)
      | None \<Rightarrow>
          if \<not> needs_session (rt_access r) then (Call (rt_handler r) ps None, d)
          else (case withSession env (rt_access r \<noteq> LoggedIn) req d of
              (Inl a, d1) \<Rightarrow> (Answer a, d1)
            | (Inr p, d1) \<Rightarrow> (case gate_of (rt_access r) p of
                Inl a \<Rightarrow> (Answer a, d1)
              | Inr q \<Rightarrow> (Call (rt_handler r) ps (Some q), d1))))"

definition Handler :: "auth_env \<Rightarrow> bool \<Rightarrow> console_req \<Rightarrow> db \<Rightarrow> outcome \<times> db" where
  "Handler env up req d = (case find (\<lambda>r. rt_method r = cr_method req) (matching routes (cr_path req)) of
       Some r \<Rightarrow> enter_route env up r (the (match_segments (rt_pattern r) (cr_path req))) ((cr_http req)\<lparr>hr_get := (cr_method req = GET)\<rparr>) d
     | None \<Rightarrow> (Answer (if matching routes (cr_path req) = [] then \<lparr>rsp_code = 404, rsp_body = TextBody ''404 page not found''\<rparr>
         else \<lparr>rsp_code = 405, rsp_body = NoBody\<rparr>), d))"

section \<open>One route per request\<close>

lemma match_overlap: "match_segments ps xs \<noteq> None \<Longrightarrow> match_segments qs xs \<noteq> None \<Longrightarrow> overlap ps qs"
proof (induction xs arbitrary: ps qs)
  case Nil
  then show ?case by (cases ps; cases qs) auto
next
  case (Cons x xs)
  from Cons.prems obtain p ps' q qs' where "ps = p # ps'" "qs = q # qs'" by (cases ps; cases qs) auto
  with Cons show ?case by (cases p; cases q) (auto split: if_splits)
qed

fun clash_free :: "segment list list \<Rightarrow> bool" where
  "clash_free [] = True"
| "clash_free (p # ps) = (if list_ex (overlap p) ps then False else clash_free ps)"

definition patterns_of :: "http_method \<Rightarrow> segment list list" where
  "patterns_of m = map rt_pattern (filter (\<lambda>r. rt_method r = m) routes)"

lemma clash_free_routes: "clash_free (patterns_of m)"
proof (cases m)
  case GET
  have "clash_free (patterns_of GET)" by code_simp
  with GET show ?thesis by simp
next
  case POST
  have "clash_free (patterns_of POST)" by code_simp
  with POST show ?thesis by simp
next
  case PATCH
  have "clash_free (patterns_of PATCH)" by code_simp
  with PATCH show ?thesis by simp
next
  case PUT
  have "clash_free (patterns_of PUT)" by code_simp
  with PUT show ?thesis by simp
next
  case DELETE
  have "clash_free (patterns_of DELETE)" by code_simp
  with DELETE show ?thesis by simp
qed

lemma clash_free_matches: "clash_free ps \<Longrightarrow> length (filter (\<lambda>p. match_segments p path \<noteq> None) ps) \<le> 1"
proof (induction ps)
  case (Cons p ps)
  then have rest: "\<not> list_ex (overlap p) ps" "clash_free ps" by (auto split: if_splits)
  show ?case
  proof (cases "match_segments p path = None")
    case False
    have "match_segments q path = None" if "q \<in> set ps" for q
      using that rest(1) match_overlap [OF False, of q] by (cases "match_segments q path") (auto simp: list_ex_iff)
    then show ?thesis by (simp add: filter_empty_conv)
  qed (use Cons.IH rest(2) in simp)
qed simp

lemma routes_unambiguous: "length (filter (\<lambda>r. rt_method r = m) (matching routes path)) \<le> 1"
proof -
  have "filter (\<lambda>r. rt_method r = m) (matching routes path) =
      filter (\<lambda>r. match_segments (rt_pattern r) path \<noteq> None) (filter (\<lambda>r. rt_method r = m) routes)"
    by (auto simp: matching_def intro: filter_cong)
  then show ?thesis
    using clash_free_matches [OF clash_free_routes [of m], of path] by (simp add: patterns_of_def filter_map comp_def)
qed

section \<open>Who reaches what\<close>

definition reading :: "string \<Rightarrow> bool" where
  "reading h \<longleftrightarrow> HasPrefix h ''list'' \<or> HasPrefix h ''get'' \<or> HasPrefix h ''count'' \<or> HasPrefix h ''export'' \<or> HasPrefix h ''download'' \<or>
     h \<in> set [''me'', ''health'', ''ready'', ''setupStatus'', ''notificationStatus'']"

definition open_handlers :: "string list" where
  "open_handlers = [''health'', ''ready'', ''setupStatus'', ''setup'', ''downloadRelease'', ''downloadLegacyRelease'', ''login'']"

definition sign_in_handlers :: "string list" where
  "sign_in_handlers = [''logout'', ''mfaSetup'', ''mfaVerify'']"

definition owner_handlers :: "string list" where
  "owner_handlers = [''listAdmins'', ''createAdmin'', ''disableAdmin'', ''enableAdmin'', ''setAdminRole'', ''uploadRelease'']"

definition provider_handlers :: "string list" where
  "provider_handlers = [''listProviderTenants'', ''createProviderTenant'', ''updateProviderTenant'']"

text \<open>What the table says of a route, checked entry by entry.\<close>

definition route_ok :: "route \<Rightarrow> bool" where
  "route_ok r \<longleftrightarrow>
     (\<not> needs_session (rt_access r) \<longrightarrow> rt_handler r \<in> set open_handlers) \<and>
     (rt_access r = LoggedIn \<longrightarrow> rt_handler r \<in> set sign_in_handlers) \<and>
     (rt_access r = Verified \<longrightarrow> rt_method r = GET) \<and>
     (rt_method r = GET \<longrightarrow> reading (rt_handler r)) \<and>
     (rt_method r \<noteq> GET \<longrightarrow> \<not> reading (rt_handler r)) \<and>
     (rt_handler r \<in> set owner_handlers \<longrightarrow> rt_access r = NeedsRole ''owner'') \<and>
     (rt_handler r \<in> set provider_handlers \<longrightarrow> rt_access r = Provider) \<and>
     (case rt_access r of NeedsRole x \<Rightarrow> x = ''admin'' \<or> x = ''owner'' | _ \<Rightarrow> True)"

lemma routes_ok: "list_all route_ok routes"
  by code_simp

lemma find_in: "find P xs = Some x \<Longrightarrow> x \<in> set xs \<and> P x"
  by (auto simp: find_Some_iff)

lemma Handler_call:
  assumes "Handler env up req d = (Call h ps caller, d')"
  obtains r where "r \<in> set routes" "rt_method r = cr_method req" "rt_handler r = h" "match_segments (rt_pattern r) (cr_path req) = Some ps"
    "enter_route env up r ps ((cr_http req)\<lparr>hr_get := (cr_method req = GET)\<rparr>) d = (Call h ps caller, d')"
proof -
  from assms obtain r where f: "find (\<lambda>r. rt_method r = cr_method req) (matching routes (cr_path req)) = Some r"
    by (auto simp: Handler_def split: option.splits)
  then have r: "r \<in> set routes" "rt_method r = cr_method req" "match_segments (rt_pattern r) (cr_path req) \<noteq> None"
    using find_in [OF f] by (auto simp: matching_def)
  then obtain qs where qs: "match_segments (rt_pattern r) (cr_path req) = Some qs" by auto
  have e: "enter_route env up r qs ((cr_http req)\<lparr>hr_get := (cr_method req = GET)\<rparr>) d = (Call h ps caller, d')"
    using assms f qs by (simp add: Handler_def)
  then have "rt_handler r = h" "qs = ps"
    by (auto simp: enter_route_def split: option.splits if_splits prod.splits sum.splits)
  with r qs e show thesis by (intro that [of r]) simp_all
qed

lemma enter_route_call:
  assumes "enter_route env up r ps req d = (Call h qs caller, d')"
  shows "(\<exists>fs. d' = d\<lparr>faults := fs\<rparr>) \<and> (caller = None \<longleftrightarrow> \<not> needs_session (rt_access r)) \<and> (rt_access r \<noteq> Public \<longrightarrow> up) \<and>
    (\<forall>p. caller = Some p \<longrightarrow> authentic env req d p \<and> (rt_access r \<noteq> LoggedIn \<longrightarrow> se_mfa_passed (pr_session p)) \<and>
      (\<forall>role. rt_access r = NeedsRole role \<longrightarrow> Allows (ad_role (pr_admin p)) role) \<and> (rt_access r = Provider \<longrightarrow> ad_provider (pr_admin p)))"
proof (cases "needs_session (rt_access r)")
  case False
  then have c: "caller = None" "d' = d" "rt_access r \<noteq> Public \<longrightarrow> up"
    using assms by (auto simp: enter_route_def requireRuntime_def split: if_splits)
  have "\<exists>fs. d = d\<lparr>faults := fs\<rparr>" by (rule exI [of _ "faults d"]) simp
  with c False show ?thesis by simp
next
  case True
  then have pub: "rt_access r \<noteq> Public" by (simp add: needs_session_def)
  with assms have up: "up" by (auto simp: enter_route_def requireRuntime_def split: if_splits)
  show ?thesis
  proof (cases env "rt_access r \<noteq> LoggedIn" req d rule: withSession_cases)
    case (rejected a fs)
    then show ?thesis using assms True pub up by (simp add: enter_route_def requireRuntime_def)
  next
    case (accepted p fs)
    then have "(case gate_of (rt_access r) p of Inl a \<Rightarrow> (Answer a, d\<lparr>faults := fs\<rparr>) | Inr q \<Rightarrow> (Call (rt_handler r) ps (Some q), d\<lparr>faults := fs\<rparr>)) =
        (Call h qs caller, d')"
      using assms True pub up by (simp add: enter_route_def requireRuntime_def)
    then have g: "gate_of (rt_access r) p = Inr p" "caller = Some p" "d' = d\<lparr>faults := fs\<rparr>"
      by (cases "rt_access r"; auto simp: gate_of_def requireRole_def requireProvider_def split: sum.splits if_splits)+
    have "\<forall>role. rt_access r = NeedsRole role \<longrightarrow> Allows (ad_role (pr_admin p)) role" "rt_access r = Provider \<longrightarrow> ad_provider (pr_admin p)"
      using g(1) by (auto simp: gate_of_def requireRole_def requireProvider_def split: if_splits)
    then show ?thesis using g(2,3) accepted(2,3) True up by blast
  qed
qed

text \<open>
  C35: What a request can reach. Whatever the connections do, no table changes on the way to a handler. Without a session only the
  health checks, the first-time setup, the release downloads and the login are reached. Everything else runs for a caller whose session, account
  and tenant are in order, who has passed the second factor unless he is only signing in or out, and, for
  anything but GET, who sent the session's own token. GET reaches reading handlers only. A handler that changes
  something runs for an administrator or a provider, administrator management and uploads only for an owner, tenant
  management only for a provider.
\<close>

theorem routing_safe:
  assumes "Handler env up req d = (Call h ps caller, d')"
  shows "(\<exists>fs. d' = d\<lparr>faults := fs\<rparr>) \<and> (cr_method req = GET \<longleftrightarrow> reading h) \<and> (caller = None \<longrightarrow> h \<in> set open_handlers) \<and>
    (\<forall>p. caller = Some p \<longrightarrow> up \<and> authentic env ((cr_http req)\<lparr>hr_get := (cr_method req = GET)\<rparr>) d p \<and>
      (h \<notin> set sign_in_handlers \<longrightarrow> se_mfa_passed (pr_session p)) \<and>
      (\<not> reading h \<and> h \<notin> set sign_in_handlers \<longrightarrow> Allows (ad_role (pr_admin p)) ''admin'' \<or> ad_provider (pr_admin p)) \<and>
      (h \<in> set owner_handlers \<longrightarrow> ad_role (pr_admin p) = ''owner'') \<and> (h \<in> set provider_handlers \<longrightarrow> ad_provider (pr_admin p)))"
  using assms
proof (rule Handler_call)
  let ?req = "(cr_http req)\<lparr>hr_get := (cr_method req = GET)\<rparr>"
  fix r assume r: "r \<in> set routes" "rt_method r = cr_method req" "rt_handler r = h" and e: "enter_route env up r ps ?req d = (Call h ps caller, d')"
  have ok: "route_ok r" using r(1) routes_ok by (simp add: list_all_iff)
  note E = enter_route_call [OF e]
  have "\<exists>fs. d' = d\<lparr>faults := fs\<rparr>" using E by blast
  moreover have "cr_method req = GET \<longleftrightarrow> reading h" using ok r by (auto simp: route_ok_def)
  moreover have "caller = None \<longrightarrow> h \<in> set open_handlers" using ok r(3) E by (auto simp: route_ok_def)
  moreover have "up \<and> authentic env ?req d p \<and> (h \<notin> set sign_in_handlers \<longrightarrow> se_mfa_passed (pr_session p)) \<and>
      (\<not> reading h \<and> h \<notin> set sign_in_handlers \<longrightarrow> Allows (ad_role (pr_admin p)) ''admin'' \<or> ad_provider (pr_admin p)) \<and>
      (h \<in> set owner_handlers \<longrightarrow> ad_role (pr_admin p) = ''owner'') \<and> (h \<in> set provider_handlers \<longrightarrow> ad_provider (pr_admin p))"
    if p: "caller = Some p" for p
  proof -
    have a: "needs_session (rt_access r)" "authentic env ?req d p" "rt_access r \<noteq> LoggedIn \<longrightarrow> se_mfa_passed (pr_session p)"
      "\<forall>role. rt_access r = NeedsRole role \<longrightarrow> Allows (ad_role (pr_admin p)) role" "rt_access r = Provider \<longrightarrow> ad_provider (pr_admin p)"
      using E p by auto
    then have "up" using E by (auto simp: needs_session_def)
    moreover have "Allows x ''owner'' \<Longrightarrow> Allows x ''admin''" for x by (auto simp: Allows_def roleRank_def split: if_splits)
    ultimately show ?thesis
      using a ok r by (cases "rt_access r") (auto simp: route_ok_def needs_session_def Allows_owner)
  qed
  ultimately show ?thesis by blast
qed

definition demo_post :: console_req where
  "demo_post = \<lparr>cr_method = POST, cr_path = [''api'', ''admins'', ''4'', ''disable''], cr_http = demo_request ''s3''\<rparr>"

lemma demo_matching:
  "find (\<lambda>r. rt_method r = POST) (matching routes [''api'', ''admins'', ''4'', ''disable'']) =
     Some (route (NeedsRole ''owner'') POST ''/api/admins/{id}/disable'' ''disableAdmin'')"
  "match_segments (pattern ''/api/admins/{id}/disable'') [''api'', ''admins'', ''4'', ''disable''] = Some [(''id'', ''4'')]"
  by code_simp+

lemma demo_reaches:
  "Handler demo_auth True demo_post two_owners =
     (Call ''disableAdmin'' [(''id'', ''4'')] (Some (demo_principal 3 ''a@x'' ''s3'')), two_owners)"
proof -
  have "withSession demo_auth True (demo_request ''s3'') two_owners = (Inr (demo_principal 3 ''a@x'' ''s3''), two_owners)"
    by (simp add: session_defs demo_auth_defs)
  moreover have "(demo_request ''s3'')\<lparr>hr_get := False\<rparr> = demo_request ''s3''" by (simp add: demo_request_def)
  moreover have "requireRole ''owner'' (demo_principal 3 ''a@x'' ''s3'') = Inr (demo_principal 3 ''a@x'' ''s3'')"
    by (simp add: requireRole_def Allows_owner demo_principal_def demo_owner_def)
  ultimately show ?thesis
    by (simp add: Handler_def demo_post_def demo_matching enter_route_def route_def requireRuntime_def needs_session_def gate_of_def)
qed

theorem routing_safe_witness:
  "\<not> reading ''disableAdmin'' \<and> authentic demo_auth (demo_request ''s3'') two_owners (demo_principal 3 ''a@x'' ''s3'') \<and>
     ad_role (pr_admin (demo_principal 3 ''a@x'' ''s3'')) = ''owner''"
proof -
  have "(demo_request ''s3'')\<lparr>hr_get := False\<rparr> = demo_request ''s3''" by (simp add: demo_request_def)
  moreover have "''disableAdmin'' \<in> set owner_handlers" by (simp add: owner_handlers_def)
  ultimately show ?thesis using routing_safe [OF demo_reaches] by (simp add: demo_post_def)
qed

end
