(* ===== verification/Console.thy ===== *)
theory Console
  imports Updates Channels Exports Routes Alerting Tenancy Enrollment
begin

text \<open>
  The console's reading handlers (\<^verbatim>\<open>httpapi/devices.go\<close>, \<^verbatim>\<open>policies.go\<close>, \<^verbatim>\<open>approvals.go\<close>, \<^verbatim>\<open>tokens.go\<close>, \<^verbatim>\<open>rollouts.go\<close>,
  \<^verbatim>\<open>authn.go\<close>, \<^verbatim>\<open>health.go\<close>) with the documents they answer.

  The theorems show that what a tenant reads depends on its own rows only, and that the uninstall
  code of a device is shown to administrators of its tenant only.

  The hub, the clock, the text of a UUID and the tenants' uninstall codes are the \<open>viewer\<close>.
\<close>

record viewer =
  vw_hub :: "signed_command hub"
  vw_now :: time
  vw_text :: "uuid \<Rightarrow> string"
  vw_codes :: "uuid \<Rightarrow> (uuid \<Rightarrow> string) res"
  vw_running :: bool

section \<open>Devices\<close>

definition toDeviceJSON :: "viewer \<Rightarrow> device_row \<Rightarrow> json" where
  "toDeviceJSON V v = JObj [(''id'', JId (dv_id v)), (''hostname'', JStr (dv_hostname v)), (''status'', JStr (Status v (vw_now V))),
     (''connected'', JBool (Connected (dv_id v) (vw_hub V))), (''group_id'', JOpt JId (dv_group v)), (''os_build'', JStr (dv_os_build v)),
     (''agent_version'', JStr (dv_agent_version v)), (''ip_addresses'', JArr (map JStr (dv_ips v))), (''logged_on_user'', JStr (dv_user v)),
     (''uptime_seconds'', JInt (dv_uptime v)), (''last_seen_at'', JOpt JTime (dv_last_seen v)), (''cert_expires_at'', JTime (dv_cert_expires_at v)),
     (''enrolled_at'', JTime (dv_enrolled_at v)), (''asr_available'', JOpt JBool (dv_asr_available v))]"

definition device_wanted :: "viewer \<Rightarrow> string \<Rightarrow> string \<Rightarrow> device_row \<Rightarrow> bool" where
  "device_wanted V wantStatus wantGroup v \<longleftrightarrow> (wantStatus = [] \<or> Status v (vw_now V) = wantStatus) \<and>
     (wantGroup = [] \<or> (case dv_group v of None \<Rightarrow> False | Some g \<Rightarrow> vw_text V g = wantGroup))"

definition listDevices :: "viewer \<Rightarrow> string \<Rightarrow> string \<Rightarrow> principal \<Rightarrow> db \<Rightarrow> response \<times> db" where
  "listDevices V wantStatus wantGroup p d =
     respond (\<lambda>vs. JArr (map (toDeviceJSON V) (filter (device_wanted V wantStatus wantGroup) vs))) (ListDevices (pr_tenant p) d)"

definition uninstall_member :: "viewer \<Rightarrow> principal \<Rightarrow> uuid \<Rightarrow> (string \<times> json) list" where
  "uninstall_member V p i =
     (if Allows (ad_role (pr_admin p)) ''admin''
      then (case vw_codes V (pr_tenant p) of Inr code \<Rightarrow> [(''uninstall_code'', JStr (code i))] | Inl _ \<Rightarrow> []) else [])"

definition getDevice :: "viewer \<Rightarrow> uuid \<Rightarrow> principal \<Rightarrow> db \<Rightarrow> response \<times> db" where
  "getDevice V i p d = respond (\<lambda>v. JObj ((''device'', toDeviceJSON V v) # uninstall_member V p i)) (GetDevice (pr_tenant p) i d)"

definition commandJSON :: "command_row \<Rightarrow> json" where
  "commandJSON c = JObj [(''id'', JId (cm_id c)), (''type'', JStr (cm_type c)), (''state'', JStr (command_state_text (cm_state c))),
     (''result'', JStr (cm_result c)), (''issued_at'', JTime (cm_issued_at c)), (''expires_at'', JTime (cm_expires_at c)),
     (''completed_at'', JOpt JTime (cm_completed_at c))]"

definition listDeviceCommands :: "uuid \<Rightarrow> int option \<Rightarrow> principal \<Rightarrow> db \<Rightarrow> response \<times> db" where
  "listDeviceCommands i limit p d =
     respond (\<lambda>cs. JArr (map commandJSON cs)) (ListDeviceCommands (pr_tenant p) i (nat (queryInt limit 50 500)) d)"

section \<open>Policies, observations, approvals, groups\<close>

definition policyJSON :: "policy_row \<Rightarrow> json" where
  "policyJSON q = JObj [(''id'', JId (po_id q)), (''name'', JStr (po_name q)), (''mode'', JStr (po_mode q)), (''created_at'', JTime (po_created_at q))]"

definition listPolicies :: "principal \<Rightarrow> db \<Rightarrow> response \<times> db" where
  "listPolicies p d = respond (\<lambda>ps. JArr (map policyJSON ps)) (ListPolicies (pr_tenant p) d)"

definition ruleJSON :: "rule_row \<Rightarrow> json" where
  "ruleJSON r = JObj [(''id'', JId (ru_id r)), (''kind'', JStr (ru_kind r)), (''value'', JStr (ru_value r)),
     (''publisher_name'', JStr (ru_publisher r)), (''description'', JStr (ru_description r))]"

text \<open>A failed query for the rules or the version is answered as if there were none.\<close>

definition getPolicy :: "uuid \<Rightarrow> principal \<Rightarrow> db \<Rightarrow> response \<times> db" where
  "getPolicy i p d = (case GetPolicy (pr_tenant p) i d of
       (Inl e, d1) \<Rightarrow> (storeErr e, d1)
     | (Inr pol, d1) \<Rightarrow>
         let (rs, d2) = ListRules (pr_tenant p) i d1;
             (v, d3) = LatestPolicyVersion (pr_tenant p) i d2
         in (writeJSON 200 (JObj [(''policy'', policyJSON pol),
               (''rules'', JArr (map ruleJSON (case rs of Inl _ \<Rightarrow> [] | Inr xs \<Rightarrow> xs))),
               (''version'', JStr (case v of Inl _ \<Rightarrow> [] | Inr x \<Rightarrow> pv_version x))]), d3))"

definition observationJSON :: "observation_row \<Rightarrow> json" where
  "observationJSON x = JObj [(''sha256'', JStr (ob_sha256 x)), (''path'', JStr (ob_path x)), (''signer'', JStr (ob_signer x)),
     (''signer_tbs'', JStr (ob_signer_tbs x)), (''signer_verified'', JBool (ob_signer_verified x)), (''count'', JInt (ob_count x)),
     (''first_seen'', JTime (ob_first_seen x)), (''last_seen'', JTime (ob_last_seen x)),
     (''downloaded'', JOpt JBool (ob_downloaded x)), (''download_source'', JStr (ob_download_source x))]"

definition listObservations :: "uuid \<Rightarrow> int option \<Rightarrow> principal \<Rightarrow> db \<Rightarrow> response \<times> db" where
  "listObservations i limit p d =
     respond (\<lambda>xs. JArr (map observationJSON xs)) (ListObservations (pr_tenant p) i (queryInt limit 200 1000) d)"

definition approval_status_text :: "approval_status \<Rightarrow> string" where
  "approval_status_text s = (case s of APending \<Rightarrow> ''pending'' | AApproved \<Rightarrow> ''approved'' | ADenied \<Rightarrow> ''denied'' | AExpired \<Rightarrow> ''expired'')"

definition parse_status :: "string \<Rightarrow> approval_status option option" where
  "parse_status s = map_of [('''', None), (''pending'', Some APending), (''approved'', Some AApproved), (''denied'', Some ADenied), (''expired'', Some AExpired)] s"

definition approvalJSON :: "approval_row \<times> string \<Rightarrow> json" where
  "approvalJSON x = (let (r, name) = x in JObj [(''id'', JId (ar_id r)), (''policy_id'', JId (ar_policy r)), (''policy_name'', JStr name),
     (''sha256'', JStr (ar_sha256 r)), (''path'', JStr (ar_path r)), (''signer'', JStr (ar_signer r)), (''signer_tbs'', JStr (ar_signer_tbs r)),
     (''signer_verified'', JBool (ar_signer_verified r)), (''status'', JStr (approval_status_text (ar_status r))),
     (''device_count'', JInt (ar_device_count r)), (''event_count'', JInt (ar_event_count r)),
     (''first_seen'', JTime (ar_first_seen r)), (''last_seen'', JTime (ar_last_seen r)), (''decided_at'', JOpt JTime (ar_decided_at r))])"

definition listApprovals :: "string \<Rightarrow> int option \<Rightarrow> principal \<Rightarrow> db \<Rightarrow> response \<times> db" where
  "listApprovals status limit p d = (case parse_status status of
       None \<Rightarrow> (writeErr 400 ''status must be pending, approved, denied, or expired'', d)
     | Some st \<Rightarrow> respond (\<lambda>xs. JArr (map approvalJSON xs)) (ListApprovalRequests (pr_tenant p) st (queryInt limit 200 1000) d))"

definition countApprovals :: "principal \<Rightarrow> db \<Rightarrow> response \<times> db" where
  "countApprovals p d = respond (\<lambda>n. JObj [(''pending'', JInt (int n))]) (CountPendingApprovals (pr_tenant p) d)"

definition listGroups :: "principal \<Rightarrow> db \<Rightarrow> response \<times> db" where
  "listGroups p d = respond (\<lambda>gs. JArr (map (\<lambda>g. JObj [(''id'', JId (gr_id g)), (''name'', JStr (gr_name g))]) gs)) (ListDeviceGroups (pr_tenant p) d)"

section \<open>Rollouts\<close>

definition summaryJSON :: "rollout_summary \<Rightarrow> json" where
  "summaryJSON s = JObj [(''targeted'', JInt (su_targeted s)), (''already_current'', JInt (su_current s)), (''issued'', JInt (su_issued s)),
     (''updated'', JInt (su_updated s)), (''failed'', JInt (su_failed s)), (''remaining'', JInt (su_remaining s))]"

definition actor_text :: "viewer \<Rightarrow> label \<Rightarrow> string" where
  "actor_text V l = (case l of Txt s \<Rightarrow> s | IdTxt pre i \<Rightarrow> pre @ vw_text V i)"

definition toRolloutJSON :: "viewer \<Rightarrow> rollout_row \<Rightarrow> rollout_summary \<Rightarrow> (string \<times> json) list" where
  "toRolloutJSON V r s = [(''id'', JId (ro_id r)), (''version'', JStr (ro_version r)), (''group_ids'', JArr (map JId (ro_groups r))),
     (''batch_size'', JInt (ro_batch_size r)), (''max_failures'', JInt (ro_max_failures r)), (''state'', JStr (rollout_state_text (ro_state r))),
     (''created_by'', JStr (actor_text V (ro_created_by r))), (''created_at'', JTime (ro_created_at r)), (''updated_at'', JTime (ro_updated_at r)),
     (''finished_at'', JOpt JTime (ro_finished_at r)), (''summary'', summaryJSON s)]"

definition progress_text :: "progress_state \<Rightarrow> string" where
  "progress_text s = (case s of PIssued \<Rightarrow> ''issued'' | PUpdated \<Rightarrow> ''updated'' | PFailed \<Rightarrow> ''failed'')"

definition rolloutDeviceJSON :: "rollout_device_row \<times> string \<Rightarrow> json" where
  "rolloutDeviceJSON x = (let (r, hostname) = x in JObj [(''device_id'', JId (rd_device r)), (''hostname'', JStr hostname), (''command_id'', JId (rd_command r)),
     (''state'', JStr (progress_text (rd_state r))), (''detail'', JStr (rd_detail r)), (''issued_at'', JTime (rd_issued_at r)),
     (''resolved_at'', JOpt JTime (rd_resolved_at r))])"

text \<open>A rollout the summaries have no entry for gets the empty one, as a missing key of the map does.\<close>

definition no_summary :: rollout_summary where
  "no_summary = \<lparr>su_targeted = 0, su_current = 0, su_issued = 0, su_updated = 0, su_failed = 0, su_remaining = 0\<rparr>"

definition rollouts_document :: "viewer \<Rightarrow> (rollout_row \<times> rollout_summary option) list \<Rightarrow> json" where
  "rollouts_document V rs = JArr (map (\<lambda>(r, s). JObj (toRolloutJSON V r (case s of Some x \<Rightarrow> x | None \<Rightarrow> no_summary))) rs)"

definition rollout_document :: "viewer \<Rightarrow> rollout_row \<times> rollout_summary \<times> (rollout_device_row \<times> string) list \<Rightarrow> json" where
  "rollout_document V x = (let (r, s, ds) = x in JObj (toRolloutJSON V r s @ [(''devices'', JArr (map rolloutDeviceJSON ds))]))"

section \<open>The caller and the server\<close>

definition me :: "principal \<Rightarrow> response" where
  "me p = writeJSON 200 (JObj [(''id'', JId (ad_id (pr_admin p))), (''email'', JStr (ad_email (pr_admin p))), (''role'', JStr (ad_role (pr_admin p))),
     (''provider'', JBool (ad_provider (pr_admin p)))])"

definition health :: response where
  "health = writeJSON 200 (JObj [(''status'', JStr ''ok'')])"

definition Ping :: "db \<Rightarrow> unit res \<times> db" where
  "Ping = pool (\<lambda>d. (Inr (), d))"

definition ready :: "viewer \<Rightarrow> db \<Rightarrow> response \<times> db" where
  "ready V d = (case Ping d of
       (Inl _, d1) \<Rightarrow> (writeJSON 503 (JObj [(''status'', JStr ''unavailable''), (''database'', JBool False)]), d1)
     | (Inr _, d1) \<Rightarrow> (writeJSON 200 (JObj [(''status'', JStr ''ok''), (''database'', JBool True), (''initialized'', JBool (vw_running V))]), d1))"

definition setupStatus :: "viewer \<Rightarrow> response" where
  "setupStatus V = writeJSON 200 (JObj [(''initialized'', JBool (vw_running V))])"

section \<open>Reads depend on the tenant's own rows\<close>

text \<open>
  What a tenant's console can tell apart: its own rows of the tables the handlers read, the names
  of the policies its approval requests are about, and the connections that will fail.
\<close>

definition own :: "('r \<Rightarrow> uuid) \<Rightarrow> uuid \<Rightarrow> 'r list \<Rightarrow> 'r list" where
  "own k t rs = filter (\<lambda>r. k r = t) rs"

definition same_view :: "uuid \<Rightarrow> db \<Rightarrow> db \<Rightarrow> bool" where
  "same_view t d d' \<longleftrightarrow> faults d = faults d' \<and>
     own dv_tenant t (devices d) = own dv_tenant t (devices d') \<and> own gr_tenant t (device_groups d) = own gr_tenant t (device_groups d') \<and>
     own cm_tenant t (commands d) = own cm_tenant t (commands d') \<and> own po_tenant t (policies d) = own po_tenant t (policies d') \<and>
     own ru_tenant t (policy_rules d) = own ru_tenant t (policy_rules d') \<and> own pv_tenant t (policy_versions d) = own pv_tenant t (policy_versions d') \<and>
     own ob_tenant t (observations d) = own ob_tenant t (observations d') \<and>
     map (\<lambda>r. (r, with_policy d r)) (own ar_tenant t (approval_requests d)) = map (\<lambda>r. (r, with_policy d' r)) (own ar_tenant t (approval_requests d')) \<and>
     own rl_tenant t (agent_releases d) = own rl_tenant t (agent_releases d') \<and> own au_tenant t (audit_log d) = own au_tenant t (audit_log d') \<and>
     own ch_tenant t (notification_channels d) = own ch_tenant t (notification_channels d') \<and>
     own me_tenant t (device_metrics d) = own me_tenant t (device_metrics d') \<and> own al_tenant t (alert_rules d) = own al_tenant t (alert_rules d') \<and>
     own at_tenant t (alerts d) = own at_tenant t (alerts d') \<and> own de_tenant t (device_events d) = own de_tenant t (device_events d')"

inductive_set console_reads :: "principal \<Rightarrow> (db \<Rightarrow> response \<times> db) set" for p where
  "listDevices V status grp p \<in> console_reads p"
| "getDevice V i p \<in> console_reads p"
| "listDeviceCommands i limit p \<in> console_reads p"
| "listPolicies p \<in> console_reads p"
| "getPolicy i p \<in> console_reads p"
| "listObservations i limit p \<in> console_reads p"
| "listApprovals wanted limit p \<in> console_reads p"
| "countApprovals p \<in> console_reads p"
| "listGroups p \<in> console_reads p"
| "listReleases p \<in> console_reads p"
| "listAudit R before limit p \<in> console_reads p"
| "listChannels p \<in> console_reads p"
| "listMetrics p i since limit now \<in> console_reads p"
| "listAlertRules p \<in> console_reads p"
| "listAlerts p limit \<in> console_reads p"
| "listDeviceEvents p kind limit \<in> console_reads p"

definition reads_own :: "uuid \<Rightarrow> (db \<Rightarrow> 'a \<times> db) \<Rightarrow> bool" where
  "reads_own t h \<longleftrightarrow> (\<forall>d d'. same_view t d d' \<longrightarrow> fst (h d) = fst (h d') \<and> same_view t (snd (h d)) (snd (h d')))"

lemma same_view_faults: "same_view t d d' \<Longrightarrow> same_view t (d\<lparr>faults := fs\<rparr>) (d'\<lparr>faults := fs\<rparr>)"
  by (simp add: same_view_def with_policy_def)

lemma reads_own_pool:
  assumes "\<And>d d'. same_view t d d' \<Longrightarrow> f d = f d'"
  shows "reads_own t (pool (\<lambda>d. (f d, d)))"
  unfolding reads_own_def
proof (intro allI impI)
  fix d d' assume s: "same_view t d d'"
  then have fs: "faults d' = faults d" by (simp add: same_view_def)
  show "fst (pool (\<lambda>d. (f d, d)) d) = fst (pool (\<lambda>d. (f d, d)) d') \<and> same_view t (snd (pool (\<lambda>d. (f d, d)) d)) (snd (pool (\<lambda>d. (f d, d)) d'))"
    using s assms [OF s] same_view_faults [OF s] assms [OF same_view_faults [OF s]]
    by (cases "faults d") (simp_all add: pool_def fs Let_def)
qed

lemma reads_own_respond: "reads_own t f \<Longrightarrow> reads_own t (\<lambda>d. respond g (f d))"
  by (auto simp: reads_own_def respond_def)

lemma own_conj: "filter (\<lambda>x. k x = t \<and> P x) xs = filter P (own k t xs)" "filter (\<lambda>x. k x = t) xs = own k t xs"
  "find_row (\<lambda>x. k x = t \<and> P x) xs = find_row P (own k t xs)"
  by (simp add: own_def conj_commute, simp add: own_def, simp only: own_def find_row_filter)

lemmas view_defs = same_view_def own_conj

lemma reads_own_lists [intro]:
  "reads_own t (ListDevices t)" "reads_own t (ListDeviceCommands t i n)" "reads_own t (ListPolicies t)" "reads_own t (ListRules t i)"
  "reads_own t (LatestPolicyVersion t i)" "reads_own t (ListObservations t i m)" "reads_own t (ListDeviceGroups t)" "reads_own t (ListReleases t)"
  "reads_own t (ListChannels t)" "reads_own t (ListMetrics t i since m)" "reads_own t (ListAlertRules t)" "reads_own t (ListAlerts t m)"
  "reads_own t (ListDeviceEvents t kind m)" "reads_own t (ListAudit t n before)" "reads_own t (GetDevice t i)"
  unfolding ListDevices_def ListDeviceCommands_def ListPolicies_def ListRules_def rules_of_def LatestPolicyVersion_def ListObservations_def
    ListDeviceGroups_def ListReleases_def releases_by_age_def ListChannels_def ListMetrics_def ListAlertRules_def ListAlerts_def
    ListDeviceEvents_def ListAudit_def GetDevice_def Let_def
  by (rule reads_own_pool, simp add: view_defs)+

lemma view_requests:
  assumes "same_view t d d'"
  shows "own ar_tenant t (approval_requests d) = own ar_tenant t (approval_requests d')"
proof -
  have "map fst (map (\<lambda>r. (r, with_policy d r)) (own ar_tenant t (approval_requests d))) =
      map fst (map (\<lambda>r. (r, with_policy d' r)) (own ar_tenant t (approval_requests d')))"
    using assms by (simp only: same_view_def)
  then show ?thesis by (simp add: comp_def)
qed

lemma view_named_requests:
  assumes "same_view t d d'"
  shows "concat (map (with_policy d) (filter P (own ar_tenant t (approval_requests d)))) =
    concat (map (with_policy d') (filter P (own ar_tenant t (approval_requests d'))))"
proof -
  have joined: "map (with_policy e) (filter P rs) = map snd (filter (\<lambda>x. P (fst x)) (map (\<lambda>r. (r, with_policy e r)) rs))" for e rs
    by (induction rs) simp_all
  have "map (\<lambda>r. (r, with_policy d r)) (own ar_tenant t (approval_requests d)) = map (\<lambda>r. (r, with_policy d' r)) (own ar_tenant t (approval_requests d'))"
    using assms by (simp only: same_view_def)
  then show ?thesis by (simp only: joined)
qed

lemma reads_own_requests [intro]: "reads_own t (CountPendingApprovals t)" "reads_own t (ListApprovalRequests t st m)"
  unfolding CountPendingApprovals_def ListApprovalRequests_def own_conj
  by (rule reads_own_pool, simp add: view_requests, rule reads_own_pool, simp only: view_named_requests)

lemma reads_own_GetPolicy [intro]: "reads_own t (GetPolicy t i)"
  unfolding GetPolicy_def lookup_def [abs_def] by (rule reads_own_pool) (simp add: view_defs)

lemma reads_own_getPolicy:
  assumes "pr_tenant p = t"
  shows "reads_own t (getPolicy i p)"
  unfolding reads_own_def
proof (intro allI impI)
  fix d d' assume s: "same_view t d d'"
  note step = reads_own_def [THEN iffD1, rule_format]
  obtain r d1 d1' where g: "GetPolicy t i d = (r, d1)" "GetPolicy t i d' = (r, d1')" and s1: "same_view t d1 d1'"
    using step [OF reads_own_GetPolicy s] by (metis prod.collapse)
  obtain rs d2 d2' where l: "ListRules t i d1 = (rs, d2)" "ListRules t i d1' = (rs, d2')" and s2: "same_view t d2 d2'"
    using step [OF reads_own_lists(4) s1] by (metis prod.collapse)
  obtain v d3 d3' where v: "LatestPolicyVersion t i d2 = (v, d3)" "LatestPolicyVersion t i d2' = (v, d3')" and s3: "same_view t d3 d3'"
    using step [OF reads_own_lists(5) s2] by (metis prod.collapse)
  show "fst (getPolicy i p d) = fst (getPolicy i p d') \<and> same_view t (snd (getPolicy i p d)) (snd (getPolicy i p d'))"
    using s1 s3 by (cases r) (simp_all add: getPolicy_def assms g l v)
qed

lemma console_reads_own:
  assumes "h \<in> console_reads p"
  shows "reads_own (pr_tenant p) h"
  using assms
proof cases
  case (7 wanted limit)
  show ?thesis
  proof (cases "parse_status wanted")
    case None
    then have "h = (\<lambda>d. (writeErr 400 ''status must be pending, approved, denied, or expired'', d))"
      using 7 by (simp add: fun_eq_iff listApprovals_def)
    then show ?thesis by (simp add: reads_own_def)
  next
    case (Some st)
    then have "h = (\<lambda>d. respond (\<lambda>xs. JArr (map approvalJSON xs)) (ListApprovalRequests (pr_tenant p) st (queryInt limit 200 1000) d))"
      using 7 by (simp add: fun_eq_iff listApprovals_def)
    then show ?thesis by (auto intro: reads_own_respond)
  qed
qed (auto intro!: reads_own_respond reads_own_getPolicy
    simp: listDevices_def [abs_def] getDevice_def [abs_def] listDeviceCommands_def [abs_def] listPolicies_def [abs_def] listObservations_def [abs_def]
      countApprovals_def [abs_def] listGroups_def [abs_def] listReleases_def [abs_def] listAudit_def [abs_def] listChannels_def [abs_def]
      listMetrics_def [abs_def] listAlertRules_def [abs_def] listAlerts_def [abs_def] listDeviceEvents_def [abs_def] Let_def)


text \<open>
  The uninstall code is for administrators. An account below that role is shown the same document whatever the codes are, and
  a document with a code in it is one about a device of the caller's own tenant.
\<close>

theorem uninstall_code_hidden:
  "(\<not> Allows (ad_role (pr_admin p)) ''admin'' \<longrightarrow> (\<forall>codes. getDevice (V\<lparr>vw_codes := codes\<rparr>) i p d = getDevice V i p d)) \<and>
   (\<forall>members. rsp_body (fst (getDevice V i p d)) = JsonBody (JObj members) \<and> ''uninstall_code'' \<in> fst ` set members \<longrightarrow>
      (\<exists>v \<in> set (devices d). dv_id v = i \<and> dv_tenant v = pr_tenant p) \<and> Allows (ad_role (pr_admin p)) ''admin'')"
proof (intro conjI allI impI)
  assume low: "\<not> Allows (ad_role (pr_admin p)) ''admin''"
  fix codes
  have "toDeviceJSON (V\<lparr>vw_codes := codes\<rparr>) = toDeviceJSON V" by (rule ext) (simp add: toDeviceJSON_def)
  then show "getDevice (V\<lparr>vw_codes := codes\<rparr>) i p d = getDevice V i p d"
    using low by (simp add: getDevice_def uninstall_member_def)
next
  fix members
  assume m: "rsp_body (fst (getDevice V i p d)) = JsonBody (JObj members) \<and> ''uninstall_code'' \<in> fst ` set members"
  obtain r d1 where g: "GetDevice (pr_tenant p) i d = (r, d1)" by fastforce
  with m obtain v where r: "r = Inr v" by (cases r) (auto simp: getDevice_def respond_def storeErr_def writeErr_def split: if_splits)
  with g show "\<exists>v \<in> set (devices d). dv_id v = i \<and> dv_tenant v = pr_tenant p"
    using GetDevice_row [of "pr_tenant p" i d v d1] by auto
  show "Allows (ad_role (pr_admin p)) ''admin''"
  proof (rule ccontr)
    assume "\<not> Allows (ad_role (pr_admin p)) ''admin''"
    with m g r show False by (auto simp: getDevice_def respond_def writeJSON_def uninstall_member_def)
  qed
qed

definition demo_viewer :: viewer where
  "demo_viewer = \<lparr>vw_hub = New, vw_now = 0, vw_text = (\<lambda>i. show_nat i), vw_codes = (\<lambda>_. Inr (\<lambda>_. ''secret'')), vw_running = True\<rparr>"

definition demo_reader :: principal where
  "demo_reader = (demo_principal 3 ''a@x'' ''s3'')\<lparr>pr_admin := (demo_owner 3 ''a@x'')\<lparr>ad_role := ''readonly''\<rparr>\<rparr>"


theorem uninstall_code_hidden_witness:
  "getDevice (demo_viewer\<lparr>vw_codes := (\<lambda>_. Inr (\<lambda>_. ''other''))\<rparr>) 4 demo_reader demo_site = getDevice demo_viewer 4 demo_reader demo_site"
proof -
  have "\<not> Allows (ad_role (pr_admin demo_reader)) ''admin''"
    by (simp add: demo_reader_def Allows_def roleRank_def)
  with uninstall_code_hidden [of demo_reader demo_viewer 4 demo_site] show ?thesis by blast
qed

end
