(* ===== verification/Server.thy ===== *)
theory Server
  imports Identity Console Agent_Session Provenance
begin

text \<open>
  The server as a whole: its configuration (\<^verbatim>\<open>server/config\<close>), the master secret and the sealer
  (\<^verbatim>\<open>server/keys\<close>), first-time setup, activation and the housekeeping of every minute (\<^verbatim>\<open>server/app\<close>,
  \<^verbatim>\<open>httpapi/authn.go\<close> setup), and the agent's side of reconnecting (\<^verbatim>\<open>agent/runner\<close> Run, \<^verbatim>\<open>sim/backoff.go\<close>).

  The theorems show that a release's address leads back to its tenant and version, that the master secret
  survives restarts, that a server is set up at most once, that housekeeping never weakens the log-in
  limiter, and when an agent stops reconnecting.

  Parameters: YAML, the environment, HKDF and AES-GCM, random bytes, the listener.
\<close>

section \<open>Configuration\<close>

text \<open>The mail settings: those the notifications read, and the rest.\<close>

record smtp = smtp_config +
  sm_port :: int
  sm_username :: string
  sm_password :: string
  sm_starttls :: bool

record server_config =
  sc_database_url :: string
  sc_agent_listen :: string
  sc_console_listen :: string
  sc_public_hostnames :: "string list"
  sc_master_secret_file :: string
  sc_tls_cert :: string
  sc_tls_key :: string
  sc_insecure_cookies :: bool
  sc_release_dir :: string
  sc_release_base_url :: string
  sc_acme_domains :: "string list"
  sc_acme_email :: string
  sc_acme_cache_dir :: string
  sc_retention_days :: int
  sc_approval_days :: int
  sc_smtp :: smtp

definition SMTPConfigured :: "server_config \<Rightarrow> bool" where
  "SMTPConfigured c \<longleftrightarrow> Configured (smtp_config.truncate (sc_smtp c))"

definition ConsoleTLSMode :: "server_config \<Rightarrow> string" where
  "ConsoleTLSMode c = (if sc_acme_domains c \<noteq> [] then ''acme'' else if sc_tls_cert c \<noteq> [] then ''file'' else ''plain'')"

definition default_config :: server_config where
  "default_config = \<lparr>sc_database_url = [], sc_agent_listen = '':8443'', sc_console_listen = '':8080'', sc_public_hostnames = [''localhost''],
     sc_master_secret_file = ''master.key'', sc_tls_cert = [], sc_tls_key = [], sc_insecure_cookies = False, sc_release_dir = ''releases'',
     sc_release_base_url = [], sc_acme_domains = [], sc_acme_email = [], sc_acme_cache_dir = ''acme-cache'', sc_retention_days = 30,
     sc_approval_days = 30, sc_smtp = \<lparr>sm_host = [], sm_from = [], sm_port = 587, sm_username = [], sm_password = [], sm_starttls = True\<rparr>\<rparr>"

text \<open>\<^verbatim>\<open>os.Getenv\<close> as a function; an unset variable is empty.\<close>

definition from_env :: "(string \<Rightarrow> string) \<Rightarrow> server_config \<Rightarrow> server_config" where
  "from_env env c = c\<lparr>
     sc_database_url := override (env ''FREELOCKER_DATABASE_URL'') (sc_database_url c),
     sc_agent_listen := override (env ''FREELOCKER_AGENT_LISTEN'') (sc_agent_listen c),
     sc_console_listen := override (env ''FREELOCKER_CONSOLE_LISTEN'') (sc_console_listen c),
     sc_master_secret_file := override (env ''FREELOCKER_MASTER_SECRET_FILE'') (sc_master_secret_file c),
     sc_tls_cert := override (env ''FREELOCKER_CONSOLE_TLS_CERT'') (sc_tls_cert c),
     sc_tls_key := override (env ''FREELOCKER_CONSOLE_TLS_KEY'') (sc_tls_key c),
     sc_release_dir := override (env ''FREELOCKER_RELEASE_DIR'') (sc_release_dir c),
     sc_release_base_url := override (env ''FREELOCKER_RELEASE_BASE_URL'') (sc_release_base_url c),
     sc_acme_email := override (env ''FREELOCKER_ACME_EMAIL'') (sc_acme_email c),
     sc_acme_cache_dir := override (env ''FREELOCKER_ACME_CACHE_DIR'') (sc_acme_cache_dir c),
     sc_acme_domains := (if env ''FREELOCKER_ACME_DOMAINS'' \<noteq> [] then Split (CHR '','') (env ''FREELOCKER_ACME_DOMAINS'') else sc_acme_domains c),
     sc_insecure_cookies := (env ''FREELOCKER_INSECURE_COOKIES'' = ''true'' \<or> sc_insecure_cookies c),
     sc_public_hostnames := (if env ''FREELOCKER_PUBLIC_HOSTNAMES'' \<noteq> [] then Split (CHR '','') (env ''FREELOCKER_PUBLIC_HOSTNAMES'') else sc_public_hostnames c),
     sc_smtp := \<lparr>sm_host = override (env ''FREELOCKER_SMTP_HOST'') (sm_host (sc_smtp c)),
       sm_from = override (env ''FREELOCKER_SMTP_FROM'') (sm_from (sc_smtp c)),
       sm_port = (case Atoi (env ''FREELOCKER_SMTP_PORT'') of Some n \<Rightarrow> n | None \<Rightarrow> sm_port (sc_smtp c)),
       sm_username = override (env ''FREELOCKER_SMTP_USERNAME'') (sm_username (sc_smtp c)),
       sm_password = override (env ''FREELOCKER_SMTP_PASSWORD'') (sm_password (sc_smtp c)),
       sm_starttls = (if env ''FREELOCKER_SMTP_STARTTLS'' \<noteq> [] then env ''FREELOCKER_SMTP_STARTTLS'' = ''true'' else sm_starttls (sc_smtp c))\<rparr>\<rparr>"

text \<open>The file, when a path is given, is decoded over the defaults.\<close>

definition server_Load :: "(server_config \<Rightarrow> bytes \<Rightarrow> server_config res) \<Rightarrow> (string \<Rightarrow> string) \<Rightarrow> string \<Rightarrow> disk \<Rightarrow> server_config res \<times> disk" where
  "server_Load unmarshal env path k =
     (let (base, k1) = (if path = [] then (Inr default_config, k)
        else (case ReadFile path k of
            (None, k1) \<Rightarrow> (Inl (ErrText ''read config''), k1)
          | (Some b, k1) \<Rightarrow> (case unmarshal default_config b of
              Inl e \<Rightarrow> (Inl (ErrText (''parse config: '' @ err_text e)), k1) | Inr c \<Rightarrow> (Inr c, k1))))
      in (case base of
            Inl e \<Rightarrow> Inl e
          | Inr c \<Rightarrow> (let c' = from_env env c in if sc_database_url c' = [] then Inl (ErrText ''database_url is required'') else Inr c'), k1))"

section \<open>Where agents download releases\<close>

text \<open>The port \<^verbatim>\<open>net.SplitHostPort\<close> finds: behind the last colon, the host in brackets when it has colons itself.\<close>

definition split_port :: "string \<Rightarrow> string option" where
  "split_port hp = (let port = rev (takeWhile (\<lambda>c. c \<noteq> CHR '':'') (rev hp)); host = take (length hp - length port - 1) hp in
     if CHR '':'' \<notin> set hp then None
     else if HasPrefix hp ''['' then
       (if host \<noteq> [] \<and> last host = CHR '']'' \<and> CHR '']'' \<notin> set (butlast host) \<and> CHR ''['' \<notin> set (tl hp) \<and> CHR '']'' \<notin> set port then Some port else None)
     else if CHR '':'' \<in> set host \<or> CHR ''['' \<in> set hp \<or> CHR '']'' \<in> set hp then None
     else Some port)"

text \<open>\<^verbatim>\<open>url.PathEscape\<close>, and \<^verbatim>\<open>url.PathUnescape\<close> on its results.\<close>

definition url_path_char :: "char \<Rightarrow> bool" where
  "url_path_char c \<longleftrightarrow> c \<in> set ''abcdefghijklmnopqrstuvwxyzABCDEFGHIJKLMNOPQRSTUVWXYZ0123456789-_.~$&+=:@''"

definition hex_digit :: "nat \<Rightarrow> char" where
  "hex_digit n = ''0123456789ABCDEF'' ! n"

definition escape_char :: "char \<Rightarrow> string" where
  "escape_char c = (if url_path_char c then [c] else [CHR ''%'', hex_digit (byte c div 16), hex_digit (byte c mod 16)])"

definition PathEscape :: "string \<Rightarrow> string" where
  "PathEscape s = concat (map escape_char s)"

definition trim_slashes :: "string \<Rightarrow> string" where
  "trim_slashes s = rev (dropWhile (\<lambda>c. c = SLASH) (rev s))"

definition base_url :: "server_config \<Rightarrow> string" where
  "base_url c = (let base = trim_slashes (sc_release_base_url c) in
     if base \<noteq> [] then base
     else (let host = (case sc_public_hostnames c of h # _ \<Rightarrow> if h \<noteq> [] then h else ''localhost'' | [] \<Rightarrow> ''localhost'');
               scheme = (if ConsoleTLSMode c = ''plain'' then ''http'' else ''https'');
               port = (case split_port (sc_console_listen c) of Some q \<Rightarrow> if q = [] then ''8080'' else q | None \<Rightarrow> ''8080'')
           in scheme @ ''://'' @ host @ '':'' @ port))"

definition ReleaseURL :: "(uuid \<Rightarrow> string) \<Rightarrow> server_config \<Rightarrow> uuid \<Rightarrow> string \<Rightarrow> string" where
  "ReleaseURL id_text c tenantID version = base_url c @ ''/agent/releases/'' @ id_text tenantID @ ''/'' @ PathEscape version"

section \<open>The master secret and the sealer\<close>

definition masterLen :: nat where "masterLen = 32"

datatype secret_read = NoSecret | SecretError | Secret bytes

definition read_secret :: "string \<Rightarrow> disk \<Rightarrow> secret_read \<times> disk" where
  "read_secret path k = (let (r, k1) = next_io k in
     (if r \<noteq> IoOk then SecretError else (case dk_files k1 path of None \<Rightarrow> NoSecret | Some b \<Rightarrow> Secret b), k1))"

text \<open>The random bytes are an argument.\<close>

definition LoadOrCreateMasterSecret :: "bytes res \<Rightarrow> string \<Rightarrow> disk \<Rightarrow> bytes res \<times> disk" where
  "LoadOrCreateMasterSecret rnd path k = (case read_secret path k of
       (Secret b, k1) \<Rightarrow> (if length b < masterLen then Inl (ErrText (''master secret '' @ path @ '' is shorter than 32 bytes'')) else Inr b, k1)
     | (SecretError, k1) \<Rightarrow> (Inl (ErrText ''read''), k1)
     | (NoSecret, k1) \<Rightarrow> (case rnd of
         Inl e \<Rightarrow> (Inl e, k1)
       | Inr b \<Rightarrow> (let (ok, k2) = WriteFile path b k1 in (if ok then Inr b else Inl (ErrText ''write master secret''), k2))))"

text \<open>HKDF and the authenticated cipher: a nonce of fixed length, sealing and opening under a key.\<close>

record aead =
  ae_hkdf :: "bytes \<Rightarrow> string \<Rightarrow> bytes"
  ae_nonce_size :: nat
  ae_encrypt :: "bytes \<Rightarrow> bytes \<Rightarrow> bytes \<Rightarrow> bytes"
  ae_decrypt :: "bytes \<Rightarrow> bytes \<Rightarrow> bytes \<Rightarrow> bytes res"

definition Derive :: "aead \<Rightarrow> bytes \<Rightarrow> string \<Rightarrow> bytes res" where
  "Derive A master purpose = (if length master < masterLen then Inl (ErrText ''master secret must be at least 32 bytes'')
     else Inr (ae_hkdf A master purpose))"

text \<open>A sealer is the key derived for its purpose.\<close>

definition NewSealer :: "aead \<Rightarrow> bytes \<Rightarrow> string \<Rightarrow> bytes res" where
  "NewSealer A master purpose = Derive A master purpose"

definition Seal :: "aead \<Rightarrow> bytes \<Rightarrow> bytes \<Rightarrow> bytes \<Rightarrow> bytes" where
  "Seal A key nonce msg = nonce @ ae_encrypt A key nonce msg"

definition Open_sealed :: "aead \<Rightarrow> bytes \<Rightarrow> bytes \<Rightarrow> bytes res" where
  "Open_sealed A key sealed = (if length sealed < ae_nonce_size A then Inl (ErrText ''sealed value too short'')
     else ae_decrypt A key (take (ae_nonce_size A) sealed) (drop (ae_nonce_size A) sealed))"

section \<open>Setup and activation\<close>

text \<open>
  The state is whether the runtime exists, and the database. Activating rebuilds the
  policies of the given tenant and opens the agent listener; only then does the runtime exist.
\<close>

definition activate :: "'k policy_service \<Rightarrow> bool \<Rightarrow> uuid \<Rightarrow> bool \<times> db \<Rightarrow> unit res \<times> (bool \<times> db)" where
  "activate pol listening tenant s = (let d1 = snd (RecompileAll pol tenant (snd s)) in
     if \<not> listening then (Inl (ErrText ''agent listener''), (fst s, d1)) else (Inr (), (True, d1)))"

record ('ca, 'k) setup_env =
  st_keys :: "'ca key_env"
  st_bcrypt :: "string \<Rightarrow> string res"
  st_policy :: "'k policy_service"
  st_listening :: bool

definition app_setup :: "('ca, 'k) setup_env \<Rightarrow> string \<Rightarrow> string \<Rightarrow> string \<Rightarrow> bool \<times> db \<Rightarrow> unit res \<times> (bool \<times> db)" where
  "app_setup E org email password s = (case app_Initialize (st_keys E) (st_bcrypt E) org email password (snd s) of
       (Inl e, d1) \<Rightarrow> (Inl e, (fst s, d1))
     | (Inr k, d1) \<Rightarrow> activate (st_policy E) (st_listening E) (kt_tenant k) (fst s, d1))"

definition setup_handler :: "('ca, 'k) setup_env \<Rightarrow> string \<Rightarrow> string \<Rightarrow> string \<Rightarrow> bool \<times> db \<Rightarrow> response \<times> (bool \<times> db)" where
  "setup_handler E org email password s =
     (if fst s then (writeErr 409 ''already initialized'', s)
      else if TrimSpace org = [] \<or> \<not> Contains email ''@'' \<or> length password < MinPasswordLen
      then (writeErr 400 ''org_name, a valid email, and a password of at least 12 characters are required'', s)
      else (case app_setup E (TrimSpace org) email password s of
          (Inl e, s1) \<Rightarrow> (if e = ErrAlreadyInitialized then writeErr 409 ''already initialized'' else writeErr 500 ''setup failed'', s1)
        | (Inr _, s1) \<Rightarrow> (writeJSON 201 (JObj [(''initialized'', JBool True)]), s1)))"

section \<open>Housekeeping\<close>

text \<open>The part of the minute's tick that runs with or without a runtime; \<open>days_ago\<close> is the calendar's \<^verbatim>\<open>AddDate\<close>.\<close>

definition housekeeping :: "(int \<Rightarrow> time \<Rightarrow> time) \<Rightarrow> server_config \<Rightarrow> time \<Rightarrow> db \<Rightarrow> db" where
  "housekeeping days_ago c now d =
     (let d1 = snd (PruneLoginFailures (now - 15 * minute) d);
          d2 = (if sc_retention_days c > 0 then snd (Retention (days_ago (sc_retention_days c) now) d1) else d1)
      in if sc_approval_days c > 0 then snd (ExpireApprovalRequests (days_ago (sc_approval_days c) now) d2) else d2)"

definition minute_tick ::
  "('sk, 'pk) rollout_service \<Rightarrow> (int \<Rightarrow> time \<Rightarrow> time) \<Rightarrow> server_config \<Rightarrow> bool \<Rightarrow> time \<Rightarrow> srv \<Rightarrow> srv" where
  "minute_tick svc days_ago c running now s =
     (let s1 = (if running then snd (Tick svc (s\<lparr>s_db := snd (ExpireStale (rs_commands svc) (s_db s))\<rparr>)) else s)
      in s1\<lparr>s_db := housekeeping days_ago c now (s_db s1)\<rparr>)"

section \<open>The agent's reconnections\<close>

definition backoffBase :: duration where "backoffBase = second"
definition backoffCap :: duration where "backoffCap = 5 * minute"

text \<open>Backoff with the jitter, a number from zero to half of the delay, as an argument.\<close>

definition backoff_delay :: "nat \<Rightarrow> duration" where
  "backoff_delay attempt = (if attempt < 20 then min (backoffBase * 2 ^ attempt) backoffCap else backoffCap)"

definition sim_Backoff :: "nat \<Rightarrow> (duration \<Rightarrow> duration) \<Rightarrow> duration" where
  "sim_Backoff attempt jitter = (let half = backoff_delay attempt div 2 in half + jitter half)"

text \<open>
  How a session ended: whether it had connected, whether the agent was told to stop while it ran,
  whether the server rejected the agent, and whether it was told to stop while waiting to reconnect.
\<close>

record session_end =
  sn_connected :: bool
  sn_cancelled :: bool
  sn_rejected :: bool
  sn_cancelled_waiting :: bool

datatype run_end = Stopped | Rejected

text \<open>The delays waited and how the loop ended, None while it goes on; sessions are what the loop meets.\<close>

fun runner_Run :: "(duration \<Rightarrow> duration) \<Rightarrow> nat \<Rightarrow> session_end list \<Rightarrow> duration list \<times> run_end option" where
  "runner_Run jitter attempt [] = ([], None)"
| "runner_Run jitter attempt (x # xs) =
     (let a = (if sn_connected x then 0 else attempt) in
      if sn_cancelled x then ([], Some Stopped)
      else if sn_rejected x then ([], Some Rejected)
      else if sn_cancelled_waiting x then ([sim_Backoff a jitter], Some Stopped)
      else (let (ds, r) = runner_Run jitter (Suc a) xs in (sim_Backoff a jitter # ds, r)))"

section \<open>Lemmas\<close>

fun hex_value :: "char \<Rightarrow> nat option" where
  "hex_value c = (let n = byte c in
     if 48 \<le> n \<and> n \<le> 57 then Some (n - 48)
     else if 65 \<le> n \<and> n \<le> 70 then Some (n - 55)
     else if 97 \<le> n \<and> n \<le> 102 then Some (n - 87) else None)"

fun PathUnescape :: "string \<Rightarrow> string option" where
  "PathUnescape [] = Some []"
| "PathUnescape (c # s) = (if c \<noteq> CHR ''%'' then map_option ((#) c) (PathUnescape s)
     else (case s of a # b # s' \<Rightarrow> (case (hex_value a, hex_value b) of
         (Some x, Some y) \<Rightarrow> map_option ((#) (char_of (16 * x + y))) (PathUnescape s') | _ \<Rightarrow> None) | _ \<Rightarrow> None))"

lemma hex_digit_value: "n < 16 \<Longrightarrow> hex_value (hex_digit n) = Some n"
proof -
  have "list_all (\<lambda>n. hex_value (hex_digit n) = Some n) [0..<16]" by code_simp
  then show "n < 16 \<Longrightarrow> hex_value (hex_digit n) = Some n" by (simp only: list_all_iff set_upt) simp
qed

lemma url_char_safe: "url_path_char c \<Longrightarrow> c \<noteq> CHR ''%'' \<and> c \<noteq> SLASH"
  by (auto simp: url_path_char_def SLASH_def)

lemma hex_digit_safe: "n < 16 \<Longrightarrow> hex_digit n \<noteq> SLASH"
proof -
  have "list_all (\<lambda>n. hex_digit n \<noteq> SLASH) [0..<16]" by code_simp
  then show "n < 16 \<Longrightarrow> hex_digit n \<noteq> SLASH" by (simp only: list_all_iff set_upt) simp
qed

lemma byte_nibbles: "byte c div 16 < 16" "byte c mod 16 < 16" "char_of (16 * (byte c div 16) + byte c mod 16) = c"
proof -
  have "byte c < 256" by (simp add: byte_def)
  then show "byte c div 16 < 16" by simp
qed (simp_all add: byte_def)

lemma unescape_char: "PathUnescape (escape_char c @ s) = map_option ((#) c) (PathUnescape s)"
proof -
  have "char_of (byte c) = c" by (simp add: byte_def)
  then show ?thesis by (simp add: escape_char_def url_char_safe hex_digit_value byte_nibbles del: hex_value.simps)
qed

lemma PathEscape_round_trip: "PathUnescape (PathEscape v) = Some v"
  by (induction v) (simp_all add: PathEscape_def unescape_char)

lemma PathEscape_no_slash: "SLASH \<notin> set (PathEscape v)"
  by (induction v) (auto simp: PathEscape_def escape_char_def url_char_safe SLASH_def hex_digit_safe [unfolded SLASH_def] byte_nibbles
    dest: url_char_safe [THEN conjunct2] sym)

text \<open>
  A release's address leads back to the release: behind the base address it has exactly the four segments
  of the download route, the third is the tenant's identifier and the fourth unescapes to the version,
  whatever characters the version has.
\<close>

theorem release_url_names_release:
  assumes "SLASH \<notin> set (id_text tenantID)"
  shows "\<exists>rest. ReleaseURL id_text c tenantID version = base_url c @ SLASH # rest
    \<and> segments rest = [''agent'', ''releases'', id_text tenantID, PathEscape version]
    \<and> PathUnescape (PathEscape version) = Some version"
proof (intro exI conjI)
  let ?rest = "''agent'' @ SLASH # ''releases'' @ SLASH # id_text tenantID @ SLASH # PathEscape version"
  show "ReleaseURL id_text c tenantID version = base_url c @ SLASH # ?rest"
    by (simp add: ReleaseURL_def SLASH_def)
  have "Split SLASH ?rest = [''agent'', ''releases'', id_text tenantID, PathEscape version]"
    using assms PathEscape_no_slash [of version]
    by (simp add: Split_once Split_none) (simp add: SLASH_def Split_once Split_none)
  then show "segments ?rest = [''agent'', ''releases'', id_text tenantID, PathEscape version]"
    by (simp add: SLASH_def)
qed (rule PathEscape_round_trip)

theorem release_url_names_release_witness:
  "\<exists>rest. ReleaseURL show_nat default_config 7 ''2.0/rc 1'' = ''http://localhost:8080'' @ SLASH # rest
    \<and> segments rest = [''agent'', ''releases'', ''7'', ''2.0%2Frc%201'']
    \<and> PathUnescape ''2.0%2Frc%201'' = Some ''2.0/rc 1''"
proof -
  have n: "show_nat 7 = ''7''" "base_url default_config = ''http://localhost:8080''" "PathEscape ''2.0/rc 1'' = ''2.0%2Frc%201''"
    by code_simp+
  have "SLASH \<notin> set (show_nat 7)" by (simp add: n SLASH_def)
  from release_url_names_release [where id_text = show_nat and tenantID = 7, OF this, of default_config "''2.0/rc 1''"] show ?thesis by (simp only: n)
qed

text \<open>The secret that was handed out is the one on disk, and a short one is refused for good.\<close>

lemma secret_on_disk:
  assumes "fst (LoadOrCreateMasterSecret rnd path k) = Inr b" "\<And>r. rnd = Inr r \<Longrightarrow> length r = masterLen"
  shows "dk_files (snd (LoadOrCreateMasterSecret rnd path k)) path = Some b \<and> masterLen \<le> length b"
proof -
  obtain r k1 where n: "next_io k = (r, k1)" by (cases "next_io k")
  note same = next_io_files [OF n]
  show ?thesis
  proof (cases "dk_files k path")
    case (Some b')
    with assms(1) n same show ?thesis by (auto simp: LoadOrCreateMasterSecret_def read_secret_def split: if_splits)
  next
    case None
    obtain ok k2 where w: "WriteFile path b k1 = (ok, k2)" by (cases "WriteFile path b k1")
    from None assms(1) n same have io: "r = IoOk" by (auto simp: LoadOrCreateMasterSecret_def read_secret_def split: if_splits)
    from None assms(1) n same io have rb: "rnd = Inr b" "ok"
      using w by (auto simp: LoadOrCreateMasterSecret_def read_secret_def split: if_splits sum.splits prod.splits)
    with w WriteFile_ok [of path b k1] have "dk_files k2 path = Some b" by simp
    moreover have "snd (LoadOrCreateMasterSecret rnd path k) = k2"
      using None n same io rb w by (simp add: LoadOrCreateMasterSecret_def read_secret_def)
    ultimately show ?thesis using assms(2) [of b] rb by simp
  qed
qed

lemma short_secret_refused:
  assumes "dk_files k path = Some b" "length b < masterLen"
  shows "\<not> is_ok (fst (LoadOrCreateMasterSecret rnd path k)) \<and> dk_files (snd (LoadOrCreateMasterSecret rnd path k)) path = Some b"
proof -
  obtain r k1 where n: "next_io k = (r, k1)" by (cases "next_io k")
  from assms next_io_files [OF n] n show ?thesis
    by (auto simp: LoadOrCreateMasterSecret_def read_secret_def)
qed

text \<open>
  C38: What was sealed can be opened after a restart: when the server got its master secret (from the file or
  fresh), a later start that can read the file gets the same secret, which is long enough to derive
  keys, and a sealer for the same purpose opens everything the earlier one sealed.
\<close>

theorem sealed_survives_restart:
  assumes "fst (LoadOrCreateMasterSecret rnd path k) = Inr b" "\<And>r. rnd = Inr r \<Longrightarrow> length r = masterLen"
    and "dk_files k' path = dk_files (snd (LoadOrCreateMasterSecret rnd path k)) path" "fst (next_io k') = IoOk"
    and "\<And>key n m. ae_decrypt A key n (ae_encrypt A key n m) = Inr m" "length nonce = ae_nonce_size A"
  shows "\<exists>key. NewSealer A b purpose = Inr key \<and> fst (LoadOrCreateMasterSecret rnd' path k') = Inr b
    \<and> Open_sealed A key (Seal A key nonce msg) = Inr msg"
proof -
  from secret_on_disk [OF assms(1,2)] have b: "dk_files k' path = Some b" "masterLen \<le> length b"
    using assms(3) by auto
  obtain k1 where n: "next_io k' = (IoOk, k1)" using assms(4) by (cases "next_io k'") auto
  from b next_io_files [OF n] n have "fst (LoadOrCreateMasterSecret rnd' path k') = Inr b"
    by (simp add: LoadOrCreateMasterSecret_def read_secret_def)
  moreover from b(2) have "NewSealer A b purpose = Inr (ae_hkdf A b purpose)" by (simp add: NewSealer_def Derive_def)
  ultimately show ?thesis using assms(5,6) by (auto simp: Open_sealed_def Seal_def)
qed

definition demo_aead :: aead where
  "demo_aead = \<lparr>ae_hkdf = (\<lambda>m p. m @ p), ae_nonce_size = 2, ae_encrypt = (\<lambda>k n m. rev m), ae_decrypt = (\<lambda>k n c. Inr (rev c))\<rparr>"

theorem sealed_survives_restart_witness:
  "\<exists>key. NewSealer demo_aead (replicate 32 CHR ''s'') ''totp'' = Inr key
    \<and> fst (LoadOrCreateMasterSecret (Inr (replicate 32 CHR ''x'')) ''master.key''
        (snd (LoadOrCreateMasterSecret (Inr (replicate 32 CHR ''s'')) ''master.key'' empty_disk))) = Inr (replicate 32 CHR ''s'')
    \<and> Open_sealed demo_aead key (Seal demo_aead key ''ab'' ''secret'') = Inr ''secret''"
proof -
  let ?s = "replicate 32 CHR ''s''"
  have first: "fst (LoadOrCreateMasterSecret (Inr ?s) ''master.key'' empty_disk) = Inr ?s"
    and "dk_io (snd (LoadOrCreateMasterSecret (Inr ?s) ''master.key'' empty_disk)) = []"
    by code_simp+
  then have io: "fst (next_io (snd (LoadOrCreateMasterSecret (Inr ?s) ''master.key'' empty_disk))) = IoOk" by (simp add: next_io_def)
  show ?thesis
    by (rule sealed_survives_restart [OF first _ refl io]) (simp_all add: demo_aead_def masterLen_def)
qed

section \<open>Setting up once\<close>

definition accounts_are :: "admin_row list \<Rightarrow> tenant_row list \<Rightarrow> db \<Rightarrow> bool" where
  "accounts_are A T d \<longleftrightarrow> admins d = A \<and> tenants d = T"

lemma accounts_pool:
  assumes "\<And>d. accounts_are A T d \<Longrightarrow> accounts_are A T (snd (stmt d))" "accounts_are A T d"
  shows "accounts_are A T (snd (pool stmt d))"
  by (rule pool_inv) (use assms in \<open>auto simp: accounts_are_def\<close>)

lemma accounts_reads:
  "accounts_are A T d \<Longrightarrow> accounts_are A T (snd (ListPolicies t d))"
  "accounts_are A T d \<Longrightarrow> accounts_are A T (snd (GetPolicy t i d))"
  "accounts_are A T d \<Longrightarrow> accounts_are A T (snd (ListRules t i d))"
  "accounts_are A T d \<Longrightarrow> accounts_are A T (snd (PutPolicyVersion v d))"
  "accounts_are A T d \<Longrightarrow> accounts_are A T (snd (AppendAudit t a b c e f g h d))"
  unfolding ListPolicies_def GetPolicy_def ListRules_def PutPolicyVersion_def AppendAudit_def
  by (rule accounts_pool; simp add: accounts_are_def lookup_def put_version_stmt_def)+

lemma accounts_Recompile: "accounts_are A T d \<Longrightarrow> accounts_are A T (snd (Recompile s t i d))"
  unfolding Recompile_def
  by (rule andThen_state, erule accounts_reads, rule andThen_state, erule accounts_reads, simp split: sum.split, intro allI conjI impI)
     (rule andThen_state, erule accounts_reads, simp)

lemma accounts_recompile_each: "accounts_are A T d \<Longrightarrow> accounts_are A T (snd (recompile_each s t ps acc d))"
proof (induction s t ps acc d rule: recompile_each.induct)
  case (2 s t p ps n firstErr d)
  obtain r d1 where r: "Recompile s t (po_id p) d = (r, d1)" by (cases "Recompile s t (po_id p) d")
  with accounts_Recompile [OF 2(3), of s t "po_id p"] have "accounts_are A T d1" by simp
  then show ?case using r 2(1) [OF r [symmetric]] 2(2) [OF r [symmetric]] by (cases r) simp_all
qed simp

lemma accounts_RecompileAll: "accounts_are A T d \<Longrightarrow> accounts_are A T (snd (RecompileAll s t d))"
  using accounts_reads(1) [of A T d t]
  by (auto simp: RecompileAll_def split: prod.splits sum.splits intro: accounts_recompile_each)

lemma Init_refused:
  assumes "tenants d \<noteq> []"
  obtains e fs where "Init env org d = (Inl e, d\<lparr>faults := fs\<rparr>)"
proof (cases "\<lambda>d :: db. (case tenants d of [] \<Rightarrow> Inl ErrNotFound | t # _ \<Rightarrow> Inr (tn_id t), d)" d rule: pool_cases)
  case (lost fs)
  then have "Init env org d = (Inl ErrConn, d\<lparr>faults := fs\<rparr>)" by (simp add: Init_def FirstTenant_def)
  then show thesis by (rule that)
next
  case (ran fs)
  obtain t ts where "tenants (d\<lparr>faults := fs\<rparr>) = t # ts" using assms by (cases "tenants d") simp_all
  with ran have "Init env org d = (Inl ErrAlreadyInitialized, d\<lparr>faults := fs\<rparr>)" by (simp add: Init_def FirstTenant_def)
  then show thesis by (rule that)
qed

lemma app_Initialize_refused:
  assumes "tenants d \<noteq> []"
  obtains e fs where "app_Initialize env bcrypt org email password d = (Inl e, d\<lparr>faults := fs\<rparr>)"
proof -
  obtain e fs where r: "Init env org d = (Inl e, d\<lparr>faults := fs\<rparr>)" using Init_refused [OF assms] .
  show thesis
  proof (cases "TrimSpace org = [] \<or> \<not> Contains email ''@''")
    case True
    then show thesis by (intro that [of _ "faults d"]) (simp add: app_Initialize_def)
  next
    case False
    then show thesis
      by (cases "HashPassword bcrypt password") (auto simp: app_Initialize_def r intro: that [of _ "faults d"] that [of _ fs])
  qed
qed

lemma CreateAdmin_made:
  assumes "CreateAdmin t a d = (Inr i, d')"
  shows "\<exists>x \<in> set (admins d'). ad_id x = i \<and> ad_tenant x = t \<and> ad_email x = ToLower (ad_email a) \<and> ad_role x = ad_role a
    \<and> ad_provider x = ad_provider a \<and> \<not> ad_disabled x" and "tenants d' \<noteq> []"
proof -
  obtain r where p: "pool (insert_admin_stmt (next_uuid d) t a) (snd (new_uuid d)) = (r, d')" and "i = next_uuid d" "is_ok r"
    using assms by (auto simp: CreateAdmin_def new_uuid_def conflict_def split: prod.splits sum.splits if_splits)
  then obtain fs where "insert_admin_stmt i t a ((snd (new_uuid d))\<lparr>faults := fs\<rparr>) = (Inr (), d')"
    by (cases r) (auto elim: pool_ok)
  then show "\<exists>x \<in> set (admins d'). ad_id x = i \<and> ad_tenant x = t \<and> ad_email x = ToLower (ad_email a) \<and> ad_role x = ad_role a
    \<and> ad_provider x = ad_provider a \<and> \<not> ad_disabled x" and "tenants d' \<noteq> []"
    by (auto simp: insert_admin_stmt_def tenant_exists_def Let_def split: if_splits)
qed

definition provider_owner :: "string \<Rightarrow> db \<Rightarrow> bool" where
  "provider_owner email d \<longleftrightarrow>
     (\<exists>x \<in> set (admins d). ad_email x = ToLower email \<and> ad_role x = ''owner'' \<and> ad_provider x \<and> \<not> ad_disabled x) \<and> tenants d \<noteq> []"

lemma provider_owner_frame: "accounts_are (admins d) (tenants d) d' \<Longrightarrow> provider_owner email d' = provider_owner email d"
  by (simp add: provider_owner_def accounts_are_def)

lemma app_Initialize_made:
  assumes "app_Initialize env bcrypt org email password d = (Inr k, d')"
  shows "tenants d = [] \<and> provider_owner email d'"
proof
  show "tenants d = []"
  proof (rule ccontr)
    assume "tenants d \<noteq> []"
    then show False by (rule app_Initialize_refused [of d env bcrypt org email password]) (use assms in simp)
  qed
  obtain hash d2 i d3 where a: "CreateAdmin (kt_tenant k) (new_admin email hash ''owner'' True) d2 = (Inr i, d3)"
    and d': "d' = snd (AppendAudit (kt_tenant k) (Txt ''system'') ''setup.complete'' '''' (Txt '''')
               [(''org'', DStr org), (''owner'', DStr email)] '''' ''success'' d3)"
    using assms by (auto simp: app_Initialize_def split: if_splits sum.splits elim!: andThen_ok)
  from CreateAdmin_made [OF a] have "provider_owner email d3" by (auto simp: provider_owner_def new_admin_def)
  moreover have "accounts_are (admins d3) (tenants d3) d'" unfolding d' by (rule accounts_reads) (simp add: accounts_are_def)
  ultimately show "provider_owner email d'" by (simp add: provider_owner_frame)
qed

lemma setup_created:
  assumes "rsp_code (fst (setup_handler E org email password s)) = 201"
  obtains k d1 where "\<not> fst s" "app_Initialize (st_keys E) (st_bcrypt E) (TrimSpace org) email password (snd s) = (Inr k, d1)"
    "snd (setup_handler E org email password s) = (True, snd (RecompileAll (st_policy E) (kt_tenant k) d1))"
  using assms by (auto simp: setup_handler_def app_setup_def activate_def writeErr_def Let_def split: if_splits prod.splits sum.splits)

text \<open>
  C37: A server is set up at most once. Setup answers 201 only when the server was not running and had no
  tenant, and then the server runs and the database has the enabled owner, with provider rights, whose address was given.
  While it runs, or once any tenant exists, setup is refused and no table is changed.
\<close>

theorem setup_at_most_once:
  "(rsp_code (fst (setup_handler E org email password s)) = 201 \<longrightarrow>
      \<not> fst s \<and> tenants (snd s) = [] \<and> fst (snd (setup_handler E org email password s))
      \<and> provider_owner email (snd (snd (setup_handler E org email password s))))
   \<and> (fst s \<or> tenants (snd s) \<noteq> [] \<longrightarrow>
      rsp_code (fst (setup_handler E org email password s)) \<noteq> 201
      \<and> (\<exists>fs. snd (setup_handler E org email password s) = (fst s, (snd s)\<lparr>faults := fs\<rparr>)))"
proof (intro conjI impI)
  assume "rsp_code (fst (setup_handler E org email password s)) = 201"
  then obtain k d1 where r: "\<not> fst s"
      "app_Initialize (st_keys E) (st_bcrypt E) (TrimSpace org) email password (snd s) = (Inr k, d1)"
      "snd (setup_handler E org email password s) = (True, snd (RecompileAll (st_policy E) (kt_tenant k) d1))"
    by (rule setup_created)
  note made = app_Initialize_made [OF r(2)]
  have "accounts_are (admins d1) (tenants d1) (snd (RecompileAll (st_policy E) (kt_tenant k) d1))"
    by (rule accounts_RecompileAll) (simp add: accounts_are_def)
  with made r show "\<not> fst s" "tenants (snd s) = []" "fst (snd (setup_handler E org email password s))"
      "provider_owner email (snd (snd (setup_handler E org email password s)))"
    by (simp_all add: provider_owner_frame)
next
  assume used: "fst s \<or> tenants (snd s) \<noteq> []"
  show "rsp_code (fst (setup_handler E org email password s)) \<noteq> 201"
    using used by (auto elim!: setup_created dest: app_Initialize_made)
  show "\<exists>fs. snd (setup_handler E org email password s) = (fst s, (snd s)\<lparr>faults := fs\<rparr>)"
  proof (cases "tenants (snd s) = []")
    case True
    with used show ?thesis by (cases s) (auto simp: setup_handler_def intro!: exI [of _ "faults (snd s)"])
  next
    case False
    obtain e fs where "app_Initialize (st_keys E) (st_bcrypt E) (TrimSpace org) email password (snd s) = (Inl e, (snd s)\<lparr>faults := fs\<rparr>)"
      using app_Initialize_refused [OF False] .
    then have "snd (setup_handler E org email password s) \<in> {s, (fst s, (snd s)\<lparr>faults := fs\<rparr>)}"
      by (simp add: setup_handler_def app_setup_def)
    moreover have "s = (fst s, (snd s)\<lparr>faults := faults (snd s)\<rparr>)" by simp
    ultimately show ?thesis by (elim insertE emptyE) (metis, blast)
  qed
qed

definition demo_setup :: "(bytes, unit) setup_env" where
  "demo_setup = \<lparr>st_keys = demo_keys, st_bcrypt = (\<lambda>p. Inr (''h'' @ p)),
     st_policy = \<lparr>ps_keys = (), ps_key_for = None, ps_sign = (\<lambda>_ b. b), ps_sha256 = (\<lambda>b. b), ps_sort = (\<lambda>r. r)\<rparr>, st_listening = True\<rparr>"

lemma demo_initialized:
  "\<exists>k d'. app_Initialize demo_keys (\<lambda>p. Inr (''h'' @ p)) ''Acme'' ''Root@X'' ''longpassword1'' empty_db = (Inr k, d')"
proof -
  let ?ks = "provisioned (\<lambda>x. CHR ''#'' # x) 0 (''Acme FreeLocker CA'', ''k'') (keyCommand, CHR ''p'' # keyCommand) (keyUpdate, CHR ''p'' # keyUpdate)"
  define d1 where "d1 = empty_db\<lparr>next_uuid := 1, tenants := [\<lparr>tn_id = 0, tn_name = ''Acme'', tn_suspended = False\<rparr>], server_keys := ?ks\<rparr>"
  have e: "faults empty_db = []" "tenants empty_db = []" "server_keys empty_db = []" "next_uuid empty_db = 0" "admins empty_db = []"
    by (simp_all add: empty_db_def)
  have "Init demo_keys ''Acme'' empty_db = ProvisionTenant demo_keys ''Acme'' empty_db"
    by (simp add: Init_def FirstTenant_def pool_def e)
  also have "\<dots> = (Inr 0, d1)"
    using ProvisionTenant_ok [of empty_db demo_keys "\<lambda>x. CHR ''#'' # x" "\<lambda>x. Inr (tl x)" "''Acme''"] by (simp add: e demo_keys_def d1_def)
  finally have i: "Init demo_keys ''Acme'' empty_db = (Inr 0, d1)" .
  have f: "faults d1 = []" "admins d1 = []" "tenants d1 = [\<lparr>tn_id = 0, tn_name = ''Acme'', tn_suspended = False\<rparr>]" "server_keys d1 = ?ks"
    by (simp_all add: d1_def e)
  let ?k = "\<lparr>kt_tenant = 0, kt_ca = ''Acme FreeLocker CA'', kt_command = CHR ''p'' # keyCommand, kt_update = CHR ''p'' # keyUpdate, kt_uninstall = ''u''\<rparr>"
  have l: "Load demo_keys d1 = (Inr ?k, d1)"
    by (simp add: Load_def FirstTenant_def pool_def f LoadForTenant_def open_key_def GetServerKey_def demo_keys_def provisioned_def
      keyCA_def keyCommand_def keyUpdate_def)
  have "is_ok (fst (CreateAdmin 0 (new_admin ''Root@X'' ''hlongpassword1'' ''owner'' True) d1))"
    by (simp add: CreateAdmin_def new_uuid_def pool_def f insert_admin_stmt_def new_admin_def Roles_def tenant_exists_def conflict_def Let_def)
  then obtain u d2 where a: "CreateAdmin 0 (new_admin ''Root@X'' ''hlongpassword1'' ''owner'' True) d1 = (Inr u, d2)"
    by (cases "CreateAdmin 0 (new_admin ''Root@X'' ''hlongpassword1'' ''owner'' True) d1") auto
  have g: "TrimSpace ''Acme'' \<noteq> []" "Contains ''Root@X'' ''@''" by code_simp+
  have h: "HashPassword (\<lambda>p. Inr (''h'' @ p)) ''longpassword1'' = Inr ''hlongpassword1''" by code_simp
  show ?thesis
    by (intro exI) (simp only: app_Initialize_def g h i l a andThen_simps sum.case tenant_keys.simps if_False simp_thms)
qed

theorem setup_at_most_once_witness:
  "provider_owner ''Root@X'' (snd (snd (setup_handler demo_setup ''Acme'' ''Root@X'' ''longpassword1'' (False, empty_db))))
   \<and> rsp_code (fst (setup_handler demo_setup ''Evil'' ''e@x'' ''longpassword2''
        (snd (setup_handler demo_setup ''Acme'' ''Root@X'' ''longpassword1'' (False, empty_db))))) \<noteq> 201"
proof -
  let ?s = "(False, empty_db)"
  have g: "TrimSpace ''Acme'' = ''Acme''" "Contains ''Root@X'' ''@''" by code_simp+
  obtain k d' where "app_Initialize demo_keys (\<lambda>p. Inr (''h'' @ p)) ''Acme'' ''Root@X'' ''longpassword1'' empty_db = (Inr k, d')"
    using demo_initialized by blast
  then have ok: "rsp_code (fst (setup_handler demo_setup ''Acme'' ''Root@X'' ''longpassword1'' ?s)) = 201"
    using g by (simp add: setup_handler_def app_setup_def activate_def demo_setup_def MinPasswordLen_def writeJSON_def Let_def)
  note first = setup_at_most_once [of demo_setup "''Acme''" "''Root@X''" "''longpassword1''" ?s, THEN conjunct1, THEN mp, OF ok]
  from first have running: "fst (snd (setup_handler demo_setup ''Acme'' ''Root@X'' ''longpassword1'' ?s))" by blast
  note second = setup_at_most_once [of demo_setup "''Evil''" "''e@x''" "''longpassword2''", THEN conjunct2, THEN mp, OF disjI1, OF running]
  from first second show ?thesis by blast
qed

section \<open>Housekeeping deletes only what nothing reads\<close>

text \<open>What the tick keeps: the failures since a moment, the open alerts, the decided requests, the audit log.\<close>

definition kept_by :: "time \<Rightarrow> db \<Rightarrow> login_failure_row list \<times> alert_row list \<times> approval_row list \<times> audit_row list \<Rightarrow> bool" where
  "kept_by since d v \<longleftrightarrow> v = (filter (\<lambda>f. since \<le> lf_at f) (login_failures d), filter (\<lambda>a. at_resolved_at a = None) (alerts d),
     filter (\<lambda>r. ar_status r \<notin> {APending, AExpired}) (approval_requests d), audit_log d)"

lemma kept_pool: "(\<And>d. kept_by since d v \<Longrightarrow> kept_by since (snd (stmt d)) v) \<Longrightarrow> kept_by since d v \<Longrightarrow> kept_by since (snd (pool stmt d)) v"
  by (rule pool_inv [where P = "\<lambda>d. kept_by since d v"]) (simp_all add: kept_by_def)

lemma kept_Prune: "kept_by since d v \<Longrightarrow> kept_by since (snd (PruneLoginFailures since d)) v"
proof -
  have f: "filter (\<lambda>f. since \<le> lf_at f) (filter (\<lambda>f. \<not> lf_at f < since) fs) = filter (\<lambda>f. since \<le> lf_at f) fs" for fs
    by (simp add: not_less)
  show "kept_by since d v \<Longrightarrow> ?thesis"
    unfolding PruneLoginFailures_def by (erule kept_pool [rotated]) (simp add: kept_by_def f del: filter_filter)
qed

lemma kept_purges:
  "kept_by since d v \<Longrightarrow> kept_by since (snd (purge device_metrics (\<lambda>d x. d\<lparr>device_metrics := x\<rparr>) P d)) v"
  "kept_by since d v \<Longrightarrow> kept_by since (snd (purge block_events (\<lambda>d x. d\<lparr>block_events := x\<rparr>) Q d)) v"
  unfolding purge_def by (rule kept_pool; simp add: kept_by_def)+

lemma kept_purge_alerts:
  assumes "kept_by since d v"
  shows "kept_by since (snd (purge alerts (\<lambda>d x. d\<lparr>alerts := x\<rparr>)
    (\<lambda>a. case at_resolved_at a of None \<Rightarrow> False | Some t \<Rightarrow> t < before) d)) v"
proof -
  have f: "filter (\<lambda>a. at_resolved_at a = None) (filter (\<lambda>a. \<not> (case at_resolved_at a of None \<Rightarrow> False | Some t \<Rightarrow> t < before)) as)
      = filter (\<lambda>a. at_resolved_at a = None) as" for as
    by (induction as) (auto split: option.splits)
  show ?thesis
    unfolding purge_def by (rule kept_pool [OF _ assms]) (simp add: kept_by_def f del: filter_filter)
qed

lemma kept_Retention: "kept_by since d v \<Longrightarrow> kept_by since (snd (Retention before d)) v"
proof -
  assume k: "kept_by since d v"
  obtain r1 d1 where p1: "purge device_metrics (\<lambda>d x. d\<lparr>device_metrics := x\<rparr>) (\<lambda>m. me_at m < before) d = (r1, d1)" by fastforce
  obtain r2 d2 where p2: "purge block_events (\<lambda>d x. d\<lparr>block_events := x\<rparr>) (\<lambda>b. bl_at b < before) d1 = (r2, d2)" by fastforce
  obtain r3 d3 where p3: "purge alerts (\<lambda>d x. d\<lparr>alerts := x\<rparr>)
    (\<lambda>a. case at_resolved_at a of None \<Rightarrow> False | Some t \<Rightarrow> t < before) d2 = (r3, d3)" by fastforce
  have "kept_by since d1 v" using kept_purges(1) [OF k] p1 by (metis snd_conv)
  moreover from this have "kept_by since d2 v" using kept_purges(2) p2 by (metis snd_conv)
  moreover from this have "kept_by since d3 v" using kept_purge_alerts p3 by (metis snd_conv)
  ultimately show ?thesis by (cases r1; cases r2; cases r3) (simp_all add: Retention_def p1 p2 p3)
qed

lemma kept_Expire: "kept_by since d v \<Longrightarrow> kept_by since (snd (ExpireApprovalRequests before d)) v"
proof -
  have f: "filter (\<lambda>r. ar_status r \<notin> {APending, AExpired})
      (update_where (\<lambda>r. ar_status r = APending \<and> ar_last_seen r < before) (\<lambda>r. r\<lparr>ar_status := AExpired\<rparr>) rs)
    = filter (\<lambda>r. ar_status r \<notin> {APending, AExpired}) rs" for rs
    by (induction rs) (auto simp: update_where_def)
  show "kept_by since d v \<Longrightarrow> ?thesis"
    unfolding ExpireApprovalRequests_def by (rule kept_pool) (simp_all add: kept_by_def f Let_def del: insert_iff)
qed

lemma kept_by_eq:
  assumes "kept_by since d v" "kept_by since d' v"
  shows "filter (\<lambda>f. since \<le> lf_at f) (login_failures d) = filter (\<lambda>f. since \<le> lf_at f) (login_failures d')
    \<and> filter (\<lambda>a. at_resolved_at a = None) (alerts d) = filter (\<lambda>a. at_resolved_at a = None) (alerts d')
    \<and> filter (\<lambda>r. ar_status r \<notin> {APending, AExpired}) (approval_requests d) = filter (\<lambda>r. ar_status r \<notin> {APending, AExpired}) (approval_requests d')
    \<and> audit_log d = audit_log d'"
  using assms unfolding kept_by_def by (metis prod.inject)

text \<open>
  C39: Housekeeping never weakens the log-in limiter and loses nothing that matters: for every account key and
  every later moment the number of failures the limiter counts is what it would have been without the
  tick, open alerts and decided approval requests are kept as they are, and the audit log is not touched.
\<close>

theorem housekeeping_keeps:
  assumes "now \<le> now'"
  shows "failure_count t key (now' - failWindow) (housekeeping days_ago c now d) = failure_count t key (now' - failWindow) d
    \<and> filter (\<lambda>a. at_resolved_at a = None) (alerts (housekeeping days_ago c now d)) = filter (\<lambda>a. at_resolved_at a = None) (alerts d)
    \<and> filter (\<lambda>r. ar_status r \<notin> {APending, AExpired}) (approval_requests (housekeeping days_ago c now d))
        = filter (\<lambda>r. ar_status r \<notin> {APending, AExpired}) (approval_requests d)
    \<and> audit_log (housekeeping days_ago c now d) = audit_log d"
proof -
  let ?since = "now - 15 * minute" and ?d' = "housekeeping days_ago c now d"
  obtain v where v: "kept_by ?since d v" by (simp add: kept_by_def)
  then have v': "kept_by ?since ?d' v"
    unfolding housekeeping_def Let_def by (auto intro!: kept_Prune kept_Retention kept_Expire split del: if_split split: if_split)
  have "failure_count t key (now' - failWindow) x = failure_count t key (now' - failWindow) y"
    if "filter (\<lambda>f. ?since \<le> lf_at f) (login_failures x) = filter (\<lambda>f. ?since \<le> lf_at f) (login_failures y)" for x y
  proof -
    have w: "filter (\<lambda>f. lf_tenant f = t \<and> lf_key f = key \<and> now' - failWindow \<le> lf_at f) fs
        = filter (\<lambda>f. lf_tenant f = t \<and> lf_key f = key \<and> now' - failWindow \<le> lf_at f) (filter (\<lambda>f. ?since \<le> lf_at f) fs)" for fs
      using assms by (induction fs) (auto simp: failWindow_def)
    show ?thesis unfolding failure_count_def w [of "login_failures x"] w [of "login_failures y"] that ..
  qed
  with kept_by_eq [OF v' v] show ?thesis by blast
qed

definition tick_db :: db where
  "tick_db = empty_db\<lparr>login_failures := [\<lparr>lf_tenant = 1, lf_key = ''k'', lf_at = 0\<rparr>, \<lparr>lf_tenant = 1, lf_key = ''k'', lf_at = 20 * minute\<rparr>]\<rparr>"

theorem housekeeping_keeps_witness:
  "failure_count 1 ''k'' (31 * minute - failWindow) (housekeeping (\<lambda>n t. t - n * 24 * hour) default_config (30 * minute) tick_db) = 1"
proof -
  have "failure_count 1 ''k'' (31 * minute - failWindow) tick_db = 1"
    by (simp add: failure_count_def tick_db_def failWindow_def minute_def second_def)
  with housekeeping_keeps [of "30 * minute" "31 * minute" 1 "''k''" "\<lambda>n t. t - n * 24 * hour" default_config tick_db]
  show ?thesis by (simp add: minute_def second_def)
qed

section \<open>When an agent stops reconnecting\<close>

definition retried :: "session_end \<Rightarrow> bool" where
  "retried x \<longleftrightarrow> \<not> sn_cancelled x \<and> \<not> sn_rejected x \<and> \<not> sn_cancelled_waiting x"

lemma backoff_delay_bounds: "second \<le> backoff_delay n" "backoff_delay n \<le> backoffCap"
proof -
  have "(1 :: int) \<le> 2 ^ n" by simp
  then have "second * 1 \<le> second * 2 ^ n" by (intro mult_left_mono) (simp_all add: second_def)
  then show "second \<le> backoff_delay n" by (simp add: backoff_delay_def backoffBase_def backoffCap_def minute_def second_def)
qed (simp add: backoff_delay_def)

lemma sim_Backoff_bounds:
  assumes "\<And>h. 0 \<le> h \<Longrightarrow> 0 \<le> jitter h \<and> jitter h \<le> h"
  shows "backoff_delay n div 2 \<le> sim_Backoff n jitter" "sim_Backoff n jitter \<le> backoff_delay n"
  using assms [of "backoff_delay n div 2"] backoff_delay_bounds(1) [of n] by (auto simp: sim_Backoff_def Let_def second_def)

lemma delays_bounded:
  assumes "\<And>h. 0 \<le> h \<Longrightarrow> 0 \<le> jitter h \<and> jitter h \<le> h"
  shows "x \<in> set (fst (runner_Run jitter n xs)) \<Longrightarrow> second div 2 \<le> x \<and> x \<le> backoffCap"
proof (induction xs arbitrary: n)
  case (Cons y ys)
  have b: "second div 2 \<le> sim_Backoff m jitter \<and> sim_Backoff m jitter \<le> backoffCap" for m
    using sim_Backoff_bounds [of jitter m, OF assms] backoff_delay_bounds [of m] by (auto intro: order_trans zdiv_mono1)
  from Cons show ?case by (auto simp: Let_def b case_prod_beta split: if_splits dest: Cons.IH)
qed simp

lemma run_outcome:
  "snd (runner_Run jitter n xs) = (case dropWhile retried xs of [] \<Rightarrow> None
     | x # _ \<Rightarrow> Some (if sn_rejected x \<and> \<not> sn_cancelled x then Rejected else Stopped))"
  by (induction xs arbitrary: n) (auto simp: retried_def Let_def case_prod_beta)

lemma run_resets:
  assumes "\<And>h. 0 \<le> h \<Longrightarrow> 0 \<le> jitter h \<and> jitter h \<le> h"
  shows "i < length (fst (runner_Run jitter n xs)) \<Longrightarrow> sn_connected (xs ! i) \<Longrightarrow> fst (runner_Run jitter n xs) ! i \<le> second"
proof (induction xs arbitrary: n i)
  case (Cons y ys)
  have z: "sim_Backoff 0 jitter \<le> second"
    using sim_Backoff_bounds(2) [of jitter 0, OF assms] by (simp add: backoff_delay_def backoffBase_def)
  obtain ds r where run: "runner_Run jitter (Suc (if sn_connected y then 0 else n)) ys = (ds, r)" by fastforce
  show ?case
  proof (cases i)
    case 0
    with Cons.prems z run show ?thesis by (auto simp: Let_def split: if_splits)
  next
    case (Suc j)
    with Cons.prems run have "fst (runner_Run jitter n (y # ys)) = sim_Backoff (if sn_connected y then 0 else n) jitter # ds" "j < length ds"
      by (auto simp: Let_def split: if_splits)
    with Suc Cons.IH [of j "Suc (if sn_connected y then 0 else n)"] Cons.prems(2) run show ?thesis by simp
  qed
qed simp

text \<open>
  C40: When an agent stops reconnecting. The loop ends only when the agent is told to stop or the server
  rejects it (and reports which), whatever other errors its sessions end with; each pause is between half a second and
  five minutes; and after a session that had connected the pause is at most a second, however long the agent had been failing before.
\<close>

theorem reconnects_until_told:
  assumes "\<And>h. 0 \<le> h \<Longrightarrow> 0 \<le> jitter h \<and> jitter h \<le> h"
  shows "snd (runner_Run jitter n xs) = (case dropWhile retried xs of [] \<Rightarrow> None
        | x # _ \<Rightarrow> Some (if sn_rejected x \<and> \<not> sn_cancelled x then Rejected else Stopped))
    \<and> list_all (\<lambda>x. second div 2 \<le> x \<and> x \<le> 5 * minute) (fst (runner_Run jitter n xs))
    \<and> (\<forall>i < length (fst (runner_Run jitter n xs)). sn_connected (xs ! i) \<longrightarrow> fst (runner_Run jitter n xs) ! i \<le> second)"
  using run_outcome [of jitter n xs] delays_bounded [of jitter _ n xs, OF assms] run_resets [of jitter _ n xs, OF assms]
  by (auto simp: list_all_iff backoffCap_def)

theorem reconnects_until_told_witness:
  "snd (runner_Run (\<lambda>h. h) 0
     [\<lparr>sn_connected = False, sn_cancelled = False, sn_rejected = False, sn_cancelled_waiting = False\<rparr>,
      \<lparr>sn_connected = False, sn_cancelled = False, sn_rejected = True, sn_cancelled_waiting = False\<rparr>]) = Some Rejected"
  using reconnects_until_told [of "\<lambda>h. h" 0
     "[\<lparr>sn_connected = False, sn_cancelled = False, sn_rejected = False, sn_cancelled_waiting = False\<rparr>,
      \<lparr>sn_connected = False, sn_cancelled = False, sn_rejected = True, sn_cancelled_waiting = False\<rparr>]"]
  by (simp add: retried_def)

end
