(* ===== verification/Spec2Isabelle.thy ===== *)
theory Spec2Isabelle
  imports Rollout Syslog Auth Enrollment Approvals Tenancy Agent_Session Exports Channels Updates Provenance Identity Console Server
begin

text \<open>
  FreeLocker is application control for Windows fleets: a server written in Go that keeps
  everything in Postgres, answers a web console over HTTP and agents over gRPC, and a Windows
  agent. This library models the decision-making part of both sides and proves what makes it
  correct. File names below are relative to \<^verbatim>\<open>src/internal/\<close>.

  \<^bold>\<open>The system.\<close> The store (\<^verbatim>\<open>server/store\<close>) is the only state the server components share.
  Console handlers (\<^verbatim>\<open>server/httpapi\<close>) and agent calls (\<^verbatim>\<open>server/agentapi\<close>) read and write it one
  statement at a time; background loops (rollout reconciliation, the notification dispatcher)
  do the same. The hub (\<^verbatim>\<open>server/hub\<close>) holds the live agent streams, over which commands
  are delivered. Policies are compiled to Windows application-control documents, signed per tenant and
  fetched by agents; block events come back and become approval requests. Ringfences and
  controls are resolved per device and enforced by the agent on the machine.

  \<^bold>\<open>Foundations.\<close>
  \<^item> \<open>Prelude\<close>: results and errors as values, Go's strings, durations and UTF-8, list and row updates.
  \<^item> \<open>Store_State\<close>: the tables as one record \<open>db\<close> of row lists, the pool and transactions, the
    audit trail. A statement is a function on \<open>db\<close>; \<open>pool\<close> runs it unless the next entry of
    the \<open>faults\<close> oracle makes the connection fail instead; \<open>tx\<close> rolls back when its body fails or
    the commit does. So every handler has its failure paths.
  \<^item> \<open>Http\<close>: responses, error mapping and the audit helper the handlers share.
  \<^item> \<open>Isolation\<close>: the locale \<open>isolation\<close>: operations that respect a view of the state, one step
    at a time, respect it over whole histories. \<open>Tenancy\<close> interprets it.

  \<^bold>\<open>Components.\<close>
  \<^item> \<open>Hub\<close> (\<^verbatim>\<open>server/hub\<close>): registration, supersession and removal of streams as a step relation; at
    most one live stream per device.
  \<^item> \<open>Commands\<close> (\<^verbatim>\<open>server/commands\<close>, \<^verbatim>\<open>store/commands.go\<close>, \<^verbatim>\<open>agent/executor\<close>): issuing, signing, delivery
    and the executor's memory; commands end once, run at most once, and are delivered on reconnection.
  \<^item> \<open>Syslog\<close>, \<open>Notify\<close> (\<^verbatim>\<open>server/notify\<close>, \<^verbatim>\<open>store/notifications.go\<close>): the wire formats, the outbox and
    the dispatcher; one record per message, no forged fields, bounded attempts, termination of a drain.
  \<^item> \<open>Rollout\<close> (\<^verbatim>\<open>server/rollout\<close>, \<^verbatim>\<open>store/rollouts.go\<close>, \<^verbatim>\<open>httpapi/rollouts.go\<close>): staged agent updates;
    one open rollout per tenant, batch size, automatic pause, atomic rollback.
  \<^item> \<open>Devices\<close>, \<open>Enrollment\<close> (\<^verbatim>\<open>server/tokens\<close>, \<^verbatim>\<open>store/tokens.go\<close>, \<^verbatim>\<open>store/devices.go\<close>, \<^verbatim>\<open>agentapi\<close>): install
    tokens, enrollment, device identity; token budgets, revocation, the fleet invariant.
  \<^item> \<open>Accounts\<close>, \<open>Auth\<close> (\<^verbatim>\<open>server/bootstrap\<close>, \<^verbatim>\<open>server/auth\<close>, \<^verbatim>\<open>httpapi/authn.go\<close>, \<^verbatim>\<open>admins.go\<close>, \<^verbatim>\<open>provider.go\<close>):
    tenants and their keys, sessions, both log-in factors, roles; the role gate, the log-in limiter, owners.
  \<^item> \<open>Wdac\<close>, \<open>Policies\<close>, \<open>Approvals\<close> (\<^verbatim>\<open>appcontrol\<close>, \<^verbatim>\<open>server/policysvc\<close>, \<^verbatim>\<open>store/policies.go\<close>,
    \<^verbatim>\<open>observations.go\<close>, \<^verbatim>\<open>approvals.go\<close> and their handlers): the compiler byte by byte with a reader for
    its documents, policy versions, block events and approval; what is compiled is exactly what was allowed,
    and an approval reaches the devices.
  \<^item> \<open>Ringfence\<close>, \<open>Controls\<close>, \<open>Tenancy\<close> (\<^verbatim>\<open>store/ringfence.go\<close>, \<^verbatim>\<open>store/controls.go\<close>, \<^verbatim>\<open>httpapi/ringfences.go\<close>,
    \<^verbatim>\<open>httpapi/telemetry.go\<close>): containment on the server, and that no console request of one tenant changes
    what another tenant's devices are given.
  \<^item> \<open>Containment\<close> (\<^verbatim>\<open>agent/ringfence\<close>, \<^verbatim>\<open>agent/runner\<close>): the agent's reconciliation with the machine.

  \<^item> \<open>Alerting\<close> (\<^verbatim>\<open>server/alerting\<close>, \<^verbatim>\<open>store/metrics.go\<close>, \<^verbatim>\<open>store/ratelimit.go\<close>, \<^verbatim>\<open>store/retention.go\<close>): samples, rules,
    alerts; an alert is open exactly while a breach is sustained.
  \<^item> \<open>Endpoint\<close> (\<^verbatim>\<open>agent/controls\<close>, \<^verbatim>\<open>agent/enforcer\<close>, \<^verbatim>\<open>agent/blocks\<close>, \<^verbatim>\<open>agent/events\<close>): device controls, deployment of a
    policy and the event logs on the machine; blocking outbound traffic never cuts off the server.
  \<^item> \<open>Agent_Session\<close> (\<^verbatim>\<open>agentapi/policy.go\<close>, \<^verbatim>\<open>agent/runner\<close>): the calls of a session and the agent's use of them; a
    recompiled policy reaches the machine.
  \<^item> \<open>Exports\<close> (\<^verbatim>\<open>httpapi/exports.go\<close>, \<^verbatim>\<open>httpapi/auditlog.go\<close>, \<^verbatim>\<open>store/audit.go\<close>): CSV with its reader, the paged audit
    export with other requests in between; the export is exact.
  \<^item> \<open>Channels\<close> (\<^verbatim>\<open>httpapi/notifications.go\<close>): the notification handlers; stored channels stay valid.
  \<^item> \<open>Disk\<close>, \<open>Updates\<close> (\<^verbatim>\<open>httpapi/releases.go\<close>, \<^verbatim>\<open>agent/actions\<close>, \<^verbatim>\<open>agent/updater\<close>, \<^verbatim>\<open>../cmd/agent-updater\<close>): a file system whose
    calls may fail, and the path of a new agent binary from upload to swap; hosting refines a map, only signed bytes are
    staged, a swap never loses the agent.
  \<^item> \<open>Authenticode\<close>, \<open>Provenance\<close> (\<^verbatim>\<open>agent/scan\<close>, \<^verbatim>\<open>agent/motw\<close>, \<^verbatim>\<open>appcontrol/signature\<close>): the hash of an image at machine
    widths, the mark of the web, the publisher, the scan; the ranges are exact and signing keeps the hash.
  \<^item> \<open>Identity\<close> (\<^verbatim>\<open>server/ca\<close>, \<^verbatim>\<open>agent/identity\<close>, \<^verbatim>\<open>agent/config\<close>, \<^verbatim>\<open>agent/agentpaths\<close>, \<^verbatim>\<open>../cmd/agent\<close>): certificates, the
    identity files, renewal, configuration and uninstall; enrollment reads back, and the token goes to the pinned server only.
  \<^item> \<open>Routes\<close>, \<open>Console\<close> (\<^verbatim>\<open>httpapi/routes.go\<close>, \<^verbatim>\<open>httpapi/api.go\<close> and the reading handlers): the whole route table with its
    middlewares, and what the console shows; who can reach which handler, and that answers depend on the caller's tenant only.
  \<^item> \<open>Server\<close> (\<^verbatim>\<open>server/config\<close>, \<^verbatim>\<open>server/keys\<close>, \<^verbatim>\<open>server/app\<close>, \<^verbatim>\<open>sim/backoff.go\<close>, the runner's outer loop): configuration, the
    master secret, setup, the work of every minute, reconnection.

  \<^bold>\<open>Conventions.\<close> Instants and durations are nanoseconds as unbounded integers, except where a
  product is computed at 64 bits, which is written out. Strings are byte lists; case mapping and
  white space are the ASCII ones; the collation is bytewise. Rows of a table are in order of
  insertion, which is the order of \<^verbatim>\<open>created_at\<close>. JSON decoding and path parameters are done
  before a handler's model starts. Cryptography, random values, X.509, bcrypt, TOTP, \<^verbatim>\<open>sort.Slice\<close>,
  the order of map iteration, the network and the Windows machine are parameters; each theorem names
  what it relies on, and its witness gives an instance. The UTF-8 check of text columns
  is modelled where an unchecked text reaches it (delivery errors), the 32-bit range where a request
  can exceed it (token uses). Columns nothing reads back (issued_by, added_by) are left out.

  \<^bold>\<open>Interfaces.\<close> \<open>lifecycle_inv\<close> and \<open>lifecycle\<close> (a status that moves along edges only; interpreted by commands,
  deliveries, requests and rollouts), \<open>message_sink\<close> (the hub), \<open>emitter\<close> (the notifier and its empty stand-in) and
  \<open>isolation\<close> (tenancy) are the contracts components rely on; the properties rest on their interpretations.

  \<^bold>\<open>Bounds.\<close> Every operation is total except the dispatcher's drain loop, which is a partial function with
  value None when it does not return; its termination theorem shows that it does. No definition takes fuel but the updater's polls, whose number is the deadline over the
  interval (30 and 40); the reconnections of the agent recurse over the outcomes they meet, the paged export over
  the pages that are left.

  \<^bold>\<open>Not modelled.\<close> Generated protobuf code; flag parsing, signals, listeners and goroutine start-up of the entry points;
  migrations and the opening of the connection pool; serving the embedded web console; JSON decoding; the
  Windows calls below the agent's components (services, DPAPI, performance counters, volume names, WinVerifyTrust), which
  are parameters; the lists of administrators, tenants, tokens and block events, which print columns the tables of the model
  leave out; the load simulator. None of them decides anything that the theorems depend on.
\<close>

end
